(* ===== verification/Arras_Prelude.thy ===== *)
theory Arras_Prelude
  imports Main "HOL-Library.Word"
begin

text \<open>
  Shared vocabulary of the development.

  \<^item> The exceptions the sources throw, as one datatype. Two constructors are not C++ exceptions
    but outcomes of the model: \<open>Undefined\<close> marks a point where the C++ code has undefined
    behaviour (an index outside a vector, a null pointer, a value that was only partly read), and
    \<open>NoReturn\<close> marks a loop that makes no progress and never returns.
  \<^item> The shape of every stateful operation: a state-passing function that returns either an
    exception or a value, together with the state the object is left in. The state is returned on
    the exceptional path too, because callers of the C++ code catch and go on.
  \<^item> Little-endian memory images of integers (the sources copy values byte by byte in the memory
    representation of the machine) and the lemmas that make them a codec.
  \<^item> \<open>std::map\<close> as an association list sorted by key, so that iteration order is the one the
    code sees.
\<close>

subsection \<open>Machine types\<close>

type_synonym byte = "8 word"
type_synonym u16 = "16 word"
type_synonym u32 = "32 word"
type_synonym u64 = "64 word"

text \<open>
  \<open>size_t\<close> values are natural numbers below \<open>2 ^ 64\<close>; the sizes of objects in memory never
  reach the bound, but differences can be taken in the wrong order, and then wrap.
\<close>

definition SIZE_MOD :: nat where
  "SIZE_MOD = 2 ^ 64"

definition size_sub :: "nat \<Rightarrow> nat \<Rightarrow> nat" where
  "size_sub a b = (if b \<le> a then a - b else a + SIZE_MOD - b)"

lemma size_sub_le [simp]: "b \<le> a \<Longrightarrow> size_sub a b = a - b"
  by (simp add: size_sub_def)

subsection \<open>Exceptions\<close>

text \<open>
  \<open>errno\<close> values by name (\<open>E_none\<close> is 0, \<open>EWOULDBLOCK\<close> is \<open>EAGAIN\<close>), and the enums \<open>PeerException::Code\<close>,
  \<open>ClientException::Type\<close>.
\<close>

datatype errno =
    E_none | EINTR | EAGAIN | EACCES | EAFNOSUPPORT | EINVAL | EMFILE | EISDIR | ENOTDIR | ENOENT | ENFILE
  | ENOBUFS | ENOMEM | EPROTONOSUPPORT | EPROTO | EBADF | ECONNREFUSED | ECONNABORTED | ECONNRESET | EPIPE
  | EFAULT | ENOTCONN | ENOTSOCK | EADDRINUSE | EOPNOTSUPP | ETIMEDOUT | ETIME | E_other int

datatype peer_code =
    IN_USE | NO_HOST | ADDRESS_NOT_FOUND | NAME_SERVER_ERROR | CONNECTION_CLOSED | CONNECTION_REFUSED
  | CONNECTION_RESET | CONNECTION_ABORT | NOT_CONNECTED | PERMISSION_DENIED | UNSUPPORTED_ADDRESS_FAMILY
  | INVALID_OPERATION | INVALID_PARAMETER | INVALID_PROTOCOL | INVALID_DESCRIPTOR | FILES
  | INSUFFICIENT_MEMORY | INTERRUPTED | TIMEOUT | NOT_INITIALIZED | UNKNOWN

datatype client_error =
    UNKNOWN_ERROR | GENERAL_ERROR | CONNECTION_ERROR | SERVICE_REQUEST_ERROR | SEND_ERROR
  | AUTHENTICATION_ERROR | NO_AVAILABLE_RESOURCES_ERROR

datatype exn =
    FramingError string
  | OutOfMemoryError string
  | MessageFormatError string
  | InternalError string
  | KeyError string
  | ShutdownException string
  | PeerException errno peer_code string
  | PeerDisconnectException string
  | InvalidParameterError string
  | FileError string
  | ObjectFormatError string
  | LogicError string
  | InvalidArgument string
  | ClientException client_error string
  | HttpException string
  | SessionError string
  | DefinitionLoadError string
  | DefinitionSaveError string
  | DefinitionAttachError string
  | ConfigurationError string
  | ComputationLoadError string
  | LoadError string
  | LogClientException string
  | StdException string
  | CharPointer string
  | Undefined string
  | NoReturn string

text \<open>An exception that leaves a thread, or a thread object that is joinable when it is overwritten or destroyed.\<close>

definition std_terminate :: exn where
  "std_terminate = Undefined ''std::terminate''"

text \<open>\<open>what()\<close>: the message an exception was made with.\<close>

fun exn_what :: "exn \<Rightarrow> string" where
  "exn_what (FramingError m) = m"
| "exn_what (OutOfMemoryError m) = m"
| "exn_what (MessageFormatError m) = m"
| "exn_what (InternalError m) = m"
| "exn_what (KeyError m) = m"
| "exn_what (ShutdownException m) = m"
| "exn_what (PeerException _ _ m) = m"
| "exn_what (PeerDisconnectException m) = m"
| "exn_what (InvalidParameterError m) = m"
| "exn_what (FileError m) = m"
| "exn_what (ObjectFormatError m) = m"
| "exn_what (LogicError m) = m"
| "exn_what (InvalidArgument m) = m"
| "exn_what (ClientException _ m) = m"
| "exn_what (HttpException m) = m"
| "exn_what (SessionError m) = m"
| "exn_what (DefinitionLoadError m) = m"
| "exn_what (DefinitionSaveError m) = m"
| "exn_what (DefinitionAttachError m) = m"
| "exn_what (ConfigurationError m) = m"
| "exn_what (ComputationLoadError m) = m"
| "exn_what (LoadError m) = m"
| "exn_what (LogClientException m) = m"
| "exn_what (StdException m) = m"
| "exn_what (CharPointer m) = m"
| "exn_what (Undefined m) = m"
| "exn_what (NoReturn m) = m"

subsection \<open>Operations with state and exceptions\<close>

type_synonym ('s, 'a) proc = "'s \<Rightarrow> (exn + 'a) \<times> 's"

definition ret :: "'a \<Rightarrow> ('s, 'a) proc" where
  "ret a s = (Inr a, s)"

definition raise :: "exn \<Rightarrow> ('s, 'a) proc" where
  "raise e s = (Inl e, s)"

definition bindp :: "('s, 'a) proc \<Rightarrow> ('a \<Rightarrow> ('s, 'b) proc) \<Rightarrow> ('s, 'b) proc" where
  "bindp m f s = (case m s of (Inl e, s') \<Rightarrow> (Inl e, s') | (Inr a, s') \<Rightarrow> f a s')"

definition seqp :: "('s, 'a) proc \<Rightarrow> ('s, 'b) proc \<Rightarrow> ('s, 'b) proc" where
  "seqp m n = bindp m (\<lambda>_. n)"

text \<open>\<open>zoom g p m\<close> runs \<open>m\<close> on the member object that \<open>g\<close> reads and \<open>p\<close> stores.\<close>

definition zoom :: "('t \<Rightarrow> 's) \<Rightarrow> ('s \<Rightarrow> 't \<Rightarrow> 't) \<Rightarrow> ('s, 'a) proc \<Rightarrow> ('t, 'a) proc" where
  "zoom g p m t = (case m (g t) of (r, s') \<Rightarrow> (r, p s' t))"

definition upd :: "('s \<Rightarrow> 's) \<Rightarrow> ('s, unit) proc" where
  "upd f s = (Inr (), f s)"

definition gets :: "('s \<Rightarrow> 'a) \<Rightarrow> ('s, 'a) proc" where
  "gets f s = (Inr (f s), s)"

text \<open>Running a loop body over a list, stopping at the first exception.\<close>

primrec forp :: "'x list \<Rightarrow> ('x \<Rightarrow> ('s, unit) proc) \<Rightarrow> ('s, unit) proc" where
  "forp [] f = ret ()"
| "forp (x # xs) f = seqp (f x) (forp xs f)"

text \<open>Results that depend on no state.\<close>

definition sbind :: "exn + 'a \<Rightarrow> ('a \<Rightarrow> exn + 'b) \<Rightarrow> exn + 'b" where
  "sbind r f = (case r of Inl e \<Rightarrow> Inl e | Inr a \<Rightarrow> f a)"

definition liftr :: "exn + 'a \<Rightarrow> ('s, 'a) proc" where
  "liftr r s = (r, s)"

lemma sbind_simps [simp]: "sbind (Inl e) f = Inl e" "sbind (Inr a) f = f a"
  by (simp_all add: sbind_def)

lemma liftr_run [simp]: "liftr r s = (r, s)"
  by (simp add: liftr_def)

lemma ret_run [simp]: "ret a s = (Inr a, s)"
  by (simp add: ret_def)

lemma raise_run [simp]: "raise e s = (Inl e, s)"
  by (simp add: raise_def)

lemma upd_run [simp]: "upd f s = (Inr (), f s)"
  by (simp add: upd_def)

lemma gets_run [simp]: "gets f s = (Inr (f s), s)"
  by (simp add: gets_def)

lemma bindp_Inr [simp]: "m s = (Inr a, s') \<Longrightarrow> bindp m f s = f a s'"
  by (simp add: bindp_def)

lemma bindp_Inl [simp]: "m s = (Inl e, s') \<Longrightarrow> bindp m f s = (Inl e, s')"
  by (simp add: bindp_def)

lemma seqp_Inr [simp]: "m s = (Inr a, s') \<Longrightarrow> seqp m n s = n s'"
  by (simp add: seqp_def)

lemma seqp_Inl [simp]: "m s = (Inl e, s') \<Longrightarrow> seqp m n s = (Inl e, s')"
  by (simp add: seqp_def)

lemma zoom_run [simp]: "m (g t) = (r, s') \<Longrightarrow> zoom g p m t = (r, p s' t)"
  by (simp add: zoom_def)

lemma bindp_InrE:
  assumes "bindp m f s = (Inr b, t)"
  obtains a s' where "m s = (Inr a, s')" and "f a s' = (Inr b, t)"
  using assms by (auto simp: bindp_def split: prod.splits sum.splits)

lemma seqp_InrE:
  assumes "seqp m n s = (Inr b, t)"
  obtains a s' where "m s = (Inr a, s')" and "n s' = (Inr b, t)"
  using assms by (auto simp: seqp_def elim: bindp_InrE)

lemma bindp_assoc: "bindp (bindp m f) g = bindp m (\<lambda>a. bindp (f a) g)"
  by (rule ext) (auto simp: bindp_def split: prod.splits sum.splits)

lemma seqp_assoc: "seqp (seqp a b) c = seqp a (seqp b c)"
  by (simp add: seqp_def bindp_assoc)

lemma seqp_ret_left [simp]: "seqp (ret a) m = m"
  by (rule ext) simp

lemma forp_append: "forp (xs @ ys) f = seqp (forp xs f) (forp ys f)"
  by (induction xs) (simp_all add: seqp_assoc)

text \<open>The first elements of a list, by index.\<close>

lemma map_nth_take: "n \<le> length xs \<Longrightarrow> map (\<lambda>i. f (xs ! i)) [0..<n] = map f (take n xs)"
  by (rule nth_equalityI) simp_all

text \<open>
  The exceptions a \<^verbatim>\<open>catch (std::exception&)\<close> clause takes: every class of the source's, but not a
  string literal that is thrown, and neither of the model's own two outcomes.
\<close>

definition is_std_exception :: "exn \<Rightarrow> bool" where
  "is_std_exception e = (case e of CharPointer _ \<Rightarrow> False | Undefined _ \<Rightarrow> False | NoReturn _ \<Rightarrow> False | _ \<Rightarrow> True)"

text \<open>
  An operation that changes the state only where \<open>g\<close> does not see it, however it ends. The rules for building such
  operations are collected in \<open>keeping\<close>.
\<close>

definition keeps :: "('s \<Rightarrow> 'b) \<Rightarrow> ('s, 'a) proc \<Rightarrow> bool" where
  "keeps g m \<longleftrightarrow> (\<forall>s. g (snd (m s)) = g s)"

named_theorems keeping

lemma keepsD: "keeps g m \<Longrightarrow> m s = (r, s') \<Longrightarrow> g s' = g s"
  unfolding keeps_def by (metis snd_conv)

lemma keeps_bindp [keeping]:
  assumes "keeps g m" and "\<And>a. keeps g (f a)"
  shows "keeps g (bindp m f)"
  using assms by (auto simp: keeps_def bindp_def split: prod.split sum.split) (metis snd_conv)+

lemma keeps_seqp [keeping]: "keeps g m \<Longrightarrow> keeps g n \<Longrightarrow> keeps g (seqp m n)"
  by (simp add: seqp_def keeps_bindp)

lemma keeps_simple [keeping]: "keeps g (ret a)" "keeps g (raise e)" "keeps g (gets h)" "keeps g (liftr r)"
  by (simp_all add: keeps_def ret_def raise_def gets_def liftr_def)

lemma keeps_upd [keeping]: "(\<And>s. g (f s) = g s) \<Longrightarrow> keeps g (upd f)"
  by (simp add: keeps_def upd_def)

lemma keeps_if [keeping]: "keeps g m \<Longrightarrow> keeps g n \<Longrightarrow> keeps g (if b then m else n)"
  by simp

lemma keeps_case [keeping]:
  "(\<And>e. keeps g (f e)) \<Longrightarrow> (\<And>a. keeps g (h a)) \<Longrightarrow> keeps g (case r of Inl e \<Rightarrow> f e | Inr a \<Rightarrow> h a)"
  "keeps g m \<Longrightarrow> (\<And>a. keeps g (k a)) \<Longrightarrow> keeps g (case v of None \<Rightarrow> m | Some a \<Rightarrow> k a)"
  by (auto split: sum.split option.split)

lemma keeps_forp [keeping]: "(\<And>x. keeps g (f x)) \<Longrightarrow> keeps g (forp xs f)"
  by (induction xs) (auto intro: keeping)

lemma keeps_zoom [keeping]: "(\<And>s t. g (p s t) = g t) \<Longrightarrow> keeps g (zoom r p m)"
  by (simp add: keeps_def zoom_def split: prod.split)

subsection \<open>Little-endian memory images\<close>

primrec le_bytes :: "nat \<Rightarrow> nat \<Rightarrow> byte list" where
  "le_bytes 0 v = []"
| "le_bytes (Suc n) v = word_of_nat v # le_bytes n (v div 256)"

primrec le_nat :: "byte list \<Rightarrow> nat" where
  "le_nat [] = 0"
| "le_nat (b # bs) = unat b + 256 * le_nat bs"

lemma length_le_bytes [simp]: "length (le_bytes n v) = n"
  by (induction n arbitrary: v) simp_all

lemma unat_byte_of_nat: "unat (word_of_nat v :: byte) = v mod 256"
  by (simp add: unat_of_nat)

lemma le_nat_le_bytes: "le_nat (le_bytes n v) = v mod 256 ^ n"
proof (induction n arbitrary: v)
  case 0
  then show ?case by simp
next
  case (Suc n)
  have "le_nat (le_bytes (Suc n) v) = v mod 256 + 256 * (v div 256 mod 256 ^ n)"
    by (simp add: unat_byte_of_nat Suc.IH)
  also have "\<dots> = v mod (256 * 256 ^ n)"
    by (simp add: mod_mult2_eq)
  finally show ?case by simp
qed

lemma le_nat_le_bytes_id [simp]: "v < 256 ^ n \<Longrightarrow> le_nat (le_bytes n v) = v"
  by (simp add: le_nat_le_bytes)

lemma byte_unat_less: "unat (b :: byte) < 256"
  using unsigned_less [of b] by simp

lemma le_bytes_le_nat [simp]: "le_bytes (length bs) (le_nat bs) = bs"
proof (induction bs)
  case Nil
  then show ?case by simp
next
  case (Cons b bs)
  have "(unat b + 256 * le_nat bs) div 256 = le_nat bs"
    using byte_unat_less [of b] by simp
  moreover have "(word_of_nat (unat b + 256 * le_nat bs) :: byte) = b"
  proof -
    have "unat (word_of_nat (unat b + 256 * le_nat bs) :: byte) = (unat b + 256 * le_nat bs) mod 256"
      by (rule unat_byte_of_nat)
    also have "\<dots> = unat b"
      using byte_unat_less [of b] by simp
    finally show ?thesis by (rule word_unat_eq_iff [THEN iffD2])
  qed
  ultimately show ?case
    using Cons.IH by simp
qed

lemma le_nat_less: "le_nat bs < 256 ^ length bs"
proof (induction bs)
  case Nil
  then show ?case by simp
next
  case (Cons b bs)
  have "unat b + 256 * le_nat bs < 256 * (le_nat bs + 1)"
    using byte_unat_less [of b] by simp
  also have "\<dots> \<le> 256 * 256 ^ length bs"
    using Cons.IH by simp
  finally show ?case by simp
qed

text \<open>The memory image of an unsigned (or two's complement) integer of any width.\<close>

definition word_bytes :: "'a::len word \<Rightarrow> byte list" where
  "word_bytes w = le_bytes (LENGTH('a) div 8) (unat w)"

definition bytes_word :: "byte list \<Rightarrow> 'a::len word" where
  "bytes_word bs = word_of_nat (le_nat bs)"

lemma length_word_bytes [simp]: "length (word_bytes (w :: 'a::len word)) = LENGTH('a) div 8"
  by (simp add: word_bytes_def)

lemma unat_less_pow: "unat (w :: 'a::len word) < 2 ^ LENGTH('a)"
  by (rule unsigned_less)

lemma pow_256_div8: "8 dvd n \<Longrightarrow> (256 :: nat) ^ (n div 8) = 2 ^ n"
proof -
  assume "8 dvd n"
  then obtain k where k: "n = 8 * k" by blast
  have "(256 :: nat) ^ k = (2 ^ 8) ^ k" by simp
  also have "\<dots> = 2 ^ (8 * k)" by (simp only: power_mult)
  finally show ?thesis using k by simp
qed

lemma bytes_word_word_bytes [simp]:
  assumes "8 dvd LENGTH('a::len)"
  shows "bytes_word (word_bytes (w :: 'a word)) = w"
proof -
  have "unat w < 256 ^ (LENGTH('a) div 8)"
    using unat_less_pow [of w] assms by (simp add: pow_256_div8)
  then show ?thesis
    by (simp add: bytes_word_def word_bytes_def)
qed

lemma word_bytes_bytes_word:
  assumes "8 dvd LENGTH('a::len)" and "length bs = LENGTH('a) div 8"
  shows "word_bytes (bytes_word bs :: 'a word) = bs"
proof -
  have "le_nat bs < 2 ^ LENGTH('a)"
    using le_nat_less [of bs] assms by (simp add: pow_256_div8)
  then have "unat (word_of_nat (le_nat bs) :: 'a word) = le_nat bs"
    by (simp add: unat_of_nat)
  then show ?thesis
    using le_bytes_le_nat [of bs] assms(2) by (simp add: bytes_word_def word_bytes_def)
qed

subsection \<open>std::map as a sorted association list\<close>

type_synonym ('k, 'v) stdmap = "('k \<times> 'v) list"

text \<open>\<open>m[k] = v\<close>: replaces the value of an existing key.\<close>

fun map_set :: "'k::linorder \<Rightarrow> 'v \<Rightarrow> ('k, 'v) stdmap \<Rightarrow> ('k, 'v) stdmap" where
  "map_set k v [] = [(k, v)]"
| "map_set k v ((k', v') # m) =
     (if k < k' then (k, v) # (k', v') # m
      else if k = k' then (k, v) # m
      else (k', v') # map_set k v m)"

text \<open>\<open>m.insert(value_type(k, v))\<close>: leaves an existing entry alone.\<close>

definition map_insert :: "'k::linorder \<Rightarrow> 'v \<Rightarrow> ('k, 'v) stdmap \<Rightarrow> ('k, 'v) stdmap" where
  "map_insert k v m = (case map_of m k of None \<Rightarrow> map_set k v m | Some _ \<Rightarrow> m)"

definition map_erase :: "'k \<Rightarrow> ('k, 'v) stdmap \<Rightarrow> ('k, 'v) stdmap" where
  "map_erase k m = filter (\<lambda>e. fst e \<noteq> k) m"

abbreviation map_wf :: "('k::linorder, 'v) stdmap \<Rightarrow> bool" where
  "map_wf m \<equiv> sorted_wrt (<) (map fst m)"

lemma map_of_map_set [simp]: "map_of (map_set k v m) = (map_of m)(k \<mapsto> v)"
  by (induction m) (auto simp: fun_eq_iff)

lemma keys_map_set: "fst ` set (map_set k v m) = insert k (fst ` set m)"
  by (induction k v m rule: map_set.induct) (simp_all, blast+)

lemma map_wf_map_set: "map_wf m \<Longrightarrow> map_wf (map_set k v m)"
proof (induction m)
  case Nil
  then show ?case by simp
next
  case (Cons e m)
  obtain k' v' where e: "e = (k', v')" by (cases e)
  from Cons.prems e have wf: "map_wf m" and gt: "\<forall>x \<in> fst ` set m. k' < x"
    by auto
  show ?case
  proof (cases "k < k'")
    case True
    with Cons.prems e gt show ?thesis by fastforce
  next
    case False
    have "\<forall>x \<in> fst ` set (map_set k v m). k = k' \<or> k' < x"
      using gt False by (auto simp: keys_map_set)
    with False e wf gt Cons.IH show ?thesis by auto
  qed
qed

lemma map_of_map_insert [simp]:
  "map_of (map_insert k v m) =
     (\<lambda>k'. if k' = k \<and> map_of m k = None then Some v else map_of m k')"
  by (auto simp: map_insert_def fun_eq_iff split: option.splits)

lemma map_wf_map_insert: "map_wf m \<Longrightarrow> map_wf (map_insert k v m)"
  by (auto simp: map_insert_def map_wf_map_set split: option.splits)

lemma map_of_map_erase [simp]: "map_of (map_erase k m) = (map_of m)(k := None)"
  by (induction m) (auto simp: map_erase_def fun_eq_iff)

lemma map_wf_map_erase: "map_wf m \<Longrightarrow> map_wf (map_erase k m)"
  by (induction m) (auto simp: map_erase_def)

lemma map_wf_distinct: "map_wf m \<Longrightarrow> distinct (map fst m)"
  by (simp add: strict_sorted_iff)

lemma map_wf_mem_iff: "map_wf m \<Longrightarrow> (k, v) \<in> set m \<longleftrightarrow> map_of m k = Some v"
  using map_wf_distinct map_of_eq_Some_iff by fastforce

subsection \<open>Printing numbers\<close>

text \<open>Decimal digits, as \<^verbatim>\<open>operator<<\<close> and \<^verbatim>\<open>std::to_string\<close> print them.\<close>

definition digit_char :: "nat \<Rightarrow> char" where
  "digit_char d = char_of (48 + d)"

fun show_nat :: "nat \<Rightarrow> string" where
  "show_nat n = (if n < 10 then [digit_char n] else show_nat (n div 10) @ [digit_char (n mod 10)])"

declare show_nat.simps [simp del]

definition show_int :: "int \<Rightarrow> string" where
  "show_int i = (if i < 0 then ''-'' @ show_nat (nat (- i)) else show_nat (nat i))"

definition parse_digits :: "string \<Rightarrow> nat" where
  "parse_digits s = foldl (\<lambda>n c. 10 * n + (of_char c - 48)) 0 s"

lemma parse_digits_snoc: "parse_digits (s @ [c]) = 10 * parse_digits s + (of_char c - 48)"
  by (simp add: parse_digits_def)

lemma of_char_digit_char [simp]: "d < 10 \<Longrightarrow> of_char (digit_char d) = 48 + d"
  by (simp add: digit_char_def)

lemma parse_digits_show_nat [simp]: "parse_digits (show_nat n) = n"
proof (induction n rule: show_nat.induct)
  case (1 n)
  show ?case
  proof (cases "n < 10")
    case True
    then show ?thesis
      by (subst show_nat.simps) (simp add: parse_digits_def)
  next
    case False
    then show ?thesis
      using 1 by (subst show_nat.simps) (simp add: parse_digits_snoc)
  qed
qed

lemma show_nat_inject [simp]: "show_nat m = show_nat n \<longleftrightarrow> m = n"
  by (metis parse_digits_show_nat)

lemma show_nat_not_Nil [simp]: "show_nat n \<noteq> []"
  by (subst show_nat.simps) simp

subsection \<open>Numbers in texts\<close>

definition is_digit :: "char \<Rightarrow> bool" where
  "is_digit c \<longleftrightarrow> 48 \<le> (of_char c :: nat) \<and> of_char c \<le> (57 :: nat)"

text \<open>\<^verbatim>\<open>strtoul\<close>: white space, a sign, digits. \<open>stoul\<close> throws where there are no digits or too many.\<close>

definition c_space :: "char \<Rightarrow> bool" where
  "c_space c \<longleftrightarrow> (of_char c :: nat) = 32 \<or> (9 \<le> (of_char c :: nat) \<and> (of_char c :: nat) \<le> 13)"

definition strtoul_scan :: "string \<Rightarrow> bool \<times> string" where
  "strtoul_scan s =
     (case dropWhile c_space s of
        [] \<Rightarrow> (False, [])
      | c # cs \<Rightarrow>
          if c = CHR ''-'' then (True, takeWhile is_digit cs)
          else if c = CHR ''+'' then (False, takeWhile is_digit cs)
          else (False, takeWhile is_digit (c # cs)))"

definition stoul :: "string \<Rightarrow> u64 option" where
  "stoul s = (case strtoul_scan s of (neg, ds) \<Rightarrow>
     if ds = [] \<or> parse_digits ds \<ge> 2 ^ 64 then None
     else Some (if neg then - of_nat (parse_digits ds) else of_nat (parse_digits ds)))"

definition strtoul :: "string \<Rightarrow> u64" where
  "strtoul s = (case strtoul_scan s of (neg, ds) \<Rightarrow>
     if ds = [] then 0 else if parse_digits ds \<ge> 2 ^ 64 then - 1
     else if neg then - of_nat (parse_digits ds) else of_nat (parse_digits ds))"

subsection \<open>Strings and bytes\<close>

definition string_bytes :: "string \<Rightarrow> byte list" where
  "string_bytes s = map (\<lambda>c. word_of_nat (of_char c)) s"

definition bytes_string :: "byte list \<Rightarrow> string" where
  "bytes_string bs = map (\<lambda>b. char_of (unat b)) bs"

lemma length_string_bytes [simp]: "length (string_bytes s) = length s"
  by (simp add: string_bytes_def)

lemma length_bytes_string [simp]: "length (bytes_string s) = length s"
  by (simp add: bytes_string_def)

lemma bytes_string_string_bytes [simp]: "bytes_string (string_bytes s) = s"
proof -
  have "unat (word_of_nat (of_char c) :: byte) = of_char c" for c
    by (simp add: unat_of_nat)
  then show ?thesis
    by (simp add: bytes_string_def string_bytes_def comp_def)
qed

lemma string_bytes_Nil [simp]: "string_bytes [] = []"
  by (simp add: string_bytes_def)

lemma string_bytes_take: "take n (string_bytes s) = string_bytes (take n s)"
  by (simp add: string_bytes_def take_map)

subsection \<open>Lists\<close>

lemma take_drop_split: "n \<le> length xs \<Longrightarrow> take n xs @ drop n xs = xs"
  by simp

lemma list_update_same_length [simp]: "length (xs[i := v]) = length xs"
  by simp

end
