(* ===== verification/Buffers.thy ===== *)
theory Buffers
  imports Arras_Prelude
begin

text \<open>
  Memory buffering of \<^verbatim>\<open>arras4_network/lib/network\<close>: the abstract interfaces
  \<open>DataSource\<close> / \<open>DataSink\<close> (tables of virtual functions, as records that the framed variants
  extend the way the subclasses do), \<open>Buffer\<close> and \<open>MultiBuffer\<close>.

  The interfaces' contracts are the locales \<open>byte_sink\<close> (a write appends) and \<open>byte_source\<close>
  (a read takes from the front), the second extended by \<open>skip_source\<close>. \<open>MultiBuffer\<close> is a
  \<open>byte_sink\<close> and a \<open>byte_source\<close>; it does not satisfy the \<open>skip\<close> law, and the theory proves
  what its \<open>skip\<close> does instead.
\<close>

subsection \<open>The interfaces\<close>

text \<open>
  \<open>read(aBuf, aLen)\<close> copies into the caller's block and returns the number of bytes; the model
  returns the bytes copied, whose length is the count.
\<close>

record 's data_source =
  src_read :: "nat \<Rightarrow> ('s, byte list) proc"
  src_skip :: "nat \<Rightarrow> ('s, nat) proc"
  src_bytesRead :: "'s \<Rightarrow> nat"

record 's framed_source = "'s data_source" +
  src_nextFrame :: "('s, nat) proc"
  src_endFrame :: "('s, unit) proc"

record 's data_sink =
  snk_write :: "byte list \<Rightarrow> ('s, nat) proc"
  snk_flush :: "('s, unit) proc"
  snk_bytesWritten :: "'s \<Rightarrow> nat"

record 's framed_sink = "'s data_sink" +
  snk_openFrame :: "nat \<Rightarrow> ('s, bool) proc"
  snk_closeFrame :: "('s, bool) proc"

subsection \<open>Contracts of the interfaces\<close>

locale byte_sink =
  fixes ops :: "('s, 'z) data_sink_scheme"
    and inv :: "'s \<Rightarrow> bool"
    and content :: "'s \<Rightarrow> byte list"
  assumes write_ok: "inv s \<Longrightarrow>
      \<exists>s'. snk_write ops d s = (Inr (length d), s') \<and> inv s' \<and> content s' = content s @ d"
begin

lemma write_run:
  assumes "inv s"
  obtains s' where "snk_write ops d s = (Inr (length d), s')" and "inv s'"
    and "content s' = content s @ d"
  using write_ok [OF assms, of d] by blast

text \<open>A sequence of writes is one write of the concatenation.\<close>

lemma forp_write:
  assumes "inv s"
  shows "\<exists>s'. forp ds (\<lambda>d. seqp (snk_write ops d) (ret ())) s = (Inr (), s') \<and> inv s' \<and>
      content s' = content s @ concat ds"
  using assms
proof (induction ds arbitrary: s)
  case Nil
  then show ?case by simp
next
  case (Cons d ds)
  obtain t where t: "snk_write ops d s = (Inr (length d), t)" "inv t" "content t = content s @ d"
    using write_run [OF Cons.prems] .
  from Cons.IH [OF t(2)] t show ?case by auto
qed

end

text \<open>A sink that also keeps an exact count, and whose flush changes nothing it has accepted.\<close>

locale counted_sink = byte_sink +
  assumes write_count: "inv s \<Longrightarrow> snk_write ops d s = (Inr n, s') \<Longrightarrow>
      snk_bytesWritten ops s' = snk_bytesWritten ops s + length d"
    and flush_ok: "inv s \<Longrightarrow> \<exists>s'. snk_flush ops s = (Inr (), s') \<and> inv s' \<and>
      content s' = content s \<and> snk_bytesWritten ops s' = snk_bytesWritten ops s"

locale byte_source =
  fixes ops :: "('s, 'z) data_source_scheme"
    and inv :: "'s \<Rightarrow> bool"
    and pending :: "'s \<Rightarrow> byte list"
  assumes read_ok: "inv s \<Longrightarrow> n \<le> length (pending s) \<Longrightarrow>
      \<exists>s'. src_read ops n s = (Inr (take n (pending s)), s') \<and> inv s' \<and>
           pending s' = drop n (pending s) \<and> src_bytesRead ops s' = src_bytesRead ops s + n"
begin

lemma read_prefix:
  assumes "inv s" and "pending s = d @ rest"
  obtains s' where "src_read ops (length d) s = (Inr d, s')" and "inv s'"
    and "pending s' = rest" and "src_bytesRead ops s' = src_bytesRead ops s + length d"
  using read_ok [OF assms(1), of "length d"] assms(2) by auto

end

locale skip_source = byte_source +
  assumes skip_ok: "inv s \<Longrightarrow> n \<le> length (pending s) \<Longrightarrow>
      \<exists>s'. src_skip ops n s = (Inr n, s') \<and> inv s' \<and>
           pending s' = drop n (pending s) \<and> src_bytesRead ops s' = src_bytesRead ops s + n"
begin

text \<open>Skipping what another reader would have read leaves both at the same place.\<close>

lemma skip_as_read:
  assumes "inv s" and "n \<le> length (pending s)"
    and "src_read ops n s = (r, s1)" and "src_skip ops n s = (k, s2)"
  shows "pending s1 = pending s2 \<and> src_bytesRead ops s1 = src_bytesRead ops s2"
  using read_ok [OF assms(1,2)] skip_ok [OF assms(1,2)] assms(3,4) by auto

end

subsection \<open>Buffer\<close>

text \<open>
  A block of memory with a read position and a write position. \<open>buf_data\<close> is the whole block
  from \<open>mData\<close> to \<open>mFinal\<close>; the two pointers are offsets into it. The bytes of a fresh block are
  whatever the allocator left there, so a buffer is made from the block.
\<close>

record buffer =
  buf_ownsData :: bool
  buf_data :: "byte list"
  buf_start :: nat
  buf_end :: nat

definition Buffer_new :: "byte list \<Rightarrow> buffer" where
  "Buffer_new mem = \<lparr>buf_ownsData = True, buf_data = mem, buf_start = 0, buf_end = 0\<rparr>"

definition Buffer_wrap :: "byte list \<Rightarrow> nat \<Rightarrow> buffer" where
  "Buffer_wrap data filled =
     \<lparr>buf_ownsData = False, buf_data = data, buf_start = 0, buf_end = filled\<rparr>"

definition Buffer_capacity :: "buffer \<Rightarrow> nat" where
  "Buffer_capacity b = length (buf_data b)"

definition Buffer_remaining :: "buffer \<Rightarrow> nat" where
  "Buffer_remaining b = buf_end b - buf_start b"

definition Buffer_remainingCapacity :: "buffer \<Rightarrow> nat" where
  "Buffer_remainingCapacity b = Buffer_capacity b - buf_end b"

definition Buffer_consumed :: "buffer \<Rightarrow> nat" where
  "Buffer_consumed b = buf_start b"

definition Buffer_bytesRead :: "buffer \<Rightarrow> nat" where
  "Buffer_bytesRead b = buf_start b"

definition Buffer_bytesWritten :: "buffer \<Rightarrow> nat" where
  "Buffer_bytesWritten b = buf_end b"

definition Buffer_reset :: "buffer \<Rightarrow> buffer" where
  "Buffer_reset b = b\<lparr>buf_start := 0, buf_end := 0\<rparr>"

definition Buffer_releaseData :: "buffer \<Rightarrow> buffer" where
  "Buffer_releaseData b = b\<lparr>buf_ownsData := False\<rparr>"

text \<open>\<open>memcpy\<close> of \<open>d\<close> into a block at offset \<open>i\<close>.\<close>

definition poke :: "byte list \<Rightarrow> nat \<Rightarrow> byte list \<Rightarrow> byte list" where
  "poke mem i d = take i mem @ d @ drop (i + length d) mem"

definition Buffer_write :: "byte list \<Rightarrow> buffer \<Rightarrow> nat \<times> buffer" where
  "Buffer_write d b =
     (let n = min (length d) (Buffer_remainingCapacity b)
      in (n, b\<lparr>buf_data := (if n > 0 then poke (buf_data b) (buf_end b) (take n d) else buf_data b),
               buf_end := buf_end b + n\<rparr>))"

definition Buffer_read :: "nat \<Rightarrow> buffer \<Rightarrow> byte list \<times> buffer" where
  "Buffer_read len b =
     (let n = min len (Buffer_remaining b)
      in (take n (drop (buf_start b) (buf_data b)), b\<lparr>buf_start := buf_start b + n\<rparr>))"

definition Buffer_skip :: "nat \<Rightarrow> buffer \<Rightarrow> nat \<times> buffer" where
  "Buffer_skip len b =
     (let n = min len (Buffer_remaining b) in (n, b\<lparr>buf_start := buf_start b + n\<rparr>))"

definition Buffer_seek :: "nat \<Rightarrow> buffer \<Rightarrow> nat \<times> buffer" where
  "Buffer_seek pos b = (let p = min pos (buf_end b) in (p, b\<lparr>buf_start := p\<rparr>))"

text \<open>\<open>assign\<close> hands out the block at \<open>mEnd\<close> for the caller to fill: its offset and its length.\<close>

definition Buffer_assign :: "nat \<Rightarrow> buffer \<Rightarrow> nat \<times> nat \<times> buffer" where
  "Buffer_assign len b =
     (let n = min len (Buffer_remainingCapacity b)
      in (buf_end b, n, b\<lparr>buf_end := buf_end b + n\<rparr>))"

definition Buffer_inv :: "buffer \<Rightarrow> bool" where
  "Buffer_inv b \<longleftrightarrow> buf_start b \<le> buf_end b \<and> buf_end b \<le> length (buf_data b)"

text \<open>The bytes between \<open>mStart\<close> and \<open>mEnd\<close>, and everything between \<open>mData\<close> and \<open>mEnd\<close>.\<close>

definition Buffer_pending :: "buffer \<Rightarrow> byte list" where
  "Buffer_pending b = take (Buffer_remaining b) (drop (buf_start b) (buf_data b))"

definition Buffer_written :: "buffer \<Rightarrow> byte list" where
  "Buffer_written b = take (buf_end b) (buf_data b)"

definition Buffer_copyIntoString :: "buffer \<Rightarrow> byte list" where
  "Buffer_copyIntoString b = Buffer_pending b"

definition Buffer_source :: "buffer data_source" where
  "Buffer_source =
     \<lparr>src_read = (\<lambda>n b. case Buffer_read n b of (d, b') \<Rightarrow> (Inr d, b')),
      src_skip = (\<lambda>n b. case Buffer_skip n b of (k, b') \<Rightarrow> (Inr k, b')),
      src_bytesRead = Buffer_bytesRead\<rparr>"

definition Buffer_sink :: "buffer data_sink" where
  "Buffer_sink =
     \<lparr>snk_write = (\<lambda>d b. case Buffer_write d b of (n, b') \<Rightarrow> (Inr n, b')),
      snk_flush = ret (),
      snk_bytesWritten = Buffer_bytesWritten\<rparr>"

lemmas buffer_defs = Buffer_capacity_def Buffer_remaining_def Buffer_remainingCapacity_def
  Buffer_consumed_def Buffer_bytesRead_def Buffer_bytesWritten_def Buffer_reset_def
  Buffer_new_def Buffer_wrap_def Buffer_releaseData_def

lemma length_poke [simp]: "i + length d \<le> length mem \<Longrightarrow> length (poke mem i d) = length mem"
  by (simp add: poke_def)

lemma take_poke: "i \<le> length mem \<Longrightarrow> take (i + length d) (poke mem i d) = take i mem @ d"
  by (simp add: poke_def min_absorb2)

lemma Buffer_new_inv [simp]: "Buffer_inv (Buffer_new mem)"
  by (simp add: Buffer_inv_def Buffer_new_def)

lemma Buffer_wrap_inv [simp]: "filled \<le> length d \<Longrightarrow> Buffer_inv (Buffer_wrap d filled)"
  by (simp add: Buffer_inv_def Buffer_wrap_def)

lemma Buffer_reset_inv [simp]: "Buffer_inv (Buffer_reset b)"
  by (simp add: Buffer_inv_def Buffer_reset_def)

lemma Buffer_written_split:
  "Buffer_inv b \<Longrightarrow> Buffer_written b = take (buf_start b) (buf_data b) @ Buffer_pending b"
  by (simp add: Buffer_inv_def Buffer_written_def Buffer_pending_def Buffer_remaining_def
      take_add [symmetric])

lemma length_Buffer_pending [simp]: "Buffer_inv b \<Longrightarrow> length (Buffer_pending b) = Buffer_remaining b"
  by (auto simp: Buffer_inv_def Buffer_pending_def Buffer_remaining_def)

text \<open>What a write does: it is clipped to the free space, and what fits is appended.\<close>

lemma Buffer_write_spec:
  assumes inv: "Buffer_inv b" and w: "Buffer_write d b = (n, b')"
  shows "n = min (length d) (Buffer_remainingCapacity b)"
    and "Buffer_inv b'" and "Buffer_capacity b' = Buffer_capacity b"
    and "buf_start b' = buf_start b"
    and "Buffer_remainingCapacity b' = Buffer_remainingCapacity b - n"
    and "Buffer_written b' = Buffer_written b @ take n d"
    and "Buffer_pending b' = Buffer_pending b @ take n d"
proof -
  from w [symmetric] have n: "n = min (length d) (Buffer_remainingCapacity b)"
    and b': "b' = b\<lparr>buf_data := (if n > 0 then poke (buf_data b) (buf_end b) (take n d) else buf_data b),
               buf_end := buf_end b + n\<rparr>"
    by (simp_all only: Buffer_write_def Let_def prod.inject)
  show "n = min (length d) (Buffer_remainingCapacity b)" by (rule n)
  from n inv have le: "buf_end b + n \<le> length (buf_data b)"
    by (auto simp: Buffer_inv_def buffer_defs)
  from n have len: "length (take n d) = n" by simp
  have lenpoke: "length (poke (buf_data b) (buf_end b) (take n d)) = length (buf_data b)"
    using le len by simp
  have cap: "length (buf_data b') = length (buf_data b)"
    using b' lenpoke by simp
  show inv': "Buffer_inv b'"
    using inv le cap b' by (simp add: Buffer_inv_def)
  show "Buffer_capacity b' = Buffer_capacity b"
    using cap by (simp add: buffer_defs)
  show st: "buf_start b' = buf_start b" using b' by simp
  show "Buffer_remainingCapacity b' = Buffer_remainingCapacity b - n"
    using cap b' by (simp add: buffer_defs)
  have tk: "take (buf_end b + n) (poke (buf_data b) (buf_end b) (take n d)) = take (buf_end b) (buf_data b) @ take n d"
    using take_poke [of "buf_end b" "buf_data b" "take n d"] len le by simp
  show wr: "Buffer_written b' = Buffer_written b @ take n d"
    using tk b' by (simp add: Buffer_written_def)
  have "take (buf_start b) (buf_data b') = take (buf_start b) (Buffer_written b')"
    using inv' st by (simp add: Buffer_inv_def Buffer_written_def min_absorb1)
  also have "\<dots> = take (buf_start b) (Buffer_written b)"
    using wr inv by (simp add: Buffer_inv_def Buffer_written_def)
  also have "\<dots> = take (buf_start b) (buf_data b)"
    using inv by (simp add: Buffer_inv_def Buffer_written_def min_absorb1)
  finally show "Buffer_pending b' = Buffer_pending b @ take n d"
    using Buffer_written_split [OF inv] Buffer_written_split [OF inv'] wr st by simp
qed

lemma Buffer_read_spec:
  assumes inv: "Buffer_inv b" and r: "Buffer_read len b = (d, b')"
  shows "d = take len (Buffer_pending b)" and "Buffer_inv b'"
    and "Buffer_pending b' = drop len (Buffer_pending b)"
    and "buf_data b' = buf_data b" and "buf_end b' = buf_end b"
    and "Buffer_bytesRead b' = Buffer_bytesRead b + length d"
proof -
  let ?n = "min len (Buffer_remaining b)"
  from r have d: "d = take ?n (drop (buf_start b) (buf_data b))"
    and b': "b' = b\<lparr>buf_start := buf_start b + ?n\<rparr>"
    by (auto simp: Buffer_read_def Let_def)
  show "d = take len (Buffer_pending b)"
    using d by (simp add: Buffer_pending_def min.commute)
  show "Buffer_inv b'" using inv b' by (auto simp: Buffer_inv_def buffer_defs)
  show "buf_data b' = buf_data b" and "buf_end b' = buf_end b" using b' by simp_all
  have "drop len (Buffer_pending b) = drop ?n (Buffer_pending b)"
    using inv by (cases "len \<le> Buffer_remaining b") simp_all
  then show "Buffer_pending b' = drop len (Buffer_pending b)"
    using b' by (simp add: Buffer_pending_def buffer_defs drop_take add.commute)
  have "length d = ?n" using d inv by (auto simp: Buffer_inv_def buffer_defs)
  then show "Buffer_bytesRead b' = Buffer_bytesRead b + length d"
    using b' by (simp add: buffer_defs)
qed

lemma Buffer_skip_eq_read: "snd (Buffer_skip n b) = snd (Buffer_read n b)"
  by (simp add: Buffer_skip_def Buffer_read_def Let_def)

interpretation buffer_src: skip_source Buffer_source Buffer_inv Buffer_pending
proof
  fix s :: buffer and n :: nat
  assume inv: "Buffer_inv s" and n: "n \<le> length (Buffer_pending s)"
  obtain d b' where r: "Buffer_read n s = (d, b')" by force
  note spec = Buffer_read_spec [OF inv r]
  show "\<exists>s'. src_read Buffer_source n s = (Inr (take n (Buffer_pending s)), s') \<and> Buffer_inv s' \<and>
      Buffer_pending s' = drop n (Buffer_pending s) \<and>
      src_bytesRead Buffer_source s' = src_bytesRead Buffer_source s + n"
    using r spec n by (auto simp: Buffer_source_def)
  obtain k where k: "Buffer_skip n s = (k, b')"
    using r Buffer_skip_eq_read [of n s] by (cases "Buffer_skip n s") simp
  have "k = n" using k n inv by (simp add: Buffer_skip_def Let_def)
  then show "\<exists>s'. src_skip Buffer_source n s = (Inr n, s') \<and> Buffer_inv s' \<and>
      Buffer_pending s' = drop n (Buffer_pending s) \<and>
      src_bytesRead Buffer_source s' = src_bytesRead Buffer_source s + n"
    using k spec n by (auto simp: Buffer_source_def)
qed

end
