(* ===== verification/MultiBuffers.thy ===== *)
theory MultiBuffers
  imports Buffers
begin

text \<open>
  \<open>MultiBuffer\<close> of \<^verbatim>\<open>arras4_network/lib/network/MultiBuffer.{h,cc}\<close>: a growing sequence of
  buffers with a write position (the last buffer in use) and a read position.

  The allocator is a parameter: \<open>alloc n\<close> is the block \<open>new unsigned char[n]\<close> returns, with its
  unspecified contents, or \<open>None\<close> where \<open>std::bad_alloc\<close> is thrown. \<open>mb_buffers\<close> holds
  \<open>std::unique_ptr\<close>s, so an entry is \<open>None\<close> once its buffer was moved out by \<open>takeBuffer\<close>.
\<close>

subsection \<open>State and operations\<close>

definition INITIAL_BUFFER_SIZE :: nat where
  "INITIAL_BUFFER_SIZE = 1024 * 1024"

definition LINEAR_BUFFER_SIZE :: nat where
  "LINEAR_BUFFER_SIZE = 1024 * 1024 * 1024"

record multibuffer =
  mb_initialSize :: nat
  mb_linearSize :: nat
  mb_bytesWritten :: nat
  mb_readBuffer :: nat
  mb_bytesRead :: nat
  mb_usedBuffers :: nat
  mb_buffers :: "buffer option list"

definition MultiBuffer_new :: "nat \<Rightarrow> nat \<Rightarrow> multibuffer" where
  "MultiBuffer_new initialSize linearSize =
     \<lparr>mb_initialSize = initialSize, mb_linearSize = linearSize, mb_bytesWritten = 0,
      mb_readBuffer = 0, mb_bytesRead = 0, mb_usedBuffers = 0, mb_buffers = []\<rparr>"

text \<open>Dereferencing \<open>mBuffers[i]\<close>.\<close>

definition mb_at :: "nat \<Rightarrow> multibuffer \<Rightarrow> exn + buffer" where
  "mb_at i m =
     (if i < length (mb_buffers m)
      then (case mb_buffers m ! i of
              None \<Rightarrow> Inl (Undefined ''null buffer'')
            | Some b \<Rightarrow> Inr b)
      else Inl (Undefined ''buffer index out of range''))"

definition mb_put :: "nat \<Rightarrow> buffer \<Rightarrow> multibuffer \<Rightarrow> multibuffer" where
  "mb_put i b m = m\<lparr>mb_buffers := (mb_buffers m)[i := Some b]\<rparr>"

definition MultiBuffer_nextSize :: "nat \<Rightarrow> multibuffer \<Rightarrow> nat" where
  "MultiBuffer_nextSize sz m =
     (if sz = 0 then mb_initialSize m
      else if sz < mb_linearSize m then sz * 2
      else sz)"

definition MultiBuffer_reset :: "multibuffer \<Rightarrow> multibuffer" where
  "MultiBuffer_reset m =
     m\<lparr>mb_bytesWritten := 0, mb_bytesRead := 0, mb_usedBuffers := 0, mb_readBuffer := 0\<rparr>"

definition MultiBuffer_useNextBuffer :: "(nat \<Rightarrow> byte list option) \<Rightarrow> (multibuffer, unit) proc" where
  "MultiBuffer_useNextBuffer alloc m =
     (let nextBuffer = mb_usedBuffers m in
      if length (mb_buffers m) \<le> nextBuffer
      then
        (case (if nextBuffer > 0
               then (case mb_at (nextBuffer - 1) m of
                       Inl e \<Rightarrow> Inl e
                     | Inr b \<Rightarrow> Inr (MultiBuffer_nextSize (Buffer_capacity b) m))
               else Inr (mb_initialSize m)) of
           Inl e \<Rightarrow> (Inl e, m)
         | Inr newSize \<Rightarrow>
             (case alloc newSize of
                None \<Rightarrow> (Inl (OutOfMemoryError ''Write buffer allocation failed : out of memory?''), m)
              | Some mem \<Rightarrow>
                  (Inr (), m\<lparr>mb_buffers := mb_buffers m @ [Some (Buffer_new mem)],
                            mb_usedBuffers := nextBuffer + 1\<rparr>)))
      else
        (case mb_at nextBuffer m of
           Inl e \<Rightarrow> (Inl e, m)
         | Inr b \<Rightarrow> (Inr (), (mb_put nextBuffer (Buffer_reset b) m)\<lparr>mb_usedBuffers := nextBuffer + 1\<rparr>)))"

text \<open>The head of the write loop: if the current end buffer is full, move to the next one.\<close>

definition mb_room :: "(nat \<Rightarrow> byte list option) \<Rightarrow> (multibuffer, unit) proc" where
  "mb_room alloc m =
     (if mb_usedBuffers m = 0 then MultiBuffer_useNextBuffer alloc m
      else (case mb_at (mb_usedBuffers m - 1) m of
              Inl e \<Rightarrow> (Inl e, m)
            | Inr b \<Rightarrow> (if Buffer_remainingCapacity b = 0 then MultiBuffer_useNextBuffer alloc m
                       else (Inr (), m))))"

text \<open>
  The write loop. A freshly allocated buffer of capacity 0 means that the initial size is 0 and
  every further buffer has capacity 0 too: the loop never returns.
\<close>

function mb_write_loop :: "(nat \<Rightarrow> byte list option) \<Rightarrow> byte list \<Rightarrow> (multibuffer, unit) proc" where
  "mb_write_loop alloc d m =
     (if d = [] then (Inr (), m)
      else (case mb_room alloc m of
              (Inl e, m1) \<Rightarrow> (Inl e, m1)
            | (Inr _, m1) \<Rightarrow>
                (case mb_at (mb_usedBuffers m1 - 1) m1 of
                   Inl e \<Rightarrow> (Inl e, m1)
                 | Inr b \<Rightarrow>
                     (let toWrite = min (length d) (Buffer_remainingCapacity b);
                          b' = snd (Buffer_write (take toWrite d) b);
                          m2 = mb_put (mb_usedBuffers m1 - 1) b' m1
                      in if toWrite = 0 \<and> length (mb_buffers m) < length (mb_buffers m1)
                         then (Inl (NoReturn ''MultiBuffer::write''), m2)
                         else mb_write_loop alloc (drop toWrite d) m2))))"
  by pat_completeness auto

lemma length_mb_put [simp]: "length (mb_buffers (mb_put i b m)) = length (mb_buffers m)"
  by (simp add: mb_put_def)

lemma mb_put_fields [simp]:
  "mb_usedBuffers (mb_put i b m) = mb_usedBuffers m"
  "mb_initialSize (mb_put i b m) = mb_initialSize m"
  "mb_linearSize (mb_put i b m) = mb_linearSize m"
  "mb_readBuffer (mb_put i b m) = mb_readBuffer m"
  "mb_bytesRead (mb_put i b m) = mb_bytesRead m"
  "mb_bytesWritten (mb_put i b m) = mb_bytesWritten m"
  by (simp_all add: mb_put_def)

lemma mb_room_progress:
  assumes "mb_room alloc m = (Inr u, m1)"
    and "mb_at (mb_usedBuffers m1 - 1) m1 = Inr b" and "Buffer_remainingCapacity b = 0"
    and "length (mb_buffers m1) \<le> length (mb_buffers m)"
  shows "length (mb_buffers m1) - mb_usedBuffers m1 < length (mb_buffers m) - mb_usedBuffers m"
  using assms
  by (auto simp: mb_room_def MultiBuffer_useNextBuffer_def Let_def
      split: if_splits sum.splits option.splits)

termination mb_write_loop
proof (relation "measures [\<lambda>(alloc, d, m). length d,
      \<lambda>(alloc, d, m). length (mb_buffers m) - mb_usedBuffers m]", simp, clarsimp simp: not_less)
  fix alloc and d :: "byte list" and m m1 b
  assume "d \<noteq> []" and room: "(Inr (), m1) = mb_room alloc m"
    and b: "mb_at (mb_usedBuffers m1 - Suc 0) m1 = Inr b"
    and prog: "0 < Buffer_remainingCapacity b \<or> length (mb_buffers m1) \<le> length (mb_buffers m)"
    and no: "length d - min (length d) (Buffer_remainingCapacity b) = length d \<longrightarrow>
      length (mb_buffers m) - mb_usedBuffers m \<le> length (mb_buffers m1) - mb_usedBuffers m1"
  show "length d - min (length d) (Buffer_remainingCapacity b) < length d"
    using mb_room_progress [OF room [symmetric]] b prog no \<open>d \<noteq> []\<close>
    by (cases "Buffer_remainingCapacity b = 0") auto
qed

declare mb_write_loop.simps [simp del]

definition MultiBuffer_write :: "(nat \<Rightarrow> byte list option) \<Rightarrow> byte list \<Rightarrow> (multibuffer, nat) proc" where
  "MultiBuffer_write alloc d m =
     (case mb_write_loop alloc d m of
        (Inl e, m') \<Rightarrow> (Inl e, m')
      | (Inr _, m') \<Rightarrow> (Inr (length d), m'\<lparr>mb_bytesWritten := mb_bytesWritten m' + length d\<rparr>))"

function mb_read_loop :: "nat \<Rightarrow> byte list \<Rightarrow> (multibuffer, byte list) proc" where
  "mb_read_loop n acc m =
     (if mb_readBuffer m \<le> mb_usedBuffers m \<and> n > 0
      then (case mb_at (mb_readBuffer m) m of
              Inl e \<Rightarrow> (Inl e, m)
            | Inr b \<Rightarrow>
                (if Buffer_remaining b = 0
                 then mb_read_loop n acc (m\<lparr>mb_readBuffer := mb_readBuffer m + 1\<rparr>)
                 else (let toRead = min n (Buffer_remaining b);
                           (d, b') = Buffer_read toRead b
                       in mb_read_loop (n - toRead) (acc @ d) (mb_put (mb_readBuffer m) b' m))))
      else (Inr acc, m))"
  by pat_completeness auto
termination
  by (relation "measures [\<lambda>(n, acc, m). n, \<lambda>(n, acc, m). mb_usedBuffers m + 1 - mb_readBuffer m]") auto

declare mb_read_loop.simps [simp del]

definition MultiBuffer_read :: "nat \<Rightarrow> (multibuffer, byte list) proc" where
  "MultiBuffer_read n m =
     (case mb_read_loop n [] m of
        (Inl e, m') \<Rightarrow> (Inl e, m')
      | (Inr d, m') \<Rightarrow> (Inr d, m'\<lparr>mb_bytesRead := mb_bytesRead m' + length d\<rparr>))"

text \<open>\<open>skip\<close> counts the bytes of the current buffer but does not move its read position.\<close>

function mb_skip_loop :: "nat \<Rightarrow> nat \<Rightarrow> (multibuffer, nat) proc" where
  "mb_skip_loop remaining skipped m =
     (if mb_readBuffer m \<le> mb_usedBuffers m \<and> remaining > 0
      then (case mb_at (mb_readBuffer m) m of
              Inl e \<Rightarrow> (Inl e, m)
            | Inr b \<Rightarrow>
                (if Buffer_remaining b = 0
                 then mb_skip_loop remaining skipped (m\<lparr>mb_readBuffer := mb_readBuffer m + 1\<rparr>)
                 else (let toSkip = min remaining (Buffer_remaining b)
                       in mb_skip_loop (remaining - toSkip) (skipped + toSkip) m)))
      else (Inr skipped, m))"
  by pat_completeness auto
termination
  by (relation "measures [\<lambda>(r, k, m). r, \<lambda>(r, k, m). mb_usedBuffers m + 1 - mb_readBuffer m]") auto

declare mb_skip_loop.simps [simp del]

definition MultiBuffer_skip :: "nat \<Rightarrow> (multibuffer, nat) proc" where
  "MultiBuffer_skip n m =
     (case mb_skip_loop n 0 m of
        (Inl e, m') \<Rightarrow> (Inl e, m')
      | (Inr k, m') \<Rightarrow> (Inr k, m'\<lparr>mb_bytesRead := mb_bytesRead m' + k\<rparr>))"

text \<open>\<open>collect(out)\<close>: the state is the target buffer.\<close>

fun mb_collect_loop :: "nat list \<Rightarrow> multibuffer \<Rightarrow> (buffer, unit) proc" where
  "mb_collect_loop [] m out = (Inr (), out)"
| "mb_collect_loop (i # is) m out =
     (if Buffer_remainingCapacity out = 0 then (Inr (), out)
      else (case mb_at i m of
              Inl e \<Rightarrow> (Inl e, out)
            | Inr b \<Rightarrow> mb_collect_loop is m (snd (Buffer_write (Buffer_pending b) out))))"

definition MultiBuffer_collect :: "multibuffer \<Rightarrow> (buffer, unit) proc" where
  "MultiBuffer_collect m = mb_collect_loop [0..<mb_usedBuffers m] m"

definition MultiBuffer_addBuffer :: "buffer \<Rightarrow> multibuffer \<Rightarrow> bool \<times> multibuffer" where
  "MultiBuffer_addBuffer b m =
     (if mb_usedBuffers m = length (mb_buffers m)
      then (True, m\<lparr>mb_buffers := mb_buffers m @ [Some b], mb_usedBuffers := mb_usedBuffers m + 1\<rparr>)
      else (False, m))"

text \<open>\<open>takeBuffer\<close> moves the pointer out of the vector.\<close>

definition MultiBuffer_takeBuffer :: "nat \<Rightarrow> (multibuffer, buffer) proc" where
  "MultiBuffer_takeBuffer i m =
     (case mb_at i m of
        Inl e \<Rightarrow> (Inl e, m)
      | Inr b \<Rightarrow> (Inr b, m\<lparr>mb_buffers := (mb_buffers m)[i := None]\<rparr>))"

definition MultiBuffer_bufferCount :: "multibuffer \<Rightarrow> nat" where
  "MultiBuffer_bufferCount m = mb_usedBuffers m"

text \<open>The target of \<open>shrinkTo\<close>: the first buffer that makes the total exceed \<open>maxCapacity\<close>.\<close>

fun mb_shrink_target :: "nat \<Rightarrow> nat \<Rightarrow> nat \<Rightarrow> buffer option list \<Rightarrow> exn + nat" where
  "mb_shrink_target maxCapacity capacity target [] = Inr target"
| "mb_shrink_target maxCapacity capacity target (p # ps) =
     (case p of
        None \<Rightarrow> Inl (Undefined ''null buffer'')
      | Some b \<Rightarrow>
          (if capacity + Buffer_capacity b > maxCapacity then Inr target
           else mb_shrink_target maxCapacity (capacity + Buffer_capacity b) (target + 1) ps))"

definition MultiBuffer_shrinkTo :: "nat \<Rightarrow> (multibuffer, unit) proc" where
  "MultiBuffer_shrinkTo maxCapacity m =
     (case mb_shrink_target maxCapacity 0 0 (mb_buffers m) of
        Inl e \<Rightarrow> (Inl e, m)
      | Inr t \<Rightarrow>
          (let target = max t (mb_usedBuffers m)
           in (Inr (), if target < length (mb_buffers m)
                       then m\<lparr>mb_buffers := take target (mb_buffers m)\<rparr> else m)))"

definition MultiBuffer_sink :: "(nat \<Rightarrow> byte list option) \<Rightarrow> multibuffer data_sink" where
  "MultiBuffer_sink alloc =
     \<lparr>snk_write = MultiBuffer_write alloc, snk_flush = ret (), snk_bytesWritten = mb_bytesWritten\<rparr>"

definition MultiBuffer_source :: "multibuffer data_source" where
  "MultiBuffer_source =
     \<lparr>src_read = MultiBuffer_read, src_skip = MultiBuffer_skip, src_bytesRead = mb_bytesRead\<rparr>"

subsection \<open>Invariant and abstraction\<close>

text \<open>What the code relies on of the allocator: blocks of the size asked for.\<close>

definition alloc_ok :: "(nat \<Rightarrow> byte list option) \<Rightarrow> bool" where
  "alloc_ok alloc \<longleftrightarrow> (\<forall>n. \<exists>mem. alloc n = Some mem \<and> length mem = n)"

definition zeroed_alloc :: "nat \<Rightarrow> byte list option" where
  "zeroed_alloc n = Some (replicate n 0)"

definition mb_inv :: "multibuffer \<Rightarrow> bool" where
  "mb_inv m \<longleftrightarrow> mb_usedBuffers m \<le> length (mb_buffers m) \<and> mb_readBuffer m \<le> mb_usedBuffers m - 1 \<and>
     (\<forall>p \<in> set (mb_buffers m). \<exists>b. p = Some b \<and> Buffer_inv b)"

text \<open>All that was written since the last reset, and what is still to be read of it.\<close>

definition mb_content :: "multibuffer \<Rightarrow> byte list" where
  "mb_content m = concat (map (Buffer_written \<circ> the) (take (mb_usedBuffers m) (mb_buffers m)))"

definition mb_pending :: "multibuffer \<Rightarrow> byte list" where
  "mb_pending m = concat (map (Buffer_pending \<circ> the)
     (drop (mb_readBuffer m) (take (mb_usedBuffers m) (mb_buffers m))))"

definition mb_frame :: "multibuffer \<Rightarrow> multibuffer \<Rightarrow> bool" where
  "mb_frame m m' \<longleftrightarrow> mb_initialSize m' = mb_initialSize m \<and> mb_linearSize m' = mb_linearSize m \<and>
     mb_bytesRead m' = mb_bytesRead m \<and> mb_bytesWritten m' = mb_bytesWritten m \<and>
     mb_readBuffer m' = mb_readBuffer m"

lemma alloc_ok_zeroed [simp]: "alloc_ok zeroed_alloc"
  by (simp add: alloc_ok_def zeroed_alloc_def)

lemma mb_frame_refl [simp]: "mb_frame m m"
  by (simp add: mb_frame_def)

lemma mb_frame_trans: "mb_frame a b \<Longrightarrow> mb_frame b c \<Longrightarrow> mb_frame a c"
  by (simp add: mb_frame_def)

lemma mb_frame_put [simp]: "mb_frame m (mb_put i b m)"
  by (simp add: mb_frame_def)

lemma MultiBuffer_new_inv [simp]: "mb_inv (MultiBuffer_new i l)"
  by (simp add: mb_inv_def MultiBuffer_new_def)

lemma MultiBuffer_new_empty [simp]:
  "mb_content (MultiBuffer_new i l) = []" "mb_pending (MultiBuffer_new i l) = []"
  by (simp_all add: mb_content_def mb_pending_def MultiBuffer_new_def)

lemma MultiBuffer_reset_inv: "mb_inv m \<Longrightarrow> mb_inv (MultiBuffer_reset m)"
  by (simp add: mb_inv_def MultiBuffer_reset_def)

lemma MultiBuffer_reset_content [simp]: "mb_content (MultiBuffer_reset m) = []"
  by (simp add: mb_content_def MultiBuffer_reset_def)

lemma mb_at_inv:
  assumes "mb_inv m" and "i < length (mb_buffers m)"
  obtains b where "mb_at i m = Inr b" and "mb_buffers m ! i = Some b" and "Buffer_inv b"
proof -
  from assms have "mb_buffers m ! i \<in> set (mb_buffers m)" by simp
  with assms(1) obtain b where "mb_buffers m ! i = Some b" "Buffer_inv b"
    by (auto simp: mb_inv_def)
  with assms(2) show thesis by (intro that) (simp_all add: mb_at_def)
qed

lemma mb_put_inv: "mb_inv m \<Longrightarrow> Buffer_inv b \<Longrightarrow> mb_inv (mb_put i b m)"
  by (auto simp: mb_inv_def mb_put_def dest!: subsetD [OF set_update_subset_insert])

text \<open>Bringing one more buffer, empty, into use changes neither the content nor what is to be read.\<close>

lemma take_Suc_update:
  "n < length xs \<Longrightarrow> take (Suc n) (xs[n := v]) = take n xs @ [v]"
  by (simp add: take_Suc_conv_app_nth)

lemma mb_use_empty:
  assumes inv: "mb_inv m" and b: "Buffer_inv b" "Buffer_written b = []" "Buffer_pending b = []"
    and tk: "take (mb_usedBuffers m + 1) bufs = take (mb_usedBuffers m) (mb_buffers m) @ [Some b]"
    and bufs: "\<forall>p \<in> set bufs. \<exists>b. p = Some b \<and> Buffer_inv b" "mb_usedBuffers m < length bufs"
    and m': "m' = m\<lparr>mb_buffers := bufs, mb_usedBuffers := mb_usedBuffers m + 1\<rparr>"
  shows "mb_inv m' \<and> mb_content m' = mb_content m \<and> mb_pending m' = mb_pending m \<and> mb_frame m m' \<and>
    0 < mb_usedBuffers m' \<and> mb_at (mb_usedBuffers m' - 1) m' = Inr b"
proof -
  let ?u = "mb_usedBuffers m"
  have rb: "mb_readBuffer m \<le> ?u" and len: "?u \<le> length (mb_buffers m)"
    using inv by (auto simp: mb_inv_def)
  have i: "mb_inv m'"
    using bufs rb m' by (auto simp: mb_inv_def)
  have c: "mb_content m' = mb_content m"
    using m' tk b by (simp add: mb_content_def)
  have p: "mb_pending m' = mb_pending m"
    using m' tk b rb len by (simp add: mb_pending_def)
  have "bufs ! ?u = take (?u + 1) bufs ! ?u" by simp
  also have "\<dots> = Some b" using tk len by (simp add: nth_append)
  finally have a: "mb_at (mb_usedBuffers m' - 1) m' = Inr b"
    using m' bufs(2) by (simp add: mb_at_def)
  show ?thesis using i c p a m' by (simp add: mb_frame_def)
qed

lemma Buffer_new_empty [simp]: "Buffer_written (Buffer_new mem) = []" "Buffer_pending (Buffer_new mem) = []"
  by (simp_all add: Buffer_written_def Buffer_pending_def Buffer_remaining_def Buffer_new_def)

lemma Buffer_reset_empty [simp]: "Buffer_written (Buffer_reset b) = []" "Buffer_pending (Buffer_reset b) = []"
  by (simp_all add: Buffer_written_def Buffer_pending_def Buffer_remaining_def Buffer_reset_def)

lemma MultiBuffer_nextSize_pos: "0 < mb_initialSize m \<Longrightarrow> 0 < MultiBuffer_nextSize sz m"
  by (simp add: MultiBuffer_nextSize_def)

lemma useNextBuffer_ok:
  assumes al: "alloc_ok alloc" and inv: "mb_inv m" and pos: "0 < mb_initialSize m"
  shows "\<exists>m1 b. MultiBuffer_useNextBuffer alloc m = (Inr (), m1) \<and>
    (mb_inv m1 \<and> mb_content m1 = mb_content m \<and> mb_pending m1 = mb_pending m \<and> mb_frame m m1 \<and>
     0 < mb_usedBuffers m1 \<and> mb_at (mb_usedBuffers m1 - 1) m1 = Inr b) \<and>
    (length (mb_buffers m) < length (mb_buffers m1) \<longrightarrow> 0 < Buffer_remainingCapacity b)"
proof (cases "length (mb_buffers m) \<le> mb_usedBuffers m")
  case True
  then have u: "mb_usedBuffers m = length (mb_buffers m)" using inv by (simp add: mb_inv_def)
  let ?sz = "if mb_usedBuffers m > 0
     then (case mb_at (mb_usedBuffers m - 1) m of Inl e \<Rightarrow> Inl e
           | Inr b \<Rightarrow> Inr (MultiBuffer_nextSize (Buffer_capacity b) m))
     else Inr (mb_initialSize m)"
  obtain n where n: "?sz = Inr n" "0 < n"
  proof (cases "mb_usedBuffers m > 0")
    case True
    with u have "mb_usedBuffers m - 1 < length (mb_buffers m)" by simp
    then obtain b where "mb_at (mb_usedBuffers m - 1) m = Inr b" using mb_at_inv [OF inv] by metis
    with True that show thesis using MultiBuffer_nextSize_pos [OF pos] by simp
  next
    case False
    with that pos show thesis by simp
  qed
  obtain mem where mem: "alloc n = Some mem" "length mem = n"
    using al by (auto simp: alloc_ok_def)
  let ?m = "m\<lparr>mb_buffers := mb_buffers m @ [Some (Buffer_new mem)], mb_usedBuffers := mb_usedBuffers m + 1\<rparr>"
  have "MultiBuffer_useNextBuffer alloc m = (Inr (), ?m)"
    using True n mem unfolding MultiBuffer_useNextBuffer_def Let_def by simp
  moreover have "0 < Buffer_remainingCapacity (Buffer_new mem)"
    using mem n by (simp add: buffer_defs)
  moreover have "\<forall>p \<in> set (mb_buffers m @ [Some (Buffer_new mem)]). \<exists>b. p = Some b \<and> Buffer_inv b"
    using inv by (auto simp: mb_inv_def)
  ultimately show ?thesis
    using mb_use_empty [OF inv, of "Buffer_new mem" "mb_buffers m @ [Some (Buffer_new mem)]" ?m] u
    by auto
next
  case False
  then obtain b where b: "mb_at (mb_usedBuffers m) m = Inr b"
    using mb_at_inv [OF inv, of "mb_usedBuffers m"] by (metis not_le)
  let ?bufs = "(mb_buffers m)[mb_usedBuffers m := Some (Buffer_reset b)]"
  let ?m = "m\<lparr>mb_buffers := ?bufs, mb_usedBuffers := mb_usedBuffers m + 1\<rparr>"
  have "MultiBuffer_useNextBuffer alloc m = (Inr (), ?m)"
    using False b by (simp add: MultiBuffer_useNextBuffer_def Let_def mb_put_def)
  moreover have "\<forall>p \<in> set ?bufs. \<exists>b. p = Some b \<and> Buffer_inv b"
    using inv by (auto simp: mb_inv_def dest!: subsetD [OF set_update_subset_insert])
  moreover have "take (mb_usedBuffers m + 1) ?bufs = take (mb_usedBuffers m) (mb_buffers m) @ [Some (Buffer_reset b)]"
    using False by (simp add: take_Suc_update)
  ultimately show ?thesis
    using mb_use_empty [OF inv, of "Buffer_reset b" ?bufs ?m] False by auto
qed

lemma mb_room_ok:
  assumes al: "alloc_ok alloc" and inv: "mb_inv m" and pos: "0 < mb_initialSize m"
  shows "\<exists>m1 b. mb_room alloc m = (Inr (), m1) \<and>
    (mb_inv m1 \<and> mb_content m1 = mb_content m \<and> mb_pending m1 = mb_pending m \<and> mb_frame m m1 \<and>
     0 < mb_usedBuffers m1 \<and> mb_at (mb_usedBuffers m1 - 1) m1 = Inr b) \<and>
    (length (mb_buffers m) < length (mb_buffers m1) \<longrightarrow> 0 < Buffer_remainingCapacity b)"
proof (cases "mb_usedBuffers m = 0")
  case True
  then show ?thesis using useNextBuffer_ok [OF assms] by (simp add: mb_room_def)
next
  case False
  then have "mb_usedBuffers m - 1 < length (mb_buffers m)" using inv by (auto simp: mb_inv_def)
  then obtain b where "mb_at (mb_usedBuffers m - 1) m = Inr b" using mb_at_inv [OF inv] by metis
  with False show ?thesis
    using useNextBuffer_ok [OF assms] inv by (auto simp: mb_room_def)
qed

text \<open>Appending to the last buffer in use appends to the content and to what is to be read.\<close>

lemma mb_put_last:
  assumes inv: "mb_inv m" and u: "0 < mb_usedBuffers m"
    and at: "mb_at (mb_usedBuffers m - 1) m = Inr b"
    and w: "Buffer_written b' = Buffer_written b @ d" "Buffer_pending b' = Buffer_pending b @ d"
  shows "mb_content (mb_put (mb_usedBuffers m - 1) b' m) = mb_content m @ d"
    and "mb_pending (mb_put (mb_usedBuffers m - 1) b' m) = mb_pending m @ d"
proof -
  obtain u where u': "mb_usedBuffers m = Suc u" using u by (cases "mb_usedBuffers m") auto
  have lt: "u < length (mb_buffers m)" using inv u' by (simp add: mb_inv_def)
  have nth: "mb_buffers m ! u = Some b"
    using at u' lt by (auto simp: mb_at_def split: option.splits)
  have old: "take (Suc u) (mb_buffers m) = take u (mb_buffers m) @ [Some b]"
    using lt nth by (simp add: take_Suc_conv_app_nth)
  have new: "take (Suc u) ((mb_buffers m)[u := Some b']) = take u (mb_buffers m) @ [Some b']"
    using lt by (rule take_Suc_update)
  show "mb_content (mb_put (mb_usedBuffers m - 1) b' m) = mb_content m @ d"
    using u' old new w by (simp add: mb_content_def mb_put_def)
  have rb: "mb_readBuffer m \<le> u" using inv u' by (simp add: mb_inv_def)
  have "drop (mb_readBuffer m) (take u (mb_buffers m) @ [x]) = drop (mb_readBuffer m) (take u (mb_buffers m)) @ [x]" for x
    using rb lt by simp
  then show "mb_pending (mb_put (mb_usedBuffers m - 1) b' m) = mb_pending m @ d"
    using u' old new w by (simp add: mb_pending_def mb_put_def)
qed

lemma mb_write_loop_ok:
  assumes "alloc_ok alloc" and "mb_inv m" and "0 < mb_initialSize m"
  shows "\<exists>m'. mb_write_loop alloc d m = (Inr (), m') \<and> mb_inv m' \<and> mb_frame m m' \<and>
    mb_content m' = mb_content m @ d \<and> mb_pending m' = mb_pending m @ d"
  using assms
proof (induction alloc d m rule: mb_write_loop.induct)
  case (1 alloc d m)
  show ?case
  proof (cases "d = []")
    case True
    with 1 show ?thesis by (simp add: mb_write_loop.simps)
  next
    case False
    obtain m1 b where room: "mb_room alloc m = (Inr (), m1)"
      and m1: "mb_inv m1" "mb_content m1 = mb_content m" "mb_pending m1 = mb_pending m" "mb_frame m m1"
        "0 < mb_usedBuffers m1" and at: "mb_at (mb_usedBuffers m1 - 1) m1 = Inr b"
      and fresh: "length (mb_buffers m) < length (mb_buffers m1) \<longrightarrow> 0 < Buffer_remainingCapacity b"
      using mb_room_ok [OF 1(2-4)] by metis
    define k where "k = min (length d) (Buffer_remainingCapacity b)"
    define b' where "b' = snd (Buffer_write (take k d) b)"
    define m2 where "m2 = mb_put (mb_usedBuffers m1 - 1) b' m1"
    have "mb_usedBuffers m1 - 1 < length (mb_buffers m1)" using m1 by (auto simp: mb_inv_def)
    with at have binv: "Buffer_inv b" using mb_at_inv [OF m1(1)] by (metis sum.inject(2))
    have w: "Buffer_write (take k d) b = (k, b')"
      by (auto simp: b'_def k_def Buffer_write_def Let_def)
    note spec = Buffer_write_spec [OF binv w]
    have "take k (take k d) = take k d" by simp
    then have wr: "Buffer_written b' = Buffer_written b @ take k d" "Buffer_pending b' = Buffer_pending b @ take k d"
      using spec by auto
    note last = mb_put_last [OF m1(1) m1(5) at wr, folded m2_def]
    have inv2: "mb_inv m2" using mb_put_inv [OF m1(1) spec(2)] by (simp add: m2_def)
    have fr2: "mb_frame m m2" using m1(4) mb_frame_trans mb_frame_put by (metis m2_def)
    have nofresh: "\<not> (k = 0 \<and> length (mb_buffers m) < length (mb_buffers m1))"
      using fresh False by (auto simp: k_def)
    have step: "mb_write_loop alloc d m = mb_write_loop alloc (drop k d) m2"
      using False room at nofresh
      by (subst mb_write_loop.simps) (auto simp: Let_def k_def [symmetric] b'_def [symmetric] m2_def)
    have pos2: "0 < mb_initialSize m2" using fr2 1(4) by (simp add: mb_frame_def)
    have "\<exists>m'. mb_write_loop alloc (drop k d) m2 = (Inr (), m') \<and> mb_inv m' \<and> mb_frame m2 m' \<and>
        mb_content m' = mb_content m2 @ drop k d \<and> mb_pending m' = mb_pending m2 @ drop k d"
      using 1(1) [OF False room [symmetric] refl at k_def b'_def m2_def] nofresh 1(2) inv2 pos2 by simp
    then show ?thesis
      using step last m1(2,3) mb_frame_trans [OF fr2] by auto
  qed
qed

lemma MultiBuffer_write_ok:
  assumes "alloc_ok alloc" and "mb_inv m" and "0 < mb_initialSize m"
  shows "\<exists>m'. MultiBuffer_write alloc d m = (Inr (length d), m') \<and> mb_inv m' \<and>
    mb_initialSize m' = mb_initialSize m \<and> mb_content m' = mb_content m @ d \<and>
    mb_pending m' = mb_pending m @ d \<and> mb_bytesWritten m' = mb_bytesWritten m + length d \<and>
    mb_bytesRead m' = mb_bytesRead m"
proof -
  obtain m' where "mb_write_loop alloc d m = (Inr (), m')" and m': "mb_inv m'" "mb_frame m m'"
      "mb_content m' = mb_content m @ d" "mb_pending m' = mb_pending m @ d"
    using mb_write_loop_ok [OF assms] by metis
  then have "MultiBuffer_write alloc d m =
      (Inr (length d), m'\<lparr>mb_bytesWritten := mb_bytesWritten m' + length d\<rparr>)"
    by (simp add: MultiBuffer_write_def)
  then show ?thesis
    using m' by (simp add: mb_frame_def mb_inv_def mb_content_def mb_pending_def)
qed

text \<open>As a sink: with an allocator that delivers and a positive first size, a write appends.\<close>

definition mb_sink_inv :: "(nat \<Rightarrow> byte list option) \<Rightarrow> multibuffer \<Rightarrow> bool" where
  "mb_sink_inv alloc m \<longleftrightarrow> alloc_ok alloc \<and> mb_inv m \<and> 0 < mb_initialSize m"

lemma MultiBuffer_new_ok:
  "alloc_ok alloc \<Longrightarrow> 0 < initial \<Longrightarrow> mb_sink_inv alloc (MultiBuffer_new initial linear)"
  "mb_pending (MultiBuffer_new initial linear) = []"
  by (simp_all add: mb_sink_inv_def MultiBuffer_new_def mb_inv_def mb_pending_def)

interpretation mbuf_sink: counted_sink "MultiBuffer_sink alloc" "mb_sink_inv alloc" mb_content
  for alloc
proof
  fix m m' :: multibuffer and d n
  assume m: "mb_sink_inv alloc m"
  then show "\<exists>m'. snk_write (MultiBuffer_sink alloc) d m = (Inr (length d), m') \<and>
      mb_sink_inv alloc m' \<and> mb_content m' = mb_content m @ d"
    using MultiBuffer_write_ok [of alloc m d] by (auto simp: mb_sink_inv_def MultiBuffer_sink_def)
  show "snk_bytesWritten (MultiBuffer_sink alloc) m' = snk_bytesWritten (MultiBuffer_sink alloc) m + length d"
    if "snk_write (MultiBuffer_sink alloc) d m = (Inr n, m')"
    using MultiBuffer_write_ok [of alloc m d] m that by (auto simp: mb_sink_inv_def MultiBuffer_sink_def)
  show "\<exists>m'. snk_flush (MultiBuffer_sink alloc) m = (Inr (), m') \<and> mb_sink_inv alloc m' \<and>
      mb_content m' = mb_content m \<and>
      snk_bytesWritten (MultiBuffer_sink alloc) m' = snk_bytesWritten (MultiBuffer_sink alloc) m"
    using m by (simp add: MultiBuffer_sink_def)
qed

text \<open>
  Seen from the reader, the same object is a channel: what is written joins the end of what is
  still to be read.
\<close>

interpretation mbuf_pipe: byte_sink "MultiBuffer_sink alloc" "mb_sink_inv alloc" mb_pending
  for alloc
proof
  fix m d
  assume "mb_sink_inv alloc m"
  then show "\<exists>m'. snk_write (MultiBuffer_sink alloc) d m = (Inr (length d), m') \<and>
      mb_sink_inv alloc m' \<and> mb_pending m' = mb_pending m @ d"
    using MultiBuffer_write_ok [of alloc m d] by (auto simp: mb_sink_inv_def MultiBuffer_sink_def)
qed

subsection \<open>Reading\<close>

lemma mb_pending_current:
  assumes inv: "mb_inv m" and ne: "mb_pending m \<noteq> []"
  obtains b where "mb_at (mb_readBuffer m) m = Inr b" and "Buffer_inv b"
    and "mb_readBuffer m < mb_usedBuffers m"
    and "mb_pending m = Buffer_pending b @ concat (map (Buffer_pending \<circ> the)
       (drop (Suc (mb_readBuffer m)) (take (mb_usedBuffers m) (mb_buffers m))))"
proof -
  let ?r = "mb_readBuffer m" and ?u = "mb_usedBuffers m"
  have lt: "?r < ?u"
  proof (rule ccontr)
    assume "\<not> ?r < ?u"
    then have "mb_pending m = []" by (simp add: mb_pending_def)
    with ne show False ..
  qed
  then have "?r < length (mb_buffers m)" using inv by (auto simp: mb_inv_def)
  then obtain b where b: "mb_at ?r m = Inr b" "mb_buffers m ! ?r = Some b" "Buffer_inv b"
    using mb_at_inv [OF inv] by metis
  have "drop ?r (take ?u (mb_buffers m)) = Some b # drop (Suc ?r) (take ?u (mb_buffers m))"
    using lt inv b(2) by (subst Cons_nth_drop_Suc [symmetric]) (auto simp: mb_inv_def)
  then show thesis using that b lt by (simp add: mb_pending_def)
qed

lemma mb_read_loop_ok:
  assumes "mb_inv m" and "n \<le> length (mb_pending m)"
  shows "\<exists>m'. mb_read_loop n acc m = (Inr (acc @ take n (mb_pending m)), m') \<and> mb_inv m' \<and>
    mb_pending m' = drop n (mb_pending m) \<and> mb_bytesRead m' = mb_bytesRead m \<and>
    mb_usedBuffers m' = mb_usedBuffers m"
  using assms
proof (induction n acc m rule: mb_read_loop.induct)
  case (1 n acc m)
  show ?case
  proof (cases "n = 0")
    case True
    with 1 show ?thesis by (simp add: mb_read_loop.simps)
  next
    case False
    then have "mb_pending m \<noteq> []" using 1(4) by auto
    then obtain b where b: "mb_at (mb_readBuffer m) m = Inr b" "Buffer_inv b"
        and lt: "mb_readBuffer m < mb_usedBuffers m"
        and pend: "mb_pending m = Buffer_pending b @ concat (map (Buffer_pending \<circ> the)
           (drop (Suc (mb_readBuffer m)) (take (mb_usedBuffers m) (mb_buffers m))))"
      using mb_pending_current [OF 1(3)] by metis
    have guard: "mb_readBuffer m \<le> mb_usedBuffers m \<and> n > 0" using lt False by simp
    show ?thesis
    proof (cases "Buffer_remaining b = 0")
      case True
      let ?m = "m\<lparr>mb_readBuffer := mb_readBuffer m + 1\<rparr>"
      from True b have pb: "Buffer_pending b = []" by (metis length_0_conv length_Buffer_pending)
      have p: "mb_pending ?m = mb_pending m" using pend pb by (simp add: mb_pending_def)
      have "mb_readBuffer m + 1 < mb_usedBuffers m"
      proof (rule ccontr)
        assume "\<not> mb_readBuffer m + 1 < mb_usedBuffers m"
        then have "mb_pending ?m = []" by (simp add: mb_pending_def)
        then show False using p \<open>mb_pending m \<noteq> []\<close> by simp
      qed
      then have inv: "mb_inv ?m" using 1(3) by (simp add: mb_inv_def)
      have "mb_read_loop n acc m = mb_read_loop n acc ?m"
        using guard b True by (subst mb_read_loop.simps) simp
      then show ?thesis using 1(1) [OF guard b(1) True inv] p 1(4) by simp
    next
      case False
      define k where "k = min n (Buffer_remaining b)"
      obtain d b' where r: "Buffer_read k b = (d, b')" by force
      note spec = Buffer_read_spec [OF b(2) r]
      let ?m = "mb_put (mb_readBuffer m) b' m"
      have inv: "mb_inv ?m" using mb_put_inv [OF 1(3) spec(2)] .
      have k: "k \<le> length (Buffer_pending b)" using b(2) by (simp add: k_def)
      have "drop (mb_readBuffer m) (take (mb_usedBuffers m) (mb_buffers ?m)) =
          Some b' # drop (Suc (mb_readBuffer m)) (take (mb_usedBuffers m) (mb_buffers m))"
        using lt 1(3)
        by (subst Cons_nth_drop_Suc [symmetric]) (auto simp: mb_inv_def mb_put_def take_update_swap)
      then have p: "mb_pending ?m = drop k (mb_pending m)"
        using spec(3) pend k by (simp add: mb_pending_def)
      have d: "d = take k (mb_pending m)" using spec(1) pend k by simp
      have le: "n - k \<le> length (mb_pending ?m)" using p 1(4) by simp
      have step: "mb_read_loop n acc m = mb_read_loop (n - k) (acc @ d) ?m"
        using guard b False r by (subst mb_read_loop.simps) (simp add: Let_def k_def)
      have kn: "k \<le> n" by (simp add: k_def)
      have "take n (mb_pending m) = take k (mb_pending m) @ take (n - k) (drop k (mb_pending m))"
        using kn by (metis le_add_diff_inverse take_add)
      moreover have "drop n (mb_pending m) = drop (n - k) (drop k (mb_pending m))"
        using kn by simp
      ultimately show ?thesis
        using 1(2) [OF guard b(1) False k_def refl r [symmetric] inv le] step p d by simp
    qed
  qed
qed

lemma MultiBuffer_read_ok:
  assumes "mb_inv m" and "n \<le> length (mb_pending m)"
  shows "\<exists>m'. MultiBuffer_read n m = (Inr (take n (mb_pending m)), m') \<and> mb_inv m' \<and>
    mb_pending m' = drop n (mb_pending m) \<and> mb_bytesRead m' = mb_bytesRead m + n \<and>
    mb_usedBuffers m' = mb_usedBuffers m"
proof -
  obtain m' where "mb_read_loop n [] m = (Inr (take n (mb_pending m)), m')" and m': "mb_inv m'"
      "mb_pending m' = drop n (mb_pending m)" "mb_bytesRead m' = mb_bytesRead m"
      "mb_usedBuffers m' = mb_usedBuffers m"
    using mb_read_loop_ok [OF assms, of "[]"] by auto
  then have "MultiBuffer_read n m =
      (Inr (take n (mb_pending m)), m'\<lparr>mb_bytesRead := mb_bytesRead m' + length (take n (mb_pending m))\<rparr>)"
    by (simp add: MultiBuffer_read_def)
  then show ?thesis
    using m' assms(2) by (auto simp: mb_inv_def mb_pending_def)
qed

interpretation mbuf_src: byte_source MultiBuffer_source mb_inv mb_pending
proof
  fix m n
  assume "mb_inv m" and "n \<le> length (mb_pending m)"
  then show "\<exists>m'. src_read MultiBuffer_source n m = (Inr (take n (mb_pending m)), m') \<and> mb_inv m' \<and>
      mb_pending m' = drop n (mb_pending m) \<and>
      src_bytesRead MultiBuffer_source m' = src_bytesRead MultiBuffer_source m + n"
    using MultiBuffer_read_ok by (auto simp: MultiBuffer_source_def)
qed

lemma mb_read_loop_initialSize:
  "mb_read_loop n acc m = (r, m') \<Longrightarrow> mb_initialSize m' = mb_initialSize m"
proof (induction n acc m rule: mb_read_loop.induct)
  case (1 n acc m)
  then show ?case
    by (subst (asm) mb_read_loop.simps)
      (auto simp: Let_def mb_put_def split: if_splits sum.splits prod.splits)
qed

lemma MultiBuffer_read_initialSize:
  "MultiBuffer_read n m = (r, m') \<Longrightarrow> mb_initialSize m' = mb_initialSize m"
  by (auto simp: MultiBuffer_read_def dest: mb_read_loop_initialSize split: prod.splits sum.splits)

text \<open>
  Reading past the end: the loop bound \<open>mReadBuffer <= mUsedBuffers\<close> lets the index reach
  \<open>mUsedBuffers\<close>, which is outside the vector when no spare buffer is held.
\<close>

lemma mb_read_loop_past:
  assumes "\<forall>p \<in> set (mb_buffers m). \<exists>b. p = Some b \<and> Buffer_inv b"
    and "mb_readBuffer m \<le> mb_usedBuffers m" and "mb_usedBuffers m = length (mb_buffers m)"
    and "length (mb_pending m) < n"
  shows "fst (mb_read_loop n acc m) = Inl (Undefined ''buffer index out of range'')"
  using assms
proof (induction n acc m rule: mb_read_loop.induct)
  case (1 n acc m)
  let ?r = "mb_readBuffer m" and ?u = "mb_usedBuffers m"
  have guard: "?r \<le> ?u \<and> n > 0" using 1(4,6) by auto
  show ?case
  proof (cases "?r = ?u")
    case True
    then have "mb_at ?r m = Inl (Undefined ''buffer index out of range'')"
      using 1(5) by (simp add: mb_at_def)
    then show ?thesis using guard by (subst mb_read_loop.simps) simp
  next
    case False
    then have lt: "?r < length (mb_buffers m)" using 1(4,5) by simp
    then have "mb_buffers m ! ?r \<in> set (mb_buffers m)" by simp
    then obtain b where nth: "mb_buffers m ! ?r = Some b" and inv: "Buffer_inv b"
      using 1(3) by auto
    then have at: "mb_at ?r m = Inr b" using lt by (simp add: mb_at_def)
    have tl: "drop ?r (mb_buffers m) = Some b # drop (Suc ?r) (mb_buffers m)"
      using lt nth by (metis Cons_nth_drop_Suc)
    then have pend: "mb_pending m = Buffer_pending b @ concat (map (Buffer_pending \<circ> the) (drop (Suc ?r) (mb_buffers m)))"
      using 1(5) by (simp add: mb_pending_def)
    show ?thesis
    proof (cases "Buffer_remaining b = 0")
      case True
      let ?m = "m\<lparr>mb_readBuffer := ?r + 1\<rparr>"
      have "mb_pending ?m = mb_pending m"
        using pend True inv 1(5) by (simp add: mb_pending_def flip: length_Buffer_pending)
      moreover have "mb_read_loop n acc m = mb_read_loop n acc ?m"
        using guard at True by (subst mb_read_loop.simps) simp
      ultimately show ?thesis
        using 1(1) [OF guard at True] 1(3,5,6) lt by simp
    next
      case False
      define k where "k = min n (Buffer_remaining b)"
      obtain d b' where r: "Buffer_read k b = (d, b')" by force
      note spec = Buffer_read_spec [OF inv r]
      let ?m = "mb_put ?r b' m"
      have k: "k \<le> length (Buffer_pending b)" using inv by (simp add: k_def)
      have "drop ?r (mb_buffers ?m) = Some b' # drop (Suc ?r) (mb_buffers m)"
        using lt by (simp add: mb_put_def drop_update_swap tl)
      then have p: "mb_pending ?m = drop k (mb_pending m)"
        using spec(3) pend k 1(5) by (simp add: mb_pending_def)
      have step: "mb_read_loop n acc m = mb_read_loop (n - k) (acc @ d) ?m"
        using guard at False r by (subst mb_read_loop.simps) (simp add: Let_def k_def)
      have all: "\<forall>p \<in> set (mb_buffers ?m). \<exists>b. p = Some b \<and> Buffer_inv b"
        using 1(3) spec(2) by (auto simp: mb_put_def dest!: subsetD [OF set_update_subset_insert])
      have "length (mb_pending ?m) < n - k"
        using p 1(6) k pend by auto
      then show ?thesis
        using 1(2) [OF guard at False k_def refl r [symmetric] all] step 1(4,5) by simp
    qed
  qed
qed

text \<open>What \<open>skip\<close> does: it reports success for any amount and leaves all the data in place.\<close>

lemma mb_skip_loop_stays:
  assumes "mb_inv m" and "mb_pending m \<noteq> []"
  shows "\<exists>m'. mb_skip_loop n k m = (Inr (k + n), m') \<and> mb_inv m' \<and> mb_pending m' = mb_pending m"
  using assms
proof (induction n k m rule: mb_skip_loop.induct)
  case (1 n k m)
  show ?case
  proof (cases "n = 0")
    case True
    with 1 show ?thesis by (simp add: mb_skip_loop.simps)
  next
    case False
    obtain b where b: "mb_at (mb_readBuffer m) m = Inr b" "Buffer_inv b"
        and lt: "mb_readBuffer m < mb_usedBuffers m"
        and pend: "mb_pending m = Buffer_pending b @ concat (map (Buffer_pending \<circ> the)
           (drop (Suc (mb_readBuffer m)) (take (mb_usedBuffers m) (mb_buffers m))))"
      using mb_pending_current [OF 1(3,4)] by metis
    have guard: "mb_readBuffer m \<le> mb_usedBuffers m \<and> n > 0" using lt False by simp
    show ?thesis
    proof (cases "Buffer_remaining b = 0")
      case True
      let ?m = "m\<lparr>mb_readBuffer := mb_readBuffer m + 1\<rparr>"
      from True b have pb: "Buffer_pending b = []" by (metis length_0_conv length_Buffer_pending)
      have p: "mb_pending ?m = mb_pending m" using pend pb by (simp add: mb_pending_def)
      have "mb_readBuffer m + 1 < mb_usedBuffers m"
        using p 1(4) by (rule_tac ccontr) (simp add: mb_pending_def)
      then have inv: "mb_inv ?m" using 1(3) by (simp add: mb_inv_def)
      have "mb_skip_loop n k m = mb_skip_loop n k ?m"
        using guard b True by (subst mb_skip_loop.simps) simp
      then show ?thesis using 1(1) [OF guard b(1) True inv] p 1(4) by simp
    next
      case False
      define t where "t = min n (Buffer_remaining b)"
      have "mb_skip_loop n k m = mb_skip_loop (n - t) (k + t) m"
        using guard b False by (subst mb_skip_loop.simps) (simp add: Let_def t_def)
      moreover have "k + t + (n - t) = k + n" by (simp add: t_def)
      ultimately show ?thesis using 1(2) [OF guard b(1) False t_def 1(3,4)] by simp
    qed
  qed
qed

lemma MultiBuffer_skip_stays:
  assumes "mb_inv m" and "mb_pending m \<noteq> []"
  shows "\<exists>m'. MultiBuffer_skip n m = (Inr n, m') \<and> mb_inv m' \<and> mb_pending m' = mb_pending m"
proof -
  obtain m' where "mb_skip_loop n 0 m = (Inr n, m')" "mb_inv m'" "mb_pending m' = mb_pending m"
    using mb_skip_loop_stays [OF assms, of n 0] by auto
  then show ?thesis by (auto simp: MultiBuffer_skip_def mb_inv_def mb_pending_def)
qed

end
