(* ===== verification/Framing.thy ===== *)
theory Framing
  imports MultiBuffers
begin

text \<open>
  The framing protocol of \<^verbatim>\<open>arras4_network/lib/network\<close>: \<open>BasicFramingSink\<close> and
  \<open>BasicFramingSource\<close> put a 16-byte header in front of every frame, \<open>BufferedSink\<close> collects a
  frame of unknown size in memory before it sends it, \<open>BufferedSource\<close> holds one whole frame.

  The contracts \<open>FramedSink\<close> and \<open>FramedSource\<close> are the locales \<open>frame_sink\<close> and
  \<open>frame_source\<close>. The basic framing classes provide them over any \<open>byte_sink\<close> and
  \<open>byte_source\<close>; the buffered classes are verified once, inside the contracts.
\<close>

subsection \<open>The frame header\<close>

datatype frame_type = FRAME_BINARY | FRAME_UTF8 | FRAME_UNKNOWN

record frame =
  fr_type :: frame_type
  fr_length :: u32
  fr_reserved1 :: u32
  fr_reserved2 :: u32

primrec frame_type_code :: "frame_type \<Rightarrow> u32" where
  "frame_type_code FRAME_BINARY = 0"
| "frame_type_code FRAME_UTF8 = 1"
| "frame_type_code FRAME_UNKNOWN = 2"

definition Frame_default :: frame where
  "Frame_default = \<lparr>fr_type = FRAME_UNKNOWN, fr_length = 0, fr_reserved1 = 0, fr_reserved2 = 0\<rparr>"

text \<open>The memory image of the header, and the length field of such an image.\<close>

definition frame_bytes :: "frame \<Rightarrow> byte list" where
  "frame_bytes f = word_bytes (frame_type_code (fr_type f)) @ word_bytes (fr_length f) @
     word_bytes (fr_reserved1 f) @ word_bytes (fr_reserved2 f)"

definition frame_length_of :: "byte list \<Rightarrow> nat" where
  "frame_length_of bs = unat (bytes_word (take 4 (drop 4 bs)) :: u32)"

definition FRAME_SIZE :: nat where
  "FRAME_SIZE = 16"

lemma length_frame_bytes [simp]: "length (frame_bytes f) = FRAME_SIZE"
  by (simp add: frame_bytes_def FRAME_SIZE_def)

lemma frame_bytes_not_Nil [simp]: "frame_bytes f \<noteq> []"
proof
  assume "frame_bytes f = []"
  then have "length (frame_bytes f) = 0" by (simp del: length_frame_bytes)
  then show False by (simp add: FRAME_SIZE_def)
qed

lemma frame_length_of_frame_bytes [simp]: "frame_length_of (frame_bytes f) = unat (fr_length f)"
  by (simp add: frame_length_of_def frame_bytes_def)

subsection \<open>BasicFramingSink\<close>

record 's framing_sink =
  fsk_output :: 's
  fsk_bytesWritten :: nat
  fsk_frameSize :: nat

definition BasicFramingSink_new :: "'s \<Rightarrow> 's framing_sink" where
  "BasicFramingSink_new s = \<lparr>fsk_output = s, fsk_bytesWritten = 0, fsk_frameSize = 0\<rparr>"

definition BasicFramingSink_remaining :: "'s framing_sink \<Rightarrow> nat" where
  "BasicFramingSink_remaining f = size_sub (fsk_frameSize f) (fsk_bytesWritten f)"

definition BasicFramingSink_write :: "('s, 'z) data_sink_scheme \<Rightarrow> byte list \<Rightarrow> ('s framing_sink, nat) proc" where
  "BasicFramingSink_write ops d f =
     (if length d > BasicFramingSink_remaining f
      then raise (FramingError ''Attempt to write beyond end of data frame'') f
      else bindp (zoom fsk_output (\<lambda>s f. f\<lparr>fsk_output := s\<rparr>) (snk_write ops d))
             (\<lambda>_. seqp (upd (\<lambda>f. f\<lparr>fsk_bytesWritten := fsk_bytesWritten f + length d\<rparr>))
                       (ret (length d))) f)"

definition BasicFramingSink_flush :: "('s, 'z) data_sink_scheme \<Rightarrow> ('s framing_sink, unit) proc" where
  "BasicFramingSink_flush ops = zoom fsk_output (\<lambda>s f. f\<lparr>fsk_output := s\<rparr>) (snk_flush ops)"

definition frame_header :: "nat \<Rightarrow> frame" where
  "frame_header n =
     \<lparr>fr_type = FRAME_BINARY, fr_length = word_of_nat n, fr_reserved1 = 0, fr_reserved2 = 0\<rparr>"

definition BasicFramingSink_openFrame :: "('s, 'z) data_sink_scheme \<Rightarrow> nat \<Rightarrow> ('s framing_sink, bool) proc" where
  "BasicFramingSink_openFrame ops frameSize f =
     (if frameSize > 2 ^ 32 - 1
      then raise (FramingError ''Data is too long for the framing protocol. Limit is ~2Gb'') f
      else bindp (zoom fsk_output (\<lambda>s f. f\<lparr>fsk_output := s\<rparr>)
                   (snk_write ops (frame_bytes (frame_header frameSize))))
             (\<lambda>w. if w > 0
                  then seqp (upd (\<lambda>f. f\<lparr>fsk_frameSize := frameSize, fsk_bytesWritten := 0\<rparr>)) (ret True)
                  else ret False) f)"

definition BasicFramingSink_closeFrame :: "('s framing_sink, bool) proc" where
  "BasicFramingSink_closeFrame f =
     (if BasicFramingSink_remaining f \<noteq> 0
      then raise (FramingError ''Not enough data written to fill frame'') f
      else (Inr True, f\<lparr>fsk_frameSize := 0, fsk_bytesWritten := 0\<rparr>))"

definition BasicFramingSink_ops :: "('s, 'z) data_sink_scheme \<Rightarrow> 's framing_sink framed_sink" where
  "BasicFramingSink_ops ops =
     \<lparr>snk_write = BasicFramingSink_write ops, snk_flush = BasicFramingSink_flush ops,
      snk_bytesWritten = fsk_bytesWritten,
      snk_openFrame = BasicFramingSink_openFrame ops, snk_closeFrame = BasicFramingSink_closeFrame\<rparr>"

subsection \<open>BasicFramingSource\<close>

record 's framing_source =
  fsr_input :: 's
  fsr_bytesRead :: nat
  fsr_frameSize :: nat

definition BasicFramingSource_new :: "'s \<Rightarrow> 's framing_source" where
  "BasicFramingSource_new s = \<lparr>fsr_input = s, fsr_bytesRead = 0, fsr_frameSize = 0\<rparr>"

definition BasicFramingSource_remaining :: "'s framing_source \<Rightarrow> nat" where
  "BasicFramingSource_remaining f = size_sub (fsr_frameSize f) (fsr_bytesRead f)"

definition BasicFramingSource_read :: "('s, 'z) data_source_scheme \<Rightarrow> nat \<Rightarrow> ('s framing_source, byte list) proc" where
  "BasicFramingSource_read ops n f =
     (if n > BasicFramingSource_remaining f
      then raise (FramingError ''Attempt to read beyond end of data frame'') f
      else bindp (zoom fsr_input (\<lambda>s f. f\<lparr>fsr_input := s\<rparr>) (src_read ops n))
             (\<lambda>d. seqp (upd (\<lambda>f. f\<lparr>fsr_bytesRead := fsr_bytesRead f + length d\<rparr>)) (ret d)) f)"

definition BasicFramingSource_skip :: "('s, 'z) data_source_scheme \<Rightarrow> nat \<Rightarrow> ('s framing_source, nat) proc" where
  "BasicFramingSource_skip ops n f =
     (if n > BasicFramingSource_remaining f
      then raise (FramingError ''Attempt to skip beyond end of data frame'') f
      else bindp (zoom fsr_input (\<lambda>s f. f\<lparr>fsr_input := s\<rparr>) (src_skip ops n))
             (\<lambda>k. seqp (upd (\<lambda>f. f\<lparr>fsr_bytesRead := fsr_bytesRead f + k\<rparr>)) (ret k)) f)"

text \<open>
  \<open>nextFrame\<close> reads over a default-initialised header: bytes a short read does not supply keep
  their default values. A count of 0 means a timeout of the input.
\<close>

definition BasicFramingSource_nextFrame :: "('s, 'z) data_source_scheme \<Rightarrow> ('s framing_source, nat) proc" where
  "BasicFramingSource_nextFrame ops =
     bindp (zoom fsr_input (\<lambda>s f. f\<lparr>fsr_input := s\<rparr>) (src_read ops FRAME_SIZE))
       (\<lambda>d. if length d > 0
            then (let hdr = d @ drop (length d) (frame_bytes Frame_default);
                      sz = frame_length_of hdr
                  in seqp (upd (\<lambda>f. f\<lparr>fsr_frameSize := sz, fsr_bytesRead := 0\<rparr>)) (ret sz))
            else ret 0)"

definition BasicFramingSource_endFrame :: "('s framing_source, unit) proc" where
  "BasicFramingSource_endFrame = upd (\<lambda>f. f\<lparr>fsr_frameSize := 0, fsr_bytesRead := 0\<rparr>)"

definition BasicFramingSource_ops :: "('s, 'z) data_source_scheme \<Rightarrow> 's framing_source framed_source" where
  "BasicFramingSource_ops ops =
     \<lparr>src_read = BasicFramingSource_read ops, src_skip = BasicFramingSource_skip ops,
      src_bytesRead = fsr_bytesRead,
      src_nextFrame = BasicFramingSource_nextFrame ops, src_endFrame = BasicFramingSource_endFrame\<rparr>"

subsection \<open>BufferedSink\<close>

record 's buffered_sink =
  bsk_output :: 's
  bsk_multiBuffer :: multibuffer
  bsk_appendedLength :: nat
  bsk_appendedBuffers :: "buffer list"

definition BufferedSink_new :: "'s \<Rightarrow> 's buffered_sink" where
  "BufferedSink_new s =
     \<lparr>bsk_output = s, bsk_multiBuffer = MultiBuffer_new INITIAL_BUFFER_SIZE LINEAR_BUFFER_SIZE,
      bsk_appendedLength = 0, bsk_appendedBuffers = []\<rparr>"

definition BufferedSink_bytesWritten :: "'s buffered_sink \<Rightarrow> nat" where
  "BufferedSink_bytesWritten k = mb_bytesWritten (bsk_multiBuffer k) + bsk_appendedLength k"

definition BufferedSink_reset :: "'s buffered_sink \<Rightarrow> 's buffered_sink" where
  "BufferedSink_reset k =
     k\<lparr>bsk_multiBuffer := MultiBuffer_reset (bsk_multiBuffer k), bsk_appendedBuffers := [],
       bsk_appendedLength := 0\<rparr>"

definition BufferedSink_appendBuffer :: "buffer \<Rightarrow> ('s buffered_sink, unit) proc" where
  "BufferedSink_appendBuffer b =
     upd (\<lambda>k. k\<lparr>bsk_appendedBuffers := bsk_appendedBuffers k @ [b],
               bsk_appendedLength := bsk_appendedLength k + Buffer_remaining b\<rparr>)"

definition BufferedSink_openFrame :: "('s buffered_sink, bool) proc" where
  "BufferedSink_openFrame = seqp (upd BufferedSink_reset) (ret True)"

definition BufferedSink_write :: "(nat \<Rightarrow> byte list option) \<Rightarrow> byte list \<Rightarrow> ('s buffered_sink, nat) proc" where
  "BufferedSink_write alloc d =
     zoom bsk_multiBuffer (\<lambda>m k. k\<lparr>bsk_multiBuffer := m\<rparr>) (MultiBuffer_write alloc d)"

definition bsk_out :: "('s, 'a) proc \<Rightarrow> ('s buffered_sink, 'a) proc" where
  "bsk_out = zoom bsk_output (\<lambda>s k. k\<lparr>bsk_output := s\<rparr>)"

definition BufferedSink_sendBuffer :: "('s, 'z) framed_sink_scheme \<Rightarrow> buffer \<Rightarrow> ('s buffered_sink, unit) proc" where
  "BufferedSink_sendBuffer ops b = seqp (bsk_out (snk_write ops (Buffer_pending b))) (ret ())"

definition BufferedSink_closeFrame :: "('s, 'z) framed_sink_scheme \<Rightarrow> ('s buffered_sink, bool) proc" where
  "BufferedSink_closeFrame ops k =
     bindp (bsk_out (snk_openFrame ops (BufferedSink_bytesWritten k)))
       (\<lambda>ok. if \<not> ok then ret False
             else seqp (forp [0..<MultiBuffer_bufferCount (bsk_multiBuffer k)]
                         (\<lambda>i k'. case mb_at i (bsk_multiBuffer k') of
                                  Inl e \<Rightarrow> (Inl e, k')
                                | Inr b \<Rightarrow> BufferedSink_sendBuffer ops b k'))
                  (seqp (forp (bsk_appendedBuffers k) (BufferedSink_sendBuffer ops))
                  (seqp (bsk_out (snk_closeFrame ops))
                  (seqp (upd BufferedSink_reset) (ret True))))) k"

definition BufferedSink_shrinkTo :: "nat \<Rightarrow> ('s buffered_sink, unit) proc" where
  "BufferedSink_shrinkTo maxCapacity =
     zoom bsk_multiBuffer (\<lambda>m k. k\<lparr>bsk_multiBuffer := m\<rparr>) (MultiBuffer_shrinkTo maxCapacity)"

definition BufferedSink_flush :: "('s buffered_sink, unit) proc" where
  "BufferedSink_flush = ret ()"

definition BufferedSink_ops :: "(nat \<Rightarrow> byte list option) \<Rightarrow> 's buffered_sink data_sink" where
  "BufferedSink_ops alloc =
     \<lparr>snk_write = BufferedSink_write alloc, snk_flush = BufferedSink_flush,
      snk_bytesWritten = BufferedSink_bytesWritten\<rparr>"

subsection \<open>BufferedSource\<close>

record 's buffered_source =
  bsr_input :: 's
  bsr_isInFrame :: bool
  bsr_buffer :: "buffer option"

definition BufferedSource_new :: "'s \<Rightarrow> 's buffered_source" where
  "BufferedSource_new s = \<lparr>bsr_input = s, bsr_isInFrame = False, bsr_buffer = None\<rparr>"

definition BufferedSource_bytesRead :: "'s buffered_source \<Rightarrow> nat" where
  "BufferedSource_bytesRead q = (case bsr_buffer q of Some b \<Rightarrow> Buffer_consumed b | None \<Rightarrow> 0)"

definition BufferedSource_takeBuffer :: "('s buffered_source, buffer option) proc" where
  "BufferedSource_takeBuffer q = (Inr (bsr_buffer q), q\<lparr>bsr_buffer := None\<rparr>)"

definition BufferedSource_read :: "nat \<Rightarrow> ('s buffered_source, byte list) proc" where
  "BufferedSource_read n q =
     (case bsr_buffer q of
        None \<Rightarrow> raise (FramingError ''Attempt to read without message data'') q
      | Some b \<Rightarrow>
          (if n > Buffer_remaining b
           then raise (FramingError ''Attempt to read beyond end of message data'') q
           else (case Buffer_read n b of (d, b') \<Rightarrow> (Inr d, q\<lparr>bsr_buffer := Some b'\<rparr>))))"

definition BufferedSource_skip :: "nat \<Rightarrow> ('s buffered_source, nat) proc" where
  "BufferedSource_skip n q =
     (case bsr_buffer q of
        None \<Rightarrow> raise (FramingError ''Attempt to skip without message data'') q
      | Some b \<Rightarrow>
          (if n > Buffer_remaining b
           then raise (FramingError ''Attempt to skip beyond end of message data'') q
           else (case Buffer_skip n b of (k, b') \<Rightarrow> (Inr n, q\<lparr>bsr_buffer := Some b'\<rparr>))))"

text \<open>\<open>prepForFill\<close> returns the offset of the block to fill.\<close>

definition BufferedSource_prepForFill :: "(nat \<Rightarrow> byte list option) \<Rightarrow> nat \<Rightarrow> ('s buffered_source, nat) proc" where
  "BufferedSource_prepForFill alloc sz q =
     (let fill = (\<lambda>b. case Buffer_assign sz (Buffer_reset b) of
                        (off, _, b') \<Rightarrow> (Inr off, q\<lparr>bsr_buffer := Some b'\<rparr>));
          fresh = (case alloc sz of
                     None \<Rightarrow> raise (OutOfMemoryError ''Read buffer allocation failed : out of memory?'') q
                   | Some mem \<Rightarrow> fill (Buffer_new mem))
      in case bsr_buffer q of
           None \<Rightarrow> fresh
         | Some b \<Rightarrow> if sz > Buffer_capacity b then fresh else fill b)"

text \<open>Storing what the input delivers through the fill pointer.\<close>

definition bsr_fill :: "nat \<Rightarrow> byte list \<Rightarrow> 's buffered_source \<Rightarrow> 's buffered_source" where
  "bsr_fill off d q =
     q\<lparr>bsr_buffer := map_option (\<lambda>b. b\<lparr>buf_data := poke (buf_data b) off d\<rparr>) (bsr_buffer q)\<rparr>"

definition bsr_in :: "('s, 'a) proc \<Rightarrow> ('s buffered_source, 'a) proc" where
  "bsr_in = zoom bsr_input (\<lambda>s q. q\<lparr>bsr_input := s\<rparr>)"

definition BufferedSource_nextFrame ::
  "(nat \<Rightarrow> byte list option) \<Rightarrow> ('s, 'z) framed_source_scheme \<Rightarrow> ('s buffered_source, nat) proc" where
  "BufferedSource_nextFrame alloc ops =
     bindp (bsr_in (src_nextFrame ops))
       (\<lambda>frameSize.
          if frameSize > 0
          then bindp (BufferedSource_prepForFill alloc frameSize)
                 (\<lambda>off. bindp (bsr_in (src_read ops frameSize))
                   (\<lambda>d. seqp (upd (bsr_fill off d))
                         (seqp (bsr_in (src_endFrame ops))
                         (seqp (upd (\<lambda>q. q\<lparr>bsr_isInFrame := True\<rparr>)) (ret frameSize)))))
          else ret frameSize)"

definition BufferedSource_endFrame :: "('s buffered_source, unit) proc" where
  "BufferedSource_endFrame = upd (\<lambda>q. q\<lparr>bsr_isInFrame := False\<rparr>)"

definition BufferedSource_shrinkTo :: "nat \<Rightarrow> ('s buffered_source, unit) proc" where
  "BufferedSource_shrinkTo maxCapacity =
     upd (\<lambda>q. if \<not> bsr_isInFrame q \<and>
                 (case bsr_buffer q of None \<Rightarrow> False | Some b \<Rightarrow> Buffer_capacity b > maxCapacity)
              then q\<lparr>bsr_buffer := None\<rparr> else q)"

definition BufferedSource_ops ::
  "(nat \<Rightarrow> byte list option) \<Rightarrow> ('s, 'z) framed_source_scheme \<Rightarrow> 's buffered_source framed_source" where
  "BufferedSource_ops alloc ops =
     \<lparr>src_read = BufferedSource_read, src_skip = BufferedSource_skip,
      src_bytesRead = BufferedSource_bytesRead,
      src_nextFrame = BufferedSource_nextFrame alloc ops, src_endFrame = BufferedSource_endFrame\<rparr>"

subsection \<open>Contract of a framed sink\<close>

text \<open>
  \<open>room s\<close> is what the open frame still lacks. Opening a frame delivers its header, a write that
  fits is delivered, and a full frame can be closed.
\<close>

locale frame_sink =
  fixes ops :: "('s, 'z) framed_sink_scheme"
    and inv :: "'s \<Rightarrow> bool"
    and content :: "'s \<Rightarrow> byte list"
    and room :: "'s \<Rightarrow> nat"
  assumes open_ok: "inv s \<Longrightarrow> n < 2 ^ 32 \<Longrightarrow>
      \<exists>s'. snk_openFrame ops n s = (Inr True, s') \<and> inv s' \<and>
           content s' = content s @ frame_bytes (frame_header n) \<and> room s' = n"
    and fwrite_ok: "inv s \<Longrightarrow> length d \<le> room s \<Longrightarrow>
      \<exists>s'. snk_write ops d s = (Inr (length d), s') \<and> inv s' \<and>
           content s' = content s @ d \<and> room s' = room s - length d"
    and close_ok: "inv s \<Longrightarrow> room s = 0 \<Longrightarrow>
      \<exists>s'. snk_closeFrame ops s = (Inr True, s') \<and> inv s' \<and> content s' = content s"

text \<open>The state of a buffered sink between frames and inside one.\<close>

definition bsk_mem_inv :: "(nat \<Rightarrow> byte list option) \<Rightarrow> 's buffered_sink \<Rightarrow> bool" where
  "bsk_mem_inv alloc k \<longleftrightarrow>
     mb_sink_inv alloc (bsk_multiBuffer k) \<and> mb_readBuffer (bsk_multiBuffer k) = 0 \<and>
     mb_pending (bsk_multiBuffer k) = mb_content (bsk_multiBuffer k) \<and>
     mb_bytesWritten (bsk_multiBuffer k) = length (mb_content (bsk_multiBuffer k)) \<and>
     (\<forall>b \<in> set (bsk_appendedBuffers k). Buffer_inv b) \<and>
     bsk_appendedLength k = sum_list (map Buffer_remaining (bsk_appendedBuffers k))"

definition bsk_content :: "'s buffered_sink \<Rightarrow> byte list" where
  "bsk_content k = mb_content (bsk_multiBuffer k) @ concat (map Buffer_pending (bsk_appendedBuffers k))"

lemma bsk_bytesWritten: "bsk_mem_inv alloc k \<Longrightarrow> BufferedSink_bytesWritten k = length (bsk_content k)"
proof -
  assume inv: "bsk_mem_inv alloc k"
  then have "map Buffer_remaining (bsk_appendedBuffers k) =
      map (length \<circ> Buffer_pending) (bsk_appendedBuffers k)"
    by (simp add: bsk_mem_inv_def)
  with inv show ?thesis
    by (simp add: bsk_mem_inv_def bsk_content_def BufferedSink_bytesWritten_def length_concat)
qed

lemma BufferedSink_reset_ok:
  assumes "bsk_mem_inv alloc k"
  shows "bsk_mem_inv alloc (BufferedSink_reset k)" and "bsk_content (BufferedSink_reset k) = []"
    and "bsk_output (BufferedSink_reset k) = bsk_output k"
  using assms
  by (auto simp: bsk_mem_inv_def bsk_content_def BufferedSink_reset_def mb_sink_inv_def
      mb_content_def mb_pending_def mb_inv_def MultiBuffer_reset_def)

lemma BufferedSink_new_ok:
  assumes "alloc_ok alloc"
  shows "bsk_mem_inv alloc (BufferedSink_new s)" and "bsk_content (BufferedSink_new s) = []"
  using assms
  by (auto simp: bsk_mem_inv_def bsk_content_def BufferedSink_new_def mb_sink_inv_def
      INITIAL_BUFFER_SIZE_def MultiBuffer_new_def mb_content_def mb_pending_def mb_inv_def)

lemma BufferedSink_write_ok:
  assumes inv: "bsk_mem_inv alloc k" and app: "bsk_appendedBuffers k = []"
  shows "\<exists>k'. BufferedSink_write alloc d k = (Inr (length d), k') \<and> bsk_mem_inv alloc k' \<and>
    bsk_content k' = bsk_content k @ d \<and> bsk_output k' = bsk_output k \<and> bsk_appendedBuffers k' = []"
proof -
  let ?m = "bsk_multiBuffer k"
  obtain m' where w: "MultiBuffer_write alloc d ?m = (Inr (length d), m')" and
      m': "mb_inv m'" "mb_initialSize m' = mb_initialSize ?m" "mb_content m' = mb_content ?m @ d"
        "mb_pending m' = mb_pending ?m @ d" "mb_bytesWritten m' = mb_bytesWritten ?m + length d"
    using MultiBuffer_write_ok [of alloc ?m d] inv by (auto simp: bsk_mem_inv_def mb_sink_inv_def)
  obtain m1 where "mb_write_loop alloc d ?m = (Inr (), m1)" and "mb_frame ?m m1"
    using mb_write_loop_ok [of alloc ?m d] inv by (auto simp: bsk_mem_inv_def mb_sink_inv_def)
  then have rb: "mb_readBuffer m' = 0"
    using w inv by (auto simp: MultiBuffer_write_def mb_frame_def bsk_mem_inv_def)
  have "BufferedSink_write alloc d k = (Inr (length d), k\<lparr>bsk_multiBuffer := m'\<rparr>)"
    using w by (simp add: BufferedSink_write_def)
  then show ?thesis
    using inv m' rb app by (auto simp: bsk_mem_inv_def bsk_content_def mb_sink_inv_def)
qed

lemma BufferedSink_appendBuffer_ok:
  assumes "bsk_mem_inv alloc k" and "Buffer_inv b"
  shows "\<exists>k'. BufferedSink_appendBuffer b k = (Inr (), k') \<and> bsk_mem_inv alloc k' \<and>
    bsk_content k' = bsk_content k @ Buffer_pending b \<and> bsk_output k' = bsk_output k"
  using assms by (auto simp: BufferedSink_appendBuffer_def bsk_mem_inv_def bsk_content_def)

text \<open>While no buffer has been appended, the buffered sink is a byte sink.\<close>

interpretation bufsink: counted_sink "BufferedSink_ops alloc"
  "\<lambda>k. bsk_mem_inv alloc k \<and> bsk_appendedBuffers k = [] \<and> bsk_output k = out" bsk_content
  for alloc :: "nat \<Rightarrow> byte list option" and out :: 's
proof
  fix k k' :: "'s buffered_sink" and d n
  assume k: "bsk_mem_inv alloc k \<and> bsk_appendedBuffers k = [] \<and> bsk_output k = out"
  then obtain k1 where k1: "snk_write (BufferedSink_ops alloc) d k = (Inr (length d), k1)"
      "bsk_mem_inv alloc k1" "bsk_appendedBuffers k1 = []" "bsk_output k1 = out"
      "bsk_content k1 = bsk_content k @ d"
    using BufferedSink_write_ok [of alloc k d] by (auto simp: BufferedSink_ops_def)
  then show "\<exists>k'. snk_write (BufferedSink_ops alloc) d k = (Inr (length d), k') \<and>
      (bsk_mem_inv alloc k' \<and> bsk_appendedBuffers k' = [] \<and> bsk_output k' = out) \<and>
      bsk_content k' = bsk_content k @ d"
    by simp
  show "snk_bytesWritten (BufferedSink_ops alloc) k' = snk_bytesWritten (BufferedSink_ops alloc) k + length d"
    if "snk_write (BufferedSink_ops alloc) d k = (Inr n, k')"
    using that k k1 bsk_bytesWritten [of alloc k] bsk_bytesWritten [of alloc k1]
    by (auto simp: BufferedSink_ops_def)
  show "\<exists>k'. snk_flush (BufferedSink_ops alloc) k = (Inr (), k') \<and>
      (bsk_mem_inv alloc k' \<and> bsk_appendedBuffers k' = [] \<and> bsk_output k' = out) \<and>
      bsk_content k' = bsk_content k \<and>
      snk_bytesWritten (BufferedSink_ops alloc) k' = snk_bytesWritten (BufferedSink_ops alloc) k"
    using k by (simp add: BufferedSink_ops_def BufferedSink_flush_def)
qed

context frame_sink
begin

lemma sendBuffer_ok:
  assumes "inv (bsk_output k)" and "length (Buffer_pending b) \<le> room (bsk_output k)"
  shows "\<exists>s'. BufferedSink_sendBuffer ops b k = (Inr (), k\<lparr>bsk_output := s'\<rparr>) \<and> inv s' \<and>
    content s' = content (bsk_output k) @ Buffer_pending b \<and>
    room s' = room (bsk_output k) - length (Buffer_pending b)"
  using fwrite_ok [OF assms] by (auto simp: BufferedSink_sendBuffer_def bsk_out_def)

lemma sendBuffers_ok:
  assumes "inv (bsk_output k)"
    and "length (concat (map Buffer_pending bs)) \<le> room (bsk_output k)"
  shows "\<exists>s'. forp bs (BufferedSink_sendBuffer ops) k = (Inr (), k\<lparr>bsk_output := s'\<rparr>) \<and> inv s' \<and>
    content s' = content (bsk_output k) @ concat (map Buffer_pending bs) \<and>
    room s' = room (bsk_output k) - length (concat (map Buffer_pending bs))"
  using assms
proof (induction bs arbitrary: k)
  case Nil
  then show ?case by (auto intro!: exI [of _ "bsk_output k"])
next
  case (Cons b bs)
  obtain s1 where s1: "BufferedSink_sendBuffer ops b k = (Inr (), k\<lparr>bsk_output := s1\<rparr>)" "inv s1"
      "content s1 = content (bsk_output k) @ Buffer_pending b"
      "room s1 = room (bsk_output k) - length (Buffer_pending b)"
    using sendBuffer_ok [of k b] Cons.prems by auto
  from Cons.IH [of "k\<lparr>bsk_output := s1\<rparr>"] Cons.prems s1 show ?case by auto
qed

text \<open>Sending the buffers of the multi-buffer by index is sending them as a list.\<close>

lemma send_by_index:
  assumes "mb_inv (bsk_multiBuffer k)" and "set is \<subseteq> {..<length (mb_buffers (bsk_multiBuffer k))}"
    and "inv (bsk_output k)"
    and "length (concat (map (\<lambda>i. Buffer_pending (the (mb_buffers (bsk_multiBuffer k) ! i))) is)) \<le> room (bsk_output k)"
  shows "\<exists>s'. forp is (\<lambda>i k'. case mb_at i (bsk_multiBuffer k') of Inl e \<Rightarrow> (Inl e, k')
              | Inr b \<Rightarrow> BufferedSink_sendBuffer ops b k') k = (Inr (), k\<lparr>bsk_output := s'\<rparr>) \<and> inv s' \<and>
    content s' = content (bsk_output k) @
      concat (map (\<lambda>i. Buffer_pending (the (mb_buffers (bsk_multiBuffer k) ! i))) is) \<and>
    room s' = room (bsk_output k) -
      length (concat (map (\<lambda>i. Buffer_pending (the (mb_buffers (bsk_multiBuffer k) ! i))) is))"
  using assms
proof (induction "is" arbitrary: k)
  case Nil
  then show ?case by (auto intro!: exI [of _ "bsk_output k"])
next
  case (Cons i "is")
  obtain b where b: "mb_at i (bsk_multiBuffer k) = Inr b" "mb_buffers (bsk_multiBuffer k) ! i = Some b"
    using mb_at_inv [OF Cons.prems(1), of i] Cons.prems(2) by auto
  obtain s1 where s1: "BufferedSink_sendBuffer ops b k = (Inr (), k\<lparr>bsk_output := s1\<rparr>)" "inv s1"
      "content s1 = content (bsk_output k) @ Buffer_pending b"
      "room s1 = room (bsk_output k) - length (Buffer_pending b)"
    using sendBuffer_ok [of k b] Cons.prems b by auto
  from Cons.IH [of "k\<lparr>bsk_output := s1\<rparr>"] Cons.prems s1 b show ?case by auto
qed

theorem closeFrame_ok:
  assumes inv: "inv (bsk_output k)" and mem: "bsk_mem_inv alloc k"
    and small: "length (bsk_content k) < 2 ^ 32"
  shows "\<exists>k'. BufferedSink_closeFrame ops k = (Inr True, k') \<and> inv (bsk_output k') \<and>
    bsk_mem_inv alloc k' \<and> bsk_content k' = [] \<and>
    content (bsk_output k') =
      content (bsk_output k) @ frame_bytes (frame_header (length (bsk_content k))) @ bsk_content k"
proof -
  let ?m = "bsk_multiBuffer k" and ?n = "length (bsk_content k)"
  let ?by_index = "concat (map (\<lambda>i. Buffer_pending (the (mb_buffers ?m ! i))) [0..<mb_usedBuffers ?m])"
  have mbi: "mb_inv ?m" using mem by (simp add: bsk_mem_inv_def mb_sink_inv_def)
  have idx: "?by_index = mb_content ?m"
    using mem mbi map_nth_take [of "mb_usedBuffers ?m" "mb_buffers ?m" "Buffer_pending \<circ> the"]
    by (auto simp: bsk_mem_inv_def mb_pending_def mb_inv_def comp_def)
  obtain s1 where s1: "snk_openFrame ops ?n (bsk_output k) = (Inr True, s1)" "inv s1"
      "content s1 = content (bsk_output k) @ frame_bytes (frame_header ?n)" "room s1 = ?n"
    using open_ok [OF inv small] by auto
  let ?k1 = "k\<lparr>bsk_output := s1\<rparr>"
  have sub: "set [0..<mb_usedBuffers ?m] \<subseteq> {..<length (mb_buffers ?m)}"
    using mbi by (auto simp: mb_inv_def)
  obtain s2 where s2: "forp [0..<mb_usedBuffers ?m] (\<lambda>i k'. case mb_at i (bsk_multiBuffer k') of Inl e \<Rightarrow> (Inl e, k')
              | Inr b \<Rightarrow> BufferedSink_sendBuffer ops b k') ?k1 = (Inr (), ?k1\<lparr>bsk_output := s2\<rparr>)" "inv s2"
      "content s2 = content s1 @ mb_content ?m" "room s2 = ?n - length (mb_content ?m)"
    using send_by_index [of ?k1 "[0..<mb_usedBuffers ?m]"] mbi idx s1 sub
    by (auto simp: bsk_content_def)
  let ?k2 = "k\<lparr>bsk_output := s2\<rparr>"
  obtain s3 where s3: "forp (bsk_appendedBuffers k) (BufferedSink_sendBuffer ops) ?k2 = (Inr (), ?k2\<lparr>bsk_output := s3\<rparr>)"
      "inv s3" "content s3 = content s2 @ concat (map Buffer_pending (bsk_appendedBuffers k))" "room s3 = 0"
    using sendBuffers_ok [of ?k2 "bsk_appendedBuffers k"] s2 by (auto simp: bsk_content_def)
  obtain s4 where s4: "snk_closeFrame ops s3 = (Inr True, s4)" "inv s4" "content s4 = content s3"
    using close_ok s3 by blast
  let ?k4 = "k\<lparr>bsk_output := s4\<rparr>"
  have mem4: "bsk_mem_inv alloc ?k4" using mem by (simp add: bsk_mem_inv_def)
  have "BufferedSink_closeFrame ops k = (Inr True, BufferedSink_reset ?k4)"
    using s1 s2 s3 s4 bsk_bytesWritten [OF mem]
    by (simp add: BufferedSink_closeFrame_def bsk_out_def MultiBuffer_bufferCount_def)
  then show ?thesis
    using BufferedSink_reset_ok [OF mem4] s1 s2 s3 s4 by (simp add: bsk_content_def)
qed

end

text \<open>The basic framing sink provides the contract over any byte sink.\<close>

sublocale byte_sink \<subseteq> framing: frame_sink "BasicFramingSink_ops ops"
  "\<lambda>f. inv (fsk_output f) \<and> fsk_bytesWritten f \<le> fsk_frameSize f"
  "\<lambda>f. content (fsk_output f)" "\<lambda>f. fsk_frameSize f - fsk_bytesWritten f"
proof
  fix f :: "'s framing_sink" and n :: nat
  assume f: "inv (fsk_output f) \<and> fsk_bytesWritten f \<le> fsk_frameSize f" and n: "n < 2 ^ 32"
  obtain s' where "snk_write ops (frame_bytes (frame_header n)) (fsk_output f) = (Inr FRAME_SIZE, s')"
      "inv s'" "content s' = content (fsk_output f) @ frame_bytes (frame_header n)"
    using write_ok [of "fsk_output f" "frame_bytes (frame_header n)"] f by auto
  then show "\<exists>s'. snk_openFrame (BasicFramingSink_ops ops) n f = (Inr True, s') \<and>
      (inv (fsk_output s') \<and> fsk_bytesWritten s' \<le> fsk_frameSize s') \<and>
      content (fsk_output s') = content (fsk_output f) @ frame_bytes (frame_header n) \<and>
      fsk_frameSize s' - fsk_bytesWritten s' = n"
    using n by (simp add: BasicFramingSink_ops_def BasicFramingSink_openFrame_def FRAME_SIZE_def)
next
  fix f :: "'s framing_sink" and d :: "byte list"
  assume f: "inv (fsk_output f) \<and> fsk_bytesWritten f \<le> fsk_frameSize f"
    and d: "length d \<le> fsk_frameSize f - fsk_bytesWritten f"
  obtain s' where "snk_write ops d (fsk_output f) = (Inr (length d), s')" "inv s'"
      "content s' = content (fsk_output f) @ d"
    using write_ok [of "fsk_output f" d] f by auto
  moreover have "fsk_bytesWritten f + length d \<le> fsk_frameSize f" using f d by linarith
  ultimately show "\<exists>s'. snk_write (BasicFramingSink_ops ops) d f = (Inr (length d), s') \<and>
      (inv (fsk_output s') \<and> fsk_bytesWritten s' \<le> fsk_frameSize s') \<and>
      content (fsk_output s') = content (fsk_output f) @ d \<and>
      fsk_frameSize s' - fsk_bytesWritten s' = fsk_frameSize f - fsk_bytesWritten f - length d"
    using f d by (simp add: BasicFramingSink_ops_def BasicFramingSink_write_def BasicFramingSink_remaining_def)
next
  fix f :: "'s framing_sink"
  assume f: "inv (fsk_output f) \<and> fsk_bytesWritten f \<le> fsk_frameSize f"
    and "fsk_frameSize f - fsk_bytesWritten f = 0"
  then show "\<exists>s'. snk_closeFrame (BasicFramingSink_ops ops) f = (Inr True, s') \<and>
      (inv (fsk_output s') \<and> fsk_bytesWritten s' \<le> fsk_frameSize s') \<and>
      content (fsk_output s') = content (fsk_output f)"
    by (simp add: BasicFramingSink_ops_def BasicFramingSink_closeFrame_def BasicFramingSink_remaining_def)
qed

subsection \<open>Contract of a framed source\<close>

text \<open>
  \<open>pending s\<close> is what the input will still deliver and \<open>left s\<close> what the current frame still
  holds.
\<close>

locale frame_source =
  fixes ops :: "('s, 'z) framed_source_scheme"
    and inv :: "'s \<Rightarrow> bool"
    and pending :: "'s \<Rightarrow> byte list"
    and left :: "'s \<Rightarrow> nat"
  assumes next_ok: "inv s \<Longrightarrow> n < 2 ^ 32 \<Longrightarrow> pending s = frame_bytes (frame_header n) @ rest \<Longrightarrow>
      \<exists>s'. src_nextFrame ops s = (Inr n, s') \<and> inv s' \<and> pending s' = rest \<and> left s' = n"
    and fread_ok: "inv s \<Longrightarrow> n \<le> left s \<Longrightarrow> n \<le> length (pending s) \<Longrightarrow>
      \<exists>s'. src_read ops n s = (Inr (take n (pending s)), s') \<and> inv s' \<and>
           pending s' = drop n (pending s) \<and> left s' = left s - n"
    and end_ok: "inv s \<Longrightarrow>
      \<exists>s'. src_endFrame ops s = (Inr (), s') \<and> inv s' \<and> pending s' = pending s"

definition bsr_mem_inv :: "'s buffered_source \<Rightarrow> bool" where
  "bsr_mem_inv q \<longleftrightarrow> (\<forall>b. bsr_buffer q = Some b \<longrightarrow> Buffer_inv b)"

text \<open>What the frame held in memory still has to deliver.\<close>

definition bsr_pending :: "'s buffered_source \<Rightarrow> byte list" where
  "bsr_pending q = (case bsr_buffer q of None \<Rightarrow> [] | Some b \<Rightarrow> Buffer_pending b)"

interpretation bufsrc: skip_source "BufferedSource_ops alloc ops"
  "\<lambda>q. bsr_mem_inv q \<and> bsr_buffer q \<noteq> None \<and> bsr_input q = inp" bsr_pending
  for alloc :: "nat \<Rightarrow> byte list option" and ops :: "('s, 'z) framed_source_scheme" and inp :: 's
proof
  fix q :: "'s buffered_source" and n :: nat
  assume q: "bsr_mem_inv q \<and> bsr_buffer q \<noteq> None \<and> bsr_input q = inp" and n: "n \<le> length (bsr_pending q)"
  then obtain b where b: "bsr_buffer q = Some b" "Buffer_inv b" by (auto simp: bsr_mem_inv_def)
  obtain d b' where r: "Buffer_read n b = (d, b')" by force
  note spec = Buffer_read_spec [OF b(2) r]
  have le: "n \<le> Buffer_remaining b" using n b by (simp add: bsr_pending_def)
  have d: "length d = n" using spec(1) le b(2) by simp
  show "\<exists>q'. src_read (BufferedSource_ops alloc ops) n q = (Inr (take n (bsr_pending q)), q') \<and>
      (bsr_mem_inv q' \<and> bsr_buffer q' \<noteq> None \<and> bsr_input q' = inp) \<and> bsr_pending q' = drop n (bsr_pending q) \<and>
      src_bytesRead (BufferedSource_ops alloc ops) q' = src_bytesRead (BufferedSource_ops alloc ops) q + n"
    using b r spec le d q
    by (simp add: BufferedSource_ops_def BufferedSource_read_def bsr_pending_def bsr_mem_inv_def
        BufferedSource_bytesRead_def buffer_defs)
  obtain k where k: "Buffer_skip n b = (k, b')"
    using r Buffer_skip_eq_read [of n b] by (cases "Buffer_skip n b") simp
  show "\<exists>q'. src_skip (BufferedSource_ops alloc ops) n q = (Inr n, q') \<and>
      (bsr_mem_inv q' \<and> bsr_buffer q' \<noteq> None \<and> bsr_input q' = inp) \<and> bsr_pending q' = drop n (bsr_pending q) \<and>
      src_bytesRead (BufferedSource_ops alloc ops) q' = src_bytesRead (BufferedSource_ops alloc ops) q + n"
    using b k spec le d q
    by (simp add: BufferedSource_ops_def BufferedSource_skip_def bsr_pending_def bsr_mem_inv_def
        BufferedSource_bytesRead_def buffer_defs)
qed

text \<open>A block ready to be filled: of the size asked for, from its beginning.\<close>

lemma prepForFill_ok:
  assumes al: "alloc_ok alloc"
  shows "\<exists>b. BufferedSource_prepForFill alloc n q = (Inr 0, q\<lparr>bsr_buffer := Some b\<rparr>) \<and>
    buf_start b = 0 \<and> buf_end b = n \<and> n \<le> length (buf_data b)"
proof -
  have fill: "n \<le> Buffer_capacity b \<Longrightarrow>
      Buffer_assign n (Buffer_reset b) = (0, n, b\<lparr>buf_start := 0, buf_end := n\<rparr>)" for b
    by (simp add: Buffer_assign_def buffer_defs Let_def)
  obtain mem where mem: "alloc n = Some mem" "length mem = n" using al by (auto simp: alloc_ok_def)
  show ?thesis
  proof (cases "case bsr_buffer q of None \<Rightarrow> True | Some b \<Rightarrow> n > Buffer_capacity b")
    case True
    then have "BufferedSource_prepForFill alloc n q =
        (Inr 0, q\<lparr>bsr_buffer := Some ((Buffer_new mem)\<lparr>buf_start := 0, buf_end := n\<rparr>)\<rparr>)"
      using mem fill [of "Buffer_new mem"]
      by (auto simp: BufferedSource_prepForFill_def Let_def buffer_defs split: option.splits)
    then show ?thesis using mem by (auto simp: Buffer_new_def)
  next
    case False
    then obtain b where b: "bsr_buffer q = Some b" "n \<le> Buffer_capacity b"
      by (auto split: option.splits)
    then show ?thesis
      using fill [of b] by (auto simp: BufferedSource_prepForFill_def Let_def buffer_defs)
  qed
qed

context frame_source
begin

theorem nextFrame_ok:
  assumes al: "alloc_ok alloc" and inv: "inv (bsr_input q)"
    and size: "0 < length d" "length d < 2 ^ 32"
    and inp: "pending (bsr_input q) = frame_bytes (frame_header (length d)) @ d @ rest"
  shows "\<exists>q'. BufferedSource_nextFrame alloc ops q = (Inr (length d), q') \<and> inv (bsr_input q') \<and>
    pending (bsr_input q') = rest \<and> bsr_mem_inv q' \<and> bsr_pending q' = d \<and>
    bsr_buffer q' \<noteq> None \<and> BufferedSource_bytesRead q' = 0"
proof -
  let ?n = "length d"
  obtain s1 where s1: "src_nextFrame ops (bsr_input q) = (Inr ?n, s1)" "inv s1"
      "pending s1 = d @ rest" "left s1 = ?n"
    using next_ok [OF inv size(2) inp] by auto
  obtain b where b: "BufferedSource_prepForFill alloc ?n (q\<lparr>bsr_input := s1\<rparr>) =
        (Inr 0, q\<lparr>bsr_input := s1, bsr_buffer := Some b\<rparr>)"
      "buf_start b = 0" "buf_end b = ?n" "?n \<le> length (buf_data b)"
    using prepForFill_ok [OF al, of ?n "q\<lparr>bsr_input := s1\<rparr>"] by auto
  obtain s2 where s2: "src_read ops ?n s1 = (Inr d, s2)" "inv s2" "pending s2 = rest"
    using fread_ok [OF s1(2), of ?n] s1 by auto
  obtain s3 where s3: "src_endFrame ops s2 = (Inr (), s3)" "inv s3" "pending s3 = rest"
    using end_ok [OF s2(2)] s2(3) by auto
  let ?b = "b\<lparr>buf_data := poke (buf_data b) 0 d\<rparr>"
  let ?q = "q\<lparr>bsr_input := s3, bsr_buffer := Some ?b, bsr_isInFrame := True\<rparr>"
  have run: "BufferedSource_nextFrame alloc ops q = (Inr ?n, ?q)"
    using s1 b(1) s2 s3 size(1)
    by (simp add: BufferedSource_nextFrame_def bsr_in_def bsr_fill_def)
  have "take ?n (poke (buf_data b) 0 d) = d" by (simp add: poke_def)
  then have "Buffer_pending ?b = d" and "Buffer_inv ?b"
    using b by (simp_all add: Buffer_pending_def buffer_defs Buffer_inv_def)
  then show ?thesis
    using run s3 b by (simp add: bsr_mem_inv_def bsr_pending_def BufferedSource_bytesRead_def buffer_defs)
qed

end

lemma unat_frame_header [simp]: "n < 2 ^ 32 \<Longrightarrow> unat (fr_length (frame_header n)) = n"
  by (simp add: frame_header_def unat_of_nat)

text \<open>The basic framing source provides the contract over any byte source.\<close>

sublocale byte_source \<subseteq> framing: frame_source "BasicFramingSource_ops ops"
  "\<lambda>f. inv (fsr_input f) \<and> fsr_bytesRead f \<le> fsr_frameSize f"
  "\<lambda>f. pending (fsr_input f)" "\<lambda>f. fsr_frameSize f - fsr_bytesRead f"
proof
  fix f :: "'s framing_source" and n :: nat and rest
  assume f: "inv (fsr_input f) \<and> fsr_bytesRead f \<le> fsr_frameSize f" and n: "n < 2 ^ 32"
    and p: "pending (fsr_input f) = frame_bytes (frame_header n) @ rest"
  obtain s' where "src_read ops FRAME_SIZE (fsr_input f) = (Inr (frame_bytes (frame_header n)), s')"
      "inv s'" "pending s' = rest"
    using read_prefix [of "fsr_input f" "frame_bytes (frame_header n)" rest] f p by auto
  then show "\<exists>s'. src_nextFrame (BasicFramingSource_ops ops) f = (Inr n, s') \<and>
      (inv (fsr_input s') \<and> fsr_bytesRead s' \<le> fsr_frameSize s') \<and>
      pending (fsr_input s') = rest \<and> fsr_frameSize s' - fsr_bytesRead s' = n"
    using n by (simp add: BasicFramingSource_ops_def BasicFramingSource_nextFrame_def Let_def FRAME_SIZE_def)
next
  fix f :: "'s framing_source" and n :: nat
  assume f: "inv (fsr_input f) \<and> fsr_bytesRead f \<le> fsr_frameSize f"
    and n: "n \<le> fsr_frameSize f - fsr_bytesRead f" "n \<le> length (pending (fsr_input f))"
  obtain s' where "src_read ops n (fsr_input f) = (Inr (take n (pending (fsr_input f))), s')" "inv s'"
      "pending s' = drop n (pending (fsr_input f))"
    using read_ok [of "fsr_input f" n] f n by auto
  moreover have "fsr_bytesRead f + n \<le> fsr_frameSize f" using f n by linarith
  ultimately show "\<exists>s'. src_read (BasicFramingSource_ops ops) n f = (Inr (take n (pending (fsr_input f))), s') \<and>
      (inv (fsr_input s') \<and> fsr_bytesRead s' \<le> fsr_frameSize s') \<and>
      pending (fsr_input s') = drop n (pending (fsr_input f)) \<and>
      fsr_frameSize s' - fsr_bytesRead s' = fsr_frameSize f - fsr_bytesRead f - n"
    using f n by (simp add: BasicFramingSource_ops_def BasicFramingSource_read_def BasicFramingSource_remaining_def)
next
  fix f :: "'s framing_source"
  assume "inv (fsr_input f) \<and> fsr_bytesRead f \<le> fsr_frameSize f"
  then show "\<exists>s'. src_endFrame (BasicFramingSource_ops ops) f = (Inr (), s') \<and>
      (inv (fsr_input s') \<and> fsr_bytesRead s' \<le> fsr_frameSize s') \<and>
      pending (fsr_input s') = pending (fsr_input f)"
    by (simp add: BasicFramingSource_ops_def BasicFramingSource_endFrame_def)
qed

end
