(* ===== verification/Api_Types.thy ===== *)
theory Api_Types
  imports Arras_Prelude "HOL-Library.Signed_Division"
begin

text \<open>
  The value types of \<^verbatim>\<open>arras4_message_api/lib/message_api\<close>: \<open>UUID\<close>, \<open>Address\<close> and
  \<open>ArrasTime\<close>, with the memory images the streams copy. Text conversions of the C library
  (\<^verbatim>\<open>uuid_parse\<close>, \<^verbatim>\<open>uuid_unparse_lower\<close>) are parameters.
\<close>

subsection \<open>UUID\<close>

text \<open>
  The 16 bytes of a UUID are the digits of a 128-bit number, most significant first, so that
  \<open><\<close> on numbers is the lexicographic order of \<^verbatim>\<open>std::array\<close>.
\<close>

type_synonym uuid = "128 word"

definition uuid_bytes :: "uuid \<Rightarrow> byte list" where
  "uuid_bytes u = rev (word_bytes u)"

definition bytes_uuid :: "byte list \<Rightarrow> uuid" where
  "bytes_uuid bs = bytes_word (rev bs)"

definition UUID_null :: uuid where
  "UUID_null = 0"

definition UUID_valid :: "uuid \<Rightarrow> bool" where
  "UUID_valid u \<longleftrightarrow> u \<noteq> UUID_null"

definition UUID_isNull :: "uuid \<Rightarrow> bool" where
  "UUID_isNull u \<longleftrightarrow> \<not> UUID_valid u"

text \<open>libuuid: the parser gives no value for a malformed text.\<close>

record uuid_api =
  uuid_parse :: "string \<Rightarrow> uuid option"
  uuid_unparse_lower :: "uuid \<Rightarrow> string"

definition UUID_parse :: "('z) uuid_api_scheme \<Rightarrow> string \<Rightarrow> uuid" where
  "UUID_parse api s = (case uuid_parse api s of None \<Rightarrow> UUID_null | Some u \<Rightarrow> u)"

definition UUID_toString :: "('z) uuid_api_scheme \<Rightarrow> uuid \<Rightarrow> string" where
  "UUID_toString api u = uuid_unparse_lower api u"

definition uuid_api_ok :: "('z) uuid_api_scheme \<Rightarrow> bool" where
  "uuid_api_ok api \<longleftrightarrow> (\<forall>u. uuid_parse api (uuid_unparse_lower api u) = Some u)"

subsection \<open>Address\<close>

record address =
  ad_session :: uuid
  ad_node :: uuid
  ad_computation :: uuid

definition Address_null :: address where
  "Address_null = \<lparr>ad_session = UUID_null, ad_node = UUID_null, ad_computation = UUID_null\<rparr>"

definition Address_isNull :: "address \<Rightarrow> bool" where
  "Address_isNull a \<longleftrightarrow> UUID_isNull (ad_session a) \<and> UUID_isNull (ad_node a) \<and> UUID_isNull (ad_computation a)"

definition address_bytes :: "address \<Rightarrow> byte list" where
  "address_bytes a = uuid_bytes (ad_session a) @ uuid_bytes (ad_node a) @ uuid_bytes (ad_computation a)"

definition bytes_address :: "byte list \<Rightarrow> address" where
  "bytes_address bs = \<lparr>ad_session = bytes_uuid (take 16 bs), ad_node = bytes_uuid (take 16 (drop 16 bs)),
     ad_computation = bytes_uuid (drop 32 bs)\<rparr>"

subsection \<open>ArrasTime\<close>

text \<open>Two C \<open>int\<close>s; arithmetic is done in \<open>long\<close>, where no operation below can overflow.\<close>

record arras_time =
  at_seconds :: "32 word"
  at_microseconds :: "32 word"

definition MILLION :: int where
  "MILLION = 1000000"

definition ArrasTime_zero :: arras_time where
  "ArrasTime_zero = \<lparr>at_seconds = 0, at_microseconds = 0\<rparr>"

definition ArrasTime_toMicroseconds :: "arras_time \<Rightarrow> int" where
  "ArrasTime_toMicroseconds t = sint (at_seconds t) * MILLION + sint (at_microseconds t)"

definition ArrasTime_fromMicroseconds :: "int \<Rightarrow> arras_time" where
  "ArrasTime_fromMicroseconds ms =
     \<lparr>at_seconds = word_of_int (ms sdiv MILLION), at_microseconds = word_of_int (ms smod MILLION)\<rparr>"

definition ArrasTime_normalize :: "arras_time \<Rightarrow> arras_time" where
  "ArrasTime_normalize t = ArrasTime_fromMicroseconds (ArrasTime_toMicroseconds t)"

definition ArrasTime_new :: "32 word \<Rightarrow> 32 word \<Rightarrow> arras_time" where
  "ArrasTime_new s us = ArrasTime_normalize \<lparr>at_seconds = s, at_microseconds = us\<rparr>"

definition ArrasTime_add :: "arras_time \<Rightarrow> arras_time \<Rightarrow> arras_time" where
  "ArrasTime_add a b = ArrasTime_fromMicroseconds (ArrasTime_toMicroseconds a + ArrasTime_toMicroseconds b)"

definition ArrasTime_sub :: "arras_time \<Rightarrow> arras_time \<Rightarrow> arras_time" where
  "ArrasTime_sub a b = ArrasTime_fromMicroseconds (ArrasTime_toMicroseconds a - ArrasTime_toMicroseconds b)"

definition ArrasTime_less :: "arras_time \<Rightarrow> arras_time \<Rightarrow> bool" where
  "ArrasTime_less a b \<longleftrightarrow> ArrasTime_toMicroseconds a < ArrasTime_toMicroseconds b"

definition ArrasTime_isZero :: "arras_time \<Rightarrow> bool" where
  "ArrasTime_isZero t \<longleftrightarrow> at_seconds t = 0 \<and> at_microseconds t = 0"

text \<open>
  \<open>intervalStr\<close>: \<open>setw\<close> pads with blanks on the left; \<open>abs\<close> of the most negative \<open>int\<close> is
  undefined.
\<close>

definition setw :: "nat \<Rightarrow> string \<Rightarrow> string" where
  "setw n s = replicate (n - length s) (CHR '' '') @ s"

definition ArrasTime_intervalStr :: "arras_time \<Rightarrow> exn + string" where
  "ArrasTime_intervalStr t =
     (if sint (at_seconds t) = - (2 ^ 31) \<or> sint (at_microseconds t) = - (2 ^ 31)
      then Inl (Undefined ''abs overflow'')
      else let sec = nat \<bar>sint (at_seconds t)\<bar>; mins = sec div 60;
               ms = nat \<bar>sint (at_microseconds t)\<bar> div 1000
           in Inr ((if sint (at_seconds t) < 0 then ''-'' else []) @
                show_nat (mins div 60) @ '':'' @ setw 2 (show_nat (mins mod 60)) @ '':'' @
                setw 2 (show_nat (sec mod 60)) @ '','' @ setw 3 (show_nat ms)))"

definition time_bytes :: "arras_time \<Rightarrow> byte list" where
  "time_bytes t = word_bytes (at_seconds t) @ word_bytes (at_microseconds t)"

definition bytes_time :: "byte list \<Rightarrow> arras_time" where
  "bytes_time bs = \<lparr>at_seconds = bytes_word (take 4 bs), at_microseconds = bytes_word (drop 4 bs)\<rparr>"

subsection \<open>Images\<close>

lemma length_uuid_bytes [simp]: "length (uuid_bytes u) = 16"
  by (simp add: uuid_bytes_def)

lemma bytes_uuid_uuid_bytes [simp]: "bytes_uuid (uuid_bytes u) = u"
  by (simp add: uuid_bytes_def bytes_uuid_def)

lemma length_address_bytes [simp]: "length (address_bytes a) = 48"
  by (simp add: address_bytes_def)

lemma bytes_address_address_bytes [simp]: "bytes_address (address_bytes a) = a"
  by (simp add: address_bytes_def bytes_address_def)

lemma length_time_bytes [simp]: "length (time_bytes t) = 8"
  by (simp add: time_bytes_def)

lemma bytes_time_time_bytes [simp]: "bytes_time (time_bytes t) = t"
  by (simp add: time_bytes_def bytes_time_def)

subsection \<open>Time arithmetic\<close>

lemma sint_32_bounds: "- 2147483648 \<le> sint (w :: 32 word)" "sint (w :: 32 word) \<le> 2147483647"
  using sint_greater_eq [of w] sint_less [of w] by simp_all

lemma sint_32_of_int: "- 2147483648 \<le> i \<Longrightarrow> i \<le> 2147483647 \<Longrightarrow> sint (word_of_int i :: 32 word) = i"
  using signed_take_bit_int_eq_self [of 31 i] by (simp add: sint_sbintrunc')

lemma smod_million_bounds: "- MILLION < a smod MILLION" "a smod MILLION < MILLION"
  by (auto simp: signed_modulo_int_def signed_divide_int_def MILLION_def sgn_if minus_mult_div_eq_mod abs_if)

lemma sdiv_million_sign: "0 \<le> a \<Longrightarrow> 0 \<le> a sdiv MILLION \<and> 0 \<le> a smod MILLION"
  "a \<le> 0 \<Longrightarrow> a sdiv MILLION \<le> 0 \<and> a smod MILLION \<le> 0"
  by (auto simp: signed_modulo_int_def signed_divide_int_def MILLION_def sgn_if abs_if minus_mult_div_eq_mod
      pos_imp_zdiv_nonneg_iff zdiv_zminus1_eq_if)

text \<open>The intervals an \<open>ArrasTime\<close> can hold.\<close>

definition time_range :: "int \<Rightarrow> bool" where
  "time_range us \<longleftrightarrow> - 2147483648 * MILLION - MILLION < us \<and> us < 2147483648 * MILLION"

definition time_normal :: "arras_time \<Rightarrow> bool" where
  "time_normal t \<longleftrightarrow> \<bar>sint (at_microseconds t)\<bar> < MILLION \<and>
     (0 < sint (at_seconds t) \<longrightarrow> 0 \<le> sint (at_microseconds t)) \<and>
     (sint (at_seconds t) < 0 \<longrightarrow> sint (at_microseconds t) \<le> 0)"

lemma fromMicroseconds_fields:
  assumes "time_range us"
  shows "sint (at_seconds (ArrasTime_fromMicroseconds us)) = us sdiv MILLION"
    and "sint (at_microseconds (ArrasTime_fromMicroseconds us)) = us smod MILLION"
proof -
  have "us sdiv MILLION * MILLION + us smod MILLION = us" by (rule sdiv_mult_smod_eq)
  then have "- 2147483648 \<le> us sdiv MILLION" "us sdiv MILLION \<le> 2147483647"
    using assms smod_million_bounds [of us] sdiv_million_sign [of us]
    unfolding time_range_def MILLION_def by (cases "0 \<le> us"; linarith)+
  then show "sint (at_seconds (ArrasTime_fromMicroseconds us)) = us sdiv MILLION"
    by (simp add: ArrasTime_fromMicroseconds_def sint_32_of_int)
  show "sint (at_microseconds (ArrasTime_fromMicroseconds us)) = us smod MILLION"
    using smod_million_bounds [of us]
    by (simp add: ArrasTime_fromMicroseconds_def sint_32_of_int MILLION_def)
qed

lemma toMicroseconds_fromMicroseconds:
  "time_range us \<Longrightarrow> ArrasTime_toMicroseconds (ArrasTime_fromMicroseconds us) = us"
  by (simp add: ArrasTime_toMicroseconds_def fromMicroseconds_fields sdiv_mult_smod_eq)

lemma fromMicroseconds_normal: "time_range us \<Longrightarrow> time_normal (ArrasTime_fromMicroseconds us)"
  using smod_million_bounds [of us] sdiv_million_sign [of us]
  by (cases "0 \<le> us") (auto simp: time_normal_def fromMicroseconds_fields abs_less_iff)

lemma fromMicroseconds_toMicroseconds:
  assumes "time_normal t"
  shows "ArrasTime_fromMicroseconds (ArrasTime_toMicroseconds t) = t"
proof -
  let ?s = "sint (at_seconds t)" and ?u = "sint (at_microseconds t)"
  let ?a = "?s * MILLION + ?u"
  have id: "?a sdiv MILLION * MILLION + ?a smod MILLION = ?a" by (rule sdiv_mult_smod_eq)
  have div: "?a sdiv MILLION = ?s"
  proof (cases "0 \<le> ?a")
    case True
    then have "0 \<le> ?u" using assms by (auto simp: time_normal_def MILLION_def)
    with True show ?thesis
      using id sdiv_million_sign(1) [of ?a] smod_million_bounds [of ?a] assms
      unfolding time_normal_def MILLION_def by linarith
  next
    case False
    then have "?u \<le> 0" using assms by (auto simp: time_normal_def MILLION_def)
    with False show ?thesis
      using id sdiv_million_sign(2) [of ?a] smod_million_bounds [of ?a] assms
      unfolding time_normal_def MILLION_def by linarith
  qed
  have "(?s * MILLION + ?u) smod MILLION = ?u"
    using sdiv_mult_smod_eq [of "?s * MILLION + ?u" MILLION] div by simp
  with div show ?thesis
    by (simp add: ArrasTime_fromMicroseconds_def ArrasTime_toMicroseconds_def)
qed

subsection \<open>UUIDs as text\<close>

text \<open>
  The stream operator prints the 16 bytes in hexadecimal, in groups of 4, 2, 2, 2 and 6. A parser of
  that text, as libuuid has one, shows that the law \<open>uuid_api_ok\<close> can hold.
\<close>

definition hex_digit :: "nat \<Rightarrow> char" where
  "hex_digit n = ''0123456789abcdef'' ! n"

definition hex_byte :: "byte \<Rightarrow> string" where
  "hex_byte b = [hex_digit (unat b div 16), hex_digit (unat b mod 16)]"

definition UUID_stream :: "uuid \<Rightarrow> string" where
  "UUID_stream u = (let bs = map hex_byte (uuid_bytes u) in
     concat (take 4 bs) @ ''-'' @ concat (take 2 (drop 4 bs)) @ ''-'' @ concat (take 2 (drop 6 bs)) @ ''-'' @
     concat (take 2 (drop 8 bs)) @ ''-'' @ concat (drop 10 bs))"

definition hex_value :: "char \<Rightarrow> nat option" where
  "hex_value c = (let n = of_char c :: nat in
     if 48 \<le> n \<and> n \<le> 57 then Some (n - 48)
     else if 97 \<le> n \<and> n \<le> 102 then Some (n - 87)
     else if 65 \<le> n \<and> n \<le> 70 then Some (n - 55) else None)"

fun hex_bytes :: "string \<Rightarrow> byte list option" where
  "hex_bytes [] = Some []"
| "hex_bytes (c # d # s) =
     (case (hex_value c, hex_value d, hex_bytes s) of
        (Some h, Some l, Some bs) \<Rightarrow> Some (word_of_nat (16 * h + l) # bs)
      | _ \<Rightarrow> None)"
| "hex_bytes _ = None"

definition hex_parse :: "string \<Rightarrow> uuid option" where
  "hex_parse s = (case hex_bytes (filter (\<lambda>c. c \<noteq> CHR ''-'') s) of
     Some bs \<Rightarrow> (if length bs = 16 then Some (bytes_uuid bs) else None) | None \<Rightarrow> None)"

definition hex_uuid_api :: uuid_api where
  "hex_uuid_api = \<lparr>uuid_parse = hex_parse, uuid_unparse_lower = UUID_stream\<rparr>"

lemma hex_digit_value:
  assumes "n < 16"
  shows "hex_value (hex_digit n) = Some n" and "hex_digit n \<noteq> CHR ''-''"
proof -
  have "n \<in> {0, 1, 2, 3, 4, 5, 6, 7, 8, 9, 10, 11, 12, 13, 14, 15}" using assms by (simp; arith)
  then show "hex_value (hex_digit n) = Some n" "hex_digit n \<noteq> CHR ''-''"
    by (auto simp: hex_digit_def hex_value_def)
qed

lemma byte_halves: "unat (b :: byte) div 16 < 16" "unat (b :: byte) mod 16 < 16"
  using byte_unat_less [of b] by auto

lemma hex_bytes_hex_byte: "hex_bytes (concat (map hex_byte bs)) = Some bs"
proof (induction bs)
  case (Cons b bs)
  have "16 * (unat b div 16) + unat b mod 16 = unat b" by simp
  then have "(word_of_nat (16 * (unat b div 16) + unat b mod 16) :: byte) = b" by simp
  moreover have "hex_bytes (concat (map hex_byte (b # bs))) =
      hex_bytes (hex_digit (unat b div 16) # hex_digit (unat b mod 16) # concat (map hex_byte bs))"
    by (simp add: hex_byte_def)
  ultimately show ?case using Cons.IH by (simp add: hex_digit_value byte_halves)
qed simp

lemma filter_hex_byte: "filter (\<lambda>c. c \<noteq> CHR ''-'') (concat (map hex_byte bs)) = concat (map hex_byte bs)"
  by (induction bs) (simp_all add: hex_byte_def hex_digit_value byte_halves)

lemma take_split3: "take a xs @ take b (drop a xs) @ drop (a + b) xs = xs"
  by (metis append_take_drop_id drop_drop add.commute)

lemma uuid_api_ok_hex: "uuid_api_ok hex_uuid_api"
proof -
  have "filter (\<lambda>c. c \<noteq> CHR ''-'') (UUID_stream u) = concat (map hex_byte (uuid_bytes u))" for u
  proof -
    let ?bs = "uuid_bytes u"
    have "filter (\<lambda>c. c \<noteq> CHR ''-'') (UUID_stream u) = concat (map hex_byte
        (take 4 ?bs @ take 2 (drop 4 ?bs) @ take 2 (drop 6 ?bs) @ take 2 (drop 8 ?bs) @ drop 10 ?bs))"
      by (simp only: UUID_stream_def Let_def take_map drop_map filter_append filter_hex_byte map_append concat_append)
        simp
    moreover have "take 4 ?bs @ take 2 (drop 4 ?bs) @ take 2 (drop 6 ?bs) @ take 2 (drop 8 ?bs) @ drop 10 ?bs = ?bs"
      using take_split3 [of 4 ?bs 2] take_split3 [of 2 "drop 4 ?bs" 2] take_split3 [of 2 "drop 6 ?bs" 2]
        append_take_drop_id [of 2 "drop 8 ?bs"] append_take_drop_id [of 4 ?bs]
      by simp
    ultimately show ?thesis by simp
  qed
  then show ?thesis
    by (simp add: uuid_api_ok_def hex_uuid_api_def hex_parse_def hex_bytes_hex_byte)
qed

end
