(* ===== verification/Streams.thy ===== *)
theory Streams
  imports Framing Api_Types
begin

text \<open>
  The stream interfaces \<open>DataInStream\<close> and \<open>DataOutStream\<close> of \<^verbatim>\<open>arras4_message_api\<close> and
  their implementation \<^verbatim>\<open>message_impl/StreamImpl.cc\<close>.

  Code that is handed a stream (the metadata, the envelope, the content of a message) is a
  \<^emph>\<open>program\<close> over the interface: what it reads next may depend on what it has read. The
  implementation runs such a program on a data source or sink. \<open>in_eval\<close> and \<open>out_eval\<close> say
  what a program does on an ideal source or sink, and the locales lift this to every object
  that keeps the contracts, so that codecs are proved on byte lists alone.

  Typed operations return the value; the byte counts they also return in C++, which
  \<^verbatim>\<open>operator>>\<close> discards, are not kept. A typed value of which fewer bytes than its size
  arrive is partly uninitialised, which is the outcome \<open>Undefined\<close>.
\<close>

subsection \<open>Programs over the interfaces\<close>

datatype 'a in_prog =
    InRet 'a
  | InThrow exn
  | InRead nat "byte list \<Rightarrow> 'a in_prog"
  | InSkip nat "nat \<Rightarrow> 'a in_prog"
  | InBytesRead "nat \<Rightarrow> 'a in_prog"

datatype 'a out_prog =
    OutRet 'a
  | OutThrow exn
  | OutWrite "byte list" "nat \<Rightarrow> 'a out_prog"
  | OutFlush "'a out_prog"
  | OutBytesWritten "nat \<Rightarrow> 'a out_prog"

primrec in_bind :: "'a in_prog \<Rightarrow> ('a \<Rightarrow> 'b in_prog) \<Rightarrow> 'b in_prog" where
  "in_bind (InRet a) g = g a"
| "in_bind (InThrow e) g = InThrow e"
| "in_bind (InRead n f) g = InRead n (\<lambda>d. in_bind (f d) g)"
| "in_bind (InSkip n f) g = InSkip n (\<lambda>k. in_bind (f k) g)"
| "in_bind (InBytesRead f) g = InBytesRead (\<lambda>k. in_bind (f k) g)"

primrec out_bind :: "'a out_prog \<Rightarrow> ('a \<Rightarrow> 'b out_prog) \<Rightarrow> 'b out_prog" where
  "out_bind (OutRet a) g = g a"
| "out_bind (OutThrow e) g = OutThrow e"
| "out_bind (OutWrite d f) g = OutWrite d (\<lambda>n. out_bind (f n) g)"
| "out_bind (OutFlush p) g = OutFlush (out_bind p g)"
| "out_bind (OutBytesWritten f) g = OutBytesWritten (\<lambda>n. out_bind (f n) g)"

definition out_then :: "'a out_prog \<Rightarrow> 'b out_prog \<Rightarrow> 'b out_prog" where
  "out_then p q = out_bind p (\<lambda>_. q)"

subsection \<open>InStreamImpl and OutStreamImpl\<close>

primrec InStreamImpl_run :: "('s, 'z) data_source_scheme \<Rightarrow> 'a in_prog \<Rightarrow> ('s, 'a) proc" where
  "InStreamImpl_run ops (InRet a) = ret a"
| "InStreamImpl_run ops (InThrow e) = raise e"
| "InStreamImpl_run ops (InRead n f) = bindp (src_read ops n) (\<lambda>d. InStreamImpl_run ops (f d))"
| "InStreamImpl_run ops (InSkip n f) = bindp (src_skip ops n) (\<lambda>k. InStreamImpl_run ops (f k))"
| "InStreamImpl_run ops (InBytesRead f) = bindp (gets (src_bytesRead ops)) (\<lambda>k. InStreamImpl_run ops (f k))"

primrec OutStreamImpl_run :: "('s, 'z) data_sink_scheme \<Rightarrow> 'a out_prog \<Rightarrow> ('s, 'a) proc" where
  "OutStreamImpl_run ops (OutRet a) = ret a"
| "OutStreamImpl_run ops (OutThrow e) = raise e"
| "OutStreamImpl_run ops (OutWrite d f) = bindp (snk_write ops d) (\<lambda>n. OutStreamImpl_run ops (f n))"
| "OutStreamImpl_run ops (OutFlush p) = seqp (snk_flush ops) (OutStreamImpl_run ops p)"
| "OutStreamImpl_run ops (OutBytesWritten f) =
     bindp (gets (snk_bytesWritten ops)) (\<lambda>n. OutStreamImpl_run ops (f n))"

subsection \<open>Typed reads and writes\<close>

definition in_value :: "nat \<Rightarrow> (byte list \<Rightarrow> exn + 'a) \<Rightarrow> 'a in_prog" where
  "in_value n dec = InRead n (\<lambda>d.
     if length d < n then InThrow (Undefined ''partly read value'')
     else case dec d of Inl e \<Rightarrow> InThrow e | Inr v \<Rightarrow> InRet v)"

definition in_u8 :: "byte in_prog" where "in_u8 = in_value 1 (Inr \<circ> bytes_word)"
definition in_u16 :: "u16 in_prog" where "in_u16 = in_value 2 (Inr \<circ> bytes_word)"
definition in_u32 :: "u32 in_prog" where "in_u32 = in_value 4 (Inr \<circ> bytes_word)"
definition in_u64 :: "u64 in_prog" where "in_u64 = in_value 8 (Inr \<circ> bytes_word)"
definition in_uuid :: "uuid in_prog" where "in_uuid = in_value 16 (Inr \<circ> bytes_uuid)"
definition in_time :: "arras_time in_prog" where "in_time = in_value 8 (Inr \<circ> bytes_time)"
definition in_address :: "address in_prog" where "in_address = in_value 48 (Inr \<circ> bytes_address)"

definition in_bool :: "bool in_prog" where
  "in_bool = in_value 1 (\<lambda>d. if d = [0] then Inr False else if d = [1] then Inr True
     else Inl (Undefined ''not a bool''))"

definition out_value :: "byte list \<Rightarrow> nat out_prog" where
  "out_value d = OutWrite d OutRet"

definition out_u8 :: "byte \<Rightarrow> nat out_prog" where "out_u8 v = out_value (word_bytes v)"
definition out_u16 :: "u16 \<Rightarrow> nat out_prog" where "out_u16 v = out_value (word_bytes v)"
definition out_u32 :: "u32 \<Rightarrow> nat out_prog" where "out_u32 v = out_value (word_bytes v)"
definition out_u64 :: "u64 \<Rightarrow> nat out_prog" where "out_u64 v = out_value (word_bytes v)"
definition out_uuid :: "uuid \<Rightarrow> nat out_prog" where "out_uuid v = out_value (uuid_bytes v)"
definition out_time :: "arras_time \<Rightarrow> nat out_prog" where "out_time v = out_value (time_bytes v)"
definition out_address :: "address \<Rightarrow> nat out_prog" where "out_address v = out_value (address_bytes v)"

definition out_bool :: "bool \<Rightarrow> nat out_prog" where
  "out_bool v = out_value [if v then 1 else 0]"

primrec out_fill :: "byte \<Rightarrow> nat \<Rightarrow> nat \<Rightarrow> nat out_prog" where
  "out_fill b filled 0 = OutRet filled"
| "out_fill b filled (Suc k) = out_bind (out_u8 b) (\<lambda>n. out_fill b (filled + n) k)"

definition OutStreamImpl_fill :: "byte \<Rightarrow> nat \<Rightarrow> nat out_prog" where
  "OutStreamImpl_fill b n = out_fill b 0 n"

text \<open>
  \<open>readString<LengthType>\<close> for a \<open>LengthType\<close> of \<open>k\<close> bytes, reading over the string \<open>val\<close>: a count
  that does not arrive keeps the old length, text that does not arrive is zero bytes. \<open>alloc\<close> is
  the memory the resized string needs.
\<close>

definition readString :: "(nat \<Rightarrow> byte list option) \<Rightarrow> nat \<Rightarrow> string \<Rightarrow> string in_prog" where
  "readString alloc k val = InRead k (\<lambda>d.
     let stLen = le_nat (d @ drop (length d) (le_bytes k (length val)))
     in if stLen > 0
        then (case alloc stLen of
                None \<Rightarrow> InThrow (StdException ''std::bad_alloc'')
              | Some _ \<Rightarrow> InRead stLen (\<lambda>t. InRet (bytes_string (t @ replicate (stLen - length t) 0))))
        else InRet [])"

definition writeString :: "nat \<Rightarrow> string \<Rightarrow> nat out_prog" where
  "writeString k val =
     (let len = length val mod 256 ^ k
      in out_bind (out_value (le_bytes k len))
           (\<lambda>n. out_bind (out_value (take len (string_bytes val))) (\<lambda>m. OutRet (n + m))))"

definition in_string :: "(nat \<Rightarrow> byte list option) \<Rightarrow> string \<Rightarrow> string in_prog" where
  "in_string alloc val = readString alloc 4 val"

definition in_long_string :: "(nat \<Rightarrow> byte list option) \<Rightarrow> string \<Rightarrow> string in_prog" where
  "in_long_string alloc val = readString alloc 8 val"

definition out_string :: "string \<Rightarrow> nat out_prog" where
  "out_string val = writeString 4 val"

definition out_long_string :: "string \<Rightarrow> nat out_prog" where
  "out_long_string val = writeString 8 val"

subsection \<open>Programs on ideal streams\<close>

text \<open>
  The outcome, the rest of the input and the count after it; \<open>None\<close> if the program asks for more
  than there is.
\<close>

primrec in_eval :: "'a in_prog \<Rightarrow> byte list \<Rightarrow> nat \<Rightarrow> ((exn + 'a) \<times> byte list \<times> nat) option" where
  "in_eval (InRet a) bs k = Some (Inr a, bs, k)"
| "in_eval (InThrow e) bs k = Some (Inl e, bs, k)"
| "in_eval (InRead n f) bs k = (if n \<le> length bs then in_eval (f (take n bs)) (drop n bs) (k + n) else None)"
| "in_eval (InSkip n f) bs k = (if n \<le> length bs then in_eval (f n) (drop n bs) (k + n) else None)"
| "in_eval (InBytesRead f) bs k = in_eval (f k) bs k"

text \<open>The outcome and the bytes written, from a sink that has accepted \<open>k\<close> bytes before.\<close>

primrec out_eval :: "'a out_prog \<Rightarrow> nat \<Rightarrow> (exn + 'a) \<times> byte list" where
  "out_eval (OutRet a) k = (Inr a, [])"
| "out_eval (OutThrow e) k = (Inl e, [])"
| "out_eval (OutWrite d f) k = (case out_eval (f (length d)) (k + length d) of (r, bs) \<Rightarrow> (r, d @ bs))"
| "out_eval (OutFlush p) k = out_eval p k"
| "out_eval (OutBytesWritten f) k = out_eval (f k) k"

lemma in_eval_bind [simp]:
  "in_eval (in_bind p g) bs k = (case in_eval p bs k of None \<Rightarrow> None
     | Some (Inl e, bs', k') \<Rightarrow> Some (Inl e, bs', k')
     | Some (Inr a, bs', k') \<Rightarrow> in_eval (g a) bs' k')"
  by (induction p arbitrary: bs k) simp_all

lemma out_eval_bind [simp]:
  "out_eval (out_bind p g) k =
     (case out_eval p k of (Inl e, bs) \<Rightarrow> (Inl e, bs)
      | (Inr a, bs) \<Rightarrow> (case out_eval (g a) (k + length bs) of (r, bs') \<Rightarrow> (r, bs @ bs')))"
  by (induction p arbitrary: k) (auto split: prod.splits sum.splits simp: add.assoc)

lemma out_eval_then [simp]:
  "out_eval (out_then p q) k =
     (case out_eval p k of (Inl e, bs) \<Rightarrow> (Inl e, bs)
      | (Inr a, bs) \<Rightarrow> (case out_eval q (k + length bs) of (r, bs') \<Rightarrow> (r, bs @ bs')))"
  by (simp add: out_then_def)

context skip_source
begin

text \<open>What a program reads from an ideal source it reads from any source that keeps the contract.\<close>

lemma run_in_eval:
  assumes "inv s" and "in_eval p (pending s) (src_bytesRead ops s) = Some (r, rest, k)"
  shows "\<exists>s'. InStreamImpl_run ops p s = (r, s') \<and> inv s' \<and> pending s' = rest \<and> src_bytesRead ops s' = k"
  using assms
proof (induction p arbitrary: s)
  case (InRead n f)
  then have n: "n \<le> length (pending s)" by (auto split: if_splits)
  obtain s1 where s1: "src_read ops n s = (Inr (take n (pending s)), s1)" "inv s1"
      "pending s1 = drop n (pending s)" "src_bytesRead ops s1 = src_bytesRead ops s + n"
    using read_ok [OF InRead.prems(1) n] by auto
  with InRead.IH [OF rangeI, of s1 "take n (pending s)"] InRead.prems n show ?case by simp
next
  case (InSkip n f)
  then have n: "n \<le> length (pending s)" by (auto split: if_splits)
  obtain s1 where s1: "src_skip ops n s = (Inr n, s1)" "inv s1"
      "pending s1 = drop n (pending s)" "src_bytesRead ops s1 = src_bytesRead ops s + n"
    using skip_ok [OF InSkip.prems(1) n] by auto
  with InSkip.IH [OF rangeI, of s1 n] InSkip.prems n show ?case by simp
next
  case (InBytesRead f)
  then show ?case by simp
qed simp_all

end

context counted_sink
begin

lemma run_out_eval:
  assumes "inv s" and "out_eval p (snk_bytesWritten ops s) = (r, d)"
  shows "\<exists>s'. OutStreamImpl_run ops p s = (r, s') \<and> inv s' \<and> content s' = content s @ d"
  using assms
proof (induction p arbitrary: s d)
  case (OutWrite b f)
  obtain s1 where s1: "snk_write ops b s = (Inr (length b), s1)" "inv s1" "content s1 = content s @ b"
    using write_ok [OF OutWrite.prems(1), of b] by auto
  have n: "snk_bytesWritten ops s1 = snk_bytesWritten ops s + length b"
    using write_count [OF OutWrite.prems(1) s1(1)] .
  from OutWrite.prems(2) n obtain d1 where d1: "out_eval (f (length b)) (snk_bytesWritten ops s1) = (r, d1)"
      "d = b @ d1"
    by (auto split: prod.splits)
  with OutWrite.IH [OF rangeI, of s1 "length b" d1] s1 show ?case by auto
next
  case (OutFlush p)
  obtain s1 where "snk_flush ops s = (Inr (), s1)" "inv s1" "content s1 = content s"
      "snk_bytesWritten ops s1 = snk_bytesWritten ops s"
    using flush_ok [OF OutFlush.prems(1)] by auto
  with OutFlush.IH [of s1 d] OutFlush.prems show ?case by auto
next
  case (OutBytesWritten f)
  then show ?case by simp
qed auto

end

subsection \<open>Codecs\<close>

lemma in_eval_value [simp]:
  "in_eval (in_value n dec) bs k =
     (if n \<le> length bs then Some (dec (take n bs), drop n bs, k + n) else None)"
  by (auto simp: in_value_def split: sum.splits)

text \<open>Reading a value back from its image.\<close>

lemma in_eval_u8 [simp]: "in_eval in_u8 (word_bytes v @ bs) k = Some (Inr v, bs, k + 1)"
  by (simp add: in_u8_def)

lemma in_eval_u16 [simp]: "in_eval in_u16 (word_bytes v @ bs) k = Some (Inr v, bs, k + 2)"
  by (simp add: in_u16_def)

lemma in_eval_u32 [simp]: "in_eval in_u32 (word_bytes v @ bs) k = Some (Inr v, bs, k + 4)"
  by (simp add: in_u32_def)

lemma in_eval_u64 [simp]: "in_eval in_u64 (word_bytes v @ bs) k = Some (Inr v, bs, k + 8)"
  by (simp add: in_u64_def)

lemma in_eval_uuid [simp]: "in_eval in_uuid (uuid_bytes v @ bs) k = Some (Inr v, bs, k + 16)"
  by (simp add: in_uuid_def)

lemma in_eval_time [simp]: "in_eval in_time (time_bytes v @ bs) k = Some (Inr v, bs, k + 8)"
  by (simp add: in_time_def)

lemma in_eval_address [simp]: "in_eval in_address (address_bytes v @ bs) k = Some (Inr v, bs, k + 48)"
  by (simp add: in_address_def)

lemma in_eval_bool [simp]: "in_eval in_bool ((if v then 1 else 0) # bs) k = Some (Inr v, bs, k + 1)"
  by (cases v) (simp_all add: in_bool_def)

lemma out_eval_value [simp]: "out_eval (out_value d) k = (Inr (length d), d)"
  by (simp add: out_value_def)

lemmas out_typed_defs = out_u8_def out_u16_def out_u32_def out_u64_def out_uuid_def out_time_def
  out_address_def out_bool_def

lemma out_eval_fill: "out_eval (out_fill b m n) k = (Inr (m + n), replicate n b)"
proof (induction n arbitrary: m k)
  case (Suc n)
  have "word_bytes b = [b]" by (simp add: word_bytes_def)
  then show ?case by (simp add: Suc.IH out_u8_def)
qed simp

lemma out_eval_string:
  "out_eval (writeString k s) n =
     (Inr (k + length s mod 256 ^ k), le_bytes k (length s mod 256 ^ k) @ string_bytes (take (length s mod 256 ^ k) s))"
  by (simp add: writeString_def Let_def string_bytes_take min_absorb1)

lemma in_eval_string:
  assumes "alloc_ok alloc" and "length s < 256 ^ k"
  shows "in_eval (readString alloc k val) (le_bytes k (length s) @ string_bytes s @ bs) n =
    Some (Inr s, bs, n + k + length s)"
proof -
  obtain mem where "alloc (length s) = Some mem" using assms(1) by (auto simp: alloc_ok_def)
  then show ?thesis using assms(2) by (auto simp: readString_def Let_def)
qed

end
