(* ===== verification/Messages.thy ===== *)
theory Messages
  imports Streams
begin

text \<open>
  Messages, \<^verbatim>\<open>arras4_core_impl/lib/message_impl\<close> and the content registry of
  \<^verbatim>\<open>arras4_message_api\<close>: the metadata header and its binary form, the envelope, the two kinds
  of content, and the reader and writer that move envelopes through framed streams.

  User-defined content classes are a type \<open>'o\<close> with a record of methods \<open>'o object_class\<close>.
  What a constructor obtains from libuuid and from the clock is passed to it as an argument.
  Trace output and the debugging dumps of \<open>doAutosave\<close> have no effect on the objects and are
  left out.
\<close>

unbundle bit_operations_syntax

subsection \<open>Content\<close>

record 'o object_class =
  oc_classId :: "'o \<Rightarrow> uuid"
  oc_classVersion :: "'o \<Rightarrow> u32"
  oc_defaultRoutingName :: "'o \<Rightarrow> string"
  oc_serialize :: "'o \<Rightarrow> unit out_prog"
  oc_deserialize :: "'o \<Rightarrow> u32 \<Rightarrow> 'o in_prog"
  oc_serializedLength :: "'o \<Rightarrow> nat"

datatype 'o content = ObjectContent 'o | OpaqueContent uuid u32 "buffer option"

primrec content_classId :: "('o, 'z) object_class_scheme \<Rightarrow> 'o content \<Rightarrow> uuid" where
  "content_classId cls (ObjectContent x) = oc_classId cls x"
| "content_classId cls (OpaqueContent i v b) = i"

primrec content_classVersion :: "('o, 'z) object_class_scheme \<Rightarrow> 'o content \<Rightarrow> u32" where
  "content_classVersion cls (ObjectContent x) = oc_classVersion cls x"
| "content_classVersion cls (OpaqueContent i v b) = v"

primrec content_defaultRoutingName :: "('o, 'z) object_class_scheme \<Rightarrow> 'o content \<Rightarrow> string" where
  "content_defaultRoutingName cls (ObjectContent x) = oc_defaultRoutingName cls x"
| "content_defaultRoutingName cls (OpaqueContent i v b) = ''OpaqueContent-INVALID_NAME''"

subsection \<open>ContentRegistry\<close>

text \<open>A factory makes the empty object that \<open>deserialize\<close> is then called on; it may return null.\<close>

type_synonym 'o factory = "u32 \<Rightarrow> 'o option"
type_synonym 'o registry = "(uuid, 'o factory) stdmap"

definition ContentRegistry_registerFactory :: "uuid \<Rightarrow> 'o factory option \<Rightarrow> 'o registry \<Rightarrow> 'o registry" where
  "ContentRegistry_registerFactory i f m = (case f of None \<Rightarrow> m | Some g \<Rightarrow> map_insert i g m)"

definition ContentRegistry_create :: "uuid \<Rightarrow> u32 \<Rightarrow> 'o registry \<Rightarrow> 'o option" where
  "ContentRegistry_create i v m = (case map_of m i of None \<Rightarrow> None | Some f \<Rightarrow> f v)"

subsection \<open>MetadataImpl\<close>

record metadata =
  md_instanceId :: uuid
  md_sourceId :: uuid
  md_creationTime :: arras_time
  md_from :: address
  md_routingName :: string
  md_trace :: bool

definition MetadataImpl_new :: "uuid \<Rightarrow> uuid \<Rightarrow> arras_time \<Rightarrow> metadata" where
  "MetadataImpl_new iid sid now = \<lparr>md_instanceId = iid, md_sourceId = sid, md_creationTime = now,
     md_from = Address_null, md_routingName = [], md_trace = False\<rparr>"

definition FLAGS_MASK_TRACE :: u16 where "FLAGS_MASK_TRACE = 1"
definition ARRAS_MESSAGING_API_VERSION_MAJOR :: u16 where "ARRAS_MESSAGING_API_VERSION_MAJOR = 4"
definition ARRAS_MESSAGING_API_VERSION_MINOR :: u16 where "ARRAS_MESSAGING_API_VERSION_MINOR = 0"

definition protocolVersion :: u16 where
  "protocolVersion = push_bit 8 ARRAS_MESSAGING_API_VERSION_MAJOR + ARRAS_MESSAGING_API_VERSION_MINOR"

primrec out_addresses :: "address list \<Rightarrow> unit out_prog" where
  "out_addresses [] = OutRet ()"
| "out_addresses (a # as) = out_then (out_address a) (out_addresses as)"

definition MetadataImpl_serialize :: "metadata \<Rightarrow> address list \<Rightarrow> unit out_prog" where
  "MetadataImpl_serialize md destinations =
     (let nameLen = word_of_nat (length (md_routingName md)) :: u16;
          addrOffset = 42 + ucast nameLen :: u32;
          flags = if md_trace md then FLAGS_MASK_TRACE else 0;
          nAddr = word_of_nat (length destinations + 1) :: u32
      in if nameLen = 0 then OutThrow (MessageFormatError ''Routing name has zero length'')
         else out_then (out_u32 addrOffset) (out_then (out_u16 protocolVersion) (out_then (out_u16 flags)
             (out_then (out_uuid (md_instanceId md)) (out_then (out_uuid (md_sourceId md)) (out_then (out_u16 nameLen)
             (out_then (out_value (take (unat nameLen) (string_bytes (md_routingName md))))
             (out_then (out_u32 nAddr) (out_then (out_address (md_from md)) (out_addresses destinations))))))))))"

text \<open>\<open>resize\<close> keeps what fits of the old text; the read then overwrites what arrives.\<close>

definition in_routingName :: "string \<Rightarrow> u16 \<Rightarrow> string in_prog" where
  "in_routingName old nameLen =
     (let n = unat nameLen; resized = take n (string_bytes old) @ replicate (n - length old) 0
      in if nameLen > 0 then InRead n (\<lambda>t. InRet (bytes_string (t @ drop (length t) resized)))
         else InRet [])"

primrec in_addresses :: "nat \<Rightarrow> address list \<Rightarrow> address list in_prog" where
  "in_addresses 0 as = InRet as"
| "in_addresses (Suc n) as = in_bind in_address (\<lambda>a. in_addresses n (as @ [a]))"

definition MetadataImpl_deserialize :: "metadata \<Rightarrow> address list \<Rightarrow> (metadata \<times> address list) in_prog" where
  "MetadataImpl_deserialize md destinations =
     InBytesRead (\<lambda>initBytes.
     in_bind in_u32 (\<lambda>addrOffset. in_bind in_u16 (\<lambda>protocolVer. in_bind in_u16 (\<lambda>flags.
     if drop_bit 8 protocolVer \<noteq> ARRAS_MESSAGING_API_VERSION_MAJOR
     then InThrow (MessageFormatError (''Incorrect messaging protocol major version '' @
            show_nat (unat (drop_bit 8 protocolVer)) @ '' : expected '' @
            show_nat (unat ARRAS_MESSAGING_API_VERSION_MAJOR)))
     else in_bind in_uuid (\<lambda>iid. in_bind in_uuid (\<lambda>sid. in_bind in_u16 (\<lambda>nameLen.
          in_bind (in_routingName (md_routingName md) nameLen) (\<lambda>name.
          InBytesRead (\<lambda>b.
          let bytesRead = size_sub b initBytes;
              rest = in_bind in_u32 (\<lambda>nAddr.
                if nAddr = 0 then InThrow (MessageFormatError ''Message must contain 'from' address'')
                else in_bind in_address (\<lambda>from.
                     in_bind (in_addresses (unat nAddr - 1) destinations) (\<lambda>ds.
                     InRet (md\<lparr>md_trace := flags AND FLAGS_MASK_TRACE \<noteq> 0, md_instanceId := iid,
                               md_sourceId := sid, md_routingName := name, md_from := from\<rparr>, ds))))
          in if bytesRead > unat addrOffset
             then InThrow (MessageFormatError ''Header length is too short'')
             else if bytesRead < unat addrOffset then InSkip (unat addrOffset - bytesRead) (\<lambda>_. rest)
             else rest)))))))))"

subsection \<open>Envelope\<close>

record 'o envelope =
  en_content :: "'o content option"
  en_metadata :: "metadata option"
  en_to :: "address list"

text \<open>The default constructor; \<open>md\<close> is the metadata object it makes.\<close>

definition Envelope_new :: "metadata \<Rightarrow> 'o envelope" where
  "Envelope_new md = \<lparr>en_content = None, en_metadata = Some md, en_to = []\<rparr>"

definition Envelope_isEmpty :: "'o envelope \<Rightarrow> bool" where
  "Envelope_isEmpty env \<longleftrightarrow> en_content env = None"

definition Envelope_classId :: "('o, 'z) object_class_scheme \<Rightarrow> 'o envelope \<Rightarrow> uuid" where
  "Envelope_classId cls env = (case en_content env of None \<Rightarrow> UUID_null | Some c \<Rightarrow> content_classId cls c)"

definition Envelope_classVersion :: "('o, 'z) object_class_scheme \<Rightarrow> 'o envelope \<Rightarrow> u32" where
  "Envelope_classVersion cls env = (case en_content env of None \<Rightarrow> 0 | Some c \<Rightarrow> content_classVersion cls c)"

definition Envelope_clear :: "'o envelope \<Rightarrow> 'o envelope" where
  "Envelope_clear env = env\<lparr>en_to := [], en_metadata := None, en_content := None\<rparr>"

definition Envelope_describe :: "'o envelope \<Rightarrow> string" where
  "Envelope_describe env = (case en_metadata env of Some md \<Rightarrow> md_routingName md | None \<Rightarrow> ''[Empty Message]'')"

definition Envelope_serialize :: "('o, 'z) object_class_scheme \<Rightarrow> 'o envelope \<Rightarrow> unit out_prog" where
  "Envelope_serialize cls env =
     out_then (case en_metadata env of Some md \<Rightarrow> MetadataImpl_serialize md (en_to env) | None \<Rightarrow> OutRet ())
       (out_then (out_uuid (Envelope_classId cls env))
       (out_then (out_u32 (Envelope_classVersion cls env)) (OutRet ())))"

definition Envelope_deserialize :: "'o envelope \<Rightarrow> ('o envelope \<times> uuid \<times> u32) in_prog" where
  "Envelope_deserialize env =
     in_bind (case en_metadata env of
                Some md \<Rightarrow> in_bind (MetadataImpl_deserialize md (en_to env))
                            (\<lambda>(md', ds). InRet (env\<lparr>en_metadata := Some md', en_to := ds\<rparr>))
              | None \<Rightarrow> InRet env)
       (\<lambda>env'. in_bind in_uuid (\<lambda>classId. in_bind in_u32 (\<lambda>version. InRet (env', classId, version))))"

subsection \<open>MessageWriter\<close>

text \<open>Up to the point at which the frame is complete and can be saved; then it is sent.\<close>

definition MessageWriter_prepare ::
  "(nat \<Rightarrow> byte list option) \<Rightarrow> ('o, 'z) object_class_scheme \<Rightarrow> 'o envelope \<Rightarrow> ('s buffered_sink, unit) proc" where
  "MessageWriter_prepare alloc cls env =
     seqp BufferedSink_openFrame
     (seqp (OutStreamImpl_run (BufferedSink_ops alloc) (out_then (Envelope_serialize cls env) (OutFlush (OutRet ()))))
     (case en_content env of
        Some (OpaqueContent _ _ (Some b)) \<Rightarrow> BufferedSink_appendBuffer b
      | Some (OpaqueContent _ _ None) \<Rightarrow> raise (Undefined ''null buffer'')
      | Some (ObjectContent x) \<Rightarrow>
          OutStreamImpl_run (BufferedSink_ops alloc) (out_then (oc_serialize cls x) (OutFlush (OutRet ())))
      | None \<Rightarrow> raise (MessageFormatError
          ''Unknown message content format : Object or Opaque content expected'')))"

definition MessageWriter_write ::
  "(nat \<Rightarrow> byte list option) \<Rightarrow> ('s, 'y) framed_sink_scheme \<Rightarrow> ('o, 'z) object_class_scheme \<Rightarrow>
   'o envelope \<Rightarrow> ('s buffered_sink, unit) proc" where
  "MessageWriter_write alloc ops cls env =
     seqp (MessageWriter_prepare alloc cls env) (seqp (BufferedSink_closeFrame ops) (ret ()))"

subsection \<open>MessageReader\<close>

text \<open>\<open>fresh\<close> is the metadata object the constructor of the new envelope makes.\<close>

definition MessageReader_decode ::
  "(nat \<Rightarrow> byte list option) \<Rightarrow> ('s, 'y) framed_source_scheme \<Rightarrow> ('o, 'z) object_class_scheme \<Rightarrow>
   'o registry \<Rightarrow> metadata \<Rightarrow> bool \<Rightarrow> ('s buffered_source, 'o envelope) proc" where
  "MessageReader_decode alloc ops cls reg fresh useRegistry =
     bindp (InStreamImpl_run (BufferedSource_ops alloc ops) (Envelope_deserialize (Envelope_new fresh)))
       (\<lambda>(env, classId, version).
          bindp (case (if useRegistry then ContentRegistry_create classId version reg else None) of
                   Some x \<Rightarrow> bindp (InStreamImpl_run (BufferedSource_ops alloc ops) (oc_deserialize cls x version))
                              (\<lambda>y. ret (ObjectContent y))
                 | None \<Rightarrow> bindp BufferedSource_takeBuffer (\<lambda>b. ret (OpaqueContent classId version b)))
            (\<lambda>content. seqp BufferedSource_endFrame (ret (env\<lparr>en_content := Some content\<rparr>))))"

definition MessageReader_read ::
  "(nat \<Rightarrow> byte list option) \<Rightarrow> ('s, 'y) framed_source_scheme \<Rightarrow> ('o, 'z) object_class_scheme \<Rightarrow>
   'o registry \<Rightarrow> metadata \<Rightarrow> bool \<Rightarrow> ('s buffered_source, 'o envelope) proc" where
  "MessageReader_read alloc ops cls reg fresh useRegistry =
     bindp (BufferedSource_nextFrame alloc ops)
       (\<lambda>frameSize.
          if frameSize = 0 then ret (Envelope_new fresh)
          else MessageReader_decode alloc ops cls reg fresh useRegistry)"

text \<open>
  \<open>deserializeContent\<close> reads from a second buffer that wraps the unread part of the opaque one, so
  the original is unaltered.
\<close>

definition MessageReader_deserializeContent ::
  "('o, 'z) object_class_scheme \<Rightarrow> 'o registry \<Rightarrow> ('o envelope, bool) proc" where
  "MessageReader_deserializeContent cls reg env =
     (case en_content env of
        Some (OpaqueContent i v ob) \<Rightarrow>
          (case ContentRegistry_create (Envelope_classId cls env) (Envelope_classVersion cls env) reg of
             None \<Rightarrow> (Inr False, env)
           | Some x \<Rightarrow>
               (case ob of
                  None \<Rightarrow> (Inl (Undefined ''null buffer''), env)
                | Some b \<Rightarrow>
                    (case InStreamImpl_run Buffer_source (oc_deserialize cls x (Envelope_classVersion cls env))
                            (Buffer_wrap (Buffer_pending b) (Buffer_remaining b)) of
                       (Inl e, _) \<Rightarrow> (Inl e, env)
                     | (Inr y, _) \<Rightarrow> (Inr True, env\<lparr>en_content := Some (ObjectContent y)\<rparr>))))
      | _ \<Rightarrow> (Inr True, env))"

subsection \<open>The binary header\<close>

text \<open>
  The layout documented in \<^verbatim>\<open>MetadataImpl.cc\<close>, with an expansion section \<open>ext\<close> between the routing
  name and the addresses, which is empty in what this version of the code writes.
\<close>

definition header_bytes :: "byte list \<Rightarrow> u16 \<Rightarrow> metadata \<Rightarrow> address list \<Rightarrow> byte list" where
  "header_bytes ext ver md ds =
     word_bytes (word_of_nat (42 + length (md_routingName md) + length ext) :: u32) @ word_bytes ver @
     word_bytes (if md_trace md then FLAGS_MASK_TRACE else 0) @
     uuid_bytes (md_instanceId md) @ uuid_bytes (md_sourceId md) @
     word_bytes (word_of_nat (length (md_routingName md)) :: u16) @ string_bytes (md_routingName md) @ ext @
     word_bytes (word_of_nat (length ds + 1) :: u32) @ address_bytes (md_from md) @ concat (map address_bytes ds)"

definition name_ok :: "metadata \<Rightarrow> bool" where
  "name_ok md \<longleftrightarrow> 0 < length (md_routingName md) \<and> length (md_routingName md) < 2 ^ 16"

lemma unat_word_of_nat_16: "n < 2 ^ 16 \<Longrightarrow> unat (word_of_nat n :: u16) = n"
  by (simp add: unat_of_nat)

lemma unat_word_of_nat_32: "n < 2 ^ 32 \<Longrightarrow> unat (word_of_nat n :: u32) = n"
  by (simp add: unat_of_nat)

lemma word_of_nat_16_nonzero: "0 < n \<Longrightarrow> n < 2 ^ 16 \<Longrightarrow> (word_of_nat n :: u16) \<noteq> 0"
  by (metis unat_word_of_nat_16 unsigned_0 less_irrefl)

lemma out_eval_addresses: "out_eval (out_addresses as) k = (Inr (), concat (map address_bytes as))"
  by (induction "as" arbitrary: k) (simp_all add: out_address_def)

lemma addrOffset_word:
  "n < 2 ^ 16 \<Longrightarrow> 42 + ucast (word_of_nat n :: u16) = (word_of_nat (42 + n) :: u32)"
  by (rule word_unat_eq_iff [THEN iffD2]) (simp add: unat_word_ariths unat_of_nat unsigned_ucast_eq take_bit_eq_mod)

lemma out_eval_metadata:
  assumes "name_ok md"
  shows "out_eval (MetadataImpl_serialize md ds) k = (Inr (), header_bytes [] protocolVersion md ds)"
proof -
  let ?n = "length (md_routingName md)"
  have n: "0 < ?n" "?n < 2 ^ 16" using assms by (simp_all add: name_ok_def)
  then show ?thesis
    using word_of_nat_16_nonzero [OF n] addrOffset_word [OF n(2)] unat_word_of_nat_16 [OF n(2)]
    by (simp add: MetadataImpl_serialize_def Let_def out_typed_defs out_eval_addresses header_bytes_def
        string_bytes_take)
qed

lemma out_eval_metadata_bad_name:
  assumes "length (md_routingName md) mod 2 ^ 16 = 0"
  shows "out_eval (MetadataImpl_serialize md ds) k =
    (Inl (MessageFormatError ''Routing name has zero length''), [])"
proof -
  have "(word_of_nat (length (md_routingName md)) :: u16) = 0"
    using assms by (simp add: word_of_nat_eq_0_iff mod_eq_0_iff_dvd)
  then show ?thesis by (simp add: MetadataImpl_serialize_def)
qed

lemma in_eval_addresses:
  "in_eval (in_addresses (length as) ds) (concat (map address_bytes as) @ bs) k =
     Some (Inr (ds @ as), bs, k + 48 * length as)"
  by (induction "as" arbitrary: ds k) simp_all

lemma in_eval_routingName:
  assumes "0 < length s" and "length s < 2 ^ 16"
  shows "in_eval (in_routingName old (word_of_nat (length s))) (string_bytes s @ bs) k =
    Some (Inr s, bs, k + length s)"
  using assms unat_word_of_nat_16 [OF assms(2)] word_of_nat_16_nonzero [OF assms]
  by (simp add: in_routingName_def Let_def word_gt_0)

text \<open>What a reader that starts from \<open>fresh\<close> makes of the header of \<open>md\<close>: the creation time is its own.\<close>

definition md_received :: "metadata \<Rightarrow> metadata \<Rightarrow> metadata" where
  "md_received fresh md = md\<lparr>md_creationTime := md_creationTime fresh\<rparr>"

lemma length_concat_addresses [simp]: "length (concat (map address_bytes ds)) = 48 * length ds"
  by (simp add: length_concat comp_def sum_list_triv)

lemma length_header_bytes:
  "length (header_bytes ext ver md ds) = 94 + length (md_routingName md) + length ext + 48 * length ds"
  by (simp add: header_bytes_def length_concat comp_def sum_list_triv)

lemma in_eval_metadata:
  assumes "name_ok md" and ver: "drop_bit 8 ver = ARRAS_MESSAGING_API_VERSION_MAJOR"
    and ext: "42 + length (md_routingName md) + length ext < 2 ^ 32" and ds: "length ds + 1 < 2 ^ 32"
  shows "in_eval (MetadataImpl_deserialize fresh ds0) (header_bytes ext ver md ds @ bs) k =
    Some (Inr (md_received fresh md, ds0 @ ds), bs, k + length (header_bytes ext ver md ds))"
proof -
  let ?n = "length (md_routingName md)"
  have n: "0 < ?n" "?n < 2 ^ 16" using assms(1) by (simp_all add: name_ok_def)
  have flags: "((if md_trace md then FLAGS_MASK_TRACE else 0) AND FLAGS_MASK_TRACE \<noteq> 0) = md_trace md"
    by (simp add: FLAGS_MASK_TRACE_def)
  define na :: u32 where "na = word_of_nat (length ds + 1)"
  have "unat na = length ds + 1" unfolding na_def by (rule unat_word_of_nat_32 [OF ds])
  then have na: "na \<noteq> 0" "unat na - 1 = length ds" by auto
  note facts = in_eval_routingName [OF n] unat_word_of_nat_32 [OF ext] na flags
    in_eval_addresses ver
  show ?thesis
    by (simp only: MetadataImpl_deserialize_def header_bytes_def na_def [symmetric] append_assoc in_eval_bind in_eval.simps
        in_eval_u32 in_eval_u16 in_eval_uuid in_eval_address option.case prod.case sum.case facts if_True if_False Let_def simp_thms)
     (simp add: facts md_received_def Let_def del: One_nat_def)
qed

subsection \<open>The binary message\<close>

definition envelope_bytes :: "byte list \<Rightarrow> u16 \<Rightarrow> metadata \<Rightarrow> address list \<Rightarrow> uuid \<Rightarrow> u32 \<Rightarrow> byte list" where
  "envelope_bytes ext ver md ds classId version =
     header_bytes ext ver md ds @ uuid_bytes classId @ word_bytes version"

text \<open>What writing a content adds to a frame that already holds \<open>k\<close> bytes.\<close>

definition content_writes :: "('o, 'z) object_class_scheme \<Rightarrow> 'o content \<Rightarrow> nat \<Rightarrow> byte list \<Rightarrow> bool" where
  "content_writes cls c k d =
     (case c of ObjectContent x \<Rightarrow> out_eval (oc_serialize cls x) k = (Inr (), d)
      | OpaqueContent _ _ ob \<Rightarrow> (\<exists>b. ob = Some b \<and> Buffer_inv b \<and> d = Buffer_pending b))"

text \<open>The header sizes stated in the comment of \<^verbatim>\<open>MetadataImpl.cc\<close>.\<close>

lemma length_envelope_bytes:
  "length (envelope_bytes ext ver md ds i v) =
     66 + length (md_routingName md) + length ext + 48 * (length ds + 1)"
  by (simp add: envelope_bytes_def length_header_bytes)

lemma out_eval_envelope:
  assumes "en_metadata env = Some md" and "name_ok md"
  shows "out_eval (Envelope_serialize cls env) k = (Inr (),
    envelope_bytes [] protocolVersion md (en_to env) (Envelope_classId cls env) (Envelope_classVersion cls env))"
  using assms by (simp add: Envelope_serialize_def out_eval_metadata envelope_bytes_def out_typed_defs)

lemma in_eval_envelope:
  assumes "name_ok md" and "drop_bit 8 ver = ARRAS_MESSAGING_API_VERSION_MAJOR"
    and "42 + length (md_routingName md) + length ext < 2 ^ 32" and "length ds + 1 < 2 ^ 32"
  shows "in_eval (Envelope_deserialize (Envelope_new fresh)) (envelope_bytes ext ver md ds i v @ bs) k =
    Some (Inr ((Envelope_new (md_received fresh md))\<lparr>en_to := ds\<rparr>, i, v), bs,
          k + length (envelope_bytes ext ver md ds i v))"
  using in_eval_metadata [OF assms, of fresh "[]" "uuid_bytes i @ word_bytes v @ bs" k]
  by (simp add: Envelope_deserialize_def Envelope_new_def envelope_bytes_def)

lemma protocolVersion_major: "drop_bit 8 protocolVersion = ARRAS_MESSAGING_API_VERSION_MAJOR"
  by (simp add: protocolVersion_def ARRAS_MESSAGING_API_VERSION_MAJOR_def ARRAS_MESSAGING_API_VERSION_MINOR_def)

lemma in_eval_bad_version:
  assumes "drop_bit 8 ver \<noteq> ARRAS_MESSAGING_API_VERSION_MAJOR"
  shows "\<exists>m rest k'. in_eval (MetadataImpl_deserialize fresh ds0) (header_bytes ext ver md ds @ bs) k =
    Some (Inl (MessageFormatError m), rest, k')"
  using assms by (simp add: MetadataImpl_deserialize_def header_bytes_def)

subsection \<open>Writing a message\<close>

lemma BufferedSink_openFrame_ok:
  assumes "bsk_mem_inv alloc k"
  shows "\<exists>k'. BufferedSink_openFrame k = (Inr True, k') \<and> bsk_mem_inv alloc k' \<and>
    bsk_content k' = [] \<and> bsk_appendedBuffers k' = [] \<and> bsk_output k' = bsk_output k"
  using BufferedSink_reset_ok [OF assms] by (simp add: BufferedSink_openFrame_def BufferedSink_reset_def)

lemma BufferedSink_run_ok:
  assumes "bsk_mem_inv alloc k" and "bsk_appendedBuffers k = []"
    and "out_eval p (length (bsk_content k)) = (Inr (), d)"
  shows "\<exists>k'. OutStreamImpl_run (BufferedSink_ops alloc) (out_then p (OutFlush (OutRet ()))) k = (Inr (), k') \<and>
    bsk_mem_inv alloc k' \<and> bsk_appendedBuffers k' = [] \<and> bsk_output k' = bsk_output k \<and>
    bsk_content k' = bsk_content k @ d"
  using bufsink.run_out_eval [of alloc k "bsk_output k" "out_then p (OutFlush (OutRet ()))" "Inr ()" d]
    assms bsk_bytesWritten [OF assms(1)]
  by (auto simp: BufferedSink_ops_def)

text \<open>Before it is sent, the sink holds the whole message.\<close>

lemma prepare_message:
  assumes mem: "bsk_mem_inv alloc k"
    and md: "en_metadata env = Some md" "name_ok md" and c: "en_content env = Some c"
    and hb: "hb = envelope_bytes [] protocolVersion md (en_to env) (Envelope_classId cls env) (Envelope_classVersion cls env)"
    and d: "content_writes cls c (length hb) d"
  shows "\<exists>k'. MessageWriter_prepare alloc cls env k = (Inr (), k') \<and> bsk_mem_inv alloc k' \<and>
    bsk_content k' = hb @ d \<and> bsk_output k' = bsk_output k"
proof -
  obtain k1 where k1: "BufferedSink_openFrame k = (Inr True, k1)" "bsk_mem_inv alloc k1" "bsk_content k1 = []"
      "bsk_appendedBuffers k1 = []" "bsk_output k1 = bsk_output k"
    using BufferedSink_openFrame_ok [OF mem] by auto
  obtain k2 where k2: "OutStreamImpl_run (BufferedSink_ops alloc)
        (out_then (Envelope_serialize cls env) (OutFlush (OutRet ()))) k1 = (Inr (), k2)"
      "bsk_mem_inv alloc k2" "bsk_content k2 = hb" "bsk_appendedBuffers k2 = []" "bsk_output k2 = bsk_output k"
    using BufferedSink_run_ok [OF k1(2,4) out_eval_envelope [OF md]] k1 hb by auto
  let ?step = "case c of OpaqueContent _ _ (Some b) \<Rightarrow> BufferedSink_appendBuffer b
            | OpaqueContent _ _ None \<Rightarrow> raise (Undefined ''null buffer'')
            | ObjectContent x \<Rightarrow>
                OutStreamImpl_run (BufferedSink_ops alloc) (out_then (oc_serialize cls x) (OutFlush (OutRet ())))"
  have "\<exists>k3. ?step k2 = (Inr (), k3) \<and> bsk_mem_inv alloc k3 \<and> bsk_content k3 = hb @ d \<and>
      bsk_output k3 = bsk_output k"
  proof (cases c)
    case (ObjectContent x)
    then show ?thesis
      using BufferedSink_run_ok [OF k2(2,4), of "oc_serialize cls x" d] d k2 by (auto simp: content_writes_def)
  next
    case (OpaqueContent i v ob)
    then obtain b where "ob = Some b" "Buffer_inv b" "d = Buffer_pending b"
      using d by (auto simp: content_writes_def)
    then show ?thesis
      using BufferedSink_appendBuffer_ok [OF k2(2), of b] OpaqueContent k2 by auto
  qed
  then show ?thesis
    using k1 k2 c by (cases c) (auto simp: MessageWriter_prepare_def split: option.splits)
qed

context frame_sink
begin

theorem write_message:
  assumes inv: "inv (bsk_output k)" and mem: "bsk_mem_inv alloc k"
    and md: "en_metadata env = Some md" "name_ok md" and c: "en_content env = Some c"
    and hb: "hb = envelope_bytes [] protocolVersion md (en_to env) (Envelope_classId cls env) (Envelope_classVersion cls env)"
    and d: "content_writes cls c (length hb) d"
    and small: "length (hb @ d) < 2 ^ 32"
  shows "\<exists>k'. MessageWriter_write alloc ops cls env k = (Inr (), k') \<and> inv (bsk_output k') \<and>
    bsk_mem_inv alloc k' \<and> content (bsk_output k') =
      content (bsk_output k) @ frame_bytes (frame_header (length (hb @ d))) @ hb @ d"
proof -
  obtain k3 where k3: "MessageWriter_prepare alloc cls env k = (Inr (), k3)" "bsk_mem_inv alloc k3"
      "bsk_content k3 = hb @ d" "bsk_output k3 = bsk_output k"
    using prepare_message [OF mem md c hb d] by blast
  obtain k4 where "BufferedSink_closeFrame ops k3 = (Inr True, k4)" "inv (bsk_output k4)" "bsk_mem_inv alloc k4"
      "content (bsk_output k4) = content (bsk_output k) @ frame_bytes (frame_header (length (hb @ d))) @ hb @ d"
    using closeFrame_ok [of k3 alloc] k3 inv small by auto
  then show ?thesis using k3(1) by (auto simp: MessageWriter_write_def)
qed

end

subsection \<open>Reading a message\<close>

context frame_source
begin

text \<open>The envelope of the next frame is read, and the frame's buffer is left at its content.\<close>

lemma read_envelope:
  assumes al: "alloc_ok alloc" and inv: "inv (bsr_input q)"
    and md: "name_ok md" "drop_bit 8 ver = ARRAS_MESSAGING_API_VERSION_MAJOR"
    and hb: "hb = envelope_bytes ext ver md ds i v" and small: "length (hb @ d) < 2 ^ 32"
    and inp: "pending (bsr_input q) = frame_bytes (frame_header (length (hb @ d))) @ hb @ d @ rest"
  shows "\<exists>q1 q2. BufferedSource_nextFrame alloc ops q = (Inr (length (hb @ d)), q1) \<and>
    InStreamImpl_run (BufferedSource_ops alloc ops) (Envelope_deserialize (Envelope_new fresh :: 'o envelope)) q1 =
      (Inr ((Envelope_new (md_received fresh md))\<lparr>en_to := ds\<rparr>, i, v), q2) \<and>
    inv (bsr_input q2) \<and> pending (bsr_input q2) = rest \<and>
    bsr_mem_inv q2 \<and> bsr_buffer q2 \<noteq> None \<and> bsr_pending q2 = d \<and> BufferedSource_bytesRead q2 = length hb"
proof -
  have len: "length hb = 66 + length (md_routingName md) + length ext + 48 * (length ds + 1)"
    unfolding hb by (rule length_envelope_bytes)
  obtain q1 where q1: "BufferedSource_nextFrame alloc ops q = (Inr (length (hb @ d)), q1)" "inv (bsr_input q1)"
      "pending (bsr_input q1) = rest" "bsr_mem_inv q1" "bsr_pending q1 = hb @ d" "bsr_buffer q1 \<noteq> None"
      "BufferedSource_bytesRead q1 = 0"
    using nextFrame_ok [OF al inv, of "hb @ d" rest] small len inp by auto
  have pre: "bsr_mem_inv q1 \<and> bsr_buffer q1 \<noteq> None \<and> bsr_input q1 = bsr_input q1"
    using q1 by simp
  have ev: "in_eval (Envelope_deserialize (Envelope_new fresh :: 'o envelope)) (bsr_pending q1)
      (src_bytesRead (BufferedSource_ops alloc ops) q1) =
      Some (Inr ((Envelope_new (md_received fresh md))\<lparr>en_to := ds\<rparr>, i, v), d, length hb)"
    using in_eval_envelope [OF md, of ext ds fresh i v d 0] q1 small len unfolding hb
    by (simp add: BufferedSource_ops_def)
  obtain q2 where "InStreamImpl_run (BufferedSource_ops alloc ops)
        (Envelope_deserialize (Envelope_new fresh :: 'o envelope)) q1 =
        (Inr ((Envelope_new (md_received fresh md))\<lparr>en_to := ds\<rparr>, i, v), q2)"
      "bsr_mem_inv q2" "bsr_buffer q2 \<noteq> None" "bsr_input q2 = bsr_input q1" "bsr_pending q2 = d"
      "src_bytesRead (BufferedSource_ops alloc ops) q2 = length hb"
    using bufsrc.run_in_eval [OF pre ev] by auto
  with q1 show ?thesis by (auto simp: BufferedSource_ops_def)
qed

theorem read_opaque:
  fixes cls :: "('o, 'y) object_class_scheme"
  assumes al: "alloc_ok alloc" and inv: "inv (bsr_input q)"
    and md: "name_ok md" "drop_bit 8 ver = ARRAS_MESSAGING_API_VERSION_MAJOR"
    and hb: "hb = envelope_bytes ext ver md ds i v" and small: "length (hb @ d) < 2 ^ 32"
    and inp: "pending (bsr_input q) = frame_bytes (frame_header (length (hb @ d))) @ hb @ d @ rest"
    and reg: "\<not> useRegistry \<or> ContentRegistry_create i v reg = None"
  shows "\<exists>q' b. MessageReader_read alloc ops cls reg fresh useRegistry q =
      (Inr \<lparr>en_content = Some (OpaqueContent i v (Some b)), en_metadata = Some (md_received fresh md), en_to = ds\<rparr>, q') \<and>
    Buffer_inv b \<and> Buffer_pending b = d \<and> inv (bsr_input q') \<and> pending (bsr_input q') = rest"
proof -
  obtain q1 q2 where q: "BufferedSource_nextFrame alloc ops q = (Inr (length (hb @ d)), q1)"
      "InStreamImpl_run (BufferedSource_ops alloc ops) (Envelope_deserialize (Envelope_new fresh :: 'o envelope)) q1 =
        (Inr ((Envelope_new (md_received fresh md))\<lparr>en_to := ds\<rparr>, i, v), q2)"
      "inv (bsr_input q2)" "pending (bsr_input q2) = rest" "bsr_mem_inv q2" "bsr_buffer q2 \<noteq> None"
      "bsr_pending q2 = d"
    using read_envelope [OF al inv md hb small inp] by blast
  then obtain b where b: "bsr_buffer q2 = Some b" "Buffer_inv b" "Buffer_pending b = d"
    by (auto simp: bsr_mem_inv_def bsr_pending_def)
  have "length (hb @ d) \<noteq> 0" using hb length_envelope_bytes [of ext ver md ds i v] by simp
  then have "MessageReader_read alloc ops cls reg fresh useRegistry q =
      (Inr \<lparr>en_content = Some (OpaqueContent i v (Some b)), en_metadata = Some (md_received fresh md), en_to = ds\<rparr>,
       q2\<lparr>bsr_buffer := None, bsr_isInFrame := False\<rparr>)"
    using q(1,2) b(1) reg
    by (auto simp: MessageReader_read_def MessageReader_decode_def BufferedSource_takeBuffer_def BufferedSource_endFrame_def
        Envelope_new_def [of "md_received fresh md"])
  then show ?thesis using q b by auto
qed

theorem read_object:
  fixes cls :: "('o, 'y) object_class_scheme"
  assumes al: "alloc_ok alloc" and inv: "inv (bsr_input q)"
    and md: "name_ok md" "drop_bit 8 ver = ARRAS_MESSAGING_API_VERSION_MAJOR"
    and hb: "hb = envelope_bytes ext ver md ds i v" and small: "length (hb @ d) < 2 ^ 32"
    and inp: "pending (bsr_input q) = frame_bytes (frame_header (length (hb @ d))) @ hb @ d @ rest"
    and reg: "ContentRegistry_create i v reg = Some x"
    and dec: "in_eval (oc_deserialize cls x v) d (length hb) = Some (Inr y, unread, n)"
  shows "\<exists>q'. MessageReader_read alloc ops cls reg fresh True q =
      (Inr \<lparr>en_content = Some (ObjectContent y), en_metadata = Some (md_received fresh md), en_to = ds\<rparr>, q') \<and>
    inv (bsr_input q') \<and> pending (bsr_input q') = rest"
proof -
  obtain q1 q2 where q: "BufferedSource_nextFrame alloc ops q = (Inr (length (hb @ d)), q1)"
      "InStreamImpl_run (BufferedSource_ops alloc ops) (Envelope_deserialize (Envelope_new fresh :: 'o envelope)) q1 =
        (Inr ((Envelope_new (md_received fresh md))\<lparr>en_to := ds\<rparr>, i, v), q2)"
      "inv (bsr_input q2)" "pending (bsr_input q2) = rest" "bsr_mem_inv q2" "bsr_buffer q2 \<noteq> None"
      "bsr_pending q2 = d" "BufferedSource_bytesRead q2 = length hb"
    using read_envelope [OF al inv md hb small inp] by blast
  have "length (hb @ d) \<noteq> 0" using hb length_envelope_bytes [of ext ver md ds i v] by simp
  moreover obtain q3 where "InStreamImpl_run (BufferedSource_ops alloc ops) (oc_deserialize cls x v) q2 = (Inr y, q3)"
      "bsr_input q3 = bsr_input q2"
    using bufsrc.run_in_eval [of q2 "bsr_input q2" "oc_deserialize cls x v" alloc ops "Inr y" unread n] q dec
    by (auto simp: BufferedSource_ops_def)
  ultimately show ?thesis
    using q reg
    by (auto simp: MessageReader_read_def MessageReader_decode_def BufferedSource_endFrame_def Envelope_new_def [of "md_received fresh md"])
qed

text \<open>A message of another major protocol version is refused.\<close>

theorem read_bad_version:
  fixes cls :: "('o, 'y) object_class_scheme"
  assumes al: "alloc_ok alloc" and inv: "inv (bsr_input q)"
    and ver: "drop_bit 8 ver \<noteq> ARRAS_MESSAGING_API_VERSION_MAJOR"
    and hb: "hb = envelope_bytes ext ver md ds i v" and small: "length (hb @ d) < 2 ^ 32"
    and inp: "pending (bsr_input q) = frame_bytes (frame_header (length (hb @ d))) @ hb @ d @ rest"
  shows "\<exists>q' m. MessageReader_read alloc ops cls reg fresh useRegistry q = (Inl (MessageFormatError m), q')"
proof -
  have len: "0 < length hb" unfolding hb by (simp add: length_envelope_bytes)
  obtain q1 where q1: "BufferedSource_nextFrame alloc ops q = (Inr (length (hb @ d)), q1)"
      "bsr_mem_inv q1" "bsr_pending q1 = hb @ d" "bsr_buffer q1 \<noteq> None"
    using nextFrame_ok [OF al inv, of "hb @ d" rest] small len inp by auto
  have pre: "bsr_mem_inv q1 \<and> bsr_buffer q1 \<noteq> None \<and> bsr_input q1 = bsr_input q1"
    using q1 by simp
  obtain m rst k where "in_eval (MetadataImpl_deserialize fresh []) (bsr_pending q1)
      (src_bytesRead (BufferedSource_ops alloc ops) q1) = Some (Inl (MessageFormatError m), rst, k)"
    using in_eval_bad_version [OF ver, of fresh "[]" ext md ds "uuid_bytes i @ word_bytes v @ d"] q1 hb
    by (fastforce simp: envelope_bytes_def)
  then have ev: "in_eval (Envelope_deserialize (Envelope_new fresh :: 'o envelope)) (bsr_pending q1)
      (src_bytesRead (BufferedSource_ops alloc ops) q1) = Some (Inl (MessageFormatError m), rst, k)"
    by (simp add: Envelope_deserialize_def Envelope_new_def)
  then obtain q2 where "InStreamImpl_run (BufferedSource_ops alloc ops)
      (Envelope_deserialize (Envelope_new fresh :: 'o envelope)) q1 = (Inl (MessageFormatError m), q2)"
    using bufsrc.run_in_eval [OF pre ev] by auto
  then show ?thesis using q1 len by (auto simp: MessageReader_read_def MessageReader_decode_def)
qed

end

text \<open>
  Content that was kept opaque and is deserialized later gives the object that deserializing on
  arrival would have given, as long as the deserializer does not depend on its position in the
  frame.
\<close>

lemma deserializeContent_ok:
  assumes "en_content env = Some (OpaqueContent i v (Some b))" and "Buffer_inv b"
    and "ContentRegistry_create i v reg = Some x"
    and "in_eval (oc_deserialize cls x v) (Buffer_pending b) 0 = Some (Inr y, unread, n)"
  shows "MessageReader_deserializeContent cls reg env = (Inr True, env\<lparr>en_content := Some (ObjectContent y)\<rparr>)"
proof -
  let ?w = "Buffer_wrap (Buffer_pending b) (Buffer_remaining b)"
  have "Buffer_inv ?w" "Buffer_pending ?w = Buffer_pending b" "src_bytesRead Buffer_source ?w = 0"
    using assms(2)
    by (auto simp: Buffer_inv_def Buffer_pending_def Buffer_wrap_def Buffer_source_def buffer_defs)
  then obtain b' where "InStreamImpl_run Buffer_source (oc_deserialize cls x v) ?w = (Inr y, b')"
    using buffer_src.run_in_eval [of ?w "oc_deserialize cls x v" "Inr y" unread n] assms(4) by auto
  then show ?thesis
    using assms by (simp add: MessageReader_deserializeContent_def Envelope_classId_def Envelope_classVersion_def)
qed

end
