(* ===== verification/Json_Api.thy ===== *)
theory Json_Api
  imports Messages "HOL-Library.List_Lexorder" "HOL-Library.Char_ord"
begin

text \<open>
  \<open>api::Object\<close> is \<^verbatim>\<open>Json::Value\<close> of the library jsoncpp, which is not part of the sources: its
  operations are the parameter \<open>J\<close> of every definition that uses them (record \<open>json_api\<close>), and what the
  sources rely on is the predicate \<open>json_ok\<close>. The datatype \<open>json\<close> with \<open>json_impl\<close> is one implementation,
  in which that predicate holds.

  Then the conversions of \<^verbatim>\<open>Address.cc\<close> and \<^verbatim>\<open>MetadataImpl.cc\<close> to and from objects.
\<close>

subsection \<open>The operations of Json::Value\<close>

datatype value_type = nullValue | intValue | uintValue | realValue | stringValue | booleanValue | arrayValue | objectValue

text \<open>
  \<open>js_members\<close> is the sequence an iterator runs through, each element with its \<open>memberName()\<close> (for an
  array the empty string; for values that are neither arrays nor objects there is nothing to run
  through). \<open>js_get\<close> is the constant \<open>operator[]\<close> on a name, which gives the null value for a member that
  is missing; \<open>js_set\<close> stores through the other one. Conversions may throw.
\<close>

record 'j json_api =
  js_type :: "'j \<Rightarrow> value_type"
  js_members :: "'j \<Rightarrow> (string \<times> 'j) list"
  js_get :: "'j \<Rightarrow> string \<Rightarrow> exn + 'j"
  js_set :: "string \<Rightarrow> 'j \<Rightarrow> 'j \<Rightarrow> exn + 'j"
  js_isArray :: "'j \<Rightarrow> bool"
  js_isInt :: "'j \<Rightarrow> bool"
  js_asString :: "'j \<Rightarrow> exn + string"
  js_asInt :: "'j \<Rightarrow> exn + int"
  js_asBool :: "'j \<Rightarrow> exn + bool"
  js_null :: 'j
  js_ofString :: "string \<Rightarrow> 'j"
  js_ofInt :: "int \<Rightarrow> 'j"
  js_ofUInt :: "nat \<Rightarrow> 'j"
  js_ofBool :: "bool \<Rightarrow> 'j"

definition js_isNull :: "('j, 'z) json_api_scheme \<Rightarrow> 'j \<Rightarrow> bool" where
  "js_isNull J j \<longleftrightarrow> js_type J j = nullValue"

definition js_isString :: "('j, 'z) json_api_scheme \<Rightarrow> 'j \<Rightarrow> bool" where
  "js_isString J j \<longleftrightarrow> js_type J j = stringValue"

definition js_isBool :: "('j, 'z) json_api_scheme \<Rightarrow> 'j \<Rightarrow> bool" where
  "js_isBool J j \<longleftrightarrow> js_type J j = booleanValue"

text \<open>Values that can have members: objects, and the null value, which becomes one.\<close>

definition js_isMap :: "('j, 'z) json_api_scheme \<Rightarrow> 'j \<Rightarrow> bool" where
  "js_isMap J j \<longleftrightarrow> js_type J j = nullValue \<or> js_type J j = objectValue"

definition json_ok :: "('j, 'z) json_api_scheme \<Rightarrow> bool" where
  "json_ok J \<longleftrightarrow>
     (\<forall>j k. js_isMap J j \<longrightarrow> (\<exists>v. js_get J j k = Inr v)) \<and>
     (\<forall>k. js_get J (js_null J) k = Inr (js_null J)) \<and> js_isNull J (js_null J) \<and>
     (\<forall>j k v. js_isMap J j \<longrightarrow> (\<exists>j'. js_set J k v j = Inr j' \<and> js_type J j' = objectValue \<and> js_get J j' k = Inr v \<and>
        (\<forall>k'. k' \<noteq> k \<longrightarrow> js_get J j' k' = js_get J j k'))) \<and>
     (\<forall>s. js_isString J (js_ofString J s) \<and> js_asString J (js_ofString J s) = Inr s) \<and>
     (\<forall>i. - 2147483648 \<le> i \<and> i \<le> 2147483647 \<longrightarrow> js_isInt J (js_ofInt J i) \<and> js_asInt J (js_ofInt J i) = Inr i) \<and>
     (\<forall>i. js_type J (js_ofInt J i) \<in> {intValue, uintValue}) \<and>
     (\<forall>b. js_isBool J (js_ofBool J b) \<and> js_asBool J (js_ofBool J b) = Inr b)"

text \<open>Unsigned values that fit into an \<open>int\<close> count as integers (jsoncpp from version 1.0 on).\<close>

definition json_uint_ok :: "('j, 'z) json_api_scheme \<Rightarrow> bool" where
  "json_uint_ok J \<longleftrightarrow> (\<forall>n. n \<le> 2147483647 \<longrightarrow>
     js_isInt J (js_ofUInt J n) \<and> js_asInt J (js_ofUInt J n) = Inr (int n) \<and> \<not> js_isNull J (js_ofUInt J n))"

subsection \<open>An implementation\<close>

datatype json = JNull | JBool bool | JInt int | JString string | JArray "json list" | JObject "(string \<times> json) list"

primrec json_type :: "json \<Rightarrow> value_type" where
  "json_type JNull = nullValue"
| "json_type (JBool b) = booleanValue"
| "json_type (JInt i) = intValue"
| "json_type (JString s) = stringValue"
| "json_type (JArray xs) = arrayValue"
| "json_type (JObject m) = objectValue"

fun json_members :: "json \<Rightarrow> (string \<times> json) list" where
  "json_members (JArray xs) = map (Pair []) xs"
| "json_members (JObject m) = m"
| "json_members _ = []"

fun json_get :: "json \<Rightarrow> string \<Rightarrow> exn + json" where
  "json_get JNull k = Inr JNull"
| "json_get (JObject m) k = Inr (case map_of m k of None \<Rightarrow> JNull | Some v \<Rightarrow> v)"
| "json_get _ k = Inl (StdException ''Json: not an object'')"

fun json_set :: "string \<Rightarrow> json \<Rightarrow> json \<Rightarrow> exn + json" where
  "json_set k v JNull = Inr (JObject [(k, v)])"
| "json_set k v (JObject m) = Inr (JObject (map_set k v m))"
| "json_set k v _ = Inl (StdException ''Json: not an object'')"

fun json_asString :: "json \<Rightarrow> exn + string" where
  "json_asString JNull = Inr []"
| "json_asString (JString s) = Inr s"
| "json_asString (JBool b) = Inr (if b then ''true'' else ''false'')"
| "json_asString (JInt i) = Inr (show_int i)"
| "json_asString _ = Inl (StdException ''Json: not convertible to string'')"

fun json_asInt :: "json \<Rightarrow> exn + int" where
  "json_asInt JNull = Inr 0"
| "json_asInt (JInt i) = (if - 2147483648 \<le> i \<and> i \<le> 2147483647 then Inr i else Inl (StdException ''Json: out of range''))"
| "json_asInt _ = Inl (StdException ''Json: not convertible to int'')"

fun json_asBool :: "json \<Rightarrow> exn + bool" where
  "json_asBool (JBool b) = Inr b"
| "json_asBool JNull = Inr False"
| "json_asBool _ = Inl (StdException ''Json: not convertible to bool'')"

definition json_impl :: "json json_api" where
  "json_impl =
     \<lparr>js_type = json_type, js_members = json_members, js_get = json_get, js_set = json_set,
      js_isArray = (\<lambda>j. json_type j = arrayValue),
      js_isInt = (\<lambda>j. case j of JInt i \<Rightarrow> - 2147483648 \<le> i \<and> i \<le> 2147483647 | _ \<Rightarrow> False),
      js_asString = json_asString, js_asInt = json_asInt, js_asBool = json_asBool,
      js_null = JNull, js_ofString = JString, js_ofInt = JInt, js_ofUInt = (\<lambda>n. JInt (int n)), js_ofBool = JBool\<rparr>"

lemma json_set_ok:
  assumes "js_isMap json_impl j"
  shows "\<exists>j'. json_set k v j = Inr j' \<and> json_type j' = objectValue \<and> json_get j' k = Inr v \<and>
    (\<forall>k'. k' \<noteq> k \<longrightarrow> json_get j' k' = json_get j k')"
  using assms by (cases j) (auto simp: js_isMap_def json_impl_def)

lemma json_impl_ok: "json_ok json_impl"
proof -
  have "\<exists>v. json_get j k = Inr v" if "js_isMap json_impl j" for j k
    using that by (cases j) (auto simp: js_isMap_def json_impl_def)
  moreover note json_set_ok
  ultimately show ?thesis
    by (simp add: json_ok_def js_isString_def js_isBool_def js_isNull_def) (simp add: json_impl_def)
qed

lemma json_impl_uint_ok: "json_uint_ok json_impl"
  by (simp add: json_uint_ok_def js_isNull_def json_impl_def)

subsection \<open>Storing members\<close>

definition js_put :: "('j, 'z) json_api_scheme \<Rightarrow> string \<Rightarrow> 'j \<Rightarrow> ('j, unit) proc" where
  "js_put J k v obj = (case js_set J k v obj of Inl e \<Rightarrow> (Inl e, obj) | Inr obj' \<Rightarrow> (Inr (), obj'))"

text \<open>\<open>js_in J k p\<close> runs \<open>p\<close> on \<open>obj[k]\<close>.\<close>

definition js_in :: "('j, 'z) json_api_scheme \<Rightarrow> string \<Rightarrow> ('j, unit) proc \<Rightarrow> ('j, unit) proc" where
  "js_in J k p obj =
     (case js_get J obj k of
        Inl e \<Rightarrow> (Inl e, obj)
      | Inr sub \<Rightarrow> (case p sub of (r, sub') \<Rightarrow>
          (case js_set J k sub' obj of Inl e \<Rightarrow> (Inl e, obj) | Inr obj' \<Rightarrow> (r, obj'))))"

definition js_string :: "('j, 'z) json_api_scheme \<Rightarrow> 'j \<Rightarrow> string \<Rightarrow> exn + string" where
  "js_string J obj k = sbind (js_get J obj k) (js_asString J)"

lemma js_put_ok:
  assumes "json_ok J" and "js_isMap J obj"
  shows "\<exists>obj'. js_put J k v obj = (Inr (), obj') \<and> js_isMap J obj' \<and>
    js_get J obj' k = Inr v \<and> (\<forall>k'. k' \<noteq> k \<longrightarrow> js_get J obj' k' = js_get J obj k')"
proof -
  obtain obj' where "js_set J k v obj = Inr obj'" "js_type J obj' = objectValue" "js_get J obj' k = Inr v"
      "\<forall>k'. k' \<noteq> k \<longrightarrow> js_get J obj' k' = js_get J obj k'"
    using assms unfolding json_ok_def by blast
  then show ?thesis by (simp add: js_put_def js_isMap_def)
qed

lemma js_in_ok:
  assumes "json_ok J" and "js_isMap J obj" and "js_get J obj k = Inr sub" and "p sub = (Inr (), sub')"
  shows "\<exists>obj'. js_in J k p obj = (Inr (), obj') \<and> js_isMap J obj' \<and>
    js_get J obj' k = Inr sub' \<and> (\<forall>k'. k' \<noteq> k \<longrightarrow> js_get J obj' k' = js_get J obj k')"
proof -
  obtain obj' where "js_set J k sub' obj = Inr obj'" "js_type J obj' = objectValue" "js_get J obj' k = Inr sub'"
      "\<forall>k'. k' \<noteq> k \<longrightarrow> js_get J obj' k' = js_get J obj k'"
    using assms(1,2) unfolding json_ok_def by blast
  then show ?thesis using assms(3,4) by (simp add: js_in_def js_isMap_def)
qed

lemma js_string_ofString: "json_ok J \<Longrightarrow> js_get J obj k = Inr (js_ofString J s) \<Longrightarrow> js_string J obj k = Inr s"
  by (simp add: js_string_def json_ok_def)

subsection \<open>Addresses as objects\<close>

definition Address_toObject :: "'u uuid_api_scheme \<Rightarrow> ('j, 'z) json_api_scheme \<Rightarrow> address \<Rightarrow> ('j, unit) proc" where
  "Address_toObject U J a =
     seqp (js_put J ''session'' (js_ofString J (UUID_toString U (ad_session a))))
     (seqp (js_put J ''node'' (js_ofString J (UUID_toString U (ad_node a))))
     (js_put J ''computation'' (js_ofString J (UUID_toString U (ad_computation a)))))"

definition Address_fromObject :: "'u uuid_api_scheme \<Rightarrow> ('j, 'z) json_api_scheme \<Rightarrow> 'j \<Rightarrow> (address, unit) proc" where
  "Address_fromObject U J obj =
     bindp (liftr (js_string J obj ''session'')) (\<lambda>s. seqp (upd (\<lambda>a. a\<lparr>ad_session := UUID_parse U s\<rparr>))
     (bindp (liftr (js_string J obj ''node'')) (\<lambda>n. seqp (upd (\<lambda>a. a\<lparr>ad_node := UUID_parse U n\<rparr>))
     (bindp (liftr (js_string J obj ''computation'')) (\<lambda>c. upd (\<lambda>a. a\<lparr>ad_computation := UUID_parse U c\<rparr>))))))"

lemma UUID_parse_toString [simp]: "uuid_api_ok U \<Longrightarrow> UUID_parse U (UUID_toString U u) = u"
  by (simp add: uuid_api_ok_def UUID_parse_def UUID_toString_def)

lemma Address_toObject_ok:
  assumes "json_ok J" and "js_isMap J obj"
  shows "\<exists>obj'. Address_toObject U J a obj = (Inr (), obj') \<and> js_isMap J obj' \<and>
    js_get J obj' ''session'' = Inr (js_ofString J (UUID_toString U (ad_session a))) \<and>
    js_get J obj' ''node'' = Inr (js_ofString J (UUID_toString U (ad_node a))) \<and>
    js_get J obj' ''computation'' = Inr (js_ofString J (UUID_toString U (ad_computation a)))"
proof -
  let ?s = "\<lambda>u. js_ofString J (UUID_toString U u)"
  obtain o1 where o1: "js_put J ''session'' (?s (ad_session a)) obj = (Inr (), o1)" "js_isMap J o1"
      "js_get J o1 ''session'' = Inr (?s (ad_session a))"
    using js_put_ok [OF assms] by blast
  obtain o2 where o2: "js_put J ''node'' (?s (ad_node a)) o1 = (Inr (), o2)" "js_isMap J o2"
      "js_get J o2 ''node'' = Inr (?s (ad_node a))" "\<forall>k'. k' \<noteq> ''node'' \<longrightarrow> js_get J o2 k' = js_get J o1 k'"
    using js_put_ok [OF assms(1) o1(2)] by blast
  obtain o3 where o3: "js_put J ''computation'' (?s (ad_computation a)) o2 = (Inr (), o3)" "js_isMap J o3"
      "js_get J o3 ''computation'' = Inr (?s (ad_computation a))"
      "\<forall>k'. k' \<noteq> ''computation'' \<longrightarrow> js_get J o3 k' = js_get J o2 k'"
    using js_put_ok [OF assms(1) o2(2)] by blast
  show ?thesis using o1 o2 o3 by (simp add: Address_toObject_def)
qed

lemma Address_object_roundtrip:
  assumes "json_ok J" and "uuid_api_ok U" and "js_isMap J obj"
  shows "\<exists>obj'. Address_toObject U J a obj = (Inr (), obj') \<and> Address_fromObject U J obj' b = (Inr (), a)"
  using Address_toObject_ok [OF assms(1,3), of U a] assms(1,2)
  by (auto simp: Address_fromObject_def js_string_ofString)

subsection \<open>Metadata as objects\<close>

text \<open>The constructor that takes the content's routing name and the options of a send.\<close>

definition MetadataImpl_new_options ::
  "'u uuid_api_scheme \<Rightarrow> ('j, 'z) json_api_scheme \<Rightarrow> string option \<Rightarrow> 'j \<Rightarrow> uuid \<Rightarrow> uuid \<Rightarrow> arras_time \<Rightarrow> exn + metadata" where
  "MetadataImpl_new_options U J content options iid sid now =
     (let md = MetadataImpl_new iid sid now;
          md = (case content of None \<Rightarrow> md | Some name \<Rightarrow> md\<lparr>md_routingName := name\<rparr>)
      in sbind (js_get J options ''sourceId'') (\<lambda>src.
         sbind (if js_isString J src then sbind (js_asString J src) (\<lambda>s. Inr (md\<lparr>md_sourceId := UUID_parse U s\<rparr>)) else Inr md) (\<lambda>md.
         sbind (js_get J options ''routingName'') (\<lambda>rn.
         if js_isString J rn then sbind (js_asString J rn) (\<lambda>s. Inr (md\<lparr>md_routingName := s\<rparr>)) else Inr md))))"

definition MetadataImpl_get ::
  "'u uuid_api_scheme \<Rightarrow> ('j, 'z) json_api_scheme \<Rightarrow> (arras_time \<Rightarrow> string) \<Rightarrow> metadata \<Rightarrow> string \<Rightarrow> exn + 'j" where
  "MetadataImpl_get U J dateTimeStr md optionName =
     (if optionName = ''instanceId'' then Inr (js_ofString J (UUID_toString U (md_instanceId md)))
      else if optionName = ''sourceId'' then Inr (js_ofString J (UUID_toString U (md_sourceId md)))
      else if optionName = ''from'' then
        (case Address_toObject U J (md_from md) (js_null J) of (Inl e, _) \<Rightarrow> Inl e | (Inr _, obj) \<Rightarrow> Inr obj)
      else if optionName = ''routingName'' then Inr (js_ofString J (md_routingName md))
      else if optionName = ''creationTimeSecs'' then Inr (js_ofInt J (sint (at_seconds (md_creationTime md))))
      else if optionName = ''creationTimeMicroSecs'' then Inr (js_ofInt J (sint (at_microseconds (md_creationTime md))))
      else if optionName = ''creationTimeString'' then Inr (js_ofString J (dateTimeStr (md_creationTime md)))
      else Inr (js_null J))"

definition MetadataImpl_toObject :: "'u uuid_api_scheme \<Rightarrow> ('j, 'z) json_api_scheme \<Rightarrow> metadata \<Rightarrow> ('j, unit) proc" where
  "MetadataImpl_toObject U J md =
     seqp (js_put J ''instanceId'' (js_ofString J (UUID_toString U (md_instanceId md))))
     (seqp (js_put J ''sourceId'' (js_ofString J (UUID_toString U (md_sourceId md))))
     (seqp (js_in J ''creationTime'' (js_put J ''seconds'' (js_ofInt J (sint (at_seconds (md_creationTime md))))))
     (seqp (js_in J ''creationTime'' (js_put J ''microseconds'' (js_ofInt J (sint (at_microseconds (md_creationTime md))))))
     (seqp (js_in J ''from'' (Address_toObject U J (md_from md)))
     (js_put J ''routingName'' (js_ofString J (md_routingName md)))))))"

definition js_int :: "('j, 'z) json_api_scheme \<Rightarrow> 'j \<Rightarrow> string \<Rightarrow> exn + int" where
  "js_int J obj k = sbind (js_get J obj k) (js_asInt J)"

text \<open>Both parts of the time are read from the member \<open>seconds\<close>.\<close>

definition MetadataImpl_fromObject :: "'u uuid_api_scheme \<Rightarrow> ('j, 'z) json_api_scheme \<Rightarrow> 'j \<Rightarrow> (metadata, unit) proc" where
  "MetadataImpl_fromObject U J obj =
     bindp (liftr (js_string J obj ''instanceId'')) (\<lambda>s. seqp (upd (\<lambda>md. md\<lparr>md_instanceId := UUID_parse U s\<rparr>))
     (bindp (liftr (js_string J obj ''sourceId'')) (\<lambda>s. seqp (upd (\<lambda>md. md\<lparr>md_sourceId := UUID_parse U s\<rparr>))
     (bindp (liftr (sbind (js_get J obj ''creationTime'') (\<lambda>t. js_int J t ''seconds''))) (\<lambda>i.
        seqp (upd (\<lambda>md. md\<lparr>md_creationTime := (md_creationTime md)\<lparr>at_seconds := word_of_int i\<rparr>\<rparr>))
     (bindp (liftr (sbind (js_get J obj ''creationTime'') (\<lambda>t. js_int J t ''seconds''))) (\<lambda>i.
        seqp (upd (\<lambda>md. md\<lparr>md_creationTime := (md_creationTime md)\<lparr>at_microseconds := word_of_int i\<rparr>\<rparr>))
     (bindp (liftr (js_get J obj ''from'')) (\<lambda>f.
        seqp (zoom md_from (\<lambda>a md. md\<lparr>md_from := a\<rparr>) (Address_fromObject U J f))
     (bindp (liftr (js_string J obj ''routingName'')) (\<lambda>s. upd (\<lambda>md. md\<lparr>md_routingName := s\<rparr>))))))))))))"

lemma js_int_ofInt:
  "json_ok J \<Longrightarrow> js_get J obj k = Inr (js_ofInt J (sint (w :: 32 word))) \<Longrightarrow> js_int J obj k = Inr (sint w)"
  using sint_32_bounds [of w] by (simp add: js_int_def json_ok_def)

lemma js_null_isMap: "json_ok J \<Longrightarrow> js_isMap J (js_null J)"
  by (simp add: json_ok_def js_isMap_def js_isNull_def)

lemma js_get_null: "json_ok J \<Longrightarrow> js_get J (js_null J) k = Inr (js_null J)"
  by (simp add: json_ok_def)

text \<open>
  What \<open>fromObject\<close> makes of the object of \<open>toObject\<close>: everything but the microseconds, which become a
  copy of the seconds.
\<close>

lemma MetadataImpl_object:
  assumes "json_ok J" and "uuid_api_ok U"
  shows "\<exists>obj. MetadataImpl_toObject U J md (js_null J) = (Inr (), obj) \<and>
    MetadataImpl_fromObject U J obj md0 = (Inr (), md\<lparr>md_trace := md_trace md0,
      md_creationTime := \<lparr>at_seconds = at_seconds (md_creationTime md), at_microseconds = at_seconds (md_creationTime md)\<rparr>\<rparr>)"
proof -
  let ?s = "\<lambda>u. js_ofString J (UUID_toString U u)" and ?t = "md_creationTime md"
  note put = js_put_ok [OF assms(1)]
  obtain o1 where o1: "js_put J ''instanceId'' (?s (md_instanceId md)) (js_null J) = (Inr (), o1)" "js_isMap J o1"
      "js_get J o1 ''instanceId'' = Inr (?s (md_instanceId md))"
      "\<forall>k'. k' \<noteq> ''instanceId'' \<longrightarrow> js_get J o1 k' = Inr (js_null J)"
    using put [OF js_null_isMap] js_get_null assms(1) by metis
  obtain o2 where o2: "js_put J ''sourceId'' (?s (md_sourceId md)) o1 = (Inr (), o2)" "js_isMap J o2"
      "js_get J o2 ''sourceId'' = Inr (?s (md_sourceId md))" "\<forall>k'. k' \<noteq> ''sourceId'' \<longrightarrow> js_get J o2 k' = js_get J o1 k'"
    using put [OF o1(2)] by blast
  obtain t1 where t1: "js_put J ''seconds'' (js_ofInt J (sint (at_seconds ?t))) (js_null J) = (Inr (), t1)" "js_isMap J t1"
      "js_get J t1 ''seconds'' = Inr (js_ofInt J (sint (at_seconds ?t)))"
    using put [OF js_null_isMap] assms(1) by metis
  have n: "js_get J o2 ''creationTime'' = Inr (js_null J)" using o1(4) o2(4) by simp
  obtain o3 where o3: "js_in J ''creationTime'' (js_put J ''seconds'' (js_ofInt J (sint (at_seconds ?t)))) o2 = (Inr (), o3)"
      "js_isMap J o3" "js_get J o3 ''creationTime'' = Inr t1" "\<forall>k'. k' \<noteq> ''creationTime'' \<longrightarrow> js_get J o3 k' = js_get J o2 k'"
    using js_in_ok [OF assms(1) o2(2) n, where p = "js_put J _ _", OF t1(1)] by blast
  obtain t2 where t2: "js_put J ''microseconds'' (js_ofInt J (sint (at_microseconds ?t))) t1 = (Inr (), t2)"
      "\<forall>k'. k' \<noteq> ''microseconds'' \<longrightarrow> js_get J t2 k' = js_get J t1 k'"
    using put [OF t1(2)] by blast
  obtain o4 where o4: "js_in J ''creationTime'' (js_put J ''microseconds'' (js_ofInt J (sint (at_microseconds ?t)))) o3 = (Inr (), o4)"
      "js_isMap J o4" "js_get J o4 ''creationTime'' = Inr t2" "\<forall>k'. k' \<noteq> ''creationTime'' \<longrightarrow> js_get J o4 k' = js_get J o3 k'"
    using js_in_ok [OF assms(1) o3(2,3), where p = "js_put J _ _", OF t2(1)] by blast
  obtain fo where fo: "Address_toObject U J (md_from md) (js_null J) = (Inr (), fo)"
      "\<And>b. Address_fromObject U J fo b = (Inr (), md_from md)"
    using Address_toObject_ok [OF assms(1) js_null_isMap [OF assms(1)], of U "md_from md"] assms
    by (auto simp: Address_fromObject_def js_string_ofString)
  have n: "js_get J o4 ''from'' = Inr (js_null J)" using o1(4) o2(4) o3(4) o4(4) by simp
  obtain o5 where o5: "js_in J ''from'' (Address_toObject U J (md_from md)) o4 = (Inr (), o5)"
      "js_isMap J o5" "js_get J o5 ''from'' = Inr fo" "\<forall>k'. k' \<noteq> ''from'' \<longrightarrow> js_get J o5 k' = js_get J o4 k'"
    using js_in_ok [OF assms(1) o4(2) n, where p = "Address_toObject U J (md_from md)", OF fo(1)] by blast
  obtain o6 where o6: "js_put J ''routingName'' (js_ofString J (md_routingName md)) o5 = (Inr (), o6)"
      "js_get J o6 ''routingName'' = Inr (js_ofString J (md_routingName md))"
      "\<forall>k'. k' \<noteq> ''routingName'' \<longrightarrow> js_get J o6 k' = js_get J o5 k'"
    using put [OF o5(2)] by blast
  have to: "MetadataImpl_toObject U J md (js_null J) = (Inr (), o6)"
    using o1(1) o2(1) o3(1) o4(1) o5(1) o6(1) by (simp add: MetadataImpl_toObject_def)
  have gets: "js_get J o6 ''instanceId'' = Inr (?s (md_instanceId md))" "js_get J o6 ''sourceId'' = Inr (?s (md_sourceId md))"
      "js_get J o6 ''creationTime'' = Inr t2" "js_get J o6 ''from'' = Inr fo" "js_get J t2 ''seconds'' = Inr (js_ofInt J (sint (at_seconds ?t)))"
    using o1 o2 o3 o4 o5 o6 t1 t2 by simp_all
  then show ?thesis
    using to fo o6(2) assms
    by (simp add: MetadataImpl_fromObject_def js_string_ofString js_int_ofInt)
qed

subsection \<open>Properties\<close>

text \<open>
  An address stored in an object by \<open>toObject\<close> is read back by \<open>fromObject\<close>, whatever
  the object and the address that is overwritten held before. Premises: the documented behaviour of
  jsoncpp (\<open>json_ok\<close>) and of libuuid (the text of a UUID is parsed to that UUID), and a target that is
  an object or null.
\<close>

theorem address_object_roundtrip:
  assumes "json_ok J" and "uuid_api_ok U" and "js_isMap J obj"
  shows "\<exists>obj'. Address_toObject U J a obj = (Inr (), obj') \<and> Address_fromObject U J obj' b = (Inr (), a)"
  by (rule Address_object_roundtrip [OF assms])

definition sample_address :: address where
  "sample_address = \<lparr>ad_session = 7, ad_node = 0xab, ad_computation = 0x164a8601dbf742e5b4693ad1c58dbe83\<rparr>"

theorem address_object_roundtrip_witness:
  "\<exists>obj'. Address_toObject hex_uuid_api json_impl sample_address (JObject [(''node'', JInt 3)]) = (Inr (), obj') \<and>
     Address_fromObject hex_uuid_api json_impl obj' Address_null = (Inr (), sample_address)"
  by (rule address_object_roundtrip [OF json_impl_ok uuid_api_ok_hex]) (simp add: js_isMap_def json_impl_def)

text \<open>
  \<open>MetadataImpl::fromObject\<close> restores everything \<open>toObject\<close> stored except the microseconds
  of the creation time: they are read from the wrong member and become a copy of the seconds, so that
  metadata whose two time fields differ does not survive the round trip.
\<close>

theorem metadata_object_loses_microseconds:
  assumes "json_ok J" and "uuid_api_ok U"
  shows "\<exists>obj md'. MetadataImpl_toObject U J md (js_null J) = (Inr (), obj) \<and>
    MetadataImpl_fromObject U J obj md0 = (Inr (), md') \<and>
    md' = md\<lparr>md_trace := md_trace md0, md_creationTime := \<lparr>at_seconds = at_seconds (md_creationTime md),
      at_microseconds = at_seconds (md_creationTime md)\<rparr>\<rparr>"
  using MetadataImpl_object [OF assms] by blast

theorem metadata_object_loses_microseconds_witness:
  "\<exists>obj md'. MetadataImpl_toObject hex_uuid_api json_impl
      (MetadataImpl_new 1 2 \<lparr>at_seconds = 5, at_microseconds = 250000\<rparr>) JNull = (Inr (), obj) \<and>
    MetadataImpl_fromObject hex_uuid_api json_impl obj (MetadataImpl_new 0 0 ArrasTime_zero) = (Inr (), md') \<and>
    at_microseconds (md_creationTime md') = 5"
  using metadata_object_loses_microseconds [OF json_impl_ok uuid_api_ok_hex,
      of "MetadataImpl_new 1 2 \<lparr>at_seconds = 5, at_microseconds = 250000\<rparr>" "MetadataImpl_new 0 0 ArrasTime_zero"]
  by (force simp: json_impl_def MetadataImpl_new_def)

end
