(* ===== verification/Environments.thy ===== *)
theory Environments
  imports Json_Api
begin

text \<open>
  What a child process is started with (\<^verbatim>\<open>arras4_core_impl/lib/execute\<close>): \<open>Environment\<close>, \<open>SpawnArgs\<close>,
  the capture of its output (\<open>SimpleIoCapture\<close>) and the two contexts that wrap a command, \<open>ShellContext\<close>
  and \<open>RezContext\<close>; and the texts of \<^verbatim>\<open>ProcessExitCodes.cc\<close>.

  The operating system comes in as arguments: the strings of \<open>environ\<close>, a function for \<open>getenv\<close>, a
  predicate for \<open>access(_, X_OK)\<close>, the outcome of opening and of writing a file. Files are a map from
  paths to texts.
\<close>

subsection \<open>std::string::find\<close>

definition str_find :: "char \<Rightarrow> string \<Rightarrow> nat \<Rightarrow> nat option" where
  "str_find c s p =
     (let n = p + length (takeWhile (\<lambda>x. x \<noteq> c) (drop p s)) in if n < length s then Some n else None)"

lemma str_find_first:
  assumes "c \<notin> set k"
  shows "str_find c (before @ k @ c # s) (length before) = Some (length before + length k)"
proof -
  have "takeWhile (\<lambda>x. x \<noteq> c) (k @ c # s) = k" using assms by (subst takeWhile_append2) auto
  then show ?thesis by (simp add: str_find_def Let_def)
qed

lemma str_find_none:
  assumes "c \<notin> set s"
  shows "str_find c (before @ s) (length before) = None"
proof -
  have "takeWhile (\<lambda>x. x \<noteq> c) s = s" using assms by (auto simp: takeWhile_eq_all_conv)
  then have "length (takeWhile (\<lambda>x. x \<noteq> c) s) = length s" by (rule arg_cong)
  then show ?thesis by (simp add: str_find_def Let_def)
qed

lemma str_find_Some:
  assumes "str_find c s p = Some n"
  shows "p \<le> n" and "n < length s" and "s ! n = c" and "c \<notin> set (take (n - p) (drop p s))"
    and "drop p s = take (n - p) (drop p s) @ c # drop (n + 1) s"
proof -
  let ?w = "takeWhile (\<lambda>x. x \<noteq> c) (drop p s)"
  from assms have n: "n = p + length ?w" and lt: "n < length s"
    by (auto simp: str_find_def Let_def split: if_splits)
  show "p \<le> n" and "n < length s" using n lt by simp_all
  have len: "length ?w < length (drop p s)" using n lt by simp
  have "drop p s ! length ?w = c" using nth_length_takeWhile [OF len] by simp
  then show nth: "s ! n = c" using n lt by simp
  have w: "take (n - p) (drop p s) = ?w" using n by (simp add: takeWhile_eq_take [symmetric])
  then show "c \<notin> set (take (n - p) (drop p s))" by (auto dest: set_takeWhileD)
  have "drop p s = take (n - p) (drop p s) @ drop (n - p) (drop p s)" by (simp only: append_take_drop_id)
  also have "drop (n - p) (drop p s) = drop n s" using \<open>p \<le> n\<close> by simp
  also have "drop n s = c # drop (n + 1) s" using lt nth by (simp add: Cons_nth_drop_Suc [symmetric])
  finally show "drop p s = take (n - p) (drop p s) @ c # drop (n + 1) s" .
qed

lemma str_find_bounds: "str_find c s p = Some n \<Longrightarrow> p \<le> n \<and> n < length s"
  using str_find_Some(1,2) by blast

lemma str_find_None: "str_find c s p = None \<longleftrightarrow> c \<notin> set (drop p s)"
proof -
  let ?w = "takeWhile (\<lambda>x. x \<noteq> c) (drop p s)"
  have "str_find c s p = None \<longleftrightarrow> length s \<le> p + length ?w"
    by (simp add: str_find_def Let_def not_less)
  also have "\<dots> \<longleftrightarrow> length (drop p s) \<le> length ?w"
    by auto
  also have "\<dots> \<longleftrightarrow> ?w = drop p s"
    by (metis length_takeWhile_le le_antisym order_refl takeWhile_eq_take take_all)
  also have "\<dots> \<longleftrightarrow> c \<notin> set (drop p s)"
    by (auto simp: takeWhile_eq_all_conv)
  finally show ?thesis .
qed

lemma str_find_append: "c \<notin> set a \<Longrightarrow> str_find c (a @ c # b) 0 = Some (length a)"
proof -
  assume "c \<notin> set a"
  then have "takeWhile (\<lambda>x. x \<noteq> c) (a @ c # b) = a"
    by (induction a) auto
  then show ?thesis by (simp add: str_find_def)
qed

subsection \<open>Environment\<close>

type_synonym environment = "(string, string) stdmap"

definition Environment_has :: "string \<Rightarrow> environment \<Rightarrow> bool" where
  "Environment_has name e \<longleftrightarrow> map_of e name \<noteq> None"

definition Environment_get :: "string \<Rightarrow> string \<Rightarrow> environment \<Rightarrow> string" where
  "Environment_get name deflt e = (case map_of e name of None \<Rightarrow> deflt | Some v \<Rightarrow> v)"

definition Environment_set :: "string \<Rightarrow> string \<Rightarrow> bool \<Rightarrow> environment \<Rightarrow> environment" where
  "Environment_set name val override e =
     (if \<not> override \<and> Environment_has name e then e else map_set name val e)"

definition Environment_remove :: "string \<Rightarrow> environment \<Rightarrow> environment" where
  "Environment_remove name e = map_erase name e"

definition Environment_setString :: "string \<Rightarrow> environment \<Rightarrow> environment" where
  "Environment_setString s e =
     (case str_find CHR ''='' s 0 of
        None \<Rightarrow> e
      | Some p \<Rightarrow> Environment_set (take p s) (drop (p + 1) s) False e)"

definition Environment_setFrom :: "string list \<Rightarrow> environment \<Rightarrow> environment" where
  "Environment_setFrom v e = fold Environment_setString v e"

definition Environment_setFromObject :: "('j, 'z) json_api_scheme \<Rightarrow> 'j \<Rightarrow> (environment, unit) proc" where
  "Environment_setFromObject J obj =
     forp (js_members J obj) (\<lambda>(name, v). bindp (liftr (js_asString J v)) (\<lambda>s. upd (Environment_set name s True)))"

definition Environment_asVector :: "environment \<Rightarrow> string list" where
  "Environment_asVector e = map (\<lambda>(n, v). n @ ''='' @ v) e"

definition Environment_asObject :: "('j, 'z) json_api_scheme \<Rightarrow> environment \<Rightarrow> exn + 'j" where
  "Environment_asObject J e = fst (bindp (forp e (\<lambda>(n, v). js_put J n (js_ofString J v))) (\<lambda>_. gets id) (js_null J))"

definition Environment_merge :: "environment \<Rightarrow> bool \<Rightarrow> environment \<Rightarrow> environment" where
  "Environment_merge other override e = fold (\<lambda>(n, v). Environment_set n v override) other e"

text \<open>\<open>environ\<close> is the argument.\<close>

definition Environment_setFromCurrent :: "string list \<Rightarrow> environment \<Rightarrow> environment" where
  "Environment_setFromCurrent environ e = Environment_setFrom environ e"

definition Environment_mergeCurrent :: "string list \<Rightarrow> bool \<Rightarrow> environment \<Rightarrow> environment" where
  "Environment_mergeCurrent environ override e =
     Environment_merge (Environment_setFromCurrent environ []) override e"

lemma map_of_Environment_set [simp]:
  "map_of (Environment_set n v ov e) =
     (\<lambda>k. if k = n \<and> (ov \<or> map_of e n = None) then Some v else map_of e k)"
  by (auto simp: Environment_set_def Environment_has_def fun_eq_iff)

lemma map_wf_Environment_set: "map_wf e \<Longrightarrow> map_wf (Environment_set n v ov e)"
  by (simp add: Environment_set_def map_wf_map_set)

lemma map_wf_setString: "map_wf e \<Longrightarrow> map_wf (Environment_setString s e)"
  by (simp add: Environment_setString_def map_wf_Environment_set split: option.split)

lemma map_wf_setFrom: "map_wf e \<Longrightarrow> map_wf (Environment_setFrom v e)"
  by (induction v arbitrary: e) (simp_all add: Environment_setFrom_def map_wf_setString)

lemma map_wf_merge: "map_wf e \<Longrightarrow> map_wf (Environment_merge other ov e)"
  by (induction other arbitrary: e) (auto simp: Environment_merge_def map_wf_Environment_set)

text \<open>\<open>std::map\<close>s with the same entries are the same sorted list.\<close>

lemma map_wf_unique:
  assumes "map_wf a" and "map_wf b" and "map_of a = map_of b"
  shows "a = b"
  using assms
proof (induction a arbitrary: b)
  case Nil
  then show ?case by (metis map_of_eq_empty_iff)
next
  case (Cons x a)
  obtain k v where x: "x = (k, v)" by (cases x)
  obtain y b' where b: "b = y # b'"
    using Cons.prems(3) by (cases b) (auto simp: x fun_eq_iff split: if_splits)
  obtain k' v' where y: "y = (k', v')" by (cases y)
  have a_gt: "\<And>j w. (j, w) \<in> set a \<Longrightarrow> k < j" and b_gt: "\<And>j w. (j, w) \<in> set b' \<Longrightarrow> k' < j"
    using Cons.prems(1,2) by (force simp: x b y)+
  have k: "k = k'"
  proof (rule antisym)
    have "map_of b k = Some v" using fun_cong [OF Cons.prems(3), of k] x by simp
    then show "k' \<le> k" using b_gt by (fastforce simp: b y split: if_splits dest: map_of_SomeD)
    have "map_of (x # a) k' = Some v'" using fun_cong [OF Cons.prems(3), of k'] b y by simp
    then show "k \<le> k'" using a_gt by (fastforce simp: x split: if_splits dest: map_of_SomeD)
  qed
  have v: "v = v'" using fun_cong [OF Cons.prems(3), of k] by (simp add: x b y k)
  have "map_of a k = None" and "map_of b' k = None"
    using a_gt b_gt k by (fastforce simp: map_of_eq_None_iff)+
  then have "map_of a = map_of b'"
    using Cons.prems(3) by (auto simp: x b y k v fun_eq_iff split: if_splits) (metis)+
  with Cons.IH [of b'] Cons.prems(1,2) show ?case
    by (simp add: x b y k v)
qed

text \<open>The variable a string \<open>VAR=val\<close> defines; strings without an equals sign define none.\<close>

definition env_entry :: "string \<Rightarrow> (string \<times> string) option" where
  "env_entry s = map_option (\<lambda>p. (take p s, drop (p + 1) s)) (str_find CHR ''='' s 0)"

definition env_entries :: "string list \<Rightarrow> (string \<times> string) list" where
  "env_entries v = List.map_filter env_entry v"

lemma env_entries_simps [simp]:
  "env_entries [] = []"
  "env_entries (s # v) = (case env_entry s of None \<Rightarrow> env_entries v | Some e \<Rightarrow> e # env_entries v)"
  by (simp_all add: env_entries_def List.map_filter_simps split: option.split)

lemma setString_entry:
  "Environment_setString s e = (case env_entry s of None \<Rightarrow> e | Some (n, v) \<Rightarrow> Environment_set n v False e)"
  by (simp add: Environment_setString_def env_entry_def split: option.split)

lemma map_of_setFrom: "map_of (Environment_setFrom v e) = map_of (env_entries v) ++ map_of e"
proof (induction v arbitrary: e)
  case Nil
  then show ?case by (simp add: Environment_setFrom_def)
next
  case (Cons s v)
  have "Environment_setFrom (s # v) e = Environment_setFrom v (Environment_setString s e)"
    by (simp add: Environment_setFrom_def)
  then show ?case
    by (auto simp: Cons.IH setString_entry fun_eq_iff map_add_def split: option.splits)
qed

lemma env_entry_print: "CHR ''='' \<notin> set n \<Longrightarrow> env_entry (n @ ''='' @ v) = Some (n, v)"
  by (simp add: env_entry_def str_find_append)

definition env_ok :: "environment \<Rightarrow> bool" where
  "env_ok e \<longleftrightarrow> map_wf e \<and> (\<forall>n \<in> set (map fst e). CHR ''='' \<notin> set n)"

lemma env_entries_asVector: "(\<forall>n \<in> set (map fst e). CHR ''='' \<notin> set n) \<Longrightarrow> env_entries (Environment_asVector e) = e"
proof (induction e)
  case Nil
  then show ?case by (simp add: Environment_asVector_def)
next
  case (Cons x e)
  then show ?case
    using env_entry_print [of "fst x" "snd x"] by (cases x) (simp add: Environment_asVector_def)
qed

lemma map_of_merge:
  assumes "map_wf other"
  shows "map_of (Environment_merge other ov e) = (if ov then map_of e ++ map_of other else map_of other ++ map_of e)"
  using map_wf_distinct [OF assms]
proof (induction other arbitrary: e)
  case Nil
  then show ?case by (simp add: Environment_merge_def)
next
  case (Cons x other)
  obtain n v where x: "x = (n, v)" by (cases x)
  have step: "Environment_merge (x # other) ov e = Environment_merge other ov (Environment_set n v ov e)"
    by (simp add: Environment_merge_def x)
  have new: "map_of other n = None"
    using Cons.prems by (simp add: x map_of_eq_None_iff)
  have "map_of (Environment_merge (x # other) ov e) =
      (if ov then map_of (Environment_set n v ov e) ++ map_of other else map_of other ++ map_of (Environment_set n v ov e))"
    unfolding step by (rule Cons.IH) (use Cons.prems in \<open>simp add: x\<close>)
  then show ?case
    using new by (auto simp: x fun_eq_iff map_add_def split: option.splits)
qed

subsection \<open>SpawnArgs\<close>

text \<open>Of the capture object and the observer only whether the pointers are set matters here.\<close>

record spawn_args =
  sa_program :: string
  sa_args :: "string list"
  sa_environment :: environment
  sa_workingDirectory :: string
  sa_cleanupProcessGroup :: bool
  sa_ioCapture :: bool
  sa_observer :: bool
  sa_enforceMemory :: bool
  sa_enforceCores :: bool
  sa_assignedMb :: u32
  sa_assignedCores :: u32

definition SpawnArgs_new :: spawn_args where
  "SpawnArgs_new =
     \<lparr>sa_program = [], sa_args = [], sa_environment = [], sa_workingDirectory = [], sa_cleanupProcessGroup = False,
      sa_ioCapture = False, sa_observer = False, sa_enforceMemory = False, sa_enforceCores = False,
      sa_assignedMb = 0, sa_assignedCores = 0\<rparr>"

text \<open>The result of \<open>getcwd\<close> is the argument.\<close>

definition SpawnArgs_setCurrentWorkingDirectory :: "string option \<Rightarrow> spawn_args \<Rightarrow> spawn_args" where
  "SpawnArgs_setCurrentWorkingDirectory cwd sa =
     (case cwd of None \<Rightarrow> sa | Some d \<Rightarrow> sa\<lparr>sa_workingDirectory := d\<rparr>)"

definition in_quotes :: "string \<Rightarrow> string" where
  "in_quotes s = [CHR 0x27] @ s @ [CHR 0x27]"

fun debug_env :: "nat \<Rightarrow> nat \<Rightarrow> environment \<Rightarrow> string" where
  "debug_env maxv i [] = []"
| "debug_env maxv i ((n, v) # m) =
     '' '' @ n @ ''='' @ v @ '';'' @ (if maxv \<le> i then ''...'' else debug_env maxv (i + 1) m)"

definition SpawnArgs_debugString :: "nat \<Rightarrow> bool \<Rightarrow> spawn_args \<Rightarrow> string" where
  "SpawnArgs_debugString maxv options sa =
     sa_program sa @ concat (map (\<lambda>a. '' '' @ in_quotes a) (sa_args sa)) @
     (if 0 < maxv then [char_of (10 :: nat)] @ ''['' @ debug_env maxv 0 (sa_environment sa) @ '']'' else []) @
     (if options then
        [char_of (10 :: nat)] @ ''('' @
        (if sa_workingDirectory sa \<noteq> [] then '' cwd='' @ in_quotes (sa_workingDirectory sa) @ '';'' else []) @
        (if sa_cleanupProcessGroup sa then '' cleanupPG;'' else []) @
        (if sa_ioCapture sa then '' ioCapture;'' else []) @
        '' Mb='' @ show_nat (unat (sa_assignedMb sa)) @ (if sa_enforceMemory sa then ''(enforced)'' else []) @
        '' Cores='' @ show_nat (unat (sa_assignedCores sa)) @ (if sa_enforceCores sa then ''(enforced)'' else []) @
        '')''
      else [])"

text \<open>
  The loop of \<open>findProgramInPath\<close>. \<open>npos\<close>, the answer of \<open>find\<close> at the last entry, is greater than every
  position, so the last entry is tried even when it is empty.
\<close>

function find_program_loop :: "(string \<Rightarrow> bool) \<Rightarrow> string \<Rightarrow> string \<Rightarrow> nat \<Rightarrow> string option" where
  "find_program_loop accessible plist name p =
     (case str_find CHR '':'' plist p of
        None \<Rightarrow> (let path = drop p plist @ ''/'' @ name in if accessible path then Some path else None)
      | Some n \<Rightarrow>
          (let path = take (n - p) (drop p plist) @ ''/'' @ name
           in if p < n \<and> accessible path then Some path
              else find_program_loop accessible plist name (n + 1)))"
  by pat_completeness auto
termination
  by (relation "measure (\<lambda>(accessible, plist, name, p). length plist - p)") (auto dest!: str_find_bounds)

declare find_program_loop.simps [simp del]

definition SpawnArgs_findProgramInPath :: "(string \<Rightarrow> bool) \<Rightarrow> string \<Rightarrow> spawn_args \<Rightarrow> bool \<times> spawn_args" where
  "SpawnArgs_findProgramInPath accessible name sa =
     (let plist = Environment_get ''PATH'' [] (sa_environment sa)
      in if plist = [] then (False, sa)
         else case find_program_loop accessible plist name 0 of
                None \<Rightarrow> (False, sa)
              | Some path \<Rightarrow> (True, sa\<lparr>sa_program := path\<rparr>))"

subsection \<open>SimpleIoCapture\<close>

record io_capture =
  ic_out :: string
  ic_err :: string

definition SimpleIoCapture_clear :: "io_capture \<Rightarrow> io_capture" where
  "SimpleIoCapture_clear c = c\<lparr>ic_out := [], ic_err := []\<rparr>"

definition SimpleIoCapture_onStdout :: "string \<Rightarrow> io_capture \<Rightarrow> io_capture" where
  "SimpleIoCapture_onStdout buf c = c\<lparr>ic_out := ic_out c @ buf\<rparr>"

definition SimpleIoCapture_onStderr :: "string \<Rightarrow> io_capture \<Rightarrow> io_capture" where
  "SimpleIoCapture_onStderr buf c = c\<lparr>ic_err := ic_err c @ buf\<rparr>"

subsection \<open>Exit codes\<close>

definition exitCodeString :: "int \<Rightarrow> bool \<Rightarrow> string" where
  "exitCodeString ec expected =
     (if ec = 0 then (if expected then ''exited normally'' else ''exited unexpectedly with code 0'')
      else if ec = 1 then ''exited due to an invalid commandline''
      else if ec = 2 then ''failed to load the configuration file''
      else if ec = 9 then ''exited due to an invalid configuration data''
      else if ec = 8 then ''failed to initialize properly''
      else if ec = 6 then ''failed to load the computation dso''
      else if ec = 7 then ''timed out waiting for a '' @ in_quotes ''go'' @ '' signal''
      else if ec = 13 then ''threw an exception (see log for details)''
      else if ec = 5 then ''failed to start the program (error in execv())''
      else if ec = 20 then ''was disconnected''
      else if ec = 21 then ''exited due to a computation or message problem''
      else if ec = 14 then ''exited due to an unspecified error''
      else ''exited with code '' @ show_int ec)"

subsection \<open>Files\<close>

type_synonym files = "string \<Rightarrow> string option"

text \<open>Writing a text to a file with an \<open>ofstream\<close>: it cannot be opened, or writing fails and leaves some text in
  it, or the file holds the text.\<close>

datatype write_outcome = CannotOpen | CannotWrite string | Written

definition write_file :: "write_outcome \<Rightarrow> string \<Rightarrow> string \<Rightarrow> string \<Rightarrow> files \<Rightarrow> string option \<times> files" where
  "write_file oc what path text fs =
     (case oc of
        CannotOpen \<Rightarrow> (Some (''failed to open file '' @ path @ '' for writing''), fs)
      | CannotWrite t \<Rightarrow> (Some (''failure writing '' @ what @ '' file '' @ path), fs(path \<mapsto> t))
      | Written \<Rightarrow> (None, fs(path \<mapsto> text)))"

subsection \<open>ShellContext\<close>

record shell_context =
  sh_pseudoCompiler :: string
  sh_sessionId :: uuid
  sh_scriptFilePath :: string

text \<open>
  \<open>UUID::generate\<close> is a static function that returns a new identifier. The statements
  \<^verbatim>\<open>mSessionId.generate()\<close> and \<^verbatim>\<open>id.generate()\<close> discard it, so they change nothing.
\<close>

definition ShellContext_new :: "string \<Rightarrow> uuid \<Rightarrow> shell_context" where
  "ShellContext_new pseudoCompiler sessionId =
     \<lparr>sh_pseudoCompiler = pseudoCompiler, sh_sessionId = sessionId, sh_scriptFilePath = []\<rparr>"

definition ShellContext_setScript ::
  "'u uuid_api_scheme \<Rightarrow> write_outcome \<Rightarrow> string \<Rightarrow> shell_context \<times> files \<Rightarrow> string option \<times> shell_context \<times> files" where
  "ShellContext_setScript U oc script s =
     (case s of (sh, fs) \<Rightarrow>
        (let path = ''/tmp/generated_script_'' @ UUID_toString U UUID_null;
             (err, fs') = write_file oc ''script'' path script fs
         in (err, sh\<lparr>sh_scriptFilePath := path\<rparr>, fs')))"

definition command_line :: "string \<Rightarrow> string list \<Rightarrow> string" where
  "command_line program args = program @ concat (map (\<lambda>a. '' '' @ a) args)"

definition source_command :: "string \<Rightarrow> string \<Rightarrow> string" where
  "source_command path cmd = ''source '' @ path @ '' && '' @ cmd"

definition ShellContext_wrap :: "shell_context \<Rightarrow> spawn_args \<Rightarrow> spawn_args" where
  "ShellContext_wrap sh sa =
     (let program = sa_program sa @ (if sh_pseudoCompiler sh \<noteq> [] then ''-'' @ sh_pseudoCompiler sh else []);
          cmdstr = command_line program (sa_args sa)
      in sa\<lparr>sa_program := ''/bin/bash'', sa_args := [''-c'', source_command (sh_scriptFilePath sh) cmdstr]\<rparr>)"

subsection \<open>RezContext\<close>

record rez_context =
  rz_name :: string
  rz_id :: uuid
  rz_sessionId :: uuid
  rz_majorVersion :: u32
  rz_version :: string
  rz_packagesPath :: string
  rz_rezDir :: string
  rz_binDir :: string
  rz_pseudoCompiler :: string
  rz_ioCapture :: io_capture
  rz_contextFilePath :: string

definition DEFAULT_PSEUDO_COMPILER :: string where
  "DEFAULT_PSEUDO_COMPILER = ''icc150_64''"

definition REQ_VERSION_1 :: string where
  "REQ_VERSION_1 = ''1.7.0''"

definition REQ_PACKAGES_PATH_1 :: string where
  "REQ_PACKAGES_PATH_1 = ''/rel/packages:/rel/lang/python/packages''"

definition REQ_PACKAGES_PATH_2 :: string where
  "REQ_PACKAGES_PATH_2 = ''/rel/rez/dwa:/rel/rez/third_party:/rel/lang/python/packages''"

definition BASE_PATH :: string where
  "BASE_PATH = ''/bin:/usr/bin:/usr/local/bin''"

text \<open>As in \<open>ShellContext\<close>, \<^verbatim>\<open>mId.generate()\<close> leaves a null \<open>mId\<close> null.\<close>

definition RezContext_new ::
  "(string \<Rightarrow> string option) \<Rightarrow> string \<Rightarrow> u32 \<Rightarrow> string \<Rightarrow> bool \<Rightarrow> string \<Rightarrow> uuid \<Rightarrow> uuid \<Rightarrow> exn + rez_context" where
  "RezContext_new getenv name majorVersion packagesPathPrefix omitDefaultPackagePath pseudoCompiler i sid =
     (let path = packagesPathPrefix @ (if \<not> omitDefaultPackagePath \<and> packagesPathPrefix \<noteq> [] then '':'' else []);
          rz = \<lparr>rz_name = name, rz_id = i, rz_sessionId = (if UUID_isNull sid then i else sid),
                rz_majorVersion = majorVersion, rz_version = [], rz_packagesPath = path, rz_rezDir = [], rz_binDir = [],
                rz_pseudoCompiler = pseudoCompiler, rz_ioCapture = \<lparr>ic_out = [], ic_err = []\<rparr>, rz_contextFilePath = []\<rparr>
      in if majorVersion = 1 then
           (let dir = ''/rel/third_party/rez/'' @ REQ_VERSION_1
            in Inr (rz\<lparr>rz_version := REQ_VERSION_1,
                 rz_packagesPath := path @ (if omitDefaultPackagePath then [] else REQ_PACKAGES_PATH_1),
                 rz_rezDir := dir, rz_binDir := dir @ ''/bin/''\<rparr>))
         else if majorVersion = 2 then
           (case getenv ''REZ2_DEFAULT_VERSION'' of
              Some v \<Rightarrow>
                (let dir = ''/rel/third_party/rez/'' @ v
                 in Inr (rz\<lparr>rz_version := v,
                      rz_packagesPath := path @ (if omitDefaultPackagePath then [] else REQ_PACKAGES_PATH_2),
                      rz_rezDir := dir, rz_binDir := dir @ ''/bin/rez/''\<rparr>))
            | None \<Rightarrow> Inl (StdException ''Environment variable REZ2_DEFAULT_VERSION is not set''))
         else Inl (StdException (''Unsupported major rez version: '' @ show_nat (unat majorVersion))))"

definition RezContext_getRezEnvironment :: "(string \<Rightarrow> string option) \<Rightarrow> rez_context \<Rightarrow> environment \<Rightarrow> environment" where
  "RezContext_getRezEnvironment getenv rz e =
     (let e = fold (\<lambda>(n, v). Environment_set n v True)
        [(''REZ_VERSION'', rz_version rz), (''REZ_LOCK_PACKAGES_PATH'', ''1''), (''REZ_KEEP_TMPDIRS'', ''1''),
         (''REZ_PACKAGES_PATH'', rz_packagesPath rz), (''REZ_LOCAL_PACKAGES_PATH'', []), (''REZ_PLATFORM'', ''Linux''),
         (''REZ_PATH'', rz_rezDir rz), (''PATH'', rz_binDir rz @ '':./:'' @ BASE_PATH)] e
      in if rz_majorVersion rz = 2 then
           Environment_set ''REZ_CONFIG_FILE'' (''/rel/boot/rez/config/'' @ rz_version rz @ ''/config_pipex.py'') True
             (case getenv ''OS_RELEASE'' of Some r \<Rightarrow> Environment_set ''OS_RELEASE'' r True e | None \<Rightarrow> e)
         else e)"

definition uses_pseudo_compiler :: "rez_context \<Rightarrow> bool" where
  "uses_pseudo_compiler rz \<longleftrightarrow>
     rz_majorVersion rz = 1 \<and> rz_pseudoCompiler rz \<noteq> [] \<and> rz_pseudoCompiler rz \<noteq> DEFAULT_PSEUDO_COMPILER"

definition RezContext_getBashEnvironment :: "rez_context \<Rightarrow> environment \<Rightarrow> environment" where
  "RezContext_getBashEnvironment rz e =
     (if uses_pseudo_compiler rz then Environment_set ''PSEUDO_NAME'' (rz_pseudoCompiler rz) True e else e)"

definition RezContext_wrap :: "(string \<Rightarrow> string option) \<Rightarrow> rez_context \<Rightarrow> spawn_args \<Rightarrow> spawn_args" where
  "RezContext_wrap getenv rz sa =
     (let program = sa_program sa @ (if uses_pseudo_compiler rz then ''-'' @ rz_pseudoCompiler rz else []);
          cmdstr = command_line program (sa_args sa);
          env = RezContext_getRezEnvironment getenv rz (sa_environment sa)
      in if rz_majorVersion rz = 1 then
           sa\<lparr>sa_program := ''/bin/bash'', sa_args := [''-c'', source_command (rz_contextFilePath rz) cmdstr],
              sa_environment := RezContext_getBashEnvironment rz env\<rparr>
         else
           sa\<lparr>sa_program := rz_binDir rz @ ''rez-env'',
              sa_args := [''--input'', rz_contextFilePath rz, ''-c'', cmdstr], sa_environment := env\<rparr>)"

definition RezContext_setContext ::
  "'u uuid_api_scheme \<Rightarrow> write_outcome \<Rightarrow> string \<Rightarrow> rez_context \<times> files \<Rightarrow> string option \<times> rez_context \<times> files" where
  "RezContext_setContext U oc context s =
     (case s of (rz, fs) \<Rightarrow>
        (let path = ''/tmp/generated_rezCtxt_'' @ rz_name rz @ ''-'' @ UUID_toString U (rz_id rz);
             (err, fs') = write_file oc ''context'' path context fs
         in (err, rz\<lparr>rz_contextFilePath := path\<rparr>, fs')))"

definition RezContext_setContextFile :: "string \<Rightarrow> rez_context \<Rightarrow> rez_context" where
  "RezContext_setContextFile filepath rz = rz\<lparr>rz_contextFilePath := filepath\<rparr>"

text \<open>Extraction with \<^verbatim>\<open>>>\<close>: the pieces between white space.\<close>

definition is_space :: "char \<Rightarrow> bool" where
  "is_space c \<longleftrightarrow> c = CHR '' '' \<or> (9 \<le> (of_char c :: nat) \<and> (of_char c :: nat) \<le> 13)"

function split_words :: "string \<Rightarrow> string list" where
  "split_words s =
     (let t = dropWhile is_space s
      in if t = [] then [] else takeWhile (\<lambda>c. \<not> is_space c) t # split_words (dropWhile (\<lambda>c. \<not> is_space c) t))"
  by pat_completeness auto
termination
proof (relation "measure length")
  fix s :: string and t
  assume t: "t = dropWhile is_space s" and ne: "t \<noteq> []"
  from ne obtain c r where cr: "t = c # r" by (cases t) auto
  have "\<not> is_space c" using t cr by (metis dropWhile_eq_Cons_conv)
  then have "length (dropWhile (\<lambda>c. \<not> is_space c) t) < length t"
    by (simp add: cr le_imp_less_Suc length_dropWhile_le)
  also have "\<dots> \<le> length s" by (simp add: t length_dropWhile_le)
  finally show "(dropWhile (\<lambda>c. \<not> is_space c) t, s) \<in> measure length" by simp
qed simp

declare split_words.simps [simp del]

text \<open>The arguments of the process that resolves a list of packages.\<close>

definition RezContext_resolveArgs :: "(string \<Rightarrow> string option) \<Rightarrow> rez_context \<Rightarrow> string \<Rightarrow> spawn_args" where
  "RezContext_resolveArgs getenv rz packages =
     SpawnArgs_new
       \<lparr>sa_program := rz_binDir rz @ (if rz_majorVersion rz = 1 then ''rez-config'' else ''rez-env''),
        sa_args := split_words packages @ (if rz_majorVersion rz = 1 then [''--print-env''] else [''--output'', ''-'']),
        sa_environment := RezContext_getRezEnvironment getenv rz [],
        sa_ioCapture := True\<rparr>"

text \<open>
  The process itself comes in as \<open>run\<close>: whether it could be spawned with these arguments and, if so, its
  exit status (none after the timeout) and what has been captured from its two outputs. The value is the
  error text, if any; the flag tells success.
\<close>

definition RezContext_doPackageResolve ::
  "(string \<Rightarrow> string option) \<Rightarrow> (spawn_args \<Rightarrow> (int option \<times> string \<times> string) option) \<Rightarrow> string \<Rightarrow> rez_context \<Rightarrow>
     (bool \<times> string option) \<times> rez_context" where
  "RezContext_doPackageResolve getenv run packages rz =
     (let rz = rz\<lparr>rz_ioCapture := SimpleIoCapture_clear (rz_ioCapture rz)\<rparr>
      in case run (RezContext_resolveArgs getenv rz packages) of
           None \<Rightarrow> ((False, None), rz)
         | Some (status, out, err) \<Rightarrow>
             (let rz = rz\<lparr>rz_ioCapture := SimpleIoCapture_onStderr err (SimpleIoCapture_onStdout out (rz_ioCapture rz))\<rparr>;
                  allErrors =
                    (case status of
                       None \<Rightarrow> '' : process timed out''
                     | Some st \<Rightarrow>
                         (if st \<noteq> 0 then '' : error code '' @ show_int st else []) @
                         (if ic_out (rz_ioCapture rz) = [] then '' : no output context was  produced'' else []))
              in if allErrors = [] then ((True, None), rz)
                 else ((False, Some (allErrors @
                   (if ic_err (rz_ioCapture rz) \<noteq> [] then '' : error output ['' @ ic_err (rz_ioCapture rz) @ '']'' else []))), rz)))"

definition RezContext_resolvePackages ::
  "(string \<Rightarrow> string option) \<Rightarrow> (spawn_args \<Rightarrow> (int option \<times> string \<times> string) option) \<Rightarrow> string \<Rightarrow> rez_context \<Rightarrow>
     (string \<times> string option) \<times> rez_context" where
  "RezContext_resolvePackages getenv run packages rz =
     (case RezContext_doPackageResolve getenv run packages rz of
        ((ok, err), rz') \<Rightarrow> ((if ok then ic_out (rz_ioCapture rz') else [], err), rz'))"

definition RezContext_setPackages ::
  "'u uuid_api_scheme \<Rightarrow> (string \<Rightarrow> string option) \<Rightarrow> (spawn_args \<Rightarrow> (int option \<times> string \<times> string) option) \<Rightarrow> write_outcome \<Rightarrow>
     string \<Rightarrow> rez_context \<times> files \<Rightarrow> (bool \<times> string option) \<times> rez_context \<times> files" where
  "RezContext_setPackages U getenv run oc packages s =
     (case s of (rz, fs) \<Rightarrow>
        (case RezContext_doPackageResolve getenv run packages rz of
           ((False, err), rz') \<Rightarrow> ((False, err), rz', fs)
         | ((True, _), rz') \<Rightarrow>
             (case RezContext_setContext U oc (ic_out (rz_ioCapture rz')) (rz', fs) of
                (err, s') \<Rightarrow> ((err = None, err), s'))))"

subsection \<open>Properties\<close>

text \<open>Splitting a text at a character.\<close>

fun split_on :: "'a \<Rightarrow> 'a list \<Rightarrow> 'a list list" where
  "split_on c [] = [[]]"
| "split_on c (x # xs) =
     (if x = c then [] # split_on c xs
      else case split_on c xs of [] \<Rightarrow> [[x]] | w # ws \<Rightarrow> (x # w) # ws)"

lemma split_on_not_Nil [simp]: "split_on c xs \<noteq> []"
  by (cases xs) (auto split: list.split)

lemma split_on_none: "c \<notin> set xs \<Longrightarrow> split_on c xs = [xs]"
  by (induction xs) auto

lemma split_on_append: "c \<notin> set a \<Longrightarrow> split_on c (a @ c # b) = a # split_on c b"
  by (induction a) auto

text \<open>
  The directories \<open>findProgramInPath\<close> looks into: the entries of the list that are not empty, and the
  last entry in any case.
\<close>

definition path_entries :: "string \<Rightarrow> string list" where
  "path_entries plist =
     (let ws = split_on CHR '':'' plist in filter (\<lambda>w. w \<noteq> []) (butlast ws) @ [last ws])"

definition candidates :: "string \<Rightarrow> string \<Rightarrow> string list" where
  "candidates name plist = map (\<lambda>d. d @ ''/'' @ name) (path_entries plist)"

lemma candidates_last: "CHR '':'' \<notin> set w \<Longrightarrow> candidates name w = [w @ ''/'' @ name]"
  by (simp add: candidates_def path_entries_def split_on_none)

lemma candidates_step:
  "CHR '':'' \<notin> set w \<Longrightarrow> candidates name (w @ CHR '':'' # r) = (if w = [] then [] else [w @ ''/'' @ name]) @ candidates name r"
  by (simp add: candidates_def path_entries_def split_on_append Let_def)

lemma find_program_loop_eq:
  "find_program_loop acc plist name p = find acc (candidates name (drop p plist))"
proof (induction acc plist name p rule: find_program_loop.induct)
  case (1 acc plist name p)
  show ?case
  proof (cases "str_find CHR '':'' plist p")
    case None
    then have "CHR '':'' \<notin> set (drop p plist)" by (simp add: str_find_None)
    with None show ?thesis
      by (subst find_program_loop.simps) (simp add: candidates_last Let_def)
  next
    case (Some n)
    let ?w = "take (n - p) (drop p plist)"
    note f = str_find_Some [OF Some]
    have step: "candidates name (drop p plist) =
        (if ?w = [] then [] else [?w @ ''/'' @ name]) @ candidates name (drop (n + 1) plist)"
      using candidates_step [OF f(4), of name "drop (n + 1) plist"] f(5) by simp
    have w: "?w = [] \<longleftrightarrow> \<not> p < n" using f(1,2) by auto
    show ?thesis
    proof (cases "p < n \<and> acc (?w @ ''/'' @ name)")
      case True
      with w show ?thesis
        by (subst find_program_loop.simps) (simp add: Some step Let_def)
    next
      case False
      have "find_program_loop acc plist name p = find_program_loop acc plist name (n + 1)"
        using False by (subst find_program_loop.simps) (auto simp: Some Let_def)
      also have "\<dots> = find acc (candidates name (drop (n + 1) plist))"
        by (rule 1 [OF Some refl]) (use False in simp)
      also have "\<dots> = find acc (candidates name (drop p plist))"
        using False w by (auto simp: step)
      finally show ?thesis .
    qed
  qed
qed

text \<open>
  C23 (equivalence). \<open>findProgramInPath\<close> searches the entries of PATH in order and sets the program to the first
  file the process may execute; without one, nothing changes. The entries are those that are not empty,
  and the last one even when it is empty: a PATH that ends in a colon makes it look in the root directory,
  where a shell would look in the current one.
\<close>

theorem findProgramInPath_searches_path:
  "SpawnArgs_findProgramInPath acc name sa =
     (let plist = Environment_get ''PATH'' [] (sa_environment sa)
      in case find acc (if plist = [] then [] else candidates name plist) of
           None \<Rightarrow> (False, sa)
         | Some path \<Rightarrow> (True, sa\<lparr>sa_program := path\<rparr>))"
  by (simp add: SpawnArgs_findProgramInPath_def find_program_loop_eq Let_def)

lemma empty_last_entry:
  "candidates name ''/bin:'' = [''/bin/'' @ name, ''/'' @ name]"
  by (simp add: candidates_def path_entries_def)

text \<open>
  The strings \<open>asVector\<close> gives to \<open>execvpe\<close> define the same environment again, whatever the
  values contain, provided no name contains an equals sign.
\<close>

theorem environment_vector_roundtrip:
  assumes "env_ok e"
  shows "Environment_setFrom (Environment_asVector e) [] = e"
proof (rule map_wf_unique)
  show "map_wf (Environment_setFrom (Environment_asVector e) [])"
    by (simp add: map_wf_setFrom)
  show "map_wf e" using assms by (simp add: env_ok_def)
  show "map_of (Environment_setFrom (Environment_asVector e) []) = map_of e"
    using assms by (simp add: map_of_setFrom env_entries_asVector env_ok_def)
qed

definition sample_environment :: environment where
  "sample_environment = [(''HOME'', ''/root''), (''OPTS'', ''a=1,b=2''), (''PATH'', ''/usr/bin:'')]"

lemma sample_environment_ok: "env_ok sample_environment"
  by (simp add: env_ok_def sample_environment_def)

theorem environment_vector_roundtrip_witness:
  "Environment_setFrom [''HOME=/root'', ''OPTS=a=1,b=2'', ''PATH=/usr/bin:''] [] = sample_environment"
  using environment_vector_roundtrip [OF sample_environment_ok]
  by (simp add: Environment_asVector_def sample_environment_def)

text \<open>
  \<open>merge\<close>: a variable both environments define keeps its value, or gets that of the other one
  when \<open>override\<close> is set; variables of only one are kept; the result is again an ordered map.
\<close>

theorem environment_merge:
  assumes "map_wf other" and "map_wf e"
  shows "map_wf (Environment_merge other ov e) \<and>
    map_of (Environment_merge other ov e) = (if ov then map_of e ++ map_of other else map_of other ++ map_of e)"
  using assms map_wf_merge map_of_merge by blast

theorem environment_merge_witness:
  "map_wf (Environment_merge sample_environment False [(''HOME'', ''/home'')]) \<and>
   Environment_get ''HOME'' [] (Environment_merge sample_environment False [(''HOME'', ''/home'')]) = ''/home''"
  using environment_merge [of sample_environment "[(''HOME'', ''/home'')]" False] sample_environment_ok
  by (simp add: env_ok_def Environment_get_def sample_environment_def)

text \<open>
  Every shell context writes its script to the same file, because the identifier that should make
  the name unique is never generated: after a second context has set its script, the command the first
  one wraps sources the script of the second.
\<close>

theorem shell_contexts_share_script:
  assumes "ShellContext_setScript U Written s1 (sh1, fs) = (e1, sh1', fs1)"
    and "ShellContext_setScript U Written s2 (sh2, fs1) = (e2, sh2', fs2)"
  shows "e1 = None \<and> e2 = None \<and> fs2 (sh_scriptFilePath sh1') = Some s2 \<and>
    sa_args (ShellContext_wrap sh1' sa) =
      [''-c'', source_command (sh_scriptFilePath sh2')
         (command_line (sa_program sa @ (if sh_pseudoCompiler sh1 \<noteq> [] then ''-'' @ sh_pseudoCompiler sh1 else [])) (sa_args sa))]"
  using assms by (auto simp: ShellContext_setScript_def write_file_def ShellContext_wrap_def Let_def)

theorem shell_contexts_share_script_witness:
  "(let (e1, sh1, fs1) = ShellContext_setScript hex_uuid_api Written ''setup one'' (ShellContext_new [] 1, \<lambda>_. None);
        (e2, sh2, fs2) = ShellContext_setScript hex_uuid_api Written ''setup two'' (ShellContext_new [] 2, fs1)
    in fs2 (sh_scriptFilePath sh1) = Some ''setup two'')"
proof -
  obtain e1 sh1 fs1 where 1: "ShellContext_setScript hex_uuid_api Written ''setup one''
      (ShellContext_new [] 1, \<lambda>_. None) = (e1, sh1, fs1)"
    by (rule prod_cases3)
  obtain e2 sh2 fs2 where 2: "ShellContext_setScript hex_uuid_api Written ''setup two'' (ShellContext_new [] 2, fs1) =
      (e2, sh2, fs2)"
    by (rule prod_cases3)
  show ?thesis
    using shell_contexts_share_script [OF 1 2] by (simp add: 1 2)
qed

text \<open>The same holds of two rez contexts of the same name that are given no identifier.\<close>

lemma rez_contexts_share_context:
  assumes "rz_name rz1 = rz_name rz2" and "rz_id rz1 = UUID_null" and "rz_id rz2 = UUID_null"
    and "RezContext_setContext U Written c1 (rz1, fs) = (e1, rz1', fs1)"
    and "RezContext_setContext U Written c2 (rz2, fs1) = (e2, rz2', fs2)"
  shows "fs2 (rz_contextFilePath rz1') = Some c2"
  using assms by (auto simp: RezContext_setContext_def write_file_def Let_def)

lemma rez_context_keeps_null_id:
  "RezContext_new getenv name mv prefix om pc UUID_null sid = Inr rz \<Longrightarrow> rz_id rz = UUID_null"
  by (auto simp: RezContext_new_def Let_def split: if_splits option.splits)

text \<open>
  The contexts join program and arguments with blanks and quote nothing, so an argument that
  contains a blank reaches the program as two.
\<close>

theorem wrapped_arguments_unquoted:
  "ShellContext_wrap sh (sa\<lparr>sa_args := as @ [a @ '' '' @ b] @ bs\<rparr>) = ShellContext_wrap sh (sa\<lparr>sa_args := as @ [a, b] @ bs\<rparr>)
   \<and> RezContext_wrap getenv rz (sa\<lparr>sa_args := as @ [a @ '' '' @ b] @ bs\<rparr>) =
     RezContext_wrap getenv rz (sa\<lparr>sa_args := as @ [a, b] @ bs\<rparr>)"
  by (simp add: ShellContext_wrap_def RezContext_wrap_def command_line_def Let_def)

text \<open>
  The variables \<open>debugString\<close> prints: one more than it is asked for, and dots after the last one even when
  there are no others.
\<close>

lemma debug_env_prints:
  "i \<le> maxv \<Longrightarrow> debug_env maxv i e =
     concat (map (\<lambda>(n, v). '' '' @ n @ ''='' @ v @ '';'') (take (maxv + 1 - i) e)) @
     (if maxv - i < length e then ''...'' else [])"
proof (induction maxv i e rule: debug_env.induct)
  case (1 maxv i)
  then show ?case by simp
next
  case (2 maxv i n v m)
  then show ?case
    by (cases "maxv \<le> i") (auto simp: Suc_diff_le take_Cons')
qed

text \<open>A resolved context: the process ended with status 0 and printed something.\<close>

lemma doPackageResolve_ok:
  "fst (fst (RezContext_doPackageResolve getenv run packages rz)) \<longleftrightarrow>
     (\<exists>out err. run (RezContext_resolveArgs getenv (rz\<lparr>rz_ioCapture := SimpleIoCapture_clear (rz_ioCapture rz)\<rparr>) packages) =
        Some (Some 0, out, err) \<and> out \<noteq> [])"
  by (auto simp: RezContext_doPackageResolve_def Let_def SimpleIoCapture_clear_def SimpleIoCapture_onStdout_def
      SimpleIoCapture_onStderr_def split: option.splits)

end
