(* ===== verification/Session_Definitions.thy ===== *)
theory Session_Definitions
  imports Environments "HOL-Library.AList"
begin

text \<open>
  What a client prepares before it asks for a session (\<^verbatim>\<open>arras4_client/lib/client/api\<close>): \<open>SessionDefinition\<close>
  with its search path, files and contexts, the resolution of rez packages (\<^verbatim>\<open>RezResolve.cc\<close>), and the
  \<open>SessionOptions\<close> of \<^verbatim>\<open>AcapAPI.cc\<close>.

  The record \<open>json_api\<close> is extended with the further operations of \<^verbatim>\<open>Json::Value\<close> these sources use.
  Readable files are a map from paths to texts; \<open>getenv\<close> and the process that resolves packages are
  arguments as in theory \<open>Environments\<close>.
\<close>

subsection \<open>More operations of Json::Value\<close>

text \<open>
  \<open>js_parse\<close> reads a text into a value, which may be changed even if it then throws; \<open>js_print\<close> and
  \<open>js_styled\<close> are the compact and the styled writer.
\<close>

record 'j json_obj = "'j json_api" +
  js_isObject :: "'j \<Rightarrow> bool"
  js_isNumeric :: "'j \<Rightarrow> bool"
  js_isIntegral :: "'j \<Rightarrow> bool"
  js_asInt64 :: "'j \<Rightarrow> exn + int"
  js_asUInt :: "'j \<Rightarrow> exn + u32"
  js_isMember :: "'j \<Rightarrow> string \<Rightarrow> exn + bool"
  js_remove :: "string \<Rightarrow> 'j \<Rightarrow> exn + 'j"
  js_size :: "'j \<Rightarrow> nat"
  js_emptyObject :: 'j
  js_parse :: "string \<Rightarrow> 'j \<Rightarrow> (exn + unit) \<times> 'j"
  js_print :: "'j \<Rightarrow> string"
  js_styled :: "'j \<Rightarrow> string"

text \<open>
  What is used of them: \<open>isObject\<close> holds for objects and possibly, as in old versions, for null; removing
  a member leaves the others; the members an iterator runs through are those that can be looked up, and
  \<open>size\<close> counts them; a member is only stored in a value that can have members.
\<close>

definition json_obj_ok :: "('j, 'z) json_obj_scheme \<Rightarrow> bool" where
  "json_obj_ok J \<longleftrightarrow> json_ok J \<and>
     (\<forall>j. js_type J j = objectValue \<longrightarrow> js_isObject J j) \<and>
     (\<forall>j. js_isObject J j \<longrightarrow> js_isMap J j) \<and>
     (\<forall>j k. js_isMap J j \<longrightarrow> (\<exists>b. js_isMember J j k = Inr b \<and> (b \<longleftrightarrow> k \<in> set (map fst (js_members J j))))) \<and>
     (\<forall>j. js_isMap J j \<longrightarrow> distinct (map fst (js_members J j)) \<and>
        (\<forall>(k, v) \<in> set (js_members J j). js_get J j k = Inr v) \<and>
        (\<forall>k. k \<notin> set (map fst (js_members J j)) \<longrightarrow> js_get J j k = Inr (js_null J))) \<and>
     (\<forall>j k. js_type J j = objectValue \<longrightarrow> (\<exists>j'. js_remove J k j = Inr j' \<and> js_type J j' = objectValue \<and>
        js_get J j' k = Inr (js_null J) \<and> (\<forall>k'. k' \<noteq> k \<longrightarrow> js_get J j' k' = js_get J j k'))) \<and>
     (\<forall>j k v j'. js_isMap J j \<and> js_set J k v j = Inr j' \<longrightarrow>
        set (map fst (js_members J j')) = insert k (set (map fst (js_members J j)))) \<and>
     (\<forall>j. js_type J j = nullValue \<longrightarrow> js_members J j = []) \<and>
     (\<forall>j k v j'. js_set J k v j = Inr j' \<longrightarrow> js_isMap J j) \<and>
     (\<forall>j. js_isMap J j \<longrightarrow> js_size J j = length (js_members J j)) \<and>
     js_type J (js_emptyObject J) = objectValue \<and> js_members J (js_emptyObject J) = []"

fun json_remove :: "string \<Rightarrow> json \<Rightarrow> exn + json" where
  "json_remove k JNull = Inr JNull"
| "json_remove k (JObject m) = Inr (JObject (filter (\<lambda>(k', _). k' \<noteq> k) m))"
| "json_remove k _ = Inl (StdException ''Json: not an object'')"

fun json_isMember :: "json \<Rightarrow> string \<Rightarrow> exn + bool" where
  "json_isMember JNull k = Inr False"
| "json_isMember (JObject m) k = Inr (k \<in> set (map fst m))"
| "json_isMember _ k = Inl (StdException ''Json: not an object'')"

text \<open>
  An implementation on \<open>json\<close>; its parser and printers only know the null value, which is enough for
  the examples.
\<close>

definition json_obj_impl :: "json json_obj" where
  "json_obj_impl = json_api.extend
     (json_impl\<lparr>js_members := (\<lambda>j. case j of JObject m \<Rightarrow> AList.clearjunk m | _ \<Rightarrow> json_members j)\<rparr>)
     \<lparr>js_isObject = (\<lambda>j. json_type j = objectValue),
      js_isNumeric = (\<lambda>j. json_type j = intValue),
      js_isIntegral = (\<lambda>j. json_type j = intValue),
      js_asInt64 = (\<lambda>j. case j of JInt i \<Rightarrow> Inr i | _ \<Rightarrow> Inl (StdException ''Json: not convertible'')),
      js_asUInt = (\<lambda>j. case j of JInt i \<Rightarrow> if 0 \<le> i \<and> i < 4294967296 then Inr (word_of_int i)
         else Inl (StdException ''Json: out of range'') | _ \<Rightarrow> Inl (StdException ''Json: not convertible'')),
      js_isMember = json_isMember,
      js_remove = json_remove,
      js_size = (\<lambda>j. case j of JObject m \<Rightarrow> length (AList.clearjunk m) | _ \<Rightarrow> length (json_members j)),
      js_emptyObject = JObject [],
      js_parse = (\<lambda>t j. if t = ''null'' then (Inr (), JNull) else (Inl (StdException ''Json: syntax error''), j)),
      js_print = (\<lambda>j. ''null''),
      js_styled = (\<lambda>j. ''null'')\<rparr>"

text \<open>\<open>js_at J k p\<close> runs \<open>p\<close> on \<open>obj[k]\<close> through the mutable \<open>operator[]\<close>, which makes the member if it is missing.\<close>

definition js_at :: "('j, 'z) json_api_scheme \<Rightarrow> string \<Rightarrow> ('j, 'a) proc \<Rightarrow> ('j, 'a) proc" where
  "js_at J k p obj =
     (case js_get J obj k of
        Inl e \<Rightarrow> (Inl e, obj)
      | Inr sub \<Rightarrow> (case p sub of (r, sub') \<Rightarrow>
          (case js_set J k sub' obj of Inl e \<Rightarrow> (Inl e, obj) | Inr obj' \<Rightarrow> (r, obj'))))"

definition js_drop :: "('j, 'z) json_obj_scheme \<Rightarrow> string \<Rightarrow> ('j, unit) proc" where
  "js_drop J k obj = (case js_remove J k obj of Inl e \<Rightarrow> (Inl e, obj) | Inr obj' \<Rightarrow> (Inr (), obj'))"

definition getString :: "('j, 'z) json_obj_scheme \<Rightarrow> 'j \<Rightarrow> string \<Rightarrow> string \<Rightarrow> exn + string" where
  "getString J obj key deflt =
     (if js_isObject J obj then sbind (js_get J obj key) (\<lambda>v. if js_isString J v then js_asString J v else Inr deflt)
      else Inr deflt)"

definition stringToObject :: "('j, 'z) json_obj_scheme \<Rightarrow> string \<Rightarrow> ('j, unit) proc" where
  "stringToObject J s j =
     (case js_parse J s j of (Inl e, j') \<Rightarrow> (Inl (ObjectFormatError (exn_what e)), j') | (Inr _, j') \<Rightarrow> (Inr (), j'))"

text \<open>A mutable reference to a member: it is made, as a null value, when it is missing.\<close>

definition js_ref :: "('j, 'z) json_obj_scheme \<Rightarrow> string \<Rightarrow> ('j, 'j) proc" where
  "js_ref J k obj =
     (case js_get J obj k of
        Inl e \<Rightarrow> (Inl e, obj)
      | Inr v \<Rightarrow> (case js_set J k v obj of Inl e \<Rightarrow> (Inl e, obj) | Inr obj' \<Rightarrow> (Inr v, obj')))"

subsection \<open>SessionDefinition\<close>

text \<open>A session definition is its object. \<open>accessible\<close> is \<open>access(_, R_OK)\<close>.\<close>

function findFile_loop :: "(string \<Rightarrow> bool) \<Rightarrow> string \<Rightarrow> string \<Rightarrow> nat \<Rightarrow> string" where
  "findFile_loop accessible filename filepath start =
     (case str_find CHR '':'' filepath start of
        None \<Rightarrow> (let path = drop start filepath @ ''/'' @ filename in if accessible path then path else [])
      | Some n \<Rightarrow>
          (let path = take (n - start) (drop start filepath) @ ''/'' @ filename
           in if start + 1 < n \<and> accessible path then path
              else findFile_loop accessible filename filepath (n + 1)))"
  by pat_completeness auto
termination
  by (relation "measure (\<lambda>(accessible, filename, filepath, start). length filepath - start)") (auto dest!: str_find_bounds)

declare findFile_loop.simps [simp del]

definition findFile :: "(string \<Rightarrow> bool) \<Rightarrow> string \<Rightarrow> string \<Rightarrow> string" where
  "findFile accessible filename filepath = findFile_loop accessible filename filepath 0"

definition ENV_VAR :: string where
  "ENV_VAR = ''ARRAS_SESSION_PATH''"

definition could_not :: "string \<Rightarrow> string" where
  "could_not s = ''Couldn'' @ [CHR 0x27] @ ''t '' @ s"

definition getContextsFromEnvironment ::
  "('j, 'z) json_obj_scheme \<Rightarrow> (string \<Rightarrow> string option) \<Rightarrow> files \<Rightarrow> ('j, unit) proc" where
  "getContextsFromEnvironment J getenv fs out =
     (case getenv ''ENV_CONTEXTS'' of
        None \<Rightarrow> (Inr (), out)
      | Some ec \<Rightarrow>
          (case fs ec of
             None \<Rightarrow> (Inl (DefinitionAttachError (could_not ''open env contexts file '' @ in_quotes ec)), out)
           | Some text \<Rightarrow>
               (case js_parse J text out of
                  (Inl e, out') \<Rightarrow>
                    (Inl (if is_std_exception e
                          then DefinitionAttachError (could_not ''load env contexts file '' @ in_quotes ec @ '': '' @ exn_what e)
                          else e), out')
                | (Inr u, out') \<Rightarrow> (Inr (), out'))))"

definition SessionDefinition_loadFromFile :: "('j, 'z) json_obj_scheme \<Rightarrow> files \<Rightarrow> string \<Rightarrow> ('j, unit) proc" where
  "SessionDefinition_loadFromFile J fs filepath def =
     (case fs filepath of
        None \<Rightarrow> (Inl (DefinitionLoadError (could_not ''open definition file '' @ in_quotes filepath)), def)
      | Some text \<Rightarrow>
          (case js_parse J text def of
             (Inl e, def') \<Rightarrow>
               (Inl (if is_std_exception e
                     then DefinitionLoadError (could_not ''load definition file '' @ in_quotes filepath @ '': '' @ exn_what e)
                     else e), def')
           | (Inr u, def') \<Rightarrow> (Inr (), def')))"

definition SessionDefinition_new :: "('j, 'z) json_obj_scheme \<Rightarrow> files \<Rightarrow> string \<Rightarrow> exn + 'j" where
  "SessionDefinition_new J fs filepath =
     (case SessionDefinition_loadFromFile J fs filepath (js_null J) of (Inl e, _) \<Rightarrow> Inl e | (Inr u, def) \<Rightarrow> Inr def)"

definition SessionDefinition_load ::
  "('j, 'z) json_obj_scheme \<Rightarrow> (string \<Rightarrow> string option) \<Rightarrow> (string \<Rightarrow> bool) \<Rightarrow> files \<Rightarrow> string \<Rightarrow> string \<Rightarrow> exn + 'j" where
  "SessionDefinition_load J getenv accessible fs name searchPath =
     (if searchPath = [] then
        Inl (DefinitionLoadError (''Session definition search path is empty. Try setting the environment variable '' @ ENV_VAR))
      else
        let over = (case getenv ''ARRASCLIENT_OVR_SESSION_DEF_SUFFIX'' of
               Some suffix \<Rightarrow> findFile accessible (name @ suffix @ ''.sessiondef'') searchPath
             | None \<Rightarrow> []);
            filepath = (if over = [] then findFile accessible (name @ ''.sessiondef'') searchPath else over)
        in if filepath = [] then
             Inl (DefinitionLoadError (could_not ''find definition file for '' @ in_quotes name @ '' in search path''))
           else SessionDefinition_new J fs filepath)"

text \<open>The static local variable is the state.\<close>

definition SessionDefinition_getDefaultSearchPath :: "(string \<Rightarrow> string option) \<Rightarrow> string \<Rightarrow> string \<times> string" where
  "SessionDefinition_getDefaultSearchPath getenv searchPath =
     (let p = (if searchPath = [] then (case getenv ENV_VAR of Some sp \<Rightarrow> sp | None \<Rightarrow> searchPath) else searchPath)
      in (p, p))"

text \<open>A failure while writing is not noticed.\<close>

definition SessionDefinition_saveToFile ::
  "('j, 'z) json_obj_scheme \<Rightarrow> write_outcome \<Rightarrow> string \<Rightarrow> 'j \<Rightarrow> (files, unit) proc" where
  "SessionDefinition_saveToFile J oc filepath def fs =
     (case oc of
        CannotOpen \<Rightarrow> (Inl (DefinitionSaveError (could_not ''save definition file '' @ in_quotes filepath)), fs)
      | CannotWrite t \<Rightarrow> (Inr (), fs(filepath \<mapsto> t))
      | Written \<Rightarrow> (Inr (), fs(filepath \<mapsto> js_styled J def)))"

definition SessionDefinition_has :: "('j, 'z) json_obj_scheme \<Rightarrow> string \<Rightarrow> 'j \<Rightarrow> exn + bool" where
  "SessionDefinition_has J compName def = sbind (js_get J def ''computations'') (\<lambda>c. js_isMember J c compName)"

definition SessionDefinition_attachContextObject :: "('j, 'z) json_obj_scheme \<Rightarrow> string \<Rightarrow> 'j \<Rightarrow> ('j, unit) proc" where
  "SessionDefinition_attachContextObject J name obj = js_at J ''contexts'' (js_put J name obj)"

definition env_context :: "('j, 'z) json_obj_scheme \<Rightarrow> (string \<Rightarrow> string option) \<Rightarrow> files \<Rightarrow> string \<Rightarrow> exn + 'j" where
  "env_context J getenv fs name =
     (case getContextsFromEnvironment J getenv fs (js_null J) of (Inl e, _) \<Rightarrow> Inl e | (Inr u, ctxs) \<Rightarrow> js_get J ctxs name)"

definition SessionDefinition_attachContext ::
  "('j, 'z) json_obj_scheme \<Rightarrow> (string \<Rightarrow> string option) \<Rightarrow> files \<Rightarrow> string \<Rightarrow> ('j, bool) proc" where
  "SessionDefinition_attachContext J getenv fs name =
     bindp (liftr (env_context J getenv fs name)) (\<lambda>ctx.
       if js_isNull J ctx then ret False
       else seqp (SessionDefinition_attachContextObject J name ctx) (ret True))"

definition SessionDefinition_isContextInEnvironment ::
  "('j, 'z) json_obj_scheme \<Rightarrow> (string \<Rightarrow> string option) \<Rightarrow> files \<Rightarrow> string \<Rightarrow> exn + bool" where
  "SessionDefinition_isContextInEnvironment J getenv fs name =
     sbind (env_context J getenv fs name) (\<lambda>ctx. Inr (\<not> js_isNull J ctx))"

definition SessionDefinition_isContextDefined :: "('j, 'z) json_obj_scheme \<Rightarrow> string \<Rightarrow> 'j \<Rightarrow> exn + bool" where
  "SessionDefinition_isContextDefined J name def =
     sbind (js_get J def ''contexts'') (\<lambda>ctxs. sbind (js_get J ctxs name) (\<lambda>ctxt.
       Inr (\<not> (js_isNull J ctxt \<or> \<not> js_isObject J ctxt))))"

fun check_contexts :: "('j, 'z) json_obj_scheme \<Rightarrow> 'j \<Rightarrow> (string \<times> 'j) list \<Rightarrow> exn + bool" where
  "check_contexts J def [] = Inr True"
| "check_contexts J def ((name, cdef) # comps) =
     (if js_isObject J cdef then
        sbind (js_get J cdef ''requirements'') (\<lambda>reqs.
        sbind (if js_isObject J reqs then js_get J reqs ''context'' else Inr (js_null J)) (\<lambda>ctx.
          if js_isString J ctx then
            sbind (js_asString J ctx) (\<lambda>ctxName. sbind (SessionDefinition_isContextDefined J ctxName def) (\<lambda>ok.
              if ok then check_contexts J def comps else Inr False))
          else check_contexts J def comps))
      else check_contexts J def comps)"

definition SessionDefinition_checkNamedContexts :: "('j, 'z) json_obj_scheme \<Rightarrow> 'j \<Rightarrow> exn + bool" where
  "SessionDefinition_checkNamedContexts J def =
     sbind (js_get J def ''computations'') (\<lambda>comps. check_contexts J def (js_members J comps))"

subsection \<open>Rez packages\<close>

text \<open>
  The result of \<open>rezResolve\<close> with the text put into \<open>err\<close>, if any (the caller's \<open>err\<close> is taken to be empty
  before); the settings are the state. An exception while resolving is caught.
\<close>

definition rez_settings ::
  "('j, 'z) json_obj_scheme \<Rightarrow> (string \<Rightarrow> string option) \<Rightarrow> (spawn_args \<Rightarrow> (int option \<times> string \<times> string) option) \<Rightarrow>
     u32 \<Rightarrow> string \<Rightarrow> ('j, string \<times> string option) proc" where
  "rez_settings J getenv run rezMajor rezPackages settings =
     (case bindp (liftr (getString J settings ''pseudo-compiler'' [])) (\<lambda>pseudoCompiler.
            bindp (liftr (getString J settings ''rez_packages_prepend'' [])) (\<lambda>rezPathPrefix.
              ret (pseudoCompiler, rezPathPrefix))) settings of
        (Inl e, s) \<Rightarrow> (Inl e, s)
      | (Inr (pseudoCompiler, rezPathPrefix), s) \<Rightarrow>
          (case bindp (liftr (RezContext_new getenv ''rez_resolve'' rezMajor rezPathPrefix False pseudoCompiler UUID_null UUID_null))
                (\<lambda>rc. case fst (RezContext_resolvePackages getenv run rezPackages rc) of
                    (context, err) \<Rightarrow>
                      if context = [] then ret (''error'', err)
                      else seqp (js_drop J ''rez_packages'')
                          (seqp (js_put J ''rez_context'' (js_ofString J context)) (ret (context, err)))) s of
             (Inl e, s') \<Rightarrow> if is_std_exception e then (Inr (''error'', Some (''Exception: '' @ exn_what e)), s') else (Inl e, s')
           | (Inr r, s') \<Rightarrow> (Inr r, s')))"

definition rezResolve ::
  "('j, 'z) json_obj_scheme \<Rightarrow> (string \<Rightarrow> string option) \<Rightarrow> (spawn_args \<Rightarrow> (int option \<times> string \<times> string) option) \<Rightarrow>
     ('j, string \<times> string option) proc" where
  "rezResolve J getenv run settings =
     (if \<not> js_isObject J settings then ret (''error'', Some ''Invalid rez settings'') settings
      else bindp (liftr (getString J settings ''packaging_system'' ''rez1'')) (\<lambda>packagingSystem.
        if packagingSystem = [] \<or> packagingSystem = ''none'' then ret (''ok'', None)
        else bindp (liftr (getString J settings ''rez_packages'' [])) (\<lambda>rezPackages.
          if rezPackages = [] then ret (''ok'', None)
          else if packagingSystem = ''rez1'' then rez_settings J getenv run 1 rezPackages
          else if packagingSystem = ''rez2'' then rez_settings J getenv run 2 rezPackages
          else ret (''error'', Some (''Unknown packaging system '' @ in_quotes packagingSystem)))) settings)"

text \<open>The loop over the computations of a definition, run on its \<open>computations\<close> object; the text of an error, if any.\<close>

definition rez_computation ::
  "('j, 'z) json_obj_scheme \<Rightarrow> (string \<Rightarrow> string option) \<Rightarrow> (spawn_args \<Rightarrow> (int option \<times> string \<times> string) option) \<Rightarrow>
     string \<Rightarrow> ('j, string option) proc" where
  "rez_computation J getenv run name cdef =
     (if js_isObject J cdef then
        bindp (liftr (js_isMember J cdef ''requirements'')) (\<lambda>m.
          if m then js_at J ''requirements'' (bindp (rezResolve J getenv run) (\<lambda>(res, err).
              ret (if res = ''error'' then Some (name @ '': '' @ (case err of None \<Rightarrow> [] | Some e \<Rightarrow> e)) else None)))
          else ret None) cdef
      else (Inr None, cdef))"

primrec rez_computations ::
  "('j, 'z) json_obj_scheme \<Rightarrow> (string \<Rightarrow> string option) \<Rightarrow> (spawn_args \<Rightarrow> (int option \<times> string \<times> string) option) \<Rightarrow>
     string list \<Rightarrow> ('j, string option) proc" where
  "rez_computations J getenv run [] = ret None"
| "rez_computations J getenv run (name # names) =
     bindp (js_at J name (rez_computation J getenv run name)) (\<lambda>e.
       case e of Some err \<Rightarrow> ret (Some err) | None \<Rightarrow> rez_computations J getenv run names)"

text \<open>\<open>None\<close> for true, the text of \<open>err\<close> for false.\<close>

definition rezResolve_definition ::
  "('j, 'z) json_obj_scheme \<Rightarrow> (string \<Rightarrow> string option) \<Rightarrow> (spawn_args \<Rightarrow> (int option \<times> string \<times> string) option) \<Rightarrow>
     ('j, string option) proc" where
  "rezResolve_definition J getenv run obj =
     (if \<not> js_isObject J obj then (Inr (Some ''Invalid session definition''), obj)
      else bindp (js_at J ''computations'' (gets (\<lambda>comps. js_isObject J comps \<and> \<not> js_isNull J comps))) (\<lambda>valid.
        if \<not> valid then ret (Some ''Invalid session definition'')
        else js_at J ''computations'' (bindp (gets (\<lambda>comps. map fst (js_members J comps))) (rez_computations J getenv run))) obj)"

subsection \<open>SessionOptions\<close>

record 'j session_options =
  so_production :: string
  so_sequence :: string
  so_shot :: string
  so_assetGroup :: string
  so_asset :: string
  so_department :: string
  so_team :: string
  so_id :: string
  so_metadata :: 'j

definition SessionOptions_setMetadata :: "('j, 'z) json_obj_scheme \<Rightarrow> string \<Rightarrow> ('j session_options, unit) proc" where
  "SessionOptions_setMetadata J text opts =
     (if text = [] then (Inr (), opts\<lparr>so_metadata := js_null J\<rparr>)
      else case js_parse J text (js_null J) of
        (Inl e, _) \<Rightarrow> (Inl e, opts)
      | (Inr u, md) \<Rightarrow> (Inr (), opts\<lparr>so_metadata := md\<rparr>))"

definition appendWithSpace :: "string \<Rightarrow> string \<Rightarrow> string" where
  "appendWithSpace s a = (if a = [] then s else (if s = [] then s else s @ '' '') @ a)"

definition SessionOptions_getTitle :: "'j session_options \<Rightarrow> string" where
  "SessionOptions_getTitle opts =
     (let title = appendWithSpace (appendWithSpace (appendWithSpace (so_sequence opts) (so_shot opts)) (so_assetGroup opts)) (so_asset opts)
      in if title = [] then ''[No Title]'' else title)"

definition addString :: "('j, 'z) json_obj_scheme \<Rightarrow> string \<Rightarrow> string \<Rightarrow> ('j, unit) proc" where
  "addString J name val = js_put J name (if val \<noteq> [] then js_ofString J val else js_null J)"

definition SessionOptions_appendToObject :: "('j, 'z) json_obj_scheme \<Rightarrow> 'j session_options \<Rightarrow> ('j, unit) proc" where
  "SessionOptions_appendToObject J opts =
     seqp (forp [(''production'', so_production opts), (''sequence'', so_sequence opts), (''shot'', so_shot opts),
        (''assetGroup'', so_assetGroup opts), (''asset'', so_asset opts), (''department'', so_department opts),
        (''team'', so_team opts), (''id'', so_id opts)] (\<lambda>(n, v). addString J n v))
     (js_put J ''metadata'' (so_metadata opts))"

record acap_request =
  ar_service :: string
  ar_userAgent :: string
  ar_pamSite :: string
  ar_pamProject :: string

definition AcapRequest_uri :: "acap_request \<Rightarrow> string" where
  "AcapRequest_uri r =
     ''service='' @ ar_service r @ ''&'' @ ''pam_site='' @ ar_pamSite r @ ''&'' @ ''pam_project='' @ ar_pamProject r"

subsection \<open>Laws of objects\<close>

lemma obj_laws:
  assumes "json_obj_ok J"
  shows obj_ok_json: "json_ok J"
    and "\<forall>j. js_type J j = objectValue \<longrightarrow> js_isObject J j"
    and "\<forall>j. js_isObject J j \<longrightarrow> js_isMap J j"
    and "\<forall>j k. js_isMap J j \<longrightarrow> (\<exists>b. js_isMember J j k = Inr b \<and> (b \<longleftrightarrow> k \<in> set (map fst (js_members J j))))"
    and "\<forall>j. js_isMap J j \<longrightarrow> distinct (map fst (js_members J j)) \<and>
        (\<forall>(k, v) \<in> set (js_members J j). js_get J j k = Inr v) \<and>
        (\<forall>k. k \<notin> set (map fst (js_members J j)) \<longrightarrow> js_get J j k = Inr (js_null J))"
    and "\<forall>j k. js_type J j = objectValue \<longrightarrow> (\<exists>j'. js_remove J k j = Inr j' \<and> js_type J j' = objectValue \<and>
        js_get J j' k = Inr (js_null J) \<and> (\<forall>k'. k' \<noteq> k \<longrightarrow> js_get J j' k' = js_get J j k'))"
    and "\<forall>j k v j'. js_isMap J j \<and> js_set J k v j = Inr j' \<longrightarrow>
        set (map fst (js_members J j')) = insert k (set (map fst (js_members J j)))"
    and "\<forall>j. js_type J j = nullValue \<longrightarrow> js_members J j = []"
    and "\<forall>j k v j'. js_set J k v j = Inr j' \<longrightarrow> js_isMap J j"
    and "\<forall>j. js_isMap J j \<longrightarrow> js_size J j = length (js_members J j)"
    and "js_type J (js_emptyObject J) = objectValue" and "js_members J (js_emptyObject J) = []"
  using assms unfolding json_obj_ok_def by - (elim conjE, assumption)+

lemma json_laws:
  assumes "json_ok J"
  shows "\<forall>j k. js_isMap J j \<longrightarrow> (\<exists>v. js_get J j k = Inr v)"
    and "\<forall>k. js_get J (js_null J) k = Inr (js_null J)" and "js_isNull J (js_null J)"
    and "\<forall>j k v. js_isMap J j \<longrightarrow> (\<exists>j'. js_set J k v j = Inr j' \<and> js_type J j' = objectValue \<and> js_get J j' k = Inr v \<and>
        (\<forall>k'. k' \<noteq> k \<longrightarrow> js_get J j' k' = js_get J j k'))"
  using assms unfolding json_ok_def by - (elim conjE, assumption)+

lemma obj_ok_isObject: "json_obj_ok J \<Longrightarrow> js_isObject J j \<Longrightarrow> js_isMap J j"
  using obj_laws(3) by blast

lemma obj_ok_object: "json_obj_ok J \<Longrightarrow> js_type J j = objectValue \<Longrightarrow> js_isObject J j"
  using obj_laws(2) by blast

lemma js_get_ok: "json_obj_ok J \<Longrightarrow> js_isMap J j \<Longrightarrow> \<exists>v. js_get J j k = Inr v"
  using json_laws(1) [OF obj_ok_json] by blast

lemma obj_ok_set:
  assumes "json_obj_ok J" and "js_isMap J j"
  shows "\<exists>j'. js_set J k v j = Inr j' \<and> js_type J j' = objectValue \<and> js_get J j' k = Inr v \<and>
    (\<forall>k'. k' \<noteq> k \<longrightarrow> js_get J j' k' = js_get J j k') \<and>
    set (map fst (js_members J j')) = insert k (set (map fst (js_members J j)))"
proof -
  obtain j' where j': "js_set J k v j = Inr j'" "js_type J j' = objectValue" "js_get J j' k = Inr v"
      "\<forall>k'. k' \<noteq> k \<longrightarrow> js_get J j' k' = js_get J j k'"
    using json_laws(4) [OF obj_ok_json [OF assms(1)], rule_format, OF assms(2), of k v] by blast
  moreover have "set (map fst (js_members J j')) = insert k (set (map fst (js_members J j)))"
    by (rule obj_laws(7) [OF assms(1), rule_format, OF conjI, OF assms(2) j'(1)])
  ultimately show ?thesis by blast
qed

lemma obj_ok_remove:
  assumes "json_obj_ok J" and "js_type J j = objectValue"
  shows "\<exists>j'. js_remove J k j = Inr j' \<and> js_type J j' = objectValue \<and> js_get J j' k = Inr (js_null J) \<and>
    (\<forall>k'. k' \<noteq> k \<longrightarrow> js_get J j' k' = js_get J j k')"
  by (rule obj_laws(6) [OF assms(1), rule_format, OF assms(2)])

lemma obj_ok_isMember:
  assumes "json_obj_ok J" and "js_isMap J j"
  shows "js_isMember J j k = Inr (k \<in> set (map fst (js_members J j)))"
proof -
  obtain b where "js_isMember J j k = Inr b" and "b \<longleftrightarrow> k \<in> set (map fst (js_members J j))"
    using obj_laws(4) [OF assms(1), rule_format, OF assms(2), of k] by blast
  then show ?thesis by simp
qed

lemma obj_ok_members:
  assumes "json_obj_ok J" and "js_isMap J j"
  shows "distinct (map fst (js_members J j))" and "(k, v) \<in> set (js_members J j) \<Longrightarrow> js_get J j k = Inr v"
    and "k \<notin> set (map fst (js_members J j)) \<Longrightarrow> js_get J j k = Inr (js_null J)"
  using obj_laws(5) [OF assms(1), rule_format, OF assms(2)] by blast+

lemma js_null_not_string: "json_obj_ok J \<Longrightarrow> \<not> js_isString J (js_null J)"
proof -
  assume "json_obj_ok J"
  from json_laws(3) [OF obj_ok_json [OF this]] show ?thesis by (simp add: js_isNull_def js_isString_def)
qed

lemma getString_cong: "js_get J a k = js_get J b k \<Longrightarrow> js_isObject J a = js_isObject J b \<Longrightarrow> getString J a k d = getString J b k d"
  by (simp add: getString_def)

lemma json_obj_impl_simps [simp]:
  "js_type json_obj_impl = json_type" "js_get json_obj_impl = json_get" "js_set json_obj_impl = json_set"
  "js_members json_obj_impl (JObject m) = AList.clearjunk m" "js_members json_obj_impl JNull = []"
  "js_isObject json_obj_impl j = (json_type j = objectValue)" "js_isMember json_obj_impl = json_isMember"
  "js_remove json_obj_impl = json_remove" "js_emptyObject json_obj_impl = JObject []" "js_null json_obj_impl = JNull"
  "js_asString json_obj_impl = json_asString" "js_ofString json_obj_impl = JString"
  "js_size json_obj_impl (JObject m) = length (AList.clearjunk m)" "js_size json_obj_impl JNull = 0"
  by (simp_all add: json_obj_impl_def json_impl_def json_api.defs)

lemma json_isMap_cases: "js_isMap json_obj_impl j \<longleftrightarrow> j = JNull \<or> (\<exists>m. j = JObject m)"
  by (cases j) (auto simp: js_isMap_def)

lemma json_type_object: "json_type j = objectValue \<longleftrightarrow> (\<exists>m. j = JObject m)"
  by (cases j) auto

lemma map_of_filter_neq: "map_of (filter (\<lambda>(k', _). k' \<noteq> k) m) = (map_of m)(k := None)"
  by (induction m) (auto simp: fun_eq_iff)

lemma fst_map_set: "fst ` set (map_set k v m) = insert k (fst ` set m)"
  by (metis dom_fun_upd dom_map_of_conv_image_fst fun_upd_def map_of_map_set option.distinct(1))

lemma clearjunk_lookup: "(k, v) \<in> set (AList.clearjunk m) \<Longrightarrow> map_of m k = Some v"
  by (metis distinct_clearjunk map_of_clearjunk map_of_is_SomeI)

lemma json_obj_impl_ok: "json_obj_ok json_obj_impl"
proof -
  have k: "json_ok json_obj_impl"
    using json_impl_ok
    by (simp add: json_ok_def js_isMap_def js_isString_def js_isBool_def js_isNull_def json_obj_impl_def json_impl_def
        json_api.defs)
  show ?thesis
    unfolding json_obj_ok_def
  proof (intro conjI allI impI)
    show "json_ok json_obj_impl" by (rule k)
  next
    fix j k assume "js_isMap json_obj_impl j"
    then show "\<exists>b. js_isMember json_obj_impl j k = Inr b \<and> (b \<longleftrightarrow> k \<in> set (map fst (js_members json_obj_impl j)))"
      by (auto simp: json_isMap_cases dom_clearjunk)
  next
    fix j assume "js_isMap json_obj_impl j"
    then show "distinct (map fst (js_members json_obj_impl j))"
      and "\<forall>(k, v) \<in> set (js_members json_obj_impl j). js_get json_obj_impl j k = Inr v"
      by (auto simp: json_isMap_cases dest!: clearjunk_lookup)
    fix k assume "k \<notin> set (map fst (js_members json_obj_impl j))"
    then show "js_get json_obj_impl j k = Inr (js_null json_obj_impl)"
      using \<open>js_isMap json_obj_impl j\<close>
      by (auto simp: json_isMap_cases dom_clearjunk split: option.split) (metis image_eqI fst_conv map_of_SomeD)
  next
    fix j k assume "js_type json_obj_impl j = objectValue"
    then show "\<exists>j'. js_remove json_obj_impl k j = Inr j' \<and> js_type json_obj_impl j' = objectValue \<and>
        js_get json_obj_impl j' k = Inr (js_null json_obj_impl) \<and>
        (\<forall>k'. k' \<noteq> k \<longrightarrow> js_get json_obj_impl j' k' = js_get json_obj_impl j k')"
      by (auto simp: json_type_object map_of_filter_neq)
  next
    fix j k v j' assume a: "js_isMap json_obj_impl j \<and> js_set json_obj_impl k v j = Inr j'"
    then have "j = JNull \<or> (\<exists>m. j = JObject m)" by (simp add: json_isMap_cases)
    then show "set (map fst (js_members json_obj_impl j')) = insert k (set (map fst (js_members json_obj_impl j)))"
    proof (elim disjE exE)
      fix m assume m: "j = JObject m"
      with a have j': "j' = JObject (map_set k v m)" by simp
      show ?thesis unfolding m j' json_obj_impl_simps set_map dom_clearjunk fst_map_set by (rule refl)
    qed (use a in auto)
  next
    fix j assume "js_type json_obj_impl j = nullValue"
    then show "js_members json_obj_impl j = []" by (cases j) simp_all
  next
    fix j k v j' assume "js_set json_obj_impl k v j = Inr j'"
    then show "js_isMap json_obj_impl j" by (cases j) (simp_all add: json_isMap_cases)
  qed (auto simp: json_isMap_cases json_type_object)
qed

subsection \<open>Finding a definition\<close>

text \<open>
  The directories \<open>findFile\<close> looks into: the entries of the search path of at least two characters, and
  the last entry in any case.
\<close>

definition search_entries :: "string \<Rightarrow> string list" where
  "search_entries filepath =
     (let ws = split_on CHR '':'' filepath in filter (\<lambda>w. 2 \<le> length w) (butlast ws) @ [last ws])"

definition search_files :: "string \<Rightarrow> string \<Rightarrow> string list" where
  "search_files filename filepath = map (\<lambda>d. d @ ''/'' @ filename) (search_entries filepath)"

lemma search_files_last: "CHR '':'' \<notin> set w \<Longrightarrow> search_files filename w = [w @ ''/'' @ filename]"
  by (simp add: search_files_def search_entries_def split_on_none)

lemma search_files_step:
  "CHR '':'' \<notin> set w \<Longrightarrow>
     search_files filename (w @ CHR '':'' # r) = (if 2 \<le> length w then [w @ ''/'' @ filename] else []) @ search_files filename r"
  by (simp add: search_files_def search_entries_def split_on_append Let_def)

lemma findFile_loop_eq:
  "findFile_loop acc filename filepath start =
     (case find acc (search_files filename (drop start filepath)) of None \<Rightarrow> [] | Some p \<Rightarrow> p)"
proof (induction acc filename filepath start rule: findFile_loop.induct)
  case (1 acc filename filepath start)
  show ?case
  proof (cases "str_find CHR '':'' filepath start")
    case None
    then have "CHR '':'' \<notin> set (drop start filepath)" by (simp add: str_find_None)
    with None show ?thesis
      by (subst findFile_loop.simps) (simp add: search_files_last Let_def)
  next
    case (Some n)
    let ?w = "take (n - start) (drop start filepath)" and ?r = "drop (n + 1) filepath"
    note f = str_find_Some [OF Some]
    have len: "2 \<le> length ?w \<longleftrightarrow> start + 1 < n" using f(1,2) by auto
    have step: "search_files filename (drop start filepath) =
        (if start + 1 < n then [?w @ ''/'' @ filename] else []) @ search_files filename ?r"
      using search_files_step [OF f(4), of filename ?r] f(5) len by simp
    show ?thesis
    proof (cases "start + 1 < n \<and> acc (?w @ ''/'' @ filename)")
      case True
      then show ?thesis by (subst findFile_loop.simps) (simp add: Some step Let_def)
    next
      case False
      then have "findFile_loop acc filename filepath start = findFile_loop acc filename filepath (n + 1)"
        by (subst findFile_loop.simps) (auto simp: Some Let_def)
      with 1 [OF Some refl] False step show ?thesis by auto
    qed
  qed
qed


lemma one_character_directory:
  "search_entries ''/a:.:/b'' = [''/a'', ''/b'']" and "search_entries ''.'' = [''.'']"
  by (simp_all add: search_entries_def)

subsection \<open>Named contexts\<close>

definition names_context :: "('j, 'z) json_obj_scheme \<Rightarrow> 'j \<Rightarrow> string \<Rightarrow> bool" where
  "names_context J cdef ctxName \<longleftrightarrow> js_isObject J cdef \<and>
     (\<exists>reqs ctx. js_get J cdef ''requirements'' = Inr reqs \<and> js_isObject J reqs \<and>
        js_get J reqs ''context'' = Inr ctx \<and> js_isString J ctx \<and> js_asString J ctx = Inr ctxName)"

lemma names_context_step:
  assumes J: "json_obj_ok J" and run: "check_contexts J def ((name, cdef) # comps) = Inr b"
  shows "(\<exists>c. names_context J cdef c \<and> (\<forall>c'. names_context J cdef c' \<longrightarrow> c' = c) \<and>
       (\<exists>ok. SessionDefinition_isContextDefined J c def = Inr ok \<and>
         (if ok then check_contexts J def comps = Inr b else \<not> b))) \<or>
    (\<forall>c. \<not> names_context J cdef c) \<and> check_contexts J def comps = Inr b"
proof (cases "js_isObject J cdef")
  case False
  with run show ?thesis by (simp add: names_context_def)
next
  case True
  with run obtain reqs where reqs: "js_get J cdef ''requirements'' = Inr reqs"
    by (cases "js_get J cdef ''requirements''") simp_all
  show ?thesis
  proof (cases "js_isObject J reqs")
    case False
    with run True reqs js_null_not_string [OF J] show ?thesis by (simp add: names_context_def)
  next
    case o: True
    with run True reqs obtain ctx where ctx: "js_get J reqs ''context'' = Inr ctx"
      by (cases "js_get J reqs ''context''") simp_all
    show ?thesis
    proof (cases "js_isString J ctx")
      case False
      with run True reqs o ctx show ?thesis by (simp add: names_context_def)
    next
      case st: True
      with run True reqs o ctx obtain c where c: "js_asString J ctx = Inr c"
        by (cases "js_asString J ctx") simp_all
      with run True reqs o ctx st obtain ok where ok: "SessionDefinition_isContextDefined J c def = Inr ok"
        by (cases "SessionDefinition_isContextDefined J c def") simp_all
      have "names_context J cdef c" "\<forall>c'. names_context J cdef c' \<longrightarrow> c' = c"
        using True reqs o ctx st c by (simp_all add: names_context_def)
      moreover have "if ok then check_contexts J def comps = Inr b else \<not> b"
        using run True reqs o ctx st c ok by (cases ok) simp_all
      ultimately show ?thesis using ok by blast
    qed
  qed
qed

lemma check_contexts_iff:
  assumes J: "json_obj_ok J"
  shows "check_contexts J def comps = Inr b \<Longrightarrow>
    b \<longleftrightarrow> (\<forall>(name, cdef) \<in> set comps. \<forall>c. names_context J cdef c \<longrightarrow> SessionDefinition_isContextDefined J c def = Inr True)"
proof (induction comps)
  case Nil
  then show ?case by simp
next
  case (Cons x comps)
  obtain name cdef where x: "x = (name, cdef)" by (cases x)
  from names_context_step [OF J Cons.prems [unfolded x]] show ?case
  proof (elim disjE exE conjE)
    fix c ok
    assume "names_context J cdef c" "\<forall>c'. names_context J cdef c' \<longrightarrow> c' = c"
      "SessionDefinition_isContextDefined J c def = Inr ok"
      "if ok then check_contexts J def comps = Inr b else \<not> b"
    note c = this
    let ?D = "\<lambda>c. SessionDefinition_isContextDefined J c def = Inr True"
    from c(1,2) have "(\<forall>c'. names_context J cdef c' \<longrightarrow> ?D c') \<longleftrightarrow> ?D c" by blast
    moreover have "?D c \<longleftrightarrow> ok" using c(3) by simp
    ultimately show ?thesis using Cons.IH c(4) unfolding x by (cases ok) simp_all
  next
    assume "\<forall>c. \<not> names_context J cdef c" "check_contexts J def comps = Inr b"
    then show ?thesis using Cons.IH by (simp add: x)
  qed
qed

lemma checkNamedContexts_iff:
  assumes "json_obj_ok J" and "js_get J def ''computations'' = Inr comps"
    and "SessionDefinition_checkNamedContexts J def = Inr b"
  shows "b \<longleftrightarrow> (\<forall>(name, cdef) \<in> set (js_members J comps). \<forall>c.
    names_context J cdef c \<longrightarrow> SessionDefinition_isContextDefined J c def = Inr True)"
  using check_contexts_iff [OF assms(1), of def "js_members J comps" b] assms(2,3)
  by (simp add: SessionDefinition_checkNamedContexts_def)

subsection \<open>Resolution settles\<close>

definition settled :: "('j, 'z) json_obj_scheme \<Rightarrow> (string \<Rightarrow> string option) \<Rightarrow> 'j \<Rightarrow> bool" where
  "settled J getenv s \<longleftrightarrow> (\<forall>run. rezResolve J getenv run s = (Inr (''ok'', None), s))"

lemma getString_null: "json_obj_ok J \<Longrightarrow> js_get J s k = Inr (js_null J) \<Longrightarrow> getString J s k d = Inr d"
  by (simp add: getString_def js_null_not_string)

lemma getString_object:
  assumes J: "json_obj_ok J" and "getString J s k [] = Inr v" and "v \<noteq> []"
  shows "js_isObject J s" and "js_type J s = objectValue"
proof -
  show o: "js_isObject J s" using assms(2,3) by (auto simp: getString_def split: if_splits)
  show "js_type J s = objectValue"
  proof (rule ccontr)
    assume "js_type J s \<noteq> objectValue"
    with obj_ok_isObject [OF J o] have m: "js_isMap J s" "js_members J s = []"
      using obj_laws(8) [OF J] by (auto simp: js_isMap_def)
    then have "js_get J s k = Inr (js_null J)" using obj_ok_members(3) [OF J m(1)] by simp
    then show False using getString_null [OF J] assms(2,3) by force
  qed
qed

lemma rez_settings_result:
  assumes J: "json_obj_ok J" and run: "rez_settings J getenv run m pkgs s = (Inr (res, err), s')"
    and res: "res \<noteq> ''error''" and s: "js_type J s = objectValue"
  shows "js_type J s' = objectValue \<and> js_get J s' ''rez_packages'' = Inr (js_null J) \<and>
    (\<forall>k. k \<noteq> ''rez_packages'' \<and> k \<noteq> ''rez_context'' \<longrightarrow> js_get J s' k = js_get J s k)"
proof -
  obtain pc where pc: "getString J s ''pseudo-compiler'' [] = Inr pc"
    using run by (cases "getString J s ''pseudo-compiler'' []") (simp_all add: rez_settings_def)
  obtain pp where pp: "getString J s ''rez_packages_prepend'' [] = Inr pp"
    using run pc by (cases "getString J s ''rez_packages_prepend'' []") (simp_all add: rez_settings_def)
  obtain rc where rc: "RezContext_new getenv ''rez_resolve'' m pp False pc UUID_null UUID_null = Inr rc"
    using run pc pp res
    by (cases "RezContext_new getenv ''rez_resolve'' m pp False pc UUID_null UUID_null")
      (auto simp: rez_settings_def split: if_splits)
  obtain ctx e where c: "fst (RezContext_resolvePackages getenv run pkgs rc) = (ctx, e)" by fastforce
  have ne: "ctx \<noteq> []" using run pc pp rc c res by (auto simp: rez_settings_def)
  obtain s1 where s1: "js_remove J ''rez_packages'' s = Inr s1" "js_type J s1 = objectValue"
      "js_get J s1 ''rez_packages'' = Inr (js_null J)" "\<forall>k. k \<noteq> ''rez_packages'' \<longrightarrow> js_get J s1 k = js_get J s k"
    using obj_ok_remove [OF J s, of "''rez_packages''"] by blast
  have "js_isMap J s1" using s1(2) by (simp add: js_isMap_def)
  then obtain s2 where s2: "js_set J ''rez_context'' (js_ofString J ctx) s1 = Inr s2" "js_type J s2 = objectValue"
      "\<forall>k. k \<noteq> ''rez_context'' \<longrightarrow> js_get J s2 k = js_get J s1 k"
    using obj_ok_set [OF J, of s1 "''rez_context''" "js_ofString J ctx"] by blast
  have "s' = s2" using run pc pp rc c ne s1(1) s2(1) by (simp add: rez_settings_def js_drop_def js_put_def)
  then show ?thesis using s1 s2 by simp
qed

lemma rezResolve_settles:
  assumes J: "json_obj_ok J" and run: "rezResolve J getenv run s = (Inr (res, err), s')" and res: "res \<noteq> ''error''"
  shows "settled J getenv s'"
proof -
  have o: "js_isObject J s" using run res by (auto simp: rezResolve_def split: if_splits)
  obtain ps where ps: "getString J s ''packaging_system'' ''rez1'' = Inr ps"
    using run o by (cases "getString J s ''packaging_system'' ''rez1''") (simp_all add: rezResolve_def)
  show ?thesis
  proof (cases "ps = [] \<or> ps = ''none''")
    case True
    with run o ps have "s' = s" by (auto simp: rezResolve_def)
    with True o ps show ?thesis by (auto simp: settled_def rezResolve_def)
  next
    case False
    obtain pk where pk: "getString J s ''rez_packages'' [] = Inr pk"
      using run o ps False by (cases "getString J s ''rez_packages'' []") (simp_all add: rezResolve_def)
    show ?thesis
    proof (cases "pk = []")
      case True
      with run o ps pk False have "s' = s" by (auto simp: rezResolve_def)
      with True o ps pk False show ?thesis by (auto simp: settled_def rezResolve_def)
    next
      case ne: False
      have st: "js_type J s = objectValue" by (rule getString_object(2) [OF J pk ne])
      obtain m where "rez_settings J getenv run m pk s = (Inr (res, err), s')"
        using run o ps pk False ne res by (auto simp: rezResolve_def split: if_splits)
      from rez_settings_result [OF J this res st] have s': "js_type J s' = objectValue"
          "js_get J s' ''rez_packages'' = Inr (js_null J)" "js_get J s' ''packaging_system'' = js_get J s ''packaging_system''"
        by simp_all
      have o': "js_isObject J s'" by (rule obj_ok_object [OF J s'(1)])
      have "getString J s' ''packaging_system'' ''rez1'' = Inr ps"
        using getString_cong [OF s'(3), of "''rez1''"] ps o o' by simp
      with o' False getString_null [OF J s'(2)] show ?thesis by (simp add: settled_def rezResolve_def)
    qed
  qed
qed

definition settled_computation :: "('j, 'z) json_obj_scheme \<Rightarrow> (string \<Rightarrow> string option) \<Rightarrow> 'j \<Rightarrow> bool" where
  "settled_computation J getenv cdef \<longleftrightarrow>
     (js_isObject J cdef \<and> js_isMember J cdef ''requirements'' = Inr True \<longrightarrow>
        (\<exists>s. js_get J cdef ''requirements'' = Inr s \<and> settled J getenv s))"

lemma js_at_run:
  assumes J: "json_obj_ok J" and "js_isMap J j" and "js_get J j k = Inr sub" and "p sub = (r, sub')"
  shows "\<exists>j'. js_at J k p j = (r, j') \<and> js_type J j' = objectValue \<and> js_get J j' k = Inr sub' \<and>
    (\<forall>k'. k' \<noteq> k \<longrightarrow> js_get J j' k' = js_get J j k') \<and>
    set (map fst (js_members J j')) = insert k (set (map fst (js_members J j)))"
  using obj_ok_set [OF assms(1,2), of k sub'] assms(3,4) by (auto simp: js_at_def)

lemma rez_computation_settles:
  assumes J: "json_obj_ok J" and run: "rez_computation J getenv run name cdef = (Inr None, cdef')"
  shows "settled_computation J getenv cdef'"
proof (cases "js_isObject J cdef \<and> js_isMember J cdef ''requirements'' = Inr True")
  case False
  then show ?thesis
  proof (cases "js_isObject J cdef")
    case True
    obtain b where b: "js_isMember J cdef ''requirements'' = Inr b"
      using run True by (cases "js_isMember J cdef ''requirements''") (simp_all add: rez_computation_def)
    with False True run have "cdef' = cdef" by (simp add: rez_computation_def)
    with False True b show ?thesis by (simp add: settled_computation_def)
  qed (use run in \<open>simp add: rez_computation_def settled_computation_def\<close>)
next
  case True
  then have o: "js_isObject J cdef" "js_isMember J cdef ''requirements'' = Inr True" by simp_all
  note m = obj_ok_isObject [OF J o(1)]
  obtain s where s: "js_get J cdef ''requirements'' = Inr s" using js_get_ok [OF J m] by blast
  obtain r s' where r: "rezResolve J getenv run s = (r, s')" by fastforce
  let ?p = "bindp (rezResolve J getenv run) (\<lambda>(res, err).
      ret (if res = ''error'' then Some (name @ '': '' @ (case err of None \<Rightarrow> [] | Some e \<Rightarrow> e)) else None))"
  show ?thesis
  proof (cases r)
    case (Inl e)
    with r have "?p s = (Inl e, s')" by simp
    from js_at_run [where p = ?p, OF J m s this] run o show ?thesis by (auto simp: rez_computation_def)
  next
    case (Inr v)
    obtain res err where v: "v = (res, err)" by (cases v)
    with Inr r have "?p s = (Inr (if res = ''error'' then Some (name @ '': '' @ (case err of None \<Rightarrow> [] | Some e \<Rightarrow> e)) else None), s')"
      by simp
    from js_at_run [where p = ?p, OF J m s this] run o have "res \<noteq> ''error''" "js_get J cdef' ''requirements'' = Inr s'"
      by (auto simp: rez_computation_def split: if_splits)
    with rezResolve_settles [OF J] r Inr v show ?thesis by (auto simp: settled_computation_def)
  qed
qed

lemma settled_computation_run:
  assumes J: "json_obj_ok J" and "settled_computation J getenv cdef"
  shows "\<exists>cdef'. rez_computation J getenv run name cdef = (Inr None, cdef')"
proof (cases "js_isObject J cdef")
  case True
  note m = obj_ok_isObject [OF J True]
  show ?thesis
  proof (cases "js_isMember J cdef ''requirements'' = Inr True")
    case mem: True
    with assms True obtain s where s: "js_get J cdef ''requirements'' = Inr s" "settled J getenv s"
      by (auto simp: settled_computation_def)
    let ?p = "bindp (rezResolve J getenv run) (\<lambda>(res, err).
        ret (if res = ''error'' then Some (name @ '': '' @ (case err of None \<Rightarrow> [] | Some e \<Rightarrow> e)) else None))"
    have "?p s = (Inr None, s)" using s(2) by (simp add: settled_def)
    from js_at_run [where p = ?p, OF J m s(1) this] True mem show ?thesis by (auto simp: rez_computation_def)
  next
    case False
    with True obj_ok_isMember [OF J m, of "''requirements''"] show ?thesis by (simp add: rez_computation_def)
  qed
qed (simp add: rez_computation_def)

lemma rez_computations_settles:
  assumes J: "json_obj_ok J"
  shows "rez_computations J getenv run names comps = (Inr None, comps') \<Longrightarrow> js_isMap J comps \<Longrightarrow> distinct names \<Longrightarrow>
    set names \<subseteq> set (map fst (js_members J comps)) \<Longrightarrow>
    js_isMap J comps' \<and> (js_type J comps = objectValue \<longrightarrow> js_type J comps' = objectValue) \<and>
    set (map fst (js_members J comps')) = set (map fst (js_members J comps)) \<and>
    (\<forall>n \<in> set names. \<exists>c. js_get J comps' n = Inr c \<and> settled_computation J getenv c) \<and>
    (\<forall>n. n \<notin> set names \<longrightarrow> js_get J comps' n = js_get J comps n)"
proof (induction names arbitrary: comps)
  case Nil
  then show ?case by simp
next
  case (Cons name names)
  obtain c where c: "js_get J comps name = Inr c" using js_get_ok [OF J Cons.prems(2)] by blast
  obtain r c' where r: "rez_computation J getenv run name c = (r, c')" by fastforce
  obtain comps1 where at: "js_at J name (rez_computation J getenv run name) comps = (r, comps1)"
      "js_type J comps1 = objectValue" "js_get J comps1 name = Inr c'"
      "\<forall>k'. k' \<noteq> name \<longrightarrow> js_get J comps1 k' = js_get J comps k'"
      "set (map fst (js_members J comps1)) = insert name (set (map fst (js_members J comps)))"
    using js_at_run [OF J Cons.prems(2) c, of "rez_computation J getenv run name", OF r] by blast
  have rn: "r = Inr None" and rest: "rez_computations J getenv run names comps1 = (Inr None, comps')"
    using Cons.prems(1) at(1) by (auto elim!: bindp_InrE split: option.splits)
  have mem: "set (map fst (js_members J comps1)) = set (map fst (js_members J comps))"
    using at(5) Cons.prems(4) by auto
  have m1: "js_isMap J comps1" using at(2) by (simp add: js_isMap_def)
  have "distinct names" "set names \<subseteq> set (map fst (js_members J comps1))"
    using Cons.prems(3,4) mem by auto
  note ih = Cons.IH [OF rest m1 this]
  have "name \<notin> set names" using Cons.prems(3) by simp
  then have "js_get J comps' name = Inr c'" using ih at(3) by metis
  moreover have "settled_computation J getenv c'"
    using rez_computation_settles [OF J] r rn by blast
  moreover have "js_get J comps' n = js_get J comps n" if "n \<notin> set (name # names)" for n
    using ih at(4) that by simp
  ultimately show ?case using ih mem at(2) by simp
qed

lemma rez_computations_settled:
  assumes J: "json_obj_ok J"
  shows "js_isMap J comps \<Longrightarrow> distinct names \<Longrightarrow>
    \<forall>n \<in> set names. \<exists>c. js_get J comps n = Inr c \<and> settled_computation J getenv c \<Longrightarrow>
    \<exists>comps'. rez_computations J getenv run names comps = (Inr None, comps')"
proof (induction names arbitrary: comps)
  case Nil
  then show ?case by simp
next
  case (Cons name names)
  obtain c where c: "js_get J comps name = Inr c" "settled_computation J getenv c" using Cons.prems(3) by auto
  obtain c' where r: "rez_computation J getenv run name c = (Inr None, c')"
    using settled_computation_run [OF J c(2)] by blast
  obtain comps1 where at: "js_at J name (rez_computation J getenv run name) comps = (Inr None, comps1)"
      "js_type J comps1 = objectValue" "\<forall>k'. k' \<noteq> name \<longrightarrow> js_get J comps1 k' = js_get J comps k'"
    using js_at_run [OF J Cons.prems(1) c(1), of "rez_computation J getenv run name", OF r] by blast
  have "js_isMap J comps1" using at(2) by (simp add: js_isMap_def)
  moreover have "\<exists>c. js_get J comps1 n = Inr c \<and> settled_computation J getenv c" if "n \<in> set names" for n
  proof -
    have "n \<noteq> name" using that Cons.prems(2) by auto
    with at(3) Cons.prems(3) that show ?thesis by simp
  qed
  ultimately obtain comps' where "rez_computations J getenv run names comps1 = (Inr None, comps')"
    using Cons.IH [of comps1] Cons.prems(2) by auto
  with at(1) show ?case by simp
qed


definition sample_def :: json where
  "sample_def = JObject [(''computations'', JObject [(''render'', JObject [(''requirements'', JObject
     [(''rez_packages'', JString ''renderer-1'')])])])]"

definition sample_resolver :: "spawn_args \<Rightarrow> (int option \<times> string \<times> string) option" where
  "sample_resolver sa = Some (Some 0, ''resolved'', [])"


subsection \<open>What a sequence of stores leaves\<close>

text \<open>
  \<open>js_rep J j f K\<close>: the value \<open>j\<close> has the members \<open>K\<close>, and looking up a name gives \<open>f\<close> of it. A program that
  builds a value takes one such view to another (\<open>js_builds\<close>).
\<close>

definition js_rep :: "('j, 'z) json_obj_scheme \<Rightarrow> 'j \<Rightarrow> (string \<Rightarrow> 'j) \<Rightarrow> string set \<Rightarrow> bool" where
  "js_rep J j f K \<longleftrightarrow> js_isMap J j \<and> (\<forall>k. js_get J j k = Inr (f k)) \<and> set (map fst (js_members J j)) = K"

definition js_builds ::
  "('j, 'z) json_obj_scheme \<Rightarrow> (string \<Rightarrow> 'j) \<Rightarrow> string set \<Rightarrow> ('j, unit) proc \<Rightarrow> (string \<Rightarrow> 'j) \<Rightarrow> string set \<Rightarrow> bool" where
  "js_builds J f K p g L \<longleftrightarrow> (\<forall>j. js_rep J j f K \<longrightarrow> (\<exists>j'. p j = (Inr (), j') \<and> js_rep J j' g L \<and> js_type J j' = objectValue))"

lemma js_rep_get: "js_rep J j f K \<Longrightarrow> js_get J j k = Inr (f k)"
  by (simp add: js_rep_def)

lemma js_rep_null:
  assumes "json_obj_ok J"
  shows "js_rep J (js_null J) (\<lambda>_. js_null J) {}"
  using json_laws(2,3) [OF obj_ok_json [OF assms]] obj_laws(8) [OF assms]
  by (simp add: js_rep_def js_isMap_def js_isNull_def)

lemma js_rep_empty:
  assumes "json_obj_ok J"
  shows "js_rep J (js_emptyObject J) (\<lambda>_. js_null J) {}"
proof -
  have m: "js_isMap J (js_emptyObject J)" using obj_laws(11) [OF assms] by (simp add: js_isMap_def)
  show ?thesis
    using m obj_laws(12) [OF assms] obj_ok_members(3) [OF assms m] by (simp add: js_rep_def)
qed

lemma js_rep_of:
  assumes "json_obj_ok J" and "js_isMap J j"
  shows "\<exists>f. js_rep J j f (set (map fst (js_members J j)))"
  using js_get_ok [OF assms] assms(2) by (auto simp: js_rep_def intro!: choice)

lemma js_builds_seq:
  "js_builds J f K p g L \<Longrightarrow> js_builds J g L q h M \<Longrightarrow> js_builds J f K (seqp p q) h M"
  unfolding js_builds_def by (metis seqp_Inr)

lemma js_builds_put:
  assumes "json_obj_ok J"
  shows "js_builds J f K (js_put J k v) (f(k := v)) (insert k K)"
  unfolding js_builds_def
proof (intro allI impI)
  fix j assume r: "js_rep J j f K"
  then have "js_isMap J j" by (simp add: js_rep_def)
  from obj_ok_set [OF assms this, of k v] r
  show "\<exists>j'. js_put J k v j = (Inr (), j') \<and> js_rep J j' (f(k := v)) (insert k K) \<and> js_type J j' = objectValue"
    by (auto simp: js_put_def js_rep_def js_isMap_def)
qed

lemma js_builds_at:
  assumes "json_obj_ok J" and "js_rep J s g L" and "js_builds J g L p h M" and "f k = s"
  shows "\<exists>sub. js_rep J sub h M \<and> js_type J sub = objectValue \<and> js_builds J f K (js_at J k p) (f(k := sub)) (insert k K)"
proof -
  obtain sub where sub: "p (f k) = (Inr (), sub)" "js_rep J sub h M" "js_type J sub = objectValue"
    using assms(2-4) unfolding js_builds_def by blast
  have "js_builds J f K (js_at J k p) (f(k := sub)) (insert k K)"
    unfolding js_builds_def
  proof (intro allI impI)
    fix j assume r: "js_rep J j f K"
    then have m: "js_isMap J j" by (simp add: js_rep_def)
    from js_at_run [where p = p, OF assms(1) m js_rep_get [OF r] sub(1)] r
    show "\<exists>j'. js_at J k p j = (Inr (), j') \<and> js_rep J j' (f(k := sub)) (insert k K) \<and> js_type J j' = objectValue"
      by (auto simp: js_rep_def js_isMap_def)
  qed
  with sub show ?thesis by blast
qed

lemma js_builds_reset:
  assumes "json_obj_ok J" and "js_builds J (\<lambda>_. js_null J) {} p g L"
  shows "\<exists>j'. seqp (upd (\<lambda>_. js_null J)) p j = (Inr (), j') \<and> js_rep J j' g L \<and> js_type J j' = objectValue"
  using assms(2) js_rep_null [OF assms(1)] by (auto simp: js_builds_def)

lemma js_at_InrE:
  assumes "js_at J k p j = (Inr a, j')"
  obtains sub sub' where "js_get J j k = Inr sub" and "p sub = (Inr a, sub')" and "js_set J k sub' j = Inr j'"
  using assms by (auto simp: js_at_def split: sum.splits prod.splits)

lemma js_set_InrD:
  assumes "json_obj_ok J" and "js_set J k v j = Inr j'"
  shows "js_isMap J j" and "js_get J j' k = Inr v"
proof -
  show m: "js_isMap J j" using obj_laws(9) [OF assms(1)] assms(2) by blast
  show "js_get J j' k = Inr v" using obj_ok_set [OF assms(1) m, of k v] assms(2) by auto
qed

lemma js_put_InrD: "js_put J k v j = (Inr u, j') \<Longrightarrow> js_set J k v j = Inr j'"
  by (auto simp: js_put_def split: sum.splits)

end
