(* ===== verification/Processes.thy ===== *)
theory Processes
  imports Environments
begin

text \<open>
  Child processes (\<^verbatim>\<open>arras4_core_impl/lib/execute\<close>): \<open>MemoryTracking\<close>, the state machine of \<open>Process\<close> with
  its termination thread, and \<open>ProcessManager\<close>, which reaps the children, accounts for their memory and
  keeps them in control groups.

  Process objects are shared through pointers, so they live in a store (\<open>pm_heap\<close>) and a pointer is an
  index into it. An operation is one step: all of \<open>Process\<close> runs with the object's mutex held. Calls that
  leave the program are recorded in \<open>pm_calls\<close>; what they answer is an argument of the operation: the pid
  \<open>fork\<close> gives, whether a control group could be made, the status \<open>waitpid\<close> delivers.
\<close>

subsection \<open>States and statuses\<close>

datatype process_state = NotSpawned | Spawned | Terminating | Terminated

datatype state_change = SC_Success | SC_Achieved | SC_InProgress | SC_Invalid | SC_Terminated

definition StateChange_success :: "state_change \<Rightarrow> bool" where
  "StateChange_success sc \<longleftrightarrow> sc = SC_Success \<or> sc = SC_Achieved \<or> sc = SC_InProgress"

datatype exit_type = ET_Exit | ET_Signal | ET_Internal

record exit_status =
  es_exitType :: exit_type
  es_status :: int

definition ES_NO_EXIT :: int where "ES_NO_EXIT = 0"
definition ES_PROCESS_DELETED :: int where "ES_PROCESS_DELETED = 1"
definition ES_FORK_FAILED :: int where "ES_FORK_FAILED = 2"
definition ES_NOT_SPAWNED :: int where "ES_NOT_SPAWNED = 3"
definition ES_UNINTERRUPTABLE :: int where "ES_UNINTERRUPTABLE = 4"
definition ES_UNKNOWN :: int where "ES_UNKNOWN = 5"

definition internal_status :: "int \<Rightarrow> exit_status" where
  "internal_status c = \<lparr>es_exitType = ET_Internal, es_status = c\<rparr>"

definition ExitStatus_internalCodeString :: "int \<Rightarrow> string" where
  "ExitStatus_internalCodeString code =
     (if code = ES_NO_EXIT then ''has not exited''
      else if code = ES_PROCESS_DELETED then '': process object was deleted''
      else if code = ES_FORK_FAILED then '': fork() system call failed while attempting to launch''
      else if code = ES_NOT_SPAWNED then ''did not run''
      else if code = ES_UNINTERRUPTABLE then ''cannot be terminated''
      else '': execution status is unknown'')"

definition ExitStatus_convertHighExitToSignal :: "exit_status \<Rightarrow> bool \<times> exit_status" where
  "ExitStatus_convertHighExitToSignal es =
     (if es_exitType es = ET_Exit \<and> 128 < es_status es \<and> es_status es < 128 + 32
      then (True, \<lparr>es_exitType = ET_Signal, es_status = es_status es - 128\<rparr>)
      else (False, es))"

subsection \<open>MemoryTracking\<close>

record memory_tracking =
  mt_availableMb :: u32
  mt_reservedMb :: u32
  mt_borrowedMb :: u32

definition MemoryTracking_set :: "u32 \<Rightarrow> memory_tracking" where
  "MemoryTracking_set available = \<lparr>mt_availableMb = available, mt_reservedMb = 0, mt_borrowedMb = 0\<rparr>"

definition MemoryTracking_reserve :: "u32 \<Rightarrow> memory_tracking \<Rightarrow> u32 \<times> memory_tracking" where
  "MemoryTracking_reserve amount mt =
     (if mt_reservedMb mt + mt_borrowedMb mt + amount \<le> mt_availableMb mt
      then (0, mt\<lparr>mt_reservedMb := mt_reservedMb mt + amount\<rparr>)
      else (amount - (mt_availableMb mt - mt_reservedMb mt - mt_borrowedMb mt), mt))"

definition MemoryTracking_release :: "u32 \<Rightarrow> memory_tracking \<Rightarrow> memory_tracking" where
  "MemoryTracking_release amount mt = mt\<lparr>mt_reservedMb := mt_reservedMb mt - amount\<rparr>"

definition MemoryTracking_borrow :: "u32 \<Rightarrow> memory_tracking \<Rightarrow> u32 \<times> memory_tracking" where
  "MemoryTracking_borrow amount mt =
     (if mt_reservedMb mt + mt_borrowedMb mt + amount \<le> mt_availableMb mt
      then (amount, mt\<lparr>mt_borrowedMb := mt_borrowedMb mt + amount\<rparr>)
      else (0, mt))"

definition MemoryTracking_repay :: "u32 \<Rightarrow> memory_tracking \<Rightarrow> memory_tracking" where
  "MemoryTracking_repay amount mt = mt\<lparr>mt_borrowedMb := mt_borrowedMb mt - amount\<rparr>"

subsection \<open>Objects and calls\<close>

text \<open>
  Where the termination thread stands: no thread; started; in one of its three timed waits, which give up
  the mutex; ended, but not joined.
\<close>

datatype termination_thread = No_thread | Entered bool | Wait_stop | Wait_term | Wait_kill | Thread_ended

text \<open>\<open>pid_t\<close> values are natural numbers, 0 for none. The observer matters by whether it is set.\<close>

record process =
  pr_id :: uuid
  pr_name :: string
  pr_sessionId :: uuid
  pr_cleanupProcessGroup :: bool
  pr_observer :: bool
  pr_enforceMemory :: bool
  pr_assignedMb :: u32
  pr_enforceCores :: bool
  pr_assignedCores :: u32
  pr_terminationThread :: termination_thread
  pr_pid :: nat
  pr_state :: process_state
  pr_status :: exit_status
  pr_cgroupExists :: bool
  pr_reservedMb :: u32
  pr_borrowedMb :: u32

text \<open>\<open>Kill\<close> of a group is \<^verbatim>\<open>kill(-pid, sig)\<close>.\<close>

datatype outside_call =
    OnSpawn uuid uuid nat
  | OnTerminate uuid uuid exit_status
  | Kill_group nat int
  | Kill_process nat int
  | Group_cleanup nat
  | Send_stop uuid uuid
  | CG_create uuid u64 "u32 option"
  | CG_destroy uuid
  | CG_limit uuid u64
  | CG_monitor string bool

definition SIGTERM :: int where "SIGTERM = 15"
definition SIGKILL :: int where "SIGKILL = 9"

record process_manager =
  pm_heap :: "process list"
  pm_processes :: "(uuid, nat) stdmap"
  pm_pidToProcess :: "(nat, nat) stdmap"
  pm_controlGroup :: bool
  pm_useControlGroups :: bool
  pm_enforceMemory :: bool
  pm_loanMemory :: bool
  pm_enforceCpu :: bool
  pm_memory :: memory_tracking
  pm_controller :: bool
  pm_calls :: "outside_call list"

abbreviation obj :: "process_manager \<Rightarrow> nat \<Rightarrow> process" where
  "obj m a \<equiv> pm_heap m ! a"

definition upd_obj :: "nat \<Rightarrow> (process \<Rightarrow> process) \<Rightarrow> process_manager \<Rightarrow> process_manager" where
  "upd_obj a f m = m\<lparr>pm_heap := (pm_heap m)[a := f (obj m a)]\<rparr>"

definition call :: "outside_call \<Rightarrow> process_manager \<Rightarrow> process_manager" where
  "call c m = m\<lparr>pm_calls := pm_calls m @ [c]\<rparr>"

subsection \<open>Control groups\<close>

definition ONE_MB :: u64 where "ONE_MB = 1024 * 1024"

text \<open>
  \<open>initControlGroups\<close> of the constructor; \<open>cg_ok\<close> tells whether the control group could be made. The monitor
  threads the constructor starts are the operations \<open>handleChildExit\<close> and \<open>handleOomCondition\<close> below.
\<close>

definition ProcessManager_new :: "u32 \<Rightarrow> bool \<Rightarrow> bool \<Rightarrow> bool \<Rightarrow> bool \<Rightarrow> bool \<Rightarrow> process_manager" where
  "ProcessManager_new availableMemoryMb useCgroups enforceMemory enforceCpu loanMemory cg_ok =
     (let on = useCgroups \<and> cg_ok
      in \<lparr>pm_heap = [], pm_processes = [], pm_pidToProcess = [], pm_controlGroup = on, pm_useControlGroups = on,
          pm_enforceMemory = (on \<and> enforceMemory), pm_loanMemory = (on \<and> loanMemory), pm_enforceCpu = (on \<and> enforceCpu),
          pm_memory = MemoryTracking_set availableMemoryMb, pm_controller = False, pm_calls = []\<rparr>)"

definition ProcessManager_setProcessController :: "bool \<Rightarrow> process_manager \<Rightarrow> process_manager" where
  "ProcessManager_setProcessController c m = m\<lparr>pm_controller := c\<rparr>"

definition ProcessManager_createControlSubgroup :: "bool \<Rightarrow> nat \<Rightarrow> process_manager \<Rightarrow> process_manager" where
  "ProcessManager_createControlSubgroup cg_ok a m =
     (let p = obj m a
      in if pr_cgroupExists p then m
         else
           (let bytes = (if pr_enforceMemory p then ucast (pr_assignedMb p) * ONE_MB else 0);
                cores = (if pm_enforceCpu m then Some (pr_assignedCores p) else None);
                m = call (CG_create (pr_id p) bytes cores) m
            in if cg_ok then upd_obj a (\<lambda>p. p\<lparr>pr_cgroupExists := True\<rparr>) m else m))"

definition ProcessManager_destroyControlSubgroup :: "bool \<Rightarrow> nat \<Rightarrow> process_manager \<Rightarrow> process_manager" where
  "ProcessManager_destroyControlSubgroup cg_ok a m =
     (let p = obj m a
      in if \<not> pr_cgroupExists p then m
         else
           (let m = call (CG_destroy (pr_id p)) m
            in if cg_ok then upd_obj a (\<lambda>p. p\<lparr>pr_cgroupExists := False\<rparr>) m else m))"

subsection \<open>Releasing memory\<close>

definition ProcessManager_releaseMemory :: "nat \<Rightarrow> process_manager \<Rightarrow> process_manager" where
  "ProcessManager_releaseMemory a m =
     upd_obj a (\<lambda>p. p\<lparr>pr_reservedMb := 0\<rparr>)
       (m\<lparr>pm_memory := MemoryTracking_release (pr_reservedMb (obj m a)) (pm_memory m)\<rparr>)"

definition ProcessManager_failedFork_cb :: "bool \<Rightarrow> nat \<Rightarrow> process_manager \<Rightarrow> process_manager" where
  "ProcessManager_failedFork_cb cg_ok a m =
     (let m = ProcessManager_releaseMemory a m
      in if pm_controlGroup m then ProcessManager_destroyControlSubgroup cg_ok a m else m)"

definition ProcessManager_exit_cb :: "bool \<Rightarrow> nat \<Rightarrow> process_manager \<Rightarrow> process_manager" where
  "ProcessManager_exit_cb cg_ok a m =
     (let m = ProcessManager_releaseMemory a m
      in if pm_controlGroup m then ProcessManager_destroyControlSubgroup cg_ok a m else m)"

subsection \<open>Termination\<close>

definition notify_terminated :: "nat \<Rightarrow> process_manager \<Rightarrow> process_manager" where
  "notify_terminated a m =
     (let p = obj m a
      in if pr_observer p then call (OnTerminate (pr_id p) (pr_sessionId p) (pr_status p)) m else m)"

definition Process_terminated :: "bool \<Rightarrow> exit_status \<Rightarrow> nat \<Rightarrow> process_manager \<Rightarrow> process_manager" where
  "Process_terminated cg_ok status a m =
     notify_terminated a
       (if pr_state (obj m a) \<noteq> Terminated then
          upd_obj a (\<lambda>p. p\<lparr>pr_state := Terminated, pr_pid := 0\<rparr>)
            (ProcessManager_exit_cb cg_ok a (upd_obj a (\<lambda>p. p\<lparr>pr_status := status\<rparr>) m))
        else m)"

definition Process_terminated_internal :: "int \<Rightarrow> nat \<Rightarrow> process_manager \<Rightarrow> process_manager" where
  "Process_terminated_internal code a m =
     notify_terminated a
       (if pr_state (obj m a) \<noteq> Terminated then
          upd_obj a (\<lambda>p. p\<lparr>pr_status := internal_status code, pr_state := Terminated, pr_pid := 0\<rparr>) m
        else m)"

text \<open>Assigning to a thread object that still has a thread ends the program.\<close>

definition Process_terminate :: "bool \<Rightarrow> nat \<Rightarrow> (process_manager, state_change) proc" where
  "Process_terminate fast a m =
     (case pr_state (obj m a) of
        NotSpawned \<Rightarrow> (Inr SC_Success, Process_terminated_internal ES_NOT_SPAWNED a m)
      | Terminating \<Rightarrow> (Inr SC_InProgress, m)
      | Terminated \<Rightarrow> (Inr SC_Success, m)
      | Spawned \<Rightarrow>
          (let m = upd_obj a (\<lambda>p. p\<lparr>pr_state := Terminating\<rparr>) m
           in if pr_terminationThread (obj m a) \<noteq> No_thread then (Inl (Undefined ''std::terminate''), m)
              else (Inr SC_InProgress, upd_obj a (\<lambda>p. p\<lparr>pr_terminationThread := Entered fast\<rparr>) m)))"

text \<open>
  One step of the termination thread, from one wait to the next. \<open>stop\<close> is the answer of the process
  controller, and \<open>timeout\<close> tells how a wait ended; a wait that did not time out ends when the process is
  terminated. \<open>None\<close>: the thread cannot run.
\<close>

definition term_kill :: "nat \<Rightarrow> process_manager \<Rightarrow> process_manager" where
  "term_kill a m =
     upd_obj a (\<lambda>p. p\<lparr>pr_terminationThread := Wait_kill\<rparr>) (call (Kill_group (pr_pid (obj m a)) SIGKILL) m)"

definition term_sigterm :: "nat \<Rightarrow> process_manager \<Rightarrow> process_manager" where
  "term_sigterm a m =
     upd_obj a (\<lambda>p. p\<lparr>pr_terminationThread := Wait_term\<rparr>) (call (Kill_group (pr_pid (obj m a)) SIGTERM) m)"

definition thread_end :: "nat \<Rightarrow> process_manager \<Rightarrow> process_manager" where
  "thread_end a m = upd_obj a (\<lambda>p. p\<lparr>pr_terminationThread := Thread_ended\<rparr>) m"

definition ProcessManager_controlledStop :: "bool \<Rightarrow> nat \<Rightarrow> process_manager \<Rightarrow> bool \<times> process_manager" where
  "ProcessManager_controlledStop stop a m =
     (if pm_controller m then (stop, call (Send_stop (pr_id (obj m a)) (pr_sessionId (obj m a))) m) else (False, m))"

definition Process_terminationProc :: "bool \<Rightarrow> bool \<Rightarrow> nat \<Rightarrow> process_manager \<Rightarrow> process_manager option" where
  "Process_terminationProc stop timeout a m =
     (let p = obj m a; over = (pr_state p = Terminated)
      in case pr_terminationThread p of
           No_thread \<Rightarrow> None
         | Thread_ended \<Rightarrow> None
         | Entered fast \<Rightarrow>
             if pr_state p \<noteq> Terminating \<or> pr_pid p = 0 then Some (thread_end a m)
             else if fast then Some (term_kill a m)
             else (case ProcessManager_controlledStop stop a m of
                     (True, m) \<Rightarrow> Some (upd_obj a (\<lambda>p. p\<lparr>pr_terminationThread := Wait_stop\<rparr>) m)
                   | (False, m) \<Rightarrow> Some (term_sigterm a m))
         | Wait_stop \<Rightarrow> if over then Some (thread_end a m) else if timeout then Some (term_sigterm a m) else None
         | Wait_term \<Rightarrow> if over then Some (thread_end a m) else if timeout then Some (term_kill a m) else None
         | Wait_kill \<Rightarrow>
             if over then Some (thread_end a m)
             else if timeout then Some (thread_end a (Process_terminated_internal ES_UNINTERRUPTABLE a m)) else None)"

text \<open>\<open>reset\<close> joins the termination thread, so it waits (\<open>None\<close>) while that runs.\<close>

definition Process_reset :: "nat \<Rightarrow> process_manager \<Rightarrow> (state_change \<times> process_manager) option" where
  "Process_reset a m =
     (if pr_state (obj m a) \<noteq> Terminated then Some (SC_Invalid, m)
      else if pr_terminationThread (obj m a) \<notin> {No_thread, Thread_ended} then None
      else Some (SC_Success, upd_obj a (\<lambda>p. p\<lparr>pr_terminationThread := No_thread, pr_state := NotSpawned\<rparr>) m))"

text \<open>\<open>waitForExit\<close>: the status, once the process is terminated.\<close>

definition Process_waitForExit :: "nat \<Rightarrow> process_manager \<Rightarrow> exit_status option" where
  "Process_waitForExit a m = (if pr_state (obj m a) = Terminated then Some (pr_status (obj m a)) else None)"

definition Process_signal :: "int \<Rightarrow> bool \<Rightarrow> nat \<Rightarrow> process_manager \<Rightarrow> process_manager" where
  "Process_signal signum sendToGroup a m =
     (let pid = pr_pid (obj m a)
      in if pid = 0 then m
         else if sendToGroup then call (Kill_group pid signum) m
         else call (Kill_process pid signum) m)"

text \<open>The destructor joins the termination thread as well.\<close>

definition Process_delete :: "bool \<Rightarrow> nat \<Rightarrow> process_manager \<Rightarrow> process_manager option" where
  "Process_delete cg_ok a m =
     (let m' = Process_terminated cg_ok (internal_status ES_PROCESS_DELETED) a m
      in if pr_terminationThread (obj m' a) \<notin> {No_thread, Thread_ended} then None
         else Some (upd_obj a (\<lambda>p. p\<lparr>pr_terminationThread := No_thread\<rparr>) m'))"

subsection \<open>Reserving memory\<close>

text \<open>
  The process that has borrowed the most; among equals the first in the order of identifiers.
\<close>

fun biggest_borrower :: "process_manager \<Rightarrow> (uuid, nat) stdmap \<Rightarrow> u32 \<Rightarrow> nat option \<Rightarrow> u32 \<times> nat option" where
  "biggest_borrower m [] maxBorrowed b = (maxBorrowed, b)"
| "biggest_borrower m ((i, a) # es) maxBorrowed b =
     (if maxBorrowed < pr_borrowedMb (obj m a) then biggest_borrower m es (pr_borrowedMb (obj m a)) (Some a)
      else biggest_borrower m es maxBorrowed b)"

definition ProcessManager_findBiggestBorrower :: "process_manager \<Rightarrow> u32 \<times> nat option" where
  "ProcessManager_findBiggestBorrower m = biggest_borrower m (pm_processes m) 0 None"

lemma biggest_borrower_Some:
  "biggest_borrower m es maxB b = (amount, Some a) \<Longrightarrow>
     (a \<in> snd ` set es \<and> amount = pr_borrowedMb (obj m a) \<and> maxB < amount) \<or> (b = Some a \<and> amount = maxB)"
  by (induction m es maxB b rule: biggest_borrower.induct) (auto split: if_splits)

lemma findBiggestBorrower_positive:
  "ProcessManager_findBiggestBorrower m = (amount, Some a) \<Longrightarrow>
     0 < amount \<and> a \<in> snd ` set (pm_processes m) \<and> amount = pr_borrowedMb (obj m a)"
  by (auto simp: ProcessManager_findBiggestBorrower_def dest!: biggest_borrower_Some)

text \<open>
  The loop that ends borrowers until the deficit is covered. It waits for \<open>mBorrowedMb\<close> of the borrower to
  become 0; no operation lowers that variable (lemma \<open>borrowed_never_lowered\<close> of \<open>Process_Runs\<close>), so a
  wait that does not end at once never ends. The process being spawned holds its own mutex, which
  \<open>terminate\<close> would lock again if it were the borrower itself.
\<close>

function kill_borrowers :: "nat \<Rightarrow> int \<Rightarrow> (process_manager, unit) proc" where
  "kill_borrowers self deficit m =
     (if deficit \<le> 0 then (Inr (), m)
      else case ProcessManager_findBiggestBorrower m of
             (_, None) \<Rightarrow> (Inr (), m)
           | (amount, Some a) \<Rightarrow>
               if a = self then (Inl (Undefined ''locks a mutex it holds''), m)
               else (case Process_terminate True a m of
                       (Inl e, m') \<Rightarrow> (Inl e, m')
                     | (Inr _, m') \<Rightarrow>
                         if 0 < pr_borrowedMb (obj m' a) then (Inl (NoReturn ''waits for borrowed memory''), m')
                         else kill_borrowers self (deficit - int (unat amount)) m'))"
  by pat_completeness auto
termination
  by (relation "measure (\<lambda>(self, deficit, m). nat deficit)")
    (auto dest!: findBiggestBorrower_positive [OF sym] simp: word_less_def)

declare kill_borrowers.simps [simp del]

definition set_reserved :: "nat \<Rightarrow> u32 \<Rightarrow> process_manager \<Rightarrow> process_manager" where
  "set_reserved a r m = upd_obj a (\<lambda>p. p\<lparr>pr_reservedMb := r\<rparr>) m"

definition pm_reserve :: "u32 \<Rightarrow> process_manager \<Rightarrow> u32 \<times> process_manager" where
  "pm_reserve amount m =
     (case MemoryTracking_reserve amount (pm_memory m) of (d, mt) \<Rightarrow> (d, m\<lparr>pm_memory := mt\<rparr>))"

text \<open>The second attempt, for as much as there is, whose answer nothing looks at.\<close>

definition reserve_rest :: "nat \<Rightarrow> u32 \<Rightarrow> u32 \<Rightarrow> process_manager \<Rightarrow> process_manager" where
  "reserve_rest a reservation deficit m =
     (let r = reservation - deficit in set_reserved a r (snd (pm_reserve r m)))"

definition ProcessManager_reserveMemory :: "nat \<Rightarrow> (process_manager, unit) proc" where
  "ProcessManager_reserveMemory a m =
     (let reservation = pr_assignedMb (obj m a);
          (deficit, m) = pm_reserve reservation m
      in if deficit = 0 then (Inr (), set_reserved a reservation m)
         else if pm_loanMemory m then
           (case kill_borrowers a (int (unat deficit)) m of
              (Inl e, m) \<Rightarrow> (Inl e, m)
            | (Inr _, m) \<Rightarrow>
                (case pm_reserve reservation m of
                   (deficit, m) \<Rightarrow>
                     if deficit = 0 then (Inr (), set_reserved a reservation m)
                     else (Inr (), reserve_rest a reservation deficit m)))
         else (Inr (), reserve_rest a reservation deficit m))"

subsection \<open>Spawning\<close>

definition ProcessManager_preFork_cb :: "bool \<Rightarrow> nat \<Rightarrow> (process_manager, unit) proc" where
  "ProcessManager_preFork_cb cg_ok a =
     seqp (ProcessManager_reserveMemory a)
       (upd (\<lambda>m. if pm_controlGroup m then ProcessManager_createControlSubgroup cg_ok a m else m))"

definition ProcessManager_postFork_cb :: "nat \<Rightarrow> process_manager \<Rightarrow> process_manager" where
  "ProcessManager_postFork_cb a m =
     (let pid = pr_pid (obj m a)
      in case map_of (pm_processes m) (pr_id (obj m a)) of
           Some b \<Rightarrow> if pid \<noteq> 0 then m\<lparr>pm_pidToProcess := map_set pid b (pm_pidToProcess m)\<rparr> else m
         | None \<Rightarrow> m)"

definition apply_args :: "spawn_args \<Rightarrow> process \<Rightarrow> process" where
  "apply_args sa p =
     p\<lparr>pr_enforceMemory := sa_enforceMemory sa, pr_enforceCores := sa_enforceCores sa,
       pr_assignedMb := sa_assignedMb sa, pr_assignedCores := sa_assignedCores sa,
       pr_observer := sa_observer sa, pr_cleanupProcessGroup := sa_cleanupProcessGroup sa\<rparr>"

text \<open>
  \<open>pipes_ok\<close>: \<open>pipe\<close> succeeded; \<open>pid\<close>: what \<open>fork\<close> gives the parent, \<open>None\<close> for its failure; \<open>cg_ok\<close>: the
  control group operations succeed. The child's side is below.
\<close>

definition Process_fork_failed :: "bool \<Rightarrow> nat \<Rightarrow> process_manager \<Rightarrow> process_manager" where
  "Process_fork_failed cg_ok a m = ProcessManager_failedFork_cb cg_ok a (Process_terminated_internal ES_FORK_FAILED a m)"

definition Process_forked :: "nat \<Rightarrow> nat \<Rightarrow> process_manager \<Rightarrow> process_manager" where
  "Process_forked pid a m =
     (let m = ProcessManager_postFork_cb a (upd_obj a (\<lambda>p. p\<lparr>pr_pid := pid, pr_state := Spawned\<rparr>) m);
          p = obj m a
      in if pr_observer p then call (OnSpawn (pr_id p) (pr_sessionId p) pid) m else m)"

definition Process_spawn :: "bool \<Rightarrow> bool \<Rightarrow> nat option \<Rightarrow> spawn_args \<Rightarrow> nat \<Rightarrow> (process_manager, state_change) proc" where
  "Process_spawn pipes_ok cg_ok fork sa a m =
     (if pr_state (obj m a) \<in> {Terminating, Terminated} then (Inr SC_Invalid, m)
      else if pr_state (obj m a) = Spawned then (Inr SC_Achieved, m)
      else
        (let m = upd_obj a (apply_args sa) m
         in if sa_ioCapture sa \<and> \<not> pipes_ok then (Inr SC_Terminated, Process_terminated_internal ES_FORK_FAILED a m)
            else (case ProcessManager_preFork_cb cg_ok a m of
                    (Inl e, m) \<Rightarrow> (Inl e, m)
                  | (Inr _, m) \<Rightarrow>
                      (case fork of
                         None \<Rightarrow> (Inr SC_Terminated, Process_fork_failed cg_ok a m)
                       | Some pid \<Rightarrow> (Inr SC_Success, Process_forked pid a m)))))"

text \<open>
  The child's side: what it asks the system for until \<open>execvpe\<close>, which does not come back when it succeeds.
  The answers: whether adding itself to the group and redirecting worked, and what \<open>stat\<close> says of the
  working directory (nothing, no directory, a directory).
\<close>

datatype stat_answer = No_stat | Not_directory | Is_directory

datatype child_call =
    Add_self_to_subgroup uuid
  | Redirect_output
  | Setpgid
  | Stat string
  | Chdir string
  | Execvpe string "string list" "string list"
  | Exit_process int

definition EXITSTATUS_EXECV_FAIL :: int where "EXITSTATUS_EXECV_FAIL = 5"

definition Process_doExec :: "stat_answer \<Rightarrow> spawn_args \<Rightarrow> child_call list" where
  "Process_doExec st sa =
     [Setpgid] @
     (if sa_workingDirectory sa = [] then []
      else Stat (sa_workingDirectory sa) # (if st = Is_directory then [Chdir (sa_workingDirectory sa)] else [])) @
     [Execvpe (sa_program sa) (sa_program sa # sa_args sa) (Environment_asVector (sa_environment sa)),
      Exit_process EXITSTATUS_EXECV_FAIL]"

definition Process_child :: "bool \<Rightarrow> stat_answer \<Rightarrow> spawn_args \<Rightarrow> nat \<Rightarrow> process_manager \<Rightarrow> child_call list" where
  "Process_child redirect_ok st sa a m =
     (if pm_controlGroup m \<and> pr_cgroupExists (obj m a) then [Add_self_to_subgroup (pr_id (obj m a))] else []) @
     (if sa_ioCapture sa then
        Redirect_output # (if redirect_ok then Process_doExec st sa else [Exit_process EXITSTATUS_EXECV_FAIL])
      else Process_doExec st sa)"

subsection \<open>The manager's tables\<close>

definition Process_new :: "uuid \<Rightarrow> string \<Rightarrow> uuid \<Rightarrow> exn + process" where
  "Process_new i name sid =
     (if UUID_isNull i \<or> UUID_isNull sid then
        Inl (InvalidArgument (in_quotes ''Process'' @ '' requires a valid id and sessionId''))
      else if name = [] then Inl (InvalidArgument (in_quotes ''Process'' @ '' requires a non-empty name''))
      else Inr \<lparr>pr_id = i, pr_name = name, pr_sessionId = sid, pr_cleanupProcessGroup = False, pr_observer = False,
        pr_enforceMemory = False, pr_assignedMb = 0, pr_enforceCores = False, pr_assignedCores = 0,
        pr_terminationThread = No_thread, pr_pid = 0, pr_state = NotSpawned, pr_status = internal_status ES_NO_EXIT,
        pr_cgroupExists = False, pr_reservedMb = 0, pr_borrowedMb = 0\<rparr>)"

definition ProcessManager_addProcess ::
  "'u uuid_api_scheme \<Rightarrow> uuid \<Rightarrow> string \<Rightarrow> uuid \<Rightarrow> (process_manager, nat) proc" where
  "ProcessManager_addProcess U i name sessionId m =
     (let n = (if name = [] then ''Process_'' @ UUID_toString U i else name);
          sid = (if UUID_isNull sessionId then i else sessionId)
      in case Process_new i n sid of
           Inl e \<Rightarrow> (Inl e, m)
         | Inr p \<Rightarrow>
             (let a = length (pm_heap m)
              in (Inr a, m\<lparr>pm_heap := pm_heap m @ [p], pm_processes := map_set i a (pm_processes m)\<rparr>)))"

definition ProcessManager_getProcess :: "uuid \<Rightarrow> process_manager \<Rightarrow> nat option" where
  "ProcessManager_getProcess i m = (if UUID_isNull i then None else map_of (pm_processes m) i)"

text \<open>
  \<open>removeProcess\<close> up to its wait for the exit, and what follows that wait. \<open>Inl\<close> a result; \<open>Inr a\<close>: it goes on
  to wait for the process.
\<close>

definition ProcessManager_removeProcess :: "uuid \<Rightarrow> process_manager \<Rightarrow> (bool + nat) \<times> process_manager" where
  "ProcessManager_removeProcess i m =
     (if UUID_isNull i then (Inl False, m)
      else case map_of (pm_processes m) i of
             None \<Rightarrow> (Inl False, m)
           | Some a \<Rightarrow>
               (case Process_terminate True a m of
                  (Inl e, m) \<Rightarrow> (Inl False, m)
                | (Inr sc, m) \<Rightarrow> if \<not> StateChange_success sc then (Inl False, m) else (Inr a, m)))"

definition ProcessManager_removed :: "uuid \<Rightarrow> nat \<Rightarrow> process_manager \<Rightarrow> process_manager option" where
  "ProcessManager_removed i a m =
     (case Process_waitForExit a m of
        None \<Rightarrow> None
      | Some _ \<Rightarrow> Some (m\<lparr>pm_processes := map_erase i (pm_processes m)\<rparr>))"

subsection \<open>Reaping children\<close>

datatype wait_status = Exited_with int | Killed_by int | Other_status

definition exit_status_of :: "wait_status \<Rightarrow> exit_status" where
  "exit_status_of ws =
     (case ws of
        Exited_with c \<Rightarrow> \<lparr>es_exitType = ET_Exit, es_status = c\<rparr>
      | Killed_by s \<Rightarrow> \<lparr>es_exitType = ET_Signal, es_status = s\<rparr>
      | Other_status \<Rightarrow> internal_status ES_UNKNOWN)"

definition ProcessManager_handleChildExit :: "bool \<Rightarrow> nat \<Rightarrow> wait_status \<Rightarrow> process_manager \<Rightarrow> process_manager" where
  "ProcessManager_handleChildExit cg_ok pid ws m =
     (case map_of (pm_pidToProcess m) pid of
        None \<Rightarrow> m
      | Some a \<Rightarrow>
          (let m = ProcessManager_exit_cb cg_ok a m;
               m = m\<lparr>pm_pidToProcess := map_erase pid (pm_pidToProcess m)\<rparr>;
               m = Process_terminated cg_ok (exit_status_of ws) a m
           in if pr_cleanupProcessGroup (obj m a) then call (Group_cleanup pid) m else m))"

text \<open>One round of the exit monitor; \<open>waitpid pid\<close> is the status of a child that has ended.\<close>

definition ProcessManager_exitMonitorRound :: "bool \<Rightarrow> (nat \<Rightarrow> wait_status option) \<Rightarrow> process_manager \<Rightarrow> process_manager" where
  "ProcessManager_exitMonitorRound cg_ok waitpid m =
     fold (\<lambda>pid m. case waitpid pid of None \<Rightarrow> m | Some ws \<Rightarrow> ProcessManager_handleChildExit cg_ok pid ws m)
       (map fst (pm_pidToProcess m)) m"

text \<open>
  The thread that cleans up a process group: \<open>members n\<close> is the answer of the n-th look for members of the
  group; the value tells whether the group is killed.
\<close>

fun cleanup_tries :: "(nat \<Rightarrow> bool) \<Rightarrow> nat \<Rightarrow> nat \<Rightarrow> bool" where
  "cleanup_tries members n 0 = members n"
| "cleanup_tries members n (Suc k) = (members n \<and> cleanup_tries members (n + 1) k)"

definition groupCleanupProc :: "(nat \<Rightarrow> bool) \<Rightarrow> nat \<Rightarrow> outside_call list" where
  "groupCleanupProc members grp =
     (if members 0 \<and> cleanup_tries members 1 9 then [Kill_group grp SIGKILL] else [])"

subsection \<open>Running out of memory\<close>

definition oom_kill :: "string \<Rightarrow> nat \<Rightarrow> (process_manager, unit) proc" where
  "oom_kill grp a =
     bindp (Process_terminate True a) (\<lambda>_. upd (call (CG_monitor grp False)))"

definition oom_lend :: "u32 \<Rightarrow> nat \<Rightarrow> process_manager \<Rightarrow> process_manager" where
  "oom_lend borrowed a m =
     (let m = upd_obj a (\<lambda>p. p\<lparr>pr_borrowedMb := pr_borrowedMb p + borrowed\<rparr>) m;
          p = obj m a;
          totalMb = pr_borrowedMb p + pr_reservedMb p
      in call (CG_limit (pr_id p) (ucast totalMb * 1048576)) m)"

text \<open>An unknown group and a process that is not running end the whole call, not just the round.\<close>

fun ProcessManager_handleOomCondition :: "'u uuid_api_scheme \<Rightarrow> string list \<Rightarrow> (process_manager, unit) proc" where
  "ProcessManager_handleOomCondition U [] m = (Inr (), m)"
| "ProcessManager_handleOomCondition U (grp # groups) m =
     (case ProcessManager_getProcess (UUID_parse U grp) m of
        None \<Rightarrow> (Inr (), m)
      | Some a \<Rightarrow>
          if pr_state (obj m a) \<noteq> Spawned then (Inr (), m)
          else if pm_loanMemory m then
            (case MemoryTracking_borrow 128 (pm_memory m) of
               (borrowed, mt) \<Rightarrow>
                 if 0 < borrowed
                 then ProcessManager_handleOomCondition U groups (oom_lend borrowed a (m\<lparr>pm_memory := mt\<rparr>))
                 else seqp (oom_kill grp a) (ProcessManager_handleOomCondition U groups) (m\<lparr>pm_memory := mt\<rparr>))
          else seqp (oom_kill grp a) (ProcessManager_handleOomCondition U groups) m)"

subsection \<open>What the operations change\<close>

named_theorems pm_heap_simps and pm_frame

lemma state_upd_same: "pr_state p = s \<Longrightarrow> p\<lparr>pr_state := s\<rparr> = p"
  by auto

lemma upd_obj_frame [pm_frame]:
  "pm_processes (upd_obj a f m) = pm_processes m" "pm_pidToProcess (upd_obj a f m) = pm_pidToProcess m"
  "pm_memory (upd_obj a f m) = pm_memory m" "pm_loanMemory (upd_obj a f m) = pm_loanMemory m"
  "pm_controlGroup (upd_obj a f m) = pm_controlGroup m" "pm_controller (upd_obj a f m) = pm_controller m"
  by (simp_all add: upd_obj_def)

lemma call_frame [pm_frame]:
  "pm_heap (call c m) = pm_heap m" "pm_processes (call c m) = pm_processes m"
  "pm_pidToProcess (call c m) = pm_pidToProcess m" "pm_memory (call c m) = pm_memory m"
  "pm_loanMemory (call c m) = pm_loanMemory m" "pm_controlGroup (call c m) = pm_controlGroup m"
  "pm_controller (call c m) = pm_controller m"
  by (simp_all add: call_def)

lemma upd_obj_heap [pm_heap_simps]: "pm_heap (upd_obj a f m) = (pm_heap m)[a := f (obj m a)]"
  by (simp add: upd_obj_def)

lemma obj_upd_obj [simp]: "a < length (pm_heap m) \<Longrightarrow> obj (upd_obj a f m) a = f (obj m a)"
  by (simp add: upd_obj_def)

lemma createControlSubgroup_frame [pm_frame]:
  "pm_processes (ProcessManager_createControlSubgroup ok a m) = pm_processes m"
  "pm_pidToProcess (ProcessManager_createControlSubgroup ok a m) = pm_pidToProcess m"
  "pm_memory (ProcessManager_createControlSubgroup ok a m) = pm_memory m"
  "pm_loanMemory (ProcessManager_createControlSubgroup ok a m) = pm_loanMemory m"
  by (simp_all add: ProcessManager_createControlSubgroup_def Let_def pm_frame)

lemma destroyControlSubgroup_frame [pm_frame]:
  "pm_processes (ProcessManager_destroyControlSubgroup ok a m) = pm_processes m"
  "pm_pidToProcess (ProcessManager_destroyControlSubgroup ok a m) = pm_pidToProcess m"
  "pm_memory (ProcessManager_destroyControlSubgroup ok a m) = pm_memory m"
  "pm_loanMemory (ProcessManager_destroyControlSubgroup ok a m) = pm_loanMemory m"
  by (simp_all add: ProcessManager_destroyControlSubgroup_def Let_def pm_frame)

text \<open>
  Two objects that agree but for the control group flag. Creating and destroying control groups changes
  nothing else.
\<close>

definition same_but_cgroup :: "process \<Rightarrow> process \<Rightarrow> bool" where
  "same_but_cgroup p q \<longleftrightarrow> (\<exists>c. q = p\<lparr>pr_cgroupExists := c\<rparr>)"

lemma createControlSubgroup_heap:
  "\<exists>c. pm_heap (ProcessManager_createControlSubgroup ok a m) = (pm_heap m)[a := (obj m a)\<lparr>pr_cgroupExists := c\<rparr>]"
proof (cases "pr_cgroupExists (obj m a) \<or> \<not> ok")
  case True
  have "pm_heap (ProcessManager_createControlSubgroup ok a m) =
      (pm_heap m)[a := (obj m a)\<lparr>pr_cgroupExists := pr_cgroupExists (obj m a)\<rparr>]"
    using True by (auto simp: ProcessManager_createControlSubgroup_def Let_def pm_frame)
  then show ?thesis ..
next
  case False
  have "pm_heap (ProcessManager_createControlSubgroup ok a m) = (pm_heap m)[a := (obj m a)\<lparr>pr_cgroupExists := True\<rparr>]"
    using False by (simp add: ProcessManager_createControlSubgroup_def Let_def pm_frame pm_heap_simps)
  then show ?thesis ..
qed

lemma destroyControlSubgroup_heap:
  "\<exists>c. pm_heap (ProcessManager_destroyControlSubgroup ok a m) = (pm_heap m)[a := (obj m a)\<lparr>pr_cgroupExists := c\<rparr>]"
proof (cases "pr_cgroupExists (obj m a) \<and> ok")
  case True
  have "pm_heap (ProcessManager_destroyControlSubgroup ok a m) = (pm_heap m)[a := (obj m a)\<lparr>pr_cgroupExists := False\<rparr>]"
    using True by (simp add: ProcessManager_destroyControlSubgroup_def Let_def pm_frame pm_heap_simps)
  then show ?thesis ..
next
  case False
  have "pm_heap (ProcessManager_destroyControlSubgroup ok a m) =
      (pm_heap m)[a := (obj m a)\<lparr>pr_cgroupExists := pr_cgroupExists (obj m a)\<rparr>]"
    using False by (auto simp: ProcessManager_destroyControlSubgroup_def Let_def pm_frame)
  then show ?thesis ..
qed

text \<open>\<open>exit_cb\<close> and \<open>failedFork_cb\<close> are the same code: memory is released, and the control group destroyed.\<close>

lemma failedFork_cb_eq: "ProcessManager_failedFork_cb ok a m = ProcessManager_exit_cb ok a m"
  by (simp add: ProcessManager_failedFork_cb_def ProcessManager_exit_cb_def)

lemma exit_cb_frame [pm_frame]:
  "pm_processes (ProcessManager_exit_cb ok a m) = pm_processes m"
  "pm_pidToProcess (ProcessManager_exit_cb ok a m) = pm_pidToProcess m"
  "pm_loanMemory (ProcessManager_exit_cb ok a m) = pm_loanMemory m"
  "pm_memory (ProcessManager_exit_cb ok a m) = MemoryTracking_release (pr_reservedMb (obj m a)) (pm_memory m)"
  by (simp_all add: ProcessManager_exit_cb_def ProcessManager_releaseMemory_def Let_def pm_frame)

lemma exit_cb_heap:
  assumes "a < length (pm_heap m)"
  shows "\<exists>c. pm_heap (ProcessManager_exit_cb ok a m) = (pm_heap m)[a := (obj m a)\<lparr>pr_reservedMb := 0, pr_cgroupExists := c\<rparr>]"
proof -
  let ?m = "ProcessManager_releaseMemory a m"
  have r: "pm_heap ?m = (pm_heap m)[a := (obj m a)\<lparr>pr_reservedMb := 0\<rparr>]"
    by (simp add: ProcessManager_releaseMemory_def pm_heap_simps)
  show ?thesis
  proof (cases "pm_controlGroup ?m")
    case True
    obtain c where "pm_heap (ProcessManager_destroyControlSubgroup ok a ?m) = (pm_heap ?m)[a := (obj ?m a)\<lparr>pr_cgroupExists := c\<rparr>]"
      using destroyControlSubgroup_heap by blast
    with True r assms show ?thesis
      by (intro exI [of _ c]) (simp add: ProcessManager_exit_cb_def Let_def)
  next
    case False
    with r assms show ?thesis
      by (intro exI [of _ "pr_cgroupExists (obj m a)"]) (simp add: ProcessManager_exit_cb_def Let_def)
  qed
qed

lemma notify_frame [pm_frame]:
  "pm_heap (notify_terminated a m) = pm_heap m" "pm_processes (notify_terminated a m) = pm_processes m"
  "pm_pidToProcess (notify_terminated a m) = pm_pidToProcess m" "pm_memory (notify_terminated a m) = pm_memory m"
  "pm_loanMemory (notify_terminated a m) = pm_loanMemory m"
  by (simp_all add: notify_terminated_def Let_def pm_frame)

lemma terminated_internal_frame [pm_frame]:
  "pm_processes (Process_terminated_internal c a m) = pm_processes m"
  "pm_pidToProcess (Process_terminated_internal c a m) = pm_pidToProcess m"
  "pm_memory (Process_terminated_internal c a m) = pm_memory m"
  "pm_loanMemory (Process_terminated_internal c a m) = pm_loanMemory m"
  by (simp_all add: Process_terminated_internal_def pm_frame)

lemma terminated_internal_heap:
  "pr_state (obj m a) \<noteq> Terminated \<Longrightarrow>
   pm_heap (Process_terminated_internal c a m) =
     (pm_heap m)[a := (obj m a)\<lparr>pr_status := internal_status c, pr_state := Terminated, pr_pid := 0\<rparr>]"
  by (simp add: Process_terminated_internal_def pm_frame pm_heap_simps)

lemma terminated_frame [pm_frame]:
  "pm_processes (Process_terminated ok s a m) = pm_processes m"
  "pm_pidToProcess (Process_terminated ok s a m) = pm_pidToProcess m"
  "pm_loanMemory (Process_terminated ok s a m) = pm_loanMemory m"
  by (simp_all add: Process_terminated_def pm_frame)

lemma terminated_memory:
  "a < length (pm_heap m) \<Longrightarrow>
   pm_memory (Process_terminated ok s a m) =
     (if pr_state (obj m a) = Terminated then pm_memory m
      else MemoryTracking_release (pr_reservedMb (obj m a)) (pm_memory m))"
  by (simp add: Process_terminated_def pm_frame)

lemma terminated_heap:
  assumes "a < length (pm_heap m)" and "pr_state (obj m a) \<noteq> Terminated"
  shows "\<exists>c. pm_heap (Process_terminated ok s a m) =
    (pm_heap m)[a := (obj m a)\<lparr>pr_status := s, pr_reservedMb := 0, pr_cgroupExists := c, pr_state := Terminated, pr_pid := 0\<rparr>]"
proof -
  let ?m = "upd_obj a (\<lambda>p. p\<lparr>pr_status := s\<rparr>) m"
  have len: "a < length (pm_heap ?m)" using assms(1) by (simp add: pm_heap_simps)
  obtain c where c: "pm_heap (ProcessManager_exit_cb ok a ?m) = (pm_heap ?m)[a := (obj ?m a)\<lparr>pr_reservedMb := 0, pr_cgroupExists := c\<rparr>]"
    using exit_cb_heap [OF len] by blast
  show ?thesis
    using assms c by (intro exI [of _ c]) (simp add: Process_terminated_def pm_frame pm_heap_simps)
qed

text \<open>Reaping a child, seen from the object its pid is registered for.\<close>

lemma handleChildExit_frame:
  assumes "map_of (pm_pidToProcess m) pid = Some a" and "a < length (pm_heap m)"
  shows "pm_processes (ProcessManager_handleChildExit ok pid ws m) = pm_processes m"
    and "pm_pidToProcess (ProcessManager_handleChildExit ok pid ws m) = map_erase pid (pm_pidToProcess m)"
    and "pm_loanMemory (ProcessManager_handleChildExit ok pid ws m) = pm_loanMemory m"
  using assms by (simp_all add: ProcessManager_handleChildExit_def Let_def pm_frame)

lemma handleChildExit_effect:
  assumes "map_of (pm_pidToProcess m) pid = Some a" and "a < length (pm_heap m)"
  shows "\<exists>s c. pm_heap (ProcessManager_handleChildExit ok pid ws m) =
      (pm_heap m)[a := (obj m a)\<lparr>pr_status := s, pr_reservedMb := 0, pr_cgroupExists := c, pr_state := Terminated,
        pr_pid := (if pr_state (obj m a) = Terminated then pr_pid (obj m a) else 0)\<rparr>]"
    and "pm_memory (ProcessManager_handleChildExit ok pid ws m) =
      MemoryTracking_release (pr_reservedMb (obj m a)) (pm_memory m)"
proof -
  let ?e = "ProcessManager_exit_cb ok a m"
  let ?m = "?e\<lparr>pm_pidToProcess := map_erase pid (pm_pidToProcess ?e)\<rparr>"
  obtain c where c: "pm_heap ?e = (pm_heap m)[a := (obj m a)\<lparr>pr_reservedMb := 0, pr_cgroupExists := c\<rparr>]"
    using exit_cb_heap [OF assms(2)] by blast
  have len: "a < length (pm_heap ?m)" and ob: "obj ?m a = (obj m a)\<lparr>pr_reservedMb := 0, pr_cgroupExists := c\<rparr>"
    using assms(2) by (simp_all add: c)
  have h: "pm_heap (ProcessManager_handleChildExit ok pid ws m) = pm_heap (Process_terminated ok (exit_status_of ws) a ?m)"
    and mem: "pm_memory (ProcessManager_handleChildExit ok pid ws m) = pm_memory (Process_terminated ok (exit_status_of ws) a ?m)"
    using assms by (simp_all add: ProcessManager_handleChildExit_def Let_def pm_frame)
  show "pm_memory (ProcessManager_handleChildExit ok pid ws m) =
      MemoryTracking_release (pr_reservedMb (obj m a)) (pm_memory m)"
    unfolding mem using terminated_memory [OF len] assms(2) by (simp add: c pm_frame MemoryTracking_release_def)
  show "\<exists>s c. pm_heap (ProcessManager_handleChildExit ok pid ws m) =
      (pm_heap m)[a := (obj m a)\<lparr>pr_status := s, pr_reservedMb := 0, pr_cgroupExists := c, pr_state := Terminated,
        pr_pid := (if pr_state (obj m a) = Terminated then pr_pid (obj m a) else 0)\<rparr>]"
  proof (cases "pr_state (obj m a) = Terminated")
    case True
    then have "pm_heap (Process_terminated ok (exit_status_of ws) a ?m) = pm_heap ?m"
      using ob by (simp add: Process_terminated_def pm_frame)
    with True show ?thesis
      by (intro exI [of _ "pr_status (obj m a)"] exI [of _ c]) (simp add: h c state_upd_same)
  next
    case False
    have "pr_state (obj ?m a) \<noteq> Terminated"
      unfolding ob using False by simp
    from terminated_heap [OF len this] obtain c' where
      c': "pm_heap (Process_terminated ok (exit_status_of ws) a ?m) =
        (pm_heap ?m)[a := (obj ?m a)\<lparr>pr_status := exit_status_of ws, pr_reservedMb := 0, pr_cgroupExists := c',
          pr_state := Terminated, pr_pid := 0\<rparr>]"
      by blast
    show ?thesis
      using False by (intro exI [of _ "exit_status_of ws"] exI [of _ c']) (simp only: h c' ob, simp add: c)
  qed
qed

subsection \<open>Memory\<close>

definition mem_ok :: "memory_tracking \<Rightarrow> bool" where
  "mem_ok mt \<longleftrightarrow> unat (mt_reservedMb mt) + unat (mt_borrowedMb mt) \<le> unat (mt_availableMb mt)"

definition mem_free :: "memory_tracking \<Rightarrow> nat" where
  "mem_free mt = unat (mt_availableMb mt) - unat (mt_reservedMb mt) - unat (mt_borrowedMb mt)"

text \<open>A request that cannot overflow the sum in \<open>reserve\<close>.\<close>

definition request_ok :: "u32 \<Rightarrow> memory_tracking \<Rightarrow> bool" where
  "request_ok amount mt \<longleftrightarrow> unat (mt_availableMb mt) + unat amount < 2 ^ 32"

lemma unat_add_small: "unat (x :: 'a::len word) + unat y < 2 ^ LENGTH('a) \<Longrightarrow> unat (x + y) = unat x + unat y"
  by (simp add: unat_word_ariths)

lemma reserve_sum:
  assumes "mem_ok mt" and "request_ok amount mt"
  shows "unat (mt_reservedMb mt + mt_borrowedMb mt + amount) =
    unat (mt_reservedMb mt) + unat (mt_borrowedMb mt) + unat amount"
proof -
  have 1: "unat (mt_reservedMb mt + mt_borrowedMb mt) = unat (mt_reservedMb mt) + unat (mt_borrowedMb mt)"
    using assms unat_less_pow [of "mt_availableMb mt"] by (intro unat_add_small) (simp add: mem_ok_def)
  then show ?thesis
    using assms by (subst unat_add_small) (simp_all add: mem_ok_def request_ok_def)
qed

lemma free_word:
  assumes "mem_ok mt"
  shows "unat (mt_availableMb mt - mt_reservedMb mt - mt_borrowedMb mt) = mem_free mt"
proof -
  have r: "mt_reservedMb mt \<le> mt_availableMb mt"
    using assms by (simp add: mem_ok_def word_le_nat_alt)
  then have "unat (mt_availableMb mt - mt_reservedMb mt) = unat (mt_availableMb mt) - unat (mt_reservedMb mt)"
    by (simp add: unat_sub)
  moreover have "mt_borrowedMb mt \<le> mt_availableMb mt - mt_reservedMb mt"
    using assms calculation by (simp add: mem_ok_def word_le_nat_alt)
  ultimately show ?thesis
    by (simp add: unat_sub mem_free_def)
qed

lemma reserve_granted:
  assumes "mem_ok mt" and "request_ok amount mt" and "unat amount \<le> mem_free mt"
  shows "MemoryTracking_reserve amount mt = (0, mt\<lparr>mt_reservedMb := mt_reservedMb mt + amount\<rparr>)"
  using assms reserve_sum [OF assms(1,2)]
  by (auto simp: MemoryTracking_reserve_def word_le_nat_alt mem_free_def mem_ok_def)

lemma reserve_refused:
  assumes "mem_ok mt" and "request_ok amount mt" and "mem_free mt < unat amount"
  obtains d where "MemoryTracking_reserve amount mt = (d, mt)" and "d \<noteq> 0" and "unat d = unat amount - mem_free mt"
proof
  let ?f = "mt_availableMb mt - mt_reservedMb mt - mt_borrowedMb mt"
  have f: "unat ?f = mem_free mt" by (rule free_word [OF assms(1)])
  have le: "?f \<le> amount" using f assms(3) by (simp add: word_le_nat_alt)
  have "\<not> mt_reservedMb mt + mt_borrowedMb mt + amount \<le> mt_availableMb mt"
    using assms reserve_sum [OF assms(1,2)] by (auto simp: word_le_nat_alt mem_free_def mem_ok_def)
  then show "MemoryTracking_reserve amount mt = (amount - ?f, mt)"
    by (simp add: MemoryTracking_reserve_def)
  show u: "unat (amount - ?f) = unat amount - mem_free mt"
    using le f by (simp add: unat_sub)
  show "amount - ?f \<noteq> 0"
    using u assms(3) by (metis unat_0 zero_less_diff less_numeral_extra(3))
qed

lemma unat_reserved_add:
  assumes "mem_ok mt" and "unat r \<le> mem_free mt"
  shows "unat (mt_reservedMb mt + r) = unat (mt_reservedMb mt) + unat r"
  using assms unat_less_pow [of "mt_availableMb mt"]
  by (intro unat_add_small) (simp add: mem_ok_def mem_free_def)

lemma nth_update_if: "(xs[i := x]) ! j = (if i = j \<and> i < length xs then x else xs ! j)"
  by (cases "i < length xs") (simp_all add: nth_list_update list_update_beyond)

lemma terminated_internal_obj:
  "pr_borrowedMb (obj (Process_terminated_internal c a m) b) = pr_borrowedMb (obj m b)"
  by (simp add: Process_terminated_internal_def pm_frame pm_heap_simps nth_update_if)

lemma terminate_borrowed:
  "Process_terminate fast a m = (r, m') \<Longrightarrow> pr_borrowedMb (obj m' b) = pr_borrowedMb (obj m b)"
  by (auto simp: Process_terminate_def terminated_internal_obj pm_heap_simps nth_update_if Let_def
      split: process_state.splits if_splits)

text \<open>
  The loop over the borrowers comes back only when there is nobody left who has borrowed anything, having
  done nothing.
\<close>

lemma kill_borrowers_returns:
  assumes "kill_borrowers self deficit m = (Inr (), m')" and "0 < deficit"
  shows "m' = m" and "snd (ProcessManager_findBiggestBorrower m) = None"
proof -
  have "m' = m \<and> snd (ProcessManager_findBiggestBorrower m) = None"
  proof (cases "ProcessManager_findBiggestBorrower m")
    case (Pair amount b)
    show ?thesis
    proof (cases b)
      case None
      with Pair assms show ?thesis by (simp add: kill_borrowers.simps)
    next
      case (Some a)
      have pos: "0 < pr_borrowedMb (obj m a)"
        using findBiggestBorrower_positive Pair Some by blast
      obtain r m1 where t: "Process_terminate True a m = (r, m1)" by (rule prod.exhaust)
      have "0 < pr_borrowedMb (obj m1 a)"
        using pos terminate_borrowed [OF t] by simp
      then have "\<exists>e. fst (kill_borrowers self deficit m) = Inl e"
        using assms(2) Pair Some t by (subst kill_borrowers.simps) (simp split: sum.split)
      with assms(1) show ?thesis by simp
    qed
  qed
  then show "m' = m" and "snd (ProcessManager_findBiggestBorrower m) = None" by blast+
qed

text \<open>Every process gets what it asks for, or what there is.\<close>

lemma reserveMemory_effect:
  assumes "mem_ok (pm_memory m)" and "request_ok (pr_assignedMb (obj m a)) (pm_memory m)"
    and "ProcessManager_reserveMemory a m = (Inr (), m')"
  obtains r where "unat r = min (unat (pr_assignedMb (obj m a))) (mem_free (pm_memory m))"
    and "m' = set_reserved a r (m\<lparr>pm_memory := (pm_memory m)\<lparr>mt_reservedMb := mt_reservedMb (pm_memory m) + r\<rparr>\<rparr>)"
proof -
  let ?n = "pr_assignedMb (obj m a)" and ?mt = "pm_memory m"
  show ?thesis
  proof (cases "unat ?n \<le> mem_free ?mt")
    case True
    show ?thesis
      using assms(3) reserve_granted [OF assms(1,2) True] True
      by (intro that [of ?n]) (simp_all add: ProcessManager_reserveMemory_def pm_reserve_def Let_def)
  next
    case False
    then obtain d where d: "MemoryTracking_reserve ?n ?mt = (d, ?mt)" "d \<noteq> 0" "unat d = unat ?n - mem_free ?mt"
      using reserve_refused [OF assms(1,2)] by (metis not_le)
    have r: "unat (?n - d) = mem_free ?mt"
      using d(3) False by (subst unat_sub) (simp_all add: word_le_nat_alt)
    have ok: "request_ok (?n - d) ?mt"
      using assms(1) unat_less_pow [of "mt_availableMb ?mt"] assms(2) False by (simp add: request_ok_def r)
    have pm: "pm_reserve ?n m = (d, m)"
      using d(1) by (simp add: pm_reserve_def)
    have rest: "reserve_rest a ?n d m =
        set_reserved a (?n - d) (m\<lparr>pm_memory := ?mt\<lparr>mt_reservedMb := mt_reservedMb ?mt + (?n - d)\<rparr>\<rparr>)"
      using reserve_granted [OF assms(1) ok] r by (simp add: reserve_rest_def pm_reserve_def Let_def)
    have "m' = reserve_rest a ?n d m"
    proof (cases "pm_loanMemory m")
      case loan: True
      obtain res m1 where k: "kill_borrowers a (int (unat d)) m = (res, m1)" by (rule prod.exhaust)
      with assms(3) pm d(2) loan obtain u where u: "res = Inr u"
        by (cases res) (simp_all add: ProcessManager_reserveMemory_def Let_def)
      have k': "kill_borrowers a (int (unat d)) m = (Inr (), m1)"
        using k u by simp
      have "m1 = m"
        using kill_borrowers_returns(1) [OF k'] d(2)
        by (simp only: of_nat_0_less_iff unat_gt_0 not_False_eq_True)
      with assms(3) pm d(2) loan k u show ?thesis
        by (simp add: ProcessManager_reserveMemory_def Let_def)
    next
      case False
      with assms(3) pm d(2) show ?thesis
        by (simp add: ProcessManager_reserveMemory_def Let_def)
    qed
    with rest r False show ?thesis
      by (intro that [of "?n - d"]) simp_all
  qed
qed

lemma reserveMemory_returns:
  "\<not> pm_loanMemory m \<Longrightarrow> fst (ProcessManager_reserveMemory a m) = Inr ()"
  by (simp add: ProcessManager_reserveMemory_def pm_reserve_def Let_def split: prod.split)

subsection \<open>Properties\<close>

text \<open>
  The sum in \<open>reserve\<close> is computed in 32 bits: a request that takes it over \<open>2 ^ 32\<close> is granted,
  however little memory there is, and lowers the amount that counts as reserved.
\<close>

theorem memory_reservation_wraps:
  assumes "mem_ok mt" and "0 < k" and "k \<le> mt_reservedMb mt"
  shows "MemoryTracking_reserve (- k) mt = (0, mt\<lparr>mt_reservedMb := mt_reservedMb mt - k\<rparr>) \<and>
    mt_reservedMb mt - k < mt_reservedMb mt"
proof -
  have sub: "unat (mt_reservedMb mt - k) = unat (mt_reservedMb mt) - unat k"
    using assms(3) by (simp add: unat_sub)
  have k: "0 < unat k" "unat k \<le> unat (mt_reservedMb mt)"
    using assms(2,3) by (simp_all add: word_le_nat_alt unat_gt_0 word_gt_0)
  have "unat (mt_reservedMb mt - k + mt_borrowedMb mt) = unat (mt_reservedMb mt) - unat k + unat (mt_borrowedMb mt)"
    using sub assms(1) unat_less_pow [of "mt_availableMb mt"]
    by (subst unat_add_small) (simp_all add: mem_ok_def)
  then have le: "mt_reservedMb mt - k + mt_borrowedMb mt \<le> mt_availableMb mt"
    using assms(1) k by (simp add: word_le_nat_alt mem_ok_def)
  have eq: "mt_reservedMb mt + mt_borrowedMb mt + - k = mt_reservedMb mt - k + mt_borrowedMb mt"
    by (simp add: algebra_simps)
  have "MemoryTracking_reserve (- k) mt = (0, mt\<lparr>mt_reservedMb := mt_reservedMb mt - k\<rparr>)"
    unfolding MemoryTracking_reserve_def eq by (simp only: le if_True) simp
  moreover have "mt_reservedMb mt - k < mt_reservedMb mt"
    using sub k by (simp add: word_less_nat_alt)
  ultimately show ?thesis ..
qed

theorem memory_reservation_wraps_witness:
  "MemoryTracking_reserve 4294967291 \<lparr>mt_availableMb = 1000, mt_reservedMb = 10, mt_borrowedMb = 0\<rparr> =
     (0, \<lparr>mt_availableMb = 1000, mt_reservedMb = 5, mt_borrowedMb = 0\<rparr>)"
proof -
  have minus: "(- 5 :: u32) = 4294967291" by simp
  show ?thesis
    using memory_reservation_wraps [of "\<lparr>mt_availableMb = 1000, mt_reservedMb = 10, mt_borrowedMb = 0\<rparr>" 5]
    unfolding minus by (simp add: mem_ok_def)
qed

text \<open>
  With loans enabled, a process that needs more memory than is free is never spawned while some
  process has borrowed memory: the borrower is asked to terminate, but the wait for its loan to be repaid
  has no end, because no code repays a loan.
\<close>

theorem spawn_waits_for_borrower_forever:
  assumes "pm_loanMemory m" and "mem_ok (pm_memory m)" and "request_ok (pr_assignedMb (obj m a)) (pm_memory m)"
    and "mem_free (pm_memory m) < unat (pr_assignedMb (obj m a))"
    and "ProcessManager_findBiggestBorrower m = (amount, Some b)" and "b \<noteq> a"
    and "pr_state (obj m b) = Spawned \<longrightarrow> pr_terminationThread (obj m b) = No_thread" and "b < length (pm_heap m)"
  shows "fst (ProcessManager_reserveMemory a m) = Inl (NoReturn ''waits for borrowed memory'')"
proof -
  obtain d where d: "MemoryTracking_reserve (pr_assignedMb (obj m a)) (pm_memory m) = (d, pm_memory m)" "d \<noteq> 0"
    using reserve_refused assms(2,3,4) by blast
  obtain r m1 where t: "Process_terminate True b m = (r, m1)" by (rule prod.exhaust)
  obtain sc where r: "r = Inr sc"
    using t assms(7,8) by (auto simp: Process_terminate_def Let_def split: process_state.splits if_splits)
  have "0 < pr_borrowedMb (obj m1 b)"
    using terminate_borrowed [OF t, of b] findBiggestBorrower_positive [OF assms(5)] by metis
  moreover have "0 < int (unat d)"
    using d(2) by (simp only: of_nat_0_less_iff unat_gt_0 not_False_eq_True)
  ultimately have "kill_borrowers a (int (unat d)) m = (Inl (NoReturn ''waits for borrowed memory''), m1)"
    using assms(5,6) t r by (subst kill_borrowers.simps) simp
  then show ?thesis
    using d assms(1) by (simp add: ProcessManager_reserveMemory_def pm_reserve_def Let_def)
qed

definition sample_process :: "uuid \<Rightarrow> process" where
  "sample_process i =
     \<lparr>pr_id = i, pr_name = ''p'', pr_sessionId = i, pr_cleanupProcessGroup = False, pr_observer = False,
      pr_enforceMemory = False, pr_assignedMb = 0, pr_enforceCores = False, pr_assignedCores = 0,
      pr_terminationThread = No_thread, pr_pid = 0, pr_state = NotSpawned, pr_status = internal_status ES_NO_EXIT,
      pr_cgroupExists = False, pr_reservedMb = 0, pr_borrowedMb = 0\<rparr>"

definition sample_manager :: "process list \<Rightarrow> memory_tracking \<Rightarrow> bool \<Rightarrow> process_manager" where
  "sample_manager ps mt loan =
     (ProcessManager_new 0 True True True loan True)
       \<lparr>pm_heap := ps, pm_memory := mt, pm_processes := map (\<lambda>a. (pr_id (ps ! a), a)) [0..<length ps]\<rparr>"

definition sample_lending :: process_manager where
  "sample_lending =
     sample_manager
       [(sample_process 1)\<lparr>pr_state := Spawned, pr_pid := 77, pr_reservedMb := 512, pr_borrowedMb := 128\<rparr>,
        (sample_process 2)\<lparr>pr_assignedMb := 600\<rparr>]
       \<lparr>mt_availableMb = 1000, mt_reservedMb = 512, mt_borrowedMb = 128\<rparr> True"

lemma sample_lending_fields:
  "pm_memory sample_lending = \<lparr>mt_availableMb = 1000, mt_reservedMb = 512, mt_borrowedMb = 128\<rparr>"
  "pm_loanMemory sample_lending" "length (pm_heap sample_lending) = 2"
  "obj sample_lending 0 = (sample_process 1)\<lparr>pr_state := Spawned, pr_pid := 77, pr_reservedMb := 512, pr_borrowedMb := 128\<rparr>"
  "obj sample_lending 1 = (sample_process 2)\<lparr>pr_assignedMb := 600\<rparr>"
  "pm_processes sample_lending = [(1, 0), (2, 1)]"
  by (simp_all add: sample_lending_def sample_manager_def ProcessManager_new_def Let_def upt_rec sample_process_def)

theorem spawn_waits_for_borrower_forever_witness:
  "fst (ProcessManager_reserveMemory 1 sample_lending) = Inl (NoReturn ''waits for borrowed memory'')"
proof (rule spawn_waits_for_borrower_forever)
  show "ProcessManager_findBiggestBorrower sample_lending = (128, Some 0)"
    using sample_lending_fields(4,5)
    by (simp add: ProcessManager_findBiggestBorrower_def sample_lending_fields(6) sample_process_def)
qed (use sample_lending_fields in \<open>simp_all add: mem_ok_def request_ok_def mem_free_def sample_process_def\<close>)

text \<open>
  The two attempts of \<open>reserveMemory\<close> are not atomic: when another process reserves between the
  refused first attempt and the second one, the second is refused as well, unnoticed, and the two
  processes hold more than is counted as reserved. Giving back both reservations then takes the count
  below zero.
\<close>

theorem reservation_race:
  assumes "mem_ok (pm_memory m)" and "\<not> pm_loanMemory m" and "a \<noteq> b" and "a < length (pm_heap m)" and "b < length (pm_heap m)"
    and "request_ok (pr_assignedMb (obj m a)) (pm_memory m)" and "request_ok (pr_assignedMb (obj m b)) (pm_memory m)"
    and "mem_free (pm_memory m) < unat (pr_assignedMb (obj m a))" and "0 < pr_assignedMb (obj m b)" and "0 < mem_free (pm_memory m)"
    and "pm_reserve (pr_assignedMb (obj m a)) m = (deficit, m1)"
    and "ProcessManager_reserveMemory b m1 = (Inr (), m2)"
    and "m3 = reserve_rest a (pr_assignedMb (obj m a)) deficit m2"
  shows "unat (mt_reservedMb (pm_memory m3)) <
    unat (mt_reservedMb (pm_memory m)) + unat (pr_reservedMb (obj m3 a)) + unat (pr_reservedMb (obj m3 b))"
proof -
  let ?mt = "pm_memory m" and ?n = "pr_assignedMb (obj m a)"
  obtain d where d: "MemoryTracking_reserve ?n ?mt = (d, ?mt)" "d \<noteq> 0" "unat d = unat ?n - mem_free ?mt"
    using reserve_refused [OF assms(1,6,8)] by blast
  have m1: "m1 = m" "deficit = d"
    using assms(11) d(1) by (auto simp: pm_reserve_def)
  have a: "unat (?n - d) = mem_free ?mt"
    using d(3) assms(8) by (subst unat_sub) (simp_all add: word_le_nat_alt)
  obtain r where r: "unat r = min (unat (pr_assignedMb (obj m b))) (mem_free ?mt)"
    and m2: "m2 = set_reserved b r (m\<lparr>pm_memory := ?mt\<lparr>mt_reservedMb := mt_reservedMb ?mt + r\<rparr>\<rparr>)"
    using reserveMemory_effect [OF assms(1,7), of m2] assms(12) m1 by blast
  have r0: "0 < unat r" and rle: "unat r \<le> mem_free ?mt"
    using r assms(9,10) by (auto simp: word_less_nat_alt)
  let ?mt2 = "?mt\<lparr>mt_reservedMb := mt_reservedMb ?mt + r\<rparr>"
  have res2: "unat (mt_reservedMb ?mt2) = unat (mt_reservedMb ?mt) + unat r"
    using unat_reserved_add [OF assms(1) rle] by simp
  have ok2: "mem_ok ?mt2" and free2: "mem_free ?mt2 = mem_free ?mt - unat r"
    using res2 assms(1) rle by (simp_all add: mem_ok_def mem_free_def)
  have ok: "request_ok (?n - d) ?mt2"
    using assms(6,8) by (simp add: request_ok_def a)
  have "mem_free ?mt2 < unat (?n - d)"
    using free2 a r0 rle by simp
  then obtain d2 where "MemoryTracking_reserve (?n - d) ?mt2 = (d2, ?mt2)"
    using reserve_refused [OF ok2 ok] by blast
  then have m3: "m3 = set_reserved a (?n - d) m2"
    by (simp add: assms(13) m1 reserve_rest_def pm_reserve_def Let_def m2 set_reserved_def pm_frame upd_obj_def)
  have "pr_reservedMb (obj m3 a) = ?n - d" "pr_reservedMb (obj m3 b) = r" "pm_memory m3 = ?mt2"
    using assms(3,4,5) by (simp_all add: m3 m2 set_reserved_def pm_frame pm_heap_simps nth_update_if)
  with res2 a assms(10) show ?thesis by simp
qed

definition sample_racing :: process_manager where
  "sample_racing =
     sample_manager [(sample_process 1)\<lparr>pr_assignedMb := 200\<rparr>, (sample_process 2)\<lparr>pr_assignedMb := 60\<rparr>]
       \<lparr>mt_availableMb = 100, mt_reservedMb = 0, mt_borrowedMb = 0\<rparr> False"

lemma sample_racing_fields:
  "pm_memory sample_racing = \<lparr>mt_availableMb = 100, mt_reservedMb = 0, mt_borrowedMb = 0\<rparr>"
  "\<not> pm_loanMemory sample_racing" "length (pm_heap sample_racing) = 2"
  "obj sample_racing 0 = (sample_process 1)\<lparr>pr_assignedMb := 200\<rparr>"
  "obj sample_racing 1 = (sample_process 2)\<lparr>pr_assignedMb := 60\<rparr>"
  by (simp_all add: sample_racing_def sample_manager_def ProcessManager_new_def Let_def)

theorem reservation_race_witness:
  "(let (deficit, m1) = pm_reserve 200 sample_racing;
        (r, m2) = ProcessManager_reserveMemory 1 m1;
        m3 = reserve_rest 0 200 deficit m2
    in unat (mt_reservedMb (pm_memory m3)) < unat (pr_reservedMb (obj m3 0)) + unat (pr_reservedMb (obj m3 1)))"
proof -
  obtain deficit m1 where 1: "pm_reserve 200 sample_racing = (deficit, m1)" by (rule prod.exhaust)
  then have loan: "\<not> pm_loanMemory m1"
    using sample_racing_fields(2) by (auto simp: pm_reserve_def split: prod.splits)
  obtain r m2 where 2: "ProcessManager_reserveMemory 1 m1 = (r, m2)" by (rule prod.exhaust)
  then have r: "r = Inr ()" using reserveMemory_returns [OF loan, of 1] by simp
  have "unat (mt_reservedMb (pm_memory (reserve_rest 0 200 deficit m2))) <
      unat (mt_reservedMb (pm_memory sample_racing)) + unat (pr_reservedMb (obj (reserve_rest 0 200 deficit m2) 0)) +
      unat (pr_reservedMb (obj (reserve_rest 0 200 deficit m2) 1))"
    by (rule reservation_race [of sample_racing 0 1 deficit m1 m2])
      (use 1 2 r sample_racing_fields in \<open>simp_all add: mem_ok_def request_ok_def mem_free_def sample_process_def\<close>)
  then show ?thesis
    by (simp add: 1 2 sample_racing_fields Let_def del: One_nat_def)
qed
end
