(* ===== verification/Process_Runs.thy ===== *)
theory Process_Runs
  imports Processes
begin

text \<open>
  What the process manager does over time: a step relation over the operations of \<open>Processes\<close> and the
  operating system (the set of child processes that have not been reaped), its invariants, and the end of
  every termination.
\<close>

subsection \<open>Steps\<close>

type_synonym world = "process_manager \<times> nat set"

text \<open>\<open>fork\<close> gives a pid no child has.\<close>

definition fork_ok :: "nat set \<Rightarrow> nat option \<Rightarrow> bool" where
  "fork_ok L fork \<longleftrightarrow> (case fork of None \<Rightarrow> True | Some pid \<Rightarrow> pid \<noteq> 0 \<and> pid \<notin> L)"

text \<open>The termination thread gives up: the process does not even die of SIGKILL.\<close>

definition gives_up :: "bool \<Rightarrow> nat \<Rightarrow> process_manager \<Rightarrow> bool" where
  "gives_up timeout a m \<longleftrightarrow>
     timeout \<and> pr_terminationThread (obj m a) = Wait_kill \<and> pr_state (obj m a) \<noteq> Terminated"

text \<open>
  With \<open>u\<close> the termination thread may give up. Clients keep to the contract of the classes: identifiers are
  not used twice, processes are spawned while they are registered, and objects are destroyed when nothing
  refers to them. Requests for memory are small enough for the sum in \<open>reserve\<close>.
\<close>

inductive pm_step :: "bool \<Rightarrow> 'u uuid_api_scheme \<Rightarrow> world \<Rightarrow> world \<Rightarrow> bool" for u U where
  pm_add: "ProcessManager_addProcess U i n s m = (Inr a, m') \<Longrightarrow> map_of (pm_processes m) i = None \<Longrightarrow>
     pm_step u U (m, L) (m', L)"
| pm_spawn: "map_of (pm_processes m) (pr_id (obj m a)) = Some a \<Longrightarrow> request_ok (sa_assignedMb sa) (pm_memory m) \<Longrightarrow>
     fork_ok L fork \<Longrightarrow> Process_spawn pipes_ok cg_ok fork sa a m = (Inr sc, m') \<Longrightarrow>
     pm_step u U (m, L) (m', if sc = SC_Success then L \<union> set_option fork else L)"
| pm_terminate: "a < length (pm_heap m) \<Longrightarrow> Process_terminate fast a m = (Inr sc, m') \<Longrightarrow> pm_step u U (m, L) (m', L)"
| pm_thread: "a < length (pm_heap m) \<Longrightarrow> Process_terminationProc stop timeout a m = Some m' \<Longrightarrow> u \<or> \<not> gives_up timeout a m \<Longrightarrow>
     pm_step u U (m, L) (m', L)"
| pm_reset: "a < length (pm_heap m) \<Longrightarrow> Process_reset a m = Some (sc, m') \<Longrightarrow> pm_step u U (m, L) (m', L)"
| pm_signal: "pm_step u U (m, L) (Process_signal signum sendToGroup a m, L)"
| pm_exit: "pid \<in> L \<Longrightarrow> pm_step u U (m, L) (ProcessManager_handleChildExit cg_ok pid ws m, L - {pid})"
| pm_oom: "request_ok 128 (pm_memory m) \<Longrightarrow> ProcessManager_handleOomCondition U groups m = (Inr (), m') \<Longrightarrow> pm_step u U (m, L) (m', L)"
| pm_removed: "map_of (pm_processes m) i = Some a \<Longrightarrow> ProcessManager_removed i a m = Some m' \<Longrightarrow> pm_step u U (m, L) (m', L)"
| pm_delete: "a < length (pm_heap m) \<Longrightarrow> a \<notin> ran (map_of (pm_processes m)) \<Longrightarrow> a \<notin> ran (map_of (pm_pidToProcess m)) \<Longrightarrow>
     Process_delete cg_ok a m = Some m' \<Longrightarrow> pm_step u U (m, L) (m', L)"
| pm_controller: "pm_step u U (m, L) (ProcessManager_setProcessController c m, L)"

inductive pm_reachable :: "bool \<Rightarrow> 'u uuid_api_scheme \<Rightarrow> world \<Rightarrow> bool" for u U where
  pm_start: "pm_reachable u U (ProcessManager_new availableMb useCgroups enforceMemory enforceCpu loanMemory cg_ok, {})"
| pm_more: "pm_reachable u U w \<Longrightarrow> pm_step u U w w' \<Longrightarrow> pm_reachable u U w'"

inductive_cases pm_stepE: "pm_step u U w w'"

subsection \<open>The invariant\<close>

definition thread_running :: "termination_thread \<Rightarrow> bool" where
  "thread_running t \<longleftrightarrow> t \<noteq> No_thread \<and> t \<noteq> Thread_ended"

definition proc_ok :: "bool \<Rightarrow> (nat \<Rightarrow> nat option) \<Rightarrow> nat \<Rightarrow> process \<Rightarrow> bool" where
  "proc_ok u pids a p \<longleftrightarrow>
     (pr_pid p \<noteq> 0 \<longleftrightarrow> pr_state p = Spawned \<or> pr_state p = Terminating) \<and>
     (pr_pid p \<noteq> 0 \<longrightarrow> pids (pr_pid p) = Some a) \<and>
     (pr_state p = Terminating \<longrightarrow> thread_running (pr_terminationThread p)) \<and>
     (pr_state p = NotSpawned \<or> pr_state p = Spawned \<longrightarrow> pr_terminationThread p = No_thread) \<and>
     (\<not> u \<longrightarrow> pr_pid p = 0 \<longrightarrow> pr_reservedMb p = 0)"

definition reserved_total :: "process_manager \<Rightarrow> nat" where
  "reserved_total m = (\<Sum>p\<leftarrow>pm_heap m. unat (pr_reservedMb p))"

definition tables_ok :: "bool \<Rightarrow> process_manager \<Rightarrow> nat set \<Rightarrow> bool" where
  "tables_ok u m L \<longleftrightarrow>
     (\<forall>i a. map_of (pm_processes m) i = Some a \<longrightarrow> a < length (pm_heap m) \<and> pr_id (obj m a) = i) \<and>
     dom (map_of (pm_pidToProcess m)) = L \<and> 0 \<notin> L \<and>
     (\<forall>pid a. map_of (pm_pidToProcess m) pid = Some a \<longrightarrow> a < length (pm_heap m) \<and> (\<not> u \<longrightarrow> pr_pid (obj m a) = pid))"

definition memory_inv :: "bool \<Rightarrow> process_manager \<Rightarrow> bool" where
  "memory_inv u m \<longleftrightarrow>
     mem_ok (pm_memory m) \<and> reserved_total m \<le> unat (mt_reservedMb (pm_memory m)) \<and>
     (\<not> u \<longrightarrow> reserved_total m = unat (mt_reservedMb (pm_memory m)))"

definition world_inv :: "bool \<Rightarrow> world \<Rightarrow> bool" where
  "world_inv u w \<longleftrightarrow>
     (case w of (m, L) \<Rightarrow>
        tables_ok u m L \<and> memory_inv u m \<and>
        (\<forall>a < length (pm_heap m). proc_ok u (map_of (pm_pidToProcess m)) a (obj m a)))"

lemma reserved_total_update:
  assumes "a < length (pm_heap m)" and "pm_heap m' = (pm_heap m)[a := q]"
  shows "reserved_total m' + unat (pr_reservedMb (obj m a)) = reserved_total m + unat (pr_reservedMb q)"
proof -
  have "unat (pr_reservedMb (obj m a)) \<le> reserved_total m"
    using assms(1) by (auto simp: reserved_total_def intro!: member_le_sum_list)
  moreover have "reserved_total m' = reserved_total m + unat (pr_reservedMb q) - unat (pr_reservedMb (obj m a))"
    using assms by (simp add: reserved_total_def map_update sum_list_update)
  ultimately show ?thesis by simp
qed

lemma world_invD:
  assumes "world_inv u (m, L)"
  shows "tables_ok u m L" and "memory_inv u m" and "a < length (pm_heap m) \<Longrightarrow> proc_ok u (map_of (pm_pidToProcess m)) a (obj m a)"
  using assms by (simp_all add: world_inv_def)

lemma world_inv_same:
  assumes "world_inv u (m, L)" and "pm_heap m' = pm_heap m" and "pm_processes m' = pm_processes m"
    and "pm_pidToProcess m' = pm_pidToProcess m" and "pm_memory m' = pm_memory m"
  shows "world_inv u (m', L)"
  using assms by (simp add: world_inv_def tables_ok_def memory_inv_def reserved_total_def)

text \<open>One object changes; the other processes keep their entries in the table of pids.\<close>

lemma world_inv_change:
  assumes inv: "world_inv u (m, L)" and a: "a < length (pm_heap m)"
    and heap: "pm_heap m' = (pm_heap m)[a := q]" and procs: "pm_processes m' = pm_processes m"
    and qid: "pr_id q = pr_id (obj m a)"
    and q: "proc_ok u (map_of (pm_pidToProcess m')) a q"
    and others: "\<And>b. b \<noteq> a \<Longrightarrow> b < length (pm_heap m) \<Longrightarrow> pr_pid (obj m b) \<noteq> 0 \<Longrightarrow>
        map_of (pm_pidToProcess m') (pr_pid (obj m b)) = Some b"
    and dom: "dom (map_of (pm_pidToProcess m')) = L'" "0 \<notin> L'"
    and pids: "\<And>pid b. map_of (pm_pidToProcess m') pid = Some b \<Longrightarrow> b < length (pm_heap m) \<and>
        (\<not> u \<longrightarrow> pr_pid (if b = a then q else obj m b) = pid)"
    and mem: "mem_ok (pm_memory m')"
    and le: "unat (mt_reservedMb (pm_memory m)) + unat (pr_reservedMb q) \<le>
        unat (mt_reservedMb (pm_memory m')) + unat (pr_reservedMb (obj m a))"
    and eq: "\<not> u \<longrightarrow> unat (mt_reservedMb (pm_memory m)) + unat (pr_reservedMb q) =
        unat (mt_reservedMb (pm_memory m')) + unat (pr_reservedMb (obj m a))"
  shows "world_inv u (m', L')"
proof -
  note D = world_invD [OF inv]
  have "tables_ok u m' L'"
    unfolding tables_ok_def
  proof (intro conjI allI impI)
    fix i b
    assume "map_of (pm_processes m') i = Some b"
    then have "b < length (pm_heap m) \<and> pr_id (obj m b) = i"
      using D(1) procs by (simp add: tables_ok_def)
    then show "b < length (pm_heap m')" and "pr_id (obj m' b) = i"
      using qid by (simp_all add: heap nth_update_if)
  next
    fix pid b
    assume "map_of (pm_pidToProcess m') pid = Some b"
    note p = pids [OF this]
    then show "b < length (pm_heap m')" by (simp add: heap)
    assume "\<not> u"
    with p show "pr_pid (obj m' b) = pid" by (simp add: heap nth_update_if split: if_splits)
  qed (use dom in simp_all)
  moreover have "memory_inv u m'"
  proof -
    have t: "reserved_total m' + unat (pr_reservedMb (obj m a)) = reserved_total m + unat (pr_reservedMb q)"
      by (rule reserved_total_update [OF a heap])
    have o: "reserved_total m \<le> unat (mt_reservedMb (pm_memory m))"
      "\<not> u \<longrightarrow> reserved_total m = unat (mt_reservedMb (pm_memory m))"
      using D(2) by (simp_all add: memory_inv_def)
    have "reserved_total m' \<le> unat (mt_reservedMb (pm_memory m'))"
      using t o(1) le by linarith
    moreover have "\<not> u \<longrightarrow> reserved_total m' = unat (mt_reservedMb (pm_memory m'))"
      using t o(2) eq by linarith
    ultimately show ?thesis
      using mem by (simp add: memory_inv_def)
  qed
  moreover have "proc_ok u (map_of (pm_pidToProcess m')) b (obj m' b)" if b: "b < length (pm_heap m')" for b
  proof (cases "b = a")
    case True
    with a q show ?thesis by (simp add: heap)
  next
    case False
    have len: "b < length (pm_heap m)" using b by (simp add: heap)
    with False D(3) [OF len] others [OF False len] show ?thesis
      by (simp add: heap proc_ok_def)
  qed
  ultimately show ?thesis by (simp add: world_inv_def)
qed

text \<open>The common case: only the object changes, and it keeps its pid and its reservation.\<close>

lemma world_inv_object:
  assumes inv: "world_inv u (m, L)" and a: "a < length (pm_heap m)"
    and heap: "pm_heap m' = (pm_heap m)[a := q]" and "pm_processes m' = pm_processes m"
    and pids: "pm_pidToProcess m' = pm_pidToProcess m" and mem: "pm_memory m' = pm_memory m"
    and "pr_id q = pr_id (obj m a)" and "pr_reservedMb q = pr_reservedMb (obj m a)"
    and pid: "\<not> u \<longrightarrow> pr_pid q = pr_pid (obj m a)"
    and q: "proc_ok u (map_of (pm_pidToProcess m)) a q"
  shows "world_inv u (m', L)"
proof (rule world_inv_change [OF inv a heap])
  note D = world_invD [OF inv]
  show "dom (map_of (pm_pidToProcess m')) = L" and "0 \<notin> L"
    using D(1) by (simp_all add: tables_ok_def pids)
  show "mem_ok (pm_memory m')"
    using D(2) by (simp add: memory_inv_def mem)
  show "map_of (pm_pidToProcess m') (pr_pid (obj m b)) = Some b"
    if "b \<noteq> a" "b < length (pm_heap m)" "pr_pid (obj m b) \<noteq> 0" for b
    using D(3) [OF that(2)] that(3) by (simp add: proc_ok_def pids)
  show "b < length (pm_heap m) \<and> (\<not> u \<longrightarrow> pr_pid (if b = a then q else obj m b) = pid)"
    if "map_of (pm_pidToProcess m') pid = Some b" for pid b
    using D(1) that pid by (simp add: tables_ok_def pids)
qed (use assms in simp_all)

subsection \<open>Every step keeps the invariant\<close>

lemma inv_pids_length:
  "world_inv u (m, L) \<Longrightarrow> map_of (pm_pidToProcess m) pid = Some a \<Longrightarrow> a < length (pm_heap m)"
  by (simp add: world_inv_def tables_ok_def)

lemma inv_processes_length:
  "world_inv u (m, L) \<Longrightarrow> map_of (pm_processes m) i = Some a \<Longrightarrow> a < length (pm_heap m)"
  by (simp add: world_inv_def tables_ok_def)

lemma world_inv_call: "world_inv u (m, L) \<Longrightarrow> world_inv u (call c m, L)"
  by (rule world_inv_same) (simp_all add: pm_frame)

lemma world_inv_add:
  assumes inv: "world_inv u (m, L)" and new: "map_of (pm_processes m) i = None"
    and add: "ProcessManager_addProcess U i n s m = (Inr a, m')"
  shows "world_inv u (m', L)"
proof -
  note D = world_invD [OF inv]
  obtain p where p: "Process_new i (if n = [] then ''Process_'' @ UUID_toString U i else n)
      (if UUID_isNull s then i else s) = Inr p"
    and m': "m' = m\<lparr>pm_heap := pm_heap m @ [p], pm_processes := map_set i (length (pm_heap m)) (pm_processes m)\<rparr>"
    using add by (auto simp: ProcessManager_addProcess_def Let_def split: sum.splits)
  have p_fields: "pr_id p = i" "pr_pid p = 0" "pr_state p = NotSpawned" "pr_terminationThread p = No_thread"
    "pr_reservedMb p = 0"
    using p by (auto simp: Process_new_def split: if_splits)
  have "tables_ok u m' L"
    using D(1) p_fields new by (auto simp: tables_ok_def m' nth_append intro: less_SucI)
  moreover have "memory_inv u m'"
    using D(2) p_fields by (simp add: memory_inv_def reserved_total_def m')
  moreover have "proc_ok u (map_of (pm_pidToProcess m')) b (obj m' b)" if "b < length (pm_heap m')" for b
    using that D(3) [of b] p_fields by (auto simp: m' nth_append proc_ok_def less_Suc_eq)
  ultimately show ?thesis by (simp add: world_inv_def)
qed

lemma world_inv_terminated_internal:
  assumes inv: "world_inv u (m, L)" and a: "a < length (pm_heap m)"
    and "u \<or> pr_pid (obj m a) = 0"
  shows "world_inv u (Process_terminated_internal c a m, L)"
proof (cases "pr_state (obj m a) = Terminated")
  case True
  then show ?thesis
    using inv by (intro world_inv_same [OF inv]) (simp_all add: Process_terminated_internal_def pm_frame)
next
  case False
  show ?thesis
    by (rule world_inv_object [OF inv a terminated_internal_heap [OF False]])
      (use assms(3) world_invD(3) [OF inv a] in \<open>auto simp: pm_frame proc_ok_def\<close>)
qed

lemma world_inv_terminate:
  assumes inv: "world_inv u (m, L)" and a: "a < length (pm_heap m)" and t: "Process_terminate fast a m = (r, m')"
  shows "world_inv u (m', L)" and "\<exists>sc. r = Inr sc"
proof -
  note P = world_invD(3) [OF inv a]
  have "world_inv u (m', L) \<and> (\<exists>sc. r = Inr sc)"
  proof (cases "pr_state (obj m a)")
    case NotSpawned
    with t P show ?thesis
      by (auto simp: Process_terminate_def proc_ok_def intro!: world_inv_terminated_internal [OF inv a])
  next
    case Spawned
    let ?q = "(obj m a)\<lparr>pr_state := Terminating, pr_terminationThread := Entered fast\<rparr>"
    have free: "pr_terminationThread (obj m a) = No_thread"
      using P Spawned by (simp add: proc_ok_def)
    have m': "m' = upd_obj a (\<lambda>p. p\<lparr>pr_terminationThread := Entered fast\<rparr>) (upd_obj a (\<lambda>p. p\<lparr>pr_state := Terminating\<rparr>) m)"
      and r: "r = Inr SC_InProgress"
      using t a Spawned free by (simp_all add: Process_terminate_def Let_def)
    have "world_inv u (m', L)"
    proof (rule world_inv_object [OF inv a])
      show "pm_heap m' = (pm_heap m)[a := ?q]"
        using a by (simp add: m' pm_heap_simps)
    qed (use P Spawned in \<open>simp_all add: m' pm_frame proc_ok_def thread_running_def\<close>)
    with r show ?thesis by blast
  next
    case Terminating
    with t inv show ?thesis by (auto simp: Process_terminate_def)
  next
    case Terminated
    with t inv show ?thesis by (auto simp: Process_terminate_def)
  qed
  then show "world_inv u (m', L)" and "\<exists>sc. r = Inr sc" by blast+
qed

lemma world_inv_thread_field:
  assumes inv: "world_inv u (m, L)" and a: "a < length (pm_heap m)"
    and st: "pr_state (obj m a) = Terminating \<or> pr_state (obj m a) = Terminated"
    and t: "pr_state (obj m a) = Terminating \<longrightarrow> thread_running t"
  shows "world_inv u (upd_obj a (\<lambda>p. p\<lparr>pr_terminationThread := t\<rparr>) m, L)"
  by (rule world_inv_object [OF inv a upd_obj_heap])
    (use world_invD(3) [OF inv a] st t in \<open>auto simp: pm_frame proc_ok_def\<close>)

lemma Process_terminationProc_cases:
  assumes "Process_terminationProc stop timeout a m = Some m'"
  obtains c where "m' = upd_obj a (\<lambda>p. p\<lparr>pr_terminationThread := Wait_kill\<rparr>) (call c m)" and "pr_state (obj m a) \<noteq> Terminated"
  | c where "m' = upd_obj a (\<lambda>p. p\<lparr>pr_terminationThread := Wait_term\<rparr>) (call c m)" and "pr_state (obj m a) \<noteq> Terminated"
  | c d where "m' = upd_obj a (\<lambda>p. p\<lparr>pr_terminationThread := Wait_term\<rparr>) (call c (call d m))" and "pr_state (obj m a) \<noteq> Terminated"
  | c where "m' = upd_obj a (\<lambda>p. p\<lparr>pr_terminationThread := Wait_stop\<rparr>) (call c m)" and "pr_state (obj m a) \<noteq> Terminated"
  | "m' = thread_end a m" and "pr_state (obj m a) \<noteq> Terminating \<or> pr_pid (obj m a) = 0"
  | "m' = thread_end a (Process_terminated_internal ES_UNINTERRUPTABLE a m)" and "gives_up timeout a m"
  using assms
  by (auto simp: Process_terminationProc_def Let_def term_kill_def term_sigterm_def ProcessManager_controlledStop_def
      gives_up_def call_frame split: termination_thread.splits if_splits bool.splits)

lemma world_inv_thread:
  assumes inv: "world_inv u (m, L)" and a: "a < length (pm_heap m)"
    and t: "Process_terminationProc stop timeout a m = Some m'" and u: "u \<or> \<not> gives_up timeout a m"
  shows "world_inv u (m', L)"
proof -
  note P = world_invD(3) [OF inv a]
  have running: "thread_running (pr_terminationThread (obj m a))"
    using t by (auto simp: Process_terminationProc_def Let_def thread_running_def)
  then have st: "pr_state (obj m a) = Terminating \<or> pr_state (obj m a) = Terminated"
    using P by (cases "pr_state (obj m a)") (auto simp: proc_ok_def thread_running_def)
  have step: "world_inv u (upd_obj a (\<lambda>p. p\<lparr>pr_terminationThread := w\<rparr>) m1, L)"
    if "world_inv u (m1, L)" "pm_heap m1 = pm_heap m" "thread_running w" for m1 w
    using world_inv_thread_field [OF that(1)] a st that(2,3) by simp
  show ?thesis
    using t
  proof (cases rule: Process_terminationProc_cases)
    case (1 c)
    show ?thesis unfolding 1 by (rule step [OF world_inv_call [OF inv]]) (simp_all add: pm_frame thread_running_def)
  next
    case (2 c)
    show ?thesis unfolding 2 by (rule step [OF world_inv_call [OF inv]]) (simp_all add: pm_frame thread_running_def)
  next
    case (3 c d)
    show ?thesis unfolding 3
      by (rule step [OF world_inv_call [OF world_inv_call [OF inv]]]) (simp_all add: pm_frame thread_running_def)
  next
    case (4 c)
    show ?thesis unfolding 4 by (rule step [OF world_inv_call [OF inv]]) (simp_all add: pm_frame thread_running_def)
  next
    case 5
    have "pr_state (obj m a) = Terminated"
      using 5(2) st P by (auto simp: proc_ok_def)
    then show ?thesis
      unfolding 5 thread_end_def by (intro world_inv_thread_field [OF inv a]) simp_all
  next
    case 6
    let ?m = "Process_terminated_internal ES_UNINTERRUPTABLE a m"
    have nt: "pr_state (obj m a) \<noteq> Terminated" using 6(2) by (simp add: gives_up_def)
    have "u" using u 6(2) by blast
    then have i: "world_inv u (?m, L)" by (intro world_inv_terminated_internal [OF inv a]) simp
    have "a < length (pm_heap ?m)" and "pr_state (obj ?m a) = Terminated"
      using a by (simp_all add: terminated_internal_heap [OF nt])
    then show ?thesis
      unfolding 6 thread_end_def by (intro world_inv_thread_field [OF i]) simp_all
  qed
qed

lemma world_inv_reset:
  assumes inv: "world_inv u (m, L)" and a: "a < length (pm_heap m)" and r: "Process_reset a m = Some (sc, m')"
  shows "world_inv u (m', L)"
proof (cases "pr_state (obj m a) = Terminated")
  case True
  then have m': "m' = upd_obj a (\<lambda>p. p\<lparr>pr_terminationThread := No_thread, pr_state := NotSpawned\<rparr>) m"
    using r by (simp add: Process_reset_def split: if_splits)
  show ?thesis
    unfolding m'
    by (rule world_inv_object [OF inv a upd_obj_heap]) (use world_invD(3) [OF inv a] True in \<open>auto simp: pm_frame proc_ok_def\<close>)
next
  case False
  with r inv show ?thesis by (simp add: Process_reset_def)
qed

lemma world_inv_signal: "world_inv u (m, L) \<Longrightarrow> world_inv u (Process_signal signum g a m, L)"
  by (simp add: Process_signal_def Let_def world_inv_call)

lemma mem_ok_release:
  assumes "mem_ok mt" and "r \<le> mt_reservedMb mt"
  shows "mem_ok (MemoryTracking_release r mt)"
    and "unat (mt_reservedMb (MemoryTracking_release r mt)) = unat (mt_reservedMb mt) - unat r"
  using assms by (simp_all add: mem_ok_def MemoryTracking_release_def unat_sub)

lemma reserved_le:
  assumes "world_inv u (m, L)" and "a < length (pm_heap m)"
  shows "pr_reservedMb (obj m a) \<le> mt_reservedMb (pm_memory m)"
proof -
  have "unat (pr_reservedMb (obj m a)) \<le> reserved_total m"
    using assms(2) by (auto simp: reserved_total_def intro!: member_le_sum_list)
  then show ?thesis
    using world_invD(2) [OF assms(1)] by (simp add: memory_inv_def word_le_nat_alt)
qed

lemma world_inv_exit:
  assumes inv: "world_inv u (m, L)" and pid: "pid \<in> L"
  shows "world_inv u (ProcessManager_handleChildExit cg_ok pid ws m, L - {pid})"
proof -
  note D = world_invD [OF inv]
  let ?m = "ProcessManager_handleChildExit cg_ok pid ws m"
  obtain a where reg: "map_of (pm_pidToProcess m) pid = Some a"
    using D(1) pid by (auto simp: tables_ok_def)
  have a: "a < length (pm_heap m)" by (rule inv_pids_length [OF inv reg])
  note P = D(3) [OF a]
  note F = handleChildExit_frame [OF reg a, of cg_ok ws]
  let ?r = "pr_reservedMb (obj m a)"
  obtain s c where heap: "pm_heap ?m = (pm_heap m)[a := (obj m a)\<lparr>pr_status := s, pr_reservedMb := 0, pr_cgroupExists := c,
      pr_state := Terminated, pr_pid := (if pr_state (obj m a) = Terminated then pr_pid (obj m a) else 0)\<rparr>]"
    and mem: "pm_memory ?m = MemoryTracking_release ?r (pm_memory m)"
    using handleChildExit_effect [OF reg a] by blast
  have pid0: "(if pr_state (obj m a) = Terminated then pr_pid (obj m a) else 0) = 0"
    using P by (auto simp: proc_ok_def)
  have mok: "mem_ok (pm_memory m)" using D(2) by (simp add: memory_inv_def)
  note rel = mem_ok_release [OF mok reserved_le [OF inv a]]
  show ?thesis
  proof (rule world_inv_change [OF inv a heap F(1)])
    show "map_of (pm_pidToProcess ?m) (pr_pid (obj m b)) = Some b"
      if b: "b \<noteq> a" "b < length (pm_heap m)" "pr_pid (obj m b) \<noteq> 0" for b
    proof -
      have "map_of (pm_pidToProcess m) (pr_pid (obj m b)) = Some b"
        using D(3) [OF b(2)] b(3) by (simp add: proc_ok_def)
      with reg b(1) show ?thesis by (auto simp: F(2))
    qed
    show "dom (map_of (pm_pidToProcess ?m)) = L - {pid}" and "0 \<notin> L - {pid}"
      using D(1) by (auto simp: tables_ok_def F(2))
    show "b < length (pm_heap m) \<and> (\<not> u \<longrightarrow> pr_pid (if b = a then (obj m a)\<lparr>pr_status := s, pr_reservedMb := 0,
        pr_cgroupExists := c, pr_state := Terminated,
        pr_pid := (if pr_state (obj m a) = Terminated then pr_pid (obj m a) else 0)\<rparr> else obj m b) = p)"
      if p: "map_of (pm_pidToProcess ?m) p = Some b" for p b
    proof -
      have pb: "map_of (pm_pidToProcess m) p = Some b" and ne: "p \<noteq> pid"
        using p by (auto simp: F(2) split: if_splits)
      have "\<not> u \<Longrightarrow> pr_pid (obj m b) = p" and "\<not> u \<Longrightarrow> pr_pid (obj m a) = pid"
        using D(1) pb reg by (simp_all add: tables_ok_def)
      then have "\<not> u \<Longrightarrow> b \<noteq> a"
        using ne by blast
      with D(1) pb show ?thesis by (auto simp: tables_ok_def)
    qed
    show "mem_ok (pm_memory ?m)" unfolding mem by (rule rel(1))
    have "unat (mt_reservedMb (pm_memory m)) = unat (mt_reservedMb (pm_memory ?m)) + unat ?r"
      using rel(2) reserved_le [OF inv a] by (simp add: mem word_le_nat_alt)
    then show "unat (mt_reservedMb (pm_memory m)) + unat (pr_reservedMb ((obj m a)\<lparr>pr_status := s, pr_reservedMb := 0,
        pr_cgroupExists := c, pr_state := Terminated,
        pr_pid := (if pr_state (obj m a) = Terminated then pr_pid (obj m a) else 0)\<rparr>)) \<le> unat (mt_reservedMb (pm_memory ?m)) + unat ?r"
      and "\<not> u \<longrightarrow> unat (mt_reservedMb (pm_memory m)) + unat (pr_reservedMb ((obj m a)\<lparr>pr_status := s, pr_reservedMb := 0,
        pr_cgroupExists := c, pr_state := Terminated,
        pr_pid := (if pr_state (obj m a) = Terminated then pr_pid (obj m a) else 0)\<rparr>)) = unat (mt_reservedMb (pm_memory ?m)) + unat ?r"
      by simp_all
  qed (simp_all only: pid0, use P in \<open>simp_all add: proc_ok_def thread_running_def\<close>)
qed

lemma preFork_effect:
  assumes "mem_ok (pm_memory m)" and "request_ok (pr_assignedMb (obj m a)) (pm_memory m)" and a: "a < length (pm_heap m)"
    and pre: "ProcessManager_preFork_cb cg_ok a m = (Inr (), m')"
  obtains r c where "unat r = min (unat (pr_assignedMb (obj m a))) (mem_free (pm_memory m))"
    and "pm_heap m' = (pm_heap m)[a := (obj m a)\<lparr>pr_reservedMb := r, pr_cgroupExists := c\<rparr>]"
    and "pm_memory m' = (pm_memory m)\<lparr>mt_reservedMb := mt_reservedMb (pm_memory m) + r\<rparr>"
    and "pm_processes m' = pm_processes m" and "pm_pidToProcess m' = pm_pidToProcess m"
proof -
  obtain m1 where res: "ProcessManager_reserveMemory a m = (Inr (), m1)"
    and m': "m' = (if pm_controlGroup m1 then ProcessManager_createControlSubgroup cg_ok a m1 else m1)"
    using pre by (auto simp: ProcessManager_preFork_cb_def elim!: seqp_InrE)
  obtain r where r: "unat r = min (unat (pr_assignedMb (obj m a))) (mem_free (pm_memory m))"
    and m1: "m1 = set_reserved a r (m\<lparr>pm_memory := (pm_memory m)\<lparr>mt_reservedMb := mt_reservedMb (pm_memory m) + r\<rparr>\<rparr>)"
    using reserveMemory_effect [OF assms(1,2) res] by blast
  have heap1: "pm_heap m1 = (pm_heap m)[a := (obj m a)\<lparr>pr_reservedMb := r\<rparr>]"
    by (simp add: m1 set_reserved_def pm_heap_simps)
  have "\<exists>c. pm_heap m' = (pm_heap m)[a := (obj m a)\<lparr>pr_reservedMb := r, pr_cgroupExists := c\<rparr>]"
  proof (cases "pm_controlGroup m1")
    case True
    obtain c where "pm_heap (ProcessManager_createControlSubgroup cg_ok a m1) = (pm_heap m1)[a := (obj m1 a)\<lparr>pr_cgroupExists := c\<rparr>]"
      using createControlSubgroup_heap by blast
    with True a show ?thesis
      by (intro exI [of _ c]) (simp add: m' heap1)
  next
    case False
    then show ?thesis
      by (intro exI [of _ "pr_cgroupExists (obj m a)"]) (simp add: m' heap1)
  qed
  then obtain c where "pm_heap m' = (pm_heap m)[a := (obj m a)\<lparr>pr_reservedMb := r, pr_cgroupExists := c\<rparr>]" ..
  with r show thesis
    by (rule that) (simp_all add: m' m1 set_reserved_def pm_frame)
qed

lemma fork_failed_effect:
  assumes a: "a < length (pm_heap m)" and "pr_state (obj m a) \<noteq> Terminated"
  obtains c where "pm_heap (Process_fork_failed ok a m) =
      (pm_heap m)[a := (obj m a)\<lparr>pr_status := internal_status ES_FORK_FAILED, pr_state := Terminated, pr_pid := 0,
        pr_reservedMb := 0, pr_cgroupExists := c\<rparr>]"
    and "pm_memory (Process_fork_failed ok a m) = MemoryTracking_release (pr_reservedMb (obj m a)) (pm_memory m)"
    and "pm_processes (Process_fork_failed ok a m) = pm_processes m"
    and "pm_pidToProcess (Process_fork_failed ok a m) = pm_pidToProcess m"
proof -
  let ?t = "Process_terminated_internal ES_FORK_FAILED a m"
  note h = terminated_internal_heap [OF assms(2), of ES_FORK_FAILED]
  have len: "a < length (pm_heap ?t)" using a by (simp add: h)
  obtain c where "pm_heap (ProcessManager_exit_cb ok a ?t) = (pm_heap ?t)[a := (obj ?t a)\<lparr>pr_reservedMb := 0, pr_cgroupExists := c\<rparr>]"
    using exit_cb_heap [OF len] by blast
  then have "pm_heap (Process_fork_failed ok a m) =
      (pm_heap m)[a := (obj m a)\<lparr>pr_status := internal_status ES_FORK_FAILED, pr_state := Terminated, pr_pid := 0,
        pr_reservedMb := 0, pr_cgroupExists := c\<rparr>]"
    using a by (simp add: Process_fork_failed_def failedFork_cb_eq h)
  then show thesis
    by (rule that) (use a in \<open>simp_all add: Process_fork_failed_def failedFork_cb_eq pm_frame h\<close>)
qed

lemma forked_effect:
  assumes a: "a < length (pm_heap m)" and reg: "map_of (pm_processes m) (pr_id (obj m a)) = Some a" and "pid \<noteq> 0"
  shows "pm_heap (Process_forked pid a m) = (pm_heap m)[a := (obj m a)\<lparr>pr_pid := pid, pr_state := Spawned\<rparr>]"
    and "pm_processes (Process_forked pid a m) = pm_processes m"
    and "pm_pidToProcess (Process_forked pid a m) = map_set pid a (pm_pidToProcess m)"
    and "pm_memory (Process_forked pid a m) = pm_memory m"
  using assms by (simp_all add: Process_forked_def ProcessManager_postFork_cb_def Let_def pm_frame pm_heap_simps upd_obj_def)

lemma apply_args_fields [simp]:
  "pr_id (apply_args sa p) = pr_id p" "pr_pid (apply_args sa p) = pr_pid p" "pr_state (apply_args sa p) = pr_state p"
  "pr_terminationThread (apply_args sa p) = pr_terminationThread p" "pr_reservedMb (apply_args sa p) = pr_reservedMb p"
  "pr_assignedMb (apply_args sa p) = sa_assignedMb sa" "pr_borrowedMb (apply_args sa p) = pr_borrowedMb p"
  by (simp_all add: apply_args_def)

lemma world_inv_spawn:
  assumes inv: "world_inv u (m, L)" and reg: "map_of (pm_processes m) (pr_id (obj m a)) = Some a"
    and req: "request_ok (sa_assignedMb sa) (pm_memory m)" and fork: "fork_ok L fork"
    and spawn: "Process_spawn pipes_ok cg_ok fork sa a m = (Inr sc, m')"
  shows "world_inv u (m', if sc = SC_Success then L \<union> set_option fork else L)"
proof (cases "pr_state (obj m a) = NotSpawned")
  case False
  with spawn inv show ?thesis
    by (cases "pr_state (obj m a)") (auto simp: Process_spawn_def)
next
  case ns: True
  note a = inv_processes_length [OF inv reg]
  note P = world_invD(3) [OF inv a]
  have pid0: "pr_pid (obj m a) = 0" and nothr: "pr_terminationThread (obj m a) = No_thread"
    using P ns by (simp_all add: proc_ok_def)
  let ?m0 = "upd_obj a (apply_args sa) m"
  have inv0: "world_inv u (?m0, L)"
    by (rule world_inv_object [OF inv a upd_obj_heap]) (use P in \<open>simp_all add: pm_frame proc_ok_def\<close>)
  have a0: "a < length (pm_heap ?m0)" and o0: "obj ?m0 a = apply_args sa (obj m a)"
    using a by (simp_all add: pm_heap_simps)
  show ?thesis
  proof (cases "sa_ioCapture sa \<and> \<not> pipes_ok")
    case True
    with ns spawn have "m' = Process_terminated_internal ES_FORK_FAILED a ?m0" and "sc = SC_Terminated"
      by (simp_all add: Process_spawn_def Let_def)
    with world_inv_terminated_internal [OF inv0 a0] o0 pid0 show ?thesis by simp
  next
    case False
    then have io: "(sa_ioCapture sa \<and> \<not> pipes_ok) = False" by blast
    have run: "(case ProcessManager_preFork_cb cg_ok a ?m0 of
        (Inl e, m) \<Rightarrow> (Inl e, m)
      | (Inr _, m) \<Rightarrow> (case fork of None \<Rightarrow> (Inr SC_Terminated, Process_fork_failed cg_ok a m)
          | Some pid \<Rightarrow> (Inr SC_Success, Process_forked pid a m))) = (Inr sc, m')"
      using spawn ns unfolding Process_spawn_def Let_def io if_False by simp
    obtain res m1 where pre: "ProcessManager_preFork_cb cg_ok a ?m0 = (res, m1)" by (rule prod.exhaust)
    with run obtain v where "res = Inr v"
      by (cases res) auto
    with pre have pre': "ProcessManager_preFork_cb cg_ok a ?m0 = (Inr (), m1)" by simp
    have mok: "mem_ok (pm_memory m)" using world_invD(2) [OF inv] by (simp add: memory_inv_def)
    have mem0: "pm_memory ?m0 = pm_memory m" by (simp add: pm_frame)
    obtain r c where r: "unat r = min (unat (sa_assignedMb sa)) (mem_free (pm_memory m))"
      and h1: "pm_heap m1 = (pm_heap ?m0)[a := (obj ?m0 a)\<lparr>pr_reservedMb := r, pr_cgroupExists := c\<rparr>]"
      and mem1: "pm_memory m1 = (pm_memory m)\<lparr>mt_reservedMb := mt_reservedMb (pm_memory m) + r\<rparr>"
      and t1: "pm_processes m1 = pm_processes m" "pm_pidToProcess m1 = pm_pidToProcess m"
      by (rule preFork_effect [of ?m0, OF _ _ a0 pre']) (use mok req o0 in \<open>simp_all add: mem0 pm_frame\<close>)
    let ?q = "(apply_args sa (obj m a))\<lparr>pr_reservedMb := r, pr_cgroupExists := c\<rparr>"
    have heap1: "pm_heap m1 = (pm_heap m)[a := ?q]" using a by (simp add: h1 o0 pm_heap_simps)
    have a1: "a < length (pm_heap m1)" and o1: "obj m1 a = ?q" using a by (simp_all add: heap1)
    have rle: "unat r \<le> mem_free (pm_memory m)" using r by simp
    note sum = unat_reserved_add [OF mok rle]
    show ?thesis
    proof (cases fork)
      case None
      with run pre' have m': "m' = Process_fork_failed cg_ok a m1" and sc: "sc = SC_Terminated"
        by simp_all
      have "pr_state (obj m1 a) \<noteq> Terminated" using o1 ns by simp
      from fork_failed_effect [OF a1 this, of cg_ok] obtain c' where
        h2: "pm_heap m' = (pm_heap m1)[a := (obj m1 a)\<lparr>pr_status := internal_status ES_FORK_FAILED, pr_state := Terminated,
          pr_pid := 0, pr_reservedMb := 0, pr_cgroupExists := c'\<rparr>]"
        and mem2: "pm_memory m' = MemoryTracking_release (pr_reservedMb (obj m1 a)) (pm_memory m1)"
        and t2: "pm_processes m' = pm_processes m1" "pm_pidToProcess m' = pm_pidToProcess m1"
        unfolding m' by blast
      let ?q2 = "?q\<lparr>pr_status := internal_status ES_FORK_FAILED, pr_state := Terminated,
          pr_pid := 0, pr_reservedMb := 0, pr_cgroupExists := c'\<rparr>"
      have heap2: "pm_heap m' = (pm_heap m)[a := ?q2]" using a by (simp add: h2 o1 heap1)
      have mem: "pm_memory m' = pm_memory m" by (simp add: mem2 o1 mem1 MemoryTracking_release_def)
      have pids: "pm_pidToProcess m' = pm_pidToProcess m" by (simp add: t2 t1)
      have "world_inv u (m', L)"
      proof (rule world_inv_change [OF inv a heap2])
        show "map_of (pm_pidToProcess m') (pr_pid (obj m b)) = Some b"
          if "b \<noteq> a" "b < length (pm_heap m)" "pr_pid (obj m b) \<noteq> 0" for b
          using world_invD(3) [OF inv that(2)] that(3) by (simp add: proc_ok_def pids)
        show "b < length (pm_heap m) \<and> (\<not> u \<longrightarrow> pr_pid (if b = a then ?q2 else obj m b) = pid)"
          if "map_of (pm_pidToProcess m') pid = Some b" for pid b
          using world_invD(1) [OF inv] that pid0 by (auto simp: tables_ok_def pids)
        show "dom (map_of (pm_pidToProcess m')) = L" "0 \<notin> L"
          using world_invD(1) [OF inv] by (simp_all add: tables_ok_def pids)
        show "\<not> u \<longrightarrow> unat (mt_reservedMb (pm_memory m)) + unat (pr_reservedMb ?q2) =
            unat (mt_reservedMb (pm_memory m')) + unat (pr_reservedMb (obj m a))"
          using P pid0 by (simp add: mem proc_ok_def)
      qed (use mok nothr in \<open>simp_all add: mem t1 t2 proc_ok_def\<close>)
      with sc show ?thesis by simp
    next
      case (Some pid)
      with run pre' have m': "m' = Process_forked pid a m1" and sc: "sc = SC_Success"
        by simp_all
      have fresh: "pid \<noteq> 0" "pid \<notin> L" using fork Some by (simp_all add: fork_ok_def)
      have reg1: "map_of (pm_processes m1) (pr_id (obj m1 a)) = Some a" using reg by (simp add: t1 o1)
      note F = forked_effect [OF a1 reg1 fresh(1), folded m']
      let ?q2 = "?q\<lparr>pr_pid := pid, pr_state := Spawned\<rparr>"
      have heap2: "pm_heap m' = (pm_heap m)[a := ?q2]" using a by (simp add: F(1) o1 heap1)
      have pids: "map_of (pm_pidToProcess m') = (map_of (pm_pidToProcess m))(pid \<mapsto> a)"
        by (simp add: F(3) t1)
      have "world_inv u (m', insert pid L)"
      proof (rule world_inv_change [OF inv a heap2])
        show "map_of (pm_pidToProcess m') (pr_pid (obj m b)) = Some b"
          if b: "b \<noteq> a" "b < length (pm_heap m)" "pr_pid (obj m b) \<noteq> 0" for b
        proof -
          have reg_b: "map_of (pm_pidToProcess m) (pr_pid (obj m b)) = Some b"
            using world_invD(3) [OF inv b(2)] b(3) by (simp add: proc_ok_def)
          then have "pr_pid (obj m b) \<in> L"
            using world_invD(1) [OF inv] by (auto simp: tables_ok_def)
          with fresh(2) have "pr_pid (obj m b) \<noteq> pid" by blast
          with reg_b show ?thesis by (simp add: pids)
        qed
        show "b < length (pm_heap m) \<and> (\<not> u \<longrightarrow> pr_pid (if b = a then ?q2 else obj m b) = p)"
          if p: "map_of (pm_pidToProcess m') p = Some b" for p b
        proof (cases "p = pid")
          case True
          with p a show ?thesis by (simp add: pids)
        next
          case False
          then have pb: "map_of (pm_pidToProcess m) p = Some b" using p by (simp add: pids)
          have "p \<noteq> 0" using world_invD(1) [OF inv] pb by (auto simp: tables_ok_def)
          moreover have "\<not> u \<Longrightarrow> pr_pid (obj m b) = p" using world_invD(1) [OF inv] pb by (simp add: tables_ok_def)
          ultimately have "\<not> u \<Longrightarrow> b \<noteq> a" using pid0 by auto
          with world_invD(1) [OF inv] pb show ?thesis by (auto simp: tables_ok_def)
        qed
        show "dom (map_of (pm_pidToProcess m')) = insert pid L" "0 \<notin> insert pid L"
          using world_invD(1) [OF inv] fresh(1) by (simp_all add: tables_ok_def pids)
        show "mem_ok (pm_memory m')"
          using mok rle sum by (simp add: F(4) mem1 mem_ok_def mem_free_def)
        show "\<not> u \<longrightarrow> unat (mt_reservedMb (pm_memory m)) + unat (pr_reservedMb ?q2) =
            unat (mt_reservedMb (pm_memory m')) + unat (pr_reservedMb (obj m a))"
          using P pid0 sum by (simp add: F(4) mem1 proc_ok_def)
      qed (use nothr fresh(1) sum in \<open>simp_all add: F(2,4) t1 mem1 proc_ok_def pids\<close>)
      with sc Some show ?thesis by simp
    qed
  qed
qed

lemma world_inv_lend:
  assumes inv: "world_inv u (m, L)" and a: "a < length (pm_heap m)" and b: "MemoryTracking_borrow n (pm_memory m) = (borrowed, mt)"
    and n: "request_ok n (pm_memory m)" and pos: "0 < borrowed"
  shows "world_inv u (oom_lend borrowed a (m\<lparr>pm_memory := mt\<rparr>), L)"
proof -
  let ?m = "oom_lend borrowed a (m\<lparr>pm_memory := mt\<rparr>)"
  let ?q = "(obj m a)\<lparr>pr_borrowedMb := pr_borrowedMb (obj m a) + borrowed\<rparr>"
  have mok: "mem_ok (pm_memory m)" using world_invD(2) [OF inv] by (simp add: memory_inv_def)
  have mt: "mt = (pm_memory m)\<lparr>mt_borrowedMb := mt_borrowedMb (pm_memory m) + n\<rparr>"
    and fits: "mt_reservedMb (pm_memory m) + mt_borrowedMb (pm_memory m) + n \<le> mt_availableMb (pm_memory m)"
    using b pos by (auto simp: MemoryTracking_borrow_def split: if_splits)
  have sum: "unat (mt_reservedMb (pm_memory m)) + unat (mt_borrowedMb (pm_memory m)) + unat n \<le> unat (mt_availableMb (pm_memory m))"
    using fits reserve_sum [OF mok n] by (simp add: word_le_nat_alt)
  have "unat (mt_borrowedMb (pm_memory m) + n) = unat (mt_borrowedMb (pm_memory m)) + unat n"
    using sum unat_less_pow [of "mt_availableMb (pm_memory m)"] by (intro unat_add_small) simp
  then have mok': "mem_ok mt" using sum by (simp add: mem_ok_def mt)
  have mt_r: "mt_reservedMb mt = mt_reservedMb (pm_memory m)" by (simp add: mt)
  have heap: "pm_heap ?m = (pm_heap m)[a := ?q]"
    by (simp add: oom_lend_def Let_def pm_frame pm_heap_simps)
  have frame: "pm_processes ?m = pm_processes m" "pm_pidToProcess ?m = pm_pidToProcess m" "pm_memory ?m = mt"
    by (simp_all add: oom_lend_def Let_def pm_frame)
  show ?thesis
  proof (rule world_inv_change [OF inv a heap frame(1)])
    show "map_of (pm_pidToProcess ?m) (pr_pid (obj m b)) = Some b"
      if "b \<noteq> a" "b < length (pm_heap m)" "pr_pid (obj m b) \<noteq> 0" for b
      using world_invD(3) [OF inv that(2)] that(3) by (simp add: proc_ok_def frame)
    show "b < length (pm_heap m) \<and> (\<not> u \<longrightarrow> pr_pid (if b = a then ?q else obj m b) = pid)"
      if "map_of (pm_pidToProcess ?m) pid = Some b" for pid b
      using world_invD(1) [OF inv] that by (auto simp: tables_ok_def frame)
    show "dom (map_of (pm_pidToProcess ?m)) = L" "0 \<notin> L"
      using world_invD(1) [OF inv] by (simp_all add: tables_ok_def frame)
    show "proc_ok u (map_of (pm_pidToProcess ?m)) a ?q"
      using world_invD(3) [OF inv a] by (simp add: proc_ok_def frame)
  qed (use mok' in \<open>simp_all add: frame mt_r\<close>)
qed

lemma terminate_memory: "Process_terminate fast a m = (r, m') \<Longrightarrow> pm_memory m' = pm_memory m"
  by (auto simp: Process_terminate_def pm_frame Let_def split: process_state.splits if_splits)

lemma oom_kill_steps:
  assumes "world_inv u (m, L)" and "a < length (pm_heap m)" and "oom_kill g a m = (r, m')"
  shows "world_inv u (m', L)" and "pm_memory m' = pm_memory m" and "r = Inr ()"
proof -
  obtain res m1 where t: "Process_terminate True a m = (res, m1)" by (rule prod.exhaust)
  obtain sc where res: "res = Inr sc" using world_inv_terminate(2) [OF assms(1,2) t] by blast
  then have "r = Inr ()" and m': "m' = call (CG_monitor g False) m1"
    using assms(3) t by (simp_all add: oom_kill_def)
  then show "r = Inr ()" and "world_inv u (m', L)" and "pm_memory m' = pm_memory m"
    using world_inv_call [OF world_inv_terminate(1) [OF assms(1,2) t]] terminate_memory [OF t] by (simp_all add: pm_frame)
qed

lemma getProcess_length:
  "world_inv u (m, L) \<Longrightarrow> ProcessManager_getProcess i m = Some a \<Longrightarrow> a < length (pm_heap m)"
  by (auto simp: ProcessManager_getProcess_def inv_processes_length split: if_splits)

lemma world_inv_oom:
  assumes "world_inv u (m, L)" and "request_ok 128 (pm_memory m)"
    and "ProcessManager_handleOomCondition U groups m = (r, m')"
  shows "world_inv u (m', L) \<and> r = Inr ()"
  using assms
proof (induction U groups m rule: ProcessManager_handleOomCondition.induct)
  case (1 U m)
  then show ?case by simp
next
  case (2 U g gs m)
  show ?case
  proof (cases "ProcessManager_getProcess (UUID_parse U g) m")
    case None
    with 2 show ?thesis by simp
  next
    case (Some a)
    note a = getProcess_length [OF 2(4) Some]
    have kill: "world_inv u (m', L) \<and> r = Inr ()"
      if run: "seqp (oom_kill g a) (ProcessManager_handleOomCondition U gs) m1 = (r, m')"
        and inv1: "world_inv u (m1, L)" and a1: "a < length (pm_heap m1)" and mem1: "request_ok 128 (pm_memory m1)"
        and IH: "\<And>m2. world_inv u (m2, L) \<Longrightarrow> request_ok 128 (pm_memory m2) \<Longrightarrow>
          ProcessManager_handleOomCondition U gs m2 = (r, m') \<Longrightarrow> world_inv u (m', L) \<and> r = Inr ()" for m1
    proof -
      obtain x m2 where k: "oom_kill g a m1 = (x, m2)" by (rule prod.exhaust)
      note K = oom_kill_steps [OF inv1 a1 k]
      have "ProcessManager_handleOomCondition U gs m2 = (r, m')"
        using run k K(3) by simp
      from IH [OF K(1) _ this] mem1 K(2) show ?thesis by simp
    qed
    show ?thesis
    proof (cases "pr_state (obj m a) = Spawned")
      case False
      with 2(4,6) Some show ?thesis by simp
    next
      case sp: True
      show ?thesis
      proof (cases "pm_loanMemory m")
        case loan: True
        obtain borrowed mt where b: "MemoryTracking_borrow 128 (pm_memory m) = (borrowed, mt)" by (rule prod.exhaust)
        have av: "request_ok 128 mt" using b 2(5) by (auto simp: MemoryTracking_borrow_def request_ok_def split: if_splits)
        show ?thesis
        proof (cases "0 < borrowed")
          case True
          let ?m = "oom_lend borrowed a (m\<lparr>pm_memory := mt\<rparr>)"
          have "ProcessManager_handleOomCondition U gs ?m = (r, m')"
            using 2(6) Some sp loan b True by simp
          moreover have "world_inv u (?m, L)"
            by (rule world_inv_lend [OF 2(4) a b 2(5) True])
          moreover have "request_ok 128 (pm_memory ?m)"
            using av by (simp add: oom_lend_def Let_def pm_frame)
          ultimately show ?thesis
            using 2(1) Some sp loan b True by auto
        next
          case False
          then have mt: "mt = pm_memory m"
            using b by (auto simp: MemoryTracking_borrow_def split: if_splits)
          have "seqp (oom_kill g a) (ProcessManager_handleOomCondition U gs) m = (r, m')"
            using 2(6) Some sp loan b False by (simp add: mt)
          then show ?thesis
            by (rule kill [OF _ 2(4) a 2(5)]) (rule 2(2) [OF Some _ loan b [symmetric] False], use sp in simp)
        qed
      next
        case False
        then have "seqp (oom_kill g a) (ProcessManager_handleOomCondition U gs) m = (r, m')"
          using 2(6) Some sp by simp
        then show ?thesis
          by (rule kill [OF _ 2(4) a 2(5)]) (rule 2(3) [OF Some _ False], use sp in simp)
      qed
    qed
  qed
qed

lemma world_inv_terminated:
  assumes inv: "world_inv u (m, L)" and a: "a < length (pm_heap m)" and pid: "pr_pid (obj m a) = 0"
  shows "world_inv u (Process_terminated ok s a m, L)"
proof (cases "pr_state (obj m a) = Terminated")
  case True
  then show ?thesis
    by (intro world_inv_same [OF inv]) (simp_all add: Process_terminated_def pm_frame)
next
  case False
  note P = world_invD(3) [OF inv a]
  let ?m = "Process_terminated ok s a m"
  obtain c where heap: "pm_heap ?m = (pm_heap m)[a := (obj m a)\<lparr>pr_status := s, pr_reservedMb := 0, pr_cgroupExists := c,
      pr_state := Terminated, pr_pid := 0\<rparr>]"
    using terminated_heap [OF a False] by blast
  have mem: "pm_memory ?m = MemoryTracking_release (pr_reservedMb (obj m a)) (pm_memory m)"
    using terminated_memory [OF a] False by simp
  have mok: "mem_ok (pm_memory m)" using world_invD(2) [OF inv] by (simp add: memory_inv_def)
  note rel = mem_ok_release [OF mok reserved_le [OF inv a]]
  have sum: "unat (mt_reservedMb (pm_memory m)) = unat (mt_reservedMb (pm_memory ?m)) + unat (pr_reservedMb (obj m a))"
    using rel(2) reserved_le [OF inv a] by (simp add: mem word_le_nat_alt)
  show ?thesis
  proof (rule world_inv_change [OF inv a heap])
    show "map_of (pm_pidToProcess ?m) (pr_pid (obj m b)) = Some b"
      if "b \<noteq> a" "b < length (pm_heap m)" "pr_pid (obj m b) \<noteq> 0" for b
      using world_invD(3) [OF inv that(2)] that(3) by (simp add: proc_ok_def pm_frame)
    show "b < length (pm_heap m) \<and> (\<not> u \<longrightarrow> pr_pid (if b = a then (obj m a)\<lparr>pr_status := s, pr_reservedMb := 0,
        pr_cgroupExists := c, pr_state := Terminated, pr_pid := 0\<rparr> else obj m b) = p)"
      if "map_of (pm_pidToProcess ?m) p = Some b" for p b
      using world_invD(1) [OF inv] that pid by (auto simp: tables_ok_def pm_frame)
    show "dom (map_of (pm_pidToProcess ?m)) = L" "0 \<notin> L"
      using world_invD(1) [OF inv] by (simp_all add: tables_ok_def pm_frame)
    show "mem_ok (pm_memory ?m)" unfolding mem by (rule rel(1))
  qed (use P pid sum in \<open>simp_all add: proc_ok_def pm_frame\<close>)
qed

lemma world_inv_delete:
  assumes inv: "world_inv u (m, L)" and a: "a < length (pm_heap m)" and "a \<notin> ran (map_of (pm_pidToProcess m))"
    and del: "Process_delete ok a m = Some m'"
  shows "world_inv u (m', L)"
proof -
  let ?t = "Process_terminated ok (internal_status ES_PROCESS_DELETED) a m"
  have pid: "pr_pid (obj m a) = 0"
    using world_invD(3) [OF inv a] assms(3) by (auto simp: proc_ok_def ran_def)
  have invt: "world_inv u (?t, L)" by (rule world_inv_terminated [OF inv a pid])
  have "a < length (pm_heap ?t) \<and> pr_state (obj ?t a) = Terminated"
  proof (cases "pr_state (obj m a) = Terminated")
    case True
    with a show ?thesis by (simp add: Process_terminated_def pm_frame)
  next
    case False
    obtain c where "pm_heap ?t = (pm_heap m)[a := (obj m a)\<lparr>pr_status := internal_status ES_PROCESS_DELETED,
        pr_reservedMb := 0, pr_cgroupExists := c, pr_state := Terminated, pr_pid := 0\<rparr>]"
      using terminated_heap [OF a False] by blast
    with a show ?thesis by simp
  qed
  moreover have "m' = upd_obj a (\<lambda>p. p\<lparr>pr_terminationThread := No_thread\<rparr>) ?t"
    using del by (auto simp: Process_delete_def Let_def split: if_splits)
  ultimately show ?thesis
    using world_inv_thread_field [OF invt] by simp
qed

lemma world_inv_removed:
  assumes inv: "world_inv u (m, L)" and r: "ProcessManager_removed i a m = Some m'"
  shows "world_inv u (m', L)"
proof -
  have m': "m' = m\<lparr>pm_processes := map_erase i (pm_processes m)\<rparr>"
    using r by (auto simp: ProcessManager_removed_def split: option.splits)
  have "tables_ok u m' L"
    using world_invD(1) [OF inv] by (auto simp: tables_ok_def m' split: if_splits)
  with world_invD(2,3) [OF inv] show ?thesis
    by (simp add: world_inv_def memory_inv_def reserved_total_def m')
qed

lemma world_inv_step:
  assumes "pm_step u U w w'" and "world_inv u w"
  shows "world_inv u w'"
  using assms
proof (cases rule: pm_step.cases)
  case (pm_add i n s m a m' L)
  then show ?thesis using world_inv_add assms(2) by blast
next
  case (pm_spawn m a sa L fork pipes_ok cg_ok sc m')
  then show ?thesis using world_inv_spawn [of u m L] assms(2) by simp
next
  case (pm_terminate a m fast sc m' L)
  then show ?thesis using world_inv_terminate(1) assms(2) by blast
next
  case (pm_thread a m stop timeout m' L)
  then show ?thesis using world_inv_thread assms(2) by blast
next
  case (pm_reset a m sc m' L)
  then show ?thesis using world_inv_reset assms(2) by blast
next
  case (pm_signal m L signum g a)
  then show ?thesis using world_inv_signal assms(2) by blast
next
  case (pm_exit pid L m cg_ok ws)
  then show ?thesis using world_inv_exit assms(2) by blast
next
  case (pm_oom m groups m' L)
  then show ?thesis using world_inv_oom assms(2) by blast
next
  case (pm_removed m i a m' L)
  then show ?thesis using world_inv_removed assms(2) by blast
next
  case (pm_delete a m cg_ok m' L)
  then show ?thesis using world_inv_delete assms(2) by blast
next
  case (pm_controller m L c)
  then show ?thesis
    using world_inv_same [of u m L "ProcessManager_setProcessController c m"] assms(2)
    by (simp add: ProcessManager_setProcessController_def)
qed

lemma world_inv_reachable: "pm_reachable u U w \<Longrightarrow> world_inv u w"
proof (induction rule: pm_reachable.induct)
  case (pm_start availableMb useCgroups enforceMemory enforceCpu loanMemory cg_ok)
  show ?case
    by (simp add: world_inv_def tables_ok_def memory_inv_def reserved_total_def ProcessManager_new_def Let_def
        MemoryTracking_set_def mem_ok_def)
next
  case (pm_more w w')
  then show ?case using world_inv_step by blast
qed

subsection \<open>Loans only grow\<close>

definition same_loans :: "process_manager \<Rightarrow> process_manager \<Rightarrow> bool" where
  "same_loans m m' \<longleftrightarrow>
     map pr_borrowedMb (pm_heap m') = map pr_borrowedMb (pm_heap m) \<and> mt_borrowedMb (pm_memory m') = mt_borrowedMb (pm_memory m)"

lemma same_loans_refl [simp]: "same_loans m m"
  by (simp add: same_loans_def)

lemma same_loans_trans: "same_loans m m1 \<Longrightarrow> same_loans m1 m2 \<Longrightarrow> same_loans m m2"
  by (simp add: same_loans_def)

lemma same_loans_upd:
  assumes "\<And>p. pr_borrowedMb (f p) = pr_borrowedMb p"
  shows "same_loans m (upd_obj a f m)"
proof -
  have "map pr_borrowedMb ((pm_heap m)[a := f (obj m a)]) = map pr_borrowedMb (pm_heap m)"
    by (cases "a < length (pm_heap m)") (simp_all add: map_update assms list_update_beyond list_update_same_conv)
  then show ?thesis by (simp add: same_loans_def upd_obj_def)
qed

lemma same_loans_call [simp]: "same_loans m (call c m)"
  by (simp add: same_loans_def pm_frame)

lemma same_loans_obj:
  assumes "same_loans m m'"
  shows "length (pm_heap m') = length (pm_heap m)"
    and "a < length (pm_heap m) \<Longrightarrow> pr_borrowedMb (obj m' a) = pr_borrowedMb (obj m a)"
proof -
  have eq: "map pr_borrowedMb (pm_heap m') = map pr_borrowedMb (pm_heap m)"
    using assms by (simp add: same_loans_def)
  show len: "length (pm_heap m') = length (pm_heap m)"
    by (rule map_eq_imp_length_eq [OF eq])
  show "a < length (pm_heap m) \<Longrightarrow> pr_borrowedMb (obj m' a) = pr_borrowedMb (obj m a)"
    using arg_cong [OF eq, of "\<lambda>xs. xs ! a"] len by simp
qed

lemma same_loans_destroy: "same_loans m (ProcessManager_destroyControlSubgroup ok a m)"
  by (auto simp: ProcessManager_destroyControlSubgroup_def Let_def intro: same_loans_trans [OF same_loans_call same_loans_upd])

lemma same_loans_create: "same_loans m (ProcessManager_createControlSubgroup ok a m)"
  by (auto simp: ProcessManager_createControlSubgroup_def Let_def intro: same_loans_trans [OF same_loans_call same_loans_upd])

lemma same_loans_release: "same_loans m (ProcessManager_releaseMemory a m)"
  unfolding ProcessManager_releaseMemory_def
  by (rule same_loans_trans [OF _ same_loans_upd]) (simp_all add: same_loans_def MemoryTracking_release_def)

lemma same_loans_exit_cb: "same_loans m (ProcessManager_exit_cb ok a m)"
  by (auto simp: ProcessManager_exit_cb_def Let_def
      intro: same_loans_release same_loans_trans [OF same_loans_release same_loans_destroy])

lemma same_loans_notify: "same_loans m (notify_terminated a m)"
  by (simp add: notify_terminated_def Let_def)

lemma same_loans_terminated_internal: "same_loans m (Process_terminated_internal c a m)"
  by (auto simp: Process_terminated_internal_def intro: same_loans_notify same_loans_trans [OF same_loans_upd same_loans_notify])

lemma same_loans_terminated: "same_loans m (Process_terminated ok s a m)"
proof -
  have "same_loans m (upd_obj a (\<lambda>p. p\<lparr>pr_state := Terminated, pr_pid := 0\<rparr>)
      (ProcessManager_exit_cb ok a (upd_obj a (\<lambda>p. p\<lparr>pr_status := s\<rparr>) m)))"
    by (rule same_loans_trans [OF same_loans_trans [OF same_loans_upd same_loans_exit_cb] same_loans_upd]) simp_all
  then show ?thesis
    by (auto simp: Process_terminated_def intro: same_loans_notify same_loans_trans [OF _ same_loans_notify])
qed

lemma same_loans_terminate: "Process_terminate fast a m = (r, m') \<Longrightarrow> same_loans m m'"
proof (cases "pr_state (obj m a)")
  case Spawned
  let ?m1 = "upd_obj a (\<lambda>p. p\<lparr>pr_state := Terminating\<rparr>) m"
  have 1: "same_loans m ?m1" by (rule same_loans_upd) simp
  have "same_loans ?m1 (upd_obj a (\<lambda>p. p\<lparr>pr_terminationThread := Entered fast\<rparr>) ?m1)" by (rule same_loans_upd) simp
  with 1 have "same_loans m (upd_obj a (\<lambda>p. p\<lparr>pr_terminationThread := Entered fast\<rparr>) ?m1)" by (rule same_loans_trans)
  moreover assume "Process_terminate fast a m = (r, m')"
  ultimately show ?thesis
    using Spawned 1 by (auto simp: Process_terminate_def Let_def split: if_splits)
qed (auto simp: Process_terminate_def same_loans_terminated_internal)

lemma same_loans_set_thread:
  "same_loans m m1 \<Longrightarrow> same_loans m (upd_obj a (\<lambda>p. p\<lparr>pr_terminationThread := t\<rparr>) m1)"
  by (erule same_loans_trans) (rule same_loans_upd, simp)

lemma same_loans_thread:
  assumes "Process_terminationProc stop timeout a m = Some m'"
  shows "same_loans m m'"
  using assms
proof (cases rule: Process_terminationProc_cases)
  case (3 c d)
  show ?thesis
    unfolding 3 by (rule same_loans_set_thread) (rule same_loans_trans [OF same_loans_call same_loans_call])
qed (simp_all add: thread_end_def same_loans_set_thread same_loans_terminated_internal)

lemma same_loans_reset: "Process_reset a m = Some (sc, m') \<Longrightarrow> same_loans m m'"
proof (cases "pr_state (obj m a) = Terminated \<and> pr_terminationThread (obj m a) \<in> {No_thread, Thread_ended}")
  case True
  assume "Process_reset a m = Some (sc, m')"
  with True have m': "m' = upd_obj a (\<lambda>p. p\<lparr>pr_terminationThread := No_thread, pr_state := NotSpawned\<rparr>) m"
    by (simp add: Process_reset_def split: if_splits)
  show ?thesis unfolding m' by (rule same_loans_upd) simp
qed (auto simp: Process_reset_def split: if_splits)

lemma same_loans_handleChildExit: "same_loans m (ProcessManager_handleChildExit ok pid ws m)"
proof (cases "map_of (pm_pidToProcess m) pid")
  case None
  then show ?thesis by (simp add: ProcessManager_handleChildExit_def)
next
  case (Some a)
  let ?e = "ProcessManager_exit_cb ok a m"
  let ?m = "?e\<lparr>pm_pidToProcess := map_erase pid (pm_pidToProcess ?e)\<rparr>"
  have "same_loans ?e ?m" by (simp add: same_loans_def)
  then have "same_loans m (Process_terminated ok (exit_status_of ws) a ?m)"
    by (rule same_loans_trans [OF same_loans_trans [OF same_loans_exit_cb] same_loans_terminated])
  then show ?thesis
    by (auto simp: ProcessManager_handleChildExit_def Some Let_def intro: same_loans_trans [OF _ same_loans_call])
qed

lemma same_loans_pm_reserve: "same_loans m (snd (pm_reserve n m))"
  by (simp add: pm_reserve_def MemoryTracking_reserve_def same_loans_def)

lemma same_loans_preFork:
  assumes "mem_ok (pm_memory m)" and "request_ok (pr_assignedMb (obj m a)) (pm_memory m)"
    and pre: "ProcessManager_preFork_cb cg_ok a m = (Inr (), m')"
  shows "same_loans m m'"
proof -
  obtain m1 where res: "ProcessManager_reserveMemory a m = (Inr (), m1)"
    and m': "m' = (if pm_controlGroup m1 then ProcessManager_createControlSubgroup cg_ok a m1 else m1)"
    using pre by (auto simp: ProcessManager_preFork_cb_def elim!: seqp_InrE)
  obtain r where m1: "m1 = set_reserved a r (m\<lparr>pm_memory := (pm_memory m)\<lparr>mt_reservedMb := mt_reservedMb (pm_memory m) + r\<rparr>\<rparr>)"
    using reserveMemory_effect [OF assms(1,2) res] by blast
  have "same_loans m m1"
    unfolding m1 set_reserved_def by (rule same_loans_trans [OF _ same_loans_upd]) (simp_all add: same_loans_def)
  with m' show ?thesis
    using same_loans_trans [OF _ same_loans_create] by auto
qed

lemma same_loans_forked: "same_loans m (Process_forked pid a m)"
proof -
  let ?u = "upd_obj a (\<lambda>p. p\<lparr>pr_pid := pid, pr_state := Spawned\<rparr>) m"
  have "same_loans m ?u" by (rule same_loans_upd) simp
  moreover have "same_loans ?u (ProcessManager_postFork_cb a ?u)"
    by (simp add: ProcessManager_postFork_cb_def Let_def same_loans_def split: option.split)
  ultimately have "same_loans m (ProcessManager_postFork_cb a ?u)" by (rule same_loans_trans)
  then show ?thesis
    by (simp add: Process_forked_def Let_def same_loans_trans [OF _ same_loans_call])
qed

lemma same_loans_fork_failed: "same_loans m (Process_fork_failed ok a m)"
  unfolding Process_fork_failed_def failedFork_cb_eq
  by (rule same_loans_trans [OF same_loans_terminated_internal same_loans_exit_cb])

lemma same_loans_spawn:
  assumes mok: "mem_ok (pm_memory m)" and req: "request_ok (sa_assignedMb sa) (pm_memory m)" and a: "a < length (pm_heap m)"
    and spawn: "Process_spawn pipes_ok cg_ok fork sa a m = (Inr sc, m')"
  shows "same_loans m m'"
proof (cases "pr_state (obj m a) = NotSpawned")
  case False
  with spawn show ?thesis by (cases "pr_state (obj m a)") (auto simp: Process_spawn_def)
next
  case ns: True
  let ?m0 = "upd_obj a (apply_args sa) m"
  have 0: "same_loans m ?m0" by (rule same_loans_upd) simp
  have o0: "pr_assignedMb (obj ?m0 a) = sa_assignedMb sa" "pm_memory ?m0 = pm_memory m"
    using a by (simp_all add: pm_frame)
  show ?thesis
  proof (cases "sa_ioCapture sa \<and> \<not> pipes_ok")
    case True
    with ns spawn have "m' = Process_terminated_internal ES_FORK_FAILED a ?m0"
      by (simp add: Process_spawn_def Let_def)
    then show ?thesis using same_loans_trans [OF 0 same_loans_terminated_internal] by simp
  next
    case False
    then have io: "(sa_ioCapture sa \<and> \<not> pipes_ok) = False" by blast
    have run: "(case ProcessManager_preFork_cb cg_ok a ?m0 of
        (Inl e, m) \<Rightarrow> (Inl e, m)
      | (Inr _, m) \<Rightarrow> (case fork of None \<Rightarrow> (Inr SC_Terminated, Process_fork_failed cg_ok a m)
          | Some pid \<Rightarrow> (Inr SC_Success, Process_forked pid a m))) = (Inr sc, m')"
      using spawn ns unfolding Process_spawn_def Let_def io if_False by simp
    obtain res m1 where pre: "ProcessManager_preFork_cb cg_ok a ?m0 = (res, m1)" by (rule prod.exhaust)
    with run obtain v where "res = Inr v" by (cases res) auto
    with pre have pre': "ProcessManager_preFork_cb cg_ok a ?m0 = (Inr (), m1)" by simp
    have "same_loans ?m0 m1"
      by (rule same_loans_preFork [OF _ _ pre']) (use mok req o0 in simp_all)
    with 0 have 1: "same_loans m m1" by (rule same_loans_trans)
    show ?thesis
      using run pre' same_loans_trans [OF 1 same_loans_fork_failed] same_loans_trans [OF 1 same_loans_forked]
      by (auto split: option.splits)
  qed
qed

definition loans_inv :: "process_manager \<Rightarrow> bool" where
  "loans_inv m \<longleftrightarrow> (\<forall>a < length (pm_heap m). pr_borrowedMb (obj m a) \<le> mt_borrowedMb (pm_memory m))"

definition loans_le :: "process_manager \<Rightarrow> process_manager \<Rightarrow> bool" where
  "loans_le m m' \<longleftrightarrow>
     mt_borrowedMb (pm_memory m) \<le> mt_borrowedMb (pm_memory m') \<and> length (pm_heap m) \<le> length (pm_heap m') \<and>
     (\<forall>a < length (pm_heap m). pr_borrowedMb (obj m a) \<le> pr_borrowedMb (obj m' a))"

lemma loans_le_refl [simp]: "loans_le m m"
  by (simp add: loans_le_def)

lemma loans_le_trans: "loans_le m m1 \<Longrightarrow> loans_le m1 m2 \<Longrightarrow> loans_le m m2"
  unfolding loans_le_def by (meson order_trans less_le_trans)

lemma same_loans_inv:
  assumes "same_loans m m'" and "loans_inv m"
  shows "loans_inv m' \<and> loans_le m m'"
  using assms same_loans_obj [OF assms(1)] by (auto simp: loans_inv_def loans_le_def same_loans_def)

lemma unat_add_mono_word:
  assumes "x \<le> (y :: u32)" and "unat y + unat n < 2 ^ 32"
  shows "x \<le> x + n" and "x + n \<le> y + n"
proof -
  have le: "unat x \<le> unat y" using assms(1) by (simp add: word_le_nat_alt)
  have x: "unat (x + n) = unat x + unat n" and y: "unat (y + n) = unat y + unat n"
    using le assms(2) by (simp_all add: unat_add_small)
  show "x \<le> x + n" and "x + n \<le> y + n" using le by (simp_all add: word_le_nat_alt x y)
qed

lemma lend_loans:
  assumes a: "a < length (pm_heap m)" and li: "loans_inv m" and mok: "mem_ok (pm_memory m)" and n: "request_ok n (pm_memory m)"
    and b: "MemoryTracking_borrow n (pm_memory m) = (borrowed, mt)" and pos: "0 < borrowed"
  shows "loans_inv (oom_lend borrowed a (m\<lparr>pm_memory := mt\<rparr>)) \<and> loans_le m (oom_lend borrowed a (m\<lparr>pm_memory := mt\<rparr>))"
proof -
  let ?m = "oom_lend borrowed a (m\<lparr>pm_memory := mt\<rparr>)" and ?B = "mt_borrowedMb (pm_memory m)"
  have mt: "mt = (pm_memory m)\<lparr>mt_borrowedMb := ?B + n\<rparr>" and bn: "borrowed = n"
    and fits: "mt_reservedMb (pm_memory m) + ?B + n \<le> mt_availableMb (pm_memory m)"
    using b pos by (auto simp: MemoryTracking_borrow_def split: if_splits)
  have sum: "unat ?B + unat n < 2 ^ 32"
    using fits reserve_sum [OF mok n] unat_less_pow [of "mt_availableMb (pm_memory m)"] by (simp add: word_le_nat_alt)
  have heap: "pm_heap ?m = (pm_heap m)[a := (obj m a)\<lparr>pr_borrowedMb := pr_borrowedMb (obj m a) + n\<rparr>]"
    and mem: "mt_borrowedMb (pm_memory ?m) = ?B + n"
    by (simp_all add: oom_lend_def Let_def pm_frame pm_heap_simps bn mt)
  have le: "pr_borrowedMb (obj m c) \<le> ?B" if "c < length (pm_heap m)" for c
    using li that by (simp add: loans_inv_def)
  have "?B \<le> ?B + n" using unat_add_mono_word(1) [OF order_refl sum] .
  then have "pr_borrowedMb (obj ?m c) \<le> ?B + n \<and> pr_borrowedMb (obj m c) \<le> pr_borrowedMb (obj ?m c)"
    if c: "c < length (pm_heap m)" for c
    using unat_add_mono_word [OF le [OF c] sum] le [OF c] c by (auto simp: heap nth_update_if)
  with \<open>?B \<le> ?B + n\<close> show ?thesis
    by (simp add: loans_inv_def loans_le_def mem) (simp add: heap)
qed

lemma oom_loans:
  assumes "world_inv u (m, L)" and "loans_inv m" and "request_ok 128 (pm_memory m)"
    and "ProcessManager_handleOomCondition U groups m = (r, m')"
  shows "loans_inv m' \<and> loans_le m m'"
  using assms
proof (induction groups arbitrary: m)
  case Nil
  then show ?case by simp
next
  case (Cons g gs)
  show ?case
  proof (cases "ProcessManager_getProcess (UUID_parse U g) m")
    case None
    with Cons show ?thesis by simp
  next
    case (Some a)
    note a = getProcess_length [OF Cons.prems(1) Some]
    have mok: "mem_ok (pm_memory m)" using world_invD(2) [OF Cons.prems(1)] by (simp add: memory_inv_def)
    have kill: "loans_inv m' \<and> loans_le m m'"
      if run: "seqp (oom_kill g a) (ProcessManager_handleOomCondition U gs) m = (r, m')"
    proof -
      obtain x m2 where k: "oom_kill g a m = (x, m2)" by (rule prod.exhaust)
      note K = oom_kill_steps [OF Cons.prems(1) a k]
      have "same_loans m m2"
        using k K(3) by (auto simp: oom_kill_def bindp_def split: prod.splits sum.splits
            intro: same_loans_trans [OF same_loans_terminate same_loans_call])
      note S = same_loans_inv [OF this Cons.prems(2)]
      have "ProcessManager_handleOomCondition U gs m2 = (r, m')" using run k K(3) by simp
      from Cons.IH [OF K(1) _ _ this] S Cons.prems(3) K(2) loans_le_trans show ?thesis by auto
    qed
    show ?thesis
    proof (cases "pr_state (obj m a) = Spawned")
      case False
      with Cons.prems Some show ?thesis by simp
    next
      case sp: True
      show ?thesis
      proof (cases "pm_loanMemory m")
        case loan: True
        obtain borrowed mt where b: "MemoryTracking_borrow 128 (pm_memory m) = (borrowed, mt)" by (rule prod.exhaust)
        have av: "request_ok 128 mt"
          using b Cons.prems(3) by (auto simp: MemoryTracking_borrow_def request_ok_def split: if_splits)
        show ?thesis
        proof (cases "0 < borrowed")
          case True
          let ?m = "oom_lend borrowed a (m\<lparr>pm_memory := mt\<rparr>)"
          note S = lend_loans [OF a Cons.prems(2) mok Cons.prems(3) b True]
          have run: "ProcessManager_handleOomCondition U gs ?m = (r, m')"
            using Cons.prems(4) Some sp loan b True by simp
          have "request_ok 128 (pm_memory ?m)" using av by (simp add: oom_lend_def Let_def pm_frame)
          from Cons.IH [OF world_inv_lend [OF Cons.prems(1) a b Cons.prems(3) True] _ this run] S loans_le_trans
          show ?thesis by blast
        next
          case False
          then have "mt = pm_memory m" using b by (auto simp: MemoryTracking_borrow_def split: if_splits)
          with Cons.prems(4) Some sp loan b False show ?thesis by (intro kill) simp
        qed
      next
        case False
        with Cons.prems(4) Some sp show ?thesis by (intro kill) simp
      qed
    qed
  qed
qed

lemma step_loans:
  assumes "pm_step u U w w'" and "world_inv u w" and "loans_inv (fst w)"
  shows "loans_inv (fst w') \<and> loans_le (fst w) (fst w')"
  using assms(1)
proof (cases rule: pm_step.cases)
  case (pm_add i n s m a m' L)
  obtain p where m': "m' = m\<lparr>pm_heap := pm_heap m @ [p], pm_processes := map_set i (length (pm_heap m)) (pm_processes m)\<rparr>"
    and p: "pr_borrowedMb p = 0"
    using pm_add(3) by (auto simp: ProcessManager_addProcess_def Let_def Process_new_def split: sum.splits if_splits)
  show ?thesis
    using assms(3) pm_add(1,2) p by (auto simp: m' loans_inv_def loans_le_def nth_append)
next
  case (pm_spawn m a sa L fork pipes_ok cg_ok sc m')
  have inv: "world_inv u (m, L)" using assms(2) pm_spawn(1) by simp
  have "mem_ok (pm_memory m)" using world_invD(2) [OF inv] by (simp add: memory_inv_def)
  from same_loans_inv [OF same_loans_spawn [OF this pm_spawn(4) inv_processes_length [OF inv pm_spawn(3)] pm_spawn(6)]]
  show ?thesis using assms(3) pm_spawn(1,2) by simp
next
  case (pm_terminate a m fast sc m' L)
  then show ?thesis using same_loans_inv [OF same_loans_terminate] assms(3) by simp
next
  case (pm_thread a m stop timeout m' L)
  then show ?thesis using same_loans_inv [OF same_loans_thread] assms(3) by simp
next
  case (pm_reset a m sc m' L)
  then show ?thesis using same_loans_inv [OF same_loans_reset] assms(3) by simp
next
  case (pm_signal m L signum g a)
  have "same_loans m (Process_signal signum g a m)" by (simp add: Process_signal_def Let_def)
  from same_loans_inv [OF this] show ?thesis using pm_signal assms(3) by simp
next
  case (pm_exit pid L m cg_ok ws)
  then show ?thesis using same_loans_inv [OF same_loans_handleChildExit] assms(3) by simp
next
  case (pm_oom m groups m' L)
  then show ?thesis using oom_loans [of u m L] assms(2,3) by simp
next
  case (pm_removed m i a m' L)
  have "same_loans m m'" using pm_removed(4) by (auto simp: ProcessManager_removed_def same_loans_def split: option.splits)
  from same_loans_inv [OF this] show ?thesis using pm_removed assms(3) by simp
next
  case (pm_delete a m cg_ok m' L)
  have "same_loans m m'"
    using pm_delete(6) by (auto simp: Process_delete_def Let_def intro: same_loans_set_thread same_loans_terminated split: if_splits)
  from same_loans_inv [OF this] show ?thesis using pm_delete assms(3) by simp
next
  case (pm_controller m L c)
  then show ?thesis using assms(3) by (simp add: ProcessManager_setProcessController_def loans_inv_def loans_le_def)
qed

lemma loans_reachable: "pm_reachable u U w \<Longrightarrow> loans_inv (fst w)"
proof (induction rule: pm_reachable.induct)
  case pm_start
  show ?case by (simp add: loans_inv_def ProcessManager_new_def Let_def)
next
  case (pm_more w w')
  with step_loans world_inv_reachable show ?case by blast
qed

subsection \<open>Ending a process\<close>

text \<open>
  The termination thread with the answers it gets: each is what the controller says and whether the wait
  timed out. A wait that is neither over nor timed out goes on.
\<close>

primrec run_termination :: "(bool \<times> bool) list \<Rightarrow> nat \<Rightarrow> process_manager \<Rightarrow> process_manager" where
  "run_termination [] a m = m"
| "run_termination (x # xs) a m =
     run_termination xs a (case Process_terminationProc (fst x) (snd x) a m of None \<Rightarrow> m | Some m' \<Rightarrow> m')"

primrec thread_rank :: "termination_thread \<Rightarrow> nat" where
  "thread_rank No_thread = 0"
| "thread_rank (Entered fast) = 4"
| "thread_rank Wait_stop = 3"
| "thread_rank Wait_term = 2"
| "thread_rank Wait_kill = 1"
| "thread_rank Thread_ended = 0"

lemma run_termination_terminated:
  assumes "pr_state (obj m a) = Terminated" and "a < length (pm_heap m)"
  shows "pr_state (obj (run_termination xs a m) a) = Terminated"
  using assms
proof (induction xs arbitrary: m)
  case Nil
  then show ?case by simp
next
  case (Cons x xs)
  have "pr_state (obj m' a) = Terminated \<and> a < length (pm_heap m')"
    if "Process_terminationProc (fst x) (snd x) a m = Some m'" for m'
    using that Cons.prems by (cases rule: Process_terminationProc_cases) (simp_all add: thread_end_def pm_heap_simps gives_up_def)
  with Cons show ?case by (auto split: option.split)
qed

lemma termination_progress:
  assumes st: "pr_state (obj m a) = Terminating" and pid: "pr_pid (obj m a) \<noteq> 0" and a: "a < length (pm_heap m)"
    and run: "thread_running (pr_terminationThread (obj m a))"
  obtains m' where "Process_terminationProc stop True a m = Some m'" and "a < length (pm_heap m')"
    and "pr_state (obj m' a) = Terminated \<or>
      (pr_state (obj m' a) = Terminating \<and> pr_pid (obj m' a) \<noteq> 0 \<and> thread_running (pr_terminationThread (obj m' a)) \<and>
       thread_rank (pr_terminationThread (obj m' a)) < thread_rank (pr_terminationThread (obj m a)))"
proof -
  have ti: "pm_heap (Process_terminated_internal ES_UNINTERRUPTABLE a m) =
      (pm_heap m)[a := (obj m a)\<lparr>pr_status := internal_status ES_UNINTERRUPTABLE, pr_state := Terminated, pr_pid := 0\<rparr>]"
    using st by (simp add: terminated_internal_heap)
  show thesis
    by (rule that [of "the (Process_terminationProc stop True a m)"]; cases "pr_terminationThread (obj m a)"; cases stop)
      (use assms ti in \<open>auto simp: Process_terminationProc_def Let_def term_kill_def term_sigterm_def thread_end_def
        ProcessManager_controlledStop_def thread_running_def pm_frame pm_heap_simps\<close>)
qed

lemma termination_finishes:
  assumes "pr_state (obj m a) = Terminating" and "pr_pid (obj m a) \<noteq> 0" and "a < length (pm_heap m)"
    and "thread_running (pr_terminationThread (obj m a))"
    and "\<forall>x \<in> set xs. snd x" and "thread_rank (pr_terminationThread (obj m a)) \<le> length xs"
  shows "pr_state (obj (run_termination xs a m) a) = Terminated"
  using assms
proof (induction xs arbitrary: m)
  case Nil
  then show ?case by (cases "pr_terminationThread (obj m a)") (simp_all add: thread_running_def)
next
  case (Cons x xs)
  obtain m' where m': "Process_terminationProc (fst x) True a m = Some m'" "a < length (pm_heap m')"
    and alt: "pr_state (obj m' a) = Terminated \<or>
      (pr_state (obj m' a) = Terminating \<and> pr_pid (obj m' a) \<noteq> 0 \<and> thread_running (pr_terminationThread (obj m' a)) \<and>
       thread_rank (pr_terminationThread (obj m' a)) < thread_rank (pr_terminationThread (obj m a)))"
    using termination_progress [OF Cons.prems(1-4)] by blast
  have "snd x" using Cons.prems(5) by simp
  then have step: "run_termination (x # xs) a m = run_termination xs a m'" using m'(1) by simp
  show ?case
  proof (cases "pr_state (obj m' a) = Terminated")
    case True
    then show ?thesis unfolding step by (rule run_termination_terminated) (rule m'(2))
  next
    case False
    with alt Cons.prems(5,6) show ?thesis
      unfolding step by (intro Cons.IH [OF _ _ m'(2)]) auto
  qed
qed

subsection \<open>Properties\<close>



text \<open>
  C10 (termination). A process that is being terminated ends up terminated: after at most four steps of its
  termination thread, whatever the controller and the process do, because every wait is limited and the
  thread marks the process as terminated when nothing else has.
\<close>

theorem terminating_process_terminates:
  assumes "pm_reachable u U (m, L)" and "a < length (pm_heap m)" and "pr_state (obj m a) = Terminating"
    and "\<forall>x \<in> set xs. snd x" and "4 \<le> length xs"
  shows "pr_state (obj (run_termination xs a m) a) = Terminated"
proof (rule termination_finishes [OF assms(3) _ assms(2) _ assms(4)])
  note P = world_invD(3) [OF world_inv_reachable [OF assms(1)] assms(2)]
  show "pr_pid (obj m a) \<noteq> 0" and "thread_running (pr_terminationThread (obj m a))"
    using P assms(3) by (simp_all add: proc_ok_def)
  show "thread_rank (pr_terminationThread (obj m a)) \<le> length xs"
    using assms(5) by (cases "pr_terminationThread (obj m a)") simp_all
qed

text \<open>
  Borrowed memory is never given back: no step lowers the loans of a process or their total, not
  even the death of the borrower. (\<open>repay\<close> is never called.)
\<close>

theorem borrowed_never_lowered:
  assumes "pm_reachable u U (m, L)" and "pm_step u U (m, L) (m', L')"
  shows "mt_borrowedMb (pm_memory m) \<le> mt_borrowedMb (pm_memory m') \<and>
    (\<forall>a < length (pm_heap m). pr_borrowedMb (obj m a) \<le> pr_borrowedMb (obj m' a))"
  using step_loans [OF assms(2) world_inv_reachable [OF assms(1)]] loans_reachable [OF assms(1)]
  by (simp add: loans_le_def)

subsection \<open>A run\<close>

definition run_process :: "process_state \<Rightarrow> nat \<Rightarrow> termination_thread \<Rightarrow> exit_status \<Rightarrow> u32 \<Rightarrow> u32 \<Rightarrow> process" where
  "run_process st pid thr es assigned reserved =
     (sample_process 1)\<lparr>pr_state := st, pr_pid := pid, pr_terminationThread := thr, pr_status := es,
       pr_assignedMb := assigned, pr_reservedMb := reserved\<rparr>"

definition run_state :: "process \<Rightarrow> (nat \<times> nat) list \<Rightarrow> u32 \<Rightarrow> outside_call list \<Rightarrow> process_manager" where
  "run_state p pids reserved calls =
     \<lparr>pm_heap = [p], pm_processes = [(1, 0)], pm_pidToProcess = pids, pm_controlGroup = False, pm_useControlGroups = False,
      pm_enforceMemory = False, pm_loanMemory = False, pm_enforceCpu = False,
      pm_memory = \<lparr>mt_availableMb = 1000, mt_reservedMb = reserved, mt_borrowedMb = 0\<rparr>, pm_controller = False, pm_calls = calls\<rparr>"

definition run_args :: spawn_args where
  "run_args = SpawnArgs_new\<lparr>sa_program := ''/bin/worker'', sa_assignedMb := 300\<rparr>"

abbreviation fresh_status :: exit_status where
  "fresh_status \<equiv> internal_status ES_NO_EXIT"

abbreviation lost_status :: exit_status where
  "lost_status \<equiv> internal_status ES_UNINTERRUPTABLE"

lemmas run_defs = run_state_def run_process_def sample_process_def run_args_def SpawnArgs_new_def apply_args_def
  upd_obj_def call_def set_reserved_def pm_reserve_def MemoryTracking_reserve_def MemoryTracking_release_def

lemma run_add:
  "ProcessManager_addProcess U 1 ''p'' 1 (ProcessManager_new 1000 False False False False False) =
     (Inr 0, run_state (run_process NotSpawned 0 No_thread fresh_status 0 0) [] 0 [])"
  by (simp add: ProcessManager_addProcess_def ProcessManager_new_def Process_new_def UUID_isNull_def UUID_valid_def
      UUID_null_def Let_def MemoryTracking_set_def run_defs)

lemma run_spawn:
  assumes "pid \<noteq> 0" and "reserved \<le> 700"
  shows "Process_spawn True True (Some pid) run_args 0 (run_state (run_process NotSpawned 0 No_thread es n r) pids reserved cs) =
     (Inr SC_Success, run_state (run_process Spawned pid No_thread es 300 300) (map_set pid 0 pids) (reserved + 300) cs)"
proof -
  have fits: "reserved + 300 \<le> 1000"
    using assms(2) by unat_arith
  show ?thesis
    using assms(1) fits
    by (simp add: Process_spawn_def ProcessManager_preFork_cb_def ProcessManager_reserveMemory_def Process_forked_def
        ProcessManager_postFork_cb_def Let_def seqp_def bindp_def run_defs)
qed

lemma run_terminate:
  "Process_terminate True 0 (run_state (run_process Spawned pid No_thread es n r) pids reserved cs) =
     (Inr SC_InProgress, run_state (run_process Terminating pid (Entered True) es n r) pids reserved cs)"
  by (simp add: Process_terminate_def Let_def run_defs)

lemma run_kill:
  "pid \<noteq> 0 \<Longrightarrow>
   Process_terminationProc False False 0 (run_state (run_process Terminating pid (Entered True) es n r) pids reserved cs) =
     Some (run_state (run_process Terminating pid Wait_kill es n r) pids reserved (cs @ [Kill_group pid SIGKILL]))"
  by (simp add: Process_terminationProc_def term_kill_def Let_def run_defs)

lemma run_give_up:
  "Process_terminationProc False True 0 (run_state (run_process Terminating pid Wait_kill es n r) pids reserved cs) =
     Some (run_state (run_process Terminated 0 Thread_ended lost_status n r) pids reserved cs)"
  by (simp add: Process_terminationProc_def Process_terminated_internal_def notify_terminated_def thread_end_def Let_def run_defs)

lemma run_reset:
  "Process_reset 0 (run_state (run_process Terminated 0 Thread_ended es n r) pids reserved cs) =
     Some (SC_Success, run_state (run_process NotSpawned 0 No_thread es n r) pids reserved cs)"
  by (simp add: Process_reset_def run_defs)

lemma run_exit:
  assumes "map_of pids q = Some 0" and "st \<noteq> Terminated"
  shows "ProcessManager_handleChildExit True q (Exited_with 0) (run_state (run_process st pid No_thread es n r) pids reserved cs) =
     run_state (run_process Terminated 0 No_thread (exit_status_of (Exited_with 0)) n 0) (map_erase q pids) (reserved - r) cs"
  using assms
  by (simp add: ProcessManager_handleChildExit_def Process_terminated_def ProcessManager_exit_cb_def
      ProcessManager_releaseMemory_def notify_terminated_def Let_def run_defs)

lemma run_exit_late:
  assumes "map_of pids q = Some 0"
  shows "ProcessManager_handleChildExit True q (Exited_with 0) (run_state (run_process Terminated 0 No_thread es n r) pids reserved cs) =
     run_state (run_process Terminated 0 No_thread es n 0) (map_erase q pids) (reserved - r) cs"
  using assms
  by (simp add: ProcessManager_handleChildExit_def Process_terminated_def ProcessManager_exit_cb_def
      ProcessManager_releaseMemory_def notify_terminated_def Let_def run_defs)

text \<open>Started, spawned with pid 7, asked to terminate; then, with \<open>u\<close>, given up, reset and spawned again with pid 8.\<close>

lemma reach_added: "pm_reachable u U (run_state (run_process NotSpawned 0 No_thread fresh_status 0 0) [] 0 [], {})"
proof (rule pm_more [OF pm_start])
  show "pm_step u U (ProcessManager_new 1000 False False False False False, {})
      (run_state (run_process NotSpawned 0 No_thread fresh_status 0 0) [] 0 [], {})"
    by (rule pm_add [OF run_add]) (simp add: ProcessManager_new_def Let_def)
qed

lemma reach_spawn:
  assumes "pm_reachable u U (run_state (run_process NotSpawned 0 No_thread es n r) pids reserved cs, L)"
    and "pid \<noteq> 0" and "pid \<notin> L" and "reserved \<le> 700"
  shows "pm_reachable u U (run_state (run_process Spawned pid No_thread es 300 300) (map_set pid 0 pids) (reserved + 300) cs, insert pid L)"
proof (rule pm_more [OF assms(1)])
  let ?m = "run_state (run_process NotSpawned 0 No_thread es n r) pids reserved cs"
  have "pm_step u U (?m, L) (run_state (run_process Spawned pid No_thread es 300 300) (map_set pid 0 pids) (reserved + 300) cs,
      if SC_Success = SC_Success then L \<union> set_option (Some pid) else L)"
    by (rule pm_spawn [OF _ _ _ run_spawn [OF assms(2,4)]]) (use assms(2,3) in \<open>simp_all add: request_ok_def fork_ok_def run_defs\<close>)
  then show "pm_step u U (?m, L)
      (run_state (run_process Spawned pid No_thread es 300 300) (map_set pid 0 pids) (reserved + 300) cs, insert pid L)"
    by simp
qed

lemma length_run_state [simp]: "length (pm_heap (run_state p pids reserved cs)) = 1"
  by (simp add: run_state_def)

lemma reach_terminating:
  "pm_reachable u U (run_state (run_process Terminating 7 (Entered True) fresh_status 300 300) [(7, 0)] 300 [], {7})"
proof -
  have "pm_reachable u U (run_state (run_process Spawned 7 No_thread fresh_status 300 300) [(7, 0)] 300 [], {7})"
    using reach_spawn [OF reach_added, of 7] by simp
  then show ?thesis
    by (rule pm_more) (rule pm_terminate [OF _ run_terminate], simp)
qed

lemma reach_given_up:
  "pm_reachable True U (run_state (run_process Spawned 8 No_thread lost_status 300 300) [(7, 0), (8, 0)] 600
     [Kill_group 7 SIGKILL], {7, 8})"
proof -
  have "pm_reachable True U (run_state (run_process Terminating 7 Wait_kill fresh_status 300 300) [(7, 0)] 300 [Kill_group 7 SIGKILL], {7})"
    by (rule pm_more [OF reach_terminating]) (rule pm_thread [where m' = "run_state _ _ _ ([] @ [_])", simplified, OF _ run_kill [where cs = "[]", simplified]], simp_all)
  then have "pm_reachable True U (run_state (run_process Terminated 0 Thread_ended lost_status 300 300) [(7, 0)] 300 [Kill_group 7 SIGKILL], {7})"
    by (rule pm_more) (rule pm_thread [OF _ run_give_up], simp_all)
  then have "pm_reachable True U (run_state (run_process NotSpawned 0 No_thread lost_status 300 300) [(7, 0)] 300 [Kill_group 7 SIGKILL], {7})"
    by (rule pm_more) (rule pm_reset [OF _ run_reset], simp)
  from reach_spawn [OF this, of 8] show ?thesis by (simp add: insert_commute)
qed

text \<open>
  When the termination thread has given up on a child, and the process is then reset and spawned again,
  the late exit of the first child is taken for the exit of the second: the process counts as terminated
  while its child runs, \<open>terminate\<close> answers success and does nothing, and when all children are gone
  memory still counts as reserved.
\<close>

theorem late_exit_orphans_child:
  "(\<exists>m. pm_reachable True U (m, {8}) \<and> pr_state (obj m 0) = Terminated \<and> map_of (pm_pidToProcess m) 8 = Some 0 \<and>
     Process_terminate True 0 m = (Inr SC_Success, m)) \<and>
   (\<exists>m. pm_reachable True U (m, {}) \<and> mt_reservedMb (pm_memory m) = 300 \<and> reserved_total m = 0)"
proof -
  let ?m1 = "run_state (run_process Terminated 0 No_thread (exit_status_of (Exited_with 0)) 300 0) [(8, 0)] 300 [Kill_group 7 SIGKILL]"
  let ?m2 = "run_state (run_process Terminated 0 No_thread (exit_status_of (Exited_with 0)) 300 0) [] 300 [Kill_group 7 SIGKILL]"
  let ?m0 = "run_state (run_process Spawned 8 No_thread lost_status 300 300) [(7, 0), (8, 0)] 600 [Kill_group 7 SIGKILL]"
  have eq1: "ProcessManager_handleChildExit True 7 (Exited_with 0) ?m0 = ?m1"
    by (subst run_exit) (simp_all add: map_erase_def)
  have eq2: "ProcessManager_handleChildExit True 8 (Exited_with 0) ?m1 = ?m2"
    by (subst run_exit_late) (simp_all add: map_erase_def)
  have "pm_step True U (?m0, {7, 8}) (?m1, {7, 8} - {7})"
    by (rule pm_exit [of 7 "{7, 8}" True U ?m0 True "Exited_with 0", unfolded eq1]) simp
  then have 1: "pm_reachable True U (?m1, {8})"
    using pm_more [OF reach_given_up] by (simp add: insert_Diff_if)
  have "pm_step True U (?m1, {8}) (?m2, {8} - {8})"
    by (rule pm_exit [of 8 "{8}" True U ?m1 True "Exited_with 0", unfolded eq2]) simp
  then have 2: "pm_reachable True U (?m2, {})"
    using pm_more [OF 1] by simp
  have "pr_state (obj ?m1 0) = Terminated \<and> map_of (pm_pidToProcess ?m1) 8 = Some 0 \<and>
      Process_terminate True 0 ?m1 = (Inr SC_Success, ?m1)"
    by (simp add: Process_terminate_def run_defs)
  moreover have "mt_reservedMb (pm_memory ?m2) = 300 \<and> reserved_total ?m2 = 0"
    by (simp add: reserved_total_def run_defs)
  ultimately show ?thesis using 1 2 by blast
qed



theorem terminating_process_terminates_witness:
  "pr_state (obj (run_termination (replicate 4 (False, True)) 0
     (run_state (run_process Terminating 7 (Entered True) fresh_status 300 300) [(7, 0)] 300 [])) 0) = Terminated"
  by (rule terminating_process_terminates [OF reach_terminating [of True hex_uuid_api]]) (simp_all add: run_defs)

theorem borrowed_never_lowered_witness:
  "(0 :: u32) \<le> mt_borrowedMb (pm_memory (run_state (run_process Terminating 7 (Entered True) fresh_status 300 300) [(7, 0)] 300 []))"
proof -
  have "pm_reachable True hex_uuid_api (run_state (run_process Spawned 7 No_thread fresh_status 300 300) [(7, 0)] 300 [], {7})"
    using reach_spawn [OF reach_added, of 7] by simp
  from borrowed_never_lowered [OF this pm_terminate [OF _ run_terminate]]
  show ?thesis by (simp add: run_defs)
qed
end
