(* ===== verification/Endpoints.thy ===== *)
theory Endpoints
  imports Messages
begin

text \<open>
  \<^verbatim>\<open>message_impl/PeerMessageEndpoint.cc\<close>: an endpoint puts the framing source and sink, the
  buffered source and sink, the reader and the writer on one \<open>Peer\<close>. The objects share the peer, so
  the endpoint holds the peer once and lends it to the source and to the sink.

  Over a peer that is a reliable byte channel (locale \<open>byte_pipe\<close>) an endpoint at each end is a
  first-in first-out queue of messages: the relation \<open>link_step\<close> interleaves the two ends freely,
  and every reachable state refines the queue.
\<close>

record 'p peer_ops =
  pr_source :: "'p data_source"
  pr_sink :: "'p data_sink"
  pr_threadSafeShutdown :: "'p \<Rightarrow> 'p"

record 'p peer_endpoint =
  pe_peer :: 'p
  pe_source :: "unit framing_source buffered_source"
  pe_sink :: "unit framing_sink buffered_sink"
  pe_useRegistry :: bool
  pe_shutdown :: bool

definition PeerMessageEndpoint_new :: "'p \<Rightarrow> bool \<Rightarrow> 'p peer_endpoint" where
  "PeerMessageEndpoint_new p useRegistry =
     \<lparr>pe_peer = p, pe_source = BufferedSource_new (BasicFramingSource_new ()),
      pe_sink = BufferedSink_new (BasicFramingSink_new ()),
      pe_useRegistry = useRegistry, pe_shutdown = False\<rparr>"

definition lend_source :: "'p \<Rightarrow> 'q framing_source buffered_source \<Rightarrow> 'p framing_source buffered_source" where
  "lend_source p q =
     \<lparr>bsr_input = \<lparr>fsr_input = p, fsr_bytesRead = fsr_bytesRead (bsr_input q), fsr_frameSize = fsr_frameSize (bsr_input q)\<rparr>,
      bsr_isInFrame = bsr_isInFrame q, bsr_buffer = bsr_buffer q\<rparr>"

definition lend_sink :: "'p \<Rightarrow> 'q framing_sink buffered_sink \<Rightarrow> 'p framing_sink buffered_sink" where
  "lend_sink p k =
     \<lparr>bsk_output = \<lparr>fsk_output = p, fsk_bytesWritten = fsk_bytesWritten (bsk_output k), fsk_frameSize = fsk_frameSize (bsk_output k)\<rparr>,
      bsk_multiBuffer = bsk_multiBuffer k, bsk_appendedLength = bsk_appendedLength k,
      bsk_appendedBuffers = bsk_appendedBuffers k\<rparr>"

definition shutDown :: "exn \<Rightarrow> bool \<Rightarrow> exn" where
  "shutDown e shutdown =
     (case e of PeerDisconnectException m \<Rightarrow>
        if shutdown then ShutdownException ''PeerMessageEndpoint was shut down'' else PeerDisconnectException m
      | _ \<Rightarrow> e)"

text \<open>
  \<open>meanwhile\<close> says whether another thread calls \<open>shutdown\<close> while the call is in progress; \<open>mShutdown\<close>
  is read again when the peer reports that it was disconnected.
\<close>

definition PeerMessageEndpoint_getEnvelope ::
  "(nat \<Rightarrow> byte list option) \<Rightarrow> ('p, 'y) peer_ops_scheme \<Rightarrow> ('o, 'z) object_class_scheme \<Rightarrow> 'o registry \<Rightarrow>
   metadata \<Rightarrow> bool \<Rightarrow> ('p peer_endpoint, 'o envelope) proc" where
  "PeerMessageEndpoint_getEnvelope alloc pops cls reg fresh meanwhile e =
     (if pe_shutdown e then raise (ShutdownException ''PeerMessageEndpoint was shut down'') e
      else case MessageReader_read alloc (BasicFramingSource_ops (pr_source pops)) cls reg fresh (pe_useRegistry e)
                  (lend_source (pe_peer e) (pe_source e)) of
             (r, q) \<Rightarrow>
               let e' = e\<lparr>pe_peer := fsr_input (bsr_input q), pe_source := lend_source () q, pe_shutdown := meanwhile\<rparr>
               in (case r of Inl x \<Rightarrow> (Inl (shutDown x meanwhile), e') | Inr env \<Rightarrow> (Inr env, e')))"

definition PeerMessageEndpoint_putEnvelope ::
  "(nat \<Rightarrow> byte list option) \<Rightarrow> ('p, 'y) peer_ops_scheme \<Rightarrow> ('o, 'z) object_class_scheme \<Rightarrow>
   bool \<Rightarrow> 'o envelope \<Rightarrow> ('p peer_endpoint, unit) proc" where
  "PeerMessageEndpoint_putEnvelope alloc pops cls meanwhile env e =
     (if pe_shutdown e then raise (ShutdownException ''PeerMessageEndpoint was shut down'') e
      else case MessageWriter_write alloc (BasicFramingSink_ops (pr_sink pops)) cls env
                  (lend_sink (pe_peer e) (pe_sink e)) of
             (r, k) \<Rightarrow>
               let e' = e\<lparr>pe_peer := fsk_output (bsk_output k), pe_sink := lend_sink () k, pe_shutdown := meanwhile\<rparr>
               in (case r of Inl x \<Rightarrow> (Inl (shutDown x meanwhile), e') | Inr u \<Rightarrow> (Inr u, e')))"

definition PeerMessageEndpoint_shutdown :: "('p, 'y) peer_ops_scheme \<Rightarrow> 'p peer_endpoint \<Rightarrow> 'p peer_endpoint" where
  "PeerMessageEndpoint_shutdown pops e =
     e\<lparr>pe_shutdown := True, pe_peer := pr_threadSafeShutdown pops (pe_peer e)\<rparr>"

subsection \<open>Messages on the wire\<close>

text \<open>The content bytes of a message, and the whole frame that carries it.\<close>

definition content_data :: "('o, 'z) object_class_scheme \<Rightarrow> nat \<Rightarrow> 'o content \<Rightarrow> byte list" where
  "content_data cls k c =
     (case c of ObjectContent x \<Rightarrow> snd (out_eval (oc_serialize cls x) k)
      | OpaqueContent _ _ ob \<Rightarrow> (case ob of Some b \<Rightarrow> Buffer_pending b | None \<Rightarrow> []))"

definition wire_header :: "('o, 'z) object_class_scheme \<Rightarrow> 'o envelope \<Rightarrow> byte list" where
  "wire_header cls env = envelope_bytes [] protocolVersion (the (en_metadata env)) (en_to env)
     (Envelope_classId cls env) (Envelope_classVersion cls env)"

definition wire_content :: "('o, 'z) object_class_scheme \<Rightarrow> 'o envelope \<Rightarrow> byte list" where
  "wire_content cls env = content_data cls (length (wire_header cls env)) (the (en_content env))"

definition wire :: "('o, 'z) object_class_scheme \<Rightarrow> 'o envelope \<Rightarrow> byte list" where
  "wire cls env =
     (let m = wire_header cls env @ wire_content cls env in frame_bytes (frame_header (length m)) @ m)"

text \<open>The messages the protocol can carry.\<close>

definition message_ok :: "('o, 'z) object_class_scheme \<Rightarrow> 'o envelope \<Rightarrow> bool" where
  "message_ok cls env =
     (case (en_metadata env, en_content env) of
        (Some md, Some c) \<Rightarrow> name_ok md \<and>
          (case c of ObjectContent x \<Rightarrow> fst (out_eval (oc_serialize cls x) (length (wire_header cls env))) = Inr ()
           | OpaqueContent _ _ ob \<Rightarrow> (case ob of Some b \<Rightarrow> Buffer_inv b | None \<Rightarrow> False)) \<and>
          length (wire_header cls env @ wire_content cls env) < 2 ^ 32
      | _ \<Rightarrow> False)"

text \<open>What the receiving end delivers: the same header, and the content kept opaque.\<close>

definition delivers :: "('o, 'z) object_class_scheme \<Rightarrow> metadata \<Rightarrow> 'o envelope \<Rightarrow> 'o envelope \<Rightarrow> bool" where
  "delivers cls fresh env env' \<longleftrightarrow>
     en_to env' = en_to env \<and> en_metadata env' = map_option (md_received fresh) (en_metadata env) \<and>
     (\<exists>b. en_content env' = Some (OpaqueContent (Envelope_classId cls env) (Envelope_classVersion cls env) (Some b)) \<and>
          Buffer_inv b \<and> Buffer_pending b = wire_content cls env)"

lemma message_okE:
  assumes "message_ok cls env"
  obtains md c where "en_metadata env = Some md" "en_content env = Some c" "name_ok md"
    "content_writes cls c (length (wire_header cls env)) (wire_content cls env)"
    "length (wire_header cls env @ wire_content cls env) < 2 ^ 32"
proof -
  from assms obtain md c where m: "en_metadata env = Some md" "en_content env = Some c" "name_ok md"
      "length (wire_header cls env @ wire_content cls env) < 2 ^ 32"
    by (auto simp: message_ok_def split: option.splits)
  moreover have "content_writes cls c (length (wire_header cls env)) (wire_content cls env)"
    using assms m
    by (auto simp: message_ok_def content_writes_def wire_content_def content_data_def prod_eq_iff
        split: content.splits option.splits)
  ultimately show thesis by (intro that)
qed

text \<open>A node that forwards what it received sends the same bytes on.\<close>

lemma wire_header_delivers:
  assumes "message_ok cls env" and "delivers cls fresh env env'"
  shows "wire_header cls env' = wire_header cls env"
  using assms
  by (auto simp: message_ok_def delivers_def wire_header_def envelope_bytes_def header_bytes_def md_received_def
      Envelope_classId_def Envelope_classVersion_def split: option.splits)

lemma wire_delivers:
  assumes "message_ok cls env" and "delivers cls fresh env env'"
  shows "wire cls env' = wire cls env" and "message_ok cls env'"
proof -
  note h = wire_header_delivers [OF assms]
  have c: "wire_content cls env' = wire_content cls env"
    using assms by (auto simp: delivers_def wire_content_def [of _ env'] content_data_def)
  show "wire cls env' = wire cls env" by (simp add: wire_def h c)
  show "message_ok cls env'"
    using assms h c
    by (auto simp: message_ok_def delivers_def md_received_def name_ok_def split: option.splits content.splits)
qed

subsection \<open>Endpoints on a reliable channel\<close>

lemma lend_simps [simp]:
  "bsk_mem_inv alloc (lend_sink p k) = bsk_mem_inv alloc k"
  "fsk_output (bsk_output (lend_sink p k)) = p"
  "fsk_bytesWritten (bsk_output (lend_sink p k)) = fsk_bytesWritten (bsk_output k)"
  "fsk_frameSize (bsk_output (lend_sink p k)) = fsk_frameSize (bsk_output k)"
  "fsr_input (bsr_input (lend_source p q)) = p"
  "fsr_bytesRead (bsr_input (lend_source p q)) = fsr_bytesRead (bsr_input q)"
  "fsr_frameSize (bsr_input (lend_source p q)) = fsr_frameSize (bsr_input q)"
  by (simp_all add: lend_sink_def lend_source_def bsk_mem_inv_def)

text \<open>What the sending and the receiving side of an endpoint keep of their own objects.\<close>

definition sender_inv :: "(nat \<Rightarrow> byte list option) \<Rightarrow> 'p peer_endpoint \<Rightarrow> bool" where
  "sender_inv alloc e \<longleftrightarrow> \<not> pe_shutdown e \<and> bsk_mem_inv alloc (pe_sink e) \<and>
     fsk_bytesWritten (bsk_output (pe_sink e)) \<le> fsk_frameSize (bsk_output (pe_sink e))"

definition receiver_inv :: "'p peer_endpoint \<Rightarrow> bool" where
  "receiver_inv e \<longleftrightarrow> \<not> pe_shutdown e \<and> \<not> pe_useRegistry e \<and>
     fsr_bytesRead (bsr_input (pe_source e)) \<le> fsr_frameSize (bsr_input (pe_source e))"

lemma PeerMessageEndpoint_new_peer [simp]: "pe_peer (PeerMessageEndpoint_new p u) = p"
  by (simp add: PeerMessageEndpoint_new_def)

lemma PeerMessageEndpoint_new_inv:
  "alloc_ok alloc \<Longrightarrow> sender_inv alloc (PeerMessageEndpoint_new p u)"
  "receiver_inv (PeerMessageEndpoint_new p False)"
  using BufferedSink_new_ok(1) [of alloc "BasicFramingSink_new ()"]
  by (simp_all add: sender_inv_def receiver_inv_def PeerMessageEndpoint_new_def BufferedSink_new_def
      BasicFramingSink_new_def BufferedSource_new_def BasicFramingSource_new_def)

locale byte_pipe = snk: byte_sink "pr_sink pops" inv pending + src: byte_source "pr_source pops" inv pending
  for pops :: "('p, 'y) peer_ops_scheme" and inv :: "'p \<Rightarrow> bool" and pending :: "'p \<Rightarrow> byte list"
begin

lemma putEnvelope_ok:
  assumes e: "sender_inv alloc e" "inv (pe_peer e)" and m: "message_ok cls env"
  shows "\<exists>e'. PeerMessageEndpoint_putEnvelope alloc pops cls False env e = (Inr (), e') \<and> sender_inv alloc e' \<and>
    inv (pe_peer e') \<and> pending (pe_peer e') = pending (pe_peer e) @ wire cls env"
proof -
  obtain md c where md: "en_metadata env = Some md" "en_content env = Some c" "name_ok md"
      "content_writes cls c (length (wire_header cls env)) (wire_content cls env)"
      "length (wire_header cls env @ wire_content cls env) < 2 ^ 32"
    using message_okE [OF m] .
  have hb: "wire_header cls env = envelope_bytes [] protocolVersion md (en_to env) (Envelope_classId cls env)
      (Envelope_classVersion cls env)"
    using md(1) by (simp add: wire_header_def)
  let ?k = "lend_sink (pe_peer e) (pe_sink e)"
  obtain k where "MessageWriter_write alloc (BasicFramingSink_ops (pr_sink pops)) cls env ?k = (Inr (), k)"
      "inv (fsk_output (bsk_output k))" "fsk_bytesWritten (bsk_output k) \<le> fsk_frameSize (bsk_output k)"
      "bsk_mem_inv alloc k" "pending (fsk_output (bsk_output k)) = pending (pe_peer e) @ wire cls env"
    using snk.framing.write_message [OF _ _ md(1,3,2) hb md(4,5), of ?k alloc] e
    by (auto simp: sender_inv_def wire_def Let_def)
  then show ?thesis
    using e by (auto simp: PeerMessageEndpoint_putEnvelope_def sender_inv_def)
qed

lemma getEnvelope_ok:
  assumes al: "alloc_ok alloc" and e: "receiver_inv e" "inv (pe_peer e)" and m: "message_ok cls env"
    and p: "pending (pe_peer e) = wire cls env @ rest"
  shows "\<exists>e' env'. PeerMessageEndpoint_getEnvelope alloc pops cls reg fresh False e = (Inr env', e') \<and>
    delivers cls fresh env env' \<and> receiver_inv e' \<and> inv (pe_peer e') \<and> pending (pe_peer e') = rest"
proof -
  obtain md c where md: "en_metadata env = Some md" "en_content env = Some c" "name_ok md"
      "length (wire_header cls env @ wire_content cls env) < 2 ^ 32"
    using message_okE [OF m] .
  have hb: "wire_header cls env = envelope_bytes [] protocolVersion md (en_to env) (Envelope_classId cls env)
      (Envelope_classVersion cls env)"
    using md(1) by (simp add: wire_header_def)
  let ?q = "lend_source (pe_peer e) (pe_source e)"
  obtain q b where "MessageReader_read alloc (BasicFramingSource_ops (pr_source pops)) cls reg fresh False ?q =
        (Inr \<lparr>en_content = Some (OpaqueContent (Envelope_classId cls env) (Envelope_classVersion cls env) (Some b)),
              en_metadata = Some (md_received fresh md), en_to = en_to env\<rparr>, q)"
      "Buffer_inv b" "Buffer_pending b = wire_content cls env" "inv (fsr_input (bsr_input q))"
      "fsr_bytesRead (bsr_input q) \<le> fsr_frameSize (bsr_input q)" "pending (fsr_input (bsr_input q)) = rest"
    using src.framing.read_opaque [OF al _ md(3) protocolVersion_major hb md(4), of ?q rest False reg cls fresh] e p
    by (auto simp: receiver_inv_def wire_def Let_def)
  then show ?thesis
    using e md by (auto simp: PeerMessageEndpoint_getEnvelope_def receiver_inv_def delivers_def)
qed

text \<open>With the registry, the receiving end rebuilds the object.\<close>

lemma getEnvelope_object:
  assumes al: "alloc_ok alloc" and e: "\<not> pe_shutdown e" "pe_useRegistry e" "inv (pe_peer e)"
      "fsr_bytesRead (bsr_input (pe_source e)) \<le> fsr_frameSize (bsr_input (pe_source e))"
    and m: "message_ok cls env" and p: "pending (pe_peer e) = wire cls env @ rest"
    and reg: "ContentRegistry_create (Envelope_classId cls env) (Envelope_classVersion cls env) reg = Some x"
    and dec: "in_eval (oc_deserialize cls x (Envelope_classVersion cls env)) (wire_content cls env)
        (length (wire_header cls env)) = Some (Inr y, unread, n)"
  shows "\<exists>e'. PeerMessageEndpoint_getEnvelope alloc pops cls reg fresh False e =
      (Inr \<lparr>en_content = Some (ObjectContent y), en_metadata = map_option (md_received fresh) (en_metadata env),
            en_to = en_to env\<rparr>, e') \<and> inv (pe_peer e') \<and> pending (pe_peer e') = rest \<and>
    fsr_bytesRead (bsr_input (pe_source e')) \<le> fsr_frameSize (bsr_input (pe_source e'))"
proof -
  obtain md c where md: "en_metadata env = Some md" "en_content env = Some c" "name_ok md"
      "length (wire_header cls env @ wire_content cls env) < 2 ^ 32"
    using message_okE [OF m] .
  have hb: "wire_header cls env = envelope_bytes [] protocolVersion md (en_to env) (Envelope_classId cls env)
      (Envelope_classVersion cls env)"
    using md(1) by (simp add: wire_header_def)
  let ?q = "lend_source (pe_peer e) (pe_source e)"
  obtain q where "MessageReader_read alloc (BasicFramingSource_ops (pr_source pops)) cls reg fresh True ?q =
        (Inr \<lparr>en_content = Some (ObjectContent y), en_metadata = Some (md_received fresh md), en_to = en_to env\<rparr>, q)"
      "inv (fsr_input (bsr_input q))" "fsr_bytesRead (bsr_input q) \<le> fsr_frameSize (bsr_input q)"
      "pending (fsr_input (bsr_input q)) = rest"
    using src.framing.read_object [OF al _ md(3) protocolVersion_major hb md(4) _ reg dec, of ?q rest fresh] e p
    by (auto simp: wire_def Let_def)
  then show ?thesis
    using e md by (auto simp: PeerMessageEndpoint_getEnvelope_def)
qed

end

subsection \<open>Two endpoints as a queue\<close>

text \<open>Operations on a link: sends at one end and receives at the other, in any order.\<close>

datatype 'o link_cmd = Send "'o envelope" | Receive metadata

record 'p link =
  lk_channel :: 'p
  lk_a :: "'p peer_endpoint"
  lk_b :: "'p peer_endpoint"

definition link_new :: "'p \<Rightarrow> 'p link" where
  "link_new p = \<lparr>lk_channel = p, lk_a = PeerMessageEndpoint_new p False, lk_b = PeerMessageEndpoint_new p False\<rparr>"

fun link_run ::
  "(nat \<Rightarrow> byte list option) \<Rightarrow> ('p, 'y) peer_ops_scheme \<Rightarrow> ('o, 'z) object_class_scheme \<Rightarrow> 'o registry \<Rightarrow>
   'o link_cmd list \<Rightarrow> ('p link, 'o envelope list) proc" where
  "link_run alloc pops cls reg [] l = (Inr [], l)"
| "link_run alloc pops cls reg (Send env # cmds) l =
     (case PeerMessageEndpoint_putEnvelope alloc pops cls False env ((lk_a l)\<lparr>pe_peer := lk_channel l\<rparr>) of
        (r, a) \<Rightarrow> let l' = l\<lparr>lk_channel := pe_peer a, lk_a := a\<rparr>
                 in case r of Inl e \<Rightarrow> (Inl e, l') | Inr _ \<Rightarrow> link_run alloc pops cls reg cmds l')"
| "link_run alloc pops cls reg (Receive fresh # cmds) l =
     (case PeerMessageEndpoint_getEnvelope alloc pops cls reg fresh False ((lk_b l)\<lparr>pe_peer := lk_channel l\<rparr>) of
        (r, b) \<Rightarrow> let l' = l\<lparr>lk_channel := pe_peer b, lk_b := b\<rparr>
                 in case r of Inl e \<Rightarrow> (Inl e, l')
                    | Inr env \<Rightarrow> bindp (link_run alloc pops cls reg cmds) (\<lambda>envs. ret (env # envs)) l')"

text \<open>The specification: a queue; a receive on the empty queue is outside it.\<close>

fun queue_run :: "'o link_cmd list \<Rightarrow> 'o envelope list \<Rightarrow> ((metadata \<times> 'o envelope) list \<times> 'o envelope list) option" where
  "queue_run [] q = Some ([], q)"
| "queue_run (Send env # cmds) q = queue_run cmds (q @ [env])"
| "queue_run (Receive fresh # cmds) (env # q) =
     map_option (\<lambda>(outs, q'). ((fresh, env) # outs, q')) (queue_run cmds q)"
| "queue_run (Receive fresh # cmds) [] = None"

definition sends_ok :: "('o, 'z) object_class_scheme \<Rightarrow> 'o link_cmd list \<Rightarrow> bool" where
  "sends_ok cls cmds \<longleftrightarrow> (\<forall>env. Send env \<in> set cmds \<longrightarrow> message_ok cls env)"

lemma peer_irrelevant [simp]:
  "sender_inv alloc (e\<lparr>pe_peer := p\<rparr>) = sender_inv alloc e" "receiver_inv (e\<lparr>pe_peer := p\<rparr>) = receiver_inv e"
  by (simp_all add: sender_inv_def receiver_inv_def)

context byte_pipe
begin

definition link_rel :: "(nat \<Rightarrow> byte list option) \<Rightarrow> ('o, 'z) object_class_scheme \<Rightarrow> 'p link \<Rightarrow> 'o envelope list \<Rightarrow> bool" where
  "link_rel alloc cls l q \<longleftrightarrow> sender_inv alloc (lk_a l) \<and> receiver_inv (lk_b l) \<and> inv (lk_channel l) \<and>
     pending (lk_channel l) = concat (map (wire cls) q) \<and> (\<forall>env \<in> set q. message_ok cls env)"

theorem link_refines_queue:
  assumes "alloc_ok alloc" and "link_rel alloc cls l q" and "sends_ok cls cmds"
    and "queue_run cmds q = Some (outs, q')"
  shows "\<exists>envs l'. link_run alloc pops cls reg cmds l = (Inr envs, l') \<and> link_rel alloc cls l' q' \<and>
    list_all2 (\<lambda>(fresh, env) env'. delivers cls fresh env env') outs envs"
  using assms
proof (induction cmds q arbitrary: l outs rule: queue_run.induct)
  case (1 q)
  then show ?case by simp
next
  case (2 env cmds q)
  then have m: "message_ok cls env" "sends_ok cls cmds" by (auto simp: sends_ok_def)
  let ?e = "(lk_a l)\<lparr>pe_peer := lk_channel l\<rparr>"
  obtain a where a: "PeerMessageEndpoint_putEnvelope alloc pops cls False env ?e = (Inr (), a)"
      "sender_inv alloc a" "inv (pe_peer a)" "pending (pe_peer a) = pending (lk_channel l) @ wire cls env"
    using putEnvelope_ok [of alloc ?e cls env] m(1) "2.prems"(2) by (auto simp: link_rel_def)
  let ?l = "l\<lparr>lk_channel := pe_peer a, lk_a := a\<rparr>"
  have "link_rel alloc cls ?l (q @ [env])"
    using "2.prems"(2) a m by (auto simp: link_rel_def)
  from "2.IH" [OF "2.prems"(1) this m(2)] "2.prems"(4) a(1) show ?case by auto
next
  case (3 fresh cmds env q)
  let ?e = "(lk_b l)\<lparr>pe_peer := lk_channel l\<rparr>"
  obtain b env' where b: "PeerMessageEndpoint_getEnvelope alloc pops cls reg fresh False ?e = (Inr env', b)"
      "delivers cls fresh env env'" "receiver_inv b" "inv (pe_peer b)" "pending (pe_peer b) = concat (map (wire cls) q)"
    using getEnvelope_ok [of alloc ?e cls env "concat (map (wire cls) q)" reg fresh] "3.prems"(1,2)
    by (auto simp: link_rel_def)
  let ?l = "l\<lparr>lk_channel := pe_peer b, lk_b := b\<rparr>"
  have rel: "link_rel alloc cls ?l q" using "3.prems"(2) b by (auto simp: link_rel_def)
  obtain outs1 where outs1: "queue_run cmds q = Some (outs1, q')" "outs = (fresh, env) # outs1"
    using "3.prems"(4) by auto
  have "sends_ok cls cmds" using "3.prems"(3) by (auto simp: sends_ok_def)
  from "3.IH" [OF "3.prems"(1) rel this outs1(1)] b outs1(2) show ?case by auto
next
  case (4 fresh cmds)
  then show ?case by simp
qed

end

subsection \<open>A channel in memory\<close>

definition MultiBuffer_peer :: "(nat \<Rightarrow> byte list option) \<Rightarrow> multibuffer peer_ops" where
  "MultiBuffer_peer alloc =
     \<lparr>pr_source = MultiBuffer_source, pr_sink = MultiBuffer_sink alloc, pr_threadSafeShutdown = id\<rparr>"

interpretation mbuf_link: byte_pipe "MultiBuffer_peer alloc" "mb_sink_inv alloc" mb_pending
  for alloc
proof
  fix m :: multibuffer and d n
  assume m: "mb_sink_inv alloc m"
  then show "\<exists>m'. snk_write (pr_sink (MultiBuffer_peer alloc)) d m = (Inr (length d), m') \<and>
      mb_sink_inv alloc m' \<and> mb_pending m' = mb_pending m @ d"
    using mbuf_pipe.write_ok [of alloc m d] by (simp add: MultiBuffer_peer_def)
  assume "n \<le> length (mb_pending m)"
  then obtain m' where m': "MultiBuffer_read n m = (Inr (take n (mb_pending m)), m')" "mb_inv m'"
      "mb_pending m' = drop n (mb_pending m)" "mb_bytesRead m' = mb_bytesRead m + n"
    using MultiBuffer_read_ok [of m n] m by (auto simp: mb_sink_inv_def)
  then show "\<exists>m'. src_read (pr_source (MultiBuffer_peer alloc)) n m = (Inr (take n (mb_pending m)), m') \<and>
      mb_sink_inv alloc m' \<and> mb_pending m' = drop n (mb_pending m) \<and>
      src_bytesRead (pr_source (MultiBuffer_peer alloc)) m' = src_bytesRead (pr_source (MultiBuffer_peer alloc)) m + n"
    using MultiBuffer_read_initialSize [OF m'(1)] m
    by (auto simp: MultiBuffer_peer_def mb_sink_inv_def MultiBuffer_source_def)
qed

end
