(* ===== verification/Socket_Peers.thy ===== *)
theory Socket_Peers
  imports Endpoints "HOL-Library.Signed_Division"
begin

text \<open>
  \<^verbatim>\<open>arras4_network/lib/network\<close>: \<open>Peer\<close>, \<open>SocketPeer\<close>, \<open>IPCSocketPeer\<close> and \<open>InetSocketPeer\<close> on the
  POSIX build (the branches of \<open>#ifdef\<close> taken on Linux, \<open>poll\<close> and not \<open>select\<close>).

  The operating system is the record \<open>sock_os\<close> of its calls on a state of its own, which every peer
  carries along; a call gives its result or the value of \<open>errno\<close>. A call that is repeated while it is
  interrupted may never return (\<open>NoReturn\<close>). \<open>EncryptState\<close> is an interface as in the source.

  Two peers on the ends of a connection are a \<open>byte_pipe\<close> when the kernel's stream is reliable
  (\<open>stream_ok\<close>), whatever it accepts and delivers at a time and however often it is interrupted.
\<close>

subsection \<open>The operating system\<close>

datatype sock_opt = Opt_REUSEADDR | Opt_NODELAY | Opt_KEEPALIVE | Opt_KEEPIDLE int | Opt_KEEPINTVL int | Opt_KEEPCNT int

datatype eai = EAI_AGAIN | EAI_FAIL | EAI_NODATA | EAI_NONAME | EAI_other int

datatype sock_addr = Addr_unix string | Addr_inet u32 u16

record 'o sock_os =
  os_strerror :: "errno \<Rightarrow> string"
  os_socket :: "bool \<Rightarrow> 'o \<Rightarrow> (errno + int) \<times> 'o"
  os_send :: "int \<Rightarrow> byte list \<Rightarrow> 'o \<Rightarrow> (errno + nat) \<times> 'o"
  os_recv :: "int \<Rightarrow> nat \<Rightarrow> bool \<Rightarrow> 'o \<Rightarrow> (errno + byte list) \<times> 'o"
  os_poll :: "int \<Rightarrow> bool \<Rightarrow> bool \<Rightarrow> int \<Rightarrow> 'o \<Rightarrow> (errno + (bool \<times> bool) option) \<times> 'o"
  os_accept :: "int \<Rightarrow> 'o \<Rightarrow> (errno + int) \<times> 'o"
  os_shutdown :: "int \<Rightarrow> bool \<Rightarrow> bool \<Rightarrow> 'o \<Rightarrow> 'o"
  os_close :: "int \<Rightarrow> 'o \<Rightarrow> (errno + unit) \<times> 'o"
  os_nonblock :: "int \<Rightarrow> bool \<Rightarrow> 'o \<Rightarrow> (errno + unit) \<times> 'o"
  os_issock :: "int \<Rightarrow> 'o \<Rightarrow> (errno + bool) \<times> 'o"
  os_acceptconn :: "int \<Rightarrow> 'o \<Rightarrow> (errno + bool) \<times> 'o"
  os_setsockopt :: "int \<Rightarrow> sock_opt \<Rightarrow> 'o \<Rightarrow> (errno + unit) \<times> 'o"
  os_bind :: "int \<Rightarrow> sock_addr \<Rightarrow> 'o \<Rightarrow> (errno + unit) \<times> 'o"
  os_listen :: "int \<Rightarrow> int \<Rightarrow> 'o \<Rightarrow> (errno + unit) \<times> 'o"
  os_connect :: "int \<Rightarrow> sock_addr \<Rightarrow> 'o \<Rightarrow> (errno + unit) \<times> 'o"
  os_getsockname :: "int \<Rightarrow> 'o \<Rightarrow> (errno + u16) \<times> 'o"
  os_getaddrinfo :: "string \<Rightarrow> 'o \<Rightarrow> (eai + u32) \<times> 'o"
  os_unlink :: "string \<Rightarrow> 'o \<Rightarrow> 'o"
  os_gettimeofday :: "'o \<Rightarrow> (int \<times> int) \<times> 'o"
  os_steady_ns :: "'o \<Rightarrow> int \<times> 'o"

text \<open>The encryption interface: each call may throw an \<open>EncryptException\<close>, given by its message.\<close>

record 'o encrypt_state =
  en_read :: "nat \<Rightarrow> 'o \<Rightarrow> (string + byte list option) \<times> 'o"
  en_peek :: "nat \<Rightarrow> 'o \<Rightarrow> (string + byte list option) \<times> 'o"
  en_write :: "byte list \<Rightarrow> 'o \<Rightarrow> (string + bool) \<times> 'o"
  en_pending :: "'o \<Rightarrow> (string + nat) \<times> 'o"
  en_shutdown_send :: "'o \<Rightarrow> 'o"

record 'o socket_peer =
  sp_socket :: int
  sp_encryption :: "'o encrypt_state option"
  sp_isListening :: bool
  sp_bytesRead :: nat
  sp_bytesWritten :: nat
  sp_os :: 'o

definition ARRAS_INVALID_SOCKET :: int where
  "ARRAS_INVALID_SOCKET = -1"

definition no_socket :: "'o \<Rightarrow> 'o socket_peer" where
  "no_socket os = \<lparr>sp_socket = ARRAS_INVALID_SOCKET, sp_encryption = None, sp_isListening = False,
     sp_bytesRead = 0, sp_bytesWritten = 0, sp_os = os\<rparr>"

text \<open>A call that is made again for as long as it is interrupted.\<close>

partial_function (option) retry :: "('o \<Rightarrow> (errno + 'a) \<times> 'o) \<Rightarrow> 'o \<Rightarrow> ((errno + 'a) \<times> 'o) option" where
  "retry call os = (case call os of (r, os') \<Rightarrow> if r = Inl EINTR then retry call os' else Some (r, os'))"

declare retry.simps [code]

definition sys_retry :: "('o \<Rightarrow> (errno + 'a) \<times> 'o) \<Rightarrow> ('o socket_peer, errno + 'a) proc" where
  "sys_retry call p = (case retry call (sp_os p) of
       None \<Rightarrow> (Inl (NoReturn ''interrupted forever''), p)
     | Some (r, os') \<Rightarrow> (Inr r, p\<lparr>sp_os := os'\<rparr>))"

definition sys_call :: "('o \<Rightarrow> 'a \<times> 'o) \<Rightarrow> ('o socket_peer, 'a) proc" where
  "sys_call call p = (case call (sp_os p) of (r, os') \<Rightarrow> (Inr r, p\<lparr>sp_os := os'\<rparr>))"

definition close_ignore_interrupts :: "'o sock_os \<Rightarrow> int \<Rightarrow> ('o socket_peer, errno + unit) proc" where
  "close_ignore_interrupts os fd = sys_retry (os_close os fd)"

definition recv_ignore_interrupts :: "'o sock_os \<Rightarrow> int \<Rightarrow> nat \<Rightarrow> bool \<Rightarrow> ('o socket_peer, errno + byte list) proc" where
  "recv_ignore_interrupts os fd n peek = sys_retry (os_recv os fd n peek)"

definition send_ignore_interrupts :: "'o sock_os \<Rightarrow> int \<Rightarrow> byte list \<Rightarrow> ('o socket_peer, errno + nat) proc" where
  "send_ignore_interrupts os fd d = sys_retry (os_send os fd d)"

definition poll_ignore_interrupts ::
  "'o sock_os \<Rightarrow> int \<Rightarrow> bool \<Rightarrow> bool \<Rightarrow> int \<Rightarrow> ('o socket_peer, errno + (bool \<times> bool) option) proc" where
  "poll_ignore_interrupts os fd rd wr timeout = sys_retry (os_poll os fd rd wr timeout)"

definition accept_ignore_interrupts :: "'o sock_os \<Rightarrow> int \<Rightarrow> ('o socket_peer, errno + int) proc" where
  "accept_ignore_interrupts os fd = sys_retry (os_accept os fd)"

definition getCodeFromSocketError :: "errno \<Rightarrow> peer_code" where
  "getCodeFromSocketError e = (case e of
       EACCES \<Rightarrow> PERMISSION_DENIED
     | EAFNOSUPPORT \<Rightarrow> UNSUPPORTED_ADDRESS_FAMILY
     | EINVAL \<Rightarrow> INVALID_OPERATION
     | EMFILE \<Rightarrow> FILES
     | EISDIR \<Rightarrow> FILES
     | ENOTDIR \<Rightarrow> FILES
     | ENOENT \<Rightarrow> FILES
     | ENFILE \<Rightarrow> FILES
     | ENOBUFS \<Rightarrow> INSUFFICIENT_MEMORY
     | ENOMEM \<Rightarrow> INSUFFICIENT_MEMORY
     | EPROTONOSUPPORT \<Rightarrow> INVALID_PROTOCOL
     | EPROTO \<Rightarrow> INVALID_PROTOCOL
     | EBADF \<Rightarrow> INVALID_DESCRIPTOR
     | ECONNREFUSED \<Rightarrow> CONNECTION_REFUSED
     | ECONNABORTED \<Rightarrow> CONNECTION_ABORT
     | ECONNRESET \<Rightarrow> CONNECTION_RESET
     | EPIPE \<Rightarrow> CONNECTION_CLOSED
     | EFAULT \<Rightarrow> INVALID_PARAMETER
     | EINTR \<Rightarrow> INTERRUPTED
     | ENOTCONN \<Rightarrow> NOT_CONNECTED
     | ENOTSOCK \<Rightarrow> INVALID_DESCRIPTOR
     | EADDRINUSE \<Rightarrow> IN_USE
     | EOPNOTSUPP \<Rightarrow> INVALID_OPERATION
     | ETIMEDOUT \<Rightarrow> TIMEOUT
     | _ \<Rightarrow> UNKNOWN)"

text \<open>The resolver's error codes: \<open>h_errno\<close> and the \<open>EAI_\<close> results of \<open>getaddrinfo\<close>.\<close>

datatype lookup_error = HOST_NOT_FOUND | NO_ADDRESS | NO_RECOVERY | TRY_AGAIN | Lookup_other int

definition getCodeFromLookupError :: "lookup_error \<Rightarrow> peer_code" where
  "getCodeFromLookupError e = (case e of
       HOST_NOT_FOUND \<Rightarrow> NO_HOST
     | NO_ADDRESS \<Rightarrow> ADDRESS_NOT_FOUND
     | NO_RECOVERY \<Rightarrow> NAME_SERVER_ERROR
     | TRY_AGAIN \<Rightarrow> NAME_SERVER_ERROR
     | Lookup_other _ \<Rightarrow> UNKNOWN)"

definition getCodeFromGetAddrInfoError :: "eai \<Rightarrow> peer_code" where
  "getCodeFromGetAddrInfoError e = (case e of
       EAI_FAIL \<Rightarrow> NO_HOST
     | EAI_NODATA \<Rightarrow> NO_HOST
     | EAI_NONAME \<Rightarrow> NO_HOST
     | _ \<Rightarrow> UNKNOWN)"

text \<open>The exception for a failed call: the message is the prefix and \<open>strerror\<close> of the error.\<close>

definition socket_exn :: "'o sock_os \<Rightarrow> string \<Rightarrow> errno \<Rightarrow> exn" where
  "socket_exn os msg e = PeerException e (getCodeFromSocketError e) (msg @ os_strerror os e)"

subsection \<open>Construction and shutdown\<close>

definition SocketPeer_new :: "'o sock_os \<Rightarrow> int \<Rightarrow> 'o \<Rightarrow> (exn + 'o socket_peer) \<times> 'o" where
  "SocketPeer_new os sock o0 =
     (case os_issock os sock o0 of
        (Inl e, o1) \<Rightarrow>
          (Inl (InvalidParameterError (if e = EBADF then ''Bad file descriptor''
                else ''Problem calling fstat on file descriptor'')), o1)
      | (Inr False, o1) \<Rightarrow> (Inl (InvalidParameterError ''File descriptor is not a socket''), o1)
      | (Inr True, o1) \<Rightarrow>
          (case os_acceptconn os sock o1 of
             (Inl e, o2) \<Rightarrow>
               (Inl (InvalidParameterError (''SocketPeer: Problem calling getsockopt on the socket '' @ os_strerror os e)), o2)
           | (Inr listening, o2) \<Rightarrow>
               (Inr ((no_socket o2)\<lparr>sp_socket := sock, sp_isListening := listening\<rparr>), o2)))"

definition shutdown_encryption :: "'o socket_peer \<Rightarrow> 'o socket_peer" where
  "shutdown_encryption p = (case sp_encryption p of None \<Rightarrow> p
     | Some enc \<Rightarrow> p\<lparr>sp_os := en_shutdown_send enc (sp_os p)\<rparr>)"

definition SocketPeer_shutdown :: "'o sock_os \<Rightarrow> ('o socket_peer, unit) proc" where
  "SocketPeer_shutdown os p =
     (if sp_socket p = ARRAS_INVALID_SOCKET then ret () p
      else seqp (upd shutdown_encryption)
          (seqp (upd (\<lambda>p. p\<lparr>sp_os := os_shutdown os (sp_socket p) True True (sp_os p)\<rparr>))
          (seqp (close_ignore_interrupts os (sp_socket p))
          (upd (\<lambda>p. p\<lparr>sp_socket := ARRAS_INVALID_SOCKET, sp_isListening := False\<rparr>)))) p)"

definition SocketPeer_shutdown_send :: "'o sock_os \<Rightarrow> ('o socket_peer, unit) proc" where
  "SocketPeer_shutdown_send os p =
     (if sp_socket p = ARRAS_INVALID_SOCKET
      then raise (InvalidParameterError ''Attempted shutdown_send on an uninitialized peer'') p
      else seqp (upd shutdown_encryption)
          (upd (\<lambda>p. p\<lparr>sp_os := os_shutdown os (sp_socket p) False True (sp_os p)\<rparr>)) p)"

definition SocketPeer_shutdown_receive :: "'o sock_os \<Rightarrow> ('o socket_peer, unit) proc" where
  "SocketPeer_shutdown_receive os p =
     (if sp_socket p = ARRAS_INVALID_SOCKET
      then raise (InvalidParameterError ''Attempted shutdown_send on an uninitialized peer'') p
      else upd (\<lambda>p. p\<lparr>sp_os := os_shutdown os (sp_socket p) True False (sp_os p)\<rparr>) p)"

definition SocketPeer_threadSafeShutdown :: "'o sock_os \<Rightarrow> 'o socket_peer \<Rightarrow> 'o socket_peer" where
  "SocketPeer_threadSafeShutdown os p =
     (if sp_socket p \<ge> 0 then p\<lparr>sp_os := os_shutdown os (sp_socket p) True True (sp_os p)\<rparr> else p)"

definition SocketPeer_setEncryption :: "'o encrypt_state option \<Rightarrow> 'o socket_peer \<Rightarrow> 'o socket_peer" where
  "SocketPeer_setEncryption e p = p\<lparr>sp_encryption := e\<rparr>"

definition throw_disconnect :: "string \<Rightarrow> ('s, 'a) proc" where
  "throw_disconnect msg = raise (PeerDisconnectException msg)"

subsection \<open>Sending\<close>

text \<open>
  The loop of \<open>send\<close>, with \<open>offset\<close> the bytes already sent and \<open>d\<close> those still to send. It returns
  the function's result and what is then left in \<open>nBytes\<close>. A buffer pointer is \<open>None\<close> when it is null.
\<close>

function send_loop :: "'o sock_os \<Rightarrow> nat \<Rightarrow> byte list \<Rightarrow> ('o socket_peer, bool \<times> nat) proc" where
  "send_loop os offset d p =
     (if d = [] then ret (True, 0) p
      else bindp (send_ignore_interrupts os (sp_socket p) d) (\<lambda>status.
        case status of
          Inl e \<Rightarrow> raise (socket_exn os ''SocketPeer::send: '' e)
        | Inr n \<Rightarrow>
            if n = 0 then
              if offset = 0 then ret (False, length d)
              else throw_disconnect ''SocketPeer::send partial message sent''
            else if n \<le> length d then send_loop os (offset + n) (drop n d)
            else raise (Undefined ''send: more bytes than were passed'')) p)"
  by pat_completeness auto
termination by (relation "measure (\<lambda>(os, offset, d, p). length d)") auto

declare send_loop.simps [simp del]

definition SocketPeer_send :: "'o sock_os \<Rightarrow> byte list option \<Rightarrow> nat \<Rightarrow> ('o socket_peer, bool) proc" where
  "SocketPeer_send os data nBytes p =
     (if nBytes = 0 then ret True p
      else case data of
        None \<Rightarrow> raise (InvalidParameterError ''SocketPeer::send invalid null data ptr'') p
      | Some d \<Rightarrow>
          if sp_isListening p then raise (InvalidParameterError ''SocketPeer::send on an listening socket'') p
          else case sp_encryption p of
            Some enc \<Rightarrow>
              (case en_write enc (take nBytes d) (sp_os p) of
                 (Inl m, o1) \<Rightarrow> (Inl (PeerException E_none UNKNOWN m), p\<lparr>sp_os := o1\<rparr>)
               | (Inr rtn, o1) \<Rightarrow> (Inr rtn, p\<lparr>sp_os := o1, sp_bytesWritten := sp_bytesWritten p + nBytes\<rparr>))
          | None \<Rightarrow>
              bindp (send_loop os 0 (take nBytes d)) (\<lambda>(rtn, left).
                if rtn then seqp (upd (\<lambda>p. p\<lparr>sp_bytesWritten := sp_bytesWritten p + left\<rparr>)) (ret True)
                else ret False) p)"

definition Peer_send_or_throw :: "'o sock_os \<Rightarrow> byte list option \<Rightarrow> nat \<Rightarrow> string \<Rightarrow> ('o socket_peer, unit) proc" where
  "Peer_send_or_throw os data nBytes msg =
     bindp (SocketPeer_send os data nBytes) (\<lambda>ok. if ok then ret () else throw_disconnect msg)"

subsection \<open>Receiving\<close>

text \<open>The result is the bytes put into the buffer; \<open>buffer\<close> says that its pointer is not null.\<close>

definition SocketPeer_receive :: "'o sock_os \<Rightarrow> bool \<Rightarrow> nat \<Rightarrow> ('o socket_peer, byte list) proc" where
  "SocketPeer_receive os buffer n p =
     (if n = 0 then raise (InvalidParameterError ''SocketPeer::receive invalid byte count of 0'') p
      else if sp_isListening p then raise (InvalidParameterError ''SocketPeer::receive on an listening socket'') p
      else if \<not> buffer then raise (InvalidParameterError ''SocketPeer::receive invalid null data ptr'') p
      else case sp_encryption p of
        Some enc \<Rightarrow>
          (case en_read enc n (sp_os p) of
             (Inl m, o1) \<Rightarrow> (Inl (PeerException E_none UNKNOWN m), p\<lparr>sp_os := o1\<rparr>)
           | (Inr None, o1) \<Rightarrow>
               (Inl (PeerException E_none UNKNOWN ''SocketPeer::receive error doing encrypted read''), p\<lparr>sp_os := o1\<rparr>)
           | (Inr (Some b), o1) \<Rightarrow> (Inr b, p\<lparr>sp_os := o1, sp_bytesRead := sp_bytesRead p + length b\<rparr>))
      | None \<Rightarrow>
          bindp (recv_ignore_interrupts os (sp_socket p) n False) (\<lambda>rtn.
            case rtn of
              Inl e \<Rightarrow> raise (socket_exn os ''SocketPeer::receive: '' e)
            | Inr b \<Rightarrow> seqp (upd (\<lambda>p. p\<lparr>sp_bytesRead := sp_bytesRead p + length b\<rparr>)) (ret b)) p)"

definition SocketPeer_peek :: "'o sock_os \<Rightarrow> bool \<Rightarrow> nat \<Rightarrow> ('o socket_peer, byte list) proc" where
  "SocketPeer_peek os buffer n p =
     (if n = 0 then raise (InvalidParameterError ''SocketPeer::peek invalid byte count of 0'') p
      else if sp_isListening p then raise (InvalidParameterError ''SocketPeer::peek on an listening socket'') p
      else if \<not> buffer then raise (InvalidParameterError ''SocketPeer::peek invalid null data ptr'') p
      else case sp_encryption p of
        Some enc \<Rightarrow>
          (case en_peek enc n (sp_os p) of
             (Inl m, o1) \<Rightarrow> (Inl (PeerException E_none UNKNOWN m), p\<lparr>sp_os := o1\<rparr>)
           | (Inr None, o1) \<Rightarrow>
               (Inl (PeerException E_none UNKNOWN ''SocketPeer::peek error doing encrypted read''), p\<lparr>sp_os := o1\<rparr>)
           | (Inr (Some b), o1) \<Rightarrow> (Inr b, p\<lparr>sp_os := o1\<rparr>))
      | None \<Rightarrow>
          bindp (recv_ignore_interrupts os (sp_socket p) n True) (\<lambda>rtn.
            case rtn of
              Inl e \<Rightarrow> raise (socket_exn os ''SocketPeer::peek: '' e)
            | Inr b \<Rightarrow> ret b) p)"

definition Peer_peek_or_throw :: "'o sock_os \<Rightarrow> bool \<Rightarrow> nat \<Rightarrow> string \<Rightarrow> ('o socket_peer, byte list) proc" where
  "Peer_peek_or_throw os buffer n msg =
     bindp (SocketPeer_peek os buffer n) (\<lambda>b. if b = [] then throw_disconnect msg else ret b)"

subsection \<open>Waiting\<close>

text \<open>\<open>(int)\<close> of a number: its value modulo $2^{32}$, as a signed number.\<close>

definition to_int :: "int \<Rightarrow> int" where
  "to_int i = sint (word_of_int i :: u32)"

text \<open>
  The loop around \<open>::poll\<close> with a timeout: an interrupted call is repeated for the time that remains,
  counted in milliseconds towards zero; no time left is as if nothing had been found.
\<close>

partial_function (option) poll_wait ::
  "'o sock_os \<Rightarrow> int \<Rightarrow> bool \<Rightarrow> bool \<Rightarrow> int \<Rightarrow> int \<Rightarrow> 'o \<Rightarrow> ((errno + (bool \<times> bool) option) \<times> 'o) option" where
  "poll_wait os fd rd wr endTime remaining o0 =
     (case os_poll os fd rd wr remaining o0 of (r, o1) \<Rightarrow>
        if r = Inl EINTR then
          case os_steady_ns os o1 of (now, o2) \<Rightarrow>
            if to_int ((endTime - now) sdiv 1000000) \<le> 0 then Some (Inr None, o2)
            else poll_wait os fd rd wr endTime (to_int ((endTime - now) sdiv 1000000)) o2
        else Some (r, o1))"

declare poll_wait.simps [code]

definition poll_timeout ::
  "'o sock_os \<Rightarrow> int \<Rightarrow> bool \<Rightarrow> bool \<Rightarrow> u32 \<Rightarrow> ('o socket_peer, errno + (bool \<times> bool) option) proc" where
  "poll_timeout os fd rd wr timeoutMs =
     (if timeoutMs = 0 then poll_ignore_interrupts os fd rd wr 0
      else bindp (sys_call (os_steady_ns os)) (\<lambda>now p.
        case poll_wait os fd rd wr (now + uint timeoutMs * 1000000) (sint timeoutMs) (sp_os p) of
          None \<Rightarrow> (Inl (NoReturn ''interrupted forever''), p)
        | Some (r, o1) \<Rightarrow> (Inr r, p\<lparr>sp_os := o1\<rparr>)))"

text \<open>\<open>shutdown(); throw\<close>.\<close>

definition fail_shutdown :: "'o sock_os \<Rightarrow> exn \<Rightarrow> ('o socket_peer, 'a) proc" where
  "fail_shutdown os e = seqp (SocketPeer_shutdown os) (raise e)"

text \<open>
  After \<open>::poll\<close> found something. The result is the return value and the two flags; \<open>rd\<close> is the value
  \<open>read\<close> has so far.
\<close>

definition poll_found :: "'o sock_os \<Rightarrow> bool \<Rightarrow> bool \<Rightarrow> bool \<Rightarrow> bool \<Rightarrow> bool \<Rightarrow> bool \<Rightarrow> ('o socket_peer, bool \<times> bool \<times> bool) proc" where
  "poll_found os query_read query_write rd wr readSet writeSet p =
     (if query_read \<and> readSet then
        bindp (recv_ignore_interrupts os (sp_socket p) 1 True) (\<lambda>n.
          case n of
            Inl e \<Rightarrow> fail_shutdown os (socket_exn os ''SocketPeer::poll: '' e)
          | Inr b \<Rightarrow> ret (b = [], True, if query_write \<and> writeSet then True else wr)) p
      else ret (False, rd, if query_write \<and> writeSet then True else wr) p)"

definition poll_event ::
  "'o sock_os \<Rightarrow> int \<Rightarrow> bool \<Rightarrow> bool \<Rightarrow> bool \<Rightarrow> bool \<Rightarrow> bool \<Rightarrow> u32 \<Rightarrow> ('o socket_peer, bool \<times> bool \<times> bool) proc" where
  "poll_event os fd events_read query_write wr query_read rd timeoutMs =
     bindp (poll_timeout os fd events_read query_write timeoutMs) (\<lambda>r.
       case r of
         Inl e \<Rightarrow> fail_shutdown os (socket_exn os ''SocketPeer::poll: '' e)
       | Inr None \<Rightarrow> ret (False, rd, wr)
       | Inr (Some (readSet, writeSet)) \<Rightarrow> poll_found os query_read query_write rd wr readSet writeSet)"

definition SocketPeer_poll ::
  "'o sock_os \<Rightarrow> bool \<Rightarrow> bool \<Rightarrow> bool \<Rightarrow> bool \<Rightarrow> u32 \<Rightarrow> ('o socket_peer, bool \<times> bool \<times> bool) proc" where
  "SocketPeer_poll os query_read read0 query_write write0 timeoutMs p =
     (let rd = (if query_read then False else read0);
          wr = (if query_write then False else write0);
          wait = poll_event os (sp_socket p) query_read query_write wr
      in if sp_socket p = ARRAS_INVALID_SOCKET
         then raise (InvalidParameterError ''Attempted poll on a uninitialized peer'') p
         else if sp_isListening p
         then raise (InvalidParameterError ''Attempted polling socket which is listening'') p
         else if \<not> query_read \<and> \<not> query_write
         then raise (InvalidParameterError ''Neither read nor status is being queried'') p
         else case (if query_read then sp_encryption p else None) of
           None \<Rightarrow> wait query_read rd timeoutMs p
         | Some enc \<Rightarrow>
             (case en_pending enc (sp_os p) of
                (Inl m, o1) \<Rightarrow> (Inl (PeerException E_none UNKNOWN m), p\<lparr>sp_os := o1\<rparr>)
              | (Inr n, o1) \<Rightarrow>
                  if n > 0 then
                    if \<not> query_write then (Inr (False, True, wr), p\<lparr>sp_os := o1\<rparr>)
                    else wait False True 0 (p\<lparr>sp_os := o1\<rparr>)
                  else wait query_read rd timeoutMs (p\<lparr>sp_os := o1\<rparr>)))"

subsection \<open>Receiving everything\<close>

text \<open>\<open>struct timeval\<close>: seconds and microseconds.\<close>

type_synonym timeval = "int \<times> int"

definition timeradd :: "timeval \<Rightarrow> timeval \<Rightarrow> timeval" where
  "timeradd tvp uvp =
     (let sec = fst tvp + fst uvp; usec = snd tvp + snd uvp
      in if usec \<ge> 1000000 then (sec + 1, usec - 1000000) else (sec, usec))"

definition timersub :: "timeval \<Rightarrow> timeval \<Rightarrow> timeval" where
  "timersub tvp uvp =
     (let sec = fst tvp - fst uvp; usec = snd tvp - snd uvp
      in if usec < 0 then (sec - 1, usec + 1000000) else (sec, usec))"

definition timer_after :: "timeval \<Rightarrow> timeval \<Rightarrow> bool" where
  "timer_after a b \<longleftrightarrow> (if fst a = fst b then snd a > snd b else fst a > fst b)"

definition timeval_of_ms :: "u32 \<Rightarrow> timeval" where
  "timeval_of_ms ms = (uint (ms div 1000), uint ((ms mod 1000) * 1000))"

definition remaining_ms :: "timeval \<Rightarrow> timeval \<Rightarrow> u32" where
  "remaining_ms endtime now =
     (let remaining = (if timer_after now endtime then (0, 0) else timersub endtime now)
      in word_of_int (fst remaining * 1000 + (snd remaining + 999) sdiv 1000))"

text \<open>
  \<open>acc\<close> holds the bytes received so far and \<open>nBytes\<close> counts those still missing. The timeout part of
  the loop is \<open>wait_readable\<close>.
\<close>

definition wait_readable :: "'o sock_os \<Rightarrow> timeval option \<Rightarrow> ('o socket_peer, unit) proc" where
  "wait_readable os deadline =
     (case deadline of None \<Rightarrow> ret ()
      | Some endtime \<Rightarrow>
          bindp (sys_call (os_gettimeofday os)) (\<lambda>now.
          bindp (SocketPeer_poll os True False False False (remaining_ms endtime now)) (\<lambda>(_, read_status, _).
            if read_status then ret ()
            else raise (PeerException ETIME TIMEOUT ''SocketPeer::receive_all: Timeout expire''))))"

definition catch_disconnect :: "('s, byte list) proc \<Rightarrow> ('s, byte list) proc" where
  "catch_disconnect m s = (case m s of (Inl (PeerDisconnectException _), s') \<Rightarrow> (Inr [], s') | r \<Rightarrow> r)"

function receive_all_loop ::
  "'o sock_os \<Rightarrow> bool \<Rightarrow> timeval option \<Rightarrow> byte list \<Rightarrow> nat \<Rightarrow> ('o socket_peer, byte list option) proc" where
  "receive_all_loop os buffer deadline acc nBytes p =
     (if nBytes = 0 then ret (Some acc) p
      else bindp (wait_readable os deadline) (\<lambda>_.
        bindp (catch_disconnect (SocketPeer_receive os buffer nBytes)) (\<lambda>b.
          if b = [] then
            if acc = [] then ret None
            else throw_disconnect ''SocketPeer::receive_all partial receive''
          else if length b \<le> nBytes then receive_all_loop os buffer deadline (acc @ b) (nBytes - length b)
          else raise (Undefined ''receive: more bytes than the buffer holds''))) p)"
  by pat_completeness auto
termination by (relation "measure (\<lambda>(os, buffer, deadline, acc, nBytes, p). nBytes)") auto

declare receive_all_loop.simps [simp del]

text \<open>\<open>Some\<close> the bytes for true, \<open>None\<close> for false.\<close>

definition SocketPeer_receive_all :: "'o sock_os \<Rightarrow> bool \<Rightarrow> nat \<Rightarrow> u32 \<Rightarrow> ('o socket_peer, byte list option) proc" where
  "SocketPeer_receive_all os buffer nBytes timeoutMs =
     (if timeoutMs > 0 then
        bindp (sys_call (os_gettimeofday os)) (\<lambda>now.
          receive_all_loop os buffer (Some (timeradd now (timeval_of_ms timeoutMs))) [] nBytes)
      else receive_all_loop os buffer None [] nBytes)"

definition Peer_receive_all_or_throw ::
  "'o sock_os \<Rightarrow> bool \<Rightarrow> nat \<Rightarrow> string \<Rightarrow> u32 \<Rightarrow> ('o socket_peer, byte list) proc" where
  "Peer_receive_all_or_throw os buffer nBytes msg timeoutMs =
     bindp (SocketPeer_receive_all os buffer nBytes timeoutMs) (\<lambda>r.
       case r of None \<Rightarrow> throw_disconnect msg | Some b \<Rightarrow> ret b)"

subsection \<open>A peer as a source and a sink\<close>

definition PeerSourceAndSink_source :: "'o sock_os \<Rightarrow> 'o socket_peer data_source" where
  "PeerSourceAndSink_source os =
     \<lparr>src_read = (\<lambda>n. Peer_receive_all_or_throw os True n ''Source read'' 0),
      src_skip = (\<lambda>_. raise (PeerException E_none INVALID_OPERATION ''Skip not supported for Peer source'')),
      src_bytesRead = sp_bytesRead\<rparr>"

definition PeerSourceAndSink_sink :: "'o sock_os \<Rightarrow> 'o socket_peer data_sink" where
  "PeerSourceAndSink_sink os =
     \<lparr>snk_write = (\<lambda>d. seqp (Peer_send_or_throw os (Some d) (length d) ''Sink write'') (ret (length d))),
      snk_flush = ret (),
      snk_bytesWritten = sp_bytesWritten\<rparr>"

definition SocketPeer_ops :: "'o sock_os \<Rightarrow> 'o socket_peer peer_ops" where
  "SocketPeer_ops os =
     \<lparr>pr_source = PeerSourceAndSink_source os, pr_sink = PeerSourceAndSink_sink os,
      pr_threadSafeShutdown = SocketPeer_threadSafeShutdown os\<rparr>"

subsection \<open>Accepting connections\<close>

text \<open>
  The loop of \<open>acceptAll\<close>, with the peers stored so far. It need not end: a connection whose socket
  cannot be made blocking is dropped and the next one awaited.
\<close>

partial_function (option) acceptAll_loop ::
  "'o sock_os \<Rightarrow> nat \<Rightarrow> 'o socket_peer list \<Rightarrow> 'o socket_peer \<Rightarrow> ((exn + 'o socket_peer list) \<times> 'o socket_peer) option" where
  "acceptAll_loop os maxPeers peers p =
     (case accept_ignore_interrupts os (sp_socket p) p of
        (Inl x, p1) \<Rightarrow> Some (Inl x, p1)
      | (Inr (Inl e), p1) \<Rightarrow>
          Some (if e = EAGAIN then Inr peers else Inl (socket_exn os ''SocketPeer::acceptAll: '' e), p1)
      | (Inr (Inr fd), p1) \<Rightarrow>
          (case os_nonblock os fd False (sp_os p1) of
             (Inl e, o2) \<Rightarrow>
               (case close_ignore_interrupts os fd (p1\<lparr>sp_os := o2\<rparr>) of
                  (Inl x, p2) \<Rightarrow> Some (Inl x, p2)
                | (Inr _, p2) \<Rightarrow>
                    if length peers < maxPeers then acceptAll_loop os maxPeers peers p2 else Some (Inr peers, p2))
           | (Inr _, o2) \<Rightarrow>
               (case SocketPeer_new os fd o2 of
                  (Inl x, o3) \<Rightarrow> Some (Inl x, p1\<lparr>sp_os := o3\<rparr>)
                | (Inr q, o3) \<Rightarrow>
                    if Suc (length peers) < maxPeers
                    then acceptAll_loop os maxPeers (peers @ [q]) (p1\<lparr>sp_os := o3\<rparr>)
                    else Some (Inr (peers @ [q]), p1\<lparr>sp_os := o3\<rparr>))))"

declare acceptAll_loop.simps [code]

definition SocketPeer_acceptAll :: "'o sock_os \<Rightarrow> nat \<Rightarrow> ('o socket_peer, 'o socket_peer list) proc" where
  "SocketPeer_acceptAll os nPeers p =
     (if sp_socket p = ARRAS_INVALID_SOCKET
      then raise (InvalidParameterError ''Attempted accept on a uninitialized peer'') p
      else if \<not> sp_isListening p
      then raise (InvalidParameterError (''Attempted accept on a socket which isn'' @ [CHR 0x27] @ ''t listening'')) p
      else case acceptAll_loop os nPeers [] p of
        None \<Rightarrow> (Inl (NoReturn ''accepting forever''), p)
      | Some r \<Rightarrow> r)"

definition SocketPeer_accept :: "'o sock_os \<Rightarrow> nat \<Rightarrow> u32 \<Rightarrow> ('o socket_peer, 'o socket_peer list) proc" where
  "SocketPeer_accept os nPeers timeoutMs p =
     (if sp_socket p = ARRAS_INVALID_SOCKET
      then raise (InvalidParameterError ''Attempted accept on a uninitialized peer'') p
      else if \<not> sp_isListening p
      then raise (InvalidParameterError (''Attempted accept on a socket which isn'' @ [CHR 0x27] @ ''t listening'')) p
      else bindp (poll_timeout os (sp_socket p) True False timeoutMs) (\<lambda>r.
        case r of
          Inl e \<Rightarrow> fail_shutdown os (socket_exn os ''SocketPeer::accept: '' e)
        | Inr None \<Rightarrow> ret []
        | Inr (Some _) \<Rightarrow> SocketPeer_acceptAll os nPeers) p)"

subsection \<open>Addresses\<close>

definition SocketPeer_enableKeepAlive :: "'o sock_os \<Rightarrow> ('o socket_peer, unit) proc" where
  "SocketPeer_enableKeepAlive os =
     bindp (gets sp_socket) (\<lambda>fd.
     bindp (sys_call (os_setsockopt os fd Opt_KEEPALIVE)) (\<lambda>r.
       case r of
         Inl e \<Rightarrow> fail_shutdown os (socket_exn os (''Couldn'' @ [CHR 0x27] @ ''t enable keepalive: '') e)
       | Inr _ \<Rightarrow>
           seqp (sys_call (os_setsockopt os fd (Opt_KEEPIDLE 300)))
           (seqp (sys_call (os_setsockopt os fd (Opt_KEEPINTVL 75)))
           (seqp (sys_call (os_setsockopt os fd (Opt_KEEPCNT 9))) (ret ())))))"

text \<open>
  A step of the set-up of a socket: a system call on it, and what is done with its error. \<open>setup_call\<close>
  gives the socket up before it throws.
\<close>

definition socket_call :: "(int \<Rightarrow> 'o \<Rightarrow> (errno + 'a) \<times> 'o) \<Rightarrow> (errno \<Rightarrow> ('o socket_peer, 'a) proc) \<Rightarrow> ('o socket_peer, 'a) proc" where
  "socket_call call failed =
     bindp (gets sp_socket) (\<lambda>fd. bindp (sys_call (call fd)) (\<lambda>r. case r of Inl e \<Rightarrow> failed e | Inr a \<Rightarrow> ret a))"

definition setup_call ::
  "'o sock_os \<Rightarrow> (int \<Rightarrow> 'o \<Rightarrow> (errno + 'a) \<times> 'o) \<Rightarrow> (errno \<Rightarrow> exn) \<Rightarrow> ('o socket_peer, 'a) proc" where
  "setup_call os call ex = socket_call call (\<lambda>e. fail_shutdown os (ex e))"

definition socket_create :: "'o sock_os \<Rightarrow> bool \<Rightarrow> string \<Rightarrow> ('o socket_peer, unit) proc" where
  "socket_create os unix_domain msg =
     bindp (sys_call (os_socket os unix_domain)) (\<lambda>r.
       case r of
         Inl e \<Rightarrow> seqp (upd (\<lambda>p. p\<lparr>sp_socket := ARRAS_INVALID_SOCKET\<rparr>)) (raise (socket_exn os msg e))
       | Inr fd \<Rightarrow> upd (\<lambda>p. p\<lparr>sp_socket := fd\<rparr>))"

definition UNIX_PATH_MAX :: nat where
  "UNIX_PATH_MAX = 108"

text \<open>\<open>IPCSocketPeer\<close>: the name of the socket file is removed by the destructor.\<close>

definition quoted_msg :: "string \<Rightarrow> string \<Rightarrow> string \<Rightarrow> string" where
  "quoted_msg a name b = a @ [CHR 0x27] @ name @ [CHR 0x27] @ b"

definition check_ipc_name :: "string \<Rightarrow> ('s, unit) proc" where
  "check_ipc_name name =
     (if name = [] then raise (InvalidParameterError ''IPC name is empty'')
      else if length name > UNIX_PATH_MAX - 1
      then raise (InvalidParameterError ''IPC name too long. Must be 107 chars or fewer.'')
      else ret ())"

record 'o ipc_peer =
  ip_peer :: "'o socket_peer"
  ip_socketName :: string

definition IPCSocketPeer_new :: "'o \<Rightarrow> 'o ipc_peer" where
  "IPCSocketPeer_new os = \<lparr>ip_peer = no_socket os, ip_socketName = []\<rparr>"

definition ip_zoom :: "('o socket_peer, 'a) proc \<Rightarrow> ('o ipc_peer, 'a) proc" where
  "ip_zoom = zoom ip_peer (\<lambda>p q. q\<lparr>ip_peer := p\<rparr>)"

definition IPCSocketPeer_listen :: "'o sock_os \<Rightarrow> string \<Rightarrow> int \<Rightarrow> ('o ipc_peer, unit) proc" where
  "IPCSocketPeer_listen os name maxPending q =
     (if sp_socket (ip_peer q) \<noteq> ARRAS_INVALID_SOCKET
      then raise (InvalidParameterError ''SocketPeer already in use'') q
      else if maxPending < 1
      then raise (InvalidParameterError ''Max pending connections must be a positive number'') q
      else seqp (check_ipc_name name)
          (seqp (ip_zoom (seqp (socket_create os True ''Could not create IPC socket for listening: '')
            (seqp (SocketPeer_enableKeepAlive os)
            (seqp (setup_call os (\<lambda>fd. os_nonblock os fd True)
                (\<lambda>e. PeerException e (getCodeFromSocketError e)
                   (quoted_msg ''Could not set socket '' name '' to non-blocking mode'')))
            (setup_call os (\<lambda>fd. os_bind os fd (Addr_unix name))
                (\<lambda>e. PeerException e (getCodeFromSocketError e)
                   (quoted_msg ''Could not bind to socket file '' name [])))))))
          (seqp (upd (\<lambda>q. q\<lparr>ip_socketName := name\<rparr>))
          (ip_zoom (seqp (setup_call os (\<lambda>fd. os_listen os fd maxPending) (socket_exn os ''Failed to listen on socket: ''))
            (upd (\<lambda>p. p\<lparr>sp_isListening := True\<rparr>)))))) q)"

definition IPCSocketPeer_connect :: "'o sock_os \<Rightarrow> string \<Rightarrow> ('o ipc_peer, unit) proc" where
  "IPCSocketPeer_connect os name q =
     (if sp_socket (ip_peer q) \<noteq> ARRAS_INVALID_SOCKET
      then raise (InvalidParameterError ''IPCSocketPeer already has a socket assigned'') q
      else seqp (check_ipc_name name)
          (ip_zoom (seqp (socket_create os True ''Could not create socket for IPC connection: '')
            (seqp (SocketPeer_enableKeepAlive os)
            (socket_call (\<lambda>fd. os_connect os fd (Addr_unix name)) (\<lambda>e.
               seqp (bindp (gets sp_socket) (\<lambda>fd. sys_call (os_close os fd)))
               (seqp (upd (\<lambda>p. p\<lparr>sp_socket := ARRAS_INVALID_SOCKET\<rparr>))
               (raise (socket_exn os ''Could not connect to IPC endpoint: '' e)))))))) q)"

definition IPCSocketPeer_delete :: "'o sock_os \<Rightarrow> ('o ipc_peer, unit) proc" where
  "IPCSocketPeer_delete os =
     seqp (bindp (gets ip_socketName) (\<lambda>name. ip_zoom (upd (\<lambda>p. p\<lparr>sp_os := os_unlink os name (sp_os p)\<rparr>))))
     (ip_zoom (SocketPeer_shutdown os))"

record 'o inet_peer =
  in_peer :: "'o socket_peer"
  in_IPv4 :: u32
  in_Port :: u16
  in_LocalPort :: u16

definition InetSocketPeer_new :: "'o \<Rightarrow> 'o inet_peer" where
  "InetSocketPeer_new os = \<lparr>in_peer = no_socket os, in_IPv4 = 0, in_Port = 0, in_LocalPort = 0\<rparr>"

definition in_zoom :: "('o socket_peer, 'a) proc \<Rightarrow> ('o inet_peer, 'a) proc" where
  "in_zoom = zoom in_peer (\<lambda>p q. q\<lparr>in_peer := p\<rparr>)"

definition InetSocketPeer_listen :: "'o sock_os \<Rightarrow> u16 \<Rightarrow> int \<Rightarrow> ('o inet_peer, unit) proc" where
  "InetSocketPeer_listen os port maxPending q =
     (if sp_socket (in_peer q) \<noteq> ARRAS_INVALID_SOCKET
      then raise (InvalidParameterError ''InetSocketPeer already has an assigned socket'') q
      else seqp (in_zoom (seqp (socket_create os False ''Could not create listening socket: '')
            (seqp (setup_call os (\<lambda>fd. os_setsockopt os fd Opt_REUSEADDR)
                (socket_exn os ''Could not set reuse-address option on listening socket: ''))
            (seqp (setup_call os (\<lambda>fd. os_setsockopt os fd Opt_NODELAY)
                (socket_exn os ''Could not disable Nagle on listening socket: ''))
            (seqp (setup_call os (\<lambda>fd. os_nonblock os fd True)
                (socket_exn os ''Could not set socket to non-blocking mode: ''))
            (setup_call os (\<lambda>fd. os_bind os fd (Addr_inet 0 port))
                (socket_exn os ''Could not bind to socket for listening: '')))))))
          (seqp (if port = 0
             then bindp (in_zoom (setup_call os (os_getsockname os) (socket_exn os ''Could not get port number'')))
               (\<lambda>local. upd (\<lambda>q. q\<lparr>in_LocalPort := local\<rparr>))
             else upd (\<lambda>q. q\<lparr>in_LocalPort := port\<rparr>))
          (in_zoom (seqp (setup_call os (\<lambda>fd. os_listen os fd maxPending) (socket_exn os ''Failed to listen on socket: ''))
            (upd (\<lambda>p. p\<lparr>sp_isListening := True\<rparr>))))) q)"

text \<open>The look-up is tried again, at most six times, unless it fails with \<open>EAI_AGAIN\<close>.\<close>

function lookup_loop :: "'o sock_os \<Rightarrow> string \<Rightarrow> nat \<Rightarrow> ('o socket_peer, u32) proc" where
  "lookup_loop os host retries =
     bindp (sys_call (os_getaddrinfo os host)) (\<lambda>r.
       case r of
         Inr ip \<Rightarrow> ret ip
       | Inl status \<Rightarrow>
           if status = EAI_AGAIN \<or> retries > 5
           then fail_shutdown os (PeerException E_none (getCodeFromGetAddrInfoError status)
                  (quoted_msg ''Could not find hostname '' host '': ''))
           else lookup_loop os host (Suc retries))"
  by pat_completeness auto
termination by (relation "measure (\<lambda>(os, host, retries). 6 - retries)") auto

declare lookup_loop.simps [simp del]

definition InetSocketPeer_connect :: "'o sock_os \<Rightarrow> string \<Rightarrow> u16 \<Rightarrow> ('o inet_peer, unit) proc" where
  "InetSocketPeer_connect os host port q =
     (if sp_socket (in_peer q) \<noteq> ARRAS_INVALID_SOCKET
      then raise (InvalidParameterError ''InetSocketPeer already has a socket assigned'') q
      else if port = 0 then raise (InvalidParameterError ''InetSocketPeer cannot connect to a 0 port'') q
      else if host = [] then raise (InvalidParameterError ''InetSocketPeer cannot connect empty hostname'') q
      else bindp (in_zoom (seqp (socket_create os False ''Could not create socket for connect: '')
            (seqp (bindp (gets sp_socket) (\<lambda>fd. sys_call (os_close os fd)))
            (seqp (upd (\<lambda>p. p\<lparr>sp_socket := ARRAS_INVALID_SOCKET\<rparr>))
            (bindp (lookup_loop os host 0) (\<lambda>ip.
             seqp (socket_create os False ''Could not create socket for connect: '')
            (seqp (SocketPeer_enableKeepAlive os)
            (seqp (socket_call (\<lambda>fd. os_setsockopt os fd Opt_NODELAY)
                (\<lambda>e. raise (socket_exn os ''Could not disable Nagle on connecting socket: '' e)))
            (seqp (setup_call os (\<lambda>fd. os_connect os fd (Addr_inet ip port))
                (socket_exn os ''Could not connect to remote endpoint: ''))
            (ret ip)))))))))) (\<lambda>ip.
          seqp (upd (\<lambda>q. q\<lparr>in_IPv4 := ip, in_Port := port\<rparr>))
          (bindp (in_zoom (setup_call os (os_getsockname os) (socket_exn os ''Could not get port number''))) (\<lambda>local.
           upd (\<lambda>q. q\<lparr>in_LocalPort := local\<rparr>)))) q)"

subsection \<open>The stream between two sockets\<close>

text \<open>
  What a stream socket does, on the operating system's state: \<open>onwire\<close> is what was sent on \<open>tx\<close> and is
  not yet received on \<open>rx\<close>. Any call may fail, a send may take a part of the data and a receive give a
  part of it; \<open>patience\<close> bounds how often calls are interrupted.
\<close>

definition stream_honest ::
  "'o sock_os \<Rightarrow> int \<Rightarrow> int \<Rightarrow> ('o \<Rightarrow> bool) \<Rightarrow> ('o \<Rightarrow> byte list) \<Rightarrow> ('o \<Rightarrow> nat) \<Rightarrow> bool" where
  "stream_honest os tx rx I onwire patience \<longleftrightarrow>
     (\<forall>o1 d. I o1 \<longrightarrow> (case os_send os tx d o1 of
          (Inl e, o2) \<Rightarrow> I o2 \<and> onwire o2 = onwire o1 \<and> (e = EINTR \<longrightarrow> patience o2 < patience o1)
        | (Inr n, o2) \<Rightarrow> I o2 \<and> n \<le> length d \<and> onwire o2 = onwire o1 @ take n d)) \<and>
     (\<forall>o1 n. I o1 \<longrightarrow> (case os_recv os rx n False o1 of
          (Inl e, o2) \<Rightarrow> I o2 \<and> onwire o2 = onwire o1 \<and> (e = EINTR \<longrightarrow> patience o2 < patience o1)
        | (Inr b, o2) \<Rightarrow> I o2 \<and> length b \<le> n \<and> onwire o1 = b @ onwire o2))"

text \<open>A connection that stays up: no other errors, a send takes something, a receive of what there is gives something.\<close>

definition stream_ok ::
  "'o sock_os \<Rightarrow> int \<Rightarrow> int \<Rightarrow> ('o \<Rightarrow> bool) \<Rightarrow> ('o \<Rightarrow> byte list) \<Rightarrow> ('o \<Rightarrow> nat) \<Rightarrow> bool" where
  "stream_ok os tx rx I onwire patience \<longleftrightarrow> stream_honest os tx rx I onwire patience \<and>
     (\<forall>o1 d. I o1 \<and> d \<noteq> [] \<longrightarrow> (case fst (os_send os tx d o1) of Inl e \<Rightarrow> e = EINTR | Inr n \<Rightarrow> 0 < n)) \<and>
     (\<forall>o1 n. I o1 \<and> 0 < n \<and> onwire o1 \<noteq> [] \<longrightarrow>
        (case fst (os_recv os rx n False o1) of Inl e \<Rightarrow> e = EINTR | Inr b \<Rightarrow> b \<noteq> []))"

lemma retry_ends:
  assumes step: "\<And>o1 r o2. J o1 \<Longrightarrow> call o1 = (r, o2) \<Longrightarrow>
      (if r = Inl EINTR then J o2 \<and> (pat o2 :: nat) < pat o1 else Q r o2)"
    and "J o1"
  shows "\<exists>r o2. retry call o1 = Some (r, o2) \<and> r \<noteq> Inl EINTR \<and> Q r o2"
  using assms(2)
proof (induction "pat o1" arbitrary: o1 rule: less_induct)
  case less
  obtain r o2 where c: "call o1 = (r, o2)" by fastforce
  note st = step [OF less.prems c]
  show ?case
  proof (cases "r = Inl EINTR")
    case True
    with st less.hyps [of o2] show ?thesis by (simp add: retry.simps [of call o1] c)
  next
    case False
    with st show ?thesis by (simp add: retry.simps [of call o1] c)
  qed
qed

text \<open>A connected peer without encryption.\<close>

definition peer_on :: "int \<Rightarrow> ('o \<Rightarrow> bool) \<Rightarrow> 'o socket_peer \<Rightarrow> bool" where
  "peer_on fd I p \<longleftrightarrow> sp_socket p = fd \<and> sp_encryption p = None \<and> \<not> sp_isListening p \<and> I (sp_os p)"

lemma honest_send:
  assumes "stream_honest os tx rx I onwire pat" and "I o1" and "os_send os tx d o1 = (r, o2)"
  shows "I o2" and "case r of Inl e \<Rightarrow> onwire o2 = onwire o1 \<and> (e = EINTR \<longrightarrow> pat o2 < pat o1)
     | Inr n \<Rightarrow> n \<le> length d \<and> onwire o2 = onwire o1 @ take n d"
  using assms(1) [unfolded stream_honest_def, THEN conjunct1, rule_format, OF assms(2), of d] assms(3)
  by (auto split: sum.splits)

lemma honest_recv:
  assumes "stream_honest os tx rx I onwire pat" and "I o1" and "os_recv os rx n False o1 = (r, o2)"
  shows "I o2" and "case r of Inl e \<Rightarrow> onwire o2 = onwire o1 \<and> (e = EINTR \<longrightarrow> pat o2 < pat o1)
     | Inr b \<Rightarrow> length b \<le> n \<and> onwire o1 = b @ onwire o2"
  using assms(1) [unfolded stream_honest_def, THEN conjunct2, rule_format, OF assms(2), of n] assms(3)
  by (auto split: sum.splits)

lemma send_ignore_interrupts_honest:
  assumes h: "stream_honest os tx rx I onwire pat" and "I (sp_os p)"
  shows "\<exists>r o2. send_ignore_interrupts os tx d p = (Inr r, p\<lparr>sp_os := o2\<rparr>) \<and> I o2 \<and> r \<noteq> Inl EINTR \<and>
    (case r of Inl e \<Rightarrow> onwire o2 = onwire (sp_os p) | Inr n \<Rightarrow> n \<le> length d \<and> onwire o2 = onwire (sp_os p) @ take n d)"
proof -
  let ?Q = "\<lambda>r o2. I o2 \<and> (case r of Inl e \<Rightarrow> onwire o2 = onwire (sp_os p)
      | Inr n \<Rightarrow> n \<le> length d \<and> onwire o2 = onwire (sp_os p) @ take n d)"
  have "\<exists>r o2. retry (os_send os tx d) (sp_os p) = Some (r, o2) \<and> r \<noteq> Inl EINTR \<and> ?Q r o2"
  proof (rule retry_ends [where J = "\<lambda>s. I s \<and> onwire s = onwire (sp_os p)" and pat = pat])
    fix o1 r o2
    assume "I o1 \<and> onwire o1 = onwire (sp_os p)" and "os_send os tx d o1 = (r, o2)"
    then show "if r = Inl EINTR then (I o2 \<and> onwire o2 = onwire (sp_os p)) \<and> pat o2 < pat o1 else ?Q r o2"
      using honest_send [OF h, of o1 d r o2] by (cases r) auto
  qed (use assms in simp)
  then show ?thesis by (auto simp: send_ignore_interrupts_def sys_retry_def)
qed

lemma recv_ignore_interrupts_honest:
  assumes h: "stream_honest os tx rx I onwire pat" and "I (sp_os p)"
  shows "\<exists>r o2. recv_ignore_interrupts os rx n False p = (Inr r, p\<lparr>sp_os := o2\<rparr>) \<and> I o2 \<and> r \<noteq> Inl EINTR \<and>
    (case r of Inl e \<Rightarrow> onwire o2 = onwire (sp_os p) | Inr b \<Rightarrow> length b \<le> n \<and> onwire (sp_os p) = b @ onwire o2)"
proof -
  let ?Q = "\<lambda>r o2. I o2 \<and> (case r of Inl e \<Rightarrow> onwire o2 = onwire (sp_os p)
      | Inr b \<Rightarrow> length b \<le> n \<and> onwire (sp_os p) = b @ onwire o2)"
  have "\<exists>r o2. retry (os_recv os rx n False) (sp_os p) = Some (r, o2) \<and> r \<noteq> Inl EINTR \<and> ?Q r o2"
  proof (rule retry_ends [where J = "\<lambda>s. I s \<and> onwire s = onwire (sp_os p)" and pat = pat])
    fix o1 r o2
    assume "I o1 \<and> onwire o1 = onwire (sp_os p)" and "os_recv os rx n False o1 = (r, o2)"
    then show "if r = Inl EINTR then (I o2 \<and> onwire o2 = onwire (sp_os p)) \<and> pat o2 < pat o1 else ?Q r o2"
      using honest_recv [OF h, of o1 n r o2] by (cases r) auto
  qed (use assms in simp)
  then show ?thesis by (auto simp: recv_ignore_interrupts_def sys_retry_def)
qed

text \<open>
  The sending loop on any honest stream: all of the data, none of it with the answer false, or an
  exception after a proper prefix.
\<close>

lemma send_loop_honest:
  assumes h: "stream_honest os tx rx I onwire pat"
  shows "peer_on tx I p \<Longrightarrow> \<exists>r o2. send_loop os offset d p = (r, p\<lparr>sp_os := o2\<rparr>) \<and> I o2 \<and>
    (case r of
       Inr (True, left) \<Rightarrow> left = 0 \<and> onwire o2 = onwire (sp_os p) @ d
     | Inr (False, left) \<Rightarrow> offset = 0 \<and> onwire o2 = onwire (sp_os p)
     | Inl e \<Rightarrow> is_std_exception e \<and> (\<exists>k < length d. onwire o2 = onwire (sp_os p) @ take k d))"
proof (induction "length d" arbitrary: offset d p rule: less_induct)
  case less
  show ?case
  proof (cases "d = []")
    case True
    then have "send_loop os offset d p = (Inr (True, 0), p\<lparr>sp_os := sp_os p\<rparr>)"
      by (simp add: send_loop.simps [of os offset "[]"])
    then show ?thesis using True less.prems
      by (intro exI [of _ "Inr (True, 0)"] exI [of _ "sp_os p"]) (simp add: peer_on_def)
  next
    case False
    have p: "sp_socket p = tx" "I (sp_os p)" using less.prems by (simp_all add: peer_on_def)
    obtain r o2 where s: "send_ignore_interrupts os tx d p = (Inr r, p\<lparr>sp_os := o2\<rparr>)" "I o2"
      and r: "case r of Inl e \<Rightarrow> onwire o2 = onwire (sp_os p)
        | Inr n \<Rightarrow> n \<le> length d \<and> onwire o2 = onwire (sp_os p) @ take n d"
      using send_ignore_interrupts_honest [OF h p(2), of d] by blast
    note run = send_loop.simps [of os offset d p] False p(1) s(1)
    show ?thesis
    proof (cases r)
      case (Inl e)
      with r False show ?thesis
        by (auto simp: run socket_exn_def is_std_exception_def s(2) intro!: exI [of _ o2] exI [of _ 0])
    next
      case (Inr n)
      with r have n: "n \<le> length d" "onwire o2 = onwire (sp_os p) @ take n d" by simp_all
      show ?thesis
      proof (cases "n = 0")
        case True
        with Inr n False show ?thesis
          by (auto simp: run throw_disconnect_def is_std_exception_def s(2) intro!: exI [of _ o2] exI [of _ 0])
      next
        case nz: False
        have po: "peer_on tx I (p\<lparr>sp_os := o2\<rparr>)" using less.prems s(2) by (simp add: peer_on_def)
        have len: "length (drop n d) < length d" using nz False by simp
        have upd: "\<And>x. p\<lparr>sp_os := o2\<rparr>\<lparr>sp_os := x\<rparr> = p\<lparr>sp_os := x\<rparr>" "sp_os (p\<lparr>sp_os := o2\<rparr>) = o2" by simp_all
        obtain r' o3 where ih: "send_loop os (offset + n) (drop n d) (p\<lparr>sp_os := o2\<rparr>) = (r', p\<lparr>sp_os := o3\<rparr>)"
            "I o3" "case r' of
               Inr (True, left) \<Rightarrow> left = 0 \<and> onwire o3 = onwire o2 @ drop n d
             | Inr (False, left) \<Rightarrow> offset + n = 0 \<and> onwire o3 = onwire o2
             | Inl e \<Rightarrow> is_std_exception e \<and> (\<exists>k < length (drop n d). onwire o3 = onwire o2 @ take k (drop n d))"
          using less.hyps [OF len po, of "offset + n"] unfolding upd by blast
        have "send_loop os offset d p = (r', p\<lparr>sp_os := o3\<rparr>)"
          using run Inr nz n(1) ih(1) by simp
        moreover have "case r' of
               Inr (True, left) \<Rightarrow> left = 0 \<and> onwire o3 = onwire (sp_os p) @ d
             | Inr (False, left) \<Rightarrow> offset = 0 \<and> onwire o3 = onwire (sp_os p)
             | Inl e \<Rightarrow> is_std_exception e \<and> (\<exists>k < length d. onwire o3 = onwire (sp_os p) @ take k d)"
        proof (cases r')
          case (Inl e)
          then obtain k where "is_std_exception e" "k < length d - n" "onwire o3 = onwire o2 @ take k (drop n d)"
            using ih(3) by auto
          with Inl n show ?thesis by (auto simp: take_add intro!: exI [of _ "n + k"])
        qed (use ih(3) n nz in \<open>auto split: bool.splits\<close>)
        ultimately show ?thesis using ih(2) by blast
      qed
    qed
  qed
qed

lemma SocketPeer_send_honest:
  assumes h: "stream_honest os tx rx I onwire pat" and p: "peer_on tx I p"
  shows "\<exists>r o2. SocketPeer_send os (Some d) (length d) p = (r, p\<lparr>sp_os := o2\<rparr>) \<and> I o2 \<and>
    (case r of Inr ok \<Rightarrow> onwire o2 = onwire (sp_os p) @ (if ok then d else [])
     | Inl e \<Rightarrow> is_std_exception e \<and> (\<exists>k < length d. onwire o2 = onwire (sp_os p) @ take k d))"
proof (cases "d = []")
  case True
  with p show ?thesis
    by (intro exI [of _ "Inr True"] exI [of _ "sp_os p"]) (simp add: SocketPeer_send_def peer_on_def)
next
  case False
  obtain r o2 where s: "send_loop os 0 d p = (r, p\<lparr>sp_os := o2\<rparr>)" "I o2"
    and r: "case r of
       Inr (True, left) \<Rightarrow> left = 0 \<and> onwire o2 = onwire (sp_os p) @ d
     | Inr (False, left) \<Rightarrow> (0::nat) = 0 \<and> onwire o2 = onwire (sp_os p)
     | Inl e \<Rightarrow> is_std_exception e \<and> (\<exists>k < length d. onwire o2 = onwire (sp_os p) @ take k d)"
    using send_loop_honest [OF h p, of 0 d] by blast
  have "SocketPeer_send os (Some d) (length d) p = (case r of Inl e \<Rightarrow> Inl e | Inr (ok, left) \<Rightarrow> Inr ok, p\<lparr>sp_os := o2\<rparr>)"
    using False p s(1) r by (auto simp: SocketPeer_send_def peer_on_def split: sum.splits bool.splits)
  moreover have "case (case r of Inl e \<Rightarrow> Inl e | Inr (ok, left) \<Rightarrow> Inr ok) of
       Inr ok \<Rightarrow> onwire o2 = onwire (sp_os p) @ (if ok then d else [])
     | Inl e \<Rightarrow> is_std_exception e \<and> (\<exists>k < length d. onwire o2 = onwire (sp_os p) @ take k d)"
    using r by (auto split: sum.splits bool.splits)
  ultimately show ?thesis using s(2) by blast
qed

lemma SocketPeer_receive_honest:
  assumes h: "stream_honest os tx rx I onwire pat" and p: "peer_on rx I p" and n: "0 < n"
  shows "\<exists>r p'. SocketPeer_receive os True n p = (r, p') \<and> peer_on rx I p' \<and>
    (case r of Inr b \<Rightarrow> length b \<le> n \<and> onwire (sp_os p) = b @ onwire (sp_os p') \<and> sp_bytesRead p' = sp_bytesRead p + length b
     | Inl e \<Rightarrow> is_std_exception e \<and> onwire (sp_os p') = onwire (sp_os p) \<and> (\<forall>m. e \<noteq> PeerDisconnectException m))"
proof -
  have q: "sp_socket p = rx" "sp_encryption p = None" "\<not> sp_isListening p" "I (sp_os p)"
    using p by (simp_all add: peer_on_def)
  obtain r o2 where s: "recv_ignore_interrupts os rx n False p = (Inr r, p\<lparr>sp_os := o2\<rparr>)" "I o2"
    and r: "case r of Inl e \<Rightarrow> onwire o2 = onwire (sp_os p) | Inr b \<Rightarrow> length b \<le> n \<and> onwire (sp_os p) = b @ onwire o2"
    using recv_ignore_interrupts_honest [OF h q(4), of n] by blast
  show ?thesis
  proof (cases r)
    case (Inl e)
    with r s q n show ?thesis
      by (simp add: SocketPeer_receive_def socket_exn_def is_std_exception_def peer_on_def)
  next
    case (Inr b)
    with r s q n show ?thesis
      by (simp add: SocketPeer_receive_def peer_on_def)
  qed
qed

text \<open>Receiving everything, without a timeout.\<close>

lemma receive_all_loop_honest:
  assumes h: "stream_honest os tx rx I onwire pat"
  shows "peer_on rx I p \<Longrightarrow> \<exists>r p'. receive_all_loop os True None acc n p = (r, p') \<and> peer_on rx I p' \<and>
    (case r of
       Inr (Some b) \<Rightarrow> (\<exists>c. b = acc @ c \<and> length c = n \<and> onwire (sp_os p) = c @ onwire (sp_os p') \<and>
         sp_bytesRead p' = sp_bytesRead p + n)
     | Inr None \<Rightarrow> acc = [] \<and> 0 < n \<and> onwire (sp_os p') = onwire (sp_os p)
     | Inl e \<Rightarrow> is_std_exception e \<and> (\<exists>c. length c < n \<and> onwire (sp_os p) = c @ onwire (sp_os p')))"
proof (induction n arbitrary: acc p rule: less_induct)
  case (less n)
  show ?case
  proof (cases "n = 0")
    case True
    with less.prems show ?thesis by (simp add: receive_all_loop.simps)
  next
    case False
    then obtain r p' where s: "SocketPeer_receive os True n p = (r, p')" "peer_on rx I p'"
      and r: "case r of Inr b \<Rightarrow> length b \<le> n \<and> onwire (sp_os p) = b @ onwire (sp_os p') \<and>
            sp_bytesRead p' = sp_bytesRead p + length b
        | Inl e \<Rightarrow> is_std_exception e \<and> onwire (sp_os p') = onwire (sp_os p) \<and> (\<forall>m. e \<noteq> PeerDisconnectException m)"
      using SocketPeer_receive_honest [OF h less.prems, of n] by auto
    note run = receive_all_loop.simps [of os True None acc n p] wait_readable_def
    have n0: "0 < n" using False by simp
    show ?thesis
    proof (cases r)
      case (Inl e)
      then have "catch_disconnect (SocketPeer_receive os True n) p = (Inl e, p')"
        using s(1) r by (cases e) (simp_all add: catch_disconnect_def)
      with Inl r s(2) n0 show ?thesis
        by (auto simp: run intro!: exI [of _ "[]"])
    next
      case (Inr b)
      then have c: "catch_disconnect (SocketPeer_receive os True n) p = (Inr b, p')"
        using s(1) by (simp add: catch_disconnect_def)
      have b: "length b \<le> n" "onwire (sp_os p) = b @ onwire (sp_os p')" "sp_bytesRead p' = sp_bytesRead p + length b"
        using Inr r by simp_all
      show ?thesis
      proof (cases "b = []")
        case True
        then have "receive_all_loop os True None acc n p = (if acc = [] then Inr None
            else Inl (PeerDisconnectException ''SocketPeer::receive_all partial receive''), p')"
          using c n0 by (simp add: run throw_disconnect_def)
        with True b s(2) n0 show ?thesis
          by (cases "acc = []") (auto simp: is_std_exception_def intro!: exI [of _ "[]"])
      next
        case nb: False
        then have "n - length b < n" using False by simp
        from less.IH [OF this s(2), of "acc @ b"] obtain r' q where
          ih: "receive_all_loop os True None (acc @ b) (n - length b) p' = (r', q)" "peer_on rx I q"
            "case r' of
               Inr (Some b') \<Rightarrow> (\<exists>c. b' = (acc @ b) @ c \<and> length c = n - length b \<and>
                 onwire (sp_os p') = c @ onwire (sp_os q) \<and> sp_bytesRead q = sp_bytesRead p' + (n - length b))
             | Inr None \<Rightarrow> acc @ b = [] \<and> 0 < n - length b \<and> onwire (sp_os q) = onwire (sp_os p')
             | Inl e \<Rightarrow> is_std_exception e \<and> (\<exists>c. length c < n - length b \<and> onwire (sp_os p') = c @ onwire (sp_os q))"
          by blast
        have "receive_all_loop os True None acc n p = (r', q)" using n0 c nb b(1) ih(1) by (simp add: run)
        moreover have "case r' of
               Inr (Some b') \<Rightarrow> (\<exists>c. b' = acc @ c \<and> length c = n \<and> onwire (sp_os p) = c @ onwire (sp_os q) \<and>
                 sp_bytesRead q = sp_bytesRead p + n)
             | Inr None \<Rightarrow> acc = [] \<and> 0 < n \<and> onwire (sp_os q) = onwire (sp_os p)
             | Inl e \<Rightarrow> is_std_exception e \<and> (\<exists>c. length c < n \<and> onwire (sp_os p) = c @ onwire (sp_os q))"
        proof (cases r')
          case (Inl e)
          with ih(3) obtain c where "is_std_exception e" "length c < n - length b" "onwire (sp_os p') = c @ onwire (sp_os q)"
            by auto
          with Inl b show ?thesis by (auto intro!: exI [of _ "b @ c"])
        next
          case (Inr o1)
          with ih(3) nb b show ?thesis by (cases o1) auto
        qed
        ultimately show ?thesis using ih(2) by blast
      qed
    qed
  qed
qed

text \<open>On a stream that stays up both transfers succeed.\<close>

lemma stream_ok_honest: "stream_ok os tx rx I onwire pat \<Longrightarrow> stream_honest os tx rx I onwire pat"
  by (simp add: stream_ok_def)

lemma send_loop_ok:
  assumes k: "stream_ok os tx rx I onwire pat"
  shows "peer_on tx I p \<Longrightarrow> \<exists>o2. send_loop os offset d p = (Inr (True, 0), p\<lparr>sp_os := o2\<rparr>) \<and> I o2 \<and>
    onwire o2 = onwire (sp_os p) @ d"
proof (induction "length d" arbitrary: offset d p rule: less_induct)
  case less
  show ?case
  proof (cases "d = []")
    case True
    with less.prems show ?thesis
      by (intro exI [of _ "sp_os p"]) (simp add: send_loop.simps [of os offset "[]"] peer_on_def)
  next
    case False
    have p: "sp_socket p = tx" "I (sp_os p)" using less.prems by (simp_all add: peer_on_def)
    let ?Q = "\<lambda>r o2. I o2 \<and> (\<exists>n. r = Inr n \<and> 0 < n \<and> n \<le> length d \<and> onwire o2 = onwire (sp_os p) @ take n d)"
    have "\<exists>r o2. retry (os_send os tx d) (sp_os p) = Some (r, o2) \<and> r \<noteq> Inl EINTR \<and> ?Q r o2"
    proof (rule retry_ends [where J = "\<lambda>s. I s \<and> onwire s = onwire (sp_os p)" and pat = pat])
      fix o1 r o2
      assume o1: "I o1 \<and> onwire o1 = onwire (sp_os p)" and c: "os_send os tx d o1 = (r, o2)"
      have "case r of Inl e \<Rightarrow> e = EINTR | Inr n \<Rightarrow> 0 < n"
        using k False o1 c unfolding stream_ok_def by (metis fst_conv)
      then show "if r = Inl EINTR then (I o2 \<and> onwire o2 = onwire (sp_os p)) \<and> pat o2 < pat o1 else ?Q r o2"
        using honest_send [OF stream_ok_honest [OF k], of o1 d r o2] o1 c by (cases r) auto
    qed (use p in simp)
    then obtain n o2 where s: "send_ignore_interrupts os tx d p = (Inr (Inr n), p\<lparr>sp_os := o2\<rparr>)" "I o2"
        "0 < n" "n \<le> length d" "onwire o2 = onwire (sp_os p) @ take n d"
      by (auto simp: send_ignore_interrupts_def sys_retry_def)
    have po: "peer_on tx I (p\<lparr>sp_os := o2\<rparr>)" using less.prems s(2) by (simp add: peer_on_def)
    have len: "length (drop n d) < length d" using s(3) False by simp
    have upd: "\<And>x. p\<lparr>sp_os := o2\<rparr>\<lparr>sp_os := x\<rparr> = p\<lparr>sp_os := x\<rparr>" "sp_os (p\<lparr>sp_os := o2\<rparr>) = o2" by simp_all
    obtain o3 where ih: "send_loop os (offset + n) (drop n d) (p\<lparr>sp_os := o2\<rparr>) = (Inr (True, 0), p\<lparr>sp_os := o3\<rparr>)"
        "I o3" "onwire o3 = onwire o2 @ drop n d"
      using less.hyps [OF len po, of "offset + n"] unfolding upd by blast
    have "send_loop os offset d p = (Inr (True, 0), p\<lparr>sp_os := o3\<rparr>)"
      using ih(1) s p(1) False by (simp add: send_loop.simps [of os offset d p])
    then show ?thesis using ih s(5) by (intro exI [of _ o3]) simp
  qed
qed

lemma receive_all_loop_ok:
  assumes k: "stream_ok os tx rx I onwire pat"
  shows "peer_on rx I p \<Longrightarrow> n \<le> length (onwire (sp_os p)) \<Longrightarrow>
    \<exists>p'. receive_all_loop os True None acc n p = (Inr (Some (acc @ take n (onwire (sp_os p)))), p') \<and>
      peer_on rx I p' \<and> onwire (sp_os p') = drop n (onwire (sp_os p)) \<and> sp_bytesRead p' = sp_bytesRead p + n"
proof (induction n arbitrary: acc p rule: less_induct)
  case (less n)
  show ?case
  proof (cases "n = 0")
    case True
    with less.prems show ?thesis by (simp add: receive_all_loop.simps)
  next
    case False
    have p: "sp_socket p = rx" "sp_encryption p = None" "\<not> sp_isListening p" "I (sp_os p)"
      using less.prems(1) by (simp_all add: peer_on_def)
    have ne: "onwire (sp_os p) \<noteq> []" using less.prems(2) False by auto
    let ?Q = "\<lambda>r o2. I o2 \<and> (\<exists>b. r = Inr b \<and> b \<noteq> [] \<and> length b \<le> n \<and> onwire (sp_os p) = b @ onwire o2)"
    have "\<exists>r o2. retry (os_recv os rx n False) (sp_os p) = Some (r, o2) \<and> r \<noteq> Inl EINTR \<and> ?Q r o2"
    proof (rule retry_ends [where J = "\<lambda>s. I s \<and> onwire s = onwire (sp_os p)" and pat = pat])
      fix o1 r o2
      assume o1: "I o1 \<and> onwire o1 = onwire (sp_os p)" and c: "os_recv os rx n False o1 = (r, o2)"
      have "case fst (os_recv os rx n False o1) of Inl e \<Rightarrow> e = EINTR | Inr b \<Rightarrow> b \<noteq> []"
        using k [unfolded stream_ok_def, THEN conjunct2, THEN conjunct2, rule_format, of o1 n] False o1 ne by simp
      then show "if r = Inl EINTR then (I o2 \<and> onwire o2 = onwire (sp_os p)) \<and> pat o2 < pat o1 else ?Q r o2"
        using honest_recv [OF stream_ok_honest [OF k], of o1 n r o2] o1 c by (cases r) auto
    qed (use p in simp)
    then obtain b o2 where s: "recv_ignore_interrupts os rx n False p = (Inr (Inr b), p\<lparr>sp_os := o2\<rparr>)" "I o2"
        "b \<noteq> []" "length b \<le> n" "onwire (sp_os p) = b @ onwire o2"
      by (auto simp: recv_ignore_interrupts_def sys_retry_def)
    define p1 where "p1 = p\<lparr>sp_os := o2, sp_bytesRead := sp_bytesRead p + length b\<rparr>"
    have c: "catch_disconnect (SocketPeer_receive os True n) p = (Inr b, p1)"
      using s(1) p False by (simp add: catch_disconnect_def SocketPeer_receive_def p1_def)
    have p1: "peer_on rx I p1" "sp_os p1 = o2" "sp_bytesRead p1 = sp_bytesRead p + length b"
      using p s(2) by (simp_all add: p1_def peer_on_def)
    have "n - length b < n" "n - length b \<le> length (onwire (sp_os p1))"
      using False s(3,5) less.prems(2) p1(2) by simp_all
    from less.IH [OF this(1) p1(1) this(2), of "acc @ b"] obtain q where
      ih: "receive_all_loop os True None (acc @ b) (n - length b) p1 =
          (Inr (Some ((acc @ b) @ take (n - length b) (onwire o2))), q)" "peer_on rx I q"
        "onwire (sp_os q) = drop (n - length b) (onwire o2)" "sp_bytesRead q = sp_bytesRead p + n"
      using p1 s(4) by auto
    have "receive_all_loop os True None acc n p = (Inr (Some (acc @ take n (onwire (sp_os p)))), q)"
      using c s(3,4,5) ih(1) False by (simp add: receive_all_loop.simps [of os True None acc n p] wait_readable_def)
    then show ?thesis using ih s(4,5) by (intro exI [of _ q]) simp
  qed
qed

subsection \<open>Two sockets as a byte channel\<close>

record 'o socket_link =
  sl_tx :: "'o socket_peer"
  sl_rx :: "'o socket_peer"
  sl_os :: 'o

definition at_tx :: "('o socket_peer, 'a) proc \<Rightarrow> ('o socket_link, 'a) proc" where
  "at_tx m l = (case m ((sl_tx l)\<lparr>sp_os := sl_os l\<rparr>) of (r, p) \<Rightarrow> (r, l\<lparr>sl_tx := p, sl_os := sp_os p\<rparr>))"

definition at_rx :: "('o socket_peer, 'a) proc \<Rightarrow> ('o socket_link, 'a) proc" where
  "at_rx m l = (case m ((sl_rx l)\<lparr>sp_os := sl_os l\<rparr>) of (r, p) \<Rightarrow> (r, l\<lparr>sl_rx := p, sl_os := sp_os p\<rparr>))"

definition socket_channel :: "'o sock_os \<Rightarrow> 'o socket_link peer_ops" where
  "socket_channel os =
     \<lparr>pr_source = \<lparr>src_read = (\<lambda>n. at_rx (src_read (PeerSourceAndSink_source os) n)),
        src_skip = (\<lambda>n. at_rx (src_skip (PeerSourceAndSink_source os) n)), src_bytesRead = sp_bytesRead \<circ> sl_rx\<rparr>,
      pr_sink = \<lparr>snk_write = (\<lambda>d. at_tx (snk_write (PeerSourceAndSink_sink os) d)),
        snk_flush = at_tx (snk_flush (PeerSourceAndSink_sink os)), snk_bytesWritten = sp_bytesWritten \<circ> sl_tx\<rparr>,
      pr_threadSafeShutdown = (\<lambda>l. l\<lparr>sl_os := sp_os (SocketPeer_threadSafeShutdown os ((sl_tx l)\<lparr>sp_os := sl_os l\<rparr>))\<rparr>)\<rparr>"

definition socket_link_inv ::
  "'o sock_os \<Rightarrow> int \<Rightarrow> int \<Rightarrow> ('o \<Rightarrow> bool) \<Rightarrow> ('o \<Rightarrow> byte list) \<Rightarrow> ('o \<Rightarrow> nat) \<Rightarrow> 'o socket_link \<Rightarrow> bool" where
  "socket_link_inv os tx rx I onwire pat l \<longleftrightarrow> stream_ok os tx rx I onwire pat \<and>
     peer_on tx I ((sl_tx l)\<lparr>sp_os := sl_os l\<rparr>) \<and> peer_on rx I ((sl_rx l)\<lparr>sp_os := sl_os l\<rparr>)"

lemma peer_on_os: "peer_on fd I (p\<lparr>sp_os := o1\<rparr>) \<Longrightarrow> I o2 \<Longrightarrow> peer_on fd I (p\<lparr>sp_os := o2\<rparr>)"
  by (simp add: peer_on_def)

interpretation socket_pipe: byte_pipe "socket_channel os" "socket_link_inv os tx rx I onwire pat" "onwire \<circ> sl_os"
  for os tx rx I onwire pat
proof
  fix l :: "'a socket_link" and d n
  assume l: "socket_link_inv os tx rx I onwire pat l"
  let ?t = "(sl_tx l)\<lparr>sp_os := sl_os l\<rparr>" and ?r = "(sl_rx l)\<lparr>sp_os := sl_os l\<rparr>"
  have k: "stream_ok os tx rx I onwire pat" and t: "peer_on tx I ?t" and r: "peer_on rx I ?r"
    using l by (simp_all add: socket_link_inv_def)
  obtain o2 where o2: "send_loop os 0 d ?t = (Inr (True, 0), ?t\<lparr>sp_os := o2\<rparr>)" "I o2" "onwire o2 = onwire (sl_os l) @ d"
    using send_loop_ok [OF k t, of 0 d] by auto
  show "\<exists>l'. snk_write (pr_sink (socket_channel os)) d l = (Inr (length d), l') \<and>
      socket_link_inv os tx rx I onwire pat l' \<and> (onwire \<circ> sl_os) l' = (onwire \<circ> sl_os) l @ d"
  proof (cases "d = []")
    case True
    with l show ?thesis
      by (intro exI [of _ "l\<lparr>sl_tx := ?t\<rparr>"])
        (simp add: socket_channel_def at_tx_def PeerSourceAndSink_sink_def Peer_send_or_throw_def SocketPeer_send_def
          socket_link_inv_def)
  next
    case False
    have "SocketPeer_send os (Some d) (length d) ?t = (Inr True, ?t\<lparr>sp_os := o2\<rparr>)"
      using False t o2(1) by (simp add: SocketPeer_send_def peer_on_def)
    then show ?thesis using k t r o2(2,3)
      by (intro exI [of _ "l\<lparr>sl_tx := ?t\<lparr>sp_os := o2\<rparr>, sl_os := o2\<rparr>"])
        (simp add: socket_channel_def at_tx_def PeerSourceAndSink_sink_def Peer_send_or_throw_def
          socket_link_inv_def peer_on_os [of rx I "sl_os l" "sl_rx l"] peer_on_os [of tx I "sl_os l" "sl_tx l"])
  qed
  assume n: "n \<le> length ((onwire \<circ> sl_os) l)"
  show "\<exists>l'. src_read (pr_source (socket_channel os)) n l = (Inr (take n ((onwire \<circ> sl_os) l)), l') \<and>
      socket_link_inv os tx rx I onwire pat l' \<and> (onwire \<circ> sl_os) l' = drop n ((onwire \<circ> sl_os) l) \<and>
      src_bytesRead (pr_source (socket_channel os)) l' = src_bytesRead (pr_source (socket_channel os)) l + n"
  proof -
    have "n \<le> length (onwire (sp_os ?r))" using n by simp
    from receive_all_loop_ok [OF k r this, of "[]"] obtain q where q:
      "receive_all_loop os True None [] n ?r = (Inr (Some (take n (onwire (sl_os l)))), q)" "peer_on rx I q"
      "onwire (sp_os q) = drop n (onwire (sl_os l))" "sp_bytesRead q = sp_bytesRead (sl_rx l) + n"
      by auto
    moreover have "I (sp_os q)" using q(2) by (simp add: peer_on_def)
    ultimately show ?thesis using k t
      by (intro exI [of _ "l\<lparr>sl_rx := q, sl_os := sp_os q\<rparr>"])
        (simp add: socket_channel_def at_rx_def PeerSourceAndSink_source_def Peer_receive_all_or_throw_def
          SocketPeer_receive_all_def socket_link_inv_def peer_on_os [of tx I "sl_os l" "sl_tx l"])
  qed
qed

subsection \<open>Further facts\<close>

text \<open>
  What the comment on \<open>poll\<close> says: true (the connection was closed) only with \<open>read\<close>, and a flag that was
  not asked for keeps its value.
\<close>

lemma poll_found_flags:
  "poll_found os qr qw rd wr rs ws p = (Inr (closed, rd', wr'), p') \<Longrightarrow>
     (closed \<longrightarrow> qr \<and> rd') \<and> (rd' = rd \<or> qr \<and> rd') \<and> (wr' = wr \<or> qw \<and> wr')"
  by (auto simp: poll_found_def fail_shutdown_def bindp_def seqp_def split: if_splits prod.splits sum.splits)

lemma poll_event_flags:
  assumes "poll_event os fd er qw wr qr rd t p = (Inr (closed, rd', wr'), p')"
  shows "(closed \<longrightarrow> qr \<and> rd') \<and> (rd' = rd \<or> qr \<and> rd') \<and> (wr' = wr \<or> qw \<and> wr')"
  using assms unfolding poll_event_def
proof (rule bindp_InrE)
  fix r s
  assume "(case r of
         Inl e \<Rightarrow> fail_shutdown os (socket_exn os ''SocketPeer::poll: '' e)
       | Inr None \<Rightarrow> ret (False, rd, wr)
       | Inr (Some (readSet, writeSet)) \<Rightarrow> poll_found os qr qw rd wr readSet writeSet) s = (Inr (closed, rd', wr'), p')"
  then show ?thesis
    by (auto simp: fail_shutdown_def dest!: poll_found_flags elim!: seqp_InrE split: sum.splits option.splits)
qed

lemma poll_flags:
  assumes "SocketPeer_poll os qr r0 qw w0 t p = (Inr (closed, rd, wr), p')"
  shows "(closed \<longrightarrow> qr \<and> rd) \<and> (\<not> qr \<longrightarrow> rd = r0) \<and> (\<not> qw \<longrightarrow> wr = w0)"
  using assms unfolding SocketPeer_poll_def Let_def
  by (auto split: if_splits option.splits sum.splits prod.splits dest!: poll_event_flags)

text \<open>
  \<open>accept\<close> stores at most as many peers as it is asked for, except that it stores one when asked for none.
\<close>

lemma acceptAll_loop_bound:
  assumes "acceptAll_loop os maxPeers peers p = Some r" and "fst r = Inr ps" and "length peers < max 1 maxPeers"
  shows "length ps \<le> max 1 maxPeers"
proof -
  have "\<forall>ps. fst r = Inr ps \<longrightarrow> length peers < max 1 maxPeers \<longrightarrow> length ps \<le> max 1 maxPeers"
  proof (rule acceptAll_loop.raw_induct [OF _ assms(1), where P = "\<lambda>os maxPeers peers p r.
      \<forall>ps. fst r = Inr ps \<longrightarrow> length peers < max 1 maxPeers \<longrightarrow> length ps \<le> max 1 maxPeers"])
    fix loop os m qs q r
    assume ih: "\<And>os m qs q r. loop os m qs q = Some r \<Longrightarrow>
        \<forall>ps. fst r = Inr ps \<longrightarrow> length qs < max 1 m \<longrightarrow> length ps \<le> max 1 m"
      and run: "(case accept_ignore_interrupts os (sp_socket q) q of
        (Inl x, p1) \<Rightarrow> Some (Inl x, p1)
      | (Inr (Inl e), p1) \<Rightarrow>
          Some (if e = EAGAIN then Inr qs else Inl (socket_exn os ''SocketPeer::acceptAll: '' e), p1)
      | (Inr (Inr fd), p1) \<Rightarrow>
          (case os_nonblock os fd False (sp_os p1) of
             (Inl e, o2) \<Rightarrow>
               (case close_ignore_interrupts os fd (p1\<lparr>sp_os := o2\<rparr>) of
                  (Inl x, p2) \<Rightarrow> Some (Inl x, p2)
                | (Inr _, p2) \<Rightarrow>
                    if length qs < m then loop os m qs p2 else Some (Inr qs, p2))
           | (Inr _, o2) \<Rightarrow>
               (case SocketPeer_new os fd o2 of
                  (Inl x, o3) \<Rightarrow> Some (Inl x, p1\<lparr>sp_os := o3\<rparr>)
                | (Inr p', o3) \<Rightarrow>
                    if Suc (length qs) < m
                    then loop os m (qs @ [p']) (p1\<lparr>sp_os := o3\<rparr>)
                    else Some (Inr (qs @ [p']), p1\<lparr>sp_os := o3\<rparr>)))) = Some r"
    show "\<forall>ps. fst r = Inr ps \<longrightarrow> length qs < max 1 m \<longrightarrow> length ps \<le> max 1 m"
    proof (intro allI impI)
      fix ps
      assume ps: "fst r = Inr ps" and qs: "length qs < max 1 m"
      from run qs ps show "length ps \<le> max 1 m"
        by (auto split: prod.splits sum.splits if_splits dest!: ih)
    qed
  qed
  with assms(2,3) show ?thesis by blast
qed

lemma accept_bound:
  assumes "SocketPeer_accept os nPeers t p = (Inr ps, p')"
  shows "length ps \<le> max 1 nPeers"
  using assms
  by (auto simp: SocketPeer_accept_def SocketPeer_acceptAll_def fail_shutdown_def bindp_def seqp_def
      split: if_splits prod.splits sum.splits option.splits dest: acceptAll_loop_bound)

text \<open>
  A set-up that fails after it made a socket gives the socket up, and one that succeeds is listening.
\<close>

lemma shutdown_closes:
  assumes "SocketPeer_shutdown os p = (Inr u, p')"
  shows "sp_socket p' = ARRAS_INVALID_SOCKET"
  using assms by (auto simp: SocketPeer_shutdown_def elim!: seqp_InrE split: if_splits)

lemma fail_shutdown_closes:
  assumes "fail_shutdown os x p = (Inl e, p')" and "is_std_exception e"
  shows "e = x \<and> sp_socket p' = ARRAS_INVALID_SOCKET"
proof (cases "SocketPeer_shutdown os p")
  case (Pair r q)
  show ?thesis
  proof (cases r)
    case (Inr u)
    with assms Pair shutdown_closes [of os p u q] show ?thesis by (simp add: fail_shutdown_def)
  next
    case (Inl y)
    with Pair have "y = NoReturn ''interrupted forever''"
      by (auto simp: SocketPeer_shutdown_def seqp_def bindp_def close_ignore_interrupts_def sys_retry_def
          split: if_splits option.splits prod.splits)
    with assms Pair Inl show ?thesis by (auto simp: fail_shutdown_def is_std_exception_def)
  qed
qed

definition closes :: "('o socket_peer, 'a) proc \<Rightarrow> bool" where
  "closes m \<longleftrightarrow> (\<forall>p e p'. m p = (Inl e, p') \<and> is_std_exception e \<longrightarrow> sp_socket p' = ARRAS_INVALID_SOCKET)"

named_theorems closing

lemma closes_bindp [closing]: "closes m \<Longrightarrow> (\<And>a. closes (f a)) \<Longrightarrow> closes (bindp m f)"
  by (auto simp: closes_def bindp_def split: prod.splits sum.splits)

lemma closes_seqp [closing]: "closes m \<Longrightarrow> closes n \<Longrightarrow> closes (seqp m n)"
  by (simp add: seqp_def closes_bindp)

lemma closes_simple [closing]:
  "closes (ret a)" "closes (upd f)" "closes (gets g)" "closes (sys_call c)"
  by (auto simp: closes_def sys_call_def split: prod.splits)

lemma closes_fail [closing]: "closes (fail_shutdown os x)"
  using fail_shutdown_closes [of os x] by (auto simp: closes_def)

lemma closes_case [closing]: "(\<And>e. closes (f e)) \<Longrightarrow> (\<And>a. closes (g a)) \<Longrightarrow> closes (case r of Inl e \<Rightarrow> f e | Inr a \<Rightarrow> g a)"
  by (cases r) simp_all

lemma closes_keepalive [closing]: "closes (SocketPeer_enableKeepAlive os)"
  unfolding SocketPeer_enableKeepAlive_def by (intro closing)

lemma closes_setup [closing]: "closes (setup_call os call ex)"
  unfolding setup_call_def socket_call_def by (intro closing)

lemma closes_create [closing]: "closes (socket_create os u msg)"
proof -
  have "closes (seqp (upd (\<lambda>p. p\<lparr>sp_socket := ARRAS_INVALID_SOCKET\<rparr>)) (raise (socket_exn os msg e)))" for e
    by (auto simp: closes_def seqp_def bindp_def)
  then show ?thesis unfolding socket_create_def
    by (intro closes_bindp closes_simple closes_case)
qed

lemma closes_ip_zoom:
  assumes "closes m" and "ip_zoom m q = (Inl e, q')" and "is_std_exception e"
  shows "sp_socket (ip_peer q') = ARRAS_INVALID_SOCKET"
  using assms by (cases "m (ip_peer q)") (auto simp: closes_def ip_zoom_def zoom_def)

lemma ipc_listen_result:
  assumes "IPCSocketPeer_listen os name n q = (r, q')" and "sp_socket (ip_peer q) = ARRAS_INVALID_SOCKET"
  shows "case r of Inl e \<Rightarrow> is_std_exception e \<longrightarrow> sp_socket (ip_peer q') = ARRAS_INVALID_SOCKET
    | Inr _ \<Rightarrow> sp_isListening (ip_peer q') \<and> ip_socketName q' = name \<and> name \<noteq> [] \<and> length name < UNIX_PATH_MAX"
proof -
  let ?a = "seqp (socket_create os True ''Could not create IPC socket for listening: '')
            (seqp (SocketPeer_enableKeepAlive os)
            (seqp (setup_call os (\<lambda>fd. os_nonblock os fd True)
                (\<lambda>e. PeerException e (getCodeFromSocketError e)
                   (quoted_msg ''Could not set socket '' name '' to non-blocking mode'')))
            (setup_call os (\<lambda>fd. os_bind os fd (Addr_unix name))
                (\<lambda>e. PeerException e (getCodeFromSocketError e)
                   (quoted_msg ''Could not bind to socket file '' name [])))))"
  let ?b = "seqp (setup_call os (\<lambda>fd. os_listen os fd n) (socket_exn os ''Failed to listen on socket: ''))
            (upd (\<lambda>p. p\<lparr>sp_isListening := True\<rparr>))"
  have a: "closes ?a" and b: "closes ?b" by (intro closing)+
  show ?thesis
  proof (cases "n < 1 \<or> name = [] \<or> length name > UNIX_PATH_MAX - 1")
    case True
    then have "n < 1 \<or> (\<exists>x. check_ipc_name name q = (Inl x, q))"
      by (auto simp: check_ipc_name_def)
    then obtain x where "IPCSocketPeer_listen os name n q = (Inl x, q)"
      using assms(2) by (cases "n < 1") (auto simp: IPCSocketPeer_listen_def)
    with assms show ?thesis by auto
  next
    case False
    then have run: "IPCSocketPeer_listen os name n q =
        seqp (ip_zoom ?a) (seqp (upd (\<lambda>q. q\<lparr>ip_socketName := name\<rparr>)) (ip_zoom ?b)) q"
      using assms(2) by (simp add: IPCSocketPeer_listen_def check_ipc_name_def)
    obtain ra qa where qa: "ip_zoom ?a q = (ra, qa)" by fastforce
    show ?thesis
    proof (cases ra)
      case (Inl e)
      with run qa assms(1) have "r = Inl e" "q' = qa" by auto
      with closes_ip_zoom [OF a, of q e qa] Inl qa show ?thesis by simp
    next
      case (Inr u)
      obtain rb pb where pb: "?b (ip_peer qa) = (rb, pb)" by fastforce
      with run qa assms(1) Inr have r: "r = rb" "q' = qa\<lparr>ip_socketName := name, ip_peer := pb\<rparr>"
        by (auto simp: ip_zoom_def)
      show ?thesis
      proof (cases rb)
        case Inl
        with b pb r show ?thesis by (auto simp: closes_def)
      next
        case (Inr v)
        with pb have "sp_isListening pb" by (auto elim!: seqp_InrE)
        with Inr r False show ?thesis by (simp add: UNIX_PATH_MAX_def)
      qed
    qed
  qed
qed

subsection \<open>Transfers, errors included\<close>

text \<open>
  A kernel for the examples: it takes three bytes and gives two at a time, and interrupts every other
  transfer. Its state is the bytes on the wire and a tick.
\<close>

definition sample_sock_os :: "(byte list \<times> nat) sock_os" where
  "sample_sock_os =
     \<lparr>os_strerror = (\<lambda>_. ''error''),
      os_socket = (\<lambda>_ s. (Inr 5, s)),
      os_send = (\<lambda>_ d (w, t). if odd t then (Inl EINTR, (w, Suc t)) else (Inr (min 3 (length d)), (w @ take 3 d, Suc t))),
      os_recv = (\<lambda>_ n peek (w, t). if odd t then (Inl EINTR, (w, Suc t))
         else (Inr (take (min 2 n) w), (if peek then w else drop (min 2 n) w, Suc t))),
      os_poll = (\<lambda>_ rd wr _ s. (Inr (Some (rd, wr)), s)),
      os_accept = (\<lambda>_ s. (Inr 7, s)),
      os_shutdown = (\<lambda>_ _ _ s. s),
      os_close = (\<lambda>_ s. (Inr (), s)),
      os_nonblock = (\<lambda>_ _ s. (Inr (), s)),
      os_issock = (\<lambda>_ s. (Inr True, s)),
      os_acceptconn = (\<lambda>_ s. (Inr False, s)),
      os_setsockopt = (\<lambda>_ _ s. (Inr (), s)),
      os_bind = (\<lambda>_ _ s. (Inr (), s)),
      os_listen = (\<lambda>_ _ s. (Inr (), s)),
      os_connect = (\<lambda>_ _ s. (Inr (), s)),
      os_getsockname = (\<lambda>_ s. (Inr 4000, s)),
      os_getaddrinfo = (\<lambda>_ s. (Inr 1, s)),
      os_unlink = (\<lambda>_ s. s),
      os_gettimeofday = (\<lambda>s. ((0, 0), s)),
      os_steady_ns = (\<lambda>s. (0, s))\<rparr>"

definition sample_peer :: "int \<Rightarrow> (byte list \<times> nat) socket_peer" where
  "sample_peer fd = (no_socket ([], 1))\<lparr>sp_socket := fd\<rparr>"

lemma sample_stream_ok: "stream_ok sample_sock_os tx rx (\<lambda>_. True) fst (\<lambda>s. snd s mod 2)"
proof -
  have o: "odd t \<Longrightarrow> t mod 2 = 1" "odd t \<Longrightarrow> Suc t mod 2 = 0" for t :: nat
    by presburger+
  have m: "take (min 3 (length d)) d = take 3 d" for d :: "byte list"
    by (metis min.commute take_all_iff take_take length_take order_refl)
  show ?thesis
    by (auto simp: stream_ok_def stream_honest_def sample_sock_os_def o m split: prod.splits)
qed

lemma sample_peer_on: "peer_on fd (\<lambda>_. True) (sample_peer fd)"
  by (simp add: peer_on_def sample_peer_def no_socket_def)

definition sample_link :: "(byte list \<times> nat) socket_link" where
  "sample_link = \<lparr>sl_tx = sample_peer 5, sl_rx = sample_peer 6, sl_os = ([], 1)\<rparr>"

lemma sample_link_inv: "socket_link_inv sample_sock_os 5 6 (\<lambda>_. True) fst (\<lambda>s. snd s mod 2) sample_link"
  by (simp add: socket_link_inv_def sample_stream_ok sample_link_def peer_on_def sample_peer_def no_socket_def)

text \<open>
  C11 (error). On a connection whose calls may fail in any way, take or give parts of the data and be
  interrupted finitely often, a send puts all of the data on the wire, or returns false with nothing
  sent, or throws with a proper prefix sent, and never changes the count of bytes written; a receive of
  everything gives exactly the next bytes, or returns false with nothing taken, or throws with fewer
  bytes taken. Both always return.
\<close>

theorem socket_all_or_error:
  assumes "stream_honest os tx rx I onwire pat"
    and "peer_on tx I p" and "SocketPeer_send os (Some d) (length d) p = (r, p')"
    and "peer_on rx I q" and "SocketPeer_receive_all os True n 0 q = (r', q')"
  shows "(case r of
       Inr ok \<Rightarrow> onwire (sp_os p') = onwire (sp_os p) @ (if ok then d else [])
     | Inl e \<Rightarrow> is_std_exception e \<and> (\<exists>k < length d. onwire (sp_os p') = onwire (sp_os p) @ take k d)) \<and>
    sp_bytesWritten p' = sp_bytesWritten p \<and>
    (case r' of
       Inr (Some b) \<Rightarrow> length b = n \<and> onwire (sp_os q) = b @ onwire (sp_os q') \<and> sp_bytesRead q' = sp_bytesRead q + n
     | Inr None \<Rightarrow> 0 < n \<and> onwire (sp_os q') = onwire (sp_os q)
     | Inl e \<Rightarrow> is_std_exception e \<and> (\<exists>c. length c < n \<and> onwire (sp_os q) = c @ onwire (sp_os q')))"
proof (intro conjI)
  show "case r of
       Inr ok \<Rightarrow> onwire (sp_os p') = onwire (sp_os p) @ (if ok then d else [])
     | Inl e \<Rightarrow> is_std_exception e \<and> (\<exists>k < length d. onwire (sp_os p') = onwire (sp_os p) @ take k d)"
    and "sp_bytesWritten p' = sp_bytesWritten p"
    using SocketPeer_send_honest [OF assms(1,2), of d] assms(3) by (cases r; auto)+
  show "case r' of
       Inr (Some b) \<Rightarrow> length b = n \<and> onwire (sp_os q) = b @ onwire (sp_os q') \<and> sp_bytesRead q' = sp_bytesRead q + n
     | Inr None \<Rightarrow> 0 < n \<and> onwire (sp_os q') = onwire (sp_os q)
     | Inl e \<Rightarrow> is_std_exception e \<and> (\<exists>c. length c < n \<and> onwire (sp_os q) = c @ onwire (sp_os q'))"
    using receive_all_loop_honest [OF assms(1,4), of "[]" n] assms(5)
    by (auto simp: SocketPeer_receive_all_def split: sum.splits option.splits)
qed

theorem socket_all_or_error_witness:
  "\<exists>p' q'. SocketPeer_send sample_sock_os (Some [1, 2, 3, 4]) (length [1, 2, 3, 4 :: byte]) (sample_peer 5) =
       (Inr True, p') \<and>
     SocketPeer_receive_all sample_sock_os True 2 0 (sample_peer 6) = (Inr None, q') \<and>
     sp_bytesWritten p' = 0 \<and> fst (sp_os p') = [1, 2, 3, 4] \<and> fst (sp_os q') = []"
proof -
  have "fst (SocketPeer_send sample_sock_os (Some [1, 2, 3, 4]) (length [1, 2, 3, 4 :: byte]) (sample_peer 5)) = Inr True"
    by code_simp
  then obtain p' where s: "SocketPeer_send sample_sock_os (Some [1, 2, 3, 4]) (length [1, 2, 3, 4 :: byte]) (sample_peer 5) = (Inr True, p')"
    by (metis prod.collapse)
  have "fst (SocketPeer_receive_all sample_sock_os True 2 0 (sample_peer 6)) = Inr None"
    by code_simp
  then obtain q' where t: "SocketPeer_receive_all sample_sock_os True 2 0 (sample_peer 6) = (Inr None, q')"
    by (metis prod.collapse)
  note w = socket_all_or_error [OF stream_ok_honest [OF sample_stream_ok, of 5 6] sample_peer_on s sample_peer_on t]
  have "sp_bytesWritten p' = 0" "fst (sp_os p') = [1, 2, 3, 4]" "fst (sp_os q') = []"
    using w by (simp_all add: sample_peer_def no_socket_def)
  with s t show ?thesis by blast
qed

end
