(* ===== verification/Local_Sessions.thy ===== *)
theory Local_Sessions
  imports Session_Definitions Process_Runs Socket_Peers
begin

text \<open>
  Sessions run on the client's own machine (\<^verbatim>\<open>arras4_client/lib/client/local\<close>): \<open>LocalSession\<close> turns a
  session definition into the arguments and the configuration file of one \<^verbatim>\<open>execComp\<close> process, spawns it
  through the process manager, waits for it to connect to a socket file, and reports its end;
  \<open>LocalSessions\<close> keeps the sessions by their identifiers. Also the record a computation sends when it
  connects (\<^verbatim>\<open>shared_impl/RegistrationData.h\<close>).

  The machine is the record \<open>local_env\<close>: environment variables, the number of processors, access to files,
  the process that resolves rez packages, and the outcomes of writing the two files. Warnings and traces
  are left out.
\<close>

subsection \<open>Registration\<close>

datatype registration_type = REGISTRATION_CLIENT | REGISTRATION_NODE | REGISTRATION_EXECUTOR | REGISTRATION_CONTROL

primrec registration_code :: "registration_type \<Rightarrow> u32" where
  "registration_code REGISTRATION_CLIENT = 0"
| "registration_code REGISTRATION_NODE = 1"
| "registration_code REGISTRATION_EXECUTOR = 2"
| "registration_code REGISTRATION_CONTROL = 3"

record registration_data =
  rd_magic :: u64
  rd_major :: u16
  rd_minor :: u16
  rd_patch :: u16
  rd_reserved :: u16
  rd_sessionId :: uuid
  rd_nodeId :: uuid
  rd_computationId :: uuid
  rd_type :: u32

definition REGISTRATION_MAGIC :: u64 where
  "REGISTRATION_MAGIC = 0x0104020309060201"

text \<open>The identifiers are null until they are set; the type is whatever its memory held.\<close>

definition RegistrationData_new :: "u16 \<Rightarrow> u16 \<Rightarrow> u16 \<Rightarrow> u32 \<Rightarrow> registration_data" where
  "RegistrationData_new major minor patch junk =
     \<lparr>rd_magic = REGISTRATION_MAGIC, rd_major = major, rd_minor = minor, rd_patch = patch, rd_reserved = 0,
      rd_sessionId = UUID_null, rd_nodeId = UUID_null, rd_computationId = UUID_null, rd_type = junk\<rparr>"

text \<open>Its memory image; the four bytes that pad it to a multiple of eight are an argument.\<close>

definition registration_bytes :: "u32 \<Rightarrow> registration_data \<Rightarrow> byte list" where
  "registration_bytes padding r =
     word_bytes (rd_magic r) @ word_bytes (rd_major r) @ word_bytes (rd_minor r) @ word_bytes (rd_patch r) @
     word_bytes (rd_reserved r) @ uuid_bytes (rd_sessionId r) @ uuid_bytes (rd_nodeId r) @
     uuid_bytes (rd_computationId r) @ word_bytes (rd_type r) @ word_bytes padding"

definition REGISTRATION_SIZE :: nat where
  "REGISTRATION_SIZE = 72"

definition image_magic :: "byte list \<Rightarrow> u64" where
  "image_magic b = bytes_word (take 8 b)"

definition image_major :: "byte list \<Rightarrow> u16" where
  "image_major b = bytes_word (take 2 (drop 8 b))"

lemma length_registration_bytes: "length (registration_bytes pad r) = REGISTRATION_SIZE"
  by (simp add: registration_bytes_def REGISTRATION_SIZE_def)

lemma registration_image: "image_magic (registration_bytes pad r) = rd_magic r" "image_major (registration_bytes pad r) = rd_major r"
  by (simp_all add: registration_bytes_def image_magic_def image_major_def)

subsection \<open>LocalSession\<close>

record ('j, 'o) local_session =
  ls_address :: address
  ls_name :: string
  ls_spawnArgs :: spawn_args
  ls_execConfig :: 'j
  ls_execConfigFilePath :: string
  ls_ipcAddress :: string
  ls_process :: "nat option"
  ls_terminationExpected :: bool
  ls_terminateCallback :: bool
  ls_peer :: "'o socket_peer option"
  ls_connecting :: bool

text \<open>
  What a session works on: itself, the files, the process manager, and the calls of its termination
  callback.
\<close>

record ('j, 'o) session_world =
  sw_session :: "('j, 'o) local_session"
  sw_files :: files
  sw_manager :: process_manager
  sw_net :: 'o
  sw_reports :: "(bool \<times> 'j) list"

record local_env =
  le_getenv :: "string \<Rightarrow> string option"
  le_environ :: "string list"
  le_processors :: u32
  le_executable :: "string \<Rightarrow> bool"
  le_resolve :: "spawn_args \<Rightarrow> (int option \<times> string \<times> string) option"
  le_write_context :: write_outcome
  le_write_config :: write_outcome

definition ses :: "(('j, 'o) local_session \<Rightarrow> ('j, 'o) local_session) \<Rightarrow> (('j, 'o) session_world, unit) proc" where
  "ses f = upd (\<lambda>w. w\<lparr>sw_session := f (sw_session w)\<rparr>)"

definition spawn :: "(spawn_args \<Rightarrow> spawn_args) \<Rightarrow> (('j, 'o) session_world, unit) proc" where
  "spawn f = ses (\<lambda>s. s\<lparr>ls_spawnArgs := f (ls_spawnArgs s)\<rparr>)"

text \<open>The two identifiers are new ones.\<close>

definition LocalSession_new ::
  "'u uuid_api_scheme \<Rightarrow> ('j, 'z) json_obj_scheme \<Rightarrow> string \<Rightarrow> uuid \<Rightarrow> uuid \<Rightarrow> ('j, 'o) local_session" where
  "LocalSession_new U J aSessionId node computation =
     \<lparr>ls_address = \<lparr>ad_session = UUID_parse U aSessionId, ad_node = node, ad_computation = computation\<rparr>,
      ls_name = [], ls_spawnArgs = SpawnArgs_new, ls_execConfig = js_null J, ls_execConfigFilePath = [], ls_ipcAddress = [],
      ls_process = None, ls_terminationExpected = False, ls_terminateCallback = False, ls_peer = None, ls_connecting = False\<rparr>"

definition getObject :: "('j, 'z) json_obj_scheme \<Rightarrow> 'j \<Rightarrow> string \<Rightarrow> exn + 'j" where
  "getObject J ob key = sbind (js_get J ob key) (\<lambda>r. Inr (if js_isObject J r then r else js_emptyObject J))"

definition DEFAULT_MEMORY_MB :: u32 where "DEFAULT_MEMORY_MB = 2048"
definition RESERVED_CORES :: u32 where "RESERVED_CORES = 1"
definition DEFAULT_LOG_LEVEL :: int where "DEFAULT_LOG_LEVEL = 3"

text \<open>\<open>val.isNumeric() && val.asInt64() >= 0\<close>; then the value is taken, otherwise \<open>deflt\<close> decides.\<close>

definition unsigned_member :: "('j, 'z) json_obj_scheme \<Rightarrow> 'j \<Rightarrow> string \<Rightarrow> exn + u32 \<Rightarrow> exn + u32" where
  "unsigned_member J ob key deflt =
     sbind (js_get J ob key) (\<lambda>v.
       if js_isNumeric J v then sbind (js_asInt64 J v) (\<lambda>i. if i \<ge> 0 then js_asUInt J v else deflt) else deflt)"

definition assigned_cores :: "('j, 'z) json_obj_scheme \<Rightarrow> u32 \<Rightarrow> 'j \<Rightarrow> exn + u32" where
  "assigned_cores J processors resources =
     unsigned_member J resources ''cores''
       (sbind (unsigned_member J resources ''maxCores'' (Inr 1024)) (\<lambda>maxCores.
        sbind (unsigned_member J resources ''reservedCores'' (Inr RESERVED_CORES)) (\<lambda>reservedCores.
          Inr (let assigned = processors - reservedCores in if assigned > maxCores then maxCores else assigned))))"

text \<open>The command line of \<^verbatim>\<open>execComp\<close>.\<close>

definition exec_args :: "u32 \<Rightarrow> u32 \<Rightarrow> string \<Rightarrow> string list" where
  "exec_args mb cores path =
     [''--memoryMB'', show_nat (unat mb), ''--cores'', show_nat (unat cores), ''--use_affinity'', ''0'', path]"

definition required_environment :: "(string \<Rightarrow> string option) \<Rightarrow> environment \<Rightarrow> environment" where
  "required_environment getenv e =
     (let e = fold (\<lambda>(n, v). Environment_set n v True)
        [(''ARRAS_ATHENA_ENV'', ''prod''), (''ARRAS_ATHENA_HOST'', ''localhost''), (''ARRAS_ATHENA_PORT'', ''514'')] e;
          e = (case getenv ''LOGNAME'' of Some user \<Rightarrow> Environment_set ''USER'' user True e | None \<Rightarrow> e)
      in case getenv ''REZ_ARRAS4_CORE_ROOT'' of Some root \<Rightarrow> Environment_set ''ARRAS_BREAKPAD_PATH'' root True e | None \<Rightarrow> e)"

subsection \<open>Packaging\<close>

definition with_pseudo_compiler :: "string \<Rightarrow> string \<Rightarrow> string" where
  "with_pseudo_compiler program pseudoCompiler = program @ (if pseudoCompiler \<noteq> [] then ''-'' @ pseudoCompiler else [])"

definition LocalSession_applyNoPackaging ::
  "('j, 'z) json_obj_scheme \<Rightarrow> local_env \<Rightarrow> 'j \<Rightarrow> (('j, 'o) session_world, unit) proc" where
  "LocalSession_applyNoPackaging J env ctx =
     bindp (liftr (getString J ctx ''pseudo-compiler'' [])) (\<lambda>pc.
     bindp (gets (ls_spawnArgs \<circ> sw_session)) (\<lambda>sa.
       case SpawnArgs_findProgramInPath (le_executable env) (with_pseudo_compiler (sa_program sa) pc) sa of
         (ok, sa') \<Rightarrow> seqp (spawn (\<lambda>_. sa')) (if ok then ret () else raise (SessionError ''Execution error''))))"

definition LocalSession_applyCurrentEnvironment ::
  "('j, 'z) json_obj_scheme \<Rightarrow> local_env \<Rightarrow> 'j \<Rightarrow> (('j, 'o) session_world, unit) proc" where
  "LocalSession_applyCurrentEnvironment J env ctx =
     seqp (spawn (\<lambda>sa. sa\<lparr>sa_environment := Environment_setFromCurrent (le_environ env) (sa_environment sa)\<rparr>))
     (bindp (liftr (getString J ctx ''pseudo-compiler'' [])) (\<lambda>pc.
      spawn (\<lambda>sa. sa\<lparr>sa_program := with_pseudo_compiler (sa_program sa) pc\<rparr>)))"

text \<open>\<open>catch (std::exception& e)\<close> that throws a \<open>SessionError\<close> with its text.\<close>

definition as_session_error :: "exn \<Rightarrow> exn" where
  "as_session_error e = (if is_std_exception e then SessionError (exn_what e) else e)"

definition LocalSession_applyShellPackaging ::
  "'u uuid_api_scheme \<Rightarrow> ('j, 'z) json_obj_scheme \<Rightarrow> local_env \<Rightarrow> 'j \<Rightarrow> (('j, 'o) session_world, unit) proc" where
  "LocalSession_applyShellPackaging U J env ctx =
     bindp (liftr (getString J ctx ''script'' [])) (\<lambda>script.
       if script = [] then raise (SessionError ''Shell wrap error'')
       else bindp (liftr (getString J ctx ''pseudo-compiler'' [])) (\<lambda>pc w.
         case ShellContext_setScript U (le_write_context env) script
                (ShellContext_new pc (ad_session (ls_address (sw_session w))), sw_files w) of
           (err, sc, fs) \<Rightarrow>
             (case err of
                None \<Rightarrow> spawn (ShellContext_wrap sc) (w\<lparr>sw_files := fs\<rparr>)
              | Some m \<Rightarrow> raise (SessionError (''Shell wrap error'' @ m)) (w\<lparr>sw_files := fs\<rparr>))))"

definition LocalSession_applyRezPackaging ::
  "'u uuid_api_scheme \<Rightarrow> ('j, 'z) json_obj_scheme \<Rightarrow> local_env \<Rightarrow> u32 \<Rightarrow> 'j \<Rightarrow> (('j, 'o) session_world, unit) proc" where
  "LocalSession_applyRezPackaging U J env rezMajor ctx =
     bindp (liftr (getString J ctx ''pseudo-compiler'' [])) (\<lambda>pc.
     bindp (case le_getenv env ''ARRASCLIENT_OVR_LOCAL_PACKAGE_PATH_PREFIX'' of
              Some v \<Rightarrow> ret v | None \<Rightarrow> liftr (getString J ctx ''rez_packages_prepend'' [])) (\<lambda>rezPathPrefix.
     bindp (liftr (getString J ctx ''rez_packages'' [])) (\<lambda>rezPackages.
     bindp (liftr (getString J ctx ''rez_context'' [])) (\<lambda>rezContext.
     bindp (liftr (getString J ctx ''rez_context_file'' [])) (\<lambda>rezContextFile w.
       (let s = sw_session w in
        case RezContext_new (le_getenv env) (ls_name s) rezMajor rezPathPrefix False pc
               (ad_computation (ls_address s)) (ad_session (ls_address s)) of
          Inl e \<Rightarrow> (Inl (as_session_error e), w)
        | Inr rc \<Rightarrow>
            (case (if rezContext \<noteq> [] then
                     (case RezContext_setContext U (le_write_context env) rezContext (rc, sw_files w) of
                        (err, rc', fs) \<Rightarrow> ((err = None, err), rc', fs))
                   else if rezContextFile \<noteq> [] then ((True, None), RezContext_setContextFile rezContextFile rc, sw_files w)
                   else if rezPackages \<noteq> [] then
                     RezContext_setPackages U (le_getenv env) (le_resolve env) (le_write_context env) rezPackages (rc, sw_files w)
                   else ((False, Some (''Must specify one of '' @ in_quotes ''rez_context'' @ '','' @ in_quotes ''rez_context_file'' @
                           '' or '' @ in_quotes ''rez_packages'')), rc, sw_files w)) of
               ((ok, err), rc', fs) \<Rightarrow>
                 if ok then spawn (RezContext_wrap (le_getenv env) rc') (w\<lparr>sw_files := fs\<rparr>)
                 else raise (SessionError (''Rez error'' @ (case err of None \<Rightarrow> [] | Some m \<Rightarrow> m))) (w\<lparr>sw_files := fs\<rparr>))))))))"

definition LocalSession_applyPackaging ::
  "'u uuid_api_scheme \<Rightarrow> ('j, 'z) json_obj_scheme \<Rightarrow> local_env \<Rightarrow> 'j \<Rightarrow> 'j \<Rightarrow> (('j, 'o) session_world, unit) proc" where
  "LocalSession_applyPackaging U J env definition cntxt =
     bindp (liftr (getObject J definition ''requirements'')) (\<lambda>requirements.
       let ctx = (if js_isNull J cntxt then requirements else cntxt) in
       bindp (liftr (getString J ctx ''packaging_system'' [])) (\<lambda>named.
         let packagingSystem = (if js_isNull J cntxt \<and> named = [] then ''rez1'' else named) in
         if packagingSystem = [] \<or> packagingSystem = ''none'' then LocalSession_applyNoPackaging J env ctx
         else if packagingSystem = ''current-environment'' then LocalSession_applyCurrentEnvironment J env ctx
         else if packagingSystem = ''bash'' then LocalSession_applyShellPackaging U J env ctx
         else if packagingSystem = ''rez1'' then LocalSession_applyRezPackaging U J env 1 ctx
         else if packagingSystem = ''rez2'' then LocalSession_applyRezPackaging U J env 2 ctx
         else raise (SessionError (''Unknown packaging system '' @ in_quotes packagingSystem))))"

subsection \<open>The definition of a session\<close>

definition on_environment :: "(environment, unit) proc \<Rightarrow> (('j, 'o) session_world, unit) proc" where
  "on_environment = zoom (sa_environment \<circ> ls_spawnArgs \<circ> sw_session)
     (\<lambda>e w. w\<lparr>sw_session := (sw_session w)\<lparr>ls_spawnArgs := (ls_spawnArgs (sw_session w))\<lparr>sa_environment := e\<rparr>\<rparr>\<rparr>)"

definition on_config :: "('j, unit) proc \<Rightarrow> (('j, 'o) session_world, unit) proc" where
  "on_config = zoom (ls_execConfig \<circ> sw_session)
     (\<lambda>c w. w\<lparr>sw_session := (sw_session w)\<lparr>ls_execConfig := c\<rparr>\<rparr>)"

definition exec_config_path :: "'u uuid_api_scheme \<Rightarrow> string \<Rightarrow> uuid \<Rightarrow> string" where
  "exec_config_path U name computation = ''/tmp/exec-'' @ name @ ''-'' @ UUID_toString U computation"

text \<open>The contents of the configuration file.\<close>

definition exec_config ::
  "'u uuid_api_scheme \<Rightarrow> ('j, 'z) json_obj_scheme \<Rightarrow> address \<Rightarrow> string \<Rightarrow> string \<Rightarrow> int \<Rightarrow> 'j \<Rightarrow> ('j, unit) proc" where
  "exec_config U J a name ipc logLevel definition =
     (let s = (\<lambda>i. js_ofString J (UUID_toString U i)) in
      seqp (upd (\<lambda>_. js_null J))
      (seqp (js_put J ''sessionId'' (s (ad_session a)))
      (seqp (js_put J ''compId'' (s (ad_computation a)))
      (seqp (js_put J ''execId'' (s (ad_computation a)))
      (seqp (js_put J ''nodeId'' (s (ad_node a)))
      (seqp (js_put J ''ipc'' (js_ofString J ipc))
      (seqp (js_put J ''logLevel'' (js_ofInt J logLevel))
      (seqp (js_put J ''consoleLogStyle'' (js_ofUInt J 1))
      (seqp (js_at J ''config'' (js_put J name definition))
      (js_at J ''config'' (js_at J name (js_put J ''computationId'' (s (ad_computation a))))))))))))))"

text \<open>
  The command line, limits and directory of the process, before its environment is set up. (When a conversion
  throws, the session that was being made is gone, so what had been stored by then is not kept.)
\<close>

definition process_limits :: "('j, 'z) json_obj_scheme \<Rightarrow> u32 \<Rightarrow> string \<Rightarrow> 'j \<Rightarrow> 'j \<Rightarrow> exn + spawn_args" where
  "process_limits J processors path resources definition =
     sbind (unsigned_member J resources ''memoryMB'' (Inr DEFAULT_MEMORY_MB)) (\<lambda>mb.
     sbind (assigned_cores J processors resources) (\<lambda>cores.
     sbind (js_get J definition ''workingDirectory'') (\<lambda>wd.
     sbind (if js_isString J wd then js_asString J wd else Inr []) (\<lambda>dir.
       Inr (SpawnArgs_new\<lparr>sa_program := ''execComp'', sa_enforceMemory := False, sa_enforceCores := False,
         sa_assignedMb := mb, sa_assignedCores := cores, sa_workingDirectory := dir, sa_cleanupProcessGroup := True,
         sa_args := exec_args mb cores path\<rparr>)))))"

text \<open>
  The environment in the named context, if one is named; the result is that context, or the null value. A
  later value takes the place of an earlier one.
\<close>

definition apply_environment ::
  "('j, 'z) json_obj_scheme \<Rightarrow> string \<Rightarrow> 'j \<Rightarrow> 'j \<Rightarrow> 'j \<Rightarrow> (('j, 'o) session_world, 'j) proc" where
  "apply_environment J name definition requirements contexts =
     bindp (liftr (getObject J definition ''environment'')) (\<lambda>e.
     seqp (on_environment (Environment_setFromObject J e))
     (bindp (liftr (js_get J requirements ''context'')) (\<lambda>named.
       if js_isString J named then
         bindp (liftr (js_asString J named)) (\<lambda>ctxName.
         bindp (liftr (js_isMember J contexts ctxName)) (\<lambda>there.
           if \<not> there then
             raise (SessionError (''Context '' @ in_quotes ctxName @ '', required by '' @ name @ '' is missing''))
           else bindp (liftr (js_get J contexts ctxName)) (\<lambda>ctx.
             bindp (liftr (getObject J ctx ''environment'')) (\<lambda>ce.
             seqp (on_environment (Environment_setFromObject J ce))
               (ret (if ctxName = [] then js_null J else ctx))))))
       else ret (js_null J))))"

definition LocalSession_processComputation ::
  "'u uuid_api_scheme \<Rightarrow> ('j, 'z) json_obj_scheme \<Rightarrow> local_env \<Rightarrow> string \<Rightarrow> 'j \<Rightarrow> 'j \<Rightarrow>
     (('j, 'o) session_world, unit) proc" where
  "LocalSession_processComputation U J env name definition contexts =
     seqp (ses (\<lambda>s. let path = exec_config_path U name (ad_computation (ls_address s)) in
       s\<lparr>ls_name := name, ls_execConfigFilePath := path, ls_ipcAddress := path @ ''.ipc'', ls_spawnArgs := SpawnArgs_new\<rparr>))
     (bindp (liftr (getObject J definition ''requirements'')) (\<lambda>requirements.
      bindp (liftr (getObject J requirements ''resources'')) (\<lambda>resources.
      bindp (gets (ls_execConfigFilePath \<circ> sw_session)) (\<lambda>path.
      bindp (liftr (process_limits J (le_processors env) path resources definition)) (\<lambda>sa.
      seqp (spawn (\<lambda>_. sa))
      (bindp (apply_environment J name definition requirements contexts) (\<lambda>ctx.
      seqp (on_environment (upd (required_environment (le_getenv env))))
      (seqp (LocalSession_applyPackaging U J env definition ctx)
      (bindp (liftr (js_get J resources ''logLevel'')) (\<lambda>l.
      bindp (liftr (if js_isNumeric J l then js_asInt J l else Inr DEFAULT_LOG_LEVEL)) (\<lambda>logLevel.
      bindp (gets sw_session) (\<lambda>s.
        on_config (exec_config U J (ls_address s) name (ls_ipcAddress s) logLevel definition)))))))))))))"

definition LocalSession_buildRouting ::
  "'u uuid_api_scheme \<Rightarrow> ('j, 'z) json_obj_scheme \<Rightarrow> 'j \<Rightarrow> (('j, 'o) session_world, unit) proc" where
  "LocalSession_buildRouting U J clientDef =
     (if \<not> js_isObject J clientDef then raise (SessionError ''Invalid client definition'')
      else bindp (gets sw_session) (\<lambda>s.
        let a = ls_address s; name = ls_name s; str = (\<lambda>i. js_ofString J (UUID_toString U i));
            filters = (\<lambda>p. on_config (js_at J ''routing'' (js_at J ''messageFilter'' p))) in
        seqp (on_config (js_at J ''routing'' (js_at J (UUID_toString U (ad_session a)) (js_at J ''computations'' (js_at J name
            (seqp (js_put J ''compId'' (str (ad_computation a))) (js_put J ''nodeId'' (str (ad_node a)))))))))
        (seqp (filters (js_put J name (js_emptyObject J)))
        (bindp (liftr (js_get J clientDef ''messages'')) (\<lambda>messages.
          if js_isObject J messages then
            bindp (liftr (js_get J messages name)) (\<lambda>sfilter.
              if js_isObject J sfilter then filters (js_at J name (js_put J ''(client)'' sfilter)) else ret ())
          else ret ())))))"

definition LocalSession_setDefinition ::
  "'u uuid_api_scheme \<Rightarrow> ('j, 'z) json_obj_scheme \<Rightarrow> local_env \<Rightarrow> 'j \<Rightarrow> (('j, 'o) session_world, unit) proc" where
  "LocalSession_setDefinition U J env def =
     bindp (liftr (js_get J def ''computations'')) (\<lambda>comps.
       let refuse = raise (SessionError ''Local session definitions must contain client and one computation'') in
       if \<not> js_isObject J comps \<or> js_size J comps \<noteq> 2 then refuse
       else bindp (liftr (js_get J comps ''(client)'')) (\<lambda>client.
         if js_isNull J client then refuse
         else bindp (liftr (js_get J def ''contexts'')) (\<lambda>contexts.
           seqp (forp (js_members J comps) (\<lambda>(name, c).
               if name \<noteq> ''(client)'' then LocalSession_processComputation U J env name c contexts else ret ()))
             (LocalSession_buildRouting U J client))))"

subsection \<open>Starting the process\<close>

text \<open>Only a file that cannot be opened is noticed.\<close>

definition LocalSession_writeConfigFile :: "('j, 'z) json_obj_scheme \<Rightarrow> write_outcome \<Rightarrow> (('j, 'o) session_world, bool) proc" where
  "LocalSession_writeConfigFile J oc w =
     (let path = ls_execConfigFilePath (sw_session w) in
      case oc of
        CannotOpen \<Rightarrow> (Inr False, w)
      | CannotWrite t \<Rightarrow> (Inr True, w\<lparr>sw_files := (sw_files w)(path \<mapsto> t)\<rparr>)
      | Written \<Rightarrow> (Inr True, w\<lparr>sw_files := (sw_files w)(path \<mapsto> js_print J (ls_execConfig (sw_session w)))\<rparr>))"

definition on_manager :: "(process_manager, 'a) proc \<Rightarrow> (('j, 'o) session_world, 'a) proc" where
  "on_manager = zoom sw_manager (\<lambda>m w. w\<lparr>sw_manager := m\<rparr>)"

definition cannot_start :: "'u uuid_api_scheme \<Rightarrow> ('j, 'o) local_session \<Rightarrow> string \<Rightarrow> exn" where
  "cannot_start U s why =
     SessionError (''Cannot start computation '' @ ls_name s @ '' ['' @ UUID_toString U (ad_computation (ls_address s)) @ ''] : '' @ why)"

text \<open>
  The system's answers are \<open>le_write_config\<close> and the arguments of \<open>Process_spawn\<close> (pipes, control group, fork).
\<close>

definition LocalSession_spawnProcess ::
  "'u uuid_api_scheme \<Rightarrow> ('j, 'z) json_obj_scheme \<Rightarrow> local_env \<Rightarrow> bool \<Rightarrow> bool \<Rightarrow> nat option \<Rightarrow>
     (('j, 'o) session_world, unit) proc" where
  "LocalSession_spawnProcess U J env pipes_ok cg_ok fork =
     bindp (LocalSession_writeConfigFile J (le_write_config env)) (\<lambda>ok.
     bindp (gets sw_session) (\<lambda>s.
       if \<not> ok then raise (cannot_start U s ''failed to save config file'')
       else bindp (on_manager (ProcessManager_addProcess U (ad_computation (ls_address s)) (ls_name s) (ad_session (ls_address s)))) (\<lambda>a.
         seqp (ses (\<lambda>s. s\<lparr>ls_process := Some a\<rparr>))
         (bindp (on_manager (Process_spawn pipes_ok cg_ok fork (ls_spawnArgs s) a)) (\<lambda>sc.
           if StateChange_success sc then ret () else raise (cannot_start U s ''process spawn failed''))))))"

subsection \<open>The connection\<close>

definition CONNECT_TIMEOUT_MS :: u32 where "CONNECT_TIMEOUT_MS = 20000"
definition NEGOTIATION_TIMEOUT_MS :: u32 where "NEGOTIATION_TIMEOUT_MS = 5000"
definition MESSAGING_API_VERSION_MAJOR :: u16 where "MESSAGING_API_VERSION_MAJOR = 4"

text \<open>
  The thread that waits for the process: an exception it does not catch ends the whole program. The peer of
  the session is the one that was accepted, if any. The socket file is removed with the listening peer.
\<close>

definition LocalSession_connectProc :: "'o sock_os \<Rightarrow> (('j, 'o) session_world, unit) proc" where
  "LocalSession_connectProc os w =
     (let path = ls_ipcAddress (sw_session w);
          q = IPCSocketPeer_new (os_unlink os path (sw_net w)) in
      case bindp (seqp (IPCSocketPeer_listen os path 32) (ip_zoom (SocketPeer_accept os 1 CONNECT_TIMEOUT_MS)))
             (\<lambda>ps. seqp (IPCSocketPeer_delete os) (ret ps)) q of
        (Inl e, q') \<Rightarrow>
          (Inl (if is_std_exception e then Undefined ''std::terminate'' else e), w\<lparr>sw_net := sp_os (ip_peer q')\<rparr>)
      | (Inr ps, q') \<Rightarrow>
          (Inr (), w\<lparr>sw_net := sp_os (ip_peer q'),
             sw_session := (sw_session w)\<lparr>ls_peer := (case ps of [] \<Rightarrow> None | p # _ \<Rightarrow> Some p), ls_connecting := False\<rparr>\<rparr>))"

text \<open>An operation of the session's peer, which works on the network of the world.\<close>

definition on_peer :: "'o socket_peer \<Rightarrow> ('o socket_peer, 'a) proc \<Rightarrow> (('j, 'o) session_world, 'a) proc" where
  "on_peer p act w =
     (case act (p\<lparr>sp_os := sw_net w\<rparr>) of
        (r, p') \<Rightarrow> (r, w\<lparr>sw_net := sp_os p', sw_session := (sw_session w)\<lparr>ls_peer := Some p'\<rparr>\<rparr>))"

definition LocalSession_readRegistration :: "'o sock_os \<Rightarrow> 'o socket_peer \<Rightarrow> (('j, 'o) session_world, unit) proc" where
  "LocalSession_readRegistration os p w =
     (case on_peer p (Peer_receive_all_or_throw os True REGISTRATION_SIZE ''LocalSession::readRegistration'' NEGOTIATION_TIMEOUT_MS) w of
        (Inl e, w') \<Rightarrow>
          (Inl (if is_std_exception e then SessionError (''Failed to register computation: '' @ exn_what e) else e), w')
      | (Inr b, w') \<Rightarrow>
          (if image_magic b \<noteq> REGISTRATION_MAGIC \<or> image_major b \<noteq> MESSAGING_API_VERSION_MAJOR
           then Inl (SessionError ''Computation sent invalid registration data'') else Inr (), w'))"

text \<open>
  \<open>start\<close>, with the connecting thread run after the process is spawned: the two only meet in the socket the
  thread makes, and \<open>start\<close> waits for the thread before it goes on.
\<close>

definition LocalSession_prepared :: "bool \<Rightarrow> ('j, 'o) session_world \<Rightarrow> ('j, 'o) session_world" where
  "LocalSession_prepared tf w =
     (let s = (sw_session w)\<lparr>ls_terminateCallback := tf\<rparr>
      in w\<lparr>sw_session := s\<lparr>ls_spawnArgs := (ls_spawnArgs s)\<lparr>sa_observer := True\<rparr>, ls_connecting := True\<rparr>\<rparr>)"

definition LocalSession_start ::
  "'u uuid_api_scheme \<Rightarrow> ('j, 'z) json_obj_scheme \<Rightarrow> local_env \<Rightarrow> 'o sock_os \<Rightarrow> bool \<Rightarrow> bool \<Rightarrow> bool \<Rightarrow> nat option \<Rightarrow>
     (('j, 'o) session_world, unit) proc" where
  "LocalSession_start U J env os tf pipes_ok cg_ok fork =
     seqp (upd (LocalSession_prepared tf))
     (seqp (LocalSession_spawnProcess U J env pipes_ok cg_ok fork)
     (seqp (LocalSession_connectProc os)
     (bindp (gets (ls_peer \<circ> sw_session)) (\<lambda>p.
       case p of
         None \<Rightarrow> raise (SessionError ''Computation failed to connect within timeout'')
       | Some p \<Rightarrow> LocalSession_readRegistration os p))))"

subsection \<open>Controlling a session\<close>

definition SIGSTOP :: int where "SIGSTOP = 19"
definition SIGCONT :: int where "SIGCONT = 18"

definition LocalSession_abandon :: "('j, 'o) local_session \<Rightarrow> ('j, 'o) local_session" where
  "LocalSession_abandon s = s\<lparr>ls_terminateCallback := False\<rparr>"

definition LocalSession_stop :: "(('j, 'o) session_world, unit) proc" where
  "LocalSession_stop =
     bindp (gets (ls_process \<circ> sw_session)) (\<lambda>p.
       case p of
         None \<Rightarrow> ret ()
       | Some a \<Rightarrow> seqp (ses (\<lambda>s. s\<lparr>ls_terminationExpected := True\<rparr>))
           (bindp (on_manager (Process_terminate False a)) (\<lambda>_. ret ())))"

definition signal_process :: "int \<Rightarrow> (('j, 'o) session_world, unit) proc" where
  "signal_process signum =
     bindp (gets (ls_process \<circ> sw_session)) (\<lambda>p.
       case p of None \<Rightarrow> ret () | Some a \<Rightarrow> on_manager (upd (Process_signal signum True a)))"

definition LocalSession_pause :: "(('j, 'o) session_world, unit) proc" where
  "LocalSession_pause = signal_process SIGSTOP"

definition LocalSession_resume :: "(('j, 'o) session_world, unit) proc" where
  "LocalSession_resume = signal_process SIGCONT"

definition exitStatusString :: "exit_status \<Rightarrow> bool \<Rightarrow> string" where
  "exitStatusString es expected =
     (case es_exitType es of
        ET_Exit \<Rightarrow> exitCodeString (es_status es) expected
      | ET_Signal \<Rightarrow>
          if expected \<and> es_status es = 15 then ''exited normally''
          else ''exited due to signal '' @ show_int (es_status es)
      | ET_Internal \<Rightarrow> ExitStatus_internalCodeString (es_status es))"

text \<open>The calls of the termination callback are kept in \<open>sw_reports\<close>.\<close>

definition LocalSession_onTerminate ::
  "('j, 'z) json_obj_scheme \<Rightarrow> uuid \<Rightarrow> uuid \<Rightarrow> exit_status \<Rightarrow> (('j, 'o) session_world, unit) proc" where
  "LocalSession_onTerminate J i sessionId status w =
     (let s = sw_session w in
      if i \<noteq> ad_computation (ls_address s) \<or> sessionId \<noteq> ad_session (ls_address s) then (Inr (), w)
      else if \<not> ls_terminateCallback s then (Inr (), w)
      else
        let es = snd (ExitStatus_convertHighExitToSignal status);
            reason = js_ofString J (''compExited: '' @ ls_name s @ '' '' @ exitStatusString es (ls_terminationExpected s))
        in case seqp (js_put J ''disconnectReason'' reason)
               (seqp (js_put J ''execStatus'' (js_ofString J ''stopped'')) (js_put J ''execStoppedReason'' reason)) (js_null J) of
             (Inl e, _) \<Rightarrow> (Inl e, w)
           | (Inr _, st) \<Rightarrow> (Inr (), w\<lparr>sw_reports := sw_reports w @ [(ls_terminationExpected s, st)]\<rparr>))"

subsection \<open>LocalSessions\<close>

record ('j, 'o) sessions_world =
  ss_sessions :: "(uuid, ('j, 'o) local_session) stdmap"
  ss_files :: files
  ss_manager :: process_manager
  ss_net :: 'o
  ss_reports :: "(bool \<times> 'j) list"

text \<open>An operation of a session among the others; the session it leaves is part of the result.\<close>

definition with_session ::
  "('j, 'o) local_session \<Rightarrow> (('j, 'o) session_world, 'a) proc \<Rightarrow> (('j, 'o) sessions_world, 'a \<times> ('j, 'o) local_session) proc" where
  "with_session s act w =
     (case act \<lparr>sw_session = s, sw_files = ss_files w, sw_manager = ss_manager w, sw_net = ss_net w, sw_reports = ss_reports w\<rparr> of
        (r, v) \<Rightarrow>
          ((case r of Inl e \<Rightarrow> Inl e | Inr a \<Rightarrow> Inr (a, sw_session v)),
           w\<lparr>ss_files := sw_files v, ss_manager := sw_manager v, ss_net := sw_net v, ss_reports := sw_reports v\<rparr>))"

definition put_session :: "('j, 'o) local_session \<Rightarrow> ('j, 'o) sessions_world \<Rightarrow> ('j, 'o) sessions_world" where
  "put_session s w = w\<lparr>ss_sessions := map_set (ad_session (ls_address s)) s (ss_sessions w)\<rparr>"

text \<open>A session that could not be started is not kept.\<close>

definition LocalSessions_createSession ::
  "'u uuid_api_scheme \<Rightarrow> ('j, 'z) json_obj_scheme \<Rightarrow> local_env \<Rightarrow> 'o sock_os \<Rightarrow> uuid \<Rightarrow> uuid \<Rightarrow> bool \<Rightarrow> bool \<Rightarrow> nat option \<Rightarrow>
     'j \<Rightarrow> string \<Rightarrow> bool \<Rightarrow> (('j, 'o) sessions_world, unit) proc" where
  "LocalSessions_createSession U J env os node computation pipes_ok cg_ok fork definition aSessionId tf =
     bindp (with_session (LocalSession_new U J aSessionId node computation)
         (seqp (LocalSession_setDefinition U J env definition) (LocalSession_start U J env os tf pipes_ok cg_ok fork)))
       (\<lambda>(_, s). upd (put_session s))"

definition LocalSessions_getSession :: "uuid \<Rightarrow> ('j, 'o) sessions_world \<Rightarrow> ('j, 'o) local_session option" where
  "LocalSessions_getSession i w = map_of (ss_sessions w) i"

definition on_session :: "uuid \<Rightarrow> (('j, 'o) session_world, unit) proc \<Rightarrow> (('j, 'o) sessions_world, unit) proc" where
  "on_session i act =
     bindp (gets (LocalSessions_getSession i)) (\<lambda>r.
       case r of None \<Rightarrow> ret () | Some s \<Rightarrow> bindp (with_session s act) (\<lambda>(_, s'). upd (\<lambda>w. w\<lparr>ss_sessions := map_set i s' (ss_sessions w)\<rparr>)))"

definition LocalSessions_stopSession :: "uuid \<Rightarrow> (('j, 'o) sessions_world, unit) proc" where
  "LocalSessions_stopSession i = on_session i LocalSession_stop"

definition LocalSessions_pauseSession :: "uuid \<Rightarrow> (('j, 'o) sessions_world, unit) proc" where
  "LocalSessions_pauseSession i = on_session i LocalSession_pause"

definition LocalSessions_resumeSession :: "uuid \<Rightarrow> (('j, 'o) sessions_world, unit) proc" where
  "LocalSessions_resumeSession i = on_session i LocalSession_resume"

definition LocalSessions_abandonSession :: "uuid \<Rightarrow> (('j, 'o) sessions_world, unit) proc" where
  "LocalSessions_abandonSession i = on_session i (ses LocalSession_abandon)"

subsection \<open>SessionNotification\<close>

text \<open>
  The first computation that has resources gets a number of cores. (\<open>computations\<close> is an object here, as
  \<open>setDefinition\<close> makes sure of.) The result of a step: whether the loop is left.
\<close>

definition update_resources :: "('j, 'z) json_obj_scheme \<Rightarrow> u32 \<Rightarrow> ('j, unit) proc" where
  "update_resources J processors resources =
     (bindp (bindp (gets id) (\<lambda>r. liftr (js_get J r ''cores''))) (\<lambda>coresVal.
      bindp (liftr (if js_isNumeric J coresVal then sbind (js_asInt64 J coresVal) (\<lambda>i. Inr (i \<ge> 0)) else Inr False)) (\<lambda>given.
        if given then ret ()
        else bindp (bindp (gets id) (\<lambda>r. liftr (js_isMember J r ''maxCores''))) (\<lambda>limited.
          if limited then
            bindp (bindp (gets id) (\<lambda>r. liftr (unsigned_member J r ''maxCores'' (Inr 1024)))) (\<lambda>maxCores.
            let assignedCores = processors - 1;
                cores = (if assignedCores > maxCores then maxCores else assignedCores) in
            seqp (js_put J ''cores'' (js_ofUInt J (unat cores)))
            (seqp (js_drop J ''maxCores'') (js_drop J ''minCores'')))
          else js_put J ''cores'' (js_ofInt J 1))))) resources"

definition update_computation :: "('j, 'z) json_obj_scheme \<Rightarrow> u32 \<Rightarrow> ('j, bool) proc" where
  "update_computation J processors =
     bindp (bindp (gets id) (\<lambda>c. liftr (js_isMember J c ''requirements''))) (\<lambda>there.
       if \<not> there then ret False
       else js_at J ''requirements''
         (bindp (bindp (gets id) (\<lambda>r. liftr (js_isMember J r ''resources''))) (\<lambda>there.
           if \<not> there then ret False
           else seqp (js_at J ''resources'' (update_resources J processors)) (ret True))))"

primrec update_computations :: "('j, 'z) json_obj_scheme \<Rightarrow> u32 \<Rightarrow> string list \<Rightarrow> ('j, unit) proc" where
  "update_computations J processors [] = ret ()"
| "update_computations J processors (n # ns) =
     bindp (js_at J n (update_computation J processors)) (\<lambda>leave. if leave then ret () else update_computations J processors ns)"

definition SessionNotification_updateCores :: "('j, 'z) json_obj_scheme \<Rightarrow> u32 \<Rightarrow> ('j, unit) proc" where
  "SessionNotification_updateCores J processors =
     js_at J ''computations'' (bindp (gets (map fst \<circ> js_members J)) (update_computations J processors))"

text \<open>
  The web service of the coordinator: \<open>submit method url body\<close> answers with a code and the text of the
  response, if it has one, or throws.
\<close>

datatype http_method = GET | POST | PUT | HTTPDELETE | OPTIONS | PUT_MULTIPART

type_synonym http_service = "http_method \<Rightarrow> string \<Rightarrow> string \<Rightarrow> exn + int \<times> string option"

definition HTTP_OK :: int where "HTTP_OK = 200"
definition HTTP_SERVICE_UNAVAILABLE :: int where "HTTP_SERVICE_UNAVAILABLE = 503"

definition to_lower :: "string \<Rightarrow> string" where
  "to_lower = map (\<lambda>c. let n = of_char c :: nat in if 65 \<le> n \<and> n \<le> 90 then char_of (n + 32) else c)"

definition SessionNotification_getCoordinatorUrl :: "(string \<Rightarrow> string option) \<Rightarrow> http_service \<Rightarrow> exn + string" where
  "SessionNotification_getCoordinatorUrl getenv submit =
     (case getenv ''DWA_CONFIG_SERVICE'' of
        None \<Rightarrow> Inl (InvalidArgument ''Undefined environment variable: DWA_CONFIG_SERVICE'')
      | Some configSrvUrl \<Rightarrow>
      case getenv ''STUDIO'' of
        None \<Rightarrow> Inl (InvalidArgument ''Undefined environment variable: STUDIO'')
      | Some studio \<Rightarrow>
          (let url = configSrvUrl @ ''/serve/jose/arras/endpoints/'' @ to_lower studio @ ''/'' @ ''prod'' @ ''/coordinator/url'' in
           sbind (submit GET url []) (\<lambda>(code, text).
             if code = HTTP_OK then
               (case text of Some t \<Rightarrow> Inr t
                | None \<Rightarrow> Inl (HttpException ''Configuration service returned empty response''))
             else if code = HTTP_SERVICE_UNAVAILABLE then
               Inl (HttpException (''Configuration service unavailable: '' @ url))
             else Inl (HttpException (''Unexpected response code from configuration service. '' @
               ''The response code was : '' @ show_int code @ '', the url was : '' @ url)))))"

record platform_info =
  pi_nodeName :: string
  pi_osName :: string
  pi_osVersion :: string
  pi_osDistribution :: string
  pi_briefVersion :: string
  pi_briefDistribution :: string

primrec put_all :: "('j, 'z) json_obj_scheme \<Rightarrow> (string \<times> 'j) list \<Rightarrow> ('j, unit) proc" where
  "put_all J [] = ret ()"
| "put_all J (kv # kvs) = seqp (js_put J (fst kv) (snd kv)) (put_all J kvs)"

definition option_names :: "string list" where
  "option_names = [''production'', ''sequence'', ''shot'', ''assetGroup'', ''asset'', ''department'', ''team'', ''metadata'']"

text \<open>
  \<open>registerSession\<close>: the request it makes, if any. The response only matters when asking for it throws: what
  the code makes of it goes nowhere.
\<close>

definition SessionNotification_request ::
  "('j, 'z) json_obj_scheme \<Rightarrow> platform_info \<Rightarrow> (string \<Rightarrow> string option) \<Rightarrow> int \<Rightarrow> u32 \<Rightarrow> 'j \<Rightarrow> 'j \<Rightarrow> string \<Rightarrow>
     exn + 'j option" where
  "SessionNotification_request J info getenv pid processors definition options sessionId =
     fst (seqp (put_all J [(''session'', js_ofString J ''empty''), (''node_name'', js_ofString J (pi_nodeName info)),
            (''os_name'', js_ofString J (pi_osName info)), (''os_version'', js_ofString J (pi_osVersion info)),
            (''os_distribution'', js_ofString J (pi_osDistribution info)), (''brief_version'', js_ofString J (pi_briefVersion info)),
            (''brief_distribution'', js_ofString J (pi_briefDistribution info)), (''session_id'', js_ofString J sessionId)])
       (case getenv ''LOGNAME'' of
          None \<Rightarrow> ret None
        | Some logname \<Rightarrow>
            seqp (put_all J [(''username'', js_ofString J logname), (''pid'', js_ofInt J pid)])
            (seqp (forp option_names (\<lambda>k. bindp (liftr (js_get J options k)) (js_put J k)))
            (case SessionNotification_updateCores J processors definition of
               (Inl e, _) \<Rightarrow> raise e
             | (Inr _, def') \<Rightarrow> seqp (js_put J ''sessionDef'' def') (bindp (gets id) (ret \<circ> Some))))) (js_null J))"

definition SessionNotification_registerSession ::
  "('j, 'z) json_obj_scheme \<Rightarrow> platform_info \<Rightarrow> (string \<Rightarrow> string option) \<Rightarrow> int \<Rightarrow> u32 \<Rightarrow> 'j \<Rightarrow> 'j \<Rightarrow> string \<Rightarrow>
     http_service \<Rightarrow> exn + unit" where
  "SessionNotification_registerSession J info getenv pid processors definition options sessionId submit =
     sbind (SessionNotification_request J info getenv pid processors definition options sessionId) (\<lambda>r.
       case r of
         None \<Rightarrow> Inr ()
       | Some req \<Rightarrow>
           sbind (SessionNotification_getCoordinatorUrl getenv submit) (\<lambda>url.
             sbind (submit POST (url @ ''/sessions/local'') (js_print J req)) (\<lambda>(code, text).
               case text of
                 None \<Rightarrow> Inr ()
               | Some t \<Rightarrow>
                   (case stringToObject J t (js_null J) of
                      (Inl e, _) \<Rightarrow> (case e of ObjectFormatError _ \<Rightarrow> Inr () | _ \<Rightarrow> Inl e)
                    | (Inr _, resp) \<Rightarrow> sbind (js_isMember J resp ''message'') (\<lambda>_. Inr ())))))"

subsection \<open>Limits\<close>

lemma assigned_cores_bound:
  assumes "assigned_cores J n res = Inr c" and "js_get J res ''cores'' = Inr v" and "\<not> js_isNumeric J v"
    and "unsigned_member J res ''maxCores'' (Inr 1024) = Inr m"
  shows "c \<le> m"
  using assms by (auto simp: assigned_cores_def unsigned_member_def [of J res "''cores''"] sbind_def Let_def split: sum.splits if_splits)

text \<open>
  Reserving more cores than there are gives the computation as many as it may have at most: the difference
  wraps around.
\<close>

lemma reserved_wraps:
  fixes n r m :: u32
  assumes "unat n < unat r" and "unat r - unat n \<le> 1073741824" and "unat m \<le> 1073741824"
  shows "n - r > m"
proof -
  have "unat (n - r) = unat n + 2 ^ 32 - unat r"
    using assms(1) unat_sub_if' [of n r] by (simp add: word_le_nat_alt)
  then show ?thesis using assms by (simp add: word_less_nat_alt)
qed

lemma too_many_reserved:
  assumes "js_get J res ''cores'' = Inr v" and "\<not> js_isNumeric J v"
    and "unsigned_member J res ''maxCores'' (Inr 1024) = Inr m"
    and "unsigned_member J res ''reservedCores'' (Inr RESERVED_CORES) = Inr r"
    and "unat n < unat r" and "unat r - unat n \<le> 1073741824" and "unat m \<le> 1073741824"
  shows "assigned_cores J n res = Inr m"
  using assms reserved_wraps [OF assms(5-7)]
  by (simp add: assigned_cores_def unsigned_member_def [of J res "''cores''"])

subsection \<open>What the process is given\<close>

lemma json_ok_of: "json_obj_ok J \<Longrightarrow> json_ok J"
  by (simp add: json_obj_ok_def)

text \<open>
  The configuration as the session writes it: the members it has, the computation's configuration among them.
\<close>

definition uuid_json :: "'u uuid_api_scheme \<Rightarrow> ('j, 'z) json_obj_scheme \<Rightarrow> uuid \<Rightarrow> 'j" where
  "uuid_json U J i = js_ofString J (UUID_toString U i)"

definition exec_members :: "'u uuid_api_scheme \<Rightarrow> ('j, 'z) json_obj_scheme \<Rightarrow> address \<Rightarrow> string \<Rightarrow> int \<Rightarrow> 'j \<Rightarrow> string \<Rightarrow> 'j" where
  "exec_members U J a ipc logLevel cfg =
     (\<lambda>_. js_null J)(''sessionId'' := uuid_json U J (ad_session a), ''compId'' := uuid_json U J (ad_computation a),
       ''execId'' := uuid_json U J (ad_computation a), ''nodeId'' := uuid_json U J (ad_node a), ''ipc'' := js_ofString J ipc,
       ''logLevel'' := js_ofInt J logLevel, ''consoleLogStyle'' := js_ofUInt J 1, ''config'' := cfg)"

definition exec_names :: "string set" where
  "exec_names = {''config'', ''consoleLogStyle'', ''logLevel'', ''ipc'', ''nodeId'', ''execId'', ''compId'', ''sessionId''}"

lemma exec_config_runs:
  assumes J: "json_obj_ok J" and d: "js_rep J def fd Kd"
  shows "\<exists>c cfg d. exec_config U J a name ipc l def j = (Inr (), c) \<and> js_type J c = objectValue \<and>
    js_rep J c (exec_members U J a ipc l cfg) exec_names \<and> js_type J cfg = objectValue \<and>
    js_rep J cfg ((\<lambda>_. js_null J)(name := d)) {name} \<and> js_type J d = objectValue \<and>
    js_rep J d (fd(''computationId'' := uuid_json U J (ad_computation a))) (insert ''computationId'' Kd)"
proof -
  let ?n = "\<lambda>_ :: string. js_null J"
  let ?s = "uuid_json U J"
  let ?head = "?n(''sessionId'' := ?s (ad_session a), ''compId'' := ?s (ad_computation a),
     ''execId'' := ?s (ad_computation a), ''nodeId'' := ?s (ad_node a), ''ipc'' := js_ofString J ipc,
     ''logLevel'' := js_ofInt J l, ''consoleLogStyle'' := js_ofUInt J 1)"
  let ?K = "{''consoleLogStyle'', ''logLevel'', ''ipc'', ''nodeId'', ''execId'', ''compId'', ''sessionId''}"
  have n: "js_rep J (js_null J) ?n {}" by (rule js_rep_null [OF J])
  from js_builds_at [where f = ?head and k = "''config''" and K = ?K, OF J n js_builds_put [OF J, where k = name and v = def]]
  obtain c1 where
    c1: "js_rep J c1 (?n(name := def)) {name}"
        "js_builds J ?head ?K (js_at J ''config'' (js_put J name def)) (?head(''config'' := c1)) (insert ''config'' ?K)"
    by auto
  from js_builds_at [where f = "?n(name := def)" and k = name and K = "{name}",
      OF J d js_builds_put [OF J, where k = "''computationId''" and v = "?s (ad_computation a)"]]
  obtain d' where
    d': "js_rep J d' (fd(''computationId'' := ?s (ad_computation a))) (insert ''computationId'' Kd)" "js_type J d' = objectValue"
        "js_builds J (?n(name := def)) {name} (js_at J name (js_put J ''computationId'' (?s (ad_computation a))))
           (?n(name := d')) {name}"
    by auto
  from js_builds_at [where f = "?head(''config'' := c1)" and k = "''config''" and K = "insert ''config'' ?K", OF J c1(1) d'(3)]
  obtain cfg where
    cfg: "js_rep J cfg (?n(name := d')) {name}" "js_type J cfg = objectValue"
      "js_builds J (?head(''config'' := c1)) (insert ''config'' ?K)
         (js_at J ''config'' (js_at J name (js_put J ''computationId'' (?s (ad_computation a))))) (?head(''config'' := cfg)) (insert ''config'' ?K)"
    by auto
  have "\<exists>c. exec_config U J a name ipc l def j = (Inr (), c) \<and> js_rep J c (?head(''config'' := cfg)) (insert ''config'' ?K) \<and>
      js_type J c = objectValue"
    unfolding exec_config_def Let_def uuid_json_def [symmetric]
    by (intro js_builds_reset [OF J] js_builds_seq [OF js_builds_put [OF J]] js_builds_seq [OF c1(2)] cfg(3))
  moreover have "?head(''config'' := cfg) = exec_members U J a ipc l cfg" by (simp add: exec_members_def)
  moreover have "insert ''config'' ?K = exec_names" by (simp only: exec_names_def)
  ultimately show ?thesis using cfg(1,2) d'(1,2) by metis
qed

lemma exec_config_map:
  assumes J: "json_obj_ok J" and run: "exec_config U J a name ipc l def j = (Inr (), c)"
  shows "js_isMap J def"
proof -
  obtain x y where x: "js_at J ''config'' (js_put J name def) x = (Inr (), y)"
    and y: "js_at J ''config'' (js_at J name (js_put J ''computationId'' (uuid_json U J (ad_computation a)))) y = (Inr (), c)"
    using run unfolding exec_config_def Let_def uuid_json_def [symmetric] by (elim seqp_InrE) simp
  from x obtain sub sub1 where s1: "js_put J name def sub = (Inr (), sub1)" "js_set J ''config'' sub1 x = Inr y"
    by (rule js_at_InrE)
  from y obtain sub2 sub3 where s2: "js_get J y ''config'' = Inr sub2"
      "js_at J name (js_put J ''computationId'' (uuid_json U J (ad_computation a))) sub2 = (Inr (), sub3)"
    by (rule js_at_InrE)
  have "sub2 = sub1" using js_set_InrD(2) [OF J s1(2)] s2(1) by simp
  from s2(2) obtain d d' where d: "js_get J sub2 name = Inr d"
      "js_put J ''computationId'' (uuid_json U J (ad_computation a)) d = (Inr (), d')"
    by (rule js_at_InrE)
  have "d = def" using js_set_InrD(2) [OF J js_put_InrD [OF s1(1)]] d(1) \<open>sub2 = sub1\<close> by simp
  with js_set_InrD(1) [OF J js_put_InrD [OF d(2)]] show ?thesis by simp
qed

text \<open>Operations that change at most the spawn arguments and the files.\<close>

definition spawn_only :: "(('j, 'o) session_world, 'a) proc \<Rightarrow> bool" where
  "spawn_only p \<longleftrightarrow> (\<forall>w r w'. p w = (r, w') \<longrightarrow>
     (\<exists>sa. sw_session w' = (sw_session w)\<lparr>ls_spawnArgs := sa\<rparr>) \<and>
     sw_manager w' = sw_manager w \<and> sw_net w' = sw_net w \<and> sw_reports w' = sw_reports w)"

named_theorems spawn_frame

lemma same_spawnArgs: "\<exists>sa. s = s\<lparr>ls_spawnArgs := sa\<rparr>"
  by (rule exI [of _ "ls_spawnArgs s"]) simp

lemma spawn_only_pure [spawn_frame]:
  "spawn_only (ret a)" "spawn_only (raise e)" "spawn_only (liftr r)" "spawn_only (gets f)"
  by (auto simp: spawn_only_def same_spawnArgs)

lemma spawn_only_bindp [spawn_frame]:
  assumes "spawn_only p" and "\<And>a. spawn_only (f a)"
  shows "spawn_only (bindp p f)"
  unfolding spawn_only_def
proof (intro allI impI)
  fix w r w' assume run: "bindp p f w = (r, w')"
  obtain r1 w1 where p: "p w = (r1, w1)" by (cases "p w")
  then obtain sa where w1: "sw_session w1 = (sw_session w)\<lparr>ls_spawnArgs := sa\<rparr>" "sw_manager w1 = sw_manager w"
      "sw_net w1 = sw_net w" "sw_reports w1 = sw_reports w"
    using assms(1) unfolding spawn_only_def by blast
  show "(\<exists>sa. sw_session w' = (sw_session w)\<lparr>ls_spawnArgs := sa\<rparr>) \<and>
     sw_manager w' = sw_manager w \<and> sw_net w' = sw_net w \<and> sw_reports w' = sw_reports w"
  proof (cases r1)
    case (Inl e)
    with run p w1 show ?thesis by auto
  next
    case (Inr a)
    with run p have "f a w1 = (r, w')" by simp
    with assms(2) [of a] obtain sb where "sw_session w' = (sw_session w1)\<lparr>ls_spawnArgs := sb\<rparr>" "sw_manager w' = sw_manager w1"
        "sw_net w' = sw_net w1" "sw_reports w' = sw_reports w1"
      unfolding spawn_only_def by blast
    with w1 show ?thesis by auto
  qed
qed

lemma spawn_only_seqp [spawn_frame]: "spawn_only p \<Longrightarrow> spawn_only q \<Longrightarrow> spawn_only (seqp p q)"
  unfolding seqp_def by (rule spawn_only_bindp)

lemma spawn_only_spawn [spawn_frame]: "spawn_only (spawn f)"
  by (auto simp: spawn_only_def spawn_def ses_def)

lemma spawn_only_on_environment [spawn_frame]: "spawn_only (on_environment p)"
  by (auto simp: spawn_only_def on_environment_def zoom_def split: prod.splits)

lemma spawn_only_files [spawn_frame]: "spawn_only p \<Longrightarrow> spawn_only (\<lambda>w. p (w\<lparr>sw_files := fs w\<rparr>))"
  unfolding spawn_only_def by (metis session_world.select_convs(1,3-5) session_world.surjective session_world.update_convs(2))

lemma spawn_only_apply_environment [spawn_frame]: "spawn_only (apply_environment J name definition requirements contexts)"
  unfolding apply_environment_def by (intro spawn_frame) (auto intro!: spawn_frame)

lemma spawn_only_split:
  "(\<And>x. r = Inl x \<Longrightarrow> spawn_only (f x)) \<Longrightarrow> (\<And>x. r = Inr x \<Longrightarrow> spawn_only (g x)) \<Longrightarrow> spawn_only (case r of Inl x \<Rightarrow> f x | Inr x \<Rightarrow> g x)"
  by (cases r) simp_all

lemma spawn_only_noPackaging [spawn_frame]: "spawn_only (LocalSession_applyNoPackaging J env ctx)"
  unfolding LocalSession_applyNoPackaging_def by (intro spawn_frame) (auto split: prod.split intro!: spawn_frame)

lemma spawn_only_currentEnvironment [spawn_frame]: "spawn_only (LocalSession_applyCurrentEnvironment J env ctx)"
  unfolding LocalSession_applyCurrentEnvironment_def by (intro spawn_frame)

lemma spawn_only_shell [spawn_frame]: "spawn_only (LocalSession_applyShellPackaging U J env ctx)"
proof -
  have "spawn_only (\<lambda>w. case ShellContext_setScript U (le_write_context env) script
                (ShellContext_new pc (ad_session (ls_address (sw_session w))), sw_files w) of
           (err, sc, fs) \<Rightarrow>
             (case err of
                None \<Rightarrow> spawn (ShellContext_wrap sc) (w\<lparr>sw_files := fs\<rparr>)
              | Some m \<Rightarrow> raise (SessionError (''Shell wrap error'' @ m)) (w\<lparr>sw_files := fs\<rparr>)))" for script pc
    by (auto simp: spawn_only_def spawn_def ses_def same_spawnArgs split: prod.splits option.splits)
  then show ?thesis
    unfolding LocalSession_applyShellPackaging_def by (intro spawn_frame) (auto intro!: spawn_frame)
qed

lemma spawn_only_rez [spawn_frame]: "spawn_only (LocalSession_applyRezPackaging U J env m ctx)"
  unfolding LocalSession_applyRezPackaging_def
  by (intro spawn_frame; (auto split: option.split intro!: spawn_frame)?)
    (auto simp: spawn_only_def spawn_def ses_def same_spawnArgs Let_def split: prod.splits option.splits sum.splits if_splits)

lemma spawn_only_packaging [spawn_frame]: "spawn_only (LocalSession_applyPackaging U J env definition ctx)"
  unfolding LocalSession_applyPackaging_def Let_def by (intro spawn_frame) (auto intro!: spawn_frame)

text \<open>Operations that end with writing the configuration, and only change the spawn arguments and files before that.\<close>

definition same_but_spawn :: "('j, 'o) session_world \<Rightarrow> ('j, 'o) session_world \<Rightarrow> bool" where
  "same_but_spawn w w' \<longleftrightarrow> (\<exists>sa. sw_session w' = (sw_session w)\<lparr>ls_spawnArgs := sa\<rparr>) \<and>
     sw_manager w' = sw_manager w \<and> sw_net w' = sw_net w \<and> sw_reports w' = sw_reports w"

lemma spawn_only_same: "spawn_only p \<Longrightarrow> p w = (r, w') \<Longrightarrow> same_but_spawn w w'"
  unfolding spawn_only_def same_but_spawn_def by blast

lemma same_but_spawn_refl: "same_but_spawn w w"
  by (simp add: same_but_spawn_def same_spawnArgs)

lemma same_but_spawn_trans: "same_but_spawn w v \<Longrightarrow> same_but_spawn v u \<Longrightarrow> same_but_spawn w u"
  unfolding same_but_spawn_def by force

definition ends_with :: "(('j, 'o) session_world, unit) proc set \<Rightarrow> (('j, 'o) session_world, unit) proc \<Rightarrow> bool" where
  "ends_with Q p \<longleftrightarrow> (\<forall>w w'. p w = (Inr (), w') \<longrightarrow> (\<exists>v q. same_but_spawn w v \<and> q \<in> Q \<and> q v = (Inr (), w')))"

lemma ends_with_self: "q \<in> Q \<Longrightarrow> ends_with Q q"
  unfolding ends_with_def using same_but_spawn_refl by blast

lemma ends_with_bindp:
  assumes "spawn_only p" and "\<And>a. ends_with Q (f a)"
  shows "ends_with Q (bindp p f)"
  unfolding ends_with_def
proof (intro allI impI)
  fix w w' assume "bindp p f w = (Inr (), w')"
  then obtain a w1 where p: "p w = (Inr a, w1)" and f: "f a w1 = (Inr (), w')" by (rule bindp_InrE)
  from assms(2) f obtain v q where v: "same_but_spawn w1 v" and q: "q \<in> Q" "q v = (Inr (), w')"
    unfolding ends_with_def by blast
  from same_but_spawn_trans [OF spawn_only_same [OF assms(1) p] v] q
  show "\<exists>v q. same_but_spawn w v \<and> q \<in> Q \<and> q v = (Inr (), w')" by blast
qed

lemma ends_with_liftr: "(\<And>a. r = Inr a \<Longrightarrow> ends_with Q (f a)) \<Longrightarrow> ends_with Q (bindp (liftr r) f)"
  by (cases r) (auto simp: ends_with_def bindp_def)

lemma ends_with_seqp: "spawn_only p \<Longrightarrow> ends_with Q q \<Longrightarrow> ends_with Q (seqp p q)"
  unfolding seqp_def by (rule ends_with_bindp)

lemma seqp_ends:
  assumes "seqp p q w = (Inr (), w')" and "ends_with Q q"
  shows "\<exists>x w1 v q. p w = (Inr x, w1) \<and> same_but_spawn w1 v \<and> q \<in> Q \<and> q v = (Inr (), w')"
  using assms(1) by (rule seqp_InrE) (use assms(2) in \<open>auto simp: ends_with_def\<close>)

lemma processComputation_effect:
  fixes w :: "('j, 'o) session_world"
  assumes run: "LocalSession_processComputation U J env name d contexts w = (Inr (), w')"
  defines "a \<equiv> ls_address (sw_session w)"
  defines "path \<equiv> exec_config_path U name (ad_computation a)"
  shows "\<exists>l sa c. exec_config U J a name (path @ ''.ipc'') l d (ls_execConfig (sw_session w)) = (Inr (), c) \<and>
    (l = DEFAULT_LOG_LEVEL \<or> (\<exists>v. js_asInt J v = Inr l)) \<and>
    sw_session w' = (sw_session w)\<lparr>ls_name := name, ls_spawnArgs := sa, ls_execConfig := c,
      ls_execConfigFilePath := path, ls_ipcAddress := path @ ''.ipc''\<rparr> \<and>
    sw_manager w' = sw_manager w \<and> sw_net w' = sw_net w \<and> sw_reports w' = sw_reports w"
proof -
  let ?Q = "{bindp (gets sw_session) (\<lambda>s. on_config (exec_config U J (ls_address s) name (ls_ipcAddress s) l d)) | l. l = DEFAULT_LOG_LEVEL \<or> (\<exists>v. js_asInt J v = Inr l)}"
  let ?w0 = "w\<lparr>sw_session := (sw_session w)\<lparr>ls_name := name, ls_execConfigFilePath := path, ls_ipcAddress := path @ ''.ipc'',
    ls_spawnArgs := SpawnArgs_new\<rparr>\<rparr>"
  have "\<exists>x w1 v q. ses (\<lambda>s. let path = exec_config_path U name (ad_computation (ls_address s)) in
        s\<lparr>ls_name := name, ls_execConfigFilePath := path, ls_ipcAddress := path @ ''.ipc'', ls_spawnArgs := SpawnArgs_new\<rparr>) w
      = (Inr x, w1) \<and> same_but_spawn w1 v \<and> q \<in> ?Q \<and> q v = (Inr (), w')"
    by (rule seqp_ends [OF run [unfolded LocalSession_processComputation_def]],
      intro ends_with_liftr ends_with_bindp ends_with_seqp ends_with_self spawn_frame, rule CollectI, rule exI, rule conjI, rule refl)
      (auto split: if_splits)
  then obtain x w1 v q where w0: "ses (\<lambda>s. let path = exec_config_path U name (ad_computation (ls_address s)) in
        s\<lparr>ls_name := name, ls_execConfigFilePath := path, ls_ipcAddress := path @ ''.ipc'', ls_spawnArgs := SpawnArgs_new\<rparr>) w
      = (Inr x, w1)" and v: "same_but_spawn w1 v" and "q \<in> ?Q" and qv: "q v = (Inr (), w')" by blast
  then obtain l where l: "l = DEFAULT_LOG_LEVEL \<or> (\<exists>v. js_asInt J v = Inr l)"
    and ql: "q = bindp (gets sw_session) (\<lambda>s. on_config (exec_config U J (ls_address s) name (ls_ipcAddress s) l d))" by blast
  have w1: "w1 = ?w0" using w0 by (auto simp: ses_def Let_def a_def path_def)
  have q: "on_config (exec_config U J (ls_address (sw_session v)) name (ls_ipcAddress (sw_session v)) l d) v = (Inr (), w')"
    using qv by (simp add: ql bindp_def)
  from v w1 obtain sa where s: "sw_session v = (sw_session ?w0)\<lparr>ls_spawnArgs := sa\<rparr>" and rest: "sw_manager v = sw_manager w"
      "sw_net v = sw_net w" "sw_reports v = sw_reports w"
    unfolding same_but_spawn_def by auto
  from q obtain c where "exec_config U J a name (path @ ''.ipc'') l d (ls_execConfig (sw_session w)) = (Inr (), c)"
      "w' = v\<lparr>sw_session := (sw_session v)\<lparr>ls_execConfig := c\<rparr>\<rparr>"
    by (auto simp: on_config_def zoom_def s a_def split: prod.splits)
  with s rest l show ?thesis by (intro exI [of _ l] exI [of _ sa] exI [of _ c]) simp
qed

subsection \<open>Routing data\<close>

definition set_config :: "'j \<Rightarrow> ('j, 'o) session_world \<Rightarrow> ('j, 'o) session_world" where
  "set_config c w = w\<lparr>sw_session := (sw_session w)\<lparr>ls_execConfig := c\<rparr>\<rparr>"

lemma set_config_simps [simp]:
  "sw_session (set_config c w) = (sw_session w)\<lparr>ls_execConfig := c\<rparr>" "set_config c (set_config d w) = set_config c w"
  "sw_manager (set_config c w) = sw_manager w" "sw_net (set_config c w) = sw_net w" "sw_reports (set_config c w) = sw_reports w"
  by (simp_all add: set_config_def)

lemma on_config_builds:
  assumes "js_builds J f K p g L" and "js_rep J (ls_execConfig (sw_session w)) f K"
  shows "\<exists>c. on_config p w = (Inr (), set_config c w) \<and> js_rep J c g L \<and> js_type J c = objectValue"
proof -
  obtain c where "p (ls_execConfig (sw_session w)) = (Inr (), c)" "js_rep J c g L" "js_type J c = objectValue"
    using assms unfolding js_builds_def by blast
  then show ?thesis by (intro exI [of _ c]) (simp add: on_config_def set_config_def)
qed

text \<open>The filter of the client for the computation: nothing, or the one the definition gives.\<close>

definition client_filter :: "('j, 'z) json_obj_scheme \<Rightarrow> 'j \<Rightarrow> 'j \<Rightarrow> bool" where
  "client_filter J fo sf \<longleftrightarrow> js_rep J fo (\<lambda>_. js_null J) {} \<or>
     js_isObject J sf \<and> js_rep J fo ((\<lambda>_. js_null J)(''(client)'' := sf)) {''(client)''}"

lemma buildRouting_effect:
  assumes J: "json_obj_ok J" and run: "LocalSession_buildRouting U J client w = (Inr (), w')"
    and c: "js_rep J (ls_execConfig (sw_session w)) f K" and f: "f ''routing'' = js_null J"
    and sess: "UUID_toString U (ad_session (ls_address (sw_session w))) = sid" "sid \<noteq> ''messageFilter''"
  defines "a \<equiv> ls_address (sw_session w)" and "name \<equiv> ls_name (sw_session w)"
  shows "\<exists>c r sv cs e mf fo sf. w' = set_config c w \<and>
    js_rep J c (f(''routing'' := r)) (insert ''routing'' K) \<and> js_type J c = objectValue \<and>
    js_rep J r ((\<lambda>_. js_null J)(sid := sv, ''messageFilter'' := mf)) {''messageFilter'', sid} \<and> js_type J r = objectValue \<and>
    js_rep J sv ((\<lambda>_. js_null J)(''computations'' := cs)) {''computations''} \<and>
    js_rep J cs ((\<lambda>_. js_null J)(name := e)) {name} \<and> js_type J cs = objectValue \<and>
    js_rep J e ((\<lambda>_. js_null J)(''compId'' := uuid_json U J (ad_computation a), ''nodeId'' := uuid_json U J (ad_node a)))
      {''nodeId'', ''compId''} \<and> js_type J mf = objectValue \<and> js_rep J mf ((\<lambda>_. js_null J)(name := fo)) {name} \<and>
    client_filter J fo sf"
proof -
  let ?n = "\<lambda>_ :: string. js_null J"
  note null = js_rep_null [OF J]
  let ?put = "seqp (js_put J ''compId'' (uuid_json U J (ad_computation a))) (js_put J ''nodeId'' (uuid_json U J (ad_node a)))"
  have "js_builds J ?n {} ?put (?n(''compId'' := uuid_json U J (ad_computation a), ''nodeId'' := uuid_json U J (ad_node a)))
      {''nodeId'', ''compId''}"
    by (rule js_builds_seq [OF js_builds_put [OF J] js_builds_put [OF J]])
  from js_builds_at [where f = ?n and k = name and K = "{}", OF J null this]
  obtain e where e: "js_rep J e (?n(''compId'' := uuid_json U J (ad_computation a), ''nodeId'' := uuid_json U J (ad_node a)))
      {''nodeId'', ''compId''}" "js_builds J ?n {} (js_at J name ?put) (?n(name := e)) {name}"
    by auto
  from js_builds_at [where f = ?n and k = "''computations''" and K = "{}", OF J null e(2)]
  obtain cs where cs: "js_rep J cs (?n(name := e)) {name}" "js_type J cs = objectValue"
      "js_builds J ?n {} (js_at J ''computations'' (js_at J name ?put)) (?n(''computations'' := cs)) {''computations''}"
    by auto
  from js_builds_at [where f = ?n and k = sid and K = "{}", OF J null cs(3)]
  obtain sv where sv: "js_rep J sv (?n(''computations'' := cs)) {''computations''}"
      "js_builds J ?n {} (js_at J sid (js_at J ''computations'' (js_at J name ?put))) (?n(sid := sv)) {sid}"
    by auto
  from js_builds_at [where f = f and k = "''routing''" and K = K, OF J null sv(2) f]
  obtain r1 where r1: "js_rep J r1 (?n(sid := sv)) {sid}"
      "js_builds J f K (js_at J ''routing'' (js_at J sid (js_at J ''computations'' (js_at J name ?put))))
         (f(''routing'' := r1)) (insert ''routing'' K)"
    by auto
  let ?f1 = "f(''routing'' := r1)" and ?K = "insert ''routing'' K"
  let ?filters = "\<lambda>p. on_config (js_at J ''routing'' (js_at J ''messageFilter'' p))"
  obtain c1 where c1: "on_config (js_at J ''routing'' (js_at J sid (js_at J ''computations'' (js_at J name ?put)))) w = (Inr (), set_config c1 w)"
      "js_rep J c1 ?f1 ?K"
    using on_config_builds [OF r1(2) c] by blast
  from js_builds_at [where f = "?n(sid := sv)" and k = "''messageFilter''" and K = "{sid}", OF J null js_builds_put [OF J, where k = name and v = "js_emptyObject J"]]
  obtain m1 where m1: "js_rep J m1 (?n(name := js_emptyObject J)) {name}" "js_type J m1 = objectValue"
      "js_builds J (?n(sid := sv)) {sid} (js_at J ''messageFilter'' (js_put J name (js_emptyObject J)))
         (?n(sid := sv, ''messageFilter'' := m1)) {''messageFilter'', sid}"
    using sess(2) by auto
  from js_builds_at [where f = ?f1 and k = "''routing''" and K = ?K, OF J r1(1) m1(3)]
  obtain r2 where r2: "js_rep J r2 (?n(sid := sv, ''messageFilter'' := m1)) {''messageFilter'', sid}" "js_type J r2 = objectValue"
      "js_builds J ?f1 ?K (js_at J ''routing'' (js_at J ''messageFilter'' (js_put J name (js_emptyObject J)))) (f(''routing'' := r2)) ?K"
    by auto
  have "js_rep J (ls_execConfig (sw_session (set_config c1 w))) ?f1 ?K" using c1(2) by simp
  from on_config_builds [OF r2(3) this] obtain c2 where
    c2: "?filters (js_put J name (js_emptyObject J)) (set_config c1 w) = (Inr (), set_config c2 w)"
      "js_rep J c2 (f(''routing'' := r2)) ?K" "js_type J c2 = objectValue"
    by auto
  have "\<exists>c r mf fo sf. w' = set_config c w \<and> js_rep J c (f(''routing'' := r)) ?K \<and> js_type J c = objectValue \<and>
      js_rep J r (?n(sid := sv, ''messageFilter'' := mf)) {''messageFilter'', sid} \<and> js_type J r = objectValue \<and> js_type J mf = objectValue \<and>
      js_rep J mf (?n(name := fo)) {name} \<and> client_filter J fo sf"
  proof (cases "w' = set_config c2 w")
    case True
    with c2 r2 m1 js_rep_empty [OF J] show ?thesis unfolding client_filter_def by blast
  next
    case False
    have "bindp (liftr (js_get J client ''messages'')) (\<lambda>messages. if js_isObject J messages then
        bindp (liftr (js_get J messages name)) (\<lambda>sfilter.
          if js_isObject J sfilter then ?filters (js_at J name (js_put J ''(client)'' sfilter)) else ret ())
        else ret ()) (set_config c2 w) = (Inr (), w')"
      using run c1(1) c2(1) sess(1) unfolding name_def a_def LocalSession_buildRouting_def uuid_json_def [symmetric]
      by (simp add: Let_def split: if_splits)
    then obtain sfilter where run3: "?filters (js_at J name (js_put J ''(client)'' sfilter)) (set_config c2 w) = (Inr (), w')"
      and sf: "js_isObject J sfilter"
      using False by (auto elim!: bindp_InrE split: if_splits)
    from js_builds_at [where f = "?n(name := js_emptyObject J)" and k = name and K = "{name}",
        OF J js_rep_empty [OF J] js_builds_put [OF J, where k = "''(client)''" and v = sfilter]]
    obtain v where v: "js_builds J (?n(name := js_emptyObject J)) {name} (js_at J name (js_put J ''(client)'' sfilter)) (?n(name := v)) {name}"
        "js_rep J v (?n(''(client)'' := sfilter)) {''(client)''}"
      by auto
    from js_builds_at [where f = "?n(sid := sv, ''messageFilter'' := m1)" and k = "''messageFilter''" and
        K = "{''messageFilter'', sid}", OF J m1(1) v(1)] obtain m2 where m2: "js_type J m2 = objectValue"
      "js_builds J (?n(sid := sv, ''messageFilter'' := m1)) {''messageFilter'', sid}
         (js_at J ''messageFilter'' (js_at J name (js_put J ''(client)'' sfilter)))
         (?n(sid := sv, ''messageFilter'' := m2)) {''messageFilter'', sid}" "js_rep J m2 (?n(name := v)) {name}"
      by auto
    from js_builds_at [where f = "f(''routing'' := r2)" and k = "''routing''" and K = ?K, OF J r2(1) m2(2)]
    obtain r3 where r3: "js_rep J r3 (?n(sid := sv, ''messageFilter'' := m2)) {''messageFilter'', sid}" "js_type J r3 = objectValue"
      "js_builds J (f(''routing'' := r2)) ?K
         (js_at J ''routing'' (js_at J ''messageFilter'' (js_at J name (js_put J ''(client)'' sfilter)))) (f(''routing'' := r3)) ?K"
      by auto
    have "js_rep J (ls_execConfig (sw_session (set_config c2 w))) (f(''routing'' := r2)) ?K" using c2(2) by simp
    from on_config_builds [OF r3(3) this] run3 have "\<exists>c. w' = set_config c w \<and> js_rep J c (f(''routing'' := r3)) ?K \<and> js_type J c = objectValue"
      by auto
    moreover have "client_filter J v sfilter" using v(2) sf by (simp add: client_filter_def)
    ultimately show ?thesis using r3(1,2) m2(1,3) by blast
  qed
  then show ?thesis using cs sv(1) e(1) by blast
qed


lemma one_computation:
  assumes J: "json_obj_ok J" and o: "js_isObject J comps" and n: "js_size J comps = 2"
    and client: "js_get J comps ''(client)'' = Inr client" "\<not> js_isNull J client"
  shows "\<exists>name d. name \<noteq> ''(client)'' \<and> js_get J comps name = Inr d \<and>
    (js_members J comps = [(''(client)'', client), (name, d)] \<or> js_members J comps = [(name, d), (''(client)'', client)])"
proof -
  have m: "js_isMap J comps" by (rule obj_ok_isObject [OF J o])
  have len: "length (js_members J comps) = 2" using obj_laws(10) [OF J] m n by simp
  then obtain x y where xy: "js_members J comps = [x, y]" by (auto simp: length_Suc_conv numeral_2_eq_2)
  have "''(client)'' \<in> set (map fst (js_members J comps))"
    using obj_ok_members(3) [OF J m] client json_laws(3) [OF obj_ok_json [OF J]] by force
  moreover have "fst x \<noteq> fst y" using obj_ok_members(1) [OF J m] xy by simp
  moreover have "js_get J comps (fst x) = Inr (snd x)" "js_get J comps (fst y) = Inr (snd y)"
    using obj_ok_members(2) [OF J m] xy by (metis list.set_intros(1,2) prod.collapse)+
  ultimately show ?thesis
    using client(1) xy len
    by (cases x; cases y) (auto intro: exI [of _ "fst y"] exI [of _ "fst x"])
qed

fun js_path :: "('j, 'z) json_obj_scheme \<Rightarrow> 'j \<Rightarrow> string list \<Rightarrow> exn + 'j" where
  "js_path J j [] = Inr j"
| "js_path J j (k # ks) = sbind (js_get J j k) (\<lambda>v. js_path J v ks)"

lemma setDefinition_effect:
  fixes w :: "('j, 'o) session_world"
  assumes J: "json_obj_ok J" and run: "LocalSession_setDefinition U J env def w = (Inr (), w')"
    and sid: "UUID_toString U (ad_session (ls_address (sw_session w))) = sid" "sid \<noteq> ''messageFilter''"
  defines "a \<equiv> ls_address (sw_session w)"
  shows "\<exists>comps client name d fd Kd l sa c r sv cs e mf cfg d' fo sf.
    js_get J def ''computations'' = Inr comps \<and> js_get J comps ''(client)'' = Inr client \<and> \<not> js_isNull J client \<and>
    name \<noteq> ''(client)'' \<and> js_get J comps name = Inr d \<and> length (js_members J comps) = 2 \<and> js_rep J d fd Kd \<and>
    sw_session w' = (sw_session w)\<lparr>ls_name := name, ls_spawnArgs := sa, ls_execConfig := c,
      ls_execConfigFilePath := exec_config_path U name (ad_computation a),
      ls_ipcAddress := exec_config_path U name (ad_computation a) @ ''.ipc''\<rparr> \<and>
    sw_manager w' = sw_manager w \<and> sw_net w' = sw_net w \<and> sw_reports w' = sw_reports w \<and>
    js_type J c = objectValue \<and>
    js_rep J c ((exec_members U J a (exec_config_path U name (ad_computation a) @ ''.ipc'') l cfg)(''routing'' := r))
      (insert ''routing'' exec_names) \<and>
    js_type J cfg = objectValue \<and> js_rep J cfg ((\<lambda>_. js_null J)(name := d')) {name} \<and>
    js_type J d' = objectValue \<and> js_rep J d' (fd(''computationId'' := uuid_json U J (ad_computation a))) (insert ''computationId'' Kd) \<and>
    js_rep J r ((\<lambda>_. js_null J)(sid := sv, ''messageFilter'' := mf)) {''messageFilter'', sid} \<and> js_type J r = objectValue \<and>
    js_rep J sv ((\<lambda>_. js_null J)(''computations'' := cs)) {''computations''} \<and>
    js_rep J cs ((\<lambda>_. js_null J)(name := e)) {name} \<and> js_type J cs = objectValue \<and>
    js_rep J e ((\<lambda>_. js_null J)(''compId'' := uuid_json U J (ad_computation a), ''nodeId'' := uuid_json U J (ad_node a)))
      {''nodeId'', ''compId''} \<and> js_type J mf = objectValue \<and> js_rep J mf ((\<lambda>_. js_null J)(name := fo)) {name} \<and>
    client_filter J fo sf \<and> (l = DEFAULT_LOG_LEVEL \<or> (\<exists>v. js_asInt J v = Inr l))"
proof -
  from run obtain comps client contexts where get: "js_get J def ''computations'' = Inr comps" "js_isObject J comps" "js_size J comps = 2"
      "js_get J comps ''(client)'' = Inr client" "\<not> js_isNull J client"
    and run1: "seqp (forp (js_members J comps) (\<lambda>(name, c).
               if name \<noteq> ''(client)'' then LocalSession_processComputation U J env name c contexts else ret ()))
             (LocalSession_buildRouting U J client) w = (Inr (), w')"
    unfolding LocalSession_setDefinition_def by (auto simp: Let_def elim!: bindp_InrE split: if_splits)
  obtain name d where nd: "name \<noteq> ''(client)''" "js_get J comps name = Inr d"
      "js_members J comps = [(''(client)'', client), (name, d)] \<or> js_members J comps = [(name, d), (''(client)'', client)]"
    using one_computation [OF J get(2-5)] by blast
  let ?p = "LocalSession_processComputation U J env name d contexts :: (('j, 'o) session_world, unit) proc"
  let ?loop = "forp (js_members J comps) (\<lambda>(name, c).
      if name \<noteq> ''(client)'' then LocalSession_processComputation U J env name c contexts else ret ()) :: (('j, 'o) session_world, unit) proc"
  have loop: "?loop = ?p \<or> ?loop = seqp ?p (ret ())"
    using nd(1,3) by auto
  from run1 obtain x w1 where first: "?loop w = (Inr x, w1)" and route: "LocalSession_buildRouting U J client w1 = (Inr (), w')"
    by (rule seqp_InrE)
  have proc: "?p w = (Inr (), w1)"
    using loop
  proof
    assume "?loop = ?p"
    show ?thesis using first unfolding \<open>?loop = ?p\<close> by simp
  next
    assume *: "?loop = seqp ?p (ret ())"
    show ?thesis using first unfolding * by (rule seqp_InrE) simp
  qed
  let ?path = "exec_config_path U name (ad_computation a)"
  obtain l sa c0 where c0: "exec_config U J a name (?path @ ''.ipc'') l d (ls_execConfig (sw_session w)) = (Inr (), c0)"
    and w1: "sw_session w1 = (sw_session w)\<lparr>ls_name := name, ls_spawnArgs := sa, ls_execConfig := c0,
      ls_execConfigFilePath := ?path, ls_ipcAddress := ?path @ ''.ipc''\<rparr>"
      "sw_manager w1 = sw_manager w" "sw_net w1 = sw_net w" "sw_reports w1 = sw_reports w"
    and l: "l = DEFAULT_LOG_LEVEL \<or> (\<exists>v. js_asInt J v = Inr l)"
    using processComputation_effect [OF proc] unfolding a_def by blast
  obtain fd Kd where d: "js_rep J d fd Kd" using js_rep_of [OF J exec_config_map [OF J c0]] by blast
  obtain cfg d' where cfg: "js_rep J c0 (exec_members U J a (?path @ ''.ipc'') l cfg) exec_names" "js_type J cfg = objectValue"
      "js_rep J cfg ((\<lambda>_. js_null J)(name := d')) {name}" "js_type J d' = objectValue"
      "js_rep J d' (fd(''computationId'' := uuid_json U J (ad_computation a))) (insert ''computationId'' Kd)"
    using exec_config_runs [OF J d, of U a name "?path @ ''.ipc''" l "ls_execConfig (sw_session w)"] c0 by auto
  have "js_rep J (ls_execConfig (sw_session w1)) (exec_members U J a (?path @ ''.ipc'') l cfg) exec_names"
      "exec_members U J a (?path @ ''.ipc'') l cfg ''routing'' = js_null J"
      "UUID_toString U (ad_session (ls_address (sw_session w1))) = sid"
    using cfg(1) sid(1) by (simp_all add: w1(1) exec_members_def)
  from buildRouting_effect [OF J route this sid(2)] obtain c r sv cs e mf fo sf where
    r: "w' = set_config c w1" "js_type J c = objectValue"
       "js_rep J c ((exec_members U J a (?path @ ''.ipc'') l cfg)(''routing'' := r)) (insert ''routing'' exec_names)"
       "js_rep J r ((\<lambda>_. js_null J)(sid := sv, ''messageFilter'' := mf)) {''messageFilter'', sid}" "js_type J r = objectValue"
       "js_rep J sv ((\<lambda>_. js_null J)(''computations'' := cs)) {''computations''}"
       "js_rep J cs ((\<lambda>_. js_null J)(name := e)) {name}" "js_type J cs = objectValue"
       "js_rep J e ((\<lambda>_. js_null J)(''compId'' := uuid_json U J (ad_computation a), ''nodeId'' := uuid_json U J (ad_node a)))
          {''nodeId'', ''compId''}" "js_type J mf = objectValue" "js_rep J mf ((\<lambda>_. js_null J)(name := fo)) {name}"
       "client_filter J fo sf"
    unfolding w1(1) by (simp add: a_def) metis
  have len: "length (js_members J comps) = 2" using nd(3) by auto
  have s': "sw_session w' = (sw_session w)\<lparr>ls_name := name, ls_spawnArgs := sa, ls_execConfig := c,
      ls_execConfigFilePath := ?path, ls_ipcAddress := ?path @ ''.ipc''\<rparr>"
      "sw_manager w' = sw_manager w" "sw_net w' = sw_net w" "sw_reports w' = sw_reports w"
    by (simp_all add: r(1) w1)
  show ?thesis
    by (rule exI [of _ comps], rule exI [of _ client], rule exI [of _ name], rule exI [of _ d], rule exI [of _ fd],
        rule exI [of _ Kd], rule exI [of _ l], rule exI [of _ sa], rule exI [of _ c], rule exI [of _ r], rule exI [of _ sv],
        rule exI [of _ cs], rule exI [of _ e], rule exI [of _ mf], rule exI [of _ cfg], rule exI [of _ d'],
        rule exI [of _ fo], rule exI [of _ sf])
      (intro conjI get nd(1,2) len d s' r cfg l)
qed

subsection \<open>Starting\<close>

text \<open>
  A process object that is new, spawned with enough memory to ask for, is spawned when \<open>spawnProcess\<close> succeeds.
\<close>

lemma spawn_new_process:
  assumes mem: "mem_ok (pm_memory m)" "request_ok (sa_assignedMb sa) (pm_memory m)" and pid: "fork \<noteq> Some 0"
    and add: "ProcessManager_addProcess U i name sid m = (Inr a, m1)"
    and run: "Process_spawn pipes_ok cg_ok fork sa a m1 = (Inr sc, m2)" and sc: "StateChange_success sc"
  shows "\<exists>pid. fork = Some pid \<and> pr_pid (obj m2 a) = pid \<and> pr_state (obj m2 a) = Spawned \<and> pr_id (obj m2 a) = i \<and>
    pr_terminationThread (obj m2 a) = No_thread \<and> pr_observer (obj m2 a) = sa_observer sa"
proof -
  obtain p where p: "Process_new i (if name = [] then ''Process_'' @ UUID_toString U i else name) (if UUID_isNull sid then i else sid) = Inr p"
      "a = length (pm_heap m)" "m1 = m\<lparr>pm_heap := pm_heap m @ [p], pm_processes := map_set i a (pm_processes m)\<rparr>"
    using add by (auto simp: ProcessManager_addProcess_def Let_def split: sum.splits)
  have o: "obj m1 a = p" and len: "a < length (pm_heap m1)" by (simp_all add: p(2,3))
  have pf: "pr_state p = NotSpawned" "pr_terminationThread p = No_thread" "pr_id p = i"
    using p(1) by (auto simp: Process_new_def split: if_splits)
  let ?m = "upd_obj a (apply_args sa) m1"
  have om: "obj ?m a = apply_args sa p" using len o by simp
  have io: "\<not> (sa_ioCapture sa \<and> \<not> pipes_ok)"
    using run sc pf o by (auto simp: Process_spawn_def Let_def StateChange_success_def split: if_splits)
  obtain r3 m3 where pre0: "ProcessManager_preFork_cb cg_ok a ?m = (r3, m3)" by (rule prod.exhaust)
  have "r3 = Inr ()" using run pf o io pre0 by (cases r3) (auto simp: Process_spawn_def Let_def split: if_splits)
  with pre0 have pre: "ProcessManager_preFork_cb cg_ok a ?m = (Inr (), m3)" by simp
  have fork: "(case fork of None \<Rightarrow> (Inr SC_Terminated :: exn + state_change, Process_fork_failed cg_ok a m3)
      | Some pid \<Rightarrow> (Inr SC_Success, Process_forked pid a m3)) = (Inr sc, m2)"
    using run pf o io pre by (simp add: Process_spawn_def Let_def)
  from fork sc obtain q where q: "fork = Some q" "m2 = Process_forked q a m3"
    by (auto simp: StateChange_success_def split: option.splits)
  have mem': "mem_ok (pm_memory ?m)" "request_ok (pr_assignedMb (obj ?m a)) (pm_memory ?m)" "a < length (pm_heap ?m)"
    using mem len om by (simp_all add: p(3) pm_frame pm_heap_simps)
  from preFork_effect [OF mem' pre] obtain r c where m3: "pm_heap m3 = (pm_heap ?m)[a := (obj ?m a)\<lparr>pr_reservedMb := r, pr_cgroupExists := c\<rparr>]"
      "pm_processes m3 = pm_processes ?m" by blast
  have o3: "obj m3 a = (apply_args sa p)\<lparr>pr_reservedMb := r, pr_cgroupExists := c\<rparr>" and len3: "a < length (pm_heap m3)"
    using m3(1) mem'(3) om by simp_all
  have reg: "map_of (pm_processes m3) (pr_id (obj m3 a)) = Some a"
    using m3(2) pf(3) by (simp add: o3 p(3) pm_frame)
  have "q \<noteq> 0" using pid q(1) by simp
  note f = forked_effect(1) [OF len3 reg this]
  have "obj m2 a = (obj m3 a)\<lparr>pr_pid := q, pr_state := Spawned\<rparr>" using f len3 by (simp add: q(2))
  then show ?thesis using q(1) pf by (simp add: o3 apply_args_def)
qed

lemma connectProc_frame:
  "LocalSession_connectProc os w = (r, w') \<Longrightarrow> sw_manager w' = sw_manager w \<and> ls_process (sw_session w') = ls_process (sw_session w)"
  by (auto simp: LocalSession_connectProc_def Let_def split: prod.splits sum.splits)

lemma readRegistration_frame:
  assumes "LocalSession_readRegistration os p w = (r, w')"
  shows "sw_manager w' = sw_manager w \<and> ls_process (sw_session w') = ls_process (sw_session w)"
proof -
  obtain r1 w1 where r1: "on_peer p (Peer_receive_all_or_throw os True REGISTRATION_SIZE ''LocalSession::readRegistration'' NEGOTIATION_TIMEOUT_MS) w = (r1, w1)"
    by (rule prod.exhaust)
  with assms have "w' = w1" by (cases r1) (auto simp: LocalSession_readRegistration_def)
  with r1 show ?thesis by (auto simp: on_peer_def split: prod.splits)
qed


text \<open>
  C29 (error). The name of a computation may be too long for its socket: from 57 characters on the listening
  thread throws, and nothing catches it, so the whole client ends.
\<close>

theorem long_name_ends_program:
  assumes "length (UUID_toString U (ad_computation (ls_address (sw_session w)))) = 36"
    and "56 < length (ls_name (sw_session w))"
    and "ls_ipcAddress (sw_session w) = exec_config_path U (ls_name (sw_session w)) (ad_computation (ls_address (sw_session w))) @ ''.ipc''"
  shows "fst (LocalSession_connectProc os w) = Inl (Undefined ''std::terminate'')"
proof -
  let ?path = "ls_ipcAddress (sw_session w)"
  have "107 < length ?path" using assms by (simp add: exec_config_path_def)
  then have c: "check_ipc_name ?path (q :: 'c ipc_peer) = (Inl (InvalidParameterError ''IPC name too long. Must be 107 chars or fewer.''), q)" for q
    by (auto simp: check_ipc_name_def UNIX_PATH_MAX_def)
  have "IPCSocketPeer_listen os ?path 32 (IPCSocketPeer_new net) =
      (Inl (InvalidParameterError ''IPC name too long. Must be 107 chars or fewer.''), IPCSocketPeer_new net)" for net
    using c by (simp add: IPCSocketPeer_listen_def IPCSocketPeer_new_def no_socket_def)
  then show ?thesis by (simp add: LocalSession_connectProc_def Let_def is_std_exception_def)
qed

text \<open>
  After \<open>stop\<close>, a process that exits with code 0, or is killed by the termination signal, or
  whose shell reports that as a high exit code, is reported once, as an expected end: the session stopped,
  because the computation \<open>exited normally\<close>. Killed by that signal unasked, it is an unexpected end.
\<close>

theorem stop_reports_normal_exit:
  assumes "json_obj_ok J" and "LocalSession_stop w = (Inr (), w1)" and "ls_process (sw_session w) = Some a"
    and "ls_terminateCallback (sw_session w)" and "\<not> ls_terminationExpected (sw_session w)"
    and "es \<in> {\<lparr>es_exitType = ET_Exit, es_status = 0\<rparr>, \<lparr>es_exitType = ET_Signal, es_status = SIGTERM\<rparr>,
      \<lparr>es_exitType = ET_Exit, es_status = 128 + SIGTERM\<rparr>}"
  shows "(let s = sw_session w; ad = ls_address s in
    (\<exists>st. LocalSession_onTerminate J (ad_computation ad) (ad_session ad) es w1 =
        (Inr (), w1\<lparr>sw_reports := sw_reports w1 @ [(True, st)]\<rparr>) \<and>
      js_string J st ''execStatus'' = Inr ''stopped'' \<and>
      js_string J st ''disconnectReason'' = Inr (''compExited: '' @ ls_name s @ '' exited normally'')) \<and>
    (\<exists>st. LocalSession_onTerminate J (ad_computation ad) (ad_session ad) \<lparr>es_exitType = ET_Signal, es_status = SIGTERM\<rparr> w =
        (Inr (), w\<lparr>sw_reports := sw_reports w @ [(False, st)]\<rparr>) \<and>
      js_string J st ''disconnectReason'' = Inr (''compExited: '' @ ls_name s @ '' exited due to signal '' @ show_int SIGTERM)))"
proof -
  have s1: "ls_address (sw_session w1) = ls_address (sw_session w)" "ls_name (sw_session w1) = ls_name (sw_session w)"
      "ls_terminateCallback (sw_session w1)" "ls_terminationExpected (sw_session w1)"
    using assms(2-4) by (auto simp: LocalSession_stop_def ses_def on_manager_def zoom_def elim!: bindp_InrE seqp_InrE split: prod.splits)
  have status: "\<exists>st. seqp (js_put J ''disconnectReason'' (js_ofString J reason)) (seqp (js_put J ''execStatus'' (js_ofString J ''stopped''))
        (js_put J ''execStoppedReason'' (js_ofString J reason))) (js_null J) = (Inr (), st) \<and>
      js_string J st ''execStatus'' = Inr ''stopped'' \<and> js_string J st ''disconnectReason'' = Inr reason" for reason
  proof -
    let ?r = "js_ofString J reason"
    have "js_builds J (\<lambda>_. js_null J) {} (seqp (js_put J ''disconnectReason'' ?r) (seqp (js_put J ''execStatus'' (js_ofString J ''stopped''))
        (js_put J ''execStoppedReason'' ?r)))
      ((\<lambda>_. js_null J)(''disconnectReason'' := ?r, ''execStatus'' := js_ofString J ''stopped'', ''execStoppedReason'' := ?r))
      {''execStoppedReason'', ''execStatus'', ''disconnectReason''}"
      by (rule js_builds_seq [OF js_builds_put [OF assms(1)] js_builds_seq [OF js_builds_put [OF assms(1)] js_builds_put [OF assms(1)]]])
    with js_rep_null [OF assms(1)] obtain st where st: "seqp (js_put J ''disconnectReason'' ?r) (seqp (js_put J ''execStatus'' (js_ofString J ''stopped''))
        (js_put J ''execStoppedReason'' ?r)) (js_null J) = (Inr (), st)" "js_rep J st
      ((\<lambda>_. js_null J)(''disconnectReason'' := ?r, ''execStatus'' := js_ofString J ''stopped'', ''execStoppedReason'' := ?r))
      {''execStoppedReason'', ''execStatus'', ''disconnectReason''}"
      unfolding js_builds_def by blast
    have "js_get J st ''execStatus'' = Inr (js_ofString J ''stopped'')" "js_get J st ''disconnectReason'' = Inr ?r"
      using js_rep_get [OF st(2), of "''execStatus''"] js_rep_get [OF st(2), of "''disconnectReason''"] by simp_all
    with st(1) show ?thesis by (simp add: js_string_ofString [OF obj_ok_json [OF assms(1)]])
  qed
  have normal: "exitStatusString (snd (ExitStatus_convertHighExitToSignal es)) True = ''exited normally''"
    using assms(6) by (auto simp: ExitStatus_convertHighExitToSignal_def exitStatusString_def exitCodeString_def SIGTERM_def)
  have killed: "exitStatusString (snd (ExitStatus_convertHighExitToSignal \<lparr>es_exitType = ET_Signal, es_status = SIGTERM\<rparr>)) False =
      ''exited due to signal '' @ show_int SIGTERM"
    by (simp add: ExitStatus_convertHighExitToSignal_def exitStatusString_def)
  obtain st where st: "seqp (js_put J ''disconnectReason'' (js_ofString J (''compExited: '' @ ls_name (sw_session w) @ '' '' @ ''exited normally'')))
      (seqp (js_put J ''execStatus'' (js_ofString J ''stopped'')) (js_put J ''execStoppedReason''
        (js_ofString J (''compExited: '' @ ls_name (sw_session w) @ '' '' @ ''exited normally'')))) (js_null J) = (Inr (), st)"
      "js_string J st ''execStatus'' = Inr ''stopped''"
      "js_string J st ''disconnectReason'' = Inr (''compExited: '' @ ls_name (sw_session w) @ '' '' @ ''exited normally'')"
    using status by blast
  obtain st' where st': "seqp (js_put J ''disconnectReason'' (js_ofString J (''compExited: '' @ ls_name (sw_session w) @ '' '' @ ''exited due to signal '' @ show_int SIGTERM)))
      (seqp (js_put J ''execStatus'' (js_ofString J ''stopped'')) (js_put J ''execStoppedReason''
        (js_ofString J (''compExited: '' @ ls_name (sw_session w) @ '' '' @ ''exited due to signal '' @ show_int SIGTERM)))) (js_null J) = (Inr (), st')"
      "js_string J st' ''disconnectReason'' = Inr (''compExited: '' @ ls_name (sw_session w) @ '' '' @ ''exited due to signal '' @ show_int SIGTERM)"
    using status by blast
  have "LocalSession_onTerminate J (ad_computation (ls_address (sw_session w))) (ad_session (ls_address (sw_session w))) es w1 =
      (Inr (), w1\<lparr>sw_reports := sw_reports w1 @ [(True, st)]\<rparr>)"
    using s1 normal st(1) by (simp add: LocalSession_onTerminate_def Let_def)
  moreover have "LocalSession_onTerminate J (ad_computation (ls_address (sw_session w))) (ad_session (ls_address (sw_session w)))
      \<lparr>es_exitType = ET_Signal, es_status = SIGTERM\<rparr> w = (Inr (), w\<lparr>sw_reports := sw_reports w @ [(False, st')]\<rparr>)"
    using assms(4,5) killed st'(1) by (simp add: LocalSession_onTerminate_def Let_def)
  ultimately show ?thesis
    unfolding Let_def using st(2,3) st'(2) by (intro conjI exI [of _ st] exI [of _ st']) simp_all
qed

subsection \<open>Examples\<close>

definition silent_sock_os :: "(byte list \<times> nat) sock_os" where
  "silent_sock_os = sample_sock_os\<lparr>os_poll := (\<lambda>_ _ _ _ s. (Inr None, s))\<rparr>"

definition sample_local_env :: local_env where
  "sample_local_env = \<lparr>le_getenv = (\<lambda>_. None), le_environ = [''PATH=/usr/bin''], le_processors = 8, le_executable = (\<lambda>_. True),
     le_resolve = (\<lambda>_. None), le_write_context = Written, le_write_config = Written\<rparr>"

definition sample_world :: "string \<Rightarrow> (json, byte list \<times> nat) session_world" where
  "sample_world name = \<lparr>sw_session = (LocalSession_new hex_uuid_api json_obj_impl (UUID_toString hex_uuid_api 3) 4 5)
       \<lparr>ls_name := name, ls_terminateCallback := True, ls_process := Some 0,
        ls_ipcAddress := exec_config_path hex_uuid_api name 5 @ ''.ipc''\<rparr>,
     sw_files = Map.empty, sw_manager = sample_manager [(sample_process 5)\<lparr>pr_state := Terminated\<rparr>] (MemoryTracking_set 1000) False,
     sw_net = ([], 1), sw_reports = []\<rparr>"

lemma sample_world_fields [simp]:
  "ls_address (sw_session (sample_world n)) = \<lparr>ad_session = 3, ad_node = 4, ad_computation = 5\<rparr>"
  "ls_name (sw_session (sample_world n)) = n" "ls_process (sw_session (sample_world n)) = Some 0"
  "ls_terminateCallback (sw_session (sample_world n))" "\<not> ls_terminationExpected (sw_session (sample_world n))"
  "ls_ipcAddress (sw_session (sample_world n)) = exec_config_path hex_uuid_api n 5 @ ''.ipc''"
  by (simp_all add: sample_world_def LocalSession_new_def UUID_parse_toString [OF uuid_api_ok_hex])

theorem stop_reports_normal_exit_witness:
  "\<exists>st. LocalSession_onTerminate json_obj_impl 5 3 \<lparr>es_exitType = ET_Exit, es_status = 128 + SIGTERM\<rparr> (snd (LocalSession_stop (sample_world ''echo''))) =
     (Inr (), (snd (LocalSession_stop (sample_world ''echo'')))\<lparr>sw_reports := sw_reports (snd (LocalSession_stop (sample_world ''echo''))) @ [(True, st)]\<rparr>) \<and>
    js_string json_obj_impl st ''disconnectReason'' = Inr ''compExited: echo exited normally''"
proof -
  have "LocalSession_stop (sample_world ''echo'') = (Inr (), snd (LocalSession_stop (sample_world ''echo'')))"
    by (simp add: LocalSession_stop_def bindp_def seqp_def sample_world_def ses_def on_manager_def zoom_def Process_terminate_def
        sample_manager_def sample_process_def)
  from stop_reports_normal_exit [where J = json_obj_impl, OF json_obj_impl_ok this, of 0 "\<lparr>es_exitType = ET_Exit, es_status = 128 + SIGTERM\<rparr>"]
  show ?thesis by (auto simp: Let_def)
qed

theorem long_name_ends_program_witness:
  "fst (LocalSession_connectProc sample_sock_os (sample_world (replicate 57 CHR ''x''))) = Inl (Undefined ''std::terminate'')"
proof -
  have "length (UUID_toString hex_uuid_api 5) = 36" by code_simp
  then show ?thesis
    using long_name_ends_program [where U = hex_uuid_api and os = sample_sock_os and w = "sample_world (replicate 57 CHR ''x'')"]
    by simp
qed


end
