(* ===== verification/Core_Messages.thy ===== *)
theory Core_Messages
  imports Endpoints
begin

text \<open>
  The messages of \<^verbatim>\<open>arras4_core_impl/lib/core_messages\<close>: the content classes the system itself
  sends, as one datatype, with their serialization and the registry that static initialisation
  (\<^verbatim>\<open>ARRAS_CONTENT_IMPL\<close>) builds. Floating-point members are their 32-bit memory images. The
  presentation helpers \<open>timeString\<close>, \<open>dump\<close> and the JSON form of the payload are left out.
\<close>

subsection \<open>The classes\<close>

record heartbeat =
  hb_transmitSecs :: u64
  hb_transmitMicroSecs :: u64
  hb_threads :: u16
  hb_cpuUsage5SecsCurrent :: u32
  hb_cpuUsage60SecsCurrent :: u32
  hb_cpuUsageTotalSecs :: u32
  hb_hyperthreaded :: bool
  hb_memoryUsageBytesCurrent :: u64
  hb_sentMessages5Sec :: u64
  hb_sentMessages60Sec :: u64
  hb_sentMessagesTotal :: u64
  hb_receivedMessages5Sec :: u64
  hb_receivedMessages60Sec :: u64
  hb_receivedMessagesTotal :: u64
  hb_status :: string

record pong =
  po_sourceId :: uuid
  po_name :: string
  po_entityType :: string
  po_responseType :: string
  po_timeSecs :: u64
  po_timeMicroSecs :: u32
  po_payload :: string

datatype core_message =
    ControlMessage string string string
  | EngineReadyMessage string string
  | ExecutorHeartbeat heartbeat
  | PingMessage string
  | PongMessage pong
  | SessionStatusMessage string

primrec core_classId :: "core_message \<Rightarrow> uuid" where
  "core_classId (ControlMessage _ _ _) = 0x0f5db360a67d4485b6a4e1652a399925"
| "core_classId (EngineReadyMessage _ _) = 0x5ed7ec103386452fb138aa9f52d581af"
| "core_classId (ExecutorHeartbeat _) = 0x92c7ab1d21a44cfea9fdbd541436c15d"
| "core_classId (PingMessage _) = 0xa400811c524a4c8ab31655af530fc3ca"
| "core_classId (PongMessage _) = 0x1f8a6b110cb14bddb751d66f6c71d8e2"
| "core_classId (SessionStatusMessage _) = 0x98e3f25814b745f087f7f5382e2ddca1"

primrec core_className :: "core_message \<Rightarrow> string" where
  "core_className (ControlMessage _ _ _) = ''ControlMessage''"
| "core_className (EngineReadyMessage _ _) = ''EngineReadyMessage''"
| "core_className (ExecutorHeartbeat _) = ''ExecutorHeartbeat''"
| "core_className (PingMessage _) = ''PingMessage''"
| "core_className (PongMessage _) = ''PongMessage''"
| "core_className (SessionStatusMessage _) = ''SessionStatusMessage''"

definition core_classVersion :: "core_message \<Rightarrow> u32" where
  "core_classVersion m = 0"

text \<open>The objects the default constructors make.\<close>

definition ControlMessage_new :: core_message where
  "ControlMessage_new = ControlMessage [] [] []"

definition EngineReadyMessage_new :: core_message where
  "EngineReadyMessage_new = EngineReadyMessage [] []"

definition ExecutorHeartbeat_new :: core_message where
  "ExecutorHeartbeat_new = ExecutorHeartbeat
     \<lparr>hb_transmitSecs = 0, hb_transmitMicroSecs = 0, hb_threads = 0, hb_cpuUsage5SecsCurrent = 0,
      hb_cpuUsage60SecsCurrent = 0, hb_cpuUsageTotalSecs = 0, hb_hyperthreaded = False,
      hb_memoryUsageBytesCurrent = 0, hb_sentMessages5Sec = 0, hb_sentMessages60Sec = 0,
      hb_sentMessagesTotal = 0, hb_receivedMessages5Sec = 0, hb_receivedMessages60Sec = 0,
      hb_receivedMessagesTotal = 0, hb_status = []\<rparr>"

definition PingMessage_new :: core_message where
  "PingMessage_new = PingMessage []"

definition PongMessage_new :: core_message where
  "PongMessage_new = PongMessage
     \<lparr>po_sourceId = UUID_null, po_name = [], po_entityType = [], po_responseType = [], po_timeSecs = 0,
      po_timeMicroSecs = 0, po_payload = []\<rparr>"

definition SessionStatusMessage_new :: core_message where
  "SessionStatusMessage_new = SessionStatusMessage []"

subsection \<open>Serialization\<close>

definition ExecutorHeartbeat_serialize :: "heartbeat \<Rightarrow> unit out_prog" where
  "ExecutorHeartbeat_serialize h =
     out_then (out_u64 (hb_transmitSecs h)) (out_then (out_u64 (hb_transmitMicroSecs h))
     (out_then (out_u16 (hb_threads h)) (out_then (out_u32 (hb_cpuUsage5SecsCurrent h))
     (out_then (out_u32 (hb_cpuUsage60SecsCurrent h)) (out_then (out_u32 (hb_cpuUsageTotalSecs h))
     (out_then (out_bool (hb_hyperthreaded h)) (out_then (out_u64 (hb_memoryUsageBytesCurrent h))
     (out_then (out_u64 (hb_sentMessages5Sec h)) (out_then (out_u64 (hb_sentMessages60Sec h))
     (out_then (out_u64 (hb_sentMessagesTotal h)) (out_then (out_u64 (hb_receivedMessages5Sec h))
     (out_then (out_u64 (hb_receivedMessages60Sec h)) (out_then (out_u64 (hb_receivedMessagesTotal h))
     (out_then (out_string (hb_status h)) (OutRet ())))))))))))))))"

definition PongMessage_serialize :: "pong \<Rightarrow> unit out_prog" where
  "PongMessage_serialize p =
     out_then (out_uuid (po_sourceId p)) (out_then (out_string (po_name p)) (out_then (out_string (po_entityType p))
     (out_then (out_string (po_responseType p)) (out_then (out_u64 (po_timeSecs p))
     (out_then (out_u32 (po_timeMicroSecs p)) (out_then (out_string (po_payload p)) (OutRet ())))))))"

primrec core_serialize :: "core_message \<Rightarrow> unit out_prog" where
  "core_serialize (ControlMessage c d x) =
     out_then (out_string c) (out_then (out_string d) (out_then (out_string x) (OutRet ())))"
| "core_serialize (EngineReadyMessage u d) = out_then (out_string u) (out_then (out_string d) (OutRet ()))"
| "core_serialize (ExecutorHeartbeat h) = ExecutorHeartbeat_serialize h"
| "core_serialize (PingMessage r) = out_then (out_string r) (OutRet ())"
| "core_serialize (PongMessage p) = PongMessage_serialize p"
| "core_serialize (SessionStatusMessage v) = out_then (out_string v) (OutRet ())"

definition ExecutorHeartbeat_deserialize :: "(nat \<Rightarrow> byte list option) \<Rightarrow> heartbeat \<Rightarrow> heartbeat in_prog" where
  "ExecutorHeartbeat_deserialize alloc h =
     in_bind in_u64 (\<lambda>ts. in_bind in_u64 (\<lambda>tm. in_bind in_u16 (\<lambda>th. in_bind in_u32 (\<lambda>c5. in_bind in_u32 (\<lambda>c60.
     in_bind in_u32 (\<lambda>ct. in_bind in_bool (\<lambda>hy. in_bind in_u64 (\<lambda>mem. in_bind in_u64 (\<lambda>s5. in_bind in_u64 (\<lambda>s60.
     in_bind in_u64 (\<lambda>st. in_bind in_u64 (\<lambda>r5. in_bind in_u64 (\<lambda>r60. in_bind in_u64 (\<lambda>rt.
     in_bind (in_string alloc (hb_status h)) (\<lambda>status. InRet
       \<lparr>hb_transmitSecs = ts, hb_transmitMicroSecs = tm, hb_threads = th, hb_cpuUsage5SecsCurrent = c5,
        hb_cpuUsage60SecsCurrent = c60, hb_cpuUsageTotalSecs = ct, hb_hyperthreaded = hy,
        hb_memoryUsageBytesCurrent = mem, hb_sentMessages5Sec = s5, hb_sentMessages60Sec = s60,
        hb_sentMessagesTotal = st, hb_receivedMessages5Sec = r5, hb_receivedMessages60Sec = r60,
        hb_receivedMessagesTotal = rt, hb_status = status\<rparr>)))))))))))))))"

definition PongMessage_deserialize :: "(nat \<Rightarrow> byte list option) \<Rightarrow> pong \<Rightarrow> pong in_prog" where
  "PongMessage_deserialize alloc p =
     in_bind in_uuid (\<lambda>sid. in_bind (in_string alloc (po_name p)) (\<lambda>name.
     in_bind (in_string alloc (po_entityType p)) (\<lambda>et. in_bind (in_string alloc (po_responseType p)) (\<lambda>rt.
     in_bind in_u64 (\<lambda>ts. in_bind in_u32 (\<lambda>tm. in_bind (in_string alloc (po_payload p)) (\<lambda>pl.
       InRet \<lparr>po_sourceId = sid, po_name = name, po_entityType = et, po_responseType = rt, po_timeSecs = ts,
              po_timeMicroSecs = tm, po_payload = pl\<rparr>)))))))"

primrec core_deserialize :: "(nat \<Rightarrow> byte list option) \<Rightarrow> core_message \<Rightarrow> u32 \<Rightarrow> core_message in_prog" where
  "core_deserialize alloc (ControlMessage c d x) v =
     in_bind (in_string alloc c) (\<lambda>c'. in_bind (in_string alloc d) (\<lambda>d'.
     in_bind (in_string alloc x) (\<lambda>x'. InRet (ControlMessage c' d' x'))))"
| "core_deserialize alloc (EngineReadyMessage u d) v =
     in_bind (in_string alloc u) (\<lambda>u'. in_bind (in_string alloc d) (\<lambda>d'. InRet (EngineReadyMessage u' d')))"
| "core_deserialize alloc (ExecutorHeartbeat h) v =
     in_bind (ExecutorHeartbeat_deserialize alloc h) (\<lambda>h'. InRet (ExecutorHeartbeat h'))"
| "core_deserialize alloc (PingMessage r) v = in_bind (in_string alloc r) (\<lambda>r'. InRet (PingMessage r'))"
| "core_deserialize alloc (PongMessage p) v =
     in_bind (PongMessage_deserialize alloc p) (\<lambda>p'. InRet (PongMessage p'))"
| "core_deserialize alloc (SessionStatusMessage s) v =
     in_bind (in_string alloc s) (\<lambda>s'. InRet (SessionStatusMessage s'))"

definition core_class :: "(nat \<Rightarrow> byte list option) \<Rightarrow> core_message object_class" where
  "core_class alloc =
     \<lparr>oc_classId = core_classId, oc_classVersion = core_classVersion, oc_defaultRoutingName = core_className,
      oc_serialize = core_serialize, oc_deserialize = core_deserialize alloc,
      oc_serializedLength = (\<lambda>_. 0)\<rparr>"

text \<open>Registration of every class; the order does not matter, as the identifiers are distinct.\<close>

definition core_defaults :: "core_message list" where
  "core_defaults = [ControlMessage_new, EngineReadyMessage_new, ExecutorHeartbeat_new, PingMessage_new,
     PongMessage_new, SessionStatusMessage_new]"

definition core_registry :: "core_message registry" where
  "core_registry = fold (\<lambda>m. ContentRegistry_registerFactory (core_classId m) (Some (\<lambda>_. Some m))) core_defaults []"

subsection \<open>Round trip\<close>

text \<open>The image of a string with a 32-bit count; longer strings would be cut.\<close>

definition str_image :: "string \<Rightarrow> byte list" where
  "str_image s = le_bytes 4 (length s) @ string_bytes s"

primrec core_strings :: "core_message \<Rightarrow> string list" where
  "core_strings (ControlMessage c d x) = [c, d, x]"
| "core_strings (EngineReadyMessage u d) = [u, d]"
| "core_strings (ExecutorHeartbeat h) = [hb_status h]"
| "core_strings (PingMessage r) = [r]"
| "core_strings (PongMessage p) = [po_name p, po_entityType p, po_responseType p, po_payload p]"
| "core_strings (SessionStatusMessage v) = [v]"

definition core_ok :: "core_message \<Rightarrow> bool" where
  "core_ok m \<longleftrightarrow> (\<forall>s \<in> set (core_strings m). length s < 2 ^ 32)"

primrec core_default :: "core_message \<Rightarrow> core_message" where
  "core_default (ControlMessage _ _ _) = ControlMessage_new"
| "core_default (EngineReadyMessage _ _) = EngineReadyMessage_new"
| "core_default (ExecutorHeartbeat _) = ExecutorHeartbeat_new"
| "core_default (PingMessage _) = PingMessage_new"
| "core_default (PongMessage _) = PongMessage_new"
| "core_default (SessionStatusMessage _) = SessionStatusMessage_new"

lemmas core_new_defs = ControlMessage_new_def EngineReadyMessage_new_def ExecutorHeartbeat_new_def
  PingMessage_new_def PongMessage_new_def SessionStatusMessage_new_def

lemma core_registry_create:
  "ContentRegistry_create (core_classId m) v core_registry = Some (core_default m)"
  by (cases m)
    (simp_all add: core_registry_def core_defaults_def ContentRegistry_registerFactory_def
      ContentRegistry_create_def core_new_defs)

lemma out_eval_out_string:
  "length s < 2 ^ 32 \<Longrightarrow> out_eval (out_string s) k = (Inr (4 + length s), str_image s)"
  by (simp add: out_string_def out_eval_string str_image_def)

lemma in_eval_in_string:
  "alloc_ok alloc \<Longrightarrow> length s < 2 ^ 32 \<Longrightarrow>
   in_eval (in_string alloc val) (str_image s @ bs) n = Some (Inr s, bs, n + (4 + length s))"
  using in_eval_string [of alloc s 4 val bs n] by (simp add: in_string_def str_image_def)

lemma length_str_image [simp]: "length (str_image s) = 4 + length s"
  by (simp add: str_image_def)

definition core_image :: "core_message \<Rightarrow> byte list" where
  "core_image m = snd (out_eval (core_serialize m) 0)"

lemma core_serialize_image:
  assumes "core_ok m"
  shows "out_eval (core_serialize m) k = (Inr (), core_image m)"
  using assms unfolding core_image_def
  by (cases m) (simp_all add: core_ok_def out_eval_out_string ExecutorHeartbeat_serialize_def
      PongMessage_serialize_def out_typed_defs)

lemma core_deserialize_image:
  assumes "alloc_ok alloc" and "core_ok m"
  shows "in_eval (core_deserialize alloc (core_default m) v) (core_image m @ bs) k =
    Some (Inr m, bs, k + length (core_image m))"
  using assms unfolding core_image_def
  by (cases m) (simp_all add: core_ok_def out_eval_out_string in_eval_in_string ExecutorHeartbeat_serialize_def
      PongMessage_serialize_def out_typed_defs core_new_defs ExecutorHeartbeat_deserialize_def
      PongMessage_deserialize_def)

end
