(* ===== verification/Blocks.thy ===== *)
theory Blocks
  imports Streams
begin

text \<open>
  How a \<open>MultiBuffer\<close> whose initial and linear sizes agree splits what is written into it. Message
  chunking relies on this.
\<close>

subsection \<open>Splitting into blocks of one size\<close>

text \<open>
  With the initial size equal to the linear size every buffer has that capacity, and a buffer is
  only started when the one before it is full: the buffers are the consecutive blocks of what was
  written.
\<close>

fun blocks :: "nat \<Rightarrow> byte list \<Rightarrow> byte list list" where
  "blocks c xs = (if xs = [] \<or> c = 0 then [] else take c xs # blocks c (drop c xs))"

declare blocks.simps [simp del]

text \<open>\<open>fs\<close> are the buffers that are full, \<open>cur\<close> the last one, if any.\<close>

definition mb_blocks :: "nat \<Rightarrow> multibuffer \<Rightarrow> buffer list \<Rightarrow> buffer option \<Rightarrow> bool" where
  "mb_blocks c m fs cur \<longleftrightarrow> mb_initialSize m = c \<and> mb_linearSize m = c \<and> (cur = None \<longrightarrow> fs = []) \<and>
     mb_buffers m = map Some fs @ map Some (case cur of None \<Rightarrow> [] | Some b \<Rightarrow> [b]) \<and>
     mb_usedBuffers m = length (mb_buffers m) \<and>
     (\<forall>b \<in> set fs \<union> set_option cur. Buffer_inv b \<and> buf_start b = 0 \<and> Buffer_capacity b = c) \<and>
     (\<forall>b \<in> set fs. buf_end b = c) \<and> (\<forall>b \<in> set_option cur. 0 < buf_end b)"

lemma blocks_append:
  assumes "0 < c" and "\<forall>p \<in> set ps. length p = c" and "0 < length q" and "length q \<le> c"
  shows "blocks c (concat ps @ q) = ps @ [q]"
  using assms(2)
proof (induction ps)
  case Nil
  from assms(3) have "q \<noteq> []" by simp
  with assms(1) have "blocks c q = take c q # blocks c (drop c q)"
    by (subst blocks.simps) simp
  with assms(4) show ?case by (simp add: blocks.simps [of c "[]"])
next
  case (Cons p ps)
  moreover from Cons.prems assms(1) have "p \<noteq> []" by auto
  ultimately show ?case using assms(1) by (subst blocks.simps) simp
qed

lemma concat_blocks: "0 < c \<Longrightarrow> concat (blocks c xs) = xs"
  by (induction c xs rule: blocks.induct) (subst blocks.simps, auto)

lemma Buffer_written_end: "Buffer_inv b \<Longrightarrow> length (Buffer_written b) = buf_end b"
  by (simp add: Buffer_written_def Buffer_inv_def)

lemma Buffer_write_end: "buf_end (snd (Buffer_write d b)) = buf_end b + min (length d) (Buffer_remainingCapacity b)"
  by (simp add: Buffer_write_def Let_def)

lemma mb_blocks_content:
  assumes "0 < c" and "mb_blocks c m fs cur"
  shows "map (Buffer_written \<circ> the) (mb_buffers m) = blocks c (mb_content m)"
proof (cases cur)
  case None
  then show ?thesis using assms(2) by (simp add: mb_blocks_def mb_content_def blocks.simps)
next
  case (Some b)
  have "mb_content m = concat (map Buffer_written fs) @ Buffer_written b"
    using assms(2) Some by (simp add: mb_blocks_def mb_content_def comp_def)
  moreover have "blocks c (concat (map Buffer_written fs) @ Buffer_written b) = map Buffer_written fs @ [Buffer_written b]"
    using assms Some
    by (intro blocks_append) (auto simp: mb_blocks_def Buffer_written_end Buffer_inv_def Buffer_capacity_def)
  ultimately show ?thesis using assms(2) Some by (simp add: mb_blocks_def comp_def)
qed

text \<open>One turn of the write loop: either the last buffer has room, or a new one is started.\<close>

lemma mb_blocks_room:
  assumes "alloc_ok alloc" and "0 < c" and blk: "mb_blocks c m fs cur"
  shows "\<exists>m1 fs1 b. mb_room alloc m = (Inr (), m1) \<and> mb_at (mb_usedBuffers m1 - 1) m1 = Inr b \<and>
    mb_buffers m1 = map Some (fs1 @ [b]) \<and> mb_usedBuffers m1 = length fs1 + 1 \<and> mb_initialSize m1 = c \<and> mb_linearSize m1 = c \<and>
    Buffer_inv b \<and> buf_start b = 0 \<and> Buffer_capacity b = c \<and> buf_end b < c \<and>
    (\<forall>f \<in> set fs1. Buffer_inv f \<and> buf_start f = 0 \<and> Buffer_capacity f = c \<and> buf_end f = c)"
proof -
  obtain mem where mem: "alloc c = Some mem" "length mem = c" using assms(1) by (auto simp: alloc_ok_def)
  have new: "Buffer_inv (Buffer_new mem)" "Buffer_capacity (Buffer_new mem) = c" "buf_start (Buffer_new mem) = 0"
      "buf_end (Buffer_new mem) = 0"
    using mem by (simp_all add: Buffer_new_def Buffer_inv_def Buffer_capacity_def)
  show ?thesis
  proof (cases cur)
    case None
    let ?m = "m\<lparr>mb_buffers := [Some (Buffer_new mem)], mb_usedBuffers := 1\<rparr>"
    have "mb_room alloc m = (Inr (), ?m)"
      using None blk mem by (simp add: mb_blocks_def mb_room_def MultiBuffer_useNextBuffer_def)
    then show ?thesis
      using new None blk \<open>0 < c\<close>
      by (intro exI [of _ ?m] exI [of _ "[]"] exI [of _ "Buffer_new mem"]) (simp add: mb_at_def mb_blocks_def)
  next
    case (Some b)
    have m: "mb_buffers m = map Some (fs @ [b])" "mb_usedBuffers m = length fs + 1" "mb_initialSize m = c"
        "mb_linearSize m = c" "Buffer_inv b" "buf_start b = 0" "Buffer_capacity b = c"
        "\<forall>f \<in> set fs. Buffer_inv f \<and> buf_start f = 0 \<and> Buffer_capacity f = c \<and> buf_end f = c"
      using blk Some by (auto simp: mb_blocks_def)
    have at: "mb_at (length fs) m = Inr b" using m by (simp add: mb_at_def nth_append)
    have cap: "Buffer_remainingCapacity b = c - buf_end b" "buf_end b \<le> c"
      using m by (auto simp: Buffer_remainingCapacity_def Buffer_capacity_def Buffer_inv_def)
    show ?thesis
    proof (cases "buf_end b = c")
      case True
      let ?m = "m\<lparr>mb_buffers := map Some ((fs @ [b]) @ [Buffer_new mem]), mb_usedBuffers := length fs + 2\<rparr>"
      have "mb_room alloc m = (Inr (), ?m)"
        using True m at cap mem \<open>0 < c\<close> by (simp add: mb_room_def MultiBuffer_useNextBuffer_def MultiBuffer_nextSize_def)
      moreover have "mb_at (mb_usedBuffers ?m - 1) ?m = Inr (Buffer_new mem)"
        by (simp add: mb_at_def nth_append)
      ultimately show ?thesis
        using new m True \<open>0 < c\<close>
        by (intro exI [of _ ?m] exI [of _ "fs @ [b]"] exI [of _ "Buffer_new mem"]) auto
    next
      case False
      then have "mb_room alloc m = (Inr (), m)" using m at cap by (simp add: mb_room_def)
      then show ?thesis
        using False m at cap by (intro exI [of _ m] exI [of _ fs] exI [of _ b]) auto
    qed
  qed
qed

lemma mb_write_loop_blocks:
  assumes "alloc_ok alloc" and "0 < c" and "mb_blocks c m fs cur" and "mb_write_loop alloc d m = (Inr u, m')"
  shows "\<exists>fs' cur'. mb_blocks c m' fs' cur'"
  using assms
proof (induction alloc d m arbitrary: fs cur rule: mb_write_loop.induct)
  case (1 alloc d m)
  show ?case
  proof (cases "d = []")
    case True
    then show ?thesis using 1 by (auto simp: mb_write_loop.simps)
  next
    case False
    obtain m1 fs1 b where m1: "mb_room alloc m = (Inr (), m1)" "mb_at (mb_usedBuffers m1 - 1) m1 = Inr b"
        "mb_buffers m1 = map Some (fs1 @ [b])" "mb_usedBuffers m1 = length fs1 + 1" "mb_initialSize m1 = c"
        "mb_linearSize m1 = c" "Buffer_inv b" "buf_start b = 0" "Buffer_capacity b = c" "buf_end b < c"
        "\<forall>f \<in> set fs1. Buffer_inv f \<and> buf_start f = 0 \<and> Buffer_capacity f = c \<and> buf_end f = c"
      using mb_blocks_room [OF 1(2,3,4)] by auto
    let ?t = "min (length d) (Buffer_remainingCapacity b)"
    let ?b = "snd (Buffer_write (take ?t d) b)"
    let ?m2 = "mb_put (mb_usedBuffers m1 - 1) ?b m1"
    have t: "0 < ?t" using False m1(9,10) by (simp add: Buffer_remainingCapacity_def Buffer_capacity_def)
    obtain n where n: "Buffer_write (take ?t d) b = (n, ?b)" by (metis surj_pair snd_conv)
    have "mb_blocks c ?m2 fs1 (Some ?b)"
      using m1 Buffer_write_spec(2,3,4) [OF m1(7) n] Buffer_write_end [of "take ?t d" b] t
      by (auto simp: mb_blocks_def mb_put_def list_update_append)
    moreover have "mb_write_loop alloc (drop ?t d) ?m2 = (Inr u, m')"
      using 1(5) False m1(1,2) t by (subst (asm) mb_write_loop.simps) (auto simp: Let_def split: if_splits)
    ultimately show ?thesis
      using 1(1) [OF False m1(1) [symmetric] refl m1(2) refl refl refl _ 1(2,3)] t by auto
  qed
qed

definition mb_blocks_inv :: "(nat \<Rightarrow> byte list option) \<Rightarrow> nat \<Rightarrow> multibuffer \<Rightarrow> bool" where
  "mb_blocks_inv alloc c m \<longleftrightarrow> mb_sink_inv alloc m \<and> 0 < c \<and> (\<exists>fs cur. mb_blocks c m fs cur)"

lemma mb_blocks_inv_new: "alloc_ok alloc \<Longrightarrow> 0 < c \<Longrightarrow> mb_blocks_inv alloc c (MultiBuffer_new c c)"
  unfolding mb_blocks_inv_def
  by (intro conjI exI [of _ "[]"] exI [of _ None]) (auto simp: MultiBuffer_new_ok, simp add: mb_blocks_def MultiBuffer_new_def)

lemma mb_blocks_inv_write:
  assumes inv: "mb_blocks_inv alloc c m" and w: "MultiBuffer_write alloc d m = (Inr n, m')"
  shows "mb_blocks_inv alloc c m'"
proof -
  obtain fs cur where blk: "mb_blocks c m fs cur" "alloc_ok alloc" "0 < c"
    using inv by (auto simp: mb_blocks_inv_def mb_sink_inv_def)
  obtain m1 where m1: "mb_write_loop alloc d m = (Inr (), m1)" "m' = m1\<lparr>mb_bytesWritten := mb_bytesWritten m1 + length d\<rparr>"
    using w by (auto simp: MultiBuffer_write_def split: prod.splits sum.splits)
  have "\<exists>fs cur. mb_blocks c m' fs cur"
    using mb_write_loop_blocks [OF blk(2,3,1) m1(1)] m1(2) by (simp add: mb_blocks_def)
  moreover have "mb_sink_inv alloc m'"
    using mbuf_sink.write_ok [of alloc m d] inv w by (auto simp: mb_blocks_inv_def MultiBuffer_sink_def)
  ultimately show ?thesis using blk by (simp add: mb_blocks_inv_def)
qed

interpretation mbuf_blocks: counted_sink "MultiBuffer_sink alloc" "mb_blocks_inv alloc c" mb_content
  for alloc c
proof
  fix m m' :: multibuffer and d n
  assume m: "mb_blocks_inv alloc c m"
  then have m0: "mb_sink_inv alloc m" by (simp add: mb_blocks_inv_def)
  show "\<exists>m'. snk_write (MultiBuffer_sink alloc) d m = (Inr (length d), m') \<and>
      mb_blocks_inv alloc c m' \<and> mb_content m' = mb_content m @ d"
    using mbuf_sink.write_ok [OF m0, of d] mb_blocks_inv_write [OF m, of d] by (auto simp: MultiBuffer_sink_def)
  show "snk_bytesWritten (MultiBuffer_sink alloc) m' = snk_bytesWritten (MultiBuffer_sink alloc) m + length d"
    if "snk_write (MultiBuffer_sink alloc) d m = (Inr n, m')"
    by (rule mbuf_sink.write_count [OF m0 that])
  show "\<exists>m'. snk_flush (MultiBuffer_sink alloc) m = (Inr (), m') \<and> mb_blocks_inv alloc c m' \<and>
      mb_content m' = mb_content m \<and>
      snk_bytesWritten (MultiBuffer_sink alloc) m' = snk_bytesWritten (MultiBuffer_sink alloc) m"
    using m by (simp add: MultiBuffer_sink_def)
qed

lemma mb_blocks_inv_buffers:
  assumes "mb_blocks_inv alloc c m"
  shows "map (Buffer_written \<circ> the) (mb_buffers m) = blocks c (mb_content m)"
    and "mb_usedBuffers m = length (blocks c (mb_content m))"
    and "\<forall>i < length (mb_buffers m). mb_buffers m ! i = Some (the (mb_buffers m ! i))"
    and "length (mb_buffers m) = length (blocks c (mb_content m))"
proof -
  obtain fs cur where blk: "0 < c" "mb_blocks c m fs cur" using assms by (auto simp: mb_blocks_inv_def)
  show eq: "map (Buffer_written \<circ> the) (mb_buffers m) = blocks c (mb_content m)"
    by (rule mb_blocks_content [OF blk])
  show "length (mb_buffers m) = length (blocks c (mb_content m))" by (simp add: eq [symmetric])
  then show "mb_usedBuffers m = length (blocks c (mb_content m))" using blk(2) by (simp add: mb_blocks_def)
  have "\<forall>p \<in> set (mb_buffers m). p = Some (the p)" using blk(2) by (auto simp: mb_blocks_def)
  then show "\<forall>i < length (mb_buffers m). mb_buffers m ! i = Some (the (mb_buffers m ! i))" by simp
qed

lemma blocks_length: "p \<in> set (blocks c xs) \<Longrightarrow> length p \<le> c"
proof (induction c xs rule: blocks.induct)
  case (1 c xs)
  then show ?case by (subst (asm) blocks.simps) (auto split: if_splits)
qed

end
