(* ===== verification/Chunking.thy ===== *)
theory Chunking
  imports Core_Messages Blocks
begin

text \<open>
  \<^verbatim>\<open>arras4_core_impl/lib/chunking\<close>: large messages are serialized into blocks, sent as a series of
  \<open>MessageChunk\<close> messages and put together again at the other end.

  The endpoint underneath is used through the interface \<open>MessageEndpoint\<close> (record \<open>endpoint_ops\<close>);
  its contract is the locale \<open>message_queue\<close>, in which chunking is verified. The receive loop may go
  on for as long as chunks arrive, so it is a partial function: \<open>None\<close> is a call that never returns.
\<close>

subsection \<open>MessageChunk\<close>

record chunk =
  ck_protocolVersion :: u16
  ck_chunkingMethod :: u16
  ck_numberOfChunks :: u16
  ck_chunkIndex :: u16
  ck_offset :: u64
  ck_unchunkedSize :: u64
  ck_internalId :: uuid
  ck_internalRoutingName :: string
  ck_internalInstanceId :: uuid
  ck_internalOriginId :: uuid
  ck_internalClassVersion :: u32
  ck_payloadLength :: u32
  ck_payload :: "byte list"

text \<open>Contents of an application that uses chunking: its own classes and the chunks.\<close>

datatype 'o chunked = App 'o | Chunk chunk

definition MessageChunk_ID :: uuid where
  "MessageChunk_ID = 0x164a8601dbf742e5b4693ad1c58dbe83"

definition MessageChunk_serialize :: "chunk \<Rightarrow> unit out_prog" where
  "MessageChunk_serialize c =
     out_then (out_u16 (ck_protocolVersion c)) (out_then (out_u16 (ck_chunkingMethod c))
     (out_then (out_u16 (ck_numberOfChunks c)) (out_then (out_u16 (ck_chunkIndex c))
     (out_then (out_u64 (ck_offset c)) (out_then (out_u64 (ck_unchunkedSize c))
     (out_then (out_uuid (ck_internalId c)) (out_then (out_string (ck_internalRoutingName c))
     (out_then (out_uuid (ck_internalInstanceId c)) (out_then (out_uuid (ck_internalOriginId c))
     (out_then (out_u32 (ck_internalClassVersion c)) (out_then (out_u32 (ck_payloadLength c))
     (if unat (ck_payloadLength c) \<le> length (ck_payload c)
      then out_then (out_value (take (unat (ck_payloadLength c)) (ck_payload c))) (OutRet ())
      else OutThrow (Undefined ''read past the payload'')))))))))))))"

definition MessageChunk_deserialize :: "(nat \<Rightarrow> byte list option) \<Rightarrow> chunk \<Rightarrow> chunk in_prog" where
  "MessageChunk_deserialize alloc c =
     in_bind in_u16 (\<lambda>pv.
     if pv \<noteq> 0
     then InThrow (MessageFormatError ''Unknown chunking protocol version in MessageChunk::deserialize'')
     else in_bind in_u16 (\<lambda>cm. in_bind in_u16 (\<lambda>nc. in_bind in_u16 (\<lambda>ci. in_bind in_u64 (\<lambda>off.
          in_bind in_u64 (\<lambda>us. in_bind in_uuid (\<lambda>iid. in_bind (in_string alloc (ck_internalRoutingName c)) (\<lambda>rn.
          in_bind in_uuid (\<lambda>inst. in_bind in_uuid (\<lambda>orig. in_bind in_u32 (\<lambda>cv. in_bind in_u32 (\<lambda>pl.
          case alloc (unat pl) of
            None \<Rightarrow> InThrow (StdException ''std::bad_alloc'')
          | Some mem \<Rightarrow> InRead (unat pl) (\<lambda>d. InRet
              \<lparr>ck_protocolVersion = pv, ck_chunkingMethod = cm, ck_numberOfChunks = nc, ck_chunkIndex = ci,
               ck_offset = off, ck_unchunkedSize = us, ck_internalId = iid, ck_internalRoutingName = rn,
               ck_internalInstanceId = inst, ck_internalOriginId = orig, ck_internalClassVersion = cv,
               ck_payloadLength = pl, ck_payload = d @ drop (length d) mem\<rparr>)))))))))))))"

text \<open>
  The object the default constructor makes. Members without an initialiser hold an arbitrary value,
  here 0; \<open>deserialize\<close> overwrites them all.
\<close>

definition MessageChunk_new :: chunk where
  "MessageChunk_new =
     \<lparr>ck_protocolVersion = 0, ck_chunkingMethod = 0, ck_numberOfChunks = 0, ck_chunkIndex = 0, ck_offset = 0,
      ck_unchunkedSize = 0, ck_internalId = UUID_null, ck_internalRoutingName = [], ck_internalInstanceId = UUID_null,
      ck_internalOriginId = UUID_null, ck_internalClassVersion = 0, ck_payloadLength = 0, ck_payload = []\<rparr>"

definition chunked_class ::
  "(nat \<Rightarrow> byte list option) \<Rightarrow> ('o, 'z) object_class_scheme \<Rightarrow> 'o chunked object_class" where
  "chunked_class alloc cls =
     \<lparr>oc_classId = case_chunked (oc_classId cls) (\<lambda>_. MessageChunk_ID),
      oc_classVersion = case_chunked (oc_classVersion cls) (\<lambda>_. 0),
      oc_defaultRoutingName = case_chunked (oc_defaultRoutingName cls) (\<lambda>_. ''MessageChunk''),
      oc_serialize = case_chunked (oc_serialize cls) MessageChunk_serialize,
      oc_deserialize = (\<lambda>m v. case m of App x \<Rightarrow> in_bind (oc_deserialize cls x v) (\<lambda>y. InRet (App y))
                                | Chunk c \<Rightarrow> in_bind (MessageChunk_deserialize alloc c) (\<lambda>d. InRet (Chunk d))),
      oc_serializedLength = case_chunked (oc_serializedLength cls) (\<lambda>_. 0)\<rparr>"

subsection \<open>MessageUnchunker\<close>

record unchunker =
  uk_numChunks :: nat
  uk_instanceId :: uuid
  uk_count :: nat
  uk_chunks :: "chunk option list"

definition MessageUnchunker_addChunk :: "chunk \<Rightarrow> (unchunker, unit) proc" where
  "MessageUnchunker_addChunk c u =
     (if unat (ck_numberOfChunks c) \<noteq> uk_numChunks u \<or> ck_internalInstanceId c \<noteq> uk_instanceId u
      then raise (InternalError ''[MessageChunker/addChunk] Chunk data mismatch'') u
      else if \<not> unat (ck_chunkIndex c) < length (uk_chunks u)
      then raise (Undefined ''chunk index out of range'') u
      else if uk_chunks u ! unat (ck_chunkIndex c) \<noteq> None
      then raise (InternalError ''[MessageChunker/addChunk] Duplicate chunk received'') u
      else (Inr (), u\<lparr>uk_chunks := (uk_chunks u)[unat (ck_chunkIndex c) := Some c], uk_count := uk_count u + 1\<rparr>))"

definition MessageUnchunker_new :: "chunk \<Rightarrow> exn + unchunker" where
  "MessageUnchunker_new c =
     (let n = unat (ck_numberOfChunks c)
      in if n < 1 then Inl (InternalError ''[MessageChunker] Chunk count is less than 1'')
         else case MessageUnchunker_addChunk c
                     \<lparr>uk_numChunks = n, uk_instanceId = ck_internalInstanceId c, uk_count = 0,
                      uk_chunks = replicate n None\<rparr> of
                (Inl e, _) \<Rightarrow> Inl e
              | (Inr _, u) \<Rightarrow> Inr u)"

text \<open>The total length of the chunks; a missing one is an error.\<close>

fun chunk_sum :: "chunk option list \<Rightarrow> exn + nat" where
  "chunk_sum [] = Inr 0"
| "chunk_sum (None # cs) = Inl (InternalError ''[MessageUnchunker/getUnchunked] Missing chunk'')"
| "chunk_sum (Some c # cs) =
     (case chunk_sum cs of Inl e \<Rightarrow> Inl e | Inr n \<Rightarrow> Inr (unat (ck_payloadLength c) + n))"

text \<open>
  The multi-buffer made of the payloads, with the default sizes. In the error texts below the printed
  class identifier is left out.
\<close>

definition chunk_buffer :: "chunk \<Rightarrow> buffer" where
  "chunk_buffer c = Buffer_wrap (take (unat (ck_payloadLength c)) (ck_payload c)) (unat (ck_payloadLength c))"

definition unchunk_source :: "chunk list \<Rightarrow> multibuffer" where
  "unchunk_source cs = fold (\<lambda>c m. snd (MultiBuffer_addBuffer (chunk_buffer c) m)) cs
     (MultiBuffer_new INITIAL_BUFFER_SIZE LINEAR_BUFFER_SIZE)"

definition MessageUnchunker_getUnchunked ::
  "('o, 'z) object_class_scheme \<Rightarrow> 'o registry \<Rightarrow> unchunker \<Rightarrow> ('o envelope, bool) proc" where
  "MessageUnchunker_getUnchunked cls reg u env =
     (if uk_count u < uk_numChunks u then (Inr False, env)
      else case chunk_sum (uk_chunks u) of
        Inl e \<Rightarrow> (Inl e, env)
      | Inr sumLen \<Rightarrow>
          (let cs = map the (uk_chunks u); c0 = hd cs
           in if sumLen \<noteq> unat (ck_unchunkedSize c0)
              then (Inl (InternalError ''[MessageUnchunker/getUnchunked] Chunk size mismatch''), env)
              else case ContentRegistry_create (ck_internalId c0) (ck_internalClassVersion c0) reg of
                None \<Rightarrow> (Inl (InternalError ''[MessageUnchunker/getUnchunked] Failed to instantiate message class''), env)
              | Some x \<Rightarrow>
                  (case InStreamImpl_run MultiBuffer_source (oc_deserialize cls x (ck_internalClassVersion c0))
                          (unchunk_source cs) of
                     (Inl e, _) \<Rightarrow> (Inl e, env)
                   | (Inr y, _) \<Rightarrow> (Inr True, env\<lparr>en_content := Some (ObjectContent y)\<rparr>))))"

subsection \<open>ChunkingMessageEndpoint\<close>

record ('e, 'o) endpoint_ops =
  ep_getEnvelope :: "('e, 'o envelope) proc"
  ep_putEnvelope :: "'o envelope \<Rightarrow> ('e, unit) proc"
  ep_shutdown :: "'e \<Rightarrow> 'e"

record chunking_config =
  cc_enabled :: bool
  cc_minChunkingSize :: nat
  cc_chunkSize :: nat

definition ChunkingConfig_default :: chunking_config where
  "ChunkingConfig_default =
     \<lparr>cc_enabled = True, cc_minChunkingSize = 2047 * 1024 * 1024, cc_chunkSize = 1024 * 1024 * 1024\<rparr>"

record 'e chunking_endpoint =
  ce_config :: chunking_config
  ce_source :: 'e
  ce_unchunkers :: "(uuid, unchunker) stdmap"

definition ChunkingMessageEndpoint_new :: "'e \<Rightarrow> chunking_config \<Rightarrow> 'e chunking_endpoint" where
  "ChunkingMessageEndpoint_new e config = \<lparr>ce_config = config, ce_source = e, ce_unchunkers = []\<rparr>"

text \<open>
  One chunk message: the message it completes, or nothing yet. When putting the message together
  fails, the unchunker stays in the map.
\<close>

definition ce_accept ::
  "('o chunked, 'z) object_class_scheme \<Rightarrow> 'o chunked registry \<Rightarrow> 'o chunked envelope \<Rightarrow>
   ('e chunking_endpoint, 'o chunked envelope option) proc" where
  "ce_accept cls reg env ce =
     (case en_content env of
        Some (ObjectContent (Chunk c)) \<Rightarrow>
          (let k = ck_internalInstanceId c
           in case (case map_of (ce_unchunkers ce) k of
                      None \<Rightarrow> MessageUnchunker_new c
                    | Some u \<Rightarrow> (case MessageUnchunker_addChunk c u of (Inl e, _) \<Rightarrow> Inl e | (Inr _, u') \<Rightarrow> Inr u')) of
                Inl e \<Rightarrow> (Inl e, ce)
              | Inr u \<Rightarrow>
                  (let ce' = ce\<lparr>ce_unchunkers := map_set k u (ce_unchunkers ce)\<rparr>
                   in case MessageUnchunker_getUnchunked cls reg u env of
                        (Inl e, _) \<Rightarrow> (Inl e, ce')
                      | (Inr False, _) \<Rightarrow> (Inr None, ce')
                      | (Inr True, env') \<Rightarrow> (Inr (Some env'), ce'\<lparr>ce_unchunkers := map_erase k (ce_unchunkers ce')\<rparr>)))
      | _ \<Rightarrow> (Inl (Undefined ''null chunk''), ce))"

partial_function (option) ChunkingMessageEndpoint_getEnvelope ::
  "('e, 'o chunked, 'y) endpoint_ops_scheme \<Rightarrow> ('o chunked, 'z) object_class_scheme \<Rightarrow> 'o chunked registry \<Rightarrow>
   'e chunking_endpoint \<Rightarrow> ((exn + 'o chunked envelope) \<times> 'e chunking_endpoint) option" where
  "ChunkingMessageEndpoint_getEnvelope ops cls reg ce =
     (case ep_getEnvelope ops (ce_source ce) of
        (Inl e, s) \<Rightarrow> Some (Inl e, ce\<lparr>ce_source := s\<rparr>)
      | (Inr env, s) \<Rightarrow>
          if Envelope_classId cls env \<noteq> MessageChunk_ID then Some (Inr env, ce\<lparr>ce_source := s\<rparr>)
          else case ce_accept cls reg env (ce\<lparr>ce_source := s\<rparr>) of
                 (Inl e, ce') \<Rightarrow> Some (Inl e, ce')
               | (Inr (Some env'), ce') \<Rightarrow> Some (Inr env', ce')
               | (Inr None, ce') \<Rightarrow> ChunkingMessageEndpoint_getEnvelope ops cls reg ce')"

definition ce_src :: "('e, 'a) proc \<Rightarrow> ('e chunking_endpoint, 'a) proc" where
  "ce_src = zoom ce_source (\<lambda>s ce. ce\<lparr>ce_source := s\<rparr>)"

text \<open>The chunk message number \<open>i\<close> of \<open>n\<close>, with the block \<open>d\<close> as its payload.\<close>

definition chunk_message ::
  "('o, 'z) object_class_scheme \<Rightarrow> nat \<Rightarrow> nat \<Rightarrow> nat \<Rightarrow> 'o envelope \<Rightarrow> metadata \<Rightarrow> nat \<Rightarrow> byte list \<Rightarrow> chunk" where
  "chunk_message cls chunkSize unchunkedSize n env md i d =
     MessageChunk_new\<lparr>ck_chunkingMethod := 0, ck_numberOfChunks := word_of_nat n, ck_chunkIndex := word_of_nat i,
       ck_offset := word_of_nat (i * chunkSize), ck_unchunkedSize := word_of_nat unchunkedSize,
       ck_internalId := Envelope_classId cls env, ck_internalRoutingName := md_routingName md,
       ck_internalInstanceId := md_instanceId md, ck_internalOriginId := md_sourceId md,
       ck_internalClassVersion := Envelope_classVersion cls env,
       ck_payloadLength := word_of_nat (length d), ck_payload := d\<rparr>"

definition chunk_envelope :: "chunk \<Rightarrow> 'o chunked envelope \<Rightarrow> 'o chunked envelope" where
  "chunk_envelope c env = \<lparr>en_content = Some (ObjectContent (Chunk c)), en_metadata = en_metadata env, en_to = en_to env\<rparr>"

definition ce_send_chunk ::
  "('e, 'o chunked, 'y) endpoint_ops_scheme \<Rightarrow> ('o chunked, 'z) object_class_scheme \<Rightarrow> nat \<Rightarrow> nat \<Rightarrow> 'o chunked envelope \<Rightarrow>
   metadata \<Rightarrow> nat \<Rightarrow> ('e chunking_endpoint \<times> multibuffer, unit) proc" where
  "ce_send_chunk ops cls unchunkedSize n env md i =
     bindp (zoom snd (\<lambda>m (ce, _). (ce, m)) (MultiBuffer_takeBuffer i))
       (\<lambda>b. \<lambda>(ce, m). zoom fst (\<lambda>ce (_, m). (ce, m))
          (ce_src (ep_putEnvelope ops (chunk_envelope
             (chunk_message cls (cc_chunkSize (ce_config ce)) unchunkedSize n env md i (Buffer_written b)) env))) (ce, m))"

definition ChunkingMessageEndpoint_putEnvelope ::
  "(nat \<Rightarrow> byte list option) \<Rightarrow> ('e, 'o chunked, 'y) endpoint_ops_scheme \<Rightarrow> ('o chunked, 'z) object_class_scheme \<Rightarrow>
   'o chunked envelope \<Rightarrow> ('e chunking_endpoint, unit) proc" where
  "ChunkingMessageEndpoint_putEnvelope alloc ops cls env ce =
     (if \<not> cc_enabled (ce_config ce) then ce_src (ep_putEnvelope ops env) ce
      else case en_content env of
        Some (ObjectContent x) \<Rightarrow>
          (let unchunkedSize = oc_serializedLength cls x; c = cc_chunkSize (ce_config ce)
           in if unchunkedSize < cc_minChunkingSize (ce_config ce) then ce_src (ep_putEnvelope ops env) ce
              else case OutStreamImpl_run (MultiBuffer_sink alloc) (out_then (oc_serialize cls x) (OutFlush (OutRet ())))
                          (MultiBuffer_new c c) of
                (Inl e, _) \<Rightarrow> (Inl e, ce)
              | (Inr _, mb) \<Rightarrow>
                  (let n = MultiBuffer_bufferCount mb
                   in if n > 2 ^ 16 - 1
                      then (Inl (InternalError ''[ChunkingMessageEndpoint/putEnvelope] Message is too large for chunking''), ce)
                      else case en_metadata env of
                        None \<Rightarrow> (Inl (Undefined ''null metadata''), ce)
                      | Some md \<Rightarrow>
                          (case forp [0..<n] (ce_send_chunk ops cls unchunkedSize n env md) (ce, mb) of
                             (r, (ce', _)) \<Rightarrow> (r, ce'))))
      | _ \<Rightarrow> ce_src (ep_putEnvelope ops env) ce)"

definition ChunkingMessageEndpoint_shutdown ::
  "('e, 'o, 'y) endpoint_ops_scheme \<Rightarrow> 'e chunking_endpoint \<Rightarrow> 'e chunking_endpoint" where
  "ChunkingMessageEndpoint_shutdown ops ce = ce\<lparr>ce_source := ep_shutdown ops (ce_source ce)\<rparr>"

subsection \<open>Chunks on the wire\<close>

definition chunk_ok :: "chunk \<Rightarrow> bool" where
  "chunk_ok c \<longleftrightarrow> ck_protocolVersion c = 0 \<and> length (ck_internalRoutingName c) < 2 ^ 32 \<and>
     length (ck_payload c) = unat (ck_payloadLength c)"

definition chunk_image :: "chunk \<Rightarrow> byte list" where
  "chunk_image c = snd (out_eval (MessageChunk_serialize c) 0)"

lemma chunk_serialize_image: "chunk_ok c \<Longrightarrow> out_eval (MessageChunk_serialize c) k = (Inr (), chunk_image c)"
  by (simp add: chunk_image_def MessageChunk_serialize_def chunk_ok_def out_eval_out_string out_typed_defs)

lemma length_chunk_image:
  "chunk_ok c \<Longrightarrow> length (chunk_image c) = 84 + length (ck_internalRoutingName c) + length (ck_payload c)"
  by (simp add: chunk_image_def MessageChunk_serialize_def chunk_ok_def out_eval_out_string out_typed_defs)

lemma chunk_deserialize_image:
  assumes "alloc_ok alloc" and "chunk_ok c"
  shows "in_eval (MessageChunk_deserialize alloc c0) (chunk_image c @ bs) k = Some (Inr c, bs, k + length (chunk_image c))"
proof -
  obtain mem where "alloc (unat (ck_payloadLength c)) = Some mem" "length mem = unat (ck_payloadLength c)"
    using assms(1) by (auto simp: alloc_ok_def)
  then show ?thesis
    using assms by (simp add: chunk_image_def MessageChunk_serialize_def MessageChunk_deserialize_def chunk_ok_def
        out_eval_out_string in_eval_in_string out_typed_defs)
qed

subsection \<open>Reading a message back from its chunks\<close>

text \<open>Programs that never skip: on those a multi-buffer is as good as any source.\<close>

primrec no_skip :: "'a in_prog \<Rightarrow> bool" where
  "no_skip (InRet a) = True"
| "no_skip (InThrow e) = True"
| "no_skip (InRead n f) = (\<forall>d. no_skip (f d))"
| "no_skip (InSkip n f) = False"
| "no_skip (InBytesRead f) = (\<forall>k. no_skip (f k))"

lemma no_skip_bind [simp]: "no_skip p \<Longrightarrow> (\<And>a. no_skip (g a)) \<Longrightarrow> no_skip (in_bind p g)"
  by (induction p) auto

context byte_source
begin

lemma run_in_eval_no_skip:
  assumes "inv s" and "no_skip p" and "in_eval p (pending s) (src_bytesRead ops s) = Some (r, rest, k)"
  shows "\<exists>s'. InStreamImpl_run ops p s = (r, s') \<and> inv s' \<and> pending s' = rest \<and> src_bytesRead ops s' = k"
  using assms
proof (induction p arbitrary: s)
  case (InRead n f)
  then have n: "n \<le> length (pending s)" by (auto split: if_splits)
  obtain s1 where s1: "src_read ops n s = (Inr (take n (pending s)), s1)" "inv s1"
      "pending s1 = drop n (pending s)" "src_bytesRead ops s1 = src_bytesRead ops s + n"
    using read_ok [OF InRead.prems(1) n] by auto
  with InRead.IH [OF rangeI, of s1 "take n (pending s)"] InRead.prems n show ?case by simp
next
  case (InBytesRead f)
  then show ?case by simp
qed simp_all

end

lemma unchunk_source_ok:
  assumes "\<forall>c \<in> set cs. length (ck_payload c) = unat (ck_payloadLength c)"
  shows "mb_inv (unchunk_source cs)" and "mb_pending (unchunk_source cs) = concat (map ck_payload cs)"
    and "mb_bytesRead (unchunk_source cs) = 0"
proof -
  have fold: "fold (\<lambda>c m. snd (MultiBuffer_addBuffer (chunk_buffer c) m)) cs m =
      m\<lparr>mb_buffers := mb_buffers m @ map (Some \<circ> chunk_buffer) cs, mb_usedBuffers := mb_usedBuffers m + length cs\<rparr>"
    if "mb_usedBuffers m = length (mb_buffers m)" for m :: multibuffer
    using that by (induction cs arbitrary: m) (simp_all add: MultiBuffer_addBuffer_def)
  have buf: "Buffer_inv (chunk_buffer c) \<and> Buffer_pending (chunk_buffer c) = ck_payload c" if "c \<in> set cs" for c
    using assms that by (simp add: chunk_buffer_def Buffer_wrap_def Buffer_inv_def Buffer_pending_def buffer_defs)
  then show "mb_inv (unchunk_source cs)" and "mb_pending (unchunk_source cs) = concat (map ck_payload cs)"
      and "mb_bytesRead (unchunk_source cs) = 0"
    by (auto simp: unchunk_source_def fold MultiBuffer_new_def mb_inv_def mb_pending_def comp_def
        intro!: arg_cong [of _ _ concat])
qed

lemma chunk_sum_all: "chunk_sum (map Some cs) = Inr (\<Sum>c\<leftarrow>cs. unat (ck_payloadLength c))"
  by (induction cs) simp_all

lemma getUnchunked_ok:
  assumes u: "uk_chunks u = map Some cs" "uk_count u = length cs" "uk_numChunks u = length cs" "cs \<noteq> []"
    and cs: "\<forall>c \<in> set cs. length (ck_payload c) = unat (ck_payloadLength c)"
    and d: "concat (map ck_payload cs) = d" and len: "unat (ck_unchunkedSize (hd cs)) = length d"
    and reg: "ContentRegistry_create (ck_internalId (hd cs)) (ck_internalClassVersion (hd cs)) reg = Some x"
    and dec: "in_eval (oc_deserialize cls x (ck_internalClassVersion (hd cs))) d 0 = Some (Inr y, rest, k)"
    and ns: "no_skip (oc_deserialize cls x (ck_internalClassVersion (hd cs)))"
  shows "MessageUnchunker_getUnchunked cls reg u env = (Inr True, env\<lparr>en_content := Some (ObjectContent y)\<rparr>)"
proof -
  have "(\<Sum>c\<leftarrow>cs. unat (ck_payloadLength c)) = length d"
    using cs by (simp add: d [symmetric] length_concat comp_def cong: map_cong)
  moreover note src = unchunk_source_ok [OF cs]
  then obtain m' where "InStreamImpl_run MultiBuffer_source (oc_deserialize cls x (ck_internalClassVersion (hd cs)))
      (unchunk_source cs) = (Inr y, m')"
    using mbuf_src.run_in_eval_no_skip [OF src(1) ns] dec d by (force simp: MultiBuffer_source_def)
  ultimately show ?thesis
    using u len reg by (simp add: MessageUnchunker_getUnchunked_def chunk_sum_all comp_def)
qed

subsection \<open>Collecting chunks in any order\<close>

text \<open>The chunks of one message: numbered, of one instance, for one class.\<close>

definition chunk_series :: "uuid \<Rightarrow> chunk list \<Rightarrow> bool" where
  "chunk_series k cs \<longleftrightarrow> cs \<noteq> [] \<and> length cs < 2 ^ 16 \<and>
     (\<forall>i < length cs. unat (ck_chunkIndex (cs ! i)) = i \<and> unat (ck_numberOfChunks (cs ! i)) = length cs \<and>
        ck_internalInstanceId (cs ! i) = k)"

definition uk_state :: "uuid \<Rightarrow> chunk list \<Rightarrow> nat list \<Rightarrow> unchunker" where
  "uk_state k cs got = \<lparr>uk_numChunks = length cs, uk_instanceId = k, uk_count = length got,
     uk_chunks = map (\<lambda>i. if i \<in> set got then Some (cs ! i) else None) [0..<length cs]\<rparr>"

lemma uk_state_add:
  assumes "chunk_series k cs" and "i < length cs" and "i \<notin> set got"
  shows "MessageUnchunker_addChunk (cs ! i) (uk_state k cs got) = (Inr (), uk_state k cs (got @ [i]))"
proof -
  have "(map (\<lambda>j. if j \<in> set got then Some (cs ! j) else None) [0..<length cs])[i := Some (cs ! i)] =
      map (\<lambda>j. if j \<in> set (got @ [i]) then Some (cs ! j) else None) [0..<length cs]"
    using assms(2) by (intro nth_equalityI) (auto simp: nth_list_update)
  then show ?thesis
    using assms by (simp add: MessageUnchunker_addChunk_def uk_state_def chunk_series_def)
qed

lemma uk_state_new:
  assumes "chunk_series k cs" and "i < length cs"
  shows "MessageUnchunker_new (cs ! i) = Inr (uk_state k cs [i])"
proof -
  have "uk_state k cs [] = \<lparr>uk_numChunks = unat (ck_numberOfChunks (cs ! i)),
      uk_instanceId = ck_internalInstanceId (cs ! i), uk_count = 0, uk_chunks = replicate (unat (ck_numberOfChunks (cs ! i))) None\<rparr>"
    using assms by (simp add: uk_state_def chunk_series_def map_replicate_const)
  then show ?thesis
    using uk_state_add [OF assms, of "[]"] assms
    by (auto simp: MessageUnchunker_new_def chunk_series_def Let_def)
qed

text \<open>What the map of unchunkers holds for a message of which the chunks \<open>got\<close> have arrived.\<close>

definition collecting :: "uuid \<Rightarrow> chunk list \<Rightarrow> nat list \<Rightarrow> 'e chunking_endpoint \<Rightarrow> bool" where
  "collecting k cs got ce \<longleftrightarrow>
     map_of (ce_unchunkers ce) k = (if got = [] then None else Some (uk_state k cs got))"

lemma ce_accept_more:
  assumes "chunk_series k cs" and "i < length cs" and "i \<notin> set got" and "collecting k cs got ce"
    and "en_content env = Some (ObjectContent (Chunk (cs ! i)))" and "length got + 1 < length cs"
  shows "\<exists>ce'. ce_accept cls reg env ce = (Inr None, ce') \<and> collecting k cs (got @ [i]) ce' \<and>
    ce_source ce' = ce_source ce \<and> ce_config ce' = ce_config ce \<and>
    map_of (ce_unchunkers ce') = (map_of (ce_unchunkers ce))(k \<mapsto> uk_state k cs (got @ [i]))"
proof -
  let ?u = "uk_state k cs (got @ [i])"
  have k: "ck_internalInstanceId (cs ! i) = k" using assms(1,2) by (simp add: chunk_series_def)
  have "MessageUnchunker_getUnchunked cls reg ?u env = (Inr False, env)"
    using assms(6) by (simp add: MessageUnchunker_getUnchunked_def uk_state_def)
  then have "ce_accept cls reg env ce = (Inr None, ce\<lparr>ce_unchunkers := map_set k ?u (ce_unchunkers ce)\<rparr>)"
    using assms uk_state_add [OF assms(1-3)] uk_state_new [OF assms(1,2)] k
    by (cases "got = []") (auto simp: ce_accept_def collecting_def Let_def)
  then show ?thesis by (simp add: collecting_def)
qed

lemma uk_state_complete:
  assumes "distinct got" and "set got = {..<length cs}"
  shows "uk_chunks (uk_state k cs got) = map Some cs" and "uk_count (uk_state k cs got) = length cs"
    and "uk_numChunks (uk_state k cs got) = length cs"
proof -
  show "uk_chunks (uk_state k cs got) = map Some cs"
  proof -
    have "map (\<lambda>i. if i \<in> set got then Some (cs ! i) else None) [0..<length cs] = map (Some \<circ> (!) cs) [0..<length cs]"
      using assms(2) by (intro map_cong) auto
    then show ?thesis by (simp add: uk_state_def map_nth flip: map_map)
  qed
  show "uk_count (uk_state k cs got) = length cs"
    using distinct_card [OF assms(1)] assms(2) by (simp add: uk_state_def)
qed (simp add: uk_state_def)

text \<open>What it takes for the chunks to make up the content \<open>y\<close>.\<close>

definition makes_up ::
  "('o, 'z) object_class_scheme \<Rightarrow> 'o registry \<Rightarrow> chunk list \<Rightarrow> 'o \<Rightarrow> bool" where
  "makes_up cls reg cs y \<longleftrightarrow>
     (\<forall>c \<in> set cs. length (ck_payload c) = unat (ck_payloadLength c)) \<and>
     unat (ck_unchunkedSize (hd cs)) = length (concat (map ck_payload cs)) \<and>
     (\<exists>x rest n. ContentRegistry_create (ck_internalId (hd cs)) (ck_internalClassVersion (hd cs)) reg = Some x \<and>
        no_skip (oc_deserialize cls x (ck_internalClassVersion (hd cs))) \<and>
        in_eval (oc_deserialize cls x (ck_internalClassVersion (hd cs))) (concat (map ck_payload cs)) 0 = Some (Inr y, rest, n))"

lemma ce_accept_last:
  assumes ser: "chunk_series k cs" and i: "i < length cs" "i \<notin> set got" and col: "collecting k cs got ce"
    and env: "en_content env = Some (ObjectContent (Chunk (cs ! i)))"
    and full: "distinct got" "set (got @ [i]) = {..<length cs}" and up: "makes_up cls reg cs y"
  shows "\<exists>ce'. ce_accept cls reg env ce = (Inr (Some (env\<lparr>en_content := Some (ObjectContent y)\<rparr>)), ce') \<and>
    ce_source ce' = ce_source ce \<and> ce_config ce' = ce_config ce \<and>
    map_of (ce_unchunkers ce') = (map_of (ce_unchunkers ce))(k := None)"
proof -
  let ?u = "uk_state k cs (got @ [i])"
  have k: "ck_internalInstanceId (cs ! i) = k" using ser i by (simp add: chunk_series_def)
  have "distinct (got @ [i])" using full i by simp
  note u = uk_state_complete [OF this full(2), of k]
  obtain x rest n where "ContentRegistry_create (ck_internalId (hd cs)) (ck_internalClassVersion (hd cs)) reg = Some x"
      "no_skip (oc_deserialize cls x (ck_internalClassVersion (hd cs)))"
      "in_eval (oc_deserialize cls x (ck_internalClassVersion (hd cs))) (concat (map ck_payload cs)) 0 = Some (Inr y, rest, n)"
    using up by (auto simp: makes_up_def)
  then have g: "MessageUnchunker_getUnchunked cls reg ?u env = (Inr True, env\<lparr>en_content := Some (ObjectContent y)\<rparr>)"
    using getUnchunked_ok [OF u _ _ refl] up ser by (auto simp: makes_up_def chunk_series_def)
  then have "ce_accept cls reg env ce = (Inr (Some (env\<lparr>en_content := Some (ObjectContent y)\<rparr>)),
      ce\<lparr>ce_unchunkers := map_erase k (map_set k ?u (ce_unchunkers ce))\<rparr>)"
    using ser i col env uk_state_add [OF ser i] uk_state_new [OF ser i(1)] k
    by (cases "got = []") (auto simp: ce_accept_def collecting_def Let_def)
  then show ?thesis by simp
qed

text \<open>The chunks the sender makes of the serialized content \<open>d\<close>.\<close>

definition chunk_list ::
  "('o, 'z) object_class_scheme \<Rightarrow> nat \<Rightarrow> nat \<Rightarrow> 'o envelope \<Rightarrow> metadata \<Rightarrow> byte list \<Rightarrow> chunk list" where
  "chunk_list cls c us env md d =
     (let ps = blocks c d in map (\<lambda>i. chunk_message cls c us (length ps) env md i (ps ! i)) [0..<length ps])"

lemma length_chunk_list [simp]: "length (chunk_list cls c us env md d) = length (blocks c d)"
  by (simp add: chunk_list_def Let_def)

lemma chunk_list_payloads: "map ck_payload (chunk_list cls c us env md d) = blocks c d"
  by (simp add: chunk_list_def Let_def chunk_message_def MessageChunk_new_def comp_def map_nth)

lemma chunk_list_series:
  assumes "length (blocks c d) < 2 ^ 16" and "d \<noteq> []" and "0 < c"
  shows "chunk_series (md_instanceId md) (chunk_list cls c us env md d)"
proof -
  have "blocks c d \<noteq> []" using assms(2,3) by (subst blocks.simps) simp
  then show ?thesis
    using assms(1)
    by (auto simp: chunk_series_def chunk_list_def Let_def chunk_message_def MessageChunk_new_def unat_word_of_nat_16)
qed

lemma chunk_list_makes_up:
  assumes c: "0 < c" "c < 2 ^ 32" and d: "d \<noteq> []" "length d < 2 ^ 64" and us: "us = length d"
    and reg: "ContentRegistry_create (Envelope_classId cls env) (Envelope_classVersion cls env) reg = Some x"
    and ns: "no_skip (oc_deserialize cls x (Envelope_classVersion cls env))"
    and dec: "in_eval (oc_deserialize cls x (Envelope_classVersion cls env)) d 0 = Some (Inr y, rest, n)"
  shows "makes_up cls reg (chunk_list cls c us env md d) y"
proof -
  have ne: "blocks c d \<noteq> []" using c(1) d(1) by (subst blocks.simps) simp
  then have hd: "hd (chunk_list cls c us env md d) = chunk_message cls c us (length (blocks c d)) env md 0 (blocks c d ! 0)"
    by (simp add: chunk_list_def Let_def upt_conv_Cons)
  have "length p = unat (word_of_nat (length p) :: u32)" if "p \<in> set (blocks c d)" for p
    using blocks_length [OF that] c(2) by (simp add: unat_word_of_nat_32)
  then have pl: "\<forall>k \<in> set (chunk_list cls c us env md d). length (ck_payload k) = unat (ck_payloadLength k)"
    by (auto simp: chunk_list_def Let_def chunk_message_def MessageChunk_new_def)
  have "unat (word_of_nat us :: u64) = length d" using d(2) us by (simp add: unat_of_nat)
  then show ?thesis
    using pl reg ns dec c(1) unfolding makes_up_def hd chunk_list_payloads concat_blocks [OF c(1)]
    by (auto simp: chunk_message_def MessageChunk_new_def)
qed

subsection \<open>Contract of the endpoint below\<close>

text \<open>
  A message endpoint as a queue: \<open>st e q\<close> says that \<open>e\<close> will deliver the messages \<open>q\<close> next. What is
  put into it comes out at the end, in the form \<open>rcv\<close> gives it.
\<close>

locale message_queue =
  fixes ops :: "('e, 'o, 'y) endpoint_ops_scheme"
    and st :: "'e \<Rightarrow> 'o envelope list \<Rightarrow> bool"
    and sendable :: "'o envelope \<Rightarrow> bool"
    and rcv :: "'o envelope \<Rightarrow> 'o envelope"
  assumes put_ok: "st e q \<Longrightarrow> sendable env \<Longrightarrow>
      \<exists>e'. ep_putEnvelope ops env e = (Inr (), e') \<and> st e' (q @ [rcv env])"
    and get_ok: "st e (env # q) \<Longrightarrow> \<exists>e'. ep_getEnvelope ops e = (Inr env, e') \<and> st e' q"

locale chunking_queue = message_queue ops st sendable rcv
  for ops :: "('e, 'o chunked, 'y) endpoint_ops_scheme" and st sendable rcv +
  assumes rcv_content: "sendable env \<Longrightarrow> en_content (rcv env) = en_content env"
begin

text \<open>Sending the buffers of the multi-buffer one by one.\<close>

lemma send_chunks:
  assumes "st (ce_source ce) q" and "distinct is"
    and "\<forall>i \<in> set is. i < length (mb_buffers m) \<and> mb_buffers m ! i = Some (b i) \<and>
      sendable (chunk_envelope (chunk_message cls (cc_chunkSize (ce_config ce)) us n env md i (Buffer_written (b i))) env)"
  shows "\<exists>s' m'. forp is (ce_send_chunk ops cls us n env md) (ce, m) = (Inr (), (ce\<lparr>ce_source := s'\<rparr>, m')) \<and>
    st s' (q @ map (\<lambda>i. rcv (chunk_envelope (chunk_message cls (cc_chunkSize (ce_config ce)) us n env md i
        (Buffer_written (b i))) env)) is)"
  using assms
proof (induction "is" arbitrary: ce m q)
  case Nil
  then show ?case by (auto intro!: exI [of _ "ce_source ce"])
next
  case (Cons i "is")
  let ?e = "chunk_envelope (chunk_message cls (cc_chunkSize (ce_config ce)) us n env md i (Buffer_written (b i))) env"
  obtain s1 where s1: "ep_putEnvelope ops ?e (ce_source ce) = (Inr (), s1)" "st s1 (q @ [rcv ?e])"
    using put_ok [OF Cons.prems(1), of ?e] Cons.prems(3) by auto
  let ?m = "m\<lparr>mb_buffers := (mb_buffers m)[i := None]\<rparr>" and ?ce = "ce\<lparr>ce_source := s1\<rparr>"
  have step: "ce_send_chunk ops cls us n env md i (ce, m) = (Inr (), (?ce, ?m))"
    using Cons.prems(3) s1
    by (simp add: ce_send_chunk_def MultiBuffer_takeBuffer_def mb_at_def ce_src_def)
  have "\<forall>j \<in> set is. j < length (mb_buffers ?m) \<and> mb_buffers ?m ! j = Some (b j) \<and>
      sendable (chunk_envelope (chunk_message cls (cc_chunkSize (ce_config ?ce)) us n env md j (Buffer_written (b j))) env)"
  proof
    fix j assume "j \<in> set is"
    then have "i \<noteq> j" using Cons.prems(2) by auto
    then show "j < length (mb_buffers ?m) \<and> mb_buffers ?m ! j = Some (b j) \<and>
        sendable (chunk_envelope (chunk_message cls (cc_chunkSize (ce_config ?ce)) us n env md j (Buffer_written (b j))) env)"
      using Cons.prems(3) \<open>j \<in> set is\<close> by simp
  qed
  with Cons.IH [of ?ce "q @ [rcv ?e]" ?m] s1(2) Cons.prems(2) step show ?case by auto
qed

text \<open>Receiving the chunks of one message, in any order.\<close>

lemma collect_chunks:
  assumes cid: "\<forall>c. oc_classId cls (Chunk c) = MessageChunk_ID" and ser: "chunk_series k cs"
    and up: "makes_up cls reg cs y"
    and "collecting k cs got ce" and "distinct (got @ is)" and "set (got @ is) = {..<length cs}" and "is \<noteq> []"
    and "st (ce_source ce) (map E is @ q)" and E: "\<forall>i < length cs. en_content (E i) = Some (ObjectContent (Chunk (cs ! i)))"
  shows "\<exists>ce'. ChunkingMessageEndpoint_getEnvelope ops cls reg ce =
      Some (Inr ((E (last is))\<lparr>en_content := Some (ObjectContent y)\<rparr>), ce') \<and>
    st (ce_source ce') q \<and> map_of (ce_unchunkers ce') = (map_of (ce_unchunkers ce))(k := None) \<and>
    ce_config ce' = ce_config ce"
  using assms(4-8)
proof (induction "is" arbitrary: got ce)
  case (Cons i "is")
  have i: "i < length cs" "i \<notin> set got" using Cons.prems(2,3) by auto
  obtain s1 where s1: "ep_getEnvelope ops (ce_source ce) = (Inr (E i), s1)" "st s1 (map E is @ q)"
    using get_ok [of "ce_source ce" "E i" "map E is @ q"] Cons.prems(5) by auto
  let ?ce = "ce\<lparr>ce_source := s1\<rparr>"
  have cls: "Envelope_classId cls (E i) = MessageChunk_ID" using E cid i(1) by (simp add: Envelope_classId_def)
  have col: "collecting k cs got ?ce" using Cons.prems(1) by (simp add: collecting_def)
  note unfold = ChunkingMessageEndpoint_getEnvelope.simps [of ops cls reg ce]
  show ?case
  proof (cases "is = []")
    case True
    then obtain ce2 where "ce_accept cls reg (E i) ?ce = (Inr (Some ((E i)\<lparr>en_content := Some (ObjectContent y)\<rparr>)), ce2)"
        "ce_source ce2 = s1" "ce_config ce2 = ce_config ce"
        "map_of (ce_unchunkers ce2) = (map_of (ce_unchunkers ce))(k := None)"
      using ce_accept_last [OF ser i col _ _ _ up, of "E i"] Cons.prems(2,3) E i(1) by auto
    with s1 cls True show ?thesis by (simp add: unfold fun_eq_iff)
  next
    case False
    have "card (set (got @ i # is)) = length (got @ i # is)" using Cons.prems(2) by (rule distinct_card)
    then have "length got + 1 < length cs" using Cons.prems(3) False by (cases "is") auto
    then obtain ce2 where ce2: "ce_accept cls reg (E i) ?ce = (Inr None, ce2)" "collecting k cs (got @ [i]) ce2"
        "ce_source ce2 = s1" "ce_config ce2 = ce_config ce"
        "map_of (ce_unchunkers ce2) = (map_of (ce_unchunkers ce))(k \<mapsto> uk_state k cs (got @ [i]))"
      using ce_accept_more [OF ser i col, of "E i" cls reg] E i(1) by auto
    have "distinct ((got @ [i]) @ is)" "set ((got @ [i]) @ is) = {..<length cs}" using Cons.prems(2,3) by auto
    with Cons.IH [OF ce2(2) _ _ False] s1(2) ce2(3) obtain ce3 where
        "ChunkingMessageEndpoint_getEnvelope ops cls reg ce2 =
          Some (Inr ((E (last is))\<lparr>en_content := Some (ObjectContent y)\<rparr>), ce3)"
        "st (ce_source ce3) q" "map_of (ce_unchunkers ce3) = (map_of (ce_unchunkers ce2))(k := None)"
        "ce_config ce3 = ce_config ce2"
      by (auto simp: fun_upd_def)
    with s1(1) cls ce2 False show ?thesis by (simp add: unfold fun_eq_iff)
  qed
qed simp

text \<open>A message that is large enough leaves as its series of chunks.\<close>

lemma put_chunked:
  assumes al: "alloc_ok alloc" and st: "st (ce_source ce) q" and c: "cc_enabled (ce_config ce)" "0 < cc_chunkSize (ce_config ce)"
    and env: "en_content env = Some (ObjectContent x)" "en_metadata env = Some md"
    and len: "cc_minChunkingSize (ce_config ce) \<le> oc_serializedLength cls x"
    and d: "out_eval (oc_serialize cls x) 0 = (Inr (), d)"
    and cs: "cs = chunk_list cls (cc_chunkSize (ce_config ce)) (oc_serializedLength cls x) env md d"
    and few: "length cs < 2 ^ 16" and ok: "\<forall>i < length cs. sendable (chunk_envelope (cs ! i) env)"
  shows "\<exists>s'. ChunkingMessageEndpoint_putEnvelope alloc ops cls env ce = (Inr (), ce\<lparr>ce_source := s'\<rparr>) \<and>
    st s' (q @ map (\<lambda>i. rcv (chunk_envelope (cs ! i) env)) [0..<length cs])"
proof -
  let ?c = "cc_chunkSize (ce_config ce)" and ?us = "oc_serializedLength cls x"
  have n: "length cs = length (blocks ?c d)" by (simp add: cs)
  have "out_eval (out_then (oc_serialize cls x) (OutFlush (OutRet ()))) (snk_bytesWritten (MultiBuffer_sink alloc) (MultiBuffer_new ?c ?c)) = (Inr (), d)"
    using d by (simp add: MultiBuffer_sink_def MultiBuffer_new_def)
  then obtain mb where mb: "OutStreamImpl_run (MultiBuffer_sink alloc) (out_then (oc_serialize cls x) (OutFlush (OutRet ())))
        (MultiBuffer_new ?c ?c) = (Inr (), mb)" "mb_blocks_inv alloc ?c mb" "mb_content mb = d"
    using mbuf_blocks.run_out_eval [OF mb_blocks_inv_new [OF al c(2)]]
    by (force simp: MultiBuffer_new_def [of ?c ?c] mb_content_def)
  note bufs = mb_blocks_inv_buffers [OF mb(2), unfolded mb(3)]
  let ?b = "\<lambda>i. the (mb_buffers mb ! i)"
  have msg: "chunk_message cls ?c ?us (length cs) env md i (Buffer_written (?b i)) = cs ! i" if "i < length cs" for i
    using that n bufs(1,4) nth_map [of i "mb_buffers mb" "Buffer_written \<circ> the"] by (simp add: cs chunk_list_def Let_def)
  have snd: "\<forall>i \<in> set [0..<length cs]. i < length (mb_buffers mb) \<and> mb_buffers mb ! i = Some (?b i) \<and>
      sendable (chunk_envelope (chunk_message cls ?c ?us (length cs) env md i (Buffer_written (?b i))) env)"
    using bufs(3,4) n ok msg by simp
  have eq: "map (\<lambda>i. rcv (chunk_envelope (chunk_message cls ?c ?us (length cs) env md i (Buffer_written (?b i))) env))
      [0..<length cs] = map (\<lambda>i. rcv (chunk_envelope (cs ! i) env)) [0..<length cs]"
    using msg by simp
  obtain s' m' where
      "forp [0..<length cs] (ce_send_chunk ops cls ?us (length cs) env md) (ce, mb) = (Inr (), (ce\<lparr>ce_source := s'\<rparr>, m'))"
      "st s' (q @ map (\<lambda>i. rcv (chunk_envelope (cs ! i) env)) [0..<length cs])"
    using send_chunks [OF st distinct_upt snd, unfolded eq] by blast
  then show ?thesis
    using c env len mb(1) few bufs(2) n
    by (auto simp: ChunkingMessageEndpoint_putEnvelope_def Let_def MultiBuffer_bufferCount_def)
qed

text \<open>Everything else passes straight through.\<close>

lemma put_plain:
  assumes "st (ce_source ce) q" and "sendable env"
    and "\<not> cc_enabled (ce_config ce) \<or> (\<forall>x. en_content env \<noteq> Some (ObjectContent x)) \<or>
      (\<exists>x. en_content env = Some (ObjectContent x) \<and> oc_serializedLength cls x < cc_minChunkingSize (ce_config ce))"
  shows "\<exists>s'. ChunkingMessageEndpoint_putEnvelope alloc ops cls env ce = (Inr (), ce\<lparr>ce_source := s'\<rparr>) \<and> st s' (q @ [rcv env])"
  using put_ok [OF assms(1,2)] assms(3)
  by (auto simp: ChunkingMessageEndpoint_putEnvelope_def ce_src_def Let_def split: option.splits content.splits)

lemma get_plain:
  assumes "st (ce_source ce) (env # q)" and "Envelope_classId cls env \<noteq> MessageChunk_ID"
  shows "\<exists>s'. ChunkingMessageEndpoint_getEnvelope ops cls reg ce = Some (Inr env, ce\<lparr>ce_source := s'\<rparr>) \<and> st s' q"
  using get_ok [OF assms(1)] assms(2) by (auto simp: ChunkingMessageEndpoint_getEnvelope.simps)

end

subsection \<open>The peer endpoint as a queue\<close>

definition PeerMessageEndpoint_ops ::
  "(nat \<Rightarrow> byte list option) \<Rightarrow> ('p, 'y) peer_ops_scheme \<Rightarrow> ('o, 'z) object_class_scheme \<Rightarrow> 'o registry \<Rightarrow> metadata \<Rightarrow>
   ('p peer_endpoint, 'o) endpoint_ops" where
  "PeerMessageEndpoint_ops alloc pops cls reg fresh =
     \<lparr>ep_getEnvelope = PeerMessageEndpoint_getEnvelope alloc pops cls reg fresh False,
      ep_putEnvelope = PeerMessageEndpoint_putEnvelope alloc pops cls False,
      ep_shutdown = PeerMessageEndpoint_shutdown pops\<rparr>"

text \<open>Messages whose class is registered and whose content can be read back.\<close>

definition decodable :: "('o, 'z) object_class_scheme \<Rightarrow> 'o registry \<Rightarrow> 'o envelope \<Rightarrow> bool" where
  "decodable cls reg env \<longleftrightarrow> (\<exists>x y rest n. en_content env = Some (ObjectContent y) \<and>
     ContentRegistry_create (Envelope_classId cls env) (Envelope_classVersion cls env) reg = Some x \<and>
     in_eval (oc_deserialize cls x (Envelope_classVersion cls env)) (wire_content cls env)
       (length (wire_header cls env)) = Some (Inr y, rest, n))"

definition peer_rcv :: "metadata \<Rightarrow> 'o envelope \<Rightarrow> 'o envelope" where
  "peer_rcv fresh env = env\<lparr>en_metadata := map_option (md_received fresh) (en_metadata env)\<rparr>"

definition peer_queue ::
  "('p \<Rightarrow> bool) \<Rightarrow> ('p \<Rightarrow> byte list) \<Rightarrow> (nat \<Rightarrow> byte list option) \<Rightarrow> ('o, 'z) object_class_scheme \<Rightarrow> 'o registry \<Rightarrow> metadata \<Rightarrow>
   'p peer_endpoint \<Rightarrow> 'o envelope list \<Rightarrow> bool" where
  "peer_queue pinv pending alloc cls reg fresh e q \<longleftrightarrow> alloc_ok alloc \<and> sender_inv alloc e \<and> pe_useRegistry e \<and>
     fsr_bytesRead (bsr_input (pe_source e)) \<le> fsr_frameSize (bsr_input (pe_source e)) \<and> pinv (pe_peer e) \<and>
     (\<exists>envs. (\<forall>env \<in> set envs. message_ok cls env \<and> decodable cls reg env) \<and>
        pending (pe_peer e) = concat (map (wire cls) envs) \<and> q = map (peer_rcv fresh) envs)"

context byte_pipe
begin

lemma endpoint_put:
  assumes "peer_queue inv pending alloc cls reg fresh e q" and "message_ok cls env" and "decodable cls reg env"
  shows "\<exists>e'. PeerMessageEndpoint_putEnvelope alloc pops cls False env e = (Inr (), e') \<and>
    peer_queue inv pending alloc cls reg fresh e' (q @ [peer_rcv fresh env])"
proof -
  obtain envs where e: "sender_inv alloc e" "inv (pe_peer e)" "\<forall>env \<in> set envs. message_ok cls env \<and> decodable cls reg env"
      "pending (pe_peer e) = concat (map (wire cls) envs)" "q = map (peer_rcv fresh) envs"
    using assms(1) by (auto simp: peer_queue_def)
  obtain e' where e': "PeerMessageEndpoint_putEnvelope alloc pops cls False env e = (Inr (), e')" "sender_inv alloc e'"
      "inv (pe_peer e')" "pending (pe_peer e') = pending (pe_peer e) @ wire cls env"
    using putEnvelope_ok [OF e(1,2) assms(2)] by auto
  have "pe_useRegistry e' = pe_useRegistry e" "pe_source e' = pe_source e"
    using e'(1) by (auto simp: PeerMessageEndpoint_putEnvelope_def Let_def split: if_splits prod.splits sum.splits)
  then have "peer_queue inv pending alloc cls reg fresh e' (q @ [peer_rcv fresh env])"
    using assms e e' by (auto simp: peer_queue_def intro!: exI [of _ "envs @ [env]"])
  with e'(1) show ?thesis by blast
qed

lemma endpoint_get:
  assumes "peer_queue inv pending alloc cls reg fresh e (env # q)"
  shows "\<exists>e'. PeerMessageEndpoint_getEnvelope alloc pops cls reg fresh False e = (Inr env, e') \<and>
    peer_queue inv pending alloc cls reg fresh e' q"
proof -
  obtain env0 envs where e: "alloc_ok alloc" "sender_inv alloc e" "pe_useRegistry e"
      "fsr_bytesRead (bsr_input (pe_source e)) \<le> fsr_frameSize (bsr_input (pe_source e))" "inv (pe_peer e)"
      "message_ok cls env0" "decodable cls reg env0" "\<forall>env \<in> set envs. message_ok cls env \<and> decodable cls reg env"
      "pending (pe_peer e) = wire cls env0 @ concat (map (wire cls) envs)" "env = peer_rcv fresh env0" "q = map (peer_rcv fresh) envs"
    using assms by (auto simp: peer_queue_def)
  obtain x y rest n where dec: "en_content env0 = Some (ObjectContent y)"
      "ContentRegistry_create (Envelope_classId cls env0) (Envelope_classVersion cls env0) reg = Some x"
      "in_eval (oc_deserialize cls x (Envelope_classVersion cls env0)) (wire_content cls env0) (length (wire_header cls env0)) =
        Some (Inr y, rest, n)"
    using e(7) by (auto simp: decodable_def)
  have "\<not> pe_shutdown e" using e(2) by (simp add: sender_inv_def)
  from getEnvelope_object [OF e(1) this e(3,5,4,6,9) dec(2,3), of fresh] obtain e' where
      e': "PeerMessageEndpoint_getEnvelope alloc pops cls reg fresh False e = (Inr \<lparr>en_content = Some (ObjectContent y),
          en_metadata = map_option (md_received fresh) (en_metadata env0), en_to = en_to env0\<rparr>, e')"
        "inv (pe_peer e')" "pending (pe_peer e') = concat (map (wire cls) envs)"
        "fsr_bytesRead (bsr_input (pe_source e')) \<le> fsr_frameSize (bsr_input (pe_source e'))"
    by auto
  have "pe_useRegistry e' = pe_useRegistry e" "sender_inv alloc e'"
    using e'(1) e(2)
    by (auto simp: PeerMessageEndpoint_getEnvelope_def Let_def sender_inv_def split: if_splits prod.splits sum.splits)
  then have "peer_queue inv pending alloc cls reg fresh e' q"
    using e e' by (auto simp: peer_queue_def)
  moreover have "\<lparr>en_content = Some (ObjectContent y), en_metadata = map_option (md_received fresh) (en_metadata env0),
      en_to = en_to env0\<rparr> = env"
    using dec(1) e(10) by (simp add: peer_rcv_def)
  ultimately show ?thesis using e'(1) by auto
qed

end

interpretation mbuf_chunking: chunking_queue "PeerMessageEndpoint_ops alloc (MultiBuffer_peer alloc) cls reg fresh"
  "peer_queue (mb_sink_inv alloc) mb_pending alloc cls reg fresh"
  "\<lambda>env. message_ok cls env \<and> decodable cls reg env" "peer_rcv fresh"
  for alloc and cls :: "('o chunked, 'z) object_class_scheme" and reg fresh
proof
  fix e q and env :: "'o chunked envelope"
  assume e: "peer_queue (mb_sink_inv alloc) mb_pending alloc cls reg fresh e q"
    and env: "message_ok cls env \<and> decodable cls reg env"
  then show "\<exists>e'. ep_putEnvelope (PeerMessageEndpoint_ops alloc (MultiBuffer_peer alloc) cls reg fresh) env e = (Inr (), e') \<and>
      peer_queue (mb_sink_inv alloc) mb_pending alloc cls reg fresh e' (q @ [peer_rcv fresh env])"
    using mbuf_link.endpoint_put [OF e, of env] by (simp add: PeerMessageEndpoint_ops_def)
next
  fix e q and env :: "'o chunked envelope"
  assume "peer_queue (mb_sink_inv alloc) mb_pending alloc cls reg fresh e (env # q)"
  then show "\<exists>e'. ep_getEnvelope (PeerMessageEndpoint_ops alloc (MultiBuffer_peer alloc) cls reg fresh) e = (Inr env, e') \<and>
      peer_queue (mb_sink_inv alloc) mb_pending alloc cls reg fresh e' q"
    by (simp add: PeerMessageEndpoint_ops_def mbuf_link.endpoint_get)
qed (simp add: peer_rcv_def)

subsection \<open>Chunk messages are ordinary messages\<close>

lemma chunk_list_nth_ok:
  assumes "i < length (blocks c d)" and "c < 2 ^ 32" and "length (md_routingName md) < 2 ^ 16"
  shows "chunk_ok (chunk_list cls c us env md d ! i)"
    and "ck_internalRoutingName (chunk_list cls c us env md d ! i) = md_routingName md"
    and "length (ck_payload (chunk_list cls c us env md d ! i)) \<le> c"
proof -
  have p: "length (blocks c d ! i) \<le> c" using blocks_length [of "blocks c d ! i" c d] assms(1) by simp
  then show "chunk_ok (chunk_list cls c us env md d ! i)"
      "ck_internalRoutingName (chunk_list cls c us env md d ! i) = md_routingName md"
      "length (ck_payload (chunk_list cls c us env md d ! i)) \<le> c"
    using assms
    by (simp_all add: chunk_list_def Let_def chunk_ok_def chunk_message_def MessageChunk_new_def unat_word_of_nat_32)
qed

lemma chunk_envelope_sendable:
  fixes env :: "'o chunked envelope"
  assumes al: "alloc_ok alloc" and env: "en_metadata env = Some md" "name_ok md" and c: "chunk_ok ck"
    and size: "300 + length (md_routingName md) + length (ck_internalRoutingName ck) + 48 * length (en_to env) +
      length (ck_payload ck) < 2 ^ 32"
    and reg: "ContentRegistry_create MessageChunk_ID 0 reg = Some (Chunk ck0)"
  shows "message_ok (chunked_class alloc cls) (chunk_envelope ck env)"
    and "decodable (chunked_class alloc cls) reg (chunk_envelope ck env)"
proof -
  let ?cls = "chunked_class alloc cls" and ?env = "chunk_envelope ck env"
  have len: "length (wire_header ?cls ?env) = 66 + length (md_routingName md) + 48 * (length (en_to env) + 1)"
    using env(1) by (simp add: wire_header_def length_envelope_bytes chunk_envelope_def)
  have wc: "wire_content ?cls ?env = chunk_image ck"
    using chunk_serialize_image [OF c] by (simp add: wire_content_def content_data_def chunk_envelope_def chunked_class_def)
  show "message_ok ?cls ?env"
    using env size chunk_serialize_image [OF c] length_chunk_image [OF c] len wc
    by (simp add: message_ok_def chunk_envelope_def chunked_class_def)
  have id: "Envelope_classId ?cls ?env = MessageChunk_ID" "Envelope_classVersion ?cls ?env = 0"
      "en_content ?env = Some (ObjectContent (Chunk ck))"
    by (simp_all add: Envelope_classId_def Envelope_classVersion_def chunk_envelope_def chunked_class_def)
  have "in_eval (oc_deserialize ?cls (Chunk ck0) 0) (chunk_image ck) (length (wire_header ?cls ?env)) =
      Some (Inr (Chunk ck), [], length (wire_header ?cls ?env) + length (chunk_image ck))"
    using chunk_deserialize_image [OF al c, of ck0 "[]"] by (simp add: chunked_class_def)
  then show "decodable ?cls reg ?env"
    unfolding decodable_def id wc using reg by blast
qed

lemma no_skip_in_value [simp]: "no_skip (in_value n dec)"
  by (simp add: in_value_def split: sum.splits)

lemma no_skip_string [simp]: "no_skip (readString alloc k val)"
  by (simp add: readString_def Let_def split: option.splits)

subsection \<open>From end to end\<close>

text \<open>
  What it takes for a message to be sent in chunks: it is an object whose class reports the length of
  its serialized form, long enough for chunking but not for more than \<open>2 ^ 16 - 1\<close> chunks; a chunk with
  its header fits into a frame; the receiver knows the class and can read the object back, without
  using \<open>skip\<close>, which does not work on the multi-buffer that holds the chunks.
\<close>

definition reads_back :: "('o, 'z) object_class_scheme \<Rightarrow> 'o chunked registry \<Rightarrow> 'o \<Rightarrow> byte list \<Rightarrow> bool" where
  "reads_back cls reg x d \<longleftrightarrow> (\<exists>ck0. ContentRegistry_create MessageChunk_ID 0 reg = Some (Chunk ck0)) \<and>
     (\<exists>x0 rest n. ContentRegistry_create (oc_classId cls x) (oc_classVersion cls x) reg = Some (App x0) \<and>
        no_skip (oc_deserialize cls x0 (oc_classVersion cls x)) \<and>
        in_eval (oc_deserialize cls x0 (oc_classVersion cls x)) d 0 = Some (Inr x, rest, n))"

definition chunkable ::
  "('o, 'z) object_class_scheme \<Rightarrow> 'o chunked registry \<Rightarrow> chunking_config \<Rightarrow> 'o \<Rightarrow> metadata \<Rightarrow> address list \<Rightarrow> byte list \<Rightarrow> bool" where
  "chunkable cls reg config x md ds d \<longleftrightarrow>
     cc_enabled config \<and> 0 < cc_chunkSize config \<and> cc_minChunkingSize config \<le> oc_serializedLength cls x \<and>
     out_eval (oc_serialize cls x) 0 = (Inr (), d) \<and> oc_serializedLength cls x = length d \<and>
     0 < length d \<and> length d < 2 ^ 64 \<and> length (blocks (cc_chunkSize config) d) < 2 ^ 16 \<and> name_ok md \<and>
     300 + 2 * length (md_routingName md) + 48 * length ds + cc_chunkSize config < 2 ^ 32 \<and> reads_back cls reg x d"

definition app_envelope :: "'o \<Rightarrow> metadata \<Rightarrow> address list \<Rightarrow> 'o chunked envelope" where
  "app_envelope x md ds = \<lparr>en_content = Some (ObjectContent (App x)), en_metadata = Some md, en_to = ds\<rparr>"

text \<open>The chunk messages of a message, in order.\<close>

definition chunk_envelopes ::
  "(nat \<Rightarrow> byte list option) \<Rightarrow> ('o, 'z) object_class_scheme \<Rightarrow> chunking_config \<Rightarrow> 'o \<Rightarrow> metadata \<Rightarrow> address list \<Rightarrow>
   byte list \<Rightarrow> 'o chunked envelope list" where
  "chunk_envelopes alloc cls config x md ds d =
     map (\<lambda>c. chunk_envelope c (app_envelope x md ds))
       (chunk_list (chunked_class alloc cls) (cc_chunkSize config) (length d) (app_envelope x md ds) md d)"

lemma length_chunk_envelopes [simp]:
  "length (chunk_envelopes alloc cls config x md ds d) = length (blocks (cc_chunkSize config) d)"
  by (simp add: chunk_envelopes_def)

lemma chunk_envelopes_ok:
  assumes al: "alloc_ok alloc" and c: "chunkable cls reg config x md ds d"
    and i: "i < length (chunk_envelopes alloc cls config x md ds d)"
  shows "message_ok (chunked_class alloc cls) (chunk_envelopes alloc cls config x md ds d ! i)"
    and "decodable (chunked_class alloc cls) reg (chunk_envelopes alloc cls config x md ds d ! i)"
proof -
  let ?env = "app_envelope x md ds" and ?cls = "chunked_class alloc cls"
  let ?cs = "chunk_list ?cls (cc_chunkSize config) (length d) ?env md d"
  have lt: "cc_chunkSize config < 2 ^ 32" "length (md_routingName md) < 2 ^ 16"
    using c by (simp_all add: chunkable_def name_ok_def)
  have i': "i < length (blocks (cc_chunkSize config) d)" using i by simp
  note ck = chunk_list_nth_ok [OF i' lt, of ?cls "length d" ?env]
  obtain ck0 where reg: "ContentRegistry_create MessageChunk_ID 0 reg = Some (Chunk ck0)"
    using c by (auto simp: chunkable_def reads_back_def)
  have md: "en_metadata ?env = Some md" "name_ok md" using c by (simp_all add: app_envelope_def chunkable_def)
  have size: "300 + length (md_routingName md) + length (ck_internalRoutingName (?cs ! i)) + 48 * length (en_to ?env) +
      length (ck_payload (?cs ! i)) < 2 ^ 32"
    using c ck(2,3) by (simp add: chunkable_def app_envelope_def)
  have eq: "chunk_envelopes alloc cls config x md ds d ! i = chunk_envelope (?cs ! i) ?env"
    using i by (simp add: chunk_envelopes_def)
  show "message_ok ?cls (chunk_envelopes alloc cls config x md ds d ! i)"
      "decodable ?cls reg (chunk_envelopes alloc cls config x md ds d ! i)"
    unfolding eq using chunk_envelope_sendable [OF al md ck(1) size reg, of cls] by simp_all
qed

lemma peer_queue_new:
  assumes "alloc_ok alloc" and "pinv p" and "\<forall>env \<in> set envs. message_ok cls env \<and> decodable cls reg env"
    and "pending p = concat (map (wire cls) envs)"
  shows "peer_queue pinv pending alloc cls reg fresh (PeerMessageEndpoint_new p True) (map (peer_rcv fresh) envs)"
  using assms PeerMessageEndpoint_new_inv(1) [of alloc p True]
  by (auto simp: peer_queue_def PeerMessageEndpoint_new_def BufferedSource_new_def BasicFramingSource_new_def)

text \<open>A receiver that finds the chunks in its channel, in any order, delivers the message.\<close>

lemma chunks_received:
  fixes x :: 'o
  assumes al: "alloc_ok alloc" and c: "chunkable cls reg config x md ds d"
    and m: "mb_sink_inv alloc m" and p: "distinct is" "set is = {..<length (blocks (cc_chunkSize config) d)}"
    and pend: "mb_pending m =
      concat (map (\<lambda>i. wire (chunked_class alloc cls) (chunk_envelopes alloc cls config x md ds d ! i)) is)"
  shows "\<exists>b. ChunkingMessageEndpoint_getEnvelope
      (PeerMessageEndpoint_ops alloc (MultiBuffer_peer alloc) (chunked_class alloc cls) reg fresh)
      (chunked_class alloc cls) reg (ChunkingMessageEndpoint_new (PeerMessageEndpoint_new m True) config') =
      Some (Inr (app_envelope x (md_received fresh md) ds), b) \<and> (\<forall>k. map_of (ce_unchunkers b) k = None)"
proof -
  let ?env = "app_envelope x md ds" and ?cls = "chunked_class alloc cls"
  let ?es = "chunk_envelopes alloc cls config x md ds d"
  let ?cs = "chunk_list ?cls (cc_chunkSize config) (length d) ?env md d"
  let ?ce = "ChunkingMessageEndpoint_new (PeerMessageEndpoint_new m True) config'"
  have c': "0 < cc_chunkSize config" "cc_chunkSize config < 2 ^ 32" "d \<noteq> []" "length d < 2 ^ 64"
      "length (blocks (cc_chunkSize config) d) < 2 ^ 16"
    using c by (simp_all add: chunkable_def)
  have ser: "chunk_series (md_instanceId md) ?cs" by (rule chunk_list_series [OF c'(5,3,1)])
  obtain x0 rest n where x0: "ContentRegistry_create (oc_classId cls x) (oc_classVersion cls x) reg = Some (App x0)"
      "no_skip (oc_deserialize cls x0 (oc_classVersion cls x))"
      "in_eval (oc_deserialize cls x0 (oc_classVersion cls x)) d 0 = Some (Inr x, rest, n)"
    using c by (auto simp: chunkable_def reads_back_def)
  have up: "makes_up ?cls reg ?cs (App x)"
    by (rule chunk_list_makes_up [OF c'(1-4) refl, where x = "App x0" and rest = rest and n = n])
      (use x0 in \<open>simp_all add: chunked_class_def app_envelope_def Envelope_classId_def Envelope_classVersion_def\<close>)
  have ok: "distinct ([] @ is)" "set ([] @ is) = {..<length ?cs}" using p by simp_all
  have "blocks (cc_chunkSize config) d \<noteq> []" using c'(1,3) by (subst blocks.simps) simp
  then have "0 \<in> set is" unfolding p(2) by simp
  then have ne: "is \<noteq> []" by (cases "is") simp_all
  let ?E = "\<lambda>i. peer_rcv fresh (?es ! i)"
  have E: "\<forall>i < length ?cs. en_content (?E i) = Some (ObjectContent (Chunk (?cs ! i)))"
    by (simp add: peer_rcv_def chunk_envelopes_def chunk_envelope_def)
  have st: "peer_queue (mb_sink_inv alloc) mb_pending alloc ?cls reg fresh (ce_source ?ce) (map ?E is @ [])"
    using peer_queue_new [OF al, of "mb_sink_inv alloc" m "map ((!) ?es) is" ?cls reg mb_pending fresh] m pend
      chunk_envelopes_ok [OF al c] ok(2)
    by (auto simp: ChunkingMessageEndpoint_new_def comp_def)
  have cid: "\<forall>k. oc_classId ?cls (Chunk k) = MessageChunk_ID" by (simp add: chunked_class_def)
  have col: "collecting (md_instanceId md) ?cs [] ?ce" by (simp add: collecting_def ChunkingMessageEndpoint_new_def)
  have "last is < length ?cs" using ne ok(2) by (metis append_Nil last_in_set lessThan_iff)
  then have "(?E (last is))\<lparr>en_content := Some (ObjectContent (App x))\<rparr> = app_envelope x (md_received fresh md) ds"
    by (simp add: peer_rcv_def chunk_envelopes_def chunk_envelope_def app_envelope_def)
  with mbuf_chunking.collect_chunks [OF cid ser up col ok ne st E] show ?thesis
    by (auto simp: ChunkingMessageEndpoint_new_def)
qed

lemma wire_peer_rcv: "message_ok cls env \<Longrightarrow> wire cls (peer_rcv fresh env) = wire cls env"
  by (auto simp: message_ok_def peer_rcv_def wire_def wire_header_def wire_content_def envelope_bytes_def header_bytes_def
      md_received_def Envelope_classId_def Envelope_classVersion_def split: option.splits)

lemma peer_queue_channel:
  assumes "peer_queue pinv pending alloc cls reg fresh e q"
  shows "pinv (pe_peer e)" and "pending (pe_peer e) = concat (map (wire cls) q)"
proof -
  obtain envs where "\<forall>env \<in> set envs. message_ok cls env" "pending (pe_peer e) = concat (map (wire cls) envs)"
      "q = map (peer_rcv fresh) envs" "pinv (pe_peer e)"
    using assms by (auto simp: peer_queue_def)
  moreover from this have "map (wire cls) q = map (wire cls) envs" by (simp add: wire_peer_rcv)
  ultimately show "pinv (pe_peer e)" "pending (pe_peer e) = concat (map (wire cls) q)" by argo+
qed

lemma put_chunkable:
  fixes x :: 'o
  assumes al: "alloc_ok alloc" and c: "chunkable cls reg config x md ds d" and m: "mb_sink_inv alloc m" "mb_pending m = []"
  shows "\<exists>a. ChunkingMessageEndpoint_putEnvelope alloc
      (PeerMessageEndpoint_ops alloc (MultiBuffer_peer alloc) (chunked_class alloc cls) reg fresh)
      (chunked_class alloc cls) (app_envelope x md ds)
      (ChunkingMessageEndpoint_new (PeerMessageEndpoint_new m True) config) = (Inr (), a) \<and>
    mb_sink_inv alloc (pe_peer (ce_source a)) \<and>
    mb_pending (pe_peer (ce_source a)) =
      concat (map (wire (chunked_class alloc cls)) (chunk_envelopes alloc cls config x md ds d))"
proof -
  let ?env = "app_envelope x md ds" and ?cls = "chunked_class alloc cls"
  let ?es = "chunk_envelopes alloc cls config x md ds d"
  let ?ce = "ChunkingMessageEndpoint_new (PeerMessageEndpoint_new m True) config"
  let ?cs = "chunk_list ?cls (cc_chunkSize (ce_config ?ce)) (oc_serializedLength ?cls (App x)) ?env md d"
  have c': "cc_enabled config" "0 < cc_chunkSize config" "cc_minChunkingSize config \<le> oc_serializedLength cls x"
      "out_eval (oc_serialize cls x) 0 = (Inr (), d)" "oc_serializedLength cls x = length d"
      "length (blocks (cc_chunkSize config) d) < 2 ^ 16"
    using c by (simp_all add: chunkable_def)
  have simps: "ce_config ?ce = config" "oc_serializedLength ?cls (App x) = length d"
    using c'(5) by (simp_all add: ChunkingMessageEndpoint_new_def chunked_class_def)
  have st: "peer_queue (mb_sink_inv alloc) mb_pending alloc ?cls reg fresh (ce_source ?ce) []"
    using peer_queue_new [OF al, of "mb_sink_inv alloc" m "[]" ?cls reg mb_pending fresh] m
    by (simp add: ChunkingMessageEndpoint_new_def)
  have nth: "chunk_envelope (?cs ! i) ?env = ?es ! i" if "i < length ?cs" for i
    using that by (simp add: simps chunk_envelopes_def)
  have ok: "\<forall>i < length ?cs. message_ok ?cls (chunk_envelope (?cs ! i) ?env) \<and> decodable ?cls reg (chunk_envelope (?cs ! i) ?env)"
    using chunk_envelopes_ok [OF al c] nth by (simp add: simps)
  obtain s' where s': "ChunkingMessageEndpoint_putEnvelope alloc
        (PeerMessageEndpoint_ops alloc (MultiBuffer_peer alloc) ?cls reg fresh) ?cls ?env ?ce = (Inr (), ?ce\<lparr>ce_source := s'\<rparr>)"
      "peer_queue (mb_sink_inv alloc) mb_pending alloc ?cls reg fresh s'
        ([] @ map (\<lambda>i. peer_rcv fresh (chunk_envelope (?cs ! i) ?env)) [0..<length ?cs])"
    using mbuf_chunking.put_chunked [OF al st _ _ _ _ _ _ refl _ ok] c' simps
    by (force simp: chunked_class_def app_envelope_def)
  have "wire ?cls (peer_rcv fresh (chunk_envelope (?cs ! i) ?env)) = wire ?cls (?es ! i)" if "i < length ?cs" for i
    using wire_peer_rcv [of ?cls "chunk_envelope (?cs ! i) ?env" fresh] ok nth [OF that] that by metis
  then have "map (\<lambda>i. wire ?cls (peer_rcv fresh (chunk_envelope (?cs ! i) ?env))) [0..<length ?cs] = map (\<lambda>i. wire ?cls (?es ! i)) [0..<length ?es]"
    by (intro map_cong) (simp_all add: simps)
  also have "\<dots> = map (wire ?cls) (map ((!) ?es) [0..<length ?es])" by simp
  also have "\<dots> = map (wire ?cls) ?es" by (simp only: map_nth)
  finally show ?thesis
    using s' peer_queue_channel [OF s'(2)] by (auto simp: comp_def)
qed

lemma blocks_nth:
  "0 < c \<Longrightarrow> i < length (blocks c d) \<Longrightarrow> blocks c d ! i = take c (drop (i * c) d) \<and> i * c < length d"
proof (induction c d arbitrary: i rule: blocks.induct)
  case (1 c d)
  then have d: "d \<noteq> []" by (auto simp: blocks.simps [of c d])
  then have b: "blocks c d = take c d # blocks c (drop c d)" using 1(2) by (simp add: blocks.simps [of c d])
  show ?case
  proof (cases i)
    case 0
    then show ?thesis using d b by simp
  next
    case (Suc j)
    then have "blocks c (drop c d) ! j = take c (drop (j * c) (drop c d)) \<and> j * c < length (drop c d)"
      using 1 d b by auto
    then show ?thesis using Suc b by (auto simp: add.commute)
  qed
qed

text \<open>The fields of the chunk messages: consecutive pieces of the content, each at its offset.\<close>

lemma chunk_envelopes_nth:
  assumes c: "chunkable cls reg config x md ds d" and i: "i < length (chunk_envelopes alloc cls config x md ds d)"
  shows "\<exists>ck. en_content (chunk_envelopes alloc cls config x md ds d ! i) = Some (ObjectContent (Chunk ck)) \<and>
    unat (ck_chunkIndex ck) = i \<and> unat (ck_numberOfChunks ck) = length (chunk_envelopes alloc cls config x md ds d) \<and>
    unat (ck_offset ck) = i * cc_chunkSize config \<and>
    ck_payload ck = take (cc_chunkSize config) (drop (i * cc_chunkSize config) d) \<and>
    unat (ck_payloadLength ck) = length (ck_payload ck) \<and> unat (ck_unchunkedSize ck) = length d"
proof -
  let ?c = "cc_chunkSize config"
  have c': "0 < ?c" "?c < 2 ^ 32" "length d < 2 ^ 64" "length (blocks ?c d) < 2 ^ 16"
    using c by (simp_all add: chunkable_def)
  have i': "i < length (blocks ?c d)" using i by simp
  note nth = blocks_nth [OF c'(1) i']
  have "length (blocks ?c d ! i) \<le> ?c" using nth by simp
  then have "unat (word_of_nat (length (blocks ?c d ! i)) :: u32) = length (blocks ?c d ! i)"
    using c'(2) by (simp add: unat_word_of_nat_32)
  moreover have "unat (word_of_nat (i * ?c) :: u64) = i * ?c" "unat (word_of_nat (length d) :: u64) = length d"
    using nth c'(3) by (simp_all add: unat_of_nat del: of_nat_mult)
  moreover have "unat (word_of_nat i :: u16) = i" "unat (word_of_nat (length (blocks ?c d)) :: u16) = length (blocks ?c d)"
    using i' c'(4) by (simp_all add: unat_word_of_nat_16)
  ultimately show ?thesis
    using i' nth
    by (simp add: chunk_envelopes_def chunk_envelope_def chunk_list_def Let_def chunk_message_def MessageChunk_new_def
        del: of_nat_mult)
qed

end
