(* ===== verification/Routing.thy ===== *)
theory Routing
  imports Json_Api
begin

text \<open>
  \<^verbatim>\<open>arras4_core_impl/lib/routing\<close>: which computations receive a message.

  A \<open>ComputationMap\<close> is built from the routing data of a session and translates between names, ids
  and addresses; \<open>Addressing\<close> turns the message filters of one source computation into a map from
  routing names to destinations; an \<open>Addresser\<close> holds the current \<open>Addressing\<close> and writes the
  addresses into envelopes. The mutex of \<open>Addresser\<close> makes its operations atomic, which they are here.
\<close>

subsection \<open>ComputationMap\<close>

record computation_map =
  cm_nameToId :: "(string, uuid) stdmap"
  cm_idToName :: "(uuid, string) stdmap"
  cm_idToAddress :: "(uuid, address) stdmap"

definition cm_client :: string where
  "cm_client = ''(client)''"

fun cm_add ::
  "'u uuid_api_scheme \<Rightarrow> ('j, 'z) json_api_scheme \<Rightarrow> uuid \<Rightarrow> (string \<times> 'j) list \<Rightarrow> computation_map \<Rightarrow> exn + computation_map" where
  "cm_add U J sessionId [] cm = Inr cm"
| "cm_add U J sessionId ((name, v) # es) cm =
     sbind (js_string J v ''compId'') (\<lambda>c. sbind (js_string J v ''nodeId'') (\<lambda>n.
       let compId = UUID_parse U c
       in cm_add U J sessionId es
            \<lparr>cm_nameToId = map_set name compId (cm_nameToId cm), cm_idToName = map_set compId name (cm_idToName cm),
             cm_idToAddress = map_set compId \<lparr>ad_session = sessionId, ad_node = UUID_parse U n, ad_computation = compId\<rparr>
               (cm_idToAddress cm)\<rparr>))"

definition ComputationMap_new ::
  "'u uuid_api_scheme \<Rightarrow> ('j, 'z) json_api_scheme \<Rightarrow> uuid \<Rightarrow> 'j \<Rightarrow> exn + computation_map" where
  "ComputationMap_new U J sessionId computationsData =
     sbind (cm_add U J sessionId (js_members J computationsData)
             \<lparr>cm_nameToId = [], cm_idToName = [], cm_idToAddress = []\<rparr>)
       (\<lambda>cm. Inr \<lparr>cm_nameToId = map_set cm_client UUID_null (cm_nameToId cm),
                   cm_idToName = map_set UUID_null cm_client (cm_idToName cm),
                   cm_idToAddress = map_set UUID_null (Address_null\<lparr>ad_session := sessionId\<rparr>) (cm_idToAddress cm)\<rparr>)"

definition ComputationMap_getComputationAddress ::
  "'u uuid_api_scheme \<Rightarrow> computation_map \<Rightarrow> uuid \<Rightarrow> exn + address" where
  "ComputationMap_getComputationAddress U cm u =
     (case map_of (cm_idToAddress cm) u of
        None \<Rightarrow> Inl (KeyError (''Computation id '' @ UUID_toString U u @ '' not found''))
      | Some a \<Rightarrow> Inr a)"

definition ComputationMap_getComputationId :: "computation_map \<Rightarrow> string \<Rightarrow> exn + uuid" where
  "ComputationMap_getComputationId cm name =
     (case map_of (cm_nameToId cm) name of
        None \<Rightarrow> Inl (KeyError (''Computation '' @ name @ '' not found''))
      | Some u \<Rightarrow> Inr u)"

definition ComputationMap_getComputationName :: "'u uuid_api_scheme \<Rightarrow> computation_map \<Rightarrow> uuid \<Rightarrow> exn + string" where
  "ComputationMap_getComputationName U cm u =
     (case map_of (cm_idToName cm) u of
        None \<Rightarrow> Inl (KeyError (''Computation id '' @ UUID_toString U u @ '' not found''))
      | Some n \<Rightarrow> Inr n)"

definition ComputationMap_getAddressByName :: "'u uuid_api_scheme \<Rightarrow> computation_map \<Rightarrow> string \<Rightarrow> exn + address" where
  "ComputationMap_getAddressByName U cm name =
     sbind (ComputationMap_getComputationId cm name) (ComputationMap_getComputationAddress U cm)"

definition ComputationMap_getAllAddresses :: "computation_map \<Rightarrow> address list \<Rightarrow> bool \<Rightarrow> address list" where
  "ComputationMap_getAllAddresses cm out includeClient =
     out @ map snd (filter (\<lambda>e. includeClient \<or> UUID_valid (fst e)) (cm_idToAddress cm))"

subsection \<open>Addressing\<close>

record addressing =
  ag_sourceAddress :: address
  ag_messageAddressMap :: "(string, address list) stdmap"
  ag_defaultAddresses :: "address list"
  ag_allAddresses :: "address list"

definition Addressing_empty :: addressing where
  "Addressing_empty = \<lparr>ag_sourceAddress = Address_null, ag_messageAddressMap = [], ag_defaultAddresses = [],
     ag_allAddresses = []\<rparr>"

text \<open>The strings among the elements of an array; no elements when it is not an array.\<close>

fun js_strings :: "('j, 'z) json_api_scheme \<Rightarrow> (string \<times> 'j) list \<Rightarrow> exn + string list" where
  "js_strings J [] = Inr []"
| "js_strings J ((_, v) # es) =
     (if js_isString J v
      then sbind (js_asString J v) (\<lambda>s. sbind (js_strings J es) (\<lambda>ss. Inr (s # ss)))
      else js_strings J es)"

definition filter_strings :: "('j, 'z) json_api_scheme \<Rightarrow> 'j \<Rightarrow> string \<Rightarrow> exn + string list" where
  "filter_strings J v k =
     sbind (js_get J v k) (\<lambda>a. if js_isArray J a then js_strings J (js_members J a) else Inr [])"

definition Addressing_accept :: "address \<Rightarrow> string \<Rightarrow> addressing \<Rightarrow> addressing" where
  "Addressing_accept destAddr msg ag =
     (let m = map_insert msg (ag_defaultAddresses ag) (ag_messageAddressMap ag)
      in ag\<lparr>ag_messageAddressMap := map_set msg (the (map_of m msg) @ [destAddr]) m\<rparr>)"

text \<open>The loop over the entries of the map: the new entries, and what is left of the ignore set.\<close>

fun ag_ignore_loop ::
  "address \<Rightarrow> (string, address list) stdmap \<Rightarrow> string list \<Rightarrow> (string, address list) stdmap \<times> string list" where
  "ag_ignore_loop destAddr [] ignoreSet = ([], ignoreSet)"
| "ag_ignore_loop destAddr ((k, l) # m) ignoreSet =
     (if k \<in> set ignoreSet
      then (case ag_ignore_loop destAddr m (removeAll k ignoreSet) of (m', s) \<Rightarrow> ((k, l) # m', s))
      else (case ag_ignore_loop destAddr m ignoreSet of (m', s) \<Rightarrow> ((k, l @ [destAddr]) # m', s)))"

definition Addressing_ignore :: "address \<Rightarrow> string list \<Rightarrow> addressing \<Rightarrow> addressing" where
  "Addressing_ignore destAddr ignores ag =
     (case ag_ignore_loop destAddr (ag_messageAddressMap ag) (remdups ignores) of
        (m, rest) \<Rightarrow> ag\<lparr>ag_messageAddressMap := fold (\<lambda>k. map_insert k (ag_defaultAddresses ag)) rest m,
                        ag_defaultAddresses := ag_defaultAddresses ag @ [destAddr]\<rparr>)"

text \<open>One filter: the destination and its lists.\<close>

definition Addressing_filter ::
  "'u uuid_api_scheme \<Rightarrow> ('j, 'z) json_api_scheme \<Rightarrow> computation_map \<Rightarrow> string \<times> 'j \<Rightarrow> addressing \<Rightarrow> exn + addressing" where
  "Addressing_filter U J cm e ag =
     sbind (ComputationMap_getAddressByName U cm (fst e)) (\<lambda>destAddr.
     sbind (filter_strings J (snd e) ''accept'') (\<lambda>accepts.
     if accepts \<noteq> [] then Inr (fold (Addressing_accept destAddr) accepts ag)
     else sbind (filter_strings J (snd e) ''ignore'') (\<lambda>ignores. Inr (Addressing_ignore destAddr ignores ag))))"

fun Addressing_filters ::
  "'u uuid_api_scheme \<Rightarrow> ('j, 'z) json_api_scheme \<Rightarrow> computation_map \<Rightarrow> (string \<times> 'j) list \<Rightarrow> addressing \<Rightarrow> exn + addressing" where
  "Addressing_filters U J cm [] ag = Inr ag"
| "Addressing_filters U J cm (e # es) ag =
     sbind (Addressing_filter U J cm e ag) (Addressing_filters U J cm es)"

definition Addressing_new ::
  "'u uuid_api_scheme \<Rightarrow> ('j, 'z) json_api_scheme \<Rightarrow> uuid \<Rightarrow> computation_map \<Rightarrow> 'j \<Rightarrow> exn + addressing" where
  "Addressing_new U J sourceCompId cm messageFilters =
     (let ag = Addressing_empty\<lparr>ag_allAddresses := ComputationMap_getAllAddresses cm [] False\<rparr>
      in case ComputationMap_getComputationAddress U cm sourceCompId of
           Inl (KeyError t) \<Rightarrow> Inr ag
         | Inl e \<Rightarrow> Inl e
         | Inr src \<Rightarrow>
             sbind (ComputationMap_getComputationName U cm sourceCompId) (\<lambda>sourceName.
             sbind (js_get J messageFilters sourceName) (\<lambda>filters.
             Addressing_filters U J cm (js_members J filters) (ag\<lparr>ag_sourceAddress := src\<rparr>))))"

definition Addressing_addresses :: "addressing \<Rightarrow> string \<Rightarrow> address list" where
  "Addressing_addresses ag routingName =
     (case map_of (ag_messageAddressMap ag) routingName of None \<Rightarrow> ag_defaultAddresses ag | Some l \<Rightarrow> l)"

subsection \<open>Addresser\<close>

record addresser =
  ar_addressing :: addressing

definition Addresser_new :: addresser where
  "Addresser_new = \<lparr>ar_addressing = Addressing_empty\<rparr>"

definition Addresser_update ::
  "'u uuid_api_scheme \<Rightarrow> ('j, 'z) json_api_scheme \<Rightarrow> uuid \<Rightarrow> computation_map \<Rightarrow> 'j \<Rightarrow> (addresser, unit) proc" where
  "Addresser_update U J sourceCompId cm messageFilters ar =
     (case Addressing_new U J sourceCompId cm messageFilters of
        Inl e \<Rightarrow> (Inl e, ar)
      | Inr ag \<Rightarrow> (Inr (), ar\<lparr>ar_addressing := ag\<rparr>))"

definition Addresser_setFrom :: "addresser \<Rightarrow> ('o envelope, metadata) proc" where
  "Addresser_setFrom ar env =
     (case en_metadata env of
        None \<Rightarrow> (Inl (Undefined ''null metadata''), env)
      | Some md \<Rightarrow> (let md' = md\<lparr>md_from := ag_sourceAddress (ar_addressing ar)\<rparr>
                    in (Inr md', env\<lparr>en_metadata := Some md'\<rparr>)))"

definition Addresser_address :: "addresser \<Rightarrow> ('o envelope, unit) proc" where
  "Addresser_address ar =
     bindp (Addresser_setFrom ar) (\<lambda>md. upd (\<lambda>env.
       env\<lparr>en_to := Addressing_addresses (ar_addressing ar) (md_routingName md)\<rparr>))"

definition Addresser_addressToAll :: "addresser \<Rightarrow> ('o envelope, unit) proc" where
  "Addresser_addressToAll ar =
     bindp (Addresser_setFrom ar) (\<lambda>md. upd (\<lambda>env. env\<lparr>en_to := ag_allAddresses (ar_addressing ar)\<rparr>))"

fun push_addresses ::
  "'u uuid_api_scheme \<Rightarrow> ('j, 'z) json_api_scheme \<Rightarrow> (string \<times> 'j) list \<Rightarrow> address \<Rightarrow> ('o envelope, unit) proc" where
  "push_addresses U J [] addr env = (Inr (), env)"
| "push_addresses U J ((_, v) # es) addr env =
     (case Address_fromObject U J v addr of
        (Inl e, _) \<Rightarrow> (Inl e, env)
      | (Inr _, addr') \<Rightarrow> push_addresses U J es addr' (env\<lparr>en_to := en_to env @ [addr']\<rparr>))"

text \<open>Addresses that were read before one that is invalid stay in the envelope.\<close>

definition Addresser_addressTo ::
  "'u uuid_api_scheme \<Rightarrow> ('j, 'z) json_api_scheme \<Rightarrow> addresser \<Rightarrow> 'j \<Rightarrow> ('o envelope, bool) proc" where
  "Addresser_addressTo U J ar addresses =
     bindp (Addresser_setFrom ar) (\<lambda>_ env.
       case push_addresses U J (if js_isArray J addresses then js_members J addresses else [([], addresses)])
              Address_null env of
         (Inl e, env') \<Rightarrow> if is_std_exception e then (Inr False, env') else (Inl e, env')
       | (Inr _, env') \<Rightarrow> (Inr True, env'))"

subsection \<open>Every destination is judged by its own filter\<close>

text \<open>
  The reference: how many copies of a message the destination of one filter receives (an entry repeated
  in an accept list counts twice), and the destinations of a message, filter by filter.
\<close>

definition filter_copies :: "('j, 'z) json_api_scheme \<Rightarrow> 'j \<Rightarrow> string \<Rightarrow> exn + nat" where
  "filter_copies J v name =
     sbind (filter_strings J v ''accept'') (\<lambda>accepts.
     if accepts \<noteq> [] then Inr (count_list accepts name)
     else sbind (filter_strings J v ''ignore'') (\<lambda>ignores. Inr (if name \<in> set ignores then 0 else 1)))"

fun route ::
  "'u uuid_api_scheme \<Rightarrow> ('j, 'z) json_api_scheme \<Rightarrow> computation_map \<Rightarrow> string \<Rightarrow> (string \<times> 'j) list \<Rightarrow> exn + address list" where
  "route U J cm name [] = Inr []"
| "route U J cm name (e # es) =
     sbind (ComputationMap_getAddressByName U cm (fst e)) (\<lambda>destAddr.
     sbind (filter_copies J (snd e) name) (\<lambda>n.
     sbind (route U J cm name es) (\<lambda>as. Inr (replicate n destAddr @ as))))"

lemma Addressing_accept_fields [simp]:
  "ag_sourceAddress (Addressing_accept a m ag) = ag_sourceAddress ag"
  "ag_allAddresses (Addressing_accept a m ag) = ag_allAddresses ag"
  "ag_defaultAddresses (Addressing_accept a m ag) = ag_defaultAddresses ag"
  by (simp_all add: Addressing_accept_def Let_def)

lemma Addressing_addresses_accept:
  "Addressing_addresses (Addressing_accept a msg ag) name =
     Addressing_addresses ag name @ (if name = msg then [a] else [])"
  by (auto simp: Addressing_addresses_def Addressing_accept_def Let_def split: option.splits)

lemma Addressing_addresses_accepts:
  "Addressing_addresses (fold (Addressing_accept a) msgs ag) name =
     Addressing_addresses ag name @ replicate (count_list msgs name) a"
  by (induction msgs arbitrary: ag) (auto simp: Addressing_addresses_accept)

lemma fold_accept_fields [simp]:
  "ag_sourceAddress (fold (Addressing_accept a) ms ag) = ag_sourceAddress ag"
  "ag_allAddresses (fold (Addressing_accept a) ms ag) = ag_allAddresses ag"
  by (induction ms arbitrary: ag) simp_all

lemma ag_ignore_loop_map:
  "map_of (fst (ag_ignore_loop a m ign)) name =
     map_option (\<lambda>l. if name \<in> set ign then l else l @ [a]) (map_of m name)"
  by (induction m arbitrary: ign) (auto simp: split_beta)

lemma ag_ignore_loop_rest:
  "set (snd (ag_ignore_loop a m ign)) = set ign - dom (map_of m)"
proof (induction m arbitrary: ign)
  case (Cons e m)
  then show ?case by (cases e) (auto simp: split_beta split: if_splits)
qed simp

lemma fold_map_insert_map:
  "map_of (fold (\<lambda>k. map_insert k d) ks m) name =
     (case map_of m name of Some l \<Rightarrow> Some l | None \<Rightarrow> if name \<in> set ks then Some d else None)"
  by (induction ks arbitrary: m) (auto split: option.splits)

lemma Addressing_addresses_ignore:
  "Addressing_addresses (Addressing_ignore a ign ag) name =
     Addressing_addresses ag name @ (if name \<in> set ign then [] else [a])"
proof -
  obtain m rest where loop: "ag_ignore_loop a (ag_messageAddressMap ag) (remdups ign) = (m, rest)"
    by (cases "ag_ignore_loop a (ag_messageAddressMap ag) (remdups ign)")
  have "map_of m name = map_option (\<lambda>l. if name \<in> set ign then l else l @ [a]) (map_of (ag_messageAddressMap ag) name)"
      "set rest = set ign - dom (map_of (ag_messageAddressMap ag))"
    using ag_ignore_loop_map [of a "ag_messageAddressMap ag" "remdups ign" name]
      ag_ignore_loop_rest [of a "ag_messageAddressMap ag" "remdups ign"] loop by simp_all
  then show ?thesis
    by (auto simp: Addressing_ignore_def Addressing_addresses_def loop fold_map_insert_map split: option.splits)
qed

lemma Addressing_ignore_fields [simp]:
  "ag_sourceAddress (Addressing_ignore a ign ag) = ag_sourceAddress ag"
  "ag_allAddresses (Addressing_ignore a ign ag) = ag_allAddresses ag"
  by (simp_all add: Addressing_ignore_def split: prod.splits)

lemma sbind_assoc: "sbind (sbind r f) g = sbind r (\<lambda>a. sbind (f a) g)"
  by (cases r) simp_all

lemma sbind_cong_arg: "(\<And>a. r = Inr a \<Longrightarrow> f a = g a) \<Longrightarrow> sbind r f = sbind r g"
  by (cases r) simp_all

lemma Addressing_filter_route:
  "sbind (Addressing_filter U J cm e ag) (\<lambda>ag'. Inr (Addressing_addresses ag' name)) =
     sbind (ComputationMap_getAddressByName U cm (fst e)) (\<lambda>a. sbind (filter_copies J (snd e) name)
       (\<lambda>n. Inr (Addressing_addresses ag name @ replicate n a)))"
  by (auto simp: Addressing_filter_def filter_copies_def sbind_assoc Addressing_addresses_accepts
      Addressing_addresses_ignore intro!: sbind_cong_arg)

lemma Addressing_filters_route:
  "sbind (Addressing_filters U J cm es ag) (\<lambda>ag'. Inr (Addressing_addresses ag' name)) =
     sbind (route U J cm name es) (\<lambda>as. Inr (Addressing_addresses ag name @ as))"
proof (induction es arbitrary: ag)
  case (Cons e es)
  have "sbind (Addressing_filters U J cm (e # es) ag) (\<lambda>ag'. Inr (Addressing_addresses ag' name)) =
      sbind (sbind (Addressing_filter U J cm e ag) (\<lambda>ag'. Inr (Addressing_addresses ag' name)))
        (\<lambda>l. sbind (route U J cm name es) (\<lambda>as. Inr (l @ as)))"
    by (simp add: sbind_assoc Cons.IH)
  then show ?case
    by (simp add: Addressing_filter_route sbind_assoc)
qed simp

lemma Addressing_filters_fields:
  "Addressing_filters U J cm es ag = Inr ag' \<Longrightarrow>
     ag_sourceAddress ag' = ag_sourceAddress ag \<and> ag_allAddresses ag' = ag_allAddresses ag"
proof (induction es arbitrary: ag)
  case (Cons e es)
  then obtain ag1 where ag1: "Addressing_filter U J cm e ag = Inr ag1" "Addressing_filters U J cm es ag1 = Inr ag'"
    by (cases "Addressing_filter U J cm e ag") simp_all
  have "ag_sourceAddress ag1 = ag_sourceAddress ag \<and> ag_allAddresses ag1 = ag_allAddresses ag"
    using ag1(1) by (auto simp: Addressing_filter_def sbind_def split: sum.splits if_splits)
  with Cons.IH [OF ag1(2)] show ?case by simp
qed simp

subsection \<open>ComputationMap\<close>

text \<open>The computations of the routing data: names, with the ids and nodes they hold.\<close>

definition computations ::
  "'u uuid_api_scheme \<Rightarrow> ('j, 'z) json_api_scheme \<Rightarrow> 'j \<Rightarrow> (string \<times> uuid \<times> uuid) list \<Rightarrow> bool" where
  "computations U J data cs \<longleftrightarrow>
     list_all2 (\<lambda>(name, v) (name', compId, nodeId). name = name' \<and>
       (\<exists>c n. js_string J v ''compId'' = Inr c \<and> UUID_parse U c = compId \<and>
              js_string J v ''nodeId'' = Inr n \<and> UUID_parse U n = nodeId)) (js_members J data) cs"

definition cm_of :: "uuid \<Rightarrow> (string \<times> uuid \<times> uuid) list \<Rightarrow> computation_map \<Rightarrow> computation_map" where
  "cm_of sessionId cs cm = fold (\<lambda>(name, compId, nodeId) cm.
     \<lparr>cm_nameToId = map_set name compId (cm_nameToId cm), cm_idToName = map_set compId name (cm_idToName cm),
      cm_idToAddress = map_set compId \<lparr>ad_session = sessionId, ad_node = nodeId, ad_computation = compId\<rparr>
        (cm_idToAddress cm)\<rparr>) cs cm"

lemma cm_add_of:
  assumes "list_all2 (\<lambda>(name, v) (name', compId, nodeId). name = name' \<and>
       (\<exists>c n. js_string J v ''compId'' = Inr c \<and> UUID_parse U c = compId \<and>
              js_string J v ''nodeId'' = Inr n \<and> UUID_parse U n = nodeId)) es cs"
  shows "cm_add U J sessionId es cm = Inr (cm_of sessionId cs cm)"
  using assms by (induction es cs arbitrary: cm rule: list_all2_induct) (auto simp: cm_of_def Let_def)

lemma cm_of_maps:
  assumes "distinct (map fst cs)" and "distinct (map (fst \<circ> snd) cs)"
  shows "map_of (cm_nameToId (cm_of sessionId cs cm)) = map_of (cm_nameToId cm) ++ map_of (map (\<lambda>(n, c, d). (n, c)) cs) \<and>
    map_of (cm_idToName (cm_of sessionId cs cm)) = map_of (cm_idToName cm) ++ map_of (map (\<lambda>(n, c, d). (c, n)) cs) \<and>
    map_of (cm_idToAddress (cm_of sessionId cs cm)) = map_of (cm_idToAddress cm) ++
      map_of (map (\<lambda>(n, c, d). (c, \<lparr>ad_session = sessionId, ad_node = d, ad_computation = c\<rparr>)) cs)"
  using assms
proof (induction cs arbitrary: cm)
  case (Cons e cs)
  obtain n c d where e: "e = (n, c, d)" by (cases e)
  have out: "map_of (map (\<lambda>(n, c, d). (n, c)) cs) n = None" "map_of (map (\<lambda>(n, c, d). (c, n)) cs) c = None"
      "map_of (map (\<lambda>(n, c, d). (c, \<lparr>ad_session = sessionId, ad_node = d, ad_computation = c\<rparr>)) cs) c = None"
    using Cons.prems e by (force simp: map_of_eq_None_iff image_iff)+
  have step: "cm_of sessionId (e # cs) cm = cm_of sessionId cs
      \<lparr>cm_nameToId = map_set n c (cm_nameToId cm), cm_idToName = map_set c n (cm_idToName cm),
       cm_idToAddress = map_set c \<lparr>ad_session = sessionId, ad_node = d, ad_computation = c\<rparr> (cm_idToAddress cm)\<rparr>"
    using e by (simp add: cm_of_def)
  have d: "distinct (map fst cs)" "distinct (map (fst \<circ> snd) cs)" using Cons.prems by (simp_all add: comp_def)
  show ?case
    unfolding step using Cons.IH [OF d] out e by (auto simp: fun_eq_iff map_add_def split: option.splits)
qed (simp add: cm_of_def)

lemma cm_of_wf:
  "map_wf (cm_idToAddress cm) \<Longrightarrow> map_wf (cm_idToAddress (cm_of sessionId cs cm))"
  by (induction cs arbitrary: cm) (auto simp: cm_of_def map_wf_map_set)

text \<open>Routing data as the coordinator sends it: names and ids are unique, and none is the client's.\<close>

definition computations_ok :: "(string \<times> uuid \<times> uuid) list \<Rightarrow> bool" where
  "computations_ok cs \<longleftrightarrow> distinct (map fst cs) \<and> distinct (map (fst \<circ> snd) cs) \<and>
     cm_client \<notin> fst ` set cs \<and> UUID_null \<notin> fst ` snd ` set cs"

lemma ComputationMap_new_maps:
  assumes "computations U J data cs" and "computations_ok cs"
  shows "\<exists>cm. ComputationMap_new U J sessionId data = Inr cm \<and> map_wf (cm_idToAddress cm) \<and>
    map_of (cm_nameToId cm) = (map_of (map (\<lambda>(n, c, d). (n, c)) cs))(cm_client \<mapsto> UUID_null) \<and>
    map_of (cm_idToName cm) = (map_of (map (\<lambda>(n, c, d). (c, n)) cs))(UUID_null \<mapsto> cm_client) \<and>
    map_of (cm_idToAddress cm) =
      (map_of (map (\<lambda>(n, c, d). (c, \<lparr>ad_session = sessionId, ad_node = d, ad_computation = c\<rparr>)) cs))
        (UUID_null \<mapsto> Address_null\<lparr>ad_session := sessionId\<rparr>)"
proof -
  let ?cm0 = "\<lparr>cm_nameToId = [], cm_idToName = [], cm_idToAddress = []\<rparr>"
  have "cm_add U J sessionId (js_members J data) ?cm0 = Inr (cm_of sessionId cs ?cm0)"
    using assms(1) unfolding computations_def by (rule cm_add_of)
  moreover have "map_wf (cm_idToAddress (cm_of sessionId cs ?cm0))" by (rule cm_of_wf) simp
  ultimately show ?thesis
    using cm_of_maps [of cs sessionId ?cm0] assms(2)
    by (simp add: ComputationMap_new_def map_wf_map_set computations_ok_def)
qed

lemma ComputationMap_lookup:
  assumes "computations U J data cs" and "computations_ok cs" and "ComputationMap_new U J sessionId data = Inr cm"
  shows "(name, compId, nodeId) \<in> set cs \<Longrightarrow> ComputationMap_getComputationId cm name = Inr compId \<and>
      ComputationMap_getComputationName U cm compId = Inr name \<and>
      ComputationMap_getComputationAddress U cm compId =
        Inr \<lparr>ad_session = sessionId, ad_node = nodeId, ad_computation = compId\<rparr> \<and>
      ComputationMap_getAddressByName U cm name =
        Inr \<lparr>ad_session = sessionId, ad_node = nodeId, ad_computation = compId\<rparr>"
    and "name \<notin> insert cm_client (fst ` set cs) \<Longrightarrow>
      ComputationMap_getComputationId cm name = Inl (KeyError (''Computation '' @ name @ '' not found''))"
    and "u \<notin> insert UUID_null (fst ` snd ` set cs) \<Longrightarrow>
      \<exists>t. ComputationMap_getComputationName U cm u = Inl (KeyError t) \<and> ComputationMap_getComputationAddress U cm u = Inl (KeyError t)"
    and "ComputationMap_getAddressByName U cm cm_client = Inr (Address_null\<lparr>ad_session := sessionId\<rparr>)"
    and "set (ComputationMap_getAllAddresses cm [] False) =
      (\<lambda>(n, c, d). \<lparr>ad_session = sessionId, ad_node = d, ad_computation = c\<rparr>) ` set cs"
    and "sorted_wrt (<) (map ad_computation (ComputationMap_getAllAddresses cm [] False))"
proof -
  let ?a = "\<lambda>(n, c, d). (c, \<lparr>ad_session = sessionId, ad_node = d, ad_computation = c\<rparr>)"
  have maps: "map_wf (cm_idToAddress cm)" 
      "map_of (cm_nameToId cm) = (map_of (map (\<lambda>(n, c, d). (n, c)) cs))(cm_client \<mapsto> UUID_null)"
      "map_of (cm_idToName cm) = (map_of (map (\<lambda>(n, c, d). (c, n)) cs))(UUID_null \<mapsto> cm_client)"
      "map_of (cm_idToAddress cm) = (map_of (map ?a cs))(UUID_null \<mapsto> Address_null\<lparr>ad_session := sessionId\<rparr>)"
    using ComputationMap_new_maps [OF assms(1,2), of sessionId] assms(3) by auto
  have d: "distinct (map fst (map (\<lambda>(n, c, d). (n, c)) cs))" "distinct (map fst (map (\<lambda>(n, c, d). (c, n)) cs))"
      "distinct (map fst (map ?a cs))"
    using assms(2) by (simp_all add: computations_ok_def comp_def split_beta)
  show "(name, compId, nodeId) \<in> set cs \<Longrightarrow> ComputationMap_getComputationId cm name = Inr compId \<and>
      ComputationMap_getComputationName U cm compId = Inr name \<and>
      ComputationMap_getComputationAddress U cm compId =
        Inr \<lparr>ad_session = sessionId, ad_node = nodeId, ad_computation = compId\<rparr> \<and>
      ComputationMap_getAddressByName U cm name =
        Inr \<lparr>ad_session = sessionId, ad_node = nodeId, ad_computation = compId\<rparr>"
  proof -
    assume mem: "(name, compId, nodeId) \<in> set cs"
    then have "name \<noteq> cm_client" "compId \<noteq> UUID_null"
      using assms(2) by (force simp: computations_ok_def image_iff)+
    moreover have "map_of (map (\<lambda>(n, c, d). (n, c)) cs) name = Some compId"
        "map_of (map (\<lambda>(n, c, d). (c, n)) cs) compId = Some name"
        "map_of (map ?a cs) compId = Some \<lparr>ad_session = sessionId, ad_node = nodeId, ad_computation = compId\<rparr>"
      by (rule map_of_is_SomeI [OF d(1)] map_of_is_SomeI [OF d(2)] map_of_is_SomeI [OF d(3)], use mem in force)+
    ultimately show ?thesis
      by (simp add: ComputationMap_getComputationId_def ComputationMap_getComputationName_def
          ComputationMap_getComputationAddress_def ComputationMap_getAddressByName_def maps)
  qed
  show "name \<notin> insert cm_client (fst ` set cs) \<Longrightarrow>
      ComputationMap_getComputationId cm name = Inl (KeyError (''Computation '' @ name @ '' not found''))"
  proof -
    assume n: "name \<notin> insert cm_client (fst ` set cs)"
    then have "map_of (map (\<lambda>(n, c, d). (n, c)) cs) name = None"
      unfolding map_of_eq_None_iff by (auto simp: image_iff)
    with n show ?thesis by (simp add: ComputationMap_getComputationId_def maps)
  qed
  show "u \<notin> insert UUID_null (fst ` snd ` set cs) \<Longrightarrow>
      \<exists>t. ComputationMap_getComputationName U cm u = Inl (KeyError t) \<and> ComputationMap_getComputationAddress U cm u = Inl (KeyError t)"
  proof -
    assume n: "u \<notin> insert UUID_null (fst ` snd ` set cs)"
    then have "map_of (map (\<lambda>(n, c, d). (c, n)) cs) u = None" "map_of (map ?a cs) u = None"
      unfolding map_of_eq_None_iff by (auto simp: image_iff)
    with n show ?thesis
      by (simp add: ComputationMap_getComputationName_def ComputationMap_getComputationAddress_def maps)
  qed
  show "ComputationMap_getAddressByName U cm cm_client = Inr (Address_null\<lparr>ad_session := sessionId\<rparr>)"
    by (simp add: ComputationMap_getAddressByName_def ComputationMap_getComputationId_def
        ComputationMap_getComputationAddress_def maps)
  have mem: "(u, a) \<in> set (cm_idToAddress cm) \<longleftrightarrow> map_of (cm_idToAddress cm) u = Some a" for u a
    by (rule map_wf_mem_iff [OF maps(1)])
  have null: "u \<noteq> UUID_null" if "(u, a) \<in> set (map ?a cs)" for u a
    using that assms(2) by (force simp: computations_ok_def image_iff)
  have valid: "(u, a) \<in> set (cm_idToAddress cm) \<and> UUID_valid u \<longleftrightarrow> (u, a) \<in> set (map ?a cs)" for u a
  proof (cases "u = UUID_null")
    case True
    then have "(u, a) \<notin> set (map ?a cs)" using null by blast
    moreover have "\<not> UUID_valid u" using True by (simp add: UUID_valid_def)
    ultimately show ?thesis by blast
  next
    case False
    then show ?thesis using map_of_eq_Some_iff [OF d(3), of u a] by (simp add: mem maps UUID_valid_def)
  qed
  have eq: "set (filter (\<lambda>e. UUID_valid (fst e)) (cm_idToAddress cm)) = set (map ?a cs)"
  proof (rule set_eqI)
    fix e
    show "e \<in> set (filter (\<lambda>e. UUID_valid (fst e)) (cm_idToAddress cm)) \<longleftrightarrow> e \<in> set (map ?a cs)"
      using valid [of "fst e" "snd e"] by (simp del: set_map)
  qed
  have "set (ComputationMap_getAllAddresses cm [] False) = snd ` set (map ?a cs)"
    unfolding eq [symmetric] by (simp add: ComputationMap_getAllAddresses_def)
  then show "set (ComputationMap_getAllAddresses cm [] False) =
      (\<lambda>(n, c, d). \<lparr>ad_session = sessionId, ad_node = d, ad_computation = c\<rparr>) ` set cs"
    by (simp add: image_image split_beta)
  have comp: "ad_computation a = u" if "(u, a) \<in> set (map ?a cs)" for u a using that by auto
  have "map ad_computation (ComputationMap_getAllAddresses cm [] False) = map fst (filter (\<lambda>e. UUID_valid (fst e)) (cm_idToAddress cm))"
    using comp eq by (auto simp del: set_map simp: ComputationMap_getAllAddresses_def)
  moreover have "sorted_wrt (<) (map fst (filter (\<lambda>e. UUID_valid (fst e)) (cm_idToAddress cm)))"
    using maps(1) by (simp add: sorted_wrt_map sorted_wrt_filter)
  ultimately show "sorted_wrt (<) (map ad_computation (ComputationMap_getAllAddresses cm [] False))" by simp
qed

subsection \<open>Properties\<close>

text \<open>
  C5 (equivalence). The optimised addressing tables compute the reference: after \<open>update\<close> with the session's
  filters, \<open>address\<close> sends a message to exactly those destinations whose own filter takes its routing
  name - listed in the accept list, or, without accept list, not listed in the ignore list - in the
  order of the filters, and stamps it with the address of the source.
\<close>

theorem addresser_routes_by_filter:
  assumes "ComputationMap_getComputationAddress U cm src = Inr a" and "ComputationMap_getComputationName U cm src = Inr n"
    and "js_get J filters n = Inr fs" and "en_metadata env = Some md"
    and "route U J cm (md_routingName md) (js_members J fs) = Inr as"
  shows "\<exists>ar'. Addresser_update U J src cm filters ar = (Inr (), ar') \<and>
    Addresser_address ar' env = (Inr (), env\<lparr>en_metadata := Some (md\<lparr>md_from := a\<rparr>), en_to := as\<rparr>)"
proof -
  let ?ag = "Addressing_empty\<lparr>ag_allAddresses := ComputationMap_getAllAddresses cm [] False, ag_sourceAddress := a\<rparr>"
  have "Addressing_addresses ?ag (md_routingName md) = []" by (simp add: Addressing_addresses_def Addressing_empty_def)
  then obtain ag where ag: "Addressing_filters U J cm (js_members J fs) ?ag = Inr ag"
      "Addressing_addresses ag (md_routingName md) = as"
    using Addressing_filters_route [of U J cm "js_members J fs" ?ag "md_routingName md"] assms(5)
    by (cases "Addressing_filters U J cm (js_members J fs) ?ag") simp_all
  have "Addressing_new U J src cm filters = Inr ag"
    using assms(1-3) ag(1) by (simp add: Addressing_new_def)
  with Addressing_filters_fields [OF ag(1)] ag(2) assms(4) show ?thesis
    by (simp add: Addresser_update_def Addresser_address_def Addresser_setFrom_def bindp_def Let_def)
qed

text \<open>
  Two computations \<open>a\<close> and \<open>b\<close> next to the client; what \<open>a\<close> sends, \<open>b\<close> receives unless it is a \<open>Log\<close>, and
  the client receives \<open>Frame\<close> only.
\<close>

definition sample_computations :: json where
  "sample_computations = JObject
     [(''a'', JObject [(''compId'', JString (UUID_stream 1)), (''nodeId'', JString (UUID_stream 10))]),
      (''b'', JObject [(''compId'', JString (UUID_stream 2)), (''nodeId'', JString (UUID_stream 10))])]"

definition sample_filters :: json where
  "sample_filters = JObject [(''a'', JObject
     [(cm_client, JObject [(''accept'', JArray [JString ''Frame''])]),
      (''b'', JObject [(''ignore'', JArray [JString ''Log''])])])]"

definition sample_map :: computation_map where
  "sample_map = (case ComputationMap_new hex_uuid_api json_impl 99 sample_computations of Inr cm \<Rightarrow> cm
     | Inl _ \<Rightarrow> \<lparr>cm_nameToId = [], cm_idToName = [], cm_idToAddress = []\<rparr>)"

lemma sample_computations:
  "computations hex_uuid_api json_impl sample_computations [(''a'', 1, 10), (''b'', 2, 10)]"
  using uuid_api_ok_hex
  by (simp add: computations_def sample_computations_def json_impl_def js_string_def uuid_api_ok_def UUID_parse_def
      hex_uuid_api_def)

lemma sample_computations_ok: "computations_ok [(''a'', 1, 10), (''b'', 2, 10)]"
  by (simp add: computations_ok_def cm_client_def UUID_null_def)

lemma sample_map_new: "ComputationMap_new hex_uuid_api json_impl 99 sample_computations = Inr sample_map"
  using ComputationMap_new_maps [OF sample_computations sample_computations_ok, of 99]
  by (auto simp: sample_map_def)

lemmas sample_lookup = ComputationMap_lookup [OF sample_computations sample_computations_ok sample_map_new]

lemma sample_route:
  "route hex_uuid_api json_impl sample_map name
     [(cm_client, JObject [(''accept'', JArray [JString ''Frame''])]), (''b'', JObject [(''ignore'', JArray [JString ''Log''])])] =
   Inr ((if name = ''Frame'' then [Address_null\<lparr>ad_session := 99\<rparr>] else []) @
        (if name = ''Log'' then [] else [\<lparr>ad_session = 99, ad_node = 10, ad_computation = 2\<rparr>]))"
  using sample_lookup(1) [of "''b''" 2 10]
  by (simp add: sample_lookup(4) filter_copies_def filter_strings_def json_impl_def js_isString_def)

theorem addresser_routes_by_filter_witness:
  "\<exists>ar'. Addresser_update hex_uuid_api json_impl 1 sample_map sample_filters Addresser_new = (Inr (), ar') \<and>
     Addresser_address ar' \<lparr>en_content = None,
         en_metadata = Some ((MetadataImpl_new 5 6 ArrasTime_zero)\<lparr>md_routingName := ''Frame''\<rparr>), en_to = []\<rparr> =
       (Inr (), \<lparr>en_content = None, en_metadata = Some ((MetadataImpl_new 5 6 ArrasTime_zero)\<lparr>md_routingName := ''Frame'',
           md_from := \<lparr>ad_session = 99, ad_node = 10, ad_computation = 1\<rparr>\<rparr>),
         en_to = [Address_null\<lparr>ad_session := 99\<rparr>, \<lparr>ad_session = 99, ad_node = 10, ad_computation = 2\<rparr>]\<rparr>)"
proof -
  let ?fs = "JObject [(cm_client, JObject [(''accept'', JArray [JString ''Frame''])]), (''b'', JObject [(''ignore'', JArray [JString ''Log''])])]"
  let ?md = "(MetadataImpl_new 5 6 ArrasTime_zero)\<lparr>md_routingName := ''Frame''\<rparr>"
  have "js_get json_impl sample_filters ''a'' = Inr ?fs"
      "route hex_uuid_api json_impl sample_map (md_routingName ?md) (js_members json_impl ?fs) =
        Inr [Address_null\<lparr>ad_session := 99\<rparr>, \<lparr>ad_session = 99, ad_node = 10, ad_computation = 2\<rparr>]"
    using sample_route [of "''Frame''"] by (simp_all add: sample_filters_def json_impl_def)
  from addresser_routes_by_filter [OF _ _ this(1) _ this(2), of 1 "\<lparr>ad_session = 99, ad_node = 10, ad_computation = 1\<rparr>"
      "\<lparr>en_content = None, en_metadata = Some ?md, en_to = []\<rparr>" Addresser_new] sample_lookup(1) [of "''a''" 1 10]
  show ?thesis by simp
qed

text \<open>
  A computation map built from routing data with unique names and ids, none of them the
  client's, answers every query: a listed name has its id, that id has the name back and the address
  made of session, node and id; the client has the null id; every other name and id is a \<open>KeyError\<close>;
  and the list of all addresses is exactly the listed computations, without the client, in the order
  of their ids.
\<close>

theorem computation_map_lookup:
  assumes "computations U J data cs" and "computations_ok cs"
  shows "\<exists>cm. ComputationMap_new U J sessionId data = Inr cm \<and>
    (\<forall>(name, compId, nodeId) \<in> set cs. ComputationMap_getComputationId cm name = Inr compId \<and>
      ComputationMap_getComputationName U cm compId = Inr name \<and>
      ComputationMap_getAddressByName U cm name =
        Inr \<lparr>ad_session = sessionId, ad_node = nodeId, ad_computation = compId\<rparr>) \<and>
    (\<forall>name. name \<notin> insert cm_client (fst ` set cs) \<longrightarrow> (\<exists>t. ComputationMap_getComputationId cm name = Inl (KeyError t))) \<and>
    (\<forall>u. u \<notin> insert UUID_null (fst ` snd ` set cs) \<longrightarrow> (\<exists>t. ComputationMap_getComputationAddress U cm u = Inl (KeyError t))) \<and>
    ComputationMap_getAddressByName U cm cm_client = Inr (Address_null\<lparr>ad_session := sessionId\<rparr>) \<and>
    set (ComputationMap_getAllAddresses cm [] False) =
      (\<lambda>(n, c, d). \<lparr>ad_session = sessionId, ad_node = d, ad_computation = c\<rparr>) ` set cs \<and>
    sorted_wrt (<) (map ad_computation (ComputationMap_getAllAddresses cm [] False))"
proof -
  obtain cm where cm: "ComputationMap_new U J sessionId data = Inr cm"
    using ComputationMap_new_maps [OF assms] by blast
  note l = ComputationMap_lookup [OF assms cm]
  show ?thesis
  proof (intro exI [of _ cm] conjI)
    show "\<forall>(name, compId, nodeId) \<in> set cs. ComputationMap_getComputationId cm name = Inr compId \<and>
        ComputationMap_getComputationName U cm compId = Inr name \<and>
        ComputationMap_getAddressByName U cm name = Inr \<lparr>ad_session = sessionId, ad_node = nodeId, ad_computation = compId\<rparr>"
      using l(1) by blast
    show "\<forall>name. name \<notin> insert cm_client (fst ` set cs) \<longrightarrow> (\<exists>t. ComputationMap_getComputationId cm name = Inl (KeyError t))"
      using l(2) by blast
    show "\<forall>u. u \<notin> insert UUID_null (fst ` snd ` set cs) \<longrightarrow> (\<exists>t. ComputationMap_getComputationAddress U cm u = Inl (KeyError t))"
      using l(3) by blast
  qed (fact cm l(4) l(5) l(6))+
qed

theorem computation_map_lookup_witness:
  "\<exists>cm. ComputationMap_new hex_uuid_api json_impl 99 sample_computations = Inr cm \<and>
     ComputationMap_getAddressByName hex_uuid_api cm ''b'' = Inr \<lparr>ad_session = 99, ad_node = 10, ad_computation = 2\<rparr> \<and>
     (\<exists>t. ComputationMap_getComputationId cm ''c'' = Inl (KeyError t))"
proof -
  obtain cm where cm: "ComputationMap_new hex_uuid_api json_impl 99 sample_computations = Inr cm"
      "\<forall>(name, compId, nodeId) \<in> set [(''a'', 1, 10), (''b'', 2, 10)].
        ComputationMap_getComputationId cm name = Inr compId \<and> ComputationMap_getComputationName hex_uuid_api cm compId = Inr name \<and>
        ComputationMap_getAddressByName hex_uuid_api cm name = Inr \<lparr>ad_session = 99, ad_node = nodeId, ad_computation = compId\<rparr>"
      "\<forall>name. name \<notin> insert cm_client (fst ` set [(''a'', 1 :: uuid, 10 :: uuid), (''b'', 2, 10)]) \<longrightarrow>
        (\<exists>t. ComputationMap_getComputationId cm name = Inl (KeyError t))"
    using computation_map_lookup [OF sample_computations sample_computations_ok, of 99] by (elim exE conjE) (rule that)
  have "''c'' \<notin> insert cm_client (fst ` set [(''a'', 1 :: uuid, 10 :: uuid), (''b'', 2, 10)])" by (simp add: cm_client_def)
  with cm(3) have "\<exists>t. ComputationMap_getComputationId cm ''c'' = Inl (KeyError t)" by blast
  with cm(1,2) show ?thesis by (intro exI [of _ cm]) simp
qed

lemma push_addresses_good:
  assumes "list_all2 (\<lambda>(_, v) a. \<forall>b. Address_fromObject U J v b = (Inr (), a)) good as"
  shows "\<exists>addr'. push_addresses U J (good @ bad) addr env =
    push_addresses U J bad addr' (env\<lparr>en_to := en_to env @ as\<rparr>)"
  using assms
proof (induction good as arbitrary: addr env rule: list_all2_induct)
  case Nil
  then show ?case by (auto intro!: exI [of _ addr])
next
  case (Cons e es a as)
  obtain k v where e: "e = (k, v)" by (cases e)
  then have "push_addresses U J ((e # es) @ bad) addr env = push_addresses U J (es @ bad) a (env\<lparr>en_to := en_to env @ [a]\<rparr>)"
    using Cons.hyps(1) by simp
  with Cons.IH [of a "env\<lparr>en_to := en_to env @ [a]\<rparr>"] show ?case by simp
qed

text \<open>
  \<open>addressTo\<close> with a list of explicit addresses: it answers true and appends all of them when
  all can be read; when one cannot, it answers false, but those before it have been appended.
\<close>

theorem addressTo_keeps_prefix:
  assumes "en_metadata env = Some md" and "js_isArray J addrs" and "js_members J addrs = good @ bad"
    and "list_all2 (\<lambda>(_, v) a. \<forall>b. Address_fromObject U J v b = (Inr (), a)) good as"
    and "bad = [] \<or> (\<exists>k v rest e. bad = (k, v) # rest \<and> is_std_exception e \<and>
      (\<forall>b. \<exists>b'. Address_fromObject U J v b = (Inl e, b')))"
  shows "Addresser_addressTo U J ar addrs env =
    (Inr (bad = []), env\<lparr>en_metadata := Some (md\<lparr>md_from := ag_sourceAddress (ar_addressing ar)\<rparr>), en_to := en_to env @ as\<rparr>)"
proof -
  let ?env = "env\<lparr>en_metadata := Some (md\<lparr>md_from := ag_sourceAddress (ar_addressing ar)\<rparr>)\<rparr>"
  obtain addr' where push: "push_addresses U J (good @ bad) Address_null ?env =
      push_addresses U J bad addr' (?env\<lparr>en_to := en_to ?env @ as\<rparr>)"
    using push_addresses_good [OF assms(4)] by blast
  have run: "Addresser_addressTo U J ar addrs env =
      (case push_addresses U J (good @ bad) Address_null ?env of
         (Inl e, env') \<Rightarrow> if is_std_exception e then (Inr False, env') else (Inl e, env') | (Inr _, env') \<Rightarrow> (Inr True, env'))"
    using assms(1-3) by (simp add: Addresser_addressTo_def Addresser_setFrom_def bindp_def Let_def)
  from assms(5) show ?thesis
  proof
    assume "bad = []"
    then show ?thesis using run push by simp
  next
    assume "\<exists>k v rest e. bad = (k, v) # rest \<and> is_std_exception e \<and> (\<forall>b. \<exists>b'. Address_fromObject U J v b = (Inl e, b'))"
    then obtain k v rest e b' where "bad = (k, v) # rest" "is_std_exception e" "Address_fromObject U J v addr' = (Inl e, b')"
      by blast
    then show ?thesis using run push by simp
  qed
qed

definition sample_address_object :: "address \<Rightarrow> json" where
  "sample_address_object a = JObject [(''session'', JString (UUID_stream (ad_session a))),
     (''node'', JString (UUID_stream (ad_node a))), (''computation'', JString (UUID_stream (ad_computation a)))]"

lemma sample_address_object: "Address_fromObject hex_uuid_api json_impl (sample_address_object a) b = (Inr (), a)"
  using uuid_api_ok_hex
  by (simp add: Address_fromObject_def sample_address_object_def json_impl_def js_string_def uuid_api_ok_def
      UUID_parse_def hex_uuid_api_def)

theorem addressTo_keeps_prefix_witness:
  "Addresser_addressTo hex_uuid_api json_impl Addresser_new (JArray [sample_address_object sample_address, JInt 3])
      \<lparr>en_content = None, en_metadata = Some (MetadataImpl_new 5 6 ArrasTime_zero), en_to = []\<rparr> =
    (Inr False, \<lparr>en_content = None, en_metadata = Some (MetadataImpl_new 5 6 ArrasTime_zero), en_to = [sample_address]\<rparr>)"
proof -
  have "\<forall>b. \<exists>b'. Address_fromObject hex_uuid_api json_impl (JInt 3) b = (Inl (StdException ''Json: not an object''), b')"
    by (simp add: Address_fromObject_def json_impl_def js_string_def)
  then have "\<exists>k v rest e. [([], JInt 3)] = (k, v) # rest \<and> is_std_exception e \<and>
      (\<forall>b. \<exists>b'. Address_fromObject hex_uuid_api json_impl v b = (Inl e, b'))"
    by (force simp: is_std_exception_def)
  from addressTo_keeps_prefix [of "\<lparr>en_content = None, en_metadata = Some (MetadataImpl_new 5 6 ArrasTime_zero), en_to = []\<rparr>"
      "MetadataImpl_new 5 6 ArrasTime_zero" json_impl "JArray [sample_address_object sample_address, JInt 3]"
      "[([], sample_address_object sample_address)]" "[([], JInt 3)]" hex_uuid_api "[sample_address]" Addresser_new, OF _ _ _ _ disjI2 [OF this]]
  show ?thesis
    by (simp add: sample_address_object) (simp add: json_impl_def MetadataImpl_new_def Addresser_new_def Addressing_empty_def)
qed

end
