(* ===== verification/Limits.thy ===== *)
theory Limits
  imports Json_Api
begin

text \<open>
  \<^verbatim>\<open>arras4_core_impl/lib/shared_impl/ExecutionLimits\<close>: memory, core and affinity limits of a
  computation, their configuration objects, and the lists of processors they are written with. This is
  the Linux version; a \<^verbatim>\<open>cpu_set_t\<close> is a set of numbers below 1024. Setting the affinity of threads and
  error logging are left out.
\<close>

subsection \<open>Lists of processors\<close>

definition CPU_SETSIZE :: nat where "CPU_SETSIZE = 1024"

text \<open>
  The loop on what is left of the list. \<^verbatim>\<open>std::stoi\<close> reads as many digits as there are and fails for
  values above the largest \<open>int\<close>; the index then advances by the length of the number as it is
  printed, which is less than what was read when there are leading zeros.
\<close>

function procList_loop :: "string \<Rightarrow> nat set \<Rightarrow> nat \<Rightarrow> (nat set \<times> nat) option" where
  "procList_loop s cpuSet count =
     (if s = [] \<or> \<not> is_digit (hd s) then None
      else let processor = parse_digits (takeWhile is_digit s)
           in if processor > 2147483647 \<or> processor \<ge> CPU_SETSIZE then None
              else let rest = drop (length (show_nat processor)) s
                   in if rest = [] then Some (insert processor cpuSet, count + 1)
                      else if hd rest \<noteq> CHR '','' then None
                      else if tl rest = [] then None
                      else procList_loop (tl rest) (insert processor cpuSet) (count + 1))"
  by auto
termination
proof (relation "measure (\<lambda>(s, _, _). length s)")
  fix s :: string and cpuSet :: "nat set" and count p rest
  assume "rest = drop (length (show_nat p)) s" "rest \<noteq> []"
  then have "length (tl rest) < length s" by (cases rest) (auto simp: less_eq_Suc_le dest: sym)
  then show "((tl rest, insert p cpuSet, count + 1), (s, cpuSet, count)) \<in> measure (\<lambda>(s, _, _). length s)" by simp
qed simp

declare procList_loop.simps [simp del]

definition procListToCpuSet :: "string \<Rightarrow> u32 \<Rightarrow> nat set option" where
  "procListToCpuSet procList requiredCount =
     (if procList = [] then None
      else case procList_loop procList {} 0 of
             None \<Rightarrow> None
           | Some (cpuSet, count) \<Rightarrow> if (word_of_nat count :: u32) = requiredCount then Some cpuSet else None)"

definition cpuSetToProcList :: "nat set \<Rightarrow> string" where
  "cpuSetToProcList cpuSet =
     fold (\<lambda>i ret. if i \<in> cpuSet then (if ret = [] then show_nat i else ret @ '','' @ show_nat i) else ret)
       [0..<CPU_SETSIZE] []"

subsection \<open>ExecutionLimits\<close>

record execution_limits =
  xl_unlimited :: bool
  xl_maxMemoryMB :: u32
  xl_maxCores :: u32
  xl_threadsPerCore :: u32
  xl_useAffinity :: bool
  xl_cpuSet :: "nat set"

definition DEFAULT_MEM_MB :: u32 where "DEFAULT_MEM_MB = 2048"

text \<open>The set of processors has no initial value; it is read only when affinity is in use.\<close>

definition ExecutionLimits_new :: "u32 \<Rightarrow> u32 \<Rightarrow> u32 \<Rightarrow> nat set \<Rightarrow> execution_limits" where
  "ExecutionLimits_new mem cores threads uninit =
     \<lparr>xl_unlimited = False, xl_maxMemoryMB = mem, xl_maxCores = cores, xl_threadsPerCore = threads,
      xl_useAffinity = False, xl_cpuSet = uninit\<rparr>"

definition ExecutionLimits_default :: "nat set \<Rightarrow> execution_limits" where
  "ExecutionLimits_default uninit =
     \<lparr>xl_unlimited = True, xl_maxMemoryMB = DEFAULT_MEM_MB, xl_maxCores = 1, xl_threadsPerCore = 1,
      xl_useAffinity = False, xl_cpuSet = uninit\<rparr>"

definition ExecutionLimits_enableAffinity :: "string \<Rightarrow> string \<Rightarrow> execution_limits \<Rightarrow> bool \<times> execution_limits" where
  "ExecutionLimits_enableAffinity cpus hyperthreadCpus xl =
     (case procListToCpuSet cpus (xl_maxCores xl) of
        None \<Rightarrow> (False, xl)
      | Some cpuSet \<Rightarrow>
          if xl_threadsPerCore xl > 1 then
            (case procListToCpuSet hyperthreadCpus (xl_maxCores xl * (xl_threadsPerCore xl - 1)) of
               None \<Rightarrow> (False, xl)
             | Some htCpuSet \<Rightarrow>
                 if cpuSet \<inter> htCpuSet \<noteq> {} then (False, xl)
                 else (True, xl\<lparr>xl_useAffinity := True, xl_cpuSet := cpuSet \<union> htCpuSet\<rparr>))
          else (True, xl\<lparr>xl_useAffinity := True, xl_cpuSet := cpuSet\<rparr>))"

definition ExecutionLimits_disableAffinity :: "execution_limits \<Rightarrow> execution_limits" where
  "ExecutionLimits_disableAffinity xl = xl\<lparr>xl_useAffinity := False\<rparr>"

definition ExecutionLimits_disableHyperthreading :: "execution_limits \<Rightarrow> execution_limits" where
  "ExecutionLimits_disableHyperthreading xl = xl\<lparr>xl_threadsPerCore := 1\<rparr>"

definition ExecutionLimits_maxThreads :: "execution_limits \<Rightarrow> u32" where
  "ExecutionLimits_maxThreads xl = xl_maxCores xl * xl_threadsPerCore xl"

definition ExecutionLimits_usesHyperthreads :: "execution_limits \<Rightarrow> bool" where
  "ExecutionLimits_usesHyperthreads xl \<longleftrightarrow> xl_threadsPerCore xl > 1"

text \<open>
  One of the three numeric settings: absent (null) keeps the old value, a positive integer is stored,
  anything else makes the whole call answer false.
\<close>

definition xl_setting ::
  "('j, 'z) json_api_scheme \<Rightarrow> 'j \<Rightarrow> string \<Rightarrow> (u32 \<Rightarrow> execution_limits \<Rightarrow> execution_limits) \<Rightarrow> (execution_limits, bool) proc" where
  "xl_setting J obj k store xl =
     (case js_get J obj k of
        Inl e \<Rightarrow> (Inl e, xl)
      | Inr v \<Rightarrow>
          if js_isInt J v then
            (case js_asInt J v of
               Inl e \<Rightarrow> (Inl e, xl)
             | Inr i \<Rightarrow> if 0 < i then (Inr True, store (word_of_int i) xl) else (Inr (js_isNull J v), xl))
          else (Inr (js_isNull J v), xl))"

text \<open>Stop with \<open>false\<close> when a step answers false.\<close>

definition and_then :: "('s, bool) proc \<Rightarrow> ('s, bool) proc \<Rightarrow> ('s, bool) proc" where
  "and_then m n = bindp m (\<lambda>ok. if ok then n else ret False)"

definition js_optString :: "('j, 'z) json_api_scheme \<Rightarrow> 'j \<Rightarrow> exn + string" where
  "js_optString J v = (if js_isString J v then js_asString J v else Inr [])"

definition xl_affinity :: "('j, 'z) json_api_scheme \<Rightarrow> 'j \<Rightarrow> (execution_limits, bool) proc" where
  "xl_affinity J obj =
     bindp (liftr (js_get J obj ''useAffinity'')) (\<lambda>useAffinityVal. bindp (liftr (js_get J obj ''cpuSet'')) (\<lambda>cpuSetVal.
     bindp (liftr (js_get J obj ''hyperthreadCpuSet'')) (\<lambda>htCpuSetVal.
     if js_isBool J useAffinityVal then
       bindp (liftr (js_asBool J useAffinityVal)) (\<lambda>use.
       if use then
         bindp (liftr (js_optString J cpuSetVal)) (\<lambda>cpus. bindp (liftr (js_optString J htCpuSetVal)) (\<lambda>hts.
         seqp (upd (\<lambda>xl. snd (ExecutionLimits_enableAffinity cpus hts xl))) (ret True)))
       else seqp (upd ExecutionLimits_disableAffinity) (ret True))
     else ret (js_isNull J useAffinityVal \<and> js_isNull J cpuSetVal \<and> js_isNull J htCpuSetVal))))"

definition ExecutionLimits_setFromObject :: "('j, 'z) json_api_scheme \<Rightarrow> 'j \<Rightarrow> (execution_limits, bool) proc" where
  "ExecutionLimits_setFromObject J obj =
     bindp (liftr (js_get J obj ''unlimited'')) (\<lambda>unlimited.
     bindp (liftr (if js_isBool J unlimited then js_asBool J unlimited else Inr False)) (\<lambda>u.
     seqp (upd (\<lambda>xl. xl\<lparr>xl_unlimited := u\<rparr>))
     (and_then (xl_setting J obj ''maxMemoryMB'' (\<lambda>v xl. xl\<lparr>xl_maxMemoryMB := v\<rparr>))
     (and_then (xl_setting J obj ''maxCores'' (\<lambda>v xl. xl\<lparr>xl_maxCores := v\<rparr>))
     (and_then (xl_setting J obj ''threadsPerCore'' (\<lambda>v xl. xl\<lparr>xl_threadsPerCore := v\<rparr>))
     (xl_affinity J obj))))))"

definition ExecutionLimits_toObject :: "('j, 'z) json_api_scheme \<Rightarrow> execution_limits \<Rightarrow> ('j, unit) proc" where
  "ExecutionLimits_toObject J xl =
     (if xl_unlimited xl then js_put J ''unlimited'' (js_ofBool J True)
      else seqp (js_put J ''maxMemoryMB'' (js_ofUInt J (unat (xl_maxMemoryMB xl))))
           (seqp (js_put J ''maxCores'' (js_ofUInt J (unat (xl_maxCores xl))))
           (seqp (js_put J ''threadsPerCore'' (js_ofUInt J (unat (xl_threadsPerCore xl))))
           (if xl_useAffinity xl
            then seqp (js_put J ''useAffinity'' (js_ofBool J True))
                 (js_put J ''cpuSet'' (js_ofString J (cpuSetToProcList (xl_cpuSet xl))))
            else ret ()))))"

subsection \<open>Printing and reading lists of processors\<close>

fun joined :: "nat list \<Rightarrow> string" where
  "joined [] = []"
| "joined [x] = show_nat x"
| "joined (x # y # xs) = show_nat x @ CHR '','' # joined (y # xs)"

lemma joined_Cons: "joined (x # xs) = show_nat x @ (if xs = [] then [] else CHR '','' # joined xs)"
  by (cases xs) simp_all

lemma joined_snoc: "joined (xs @ [x]) = (if xs = [] then show_nat x else joined xs @ '','' @ show_nat x)"
  by (induction xs rule: joined.induct) (simp_all add: joined_Cons)

lemma joined_Nil_iff [simp]: "joined xs = [] \<longleftrightarrow> xs = []"
  by (cases xs) (simp_all add: joined_Cons)

lemma cpuSetToProcList_joined: "cpuSetToProcList S = joined (filter (\<lambda>i. i \<in> S) [0..<CPU_SETSIZE])"
proof -
  have "fold (\<lambda>i ret. if i \<in> S then (if ret = [] then show_nat i else ret @ '','' @ show_nat i) else ret) [0..<n] [] =
      joined (filter (\<lambda>i. i \<in> S) [0..<n])" for n
    by (induction n) (simp_all add: joined_snoc)
  then show ?thesis by (simp add: cpuSetToProcList_def)
qed

lemma show_nat_digits: "c \<in> set (show_nat n) \<Longrightarrow> is_digit c"
proof (induction n arbitrary: c rule: show_nat.induct)
  case (1 n)
  have d: "is_digit (digit_char k)" if "k < 10" for k using that by (simp add: is_digit_def)
  show ?case
  proof (cases "n < 10")
    case True
    then show ?thesis using 1(2) d by (subst (asm) show_nat.simps) simp
  next
    case False
    then have "c \<in> set (show_nat (n div 10)) \<or> c = digit_char (n mod 10)"
      using 1(2) by (subst (asm) show_nat.simps) auto
    then show ?thesis using 1(1) False d by auto
  qed
qed

lemma takeWhile_show_nat:
  "rest = [] \<or> \<not> is_digit (hd rest) \<Longrightarrow> takeWhile is_digit (show_nat n @ rest) = show_nat n"
  using show_nat_digits [of _ n] by (cases rest) (auto simp: takeWhile_append)

lemma procList_loop_joined:
  assumes "xs \<noteq> []" and "\<forall>x \<in> set xs. x < CPU_SETSIZE"
  shows "procList_loop (joined xs) S count = Some (set xs \<union> S, count + length xs)"
  using assms
proof (induction xs arbitrary: S count)
  case (Cons x xs)
  let ?rest = "if xs = [] then [] else CHR '','' # joined xs"
  have tw: "takeWhile is_digit (show_nat x @ ?rest) = show_nat x"
    by (rule takeWhile_show_nat) (simp add: is_digit_def)
  have "hd (show_nat x @ ?rest) \<in> set (show_nat x)" by (simp add: hd_append)
  then have d: "is_digit (hd (show_nat x @ ?rest))" by (rule show_nat_digits)
  have x: "\<not> x > 2147483647" "\<not> x \<ge> CPU_SETSIZE" using Cons.prems(2) by (simp_all add: CPU_SETSIZE_def)
  show ?case
  proof (cases "xs = []")
    case True
    then show ?thesis using tw d x by (simp add: joined_Cons procList_loop.simps [of "show_nat x"] Let_def del: takeWhile_eq_all_conv)
  next
    case False
    then have "procList_loop (joined (x # xs)) S count = procList_loop (joined xs) (insert x S) (count + 1)"
      using tw d x by (simp add: joined_Cons procList_loop.simps [of "show_nat x @ CHR '','' # joined xs"] Let_def del: takeWhile_eq_all_conv)
    then show ?thesis using Cons.IH [OF False, of "insert x S" "count + 1"] Cons.prems(2) by simp
  qed
qed simp

lemma procList_roundtrip:
  assumes "S \<noteq> {}" and "S \<subseteq> {..<CPU_SETSIZE}"
  shows "procListToCpuSet (cpuSetToProcList S) (word_of_nat (card S)) = Some S"
proof -
  let ?xs = "filter (\<lambda>i. i \<in> S) [0..<CPU_SETSIZE]"
  have set: "set ?xs = S" using assms(2) by auto
  have ne: "?xs \<noteq> []" using assms(1) set by (metis set_empty)
  have "card (set ?xs) = length ?xs" by (rule distinct_card) simp
  then have card: "card S = length ?xs" by (simp only: set)
  have "\<forall>x \<in> set ?xs. x < CPU_SETSIZE" by simp
  from procList_loop_joined [OF ne this, of "{}" 0] have "procList_loop (joined ?xs) {} 0 = Some (S, card S)"
    by (simp only: set card Un_empty_right add_0)
  moreover have "joined ?xs \<noteq> []" using ne by (metis joined_Nil_iff)
  ultimately show ?thesis unfolding procListToCpuSet_def cpuSetToProcList_joined by (simp only: option.case prod.case if_False if_True refl simp_thms)
qed

lemma procList_loop_range:
  "procList_loop s cpuSet count = Some (S, n) \<Longrightarrow>
     S \<subseteq> cpuSet \<union> {..<CPU_SETSIZE} \<and> finite (S - cpuSet) \<and> card (S - cpuSet) + count \<le> n \<and> n \<le> count + length s"
proof (induction s cpuSet count rule: procList_loop.induct)
  case (1 s cpuSet count)
  let ?p = "parse_digits (takeWhile is_digit s)"
  let ?rest = "drop (length (show_nat ?p)) s"
  have ok: "s \<noteq> []" "is_digit (hd s)" "\<not> (?p > 2147483647 \<or> ?p \<ge> CPU_SETSIZE)"
    using 1(2) by (auto simp: procList_loop.simps [of s] Let_def split: if_splits)
  have sub: "insert ?p cpuSet - cpuSet \<subseteq> {?p}" by auto
  show ?case
  proof (cases "?rest = []")
    case True
    then have r: "S = insert ?p cpuSet" "n = count + 1"
      using 1(2) ok by (auto simp: procList_loop.simps [of s] Let_def)
    have "card (insert ?p cpuSet - cpuSet) \<le> card {?p}" by (rule card_mono) (use sub in auto)
    then show ?thesis using r ok(1,3) finite_subset [OF sub] by (auto simp: Suc_le_eq)
  next
    case False
    then have t: "\<not> hd ?rest \<noteq> CHR '',''" "tl ?rest \<noteq> []" "procList_loop (tl ?rest) (insert ?p cpuSet) (count + 1) = Some (S, n)"
      using 1(2) ok by (auto simp: procList_loop.simps [of s] Let_def split: if_splits)
    have IH: "S \<subseteq> insert ?p cpuSet \<union> {..<CPU_SETSIZE}" "finite (S - insert ?p cpuSet)"
        "card (S - insert ?p cpuSet) + (count + 1) \<le> n" "n \<le> count + 1 + length (tl ?rest)"
      using 1(1) ok False t by (simp_all add: Let_def)
    have s: "S - cpuSet \<subseteq> insert ?p (S - insert ?p cpuSet)" by auto
    have "card (S - cpuSet) \<le> card (insert ?p (S - insert ?p cpuSet))" by (rule card_mono) (use s IH(2) in auto)
    then have "card (S - cpuSet) \<le> card (S - insert ?p cpuSet) + 1"
      using card_insert_le_m1 [of "card (S - insert ?p cpuSet) + 1"] card_insert_if [OF IH(2), of ?p] by (auto split: if_splits)
    moreover have "length (tl ?rest) < length s" using ok(1) False by (simp add: less_eq_Suc_le)
    ultimately show ?thesis using IH ok(3) finite_subset [OF s] by auto
  qed
qed

subsection \<open>Limits as objects\<close>

lemma toObject_members:
  assumes "json_ok J" and "\<not> xl_unlimited xl"
  shows "\<exists>obj. ExecutionLimits_toObject J xl (js_null J) = (Inr (), obj) \<and>
    js_get J obj ''unlimited'' = Inr (js_null J) \<and> js_get J obj ''hyperthreadCpuSet'' = Inr (js_null J) \<and>
    js_get J obj ''maxMemoryMB'' = Inr (js_ofUInt J (unat (xl_maxMemoryMB xl))) \<and>
    js_get J obj ''maxCores'' = Inr (js_ofUInt J (unat (xl_maxCores xl))) \<and>
    js_get J obj ''threadsPerCore'' = Inr (js_ofUInt J (unat (xl_threadsPerCore xl))) \<and>
    js_get J obj ''useAffinity'' = Inr (if xl_useAffinity xl then js_ofBool J True else js_null J) \<and>
    js_get J obj ''cpuSet'' =
      Inr (if xl_useAffinity xl then js_ofString J (cpuSetToProcList (xl_cpuSet xl)) else js_null J)"
proof -
  note put = js_put_ok [OF assms(1)]
  obtain o1 where o1: "js_put J ''maxMemoryMB'' (js_ofUInt J (unat (xl_maxMemoryMB xl))) (js_null J) = (Inr (), o1)" "js_isMap J o1"
      "js_get J o1 ''maxMemoryMB'' = Inr (js_ofUInt J (unat (xl_maxMemoryMB xl)))"
      "\<forall>k'. k' \<noteq> ''maxMemoryMB'' \<longrightarrow> js_get J o1 k' = Inr (js_null J)"
    using put [OF js_null_isMap] js_get_null assms(1) by metis
  obtain o2 where o2: "js_put J ''maxCores'' (js_ofUInt J (unat (xl_maxCores xl))) o1 = (Inr (), o2)" "js_isMap J o2"
      "js_get J o2 ''maxCores'' = Inr (js_ofUInt J (unat (xl_maxCores xl)))"
      "\<forall>k'. k' \<noteq> ''maxCores'' \<longrightarrow> js_get J o2 k' = js_get J o1 k'"
    using put [OF o1(2)] by blast
  obtain o3 where o3: "js_put J ''threadsPerCore'' (js_ofUInt J (unat (xl_threadsPerCore xl))) o2 = (Inr (), o3)" "js_isMap J o3"
      "js_get J o3 ''threadsPerCore'' = Inr (js_ofUInt J (unat (xl_threadsPerCore xl)))"
      "\<forall>k'. k' \<noteq> ''threadsPerCore'' \<longrightarrow> js_get J o3 k' = js_get J o2 k'"
    using put [OF o2(2)] by blast
  show ?thesis
  proof (cases "xl_useAffinity xl")
    case False
    then show ?thesis using o1 o2 o3 assms(2) by (simp add: ExecutionLimits_toObject_def)
  next
    case True
    obtain o4 where o4: "js_put J ''useAffinity'' (js_ofBool J True) o3 = (Inr (), o4)" "js_isMap J o4"
        "js_get J o4 ''useAffinity'' = Inr (js_ofBool J True)"
        "\<forall>k'. k' \<noteq> ''useAffinity'' \<longrightarrow> js_get J o4 k' = js_get J o3 k'"
      using put [OF o3(2)] by blast
    obtain o5 where o5: "js_put J ''cpuSet'' (js_ofString J (cpuSetToProcList (xl_cpuSet xl))) o4 = (Inr (), o5)"
        "js_get J o5 ''cpuSet'' = Inr (js_ofString J (cpuSetToProcList (xl_cpuSet xl)))"
        "\<forall>k'. k' \<noteq> ''cpuSet'' \<longrightarrow> js_get J o5 k' = js_get J o4 k'"
      using put [OF o4(2)] by blast
    from True show ?thesis using o1 o2 o3 o4 o5 assms(2) by (simp add: ExecutionLimits_toObject_def)
  qed
qed

text \<open>The values a configuration can carry: positive and within the range of \<open>int\<close>.\<close>

definition limits_ok :: "execution_limits \<Rightarrow> bool" where
  "limits_ok xl \<longleftrightarrow> (\<forall>v \<in> {xl_maxMemoryMB xl, xl_maxCores xl, xl_threadsPerCore xl}. 0 < unat v \<and> unat v \<le> 2147483647)"

lemma xl_setting_ofUInt:
  assumes "json_uint_ok J" and "js_get J obj k = Inr (js_ofUInt J (unat v))" and "0 < unat v" "unat v \<le> 2147483647"
  shows "xl_setting J obj k store xl = (Inr True, store v xl)"
proof -
  have "0 < uint v" using assms(3) by (simp only: uint_nat of_nat_0_less_iff)
  then show ?thesis using assms by (simp add: xl_setting_def json_uint_ok_def)
qed

lemma setFromObject_members:
  assumes J: "json_ok J" "json_uint_ok J" and xl: "limits_ok xl"
    and g: "js_get J obj ''unlimited'' = Inr (js_null J)"
      "js_get J obj ''maxMemoryMB'' = Inr (js_ofUInt J (unat (xl_maxMemoryMB xl)))"
      "js_get J obj ''maxCores'' = Inr (js_ofUInt J (unat (xl_maxCores xl)))"
      "js_get J obj ''threadsPerCore'' = Inr (js_ofUInt J (unat (xl_threadsPerCore xl)))"
  shows "ExecutionLimits_setFromObject J obj xl0 = xl_affinity J obj
    (xl0\<lparr>xl_unlimited := False, xl_maxMemoryMB := xl_maxMemoryMB xl, xl_maxCores := xl_maxCores xl,
         xl_threadsPerCore := xl_threadsPerCore xl\<rparr>)"
proof -
  have "\<not> js_isBool J (js_null J)" using J(1) by (simp add: json_ok_def js_isNull_def js_isBool_def)
  then show ?thesis
    using g xl by (simp add: ExecutionLimits_setFromObject_def and_then_def limits_ok_def xl_setting_ofUInt [OF J(2)] bindp_def seqp_def)
qed

lemma xl_affinity_none:
  assumes "json_ok J" and "js_get J obj ''useAffinity'' = Inr (js_null J)" and "js_get J obj ''cpuSet'' = Inr (js_null J)"
    and "js_get J obj ''hyperthreadCpuSet'' = Inr (js_null J)"
  shows "xl_affinity J obj xl = (Inr True, xl)"
  using assms by (simp add: xl_affinity_def json_ok_def js_isNull_def js_isBool_def)

lemma xl_affinity_set:
  assumes J: "json_ok J" and "js_get J obj ''useAffinity'' = Inr (js_ofBool J True)"
    and "js_get J obj ''cpuSet'' = Inr (js_ofString J cpus)" and "js_get J obj ''hyperthreadCpuSet'' = Inr (js_null J)"
  shows "xl_affinity J obj xl = (Inr True, snd (ExecutionLimits_enableAffinity cpus [] xl))"
proof -
  have "js_isBool J (js_ofBool J True)" "js_asBool J (js_ofBool J True) = Inr True" "js_isString J (js_ofString J cpus)"
      "js_asString J (js_ofString J cpus) = Inr cpus" "\<not> js_isString J (js_null J)"
    using J by (simp_all add: json_ok_def js_isNull_def js_isString_def)
  then show ?thesis using assms(2-4) by (simp add: xl_affinity_def js_optString_def bindp_def seqp_def)
qed

subsection \<open>Properties\<close>

text \<open>
  The list of processors printed for a set is read back as that set when the required
  count is the size of the set.
\<close>

theorem processor_list_roundtrip:
  assumes "S \<noteq> {}" and "S \<subseteq> {..<CPU_SETSIZE}"
  shows "procListToCpuSet (cpuSetToProcList S) (word_of_nat (card S)) = Some S"
  by (rule procList_roundtrip [OF assms])

theorem processor_list_roundtrip_witness:
  "procListToCpuSet (cpuSetToProcList {1, 12}) 2 = Some {1, 12}"
  using processor_list_roundtrip [of "{1, 12}"] by (simp add: CPU_SETSIZE_def)

lemma procListToCpuSet_range:
  assumes "procListToCpuSet l required = Some S" and "length l < 2 ^ 32"
  shows "S \<subseteq> {..<CPU_SETSIZE}" and "finite S" and "card S \<le> unat required"
proof -
  obtain n where n: "procList_loop l {} 0 = Some (S, n)" "(word_of_nat n :: u32) = required"
    using assms(1) by (auto simp: procListToCpuSet_def split: if_splits option.splits)
  note r = procList_loop_range [OF n(1)]
  then have "n < 2 ^ 32" using assms(2) by simp
  then have "unat required = n" using n(2) by (auto simp: unat_of_nat)
  with r show "S \<subseteq> {..<CPU_SETSIZE}" "finite S" "card S \<le> unat required" by simp_all
qed

lemma hyperthread_count:
  fixes c t :: u32
  assumes "1 \<le> unat t" and "unat c * unat t < 2 ^ 32"
  shows "unat c + unat (c * (t - 1)) = unat (c * t)" and "unat c \<le> unat (c * t)"
proof -
  have t: "unat (t - 1) = unat t - 1" using assms(1) by (subst unat_sub) (simp_all add: word_le_nat_alt)
  have ct: "unat (c * t) = unat c * unat t" using assms(2) by (simp add: unat_mult_lem [THEN iffD1])
  have "unat c * unat (t - 1) < 2 ^ 32"
    unfolding t by (rule le_less_trans [OF _ assms(2)]) simp
  then have "unat (c * (t - 1)) = unat c * (unat t - 1)"
    using t by (simp add: unat_mult_lem [THEN iffD1])
  then show "unat c + unat (c * (t - 1)) = unat (c * t)" "unat c \<le> unat (c * t)"
    using assms(1) ct by (cases "unat t"; simp)+
qed



text \<open>
  \<open>toObject\<close> and \<open>setFromObject\<close>, for limits without hyperthreading whose set of processors
  has one element per core: all of them are restored.
\<close>

theorem limits_object_roundtrip:
  assumes "json_ok J" and "json_uint_ok J" and "limits_ok xl" and "\<not> xl_unlimited xl"
    and "xl_useAffinity xl \<Longrightarrow> xl_threadsPerCore xl = 1 \<and> xl_cpuSet xl \<noteq> {} \<and> xl_cpuSet xl \<subseteq> {..<CPU_SETSIZE} \<and>
      card (xl_cpuSet xl) = unat (xl_maxCores xl)"
    and "\<not> xl_useAffinity xl \<Longrightarrow> \<not> xl_useAffinity xl0"
  shows "\<exists>obj xl'. ExecutionLimits_toObject J xl (js_null J) = (Inr (), obj) \<and>
    ExecutionLimits_setFromObject J obj xl0 = (Inr True, xl') \<and>
    xl'\<lparr>xl_cpuSet := xl_cpuSet xl\<rparr> = xl \<and> (xl_useAffinity xl \<longrightarrow> xl' = xl)"
proof -
  obtain obj where obj: "ExecutionLimits_toObject J xl (js_null J) = (Inr (), obj)"
      "js_get J obj ''unlimited'' = Inr (js_null J)" "js_get J obj ''hyperthreadCpuSet'' = Inr (js_null J)"
      "js_get J obj ''maxMemoryMB'' = Inr (js_ofUInt J (unat (xl_maxMemoryMB xl)))"
      "js_get J obj ''maxCores'' = Inr (js_ofUInt J (unat (xl_maxCores xl)))"
      "js_get J obj ''threadsPerCore'' = Inr (js_ofUInt J (unat (xl_threadsPerCore xl)))"
      "js_get J obj ''useAffinity'' = Inr (if xl_useAffinity xl then js_ofBool J True else js_null J)"
      "js_get J obj ''cpuSet'' = Inr (if xl_useAffinity xl then js_ofString J (cpuSetToProcList (xl_cpuSet xl)) else js_null J)"
    using toObject_members [OF assms(1,4)] by blast
  let ?x = "xl0\<lparr>xl_unlimited := False, xl_maxMemoryMB := xl_maxMemoryMB xl, xl_maxCores := xl_maxCores xl,
    xl_threadsPerCore := xl_threadsPerCore xl\<rparr>"
  have set: "ExecutionLimits_setFromObject J obj xl0 = xl_affinity J obj ?x"
    by (rule setFromObject_members [OF assms(1-3) obj(2,4,5,6)])
  show ?thesis
  proof (cases "xl_useAffinity xl")
    case False
    then show ?thesis using obj set xl_affinity_none [OF assms(1), of obj ?x] assms(4,6) by simp
  next
    case True
    note a = assms(5) [OF True]
    then have "procListToCpuSet (cpuSetToProcList (xl_cpuSet xl)) (xl_maxCores xl) = Some (xl_cpuSet xl)"
      using procList_roundtrip [of "xl_cpuSet xl"] by simp
    then have "snd (ExecutionLimits_enableAffinity (cpuSetToProcList (xl_cpuSet xl)) [] ?x) = xl"
      using a True assms(4) by (simp add: ExecutionLimits_enableAffinity_def)
    then show ?thesis
      using obj set True xl_affinity_set [OF assms(1), of obj "cpuSetToProcList (xl_cpuSet xl)" ?x] by simp
  qed
qed

definition sample_limits :: execution_limits where
  "sample_limits = (ExecutionLimits_new 4096 2 1 {})\<lparr>xl_useAffinity := True, xl_cpuSet := {0, 7}\<rparr>"

theorem limits_object_roundtrip_witness:
  "\<exists>obj. ExecutionLimits_toObject json_impl sample_limits (js_null json_impl) = (Inr (), obj) \<and>
    ExecutionLimits_setFromObject json_impl obj (ExecutionLimits_default {}) = (Inr True, sample_limits)"
  using limits_object_roundtrip [OF json_impl_ok json_impl_uint_ok, of sample_limits "ExecutionLimits_default {}"]
  by (auto simp: sample_limits_def ExecutionLimits_new_def limits_ok_def CPU_SETSIZE_def)

text \<open>
  With hyperthreading, the affinity of limits does not survive: \<open>toObject\<close> stores the combined
  set as \<open>cpuSet\<close> and no \<open>hyperthreadCpuSet\<close>, \<open>setFromObject\<close> ignores that \<open>enableAffinity\<close> fails, answers
  true and leaves affinity off.
\<close>

theorem hyperthread_affinity_lost:
  assumes "json_ok J" and "json_uint_ok J" and "limits_ok xl" and "\<not> xl_unlimited xl"
    and "xl_useAffinity xl" and "xl_threadsPerCore xl > 1" and "\<not> xl_useAffinity xl0"
  shows "\<exists>obj xl'. ExecutionLimits_toObject J xl (js_null J) = (Inr (), obj) \<and>
    ExecutionLimits_setFromObject J obj xl0 = (Inr True, xl') \<and> \<not> xl_useAffinity xl'"
proof -
  obtain obj where obj: "ExecutionLimits_toObject J xl (js_null J) = (Inr (), obj)"
      "js_get J obj ''unlimited'' = Inr (js_null J)" "js_get J obj ''hyperthreadCpuSet'' = Inr (js_null J)"
      "js_get J obj ''maxMemoryMB'' = Inr (js_ofUInt J (unat (xl_maxMemoryMB xl)))"
      "js_get J obj ''maxCores'' = Inr (js_ofUInt J (unat (xl_maxCores xl)))"
      "js_get J obj ''threadsPerCore'' = Inr (js_ofUInt J (unat (xl_threadsPerCore xl)))"
      "js_get J obj ''useAffinity'' = Inr (js_ofBool J True)"
      "js_get J obj ''cpuSet'' = Inr (js_ofString J (cpuSetToProcList (xl_cpuSet xl)))"
    using toObject_members [OF assms(1,4)] assms(5) by auto
  let ?x = "xl0\<lparr>xl_unlimited := False, xl_maxMemoryMB := xl_maxMemoryMB xl, xl_maxCores := xl_maxCores xl,
    xl_threadsPerCore := xl_threadsPerCore xl\<rparr>"
  have "snd (ExecutionLimits_enableAffinity cpus [] ?x) = ?x" for cpus
    using assms(6) by (simp add: ExecutionLimits_enableAffinity_def procListToCpuSet_def [of "[]"] split: option.splits)
  then show ?thesis
    using obj(1) setFromObject_members [OF assms(1-3) obj(2,4,5,6), of xl0] xl_affinity_set [OF assms(1) obj(7,8,3), of ?x] assms(7)
    by simp
qed

theorem hyperthread_affinity_lost_witness:
  "\<exists>obj xl'. ExecutionLimits_toObject json_impl (sample_limits\<lparr>xl_threadsPerCore := 2, xl_maxCores := 1\<rparr>) (js_null json_impl) =
      (Inr (), obj) \<and>
    ExecutionLimits_setFromObject json_impl obj (ExecutionLimits_default {}) = (Inr True, xl') \<and> \<not> xl_useAffinity xl'"
  by (rule hyperthread_affinity_lost [OF json_impl_ok json_impl_uint_ok])
    (simp_all add: sample_limits_def ExecutionLimits_new_def ExecutionLimits_default_def limits_ok_def)

end
