(* ===== verification/Dispatcher.thy ===== *)
theory Dispatcher
  imports Limits "HOL-Library.Sublist"
begin

text \<open>
  \<^verbatim>\<open>arras4_core_impl/lib/shared_impl\<close>: \<open>ThreadsafeQueue\<close> and \<open>MessageDispatcher\<close>.

  The dispatcher runs four threads - master, incoming, outgoing and handler - next to the threads of its
  clients. Each thread has a program counter; a step takes one thread from one point where others can
  observe or influence it to the next. What the message endpoint and the message handler answer is
  chosen by the environment. The state mutex is held by the master while it shuts the queues down
  (\<open>lock_free\<close>); every other critical section is one step.

  Besides the members of the class the state records, for the statements only, the messages that have
  arrived, have been handled, have been accepted for sending and have been written, the calls of the
  observer, and whether the reset pointer to the endpoint has been used (\<open>di_fault\<close>).
\<close>

subsection \<open>ThreadsafeQueue\<close>

record 'a tqueue =
  tq_queue :: "'a list"
  tq_shutdown :: bool

definition ThreadsafeQueue_new :: "'a tqueue" where
  "ThreadsafeQueue_new = \<lparr>tq_queue = [], tq_shutdown = False\<rparr>"

definition ThreadsafeQueue_push :: "'a \<Rightarrow> ('a tqueue, unit) proc" where
  "ThreadsafeQueue_push t q =
     (if tq_shutdown q then (Inl (ShutdownException ''Queue was shut down''), q)
      else (Inr (), q\<lparr>tq_queue := tq_queue q @ [t]\<rparr>))"

text \<open>
  One pass through the loop of \<open>pop\<close>: an item, or \<open>None\<close> when the caller has to wait. After a wake-up
  the tests for shutdown and for an empty queue are made again, in that order, as a new pass makes
  them; after a timeout they are not.
\<close>

definition ThreadsafeQueue_pop :: "('a tqueue, 'a option) proc" where
  "ThreadsafeQueue_pop q =
     (if tq_shutdown q then (Inl (ShutdownException ''Queue was shut down''), q)
      else case tq_queue q of
             [] \<Rightarrow> (Inr None, q)
           | t # ts \<Rightarrow> (Inr (Some t), q\<lparr>tq_queue := ts\<rparr>))"

text \<open>Likewise for \<open>waitUntilEmpty\<close>: false means that the caller has to wait.\<close>

definition ThreadsafeQueue_waitUntilEmpty :: "('a tqueue, bool) proc" where
  "ThreadsafeQueue_waitUntilEmpty q =
     (if tq_shutdown q then (Inl (ShutdownException ''Queue was shut down''), q)
      else (Inr (tq_queue q = []), q))"

definition ThreadsafeQueue_shutdown :: "'a tqueue \<Rightarrow> 'a tqueue" where
  "ThreadsafeQueue_shutdown q = q\<lparr>tq_shutdown := True\<rparr>"

subsection \<open>The dispatcher\<close>

datatype exit_reason = ER_None | ER_Quit | ER_Disconnected | ER_MessageError | ER_HandlerError

primrec dispatcherExitReasonAsString :: "exit_reason \<Rightarrow> string" where
  "dispatcherExitReasonAsString ER_None = ''dispatcher still running''"
| "dispatcherExitReasonAsString ER_Quit = ''requested to exit''"
| "dispatcherExitReasonAsString ER_Disconnected = ''socket was disconnected''"
| "dispatcherExitReasonAsString ER_MessageError = ''error transporting a message''"
| "dispatcherExitReasonAsString ER_HandlerError = ''error handling a message''"

datatype dispatcher_state = NotStarted | Queueing | Dispatching | Exiting | Exited

text \<open>
  Program counters. \<open>T_none\<close>: not started; \<open>T_check\<close>: before the test of the loop; \<open>T_get\<close>, \<open>T_put\<close>: in a
  call of the endpoint; \<open>T_push\<close>, \<open>T_pop\<close>, \<open>T_wait\<close>: in a call of a queue, the last one waiting; \<open>T_count\<close>:
  before the counter; \<open>T_handle\<close>, \<open>T_idle\<close>: in a call of the handler; \<open>T_post\<close>: in \<open>postError\<close>.
\<close>

datatype 'e pc = T_none | T_check | T_get | T_push 'e | T_pop | T_wait | T_put 'e | T_count 'e | T_handle 'e | T_idle
  | T_post exit_reason | T_end

datatype master_pc = M_none | M_start | M_waitDispatch | M_waitExit | M_shutIncoming | M_shutOutgoing | M_shutSource
  | M_joinIncoming | M_joinOutgoing | M_joinHandler | M_finish | M_done

record 'e dispatcher =
  di_state :: dispatcher_state
  di_exitReason :: "exit_reason option"
  di_limits :: execution_limits
  di_source :: bool
  di_sourceShutdown :: bool
  di_outgoing :: "'e tqueue"
  di_incoming :: "'e tqueue"
  di_sentCount :: u64
  di_receivedCount :: u64
  di_masterPc :: master_pc
  di_incomingPc :: "'e pc"
  di_outgoingPc :: "'e pc"
  di_handlerPc :: "'e pc"
  di_fault :: bool
  di_observed :: "exit_reason option list"
  di_arrived :: "'e list"
  di_handled :: "'e list"
  di_accepted :: "'e list"
  di_written :: "'e list"

text \<open>The exit reason has no initial value.\<close>

definition MessageDispatcher_new :: "execution_limits \<Rightarrow> 'e dispatcher" where
  "MessageDispatcher_new limits =
     \<lparr>di_state = NotStarted, di_exitReason = None, di_limits = limits, di_source = False, di_sourceShutdown = False,
      di_outgoing = ThreadsafeQueue_new, di_incoming = ThreadsafeQueue_new, di_sentCount = 0, di_receivedCount = 0,
      di_masterPc = M_none, di_incomingPc = T_none, di_outgoingPc = T_none, di_handlerPc = T_none,
      di_fault = False, di_observed = [], di_arrived = [], di_handled = [], di_accepted = [], di_written = []\<rparr>"

definition lock_free :: "'e dispatcher \<Rightarrow> bool" where
  "lock_free d \<longleftrightarrow> di_masterPc d \<notin> {M_shutIncoming, M_shutOutgoing, M_shutSource}"

definition MessageDispatcher_send :: "'e \<Rightarrow> 'e dispatcher \<Rightarrow> bool \<times> 'e dispatcher" where
  "MessageDispatcher_send e d =
     (case ThreadsafeQueue_push e (di_outgoing d) of
        (Inl _, q) \<Rightarrow> (False, d\<lparr>di_outgoing := q\<rparr>)
      | (Inr _, q) \<Rightarrow> (True, d\<lparr>di_outgoing := q, di_accepted := di_accepted d @ [e]\<rparr>))"

definition MessageDispatcher_startQueueing :: "('e dispatcher, unit) proc" where
  "MessageDispatcher_startQueueing d =
     (if di_state d \<noteq> NotStarted
      then (Inl (LogicError ''called startQueueing after dispatcher has started''), d)
      else (Inr (), d\<lparr>di_source := True, di_state := Queueing, di_masterPc := M_start\<rparr>))"

definition MessageDispatcher_startDispatching :: "execution_limits \<Rightarrow> ('e dispatcher, unit) proc" where
  "MessageDispatcher_startDispatching limits d =
     (if di_state d \<noteq> Queueing
      then (Inl (LogicError ''called startDispatching when not in queueing state''), d)
      else (Inr (), d\<lparr>di_limits := limits, di_state := Dispatching\<rparr>))"

definition MessageDispatcher_postError :: "exit_reason \<Rightarrow> 'e dispatcher \<Rightarrow> 'e dispatcher" where
  "MessageDispatcher_postError reason d = d\<lparr>di_exitReason := Some reason, di_state := Exiting\<rparr>"

definition MessageDispatcher_postQuit :: "'e dispatcher \<Rightarrow> 'e dispatcher" where
  "MessageDispatcher_postQuit d =
     (if di_state d = Exiting \<or> di_state d = Exited then d
      else d\<lparr>di_exitReason := Some ER_Quit, di_state := Exiting\<rparr>)"

text \<open>Waiting for the master thread: \<open>None\<close> while it is running. Without one the call returns at once.\<close>

definition MessageDispatcher_waitForExit :: "'e dispatcher \<Rightarrow> exit_reason option option" where
  "MessageDispatcher_waitForExit d =
     (if di_masterPc d \<in> {M_none, M_done} then Some (di_exitReason d) else None)"

subsection \<open>The threads\<close>

definition io_catch :: "exn \<Rightarrow> exit_reason option" where
  "io_catch e = (case e of ShutdownException _ \<Rightarrow> None | PeerDisconnectException _ \<Rightarrow> Some ER_Disconnected
     | _ \<Rightarrow> Some ER_MessageError)"

definition handler_catch :: "exn \<Rightarrow> exit_reason option" where
  "handler_catch e = (case e of ShutdownException _ \<Rightarrow> None | _ \<Rightarrow> Some ER_HandlerError)"

definition after_catch :: "exit_reason option \<Rightarrow> 'e pc" where
  "after_catch r = (case r of None \<Rightarrow> T_check | Some er \<Rightarrow> T_post er)"

definition loop_check :: "'e pc \<Rightarrow> 'e dispatcher \<Rightarrow> 'e pc" where
  "loop_check p d = (if di_state d \<noteq> Exiting then p else T_end)"

text \<open>The incoming thread; \<open>r\<close> is what \<open>getEnvelope\<close> answers. \<open>None\<close>: the thread cannot move.\<close>

definition incomingThreadProc :: "exn + 'e \<Rightarrow> 'e dispatcher \<Rightarrow> 'e dispatcher option" where
  "incomingThreadProc r d =
     (case di_incomingPc d of
        T_check \<Rightarrow> Some (d\<lparr>di_incomingPc := loop_check T_get d\<rparr>)
      | T_get \<Rightarrow>
          if \<not> di_source d then Some (d\<lparr>di_fault := True\<rparr>)
          else (case r of
                  Inl x \<Rightarrow> Some (d\<lparr>di_incomingPc := after_catch (io_catch x)\<rparr>)
                | Inr e \<Rightarrow> Some (d\<lparr>di_incomingPc := T_push e, di_arrived := di_arrived d @ [e]\<rparr>))
      | T_push e \<Rightarrow>
          (case ThreadsafeQueue_push e (di_incoming d) of
             (Inl x, q) \<Rightarrow> Some (d\<lparr>di_incoming := q, di_incomingPc := after_catch (io_catch x)\<rparr>)
           | (Inr _, q) \<Rightarrow> Some (d\<lparr>di_incoming := q, di_incomingPc := T_check\<rparr>))
      | T_post er \<Rightarrow> if lock_free d then Some ((MessageDispatcher_postError er d)\<lparr>di_incomingPc := T_check\<rparr>) else None
      | _ \<Rightarrow> None)"

text \<open>The outgoing thread; \<open>r\<close> is what \<open>putEnvelope\<close> answers, \<open>heartbeat\<close> the test of the class.\<close>

definition outgoingThreadProc :: "('e \<Rightarrow> bool) \<Rightarrow> exn + unit \<Rightarrow> 'e dispatcher \<Rightarrow> 'e dispatcher option" where
  "outgoingThreadProc heartbeat r d =
     (case di_outgoingPc d of
        T_check \<Rightarrow> Some (d\<lparr>di_outgoingPc := loop_check T_pop d\<rparr>)
      | T_pop \<Rightarrow>
          (case ThreadsafeQueue_pop (di_outgoing d) of
             (Inl x, q) \<Rightarrow> Some (d\<lparr>di_outgoing := q, di_outgoingPc := after_catch (io_catch x)\<rparr>)
           | (Inr None, q) \<Rightarrow> None
           | (Inr (Some e), q) \<Rightarrow> Some (d\<lparr>di_outgoing := q, di_outgoingPc := T_put e\<rparr>))
      | T_put e \<Rightarrow>
          if \<not> di_source d then Some (d\<lparr>di_fault := True\<rparr>)
          else (case r of
                  Inl x \<Rightarrow> Some (d\<lparr>di_outgoingPc := after_catch (io_catch x)\<rparr>)
                | Inr _ \<Rightarrow> Some (d\<lparr>di_outgoingPc := T_count e, di_written := di_written d @ [e]\<rparr>))
      | T_count e \<Rightarrow>
          Some (d\<lparr>di_outgoingPc := T_check,
                  di_sentCount := (if heartbeat e then di_sentCount d else di_sentCount d + 1)\<rparr>)
      | T_post er \<Rightarrow> if lock_free d then Some ((MessageDispatcher_postError er d)\<lparr>di_outgoingPc := T_check\<rparr>) else None
      | _ \<Rightarrow> None)"

text \<open>
  The handler thread; \<open>timed\<close>: there is an idle interval, \<open>timeout\<close>: it has passed, \<open>r\<close>: what the message
  handler answers.
\<close>

definition handler_pop :: "'e dispatcher \<Rightarrow> 'e dispatcher option" where
  "handler_pop d =
     (case ThreadsafeQueue_pop (di_incoming d) of
        (Inl x, q) \<Rightarrow> Some (d\<lparr>di_incoming := q, di_handlerPc := after_catch (handler_catch x)\<rparr>)
      | (Inr None, q) \<Rightarrow> if di_handlerPc d = T_wait then None else Some (d\<lparr>di_handlerPc := T_wait\<rparr>)
      | (Inr (Some e), q) \<Rightarrow>
          Some (d\<lparr>di_incoming := q, di_receivedCount := di_receivedCount d + 1, di_handlerPc := T_handle e,
                  di_handled := di_handled d @ [e]\<rparr>))"

definition handlerThreadProc :: "bool \<Rightarrow> bool \<Rightarrow> exn + unit \<Rightarrow> 'e dispatcher \<Rightarrow> 'e dispatcher option" where
  "handlerThreadProc timed timeout r d =
     (let handled = (case r of Inl x \<Rightarrow> after_catch (handler_catch x) | Inr _ \<Rightarrow> T_check)
      in case di_handlerPc d of
        T_check \<Rightarrow> Some (d\<lparr>di_handlerPc := loop_check T_pop d\<rparr>)
      | T_pop \<Rightarrow> handler_pop d
      | T_wait \<Rightarrow> if timed \<and> timeout then Some (d\<lparr>di_handlerPc := T_idle\<rparr>) else handler_pop d
      | T_handle e \<Rightarrow> Some (d\<lparr>di_handlerPc := handled\<rparr>)
      | T_idle \<Rightarrow> Some (d\<lparr>di_handlerPc := handled\<rparr>)
      | T_post er \<Rightarrow> if lock_free d then Some ((MessageDispatcher_postError er d)\<lparr>di_handlerPc := T_check\<rparr>) else None
      | _ \<Rightarrow> None)"

text \<open>The master thread.\<close>

definition masterThreadProc :: "'e dispatcher \<Rightarrow> 'e dispatcher option" where
  "masterThreadProc d =
     (case di_masterPc d of
        M_start \<Rightarrow> Some (d\<lparr>di_incomingPc := T_check, di_masterPc := M_waitDispatch\<rparr>)
      | M_waitDispatch \<Rightarrow>
          if di_state d = Exiting then Some (d\<lparr>di_masterPc := M_shutIncoming\<rparr>)
          else if di_state d = Dispatching
          then Some (d\<lparr>di_outgoingPc := T_check, di_handlerPc := T_check, di_masterPc := M_waitExit\<rparr>)
          else None
      | M_waitExit \<Rightarrow> if di_state d = Exiting then Some (d\<lparr>di_masterPc := M_shutIncoming\<rparr>) else None
      | M_shutIncoming \<Rightarrow> Some (d\<lparr>di_incoming := ThreadsafeQueue_shutdown (di_incoming d), di_masterPc := M_shutOutgoing\<rparr>)
      | M_shutOutgoing \<Rightarrow> Some (d\<lparr>di_outgoing := ThreadsafeQueue_shutdown (di_outgoing d), di_masterPc := M_shutSource\<rparr>)
      | M_shutSource \<Rightarrow>
          if \<not> di_source d then Some (d\<lparr>di_fault := True\<rparr>)
          else Some (d\<lparr>di_sourceShutdown := True, di_masterPc := M_joinIncoming\<rparr>)
      | M_joinIncoming \<Rightarrow> if di_incomingPc d \<in> {T_none, T_end} then Some (d\<lparr>di_masterPc := M_joinOutgoing\<rparr>) else None
      | M_joinOutgoing \<Rightarrow> if di_outgoingPc d \<in> {T_none, T_end} then Some (d\<lparr>di_masterPc := M_joinHandler\<rparr>) else None
      | M_joinHandler \<Rightarrow>
          if di_handlerPc d \<in> {T_none, T_end}
          then Some (d\<lparr>di_source := False, di_observed := di_observed d @ [di_exitReason d], di_masterPc := M_finish\<rparr>)
          else None
      | M_finish \<Rightarrow> Some (d\<lparr>di_state := Exited, di_masterPc := M_done\<rparr>)
      | _ \<Rightarrow> None)"

subsection \<open>Steps\<close>

text \<open>A step of one of the dispatcher's own threads.\<close>

inductive thread_step :: "bool \<Rightarrow> ('e \<Rightarrow> bool) \<Rightarrow> 'e dispatcher \<Rightarrow> 'e dispatcher \<Rightarrow> bool" for timed heartbeat where
  incoming: "incomingThreadProc r d = Some d' \<Longrightarrow> thread_step timed heartbeat d d'"
| outgoing: "outgoingThreadProc heartbeat r d = Some d' \<Longrightarrow> thread_step timed heartbeat d d'"
| handler: "handlerThreadProc timed timeout r d = Some d' \<Longrightarrow> thread_step timed heartbeat d d'"
| master: "masterThreadProc d = Some d' \<Longrightarrow> thread_step timed heartbeat d d'"

text \<open>A call by a client.\<close>

inductive client_step :: "'e dispatcher \<Rightarrow> 'e dispatcher \<Rightarrow> bool" where
  send: "MessageDispatcher_send e d = (ok, d') \<Longrightarrow> client_step d d'"
| startQueueing: "lock_free d \<Longrightarrow> MessageDispatcher_startQueueing d = (r, d') \<Longrightarrow> client_step d d'"
| startDispatching: "lock_free d \<Longrightarrow> MessageDispatcher_startDispatching limits d = (r, d') \<Longrightarrow> client_step d d'"
| postError: "lock_free d \<Longrightarrow> client_step d (MessageDispatcher_postError er d)"
| postQuit: "lock_free d \<Longrightarrow> client_step d (MessageDispatcher_postQuit d)"

inductive disp_reachable :: "bool \<Rightarrow> ('e \<Rightarrow> bool) \<Rightarrow> 'e dispatcher \<Rightarrow> bool" for timed heartbeat where
  new: "disp_reachable timed heartbeat (MessageDispatcher_new limits)"
| thread: "disp_reachable timed heartbeat d \<Longrightarrow> thread_step timed heartbeat d d' \<Longrightarrow> disp_reachable timed heartbeat d'"
| client: "disp_reachable timed heartbeat d \<Longrightarrow> client_step d d' \<Longrightarrow> disp_reachable timed heartbeat d'"

subsection \<open>Control: which thread is where\<close>

primrec incoming_point :: "'e pc \<Rightarrow> bool" where
  "incoming_point T_none = True" | "incoming_point T_check = True" | "incoming_point T_get = True"
| "incoming_point (T_push e) = True" | "incoming_point T_pop = False" | "incoming_point T_wait = False"
| "incoming_point (T_put e) = False" | "incoming_point (T_count e) = False" | "incoming_point (T_handle e) = False"
| "incoming_point T_idle = False" | "incoming_point (T_post r) = True" | "incoming_point T_end = True"

primrec outgoing_point :: "'e pc \<Rightarrow> bool" where
  "outgoing_point T_none = True" | "outgoing_point T_check = True" | "outgoing_point T_get = False"
| "outgoing_point (T_push e) = False" | "outgoing_point T_pop = True" | "outgoing_point T_wait = False"
| "outgoing_point (T_put e) = True" | "outgoing_point (T_count e) = True" | "outgoing_point (T_handle e) = False"
| "outgoing_point T_idle = False" | "outgoing_point (T_post r) = True" | "outgoing_point T_end = True"

primrec handler_point :: "'e pc \<Rightarrow> bool" where
  "handler_point T_none = True" | "handler_point T_check = True" | "handler_point T_get = False"
| "handler_point (T_push e) = False" | "handler_point T_pop = True" | "handler_point T_wait = True"
| "handler_point (T_put e) = False" | "handler_point (T_count e) = False" | "handler_point (T_handle e) = True"
| "handler_point T_idle = True" | "handler_point (T_post r) = True" | "handler_point T_end = True"

definition stopped :: "'e pc \<Rightarrow> bool" where
  "stopped p \<longleftrightarrow> p = T_none \<or> p = T_end"

text \<open>What each point of the master thread says about the others and about the state.\<close>

definition master_inv :: "'e dispatcher \<Rightarrow> bool" where
  "master_inv d = (case di_masterPc d of
     M_none \<Rightarrow> di_incomingPc d = T_none \<and> di_outgoingPc d = T_none \<and> di_handlerPc d = T_none \<and> \<not> di_source d \<and>
       di_state d \<in> {NotStarted, Exiting}
   | M_start \<Rightarrow> di_incomingPc d = T_none \<and> di_outgoingPc d = T_none \<and> di_handlerPc d = T_none \<and> di_source d \<and>
       di_state d \<in> {Queueing, Dispatching, Exiting}
   | M_waitDispatch \<Rightarrow> di_incomingPc d \<noteq> T_none \<and> di_outgoingPc d = T_none \<and> di_handlerPc d = T_none \<and> di_source d \<and>
       di_state d \<in> {Queueing, Dispatching, Exiting}
   | M_waitExit \<Rightarrow> di_incomingPc d \<noteq> T_none \<and> di_outgoingPc d \<noteq> T_none \<and> di_handlerPc d \<noteq> T_none \<and> di_source d \<and>
       di_state d \<in> {Dispatching, Exiting}
   | M_joinOutgoing \<Rightarrow> di_incomingPc d = T_end \<and> di_source d \<and> di_state d = Exiting
   | M_joinHandler \<Rightarrow> di_incomingPc d = T_end \<and> stopped (di_outgoingPc d) \<and> di_source d \<and> di_state d = Exiting
   | M_finish \<Rightarrow> di_incomingPc d = T_end \<and> stopped (di_outgoingPc d) \<and> stopped (di_handlerPc d) \<and> \<not> di_source d \<and>
       di_state d = Exiting
   | M_done \<Rightarrow> di_incomingPc d = T_end \<and> stopped (di_outgoingPc d) \<and> stopped (di_handlerPc d) \<and> \<not> di_source d \<and>
       di_state d \<in> {Exited, Exiting}
   | _ \<Rightarrow> di_incomingPc d \<noteq> T_none \<and> di_source d \<and> di_state d = Exiting)"

definition control_inv :: "'e dispatcher \<Rightarrow> bool" where
  "control_inv d \<longleftrightarrow> master_inv d \<and> \<not> di_fault d \<and>
     incoming_point (di_incomingPc d) \<and> outgoing_point (di_outgoingPc d) \<and> handler_point (di_handlerPc d) \<and>
     (di_incomingPc d = T_end \<or> di_outgoingPc d = T_end \<or> di_handlerPc d = T_end \<longrightarrow> di_state d \<in> {Exiting, Exited})"

lemmas queue_defs = ThreadsafeQueue_push_def ThreadsafeQueue_pop_def ThreadsafeQueue_shutdown_def

lemma after_catch_points [simp]:
  "incoming_point (after_catch r)" "outgoing_point (after_catch r)" "handler_point (after_catch r)"
  "after_catch r \<noteq> T_none" "after_catch r \<noteq> T_end" "\<not> stopped (after_catch r)"
  by (simp_all add: after_catch_def stopped_def split: option.splits)

text \<open>What a step of one worker thread leaves alone.\<close>

lemma incoming_effect:
  assumes "incomingThreadProc r d = Some d'"
  shows "di_masterPc d' = di_masterPc d" "di_outgoingPc d' = di_outgoingPc d" "di_handlerPc d' = di_handlerPc d"
    "di_source d' = di_source d" "\<not> stopped (di_incomingPc d)" "di_incomingPc d' \<noteq> T_none"
    "di_incomingPc d' = T_end \<Longrightarrow> di_state d = Exiting" "di_state d' = di_state d \<or> lock_free d \<and> di_state d' = Exiting"
    "di_source d \<Longrightarrow> di_fault d' = di_fault d" "incoming_point (di_incomingPc d')"
  using assms
  by (cases "di_incomingPc d"; auto simp: incomingThreadProc_def stopped_def loop_check_def MessageDispatcher_postError_def queue_defs
      split: if_splits sum.splits prod.splits)+

lemma outgoing_effect:
  assumes "outgoingThreadProc hb r d = Some d'"
  shows "di_masterPc d' = di_masterPc d" "di_incomingPc d' = di_incomingPc d" "di_handlerPc d' = di_handlerPc d"
    "di_source d' = di_source d" "\<not> stopped (di_outgoingPc d)" "di_outgoingPc d' \<noteq> T_none"
    "di_outgoingPc d' = T_end \<Longrightarrow> di_state d = Exiting" "di_state d' = di_state d \<or> lock_free d \<and> di_state d' = Exiting"
    "di_source d \<Longrightarrow> di_fault d' = di_fault d" "outgoing_point (di_outgoingPc d')"
  using assms
  by (cases "di_outgoingPc d"; auto simp: outgoingThreadProc_def stopped_def loop_check_def MessageDispatcher_postError_def queue_defs
      split: if_splits sum.splits prod.splits list.splits)+

lemma handler_effect:
  assumes "handlerThreadProc timed timeout r d = Some d'"
  shows "di_masterPc d' = di_masterPc d" "di_incomingPc d' = di_incomingPc d" "di_outgoingPc d' = di_outgoingPc d"
    "di_source d' = di_source d" "\<not> stopped (di_handlerPc d)" "di_handlerPc d' \<noteq> T_none"
    "di_handlerPc d' = T_end \<Longrightarrow> di_state d = Exiting" "di_state d' = di_state d \<or> lock_free d \<and> di_state d' = Exiting"
    "di_fault d' = di_fault d" "handler_point (di_handlerPc d')"
  using assms
  by (cases "di_handlerPc d"; auto simp: handlerThreadProc_def handler_pop_def Let_def stopped_def loop_check_def
      MessageDispatcher_postError_def queue_defs split: if_splits sum.splits prod.splits list.splits)+

definition pc_moves :: "bool \<Rightarrow> 'e pc \<Rightarrow> 'e pc \<Rightarrow> bool" where
  "pc_moves exiting p p' \<longleftrightarrow> (p' = T_none \<longleftrightarrow> p = T_none) \<and> (stopped p \<longrightarrow> p' = p) \<and> (p' = T_end \<longrightarrow> p = T_end \<or> exiting)"

lemma pc_moves_refl [simp]: "pc_moves ex p p"
  by (simp add: pc_moves_def)

lemma pc_moves_step: "\<not> stopped p \<Longrightarrow> p' \<noteq> T_none \<Longrightarrow> (p' = T_end \<Longrightarrow> ex) \<Longrightarrow> pc_moves ex p p'"
  by (auto simp: pc_moves_def stopped_def)

lemma pc_movesD:
  assumes "pc_moves ex p p'"
  shows "p' = T_none \<longleftrightarrow> p = T_none" and "p = T_end \<Longrightarrow> p' = T_end" and "stopped p \<Longrightarrow> stopped p'" and "p' = T_end \<Longrightarrow> p = T_end \<or> ex"
  using assms by (auto simp: pc_moves_def stopped_def)

lemma worker_control:
  assumes "control_inv d" and m: "di_masterPc d' = di_masterPc d" "di_source d' = di_source d"
    and st: "di_state d' = di_state d \<or> di_state d' = Exiting" and "\<not> di_fault d'"
    and p: "pc_moves (di_state d = Exiting) (di_incomingPc d) (di_incomingPc d')"
      "pc_moves (di_state d = Exiting) (di_outgoingPc d) (di_outgoingPc d')"
      "pc_moves (di_state d = Exiting) (di_handlerPc d) (di_handlerPc d')"
    and "incoming_point (di_incomingPc d')" "outgoing_point (di_outgoingPc d')" "handler_point (di_handlerPc d')"
  shows "control_inv d'"
proof -
  note i = pc_movesD [OF p(1)] and o = pc_movesD [OF p(2)] and h = pc_movesD [OF p(3)]
  have inv: "master_inv d" using assms(1) by (simp add: control_inv_def)
  have "master_inv d'"
    using inv st i(1-3) o(1-3) h(1-3) unfolding master_inv_def m
    by (cases "di_masterPc d") auto
  moreover have "di_state d' \<in> {Exiting, Exited}" if "di_incomingPc d' = T_end \<or> di_outgoingPc d' = T_end \<or> di_handlerPc d' = T_end"
    using that i(4) o(4) h(4) assms(1) st by (auto simp: control_inv_def)
  ultimately show ?thesis using assms by (simp add: control_inv_def)
qed

lemma master_effect:
  assumes "masterThreadProc d = Some d'" and "master_inv d"
  shows "master_inv d'" and "di_fault d' = di_fault d" and "di_state d' = di_state d \<or> di_state d = Exiting \<and> di_state d' = Exited"
    and "di_incomingPc d' = di_incomingPc d \<or> di_incomingPc d' = T_check"
    and "di_outgoingPc d' = di_outgoingPc d \<or> di_outgoingPc d' = T_check"
    and "di_handlerPc d' = di_handlerPc d \<or> di_handlerPc d' = T_check"
  using assms unfolding masterThreadProc_def master_inv_def
  by (cases "di_masterPc d"; clarsimp split: if_split_asm; simp add: stopped_def)+

lemma master_control:
  assumes "masterThreadProc d = Some d'" and "control_inv d"
  shows "control_inv d'"
proof -
  have "master_inv d" using assms(2) by (simp add: control_inv_def)
  note e = master_effect [OF assms(1) this]
  show ?thesis using e assms(2) unfolding control_inv_def by (elim disjE) simp_all
qed

lemma moved_source:
  assumes "control_inv d" and "\<not> stopped (di_incomingPc d) \<or> \<not> stopped (di_outgoingPc d) \<or> \<not> stopped (di_handlerPc d)"
  shows "di_source d"
  using assms unfolding control_inv_def master_inv_def stopped_def by (cases "di_masterPc d"; simp)

lemma thread_control: "thread_step timed hb d d' \<Longrightarrow> control_inv d \<Longrightarrow> control_inv d'"
proof (induction rule: thread_step.induct)
  case (incoming r d d')
  note e = incoming_effect [OF incoming.hyps]
  have "di_source d" using moved_source [OF incoming.prems] e(5) by simp
  moreover from this have "\<not> di_fault d'" using e(9) incoming.prems by (simp add: control_inv_def)
  ultimately show ?case
    using e incoming.prems by (intro worker_control [OF incoming.prems]) (auto simp: control_inv_def intro: pc_moves_step)
next
  case (outgoing r d d')
  note e = outgoing_effect [OF outgoing.hyps]
  have "di_source d" using moved_source [OF outgoing.prems] e(5) by simp
  moreover from this have "\<not> di_fault d'" using e(9) outgoing.prems by (simp add: control_inv_def)
  ultimately show ?case
    using e outgoing.prems by (intro worker_control [OF outgoing.prems]) (auto simp: control_inv_def intro: pc_moves_step)
next
  case (handler timeout r d d')
  note e = handler_effect [OF handler.hyps]
  have "di_source d" using moved_source [OF handler.prems] e(5) by simp
  with e handler.prems show ?case
    by (intro worker_control [OF handler.prems]) (auto simp: control_inv_def intro: pc_moves_step)
qed (rule master_control)

lemma client_control: "client_step d d' \<Longrightarrow> control_inv d \<Longrightarrow> control_inv d'"
  by (erule client_step.cases; cases "di_masterPc d")
    (auto simp: control_inv_def master_inv_def lock_free_def MessageDispatcher_send_def MessageDispatcher_startQueueing_def
      MessageDispatcher_startDispatching_def MessageDispatcher_postError_def MessageDispatcher_postQuit_def
      split: if_splits prod.splits sum.splits)

lemma reachable_control: "disp_reachable timed hb d \<Longrightarrow> control_inv d"
proof (induction rule: disp_reachable.induct)
  case (new limits)
  show ?case by (simp add: control_inv_def master_inv_def MessageDispatcher_new_def)
qed (blast intro: thread_control client_control)+

subsection \<open>Data: no message is lost, repeated or reordered\<close>

primrec pushing :: "'e pc \<Rightarrow> 'e list" where
  "pushing T_none = []" | "pushing T_check = []" | "pushing T_get = []" | "pushing (T_push e) = [e]"
| "pushing T_pop = []" | "pushing T_wait = []" | "pushing (T_put e) = []" | "pushing (T_count e) = []"
| "pushing (T_handle e) = []" | "pushing T_idle = []" | "pushing (T_post r) = []" | "pushing T_end = []"

primrec putting :: "'e pc \<Rightarrow> 'e list" where
  "putting T_none = []" | "putting T_check = []" | "putting T_get = []" | "putting (T_push e) = []"
| "putting T_pop = []" | "putting T_wait = []" | "putting (T_put e) = [e]" | "putting (T_count e) = []"
| "putting (T_handle e) = []" | "putting T_idle = []" | "putting (T_post r) = []" | "putting T_end = []"

primrec counting :: "'e pc \<Rightarrow> 'e list" where
  "counting T_none = []" | "counting T_check = []" | "counting T_get = []" | "counting (T_push e) = []"
| "counting T_pop = []" | "counting T_wait = []" | "counting (T_put e) = []" | "counting (T_count e) = [e]"
| "counting (T_handle e) = []" | "counting T_idle = []" | "counting (T_post r) = []" | "counting T_end = []"

definition incoming_inv :: "'e dispatcher \<Rightarrow> bool" where
  "incoming_inv d \<longleftrightarrow>
     (if tq_shutdown (di_incoming d) then prefix (di_handled d @ tq_queue (di_incoming d)) (di_arrived d)
      else di_arrived d = di_handled d @ tq_queue (di_incoming d) @ pushing (di_incomingPc d)) \<and>
     di_receivedCount d = word_of_nat (length (di_handled d))"

definition outgoing_inv :: "('e \<Rightarrow> bool) \<Rightarrow> 'e dispatcher \<Rightarrow> bool" where
  "outgoing_inv heartbeat d \<longleftrightarrow>
     (\<exists>taken. di_accepted d = taken @ tq_queue (di_outgoing d) \<and> subseq (di_written d @ putting (di_outgoingPc d)) taken) \<and>
     di_sentCount d + word_of_nat (length (filter (\<lambda>e. \<not> heartbeat e) (counting (di_outgoingPc d)))) =
       word_of_nat (length (filter (\<lambda>e. \<not> heartbeat e) (di_written d)))"

lemma after_catch_data [simp]: "pushing (after_catch r) = []" "putting (after_catch r) = []" "counting (after_catch r) = []"
  by (simp_all add: after_catch_def split: option.splits)

lemma loop_check_data [simp]:
  "pushing (loop_check T_get d) = []" "putting (loop_check T_pop d) = []" "counting (loop_check T_pop d) = []"
  by (simp_all add: loop_check_def)

lemma incoming_data:
  assumes "incomingThreadProc r d = Some d'"
  shows "incoming_inv d \<Longrightarrow> incoming_inv d'" and "outgoing_inv hb d \<Longrightarrow> outgoing_inv hb d'"
  using assms
  by (cases "di_incomingPc d"; auto simp: incomingThreadProc_def incoming_inv_def outgoing_inv_def queue_defs
      MessageDispatcher_postError_def prefix_def split: if_splits sum.splits prod.splits)+

lemma handler_data:
  assumes "handlerThreadProc timed timeout r d = Some d'"
  shows "incoming_inv d \<Longrightarrow> incoming_inv d'" and "outgoing_inv hb d \<Longrightarrow> outgoing_inv hb d'"
  using assms
  by (cases "di_handlerPc d"; auto simp: handlerThreadProc_def handler_pop_def Let_def incoming_inv_def outgoing_inv_def queue_defs
      MessageDispatcher_postError_def split: if_splits sum.splits prod.splits list.splits option.splits)+

lemma outgoing_data_in:
  assumes "outgoingThreadProc hb r d = Some d'"
  shows "incoming_inv d \<Longrightarrow> incoming_inv d'"
  using assms
  by (cases "di_outgoingPc d"; auto simp: outgoingThreadProc_def incoming_inv_def queue_defs
      MessageDispatcher_postError_def split: if_splits sum.splits prod.splits list.splits option.splits)

lemma subseq_dropped: "subseq (xs @ [e]) ys \<Longrightarrow> subseq xs ys"
  by (rule subseq_order.order_trans [OF list_emb_prefix [OF subseq_order.order_refl]])

lemma outgoing_data_out:
  assumes "outgoingThreadProc hb r d = Some d'" and "outgoing_inv hb d"
  shows "outgoing_inv hb d'"
proof -
  obtain taken where t: "di_accepted d = taken @ tq_queue (di_outgoing d)"
      "subseq (di_written d @ putting (di_outgoingPc d)) taken"
      "di_sentCount d + word_of_nat (length (filter (\<lambda>e. \<not> hb e) (counting (di_outgoingPc d)))) =
        word_of_nat (length (filter (\<lambda>e. \<not> hb e) (di_written d)))"
    using assms(2) by (auto simp: outgoing_inv_def)
  show ?thesis
  proof (cases "di_outgoingPc d")
    case T_pop
    show ?thesis
    proof (cases "tq_shutdown (di_outgoing d)")
      case True
      then show ?thesis using assms T_pop by (auto simp: outgoingThreadProc_def queue_defs outgoing_inv_def)
    next
      case False
      then obtain e es where q: "tq_queue (di_outgoing d) = e # es" 
          "d' = d\<lparr>di_outgoing := (di_outgoing d)\<lparr>tq_queue := es\<rparr>, di_outgoingPc := T_put e\<rparr>"
        using assms(1) T_pop by (auto simp: outgoingThreadProc_def queue_defs split: list.splits)
      have "subseq (di_written d @ [e]) (taken @ [e])" using list_emb_append_mono [of _ "di_written d" taken "[e]" "[e]"] t(2) T_pop by simp
      then show ?thesis using t q T_pop by (auto simp: outgoing_inv_def intro!: exI [of _ "taken @ [e]"])
    qed
  next
    case (T_put e)
    then have s: "subseq (di_written d) taken" "subseq (di_written d @ [e]) taken" using t(2) subseq_dropped by auto
    show ?thesis
    proof (cases "di_source d")
      case False
      then show ?thesis using assms T_put by (auto simp: outgoingThreadProc_def outgoing_inv_def)
    next
      case True
      then show ?thesis using assms(1) T_put t s
        by (cases r) (auto simp: outgoingThreadProc_def outgoing_inv_def)
    qed
  next
    case (T_count e)
    then show ?thesis using assms(1) t by (auto simp: outgoingThreadProc_def outgoing_inv_def)
  next
    case T_check
    then show ?thesis using assms(1) t by (auto simp: outgoingThreadProc_def outgoing_inv_def)
  next
    case (T_post er)
    then show ?thesis using assms(1) t
      by (auto simp: outgoingThreadProc_def outgoing_inv_def MessageDispatcher_postError_def split: if_splits)
  qed (use assms in \<open>simp_all add: outgoingThreadProc_def\<close>)
qed

lemma master_data:
  assumes "masterThreadProc d = Some d'" and "master_inv d"
  shows "incoming_inv d \<Longrightarrow> incoming_inv d'" and "outgoing_inv hb d \<Longrightarrow> outgoing_inv hb d'"
  using assms
  by (cases "di_masterPc d"; auto simp: masterThreadProc_def master_inv_def incoming_inv_def outgoing_inv_def queue_defs
      split: if_splits)+

lemma client_data:
  assumes "client_step d d'"
  shows "incoming_inv d \<Longrightarrow> incoming_inv d'" and "outgoing_inv hb d \<Longrightarrow> outgoing_inv hb d'"
  using assms
  by (cases rule: client_step.cases; auto simp: incoming_inv_def outgoing_inv_def queue_defs MessageDispatcher_send_def
      MessageDispatcher_startQueueing_def MessageDispatcher_startDispatching_def MessageDispatcher_postError_def
      MessageDispatcher_postQuit_def split: if_splits)+

lemma reachable_data: "disp_reachable timed hb d \<Longrightarrow> incoming_inv d \<and> outgoing_inv hb d"
proof (induction rule: disp_reachable.induct)
  case (new limits)
  show ?case by (simp add: incoming_inv_def outgoing_inv_def MessageDispatcher_new_def ThreadsafeQueue_new_def)
next
  case (thread d d')
  then have "master_inv d" using reachable_control by (auto simp: control_inv_def)
  show ?case
    using thread.hyps(2) thread.IH \<open>master_inv d\<close>
    by (cases rule: thread_step.cases)
      (auto intro: incoming_data outgoing_data_in outgoing_data_out handler_data master_data)
next
  case (client d d')
  then show ?case by (blast intro: client_data)
qed

subsection \<open>Exit\<close>

definition exit_inv :: "'e dispatcher \<Rightarrow> bool" where
  "exit_inv d \<longleftrightarrow> (di_state d \<in> {Exiting, Exited} \<longrightarrow> di_exitReason d \<noteq> None) \<and>
     (di_masterPc d \<in> {M_finish, M_done} \<longrightarrow> (\<exists>er. di_observed d = [Some er])) \<and>
     (di_masterPc d \<notin> {M_finish, M_done} \<longrightarrow> di_observed d = []) \<and>
     (di_masterPc d \<in> {M_shutOutgoing, M_shutSource, M_joinIncoming, M_joinOutgoing, M_joinHandler} \<longrightarrow> tq_shutdown (di_incoming d)) \<and>
     (di_masterPc d \<in> {M_shutSource, M_joinIncoming, M_joinOutgoing, M_joinHandler} \<longrightarrow> tq_shutdown (di_outgoing d)) \<and>
     (di_masterPc d \<in> {M_joinIncoming, M_joinOutgoing, M_joinHandler} \<longrightarrow> di_sourceShutdown d)"

text \<open>Workers and clients keep what \<open>exit_inv\<close> speaks of, except that they may set a reason.\<close>

lemma exit_inv_keeps:
  assumes "exit_inv d" and "di_masterPc d' = di_masterPc d" and "di_observed d' = di_observed d"
    and "tq_shutdown (di_incoming d') = tq_shutdown (di_incoming d)" and "tq_shutdown (di_outgoing d') = tq_shutdown (di_outgoing d)"
    and "di_sourceShutdown d' = di_sourceShutdown d"
    and "di_state d' = di_state d \<and> di_exitReason d' = di_exitReason d \<or> di_exitReason d' \<noteq> None"
  shows "exit_inv d'"
  using assms(1,7) unfolding exit_inv_def assms(2-6) by (elim disjE) simp_all

lemma incoming_exit: "incomingThreadProc r d = Some d' \<Longrightarrow> exit_inv d \<Longrightarrow> exit_inv d'"
  by (erule exit_inv_keeps) (cases "di_incomingPc d"; auto simp: incomingThreadProc_def queue_defs
      MessageDispatcher_postError_def split: if_splits sum.splits)+

lemma outgoing_exit: "outgoingThreadProc hb r d = Some d' \<Longrightarrow> exit_inv d \<Longrightarrow> exit_inv d'"
  by (erule exit_inv_keeps) (cases "di_outgoingPc d"; auto simp: outgoingThreadProc_def queue_defs
      MessageDispatcher_postError_def split: if_splits sum.splits list.splits)+

lemma handler_exit: "handlerThreadProc timed timeout r d = Some d' \<Longrightarrow> exit_inv d \<Longrightarrow> exit_inv d'"
  by (erule exit_inv_keeps) (cases "di_handlerPc d"; auto simp: handlerThreadProc_def handler_pop_def Let_def queue_defs
      MessageDispatcher_postError_def split: if_splits sum.splits list.splits)+

lemma master_exit:
  assumes "masterThreadProc d = Some d'" and "master_inv d" and "exit_inv d"
  shows "exit_inv d'"
  using assms unfolding masterThreadProc_def master_inv_def exit_inv_def
  by (cases "di_masterPc d"; clarsimp simp: ThreadsafeQueue_shutdown_def split: if_split_asm)

lemma client_exit: 
  assumes "client_step d d'" and "exit_inv d" and "master_inv d"
  shows "exit_inv d'"
  using assms(1)
proof (cases rule: client_step.cases)
  case (startQueueing r)
  then show ?thesis
    using assms(2,3) by (cases "di_masterPc d") (auto simp: exit_inv_def master_inv_def MessageDispatcher_startQueueing_def split: if_splits)
next
  case (startDispatching limits r)
  then show ?thesis
    using assms(2,3) by (cases "di_masterPc d") (auto simp: exit_inv_def master_inv_def MessageDispatcher_startDispatching_def split: if_splits)
next
  case (send e ok)
  then show ?thesis
    by (intro exit_inv_keeps [OF assms(2)]) (auto simp: MessageDispatcher_send_def queue_defs split: if_splits)
next
  case (postError er)
  then show ?thesis by (intro exit_inv_keeps [OF assms(2)]) (auto simp: MessageDispatcher_postError_def)
next
  case postQuit
  then show ?thesis
    by (intro exit_inv_keeps [OF assms(2)]) (auto simp: MessageDispatcher_postQuit_def split: if_splits)
qed

lemma reachable_exit: "disp_reachable timed hb d \<Longrightarrow> exit_inv d"
proof (induction rule: disp_reachable.induct)
  case (new limits)
  show ?case by (simp add: exit_inv_def MessageDispatcher_new_def)
next
  case (thread d d')
  then have "master_inv d" using reachable_control by (auto simp: control_inv_def)
  show ?case
    using thread.hyps(2) thread.IH \<open>master_inv d\<close>
    by (cases rule: thread_step.cases) (auto intro: incoming_exit outgoing_exit handler_exit master_exit)
next
  case (client d d')
  then have "master_inv d" using reachable_control by (auto simp: control_inv_def)
  with client show ?case by (blast intro: client_exit)
qed

subsection \<open>Once asked to exit, the dispatcher exits\<close>

text \<open>
  The steps that need nothing from outside: the endpoint has to answer only when it has been shut
  down, the handler has to return from the call it is in.
\<close>

inductive own_step :: "bool \<Rightarrow> ('e \<Rightarrow> bool) \<Rightarrow> 'e dispatcher \<Rightarrow> 'e dispatcher \<Rightarrow> bool" for timed heartbeat where
  own_incoming: "incomingThreadProc r d = Some d' \<Longrightarrow> (di_incomingPc d = T_get \<longrightarrow> di_sourceShutdown d) \<Longrightarrow>
    own_step timed heartbeat d d'"
| own_outgoing: "outgoingThreadProc heartbeat r d = Some d' \<Longrightarrow> ((\<exists>e. di_outgoingPc d = T_put e) \<longrightarrow> di_sourceShutdown d) \<Longrightarrow>
    own_step timed heartbeat d d'"
| own_handler: "handlerThreadProc timed timeout r d = Some d' \<Longrightarrow> own_step timed heartbeat d d'"
| own_master: "masterThreadProc d = Some d' \<Longrightarrow> own_step timed heartbeat d d'"

lemma own_step_thread: "own_step timed hb d d' \<Longrightarrow> thread_step timed hb d d'"
  by (auto elim!: own_step.cases intro: thread_step.intros)

primrec pc_work :: "'e pc \<Rightarrow> nat" where
  "pc_work T_none = 0" | "pc_work T_check = 1" | "pc_work T_get = 4" | "pc_work (T_push e) = 3" | "pc_work T_pop = 5"
| "pc_work T_wait = 4" | "pc_work (T_put e) = 3" | "pc_work (T_count e) = 2" | "pc_work (T_handle e) = 3"
| "pc_work T_idle = 3" | "pc_work (T_post r) = 2" | "pc_work T_end = 0"

primrec master_work :: "master_pc \<Rightarrow> nat" where
  "master_work M_none = 0" | "master_work M_start = 10" | "master_work M_waitDispatch = 8" | "master_work M_waitExit = 8"
| "master_work M_shutIncoming = 7" | "master_work M_shutOutgoing = 6" | "master_work M_shutSource = 5"
| "master_work M_joinIncoming = 4" | "master_work M_joinOutgoing = 3" | "master_work M_joinHandler = 2"
| "master_work M_finish = 1" | "master_work M_done = 0"

definition work :: "'e dispatcher \<Rightarrow> nat" where
  "work d = pc_work (di_incomingPc d) + pc_work (di_outgoingPc d) + pc_work (di_handlerPc d) + master_work (di_masterPc d)"

lemma after_catch_work [simp]:
  "pc_work (after_catch r) < 3" "pc_work (after_catch r) < 4" "pc_work (after_catch r) < 5"
  by (simp_all add: after_catch_def split: option.splits)

lemma incoming_work:
  assumes "incomingThreadProc r d = Some d'" and "di_state d = Exiting" and "di_source d"
  shows "pc_work (di_incomingPc d') < pc_work (di_incomingPc d) \<and> di_state d' = Exiting"
  using assms
  by (cases "di_incomingPc d"; auto simp: incomingThreadProc_def loop_check_def queue_defs MessageDispatcher_postError_def
      split: if_splits sum.splits)

lemma outgoing_work:
  assumes "outgoingThreadProc hb r d = Some d'" and "di_state d = Exiting" and "di_source d"
  shows "pc_work (di_outgoingPc d') < pc_work (di_outgoingPc d) \<and> di_state d' = Exiting"
  using assms
  by (cases "di_outgoingPc d"; auto simp: outgoingThreadProc_def loop_check_def queue_defs MessageDispatcher_postError_def
      split: if_splits sum.splits list.splits)

lemma handler_work:
  assumes "handlerThreadProc timed timeout r d = Some d'" and "di_state d = Exiting"
  shows "pc_work (di_handlerPc d') < pc_work (di_handlerPc d) \<and> di_state d' = Exiting"
  using assms
  by (cases "di_handlerPc d"; auto simp: handlerThreadProc_def handler_pop_def Let_def loop_check_def queue_defs
      MessageDispatcher_postError_def split: if_splits sum.splits list.splits)

lemma master_progress:
  assumes "masterThreadProc d = Some d'" and "control_inv d" and "di_state d = Exiting"
  shows "work d' < work d \<and> (di_state d' = Exiting \<or> di_masterPc d' = M_done)"
proof -
  have "master_inv d" using assms(2) by (simp add: control_inv_def)
  then show ?thesis
    using assms(1,3) unfolding masterThreadProc_def master_inv_def work_def
    by (cases "di_masterPc d"; clarsimp simp: assms(3) split: if_split_asm)
qed

lemma thread_step_work:
  assumes "thread_step timed hb d d'" and "control_inv d" and "di_state d = Exiting"
  shows "work d' < work d \<and> (di_state d' = Exiting \<or> di_masterPc d' = M_done)"
  using assms(1)
proof (cases rule: thread_step.cases)
  case (incoming r)
  note e = incoming_effect [OF incoming]
  then have "di_source d" using moved_source [OF assms(2)] by simp
  with incoming_work [OF incoming assms(3)] e(1-3) show ?thesis by (simp add: work_def)
next
  case (outgoing r)
  note e = outgoing_effect [OF outgoing]
  then have "di_source d" using moved_source [OF assms(2)] by simp
  with outgoing_work [OF outgoing assms(3)] e(1-3) show ?thesis by (simp add: work_def)
next
  case (handler timeout r)
  with handler_work [OF handler assms(3)] handler_effect(1-3) [OF handler] show ?thesis by (simp add: work_def)
next
  case master
  then show ?thesis by (rule master_progress [OF _ assms(2,3)])
qed

text \<open>A master that has finished leaves nothing to do.\<close>

lemma done_no_step:
  assumes "control_inv d" and "di_masterPc d = M_done"
  shows "\<not> thread_step timed hb d d'"
proof
  assume "thread_step timed hb d d'"
  moreover have "stopped (di_incomingPc d)" "stopped (di_outgoingPc d)" "stopped (di_handlerPc d)"
    using assms by (auto simp: control_inv_def master_inv_def stopped_def)
  ultimately show False
    using assms(2)
    by (cases rule: thread_step.cases)
      (auto dest: incoming_effect(5) outgoing_effect(5) handler_effect(5) simp: masterThreadProc_def)
qed

lemma own_step_exists:
  assumes "control_inv d" and "exit_inv d" and "di_state d = Exiting" and "di_masterPc d \<notin> {M_none, M_done}"
  shows "\<exists>d'. own_step timed hb d d'"
proof (cases "masterThreadProc d")
  case (Some d')
  then show ?thesis by (blast intro: own_master)
next
  case None
  have inv: "master_inv d" "di_source d \<or> di_masterPc d = M_finish" using assms(1,4)
    by (cases "di_masterPc d"; simp add: control_inv_def master_inv_def)+
  have pts: "incoming_point (di_incomingPc d)" "outgoing_point (di_outgoingPc d)" "handler_point (di_handlerPc d)"
    using assms(1) by (simp_all add: control_inv_def)
  consider (i) "di_masterPc d = M_joinIncoming" "\<not> stopped (di_incomingPc d)"
    | (o) "di_masterPc d = M_joinOutgoing" "\<not> stopped (di_outgoingPc d)"
    | (h) "di_masterPc d = M_joinHandler" "\<not> stopped (di_handlerPc d)"
    using None assms(3,4) inv by (cases "di_masterPc d") (auto simp: masterThreadProc_def stopped_def split: if_splits)
  then show ?thesis
  proof cases
    case i
    then have "di_sourceShutdown d" "lock_free d" "di_source d"
      using assms(2) inv(2) by (auto simp: exit_inv_def lock_free_def)
    then have "\<exists>d'. incomingThreadProc (Inl (ShutdownException [])) d = Some d'"
      using i pts(1) by (cases "di_incomingPc d") (auto simp: incomingThreadProc_def stopped_def split: prod.splits sum.splits)
    with \<open>di_sourceShutdown d\<close> show ?thesis by (blast intro: own_incoming)
  next
    case o
    then have "di_sourceShutdown d" "lock_free d" "di_source d" "tq_shutdown (di_outgoing d)"
      using assms(2) inv(2) by (auto simp: exit_inv_def lock_free_def)
    then have "\<exists>d'. outgoingThreadProc hb (Inl (ShutdownException [])) d = Some d'"
      using o pts(2) by (cases "di_outgoingPc d") (auto simp: outgoingThreadProc_def stopped_def queue_defs)
    with \<open>di_sourceShutdown d\<close> show ?thesis by (blast intro: own_outgoing)
  next
    case h
    then have "lock_free d" "tq_shutdown (di_incoming d)"
      using assms(2) by (auto simp: exit_inv_def lock_free_def)
    then have "\<exists>d'. handlerThreadProc timed False (Inr ()) d = Some d'"
      using h pts(3) by (cases "di_handlerPc d") (auto simp: handlerThreadProc_def handler_pop_def stopped_def queue_defs)
    then show ?thesis by (blast intro: own_handler)
  qed
qed

lemma own_steps:
  assumes "(own_step timed hb ^^ n) d d'" and "disp_reachable timed hb d" and "di_state d = Exiting"
  shows "disp_reachable timed hb d' \<and> n + work d' \<le> work d \<and> (di_state d' = Exiting \<or> di_masterPc d' = M_done) \<and>
    (di_masterPc d \<noteq> M_none \<longrightarrow> di_masterPc d' \<noteq> M_none)"
  using assms(1)
proof (induction n arbitrary: d')
  case 0
  then show ?case using assms by simp
next
  case (Suc n)
  then obtain e where e: "(own_step timed hb ^^ n) d e" "own_step timed hb e d'" by auto
  note IH = Suc.IH [OF e(1)]
  note step = own_step_thread [OF e(2)]
  have c: "control_inv e" using IH reachable_control by blast
  have st: "di_state e = Exiting" using IH done_no_step [OF c] step by blast
  have "di_masterPc e \<noteq> M_none \<longrightarrow> di_masterPc d' \<noteq> M_none"
    using e(2) c unfolding control_inv_def
    by (cases rule: own_step.cases)
      (auto dest: incoming_effect(1) outgoing_effect(1) handler_effect(1) simp: masterThreadProc_def split: master_pc.splits if_splits)
  with IH thread_step_work [OF step c st] step show ?case by (auto intro: disp_reachable.thread)
qed

lemma pc_work_le: "pc_work p \<le> 5"
  by (cases p) simp_all

lemma master_work_le: "master_work m \<le> 10"
  by (cases m) simp_all

lemma work_bound: "work d \<le> 25"
  using pc_work_le [of "di_incomingPc d"] pc_work_le [of "di_outgoingPc d"] pc_work_le [of "di_handlerPc d"]
    master_work_le [of "di_masterPc d"] by (simp add: work_def)

lemma exits_at:
  assumes "disp_reachable timed hb d" and "di_state d = Exiting" and "di_masterPc d \<notin> {M_none, M_done}"
    and "(own_step timed hb ^^ n) d d'" and "\<nexists>d''. own_step timed hb d' d''"
  shows "di_masterPc d' = M_done \<and> stopped (di_incomingPc d') \<and> stopped (di_outgoingPc d') \<and> stopped (di_handlerPc d') \<and>
    (\<exists>er. MessageDispatcher_waitForExit d' = Some (Some er))"
proof -
  note s = own_steps [OF assms(4,1,2)]
  then have c: "control_inv d'" "exit_inv d'" using reachable_control reachable_exit by blast+
  have "di_masterPc d' = M_done"
    using own_step_exists [OF c] s assms(3,5) by blast
  with c show ?thesis
    by (auto simp: control_inv_def master_inv_def exit_inv_def stopped_def MessageDispatcher_waitForExit_def)
qed

lemma exits_somewhere:
  assumes "disp_reachable timed hb d" and "di_state d = Exiting"
  shows "\<exists>n d'. (own_step timed hb ^^ n) d d' \<and> (\<nexists>d''. own_step timed hb d' d'')"
proof (rule ccontr)
  assume none: "\<not> ?thesis"
  have "\<exists>d'. (own_step timed hb ^^ n) d d'" for n
  proof (induction n)
    case (Suc n)
    then show ?case using none by (metis relpowp_Suc_I)
  qed simp
  then obtain d' where "(own_step timed hb ^^ 26) d d'" by blast
  from own_steps [OF this assms] work_bound [of d] show False by simp
qed

subsection \<open>Properties\<close>


definition sample_queueing :: "nat dispatcher" where
  "sample_queueing = (MessageDispatcher_new (ExecutionLimits_default {}))\<lparr>di_source := True, di_state := Queueing,
     di_masterPc := M_waitDispatch, di_incomingPc := T_push 7, di_arrived := [7]\<rparr>"

lemma sample_queueing_reachable: "disp_reachable timed hb sample_queueing"
proof -
  let ?d0 = "MessageDispatcher_new (ExecutionLimits_default {}) :: nat dispatcher"
  let ?d1 = "?d0\<lparr>di_source := True, di_state := Queueing, di_masterPc := M_start\<rparr>"
  let ?d2 = "?d1\<lparr>di_incomingPc := T_check, di_masterPc := M_waitDispatch\<rparr>"
  let ?d3 = "?d2\<lparr>di_incomingPc := T_get\<rparr>"
  note defs = MessageDispatcher_new_def lock_free_def MessageDispatcher_startQueueing_def masterThreadProc_def
    incomingThreadProc_def loop_check_def
  have "disp_reachable timed hb ?d1"
    by (rule disp_reachable.client [OF disp_reachable.new startQueueing]) (simp_all add: defs)
  then have "disp_reachable timed hb ?d2"
    by (rule disp_reachable.thread [OF _ master]) (simp add: defs)
  then have "disp_reachable timed hb ?d3"
    by (rule disp_reachable.thread [OF _ incoming]) (simp add: defs)
  then show ?thesis
    by (rule disp_reachable.thread [OF _ incoming [where r = "Inr 7"]]) (simp add: defs sample_queueing_def)
qed


text \<open>
  C2 (invariant). Messages keep their order and none is repeated: those handled, followed by those in the
  incoming queue, are an initial part of those that arrived - all of them, but for the one being pushed,
  until the queue is shut down; those written to the endpoint are a subsequence of those accepted for
  sending; and the two counters count the messages handled and the messages written that are not
  heartbeats, modulo \<open>2 ^ 64\<close> and up to the one written but not yet counted.
\<close>

theorem dispatcher_message_order:
  assumes "disp_reachable timed heartbeat d"
  shows "prefix (di_handled d @ tq_queue (di_incoming d)) (di_arrived d) \<and>
    (\<not> tq_shutdown (di_incoming d) \<longrightarrow>
       di_arrived d = di_handled d @ tq_queue (di_incoming d) @ pushing (di_incomingPc d)) \<and>
    subseq (di_written d @ putting (di_outgoingPc d) @ tq_queue (di_outgoing d)) (di_accepted d) \<and>
    di_receivedCount d = word_of_nat (length (di_handled d)) \<and>
    di_sentCount d + word_of_nat (length (filter (\<lambda>e. \<not> heartbeat e) (counting (di_outgoingPc d)))) =
      word_of_nat (length (filter (\<lambda>e. \<not> heartbeat e) (di_written d)))"
proof -
  note inv = reachable_data [OF assms]
  obtain taken where "di_accepted d = taken @ tq_queue (di_outgoing d)" "subseq (di_written d @ putting (di_outgoingPc d)) taken"
    using inv by (auto simp: outgoing_inv_def)
  then have "subseq (di_written d @ putting (di_outgoingPc d) @ tq_queue (di_outgoing d)) (di_accepted d)"
    using list_emb_append_mono [of _ "di_written d @ putting (di_outgoingPc d)" taken "tq_queue (di_outgoing d)"] by simp
  moreover have "prefix (di_handled d @ tq_queue (di_incoming d)) (di_arrived d)"
    using inv by (cases "tq_shutdown (di_incoming d)") (auto simp: incoming_inv_def prefix_def)
  ultimately show ?thesis using inv by (simp add: incoming_inv_def outgoing_inv_def)
qed

theorem dispatcher_message_order_witness:
  "prefix (di_handled sample_queueing @ tq_queue (di_incoming sample_queueing)) [7] \<and> di_arrived sample_queueing = [7]"
  using dispatcher_message_order [OF sample_queueing_reachable [of True "\<lambda>_. False"]] by (simp add: sample_queueing_def)

text \<open>
  C9 (termination). Once a started dispatcher has been asked to exit, it exits: its threads take at most
  25 more steps of their own, and when they can take no more, all have ended and \<open>waitForExit\<close> returns
  with a reason. The only help needed from outside is that the endpoint answers calls once it has been
  shut down and that the message handler returns from the call it is in.
\<close>

theorem dispatcher_exits:
  assumes "disp_reachable timed heartbeat d" and "di_state d = Exiting" and "di_masterPc d \<notin> {M_none, M_done}"
    and "(own_step timed heartbeat ^^ n) d d'"
  shows "n \<le> 25 \<and> ((\<nexists>d''. own_step timed heartbeat d' d'') \<longrightarrow>
    di_masterPc d' = M_done \<and> stopped (di_incomingPc d') \<and> stopped (di_outgoingPc d') \<and> stopped (di_handlerPc d') \<and>
    (\<exists>er. MessageDispatcher_waitForExit d' = Some (Some er)))"
  using exits_at [OF assms] own_steps [OF assms(4,1,2)] work_bound [of d] by auto

definition sample_exiting :: "nat dispatcher" where
  "sample_exiting = MessageDispatcher_postQuit sample_queueing"

lemma sample_exiting_reachable: "disp_reachable timed hb sample_exiting"
  unfolding sample_exiting_def
  by (rule disp_reachable.client [OF sample_queueing_reachable postQuit]) (simp add: lock_free_def sample_queueing_def)

theorem dispatcher_exits_witness:
  "\<exists>n d'. (own_step True (\<lambda>_. False) ^^ n) sample_exiting d' \<and> n \<le> 25 \<and>
     (\<exists>er. MessageDispatcher_waitForExit d' = Some (Some er))"
proof -
  have st: "di_state sample_exiting = Exiting" "di_masterPc sample_exiting \<notin> {M_none, M_done}"
    by (simp_all add: sample_exiting_def MessageDispatcher_postQuit_def sample_queueing_def)
  obtain n d' where "(own_step True (\<lambda>_. False) ^^ n) sample_exiting d'" "\<nexists>d''. own_step True (\<lambda>_. False) d' d''"
    using exits_somewhere [OF sample_exiting_reachable st(1)] by blast
  with dispatcher_exits [OF sample_exiting_reachable st this(1)] show ?thesis by blast
qed

text \<open>
  \<open>postError\<close> has no guard against a dispatcher that has exited, as \<open>postQuit\<close> has: a late
  error takes a dispatcher whose threads have all ended from \<open>Exited\<close> back to \<open>Exiting\<close> and replaces
  the reason that was reported to the observer.
\<close>

theorem error_after_exit:
  "\<exists>d. disp_reachable timed (heartbeat :: nat \<Rightarrow> bool) d \<and> di_masterPc d = M_done \<and> di_state d = Exiting \<and>
     di_observed d \<noteq> [di_exitReason d]"
proof -
  have st: "di_state sample_exiting = Exiting" "di_masterPc sample_exiting \<notin> {M_none, M_done}"
    by (simp_all add: sample_exiting_def MessageDispatcher_postQuit_def sample_queueing_def)
  obtain n d' where d': "(own_step timed heartbeat ^^ n) sample_exiting d'" "\<nexists>d''. own_step timed heartbeat d' d''"
    using exits_somewhere [OF sample_exiting_reachable st(1)] by blast
  have r: "disp_reachable timed heartbeat d'" and m: "di_masterPc d' = M_done"
    using own_steps [OF d'(1) sample_exiting_reachable st(1)] exits_at [OF sample_exiting_reachable st d'] by simp_all
  obtain er where er: "di_observed d' = [Some er]" using reachable_exit [OF r] m by (auto simp: exit_inv_def)
  obtain er' where "er' \<noteq> er" using exit_reason.distinct(1) by metis
  then have "di_observed (MessageDispatcher_postError er' d') \<noteq> [di_exitReason (MessageDispatcher_postError er' d')]"
    using er by (simp add: MessageDispatcher_postError_def)
  moreover have "disp_reachable timed heartbeat (MessageDispatcher_postError er' d')"
    by (rule disp_reachable.client [OF r postError]) (simp add: lock_free_def m)
  ultimately show ?thesis
    using m by (intro exI [of _ "MessageDispatcher_postError er' d'"]) (simp add: MessageDispatcher_postError_def)
qed

end
