(* ===== verification/Computations.thy ===== *)
theory Computations
  imports Session_Definitions Chunking Routing Dispatcher Core_Messages
begin

text \<open>
  The process side of a computation (\<^verbatim>\<open>computation_impl\<close>): the endpoint that takes control messages out of
  the stream, \<open>CompEnvironmentImpl\<close> with the run of a computation as a state machine over the message
  dispatcher, and the performance monitor that sends heartbeats.

  A computation is a plug-in: the record \<open>computation_ops\<close> of its virtual functions on a state of its own.
  The reading of \<^verbatim>\<open>/proc\<close> is an argument, and processor times are exact fractions of a second (the code adds
  them up in double precision). Traces and log output are left out.
\<close>

subsection \<open>Reasons to exit\<close>

datatype comp_exit_reason = CER_None | CER_Quit | CER_Disconnected | CER_MessageError | CER_HandlerError
  | CER_StateError | CER_Timeout | CER_StartException | CER_StopException

primrec computationExitReasonAsString :: "comp_exit_reason \<Rightarrow> string" where
  "computationExitReasonAsString CER_None = dispatcherExitReasonAsString ER_None"
| "computationExitReasonAsString CER_Quit = dispatcherExitReasonAsString ER_Quit"
| "computationExitReasonAsString CER_Disconnected = dispatcherExitReasonAsString ER_Disconnected"
| "computationExitReasonAsString CER_MessageError = dispatcherExitReasonAsString ER_MessageError"
| "computationExitReasonAsString CER_HandlerError = dispatcherExitReasonAsString ER_HandlerError"
| "computationExitReasonAsString CER_StateError = ''trying to run from an invalid starting state''"
| "computationExitReasonAsString CER_Timeout = ''timed out waiting for computation start signal''"
| "computationExitReasonAsString CER_StartException = ''exception in computation(start)''"
| "computationExitReasonAsString CER_StopException = ''exception in computation(stop)''"

primrec dispatcherToComputationExitReason :: "exit_reason \<Rightarrow> comp_exit_reason" where
  "dispatcherToComputationExitReason ER_None = CER_None"
| "dispatcherToComputationExitReason ER_Quit = CER_Quit"
| "dispatcherToComputationExitReason ER_Disconnected = CER_Disconnected"
| "dispatcherToComputationExitReason ER_MessageError = CER_MessageError"
| "dispatcherToComputationExitReason ER_HandlerError = CER_HandlerError"

subsection \<open>The computation\<close>

datatype api_result = R_Success | R_Unknown | R_Ignored | R_Invalid

record ('c, 'j, 'm) computation_ops =
  cp_property :: "string \<Rightarrow> ('c, 'j) proc"
  cp_configure :: "string \<Rightarrow> 'j \<Rightarrow> ('c, api_result) proc"
  cp_onMessage :: "'m \<Rightarrow> ('c, api_result) proc"
  cp_onIdle :: "('c, unit) proc"

text \<open>What \<open>Computation\<close> itself provides.\<close>

definition Computation_property :: "('j, 'z) json_obj_scheme \<Rightarrow> string \<Rightarrow> ('c, 'j) proc" where
  "Computation_property J name = ret (js_null J)"

definition Computation_onIdle :: "('c, unit) proc" where
  "Computation_onIdle = ret ()"

text \<open>
  Loading a computation. The loader: \<open>dlopen\<close> gives a handle or nothing, \<open>dlsym\<close> whether the symbol is there,
  the creation function a computation or a null pointer; \<open>dlerror\<close> may have a text. \<open>dlclose\<close> on an error
  leaves nothing behind.
\<close>

record 'c loader =
  ld_open :: "string \<Rightarrow> nat option"
  ld_symbol :: "nat \<Rightarrow> string \<Rightarrow> bool"
  ld_create :: "nat \<Rightarrow> 'c option"
  ld_error :: "string option"

definition safeDlerror :: "'c loader \<Rightarrow> string" where
  "safeDlerror L = (case ld_error L of Some e \<Rightarrow> e | None \<Rightarrow> ''No dynamic loading error was reported'')"

definition COMPUTATION_CREATE_FUNC :: string where
  "COMPUTATION_CREATE_FUNC = ''_create_computation''"

definition ComputationHandle_new :: "'c loader \<Rightarrow> string \<Rightarrow> exn + nat \<times> 'c" where
  "ComputationHandle_new L dsoName =
     (case ld_open L dsoName of
        None \<Rightarrow> Inl (ComputationLoadError (''Failed to load computation dso '' @ in_quotes dsoName @ '': '' @ safeDlerror L))
      | Some dso \<Rightarrow>
          if \<not> ld_symbol L dso COMPUTATION_CREATE_FUNC
          then Inl (ComputationLoadError (''Failed to load symbol '' @ in_quotes COMPUTATION_CREATE_FUNC @
            '' from computation dso '' @ in_quotes dsoName @ '': '' @ safeDlerror L))
          else (case ld_create L dso of
                  None \<Rightarrow> Inl (ComputationLoadError (''Computation creation failed in computation dso '' @ in_quotes dsoName @
                    '': '' @ safeDlerror L))
                | Some c \<Rightarrow> Inr (dso, c)))"

subsection \<open>CompEnvironmentImpl\<close>

record ('c, 'e) comp_env =
  cv_name :: string
  cv_computation :: 'c
  cv_address :: address
  cv_addresser :: addresser
  cv_dispatcher :: "'e dispatcher"
  cv_go :: bool
  cv_chunkingConfig :: chunking_config

definition CompEnvironmentImpl_new :: "'c loader \<Rightarrow> execution_limits \<Rightarrow> string \<Rightarrow> string \<Rightarrow> address \<Rightarrow> exn + ('c, 'e) comp_env" where
  "CompEnvironmentImpl_new L defaultLimits name dsoName a =
     (case ComputationHandle_new L dsoName of
        Inl e \<Rightarrow> Inl e
      | Inr (dso, c) \<Rightarrow> Inr \<lparr>cv_name = name, cv_computation = c, cv_address = a, cv_addresser = Addresser_new,
          cv_dispatcher = MessageDispatcher_new defaultLimits, cv_go = False, cv_chunkingConfig = ChunkingConfig_default\<rparr>)"

definition on_addresser :: "(addresser, 'a) proc \<Rightarrow> (('c, 'e) comp_env, 'a) proc" where
  "on_addresser = zoom cv_addresser (\<lambda>a v. v\<lparr>cv_addresser := a\<rparr>)"

definition on_computation :: "('c, 'a) proc \<Rightarrow> (('c, 'e) comp_env, 'a) proc" where
  "on_computation = zoom cv_computation (\<lambda>c v. v\<lparr>cv_computation := c\<rparr>)"

definition CompEnvironmentImpl_setRouting ::
  "'u uuid_api_scheme \<Rightarrow> ('j, 'z) json_obj_scheme \<Rightarrow> 'j \<Rightarrow> (('c, 'e) comp_env, bool) proc" where
  "CompEnvironmentImpl_setRouting U J routing =
     bindp (gets cv_address) (\<lambda>a.
     bindp (liftr (js_get J routing (UUID_toString U (ad_session a)))) (\<lambda>s.
     bindp (liftr (js_get J s ''computations'')) (\<lambda>mapObj.
       if js_isNull J mapObj \<or> \<not> js_isObject J mapObj then ret False
       else bindp (liftr (ComputationMap_new U J (ad_session a) mapObj)) (\<lambda>computationMap.
         bindp (liftr (js_get J routing ''messageFilter'')) (\<lambda>filterObj.
           if js_isNull J filterObj \<or> \<not> js_isObject J filterObj then ret False
           else seqp (on_addresser (Addresser_update U J (ad_computation a) computationMap filterObj)) (ret True))))))"

text \<open>
  Sending. \<open>fresh\<close> is what the metadata of a new envelope starts with (two new identifiers and the time) and
  \<open>trace\<close> whether the trace level asks for tracing. The result is the envelope the returned message shares.
\<close>

definition CompEnvironmentImpl_send ::
  "'u uuid_api_scheme \<Rightarrow> ('j, 'z) json_obj_scheme \<Rightarrow> ('o, 'y) object_class_scheme \<Rightarrow> uuid \<times> uuid \<times> arras_time \<Rightarrow> bool \<Rightarrow>
     'o content \<Rightarrow> 'j \<Rightarrow> (('c, 'o envelope) comp_env, 'o envelope) proc" where
  "CompEnvironmentImpl_send U J cls fresh trace content options =
     (case fresh of (iid, sid, now) \<Rightarrow>
     bindp (liftr (MetadataImpl_new_options U J (Some (content_defaultRoutingName cls content)) options iid sid now)) (\<lambda>md.
     bindp (liftr (js_get J options ''sendTo'')) (\<lambda>dest.
     bindp (gets cv_addresser) (\<lambda>ar.
     bindp (\<lambda>v. case (if js_isNull J dest then Addresser_address ar
                      else bindp (Addresser_addressTo U J ar dest) (\<lambda>_. ret ()))
                     \<lparr>en_content = Some content, en_metadata = Some md, en_to = []\<rparr> of
                  (Inl e, env) \<Rightarrow> (Inl e, v) | (Inr _, env) \<Rightarrow> (Inr env, v)) (\<lambda>env.
       let env = (if trace then env\<lparr>en_metadata := map_option (\<lambda>m. m\<lparr>md_trace := True\<rparr>) (en_metadata env)\<rparr> else env) in
       seqp (upd (\<lambda>v. v\<lparr>cv_dispatcher := snd (MessageDispatcher_send env (cv_dispatcher v))\<rparr>)) (ret env))))))"

definition CompEnvironmentImpl_environment ::
  "'u uuid_api_scheme \<Rightarrow> ('j, 'z) json_obj_scheme \<Rightarrow> string \<Rightarrow> ('c, 'e) comp_env \<Rightarrow> exn + 'j" where
  "CompEnvironmentImpl_environment U J name v =
     (if name = ''arras.apiVersion'' then Inr (js_ofString J ''4.0.0'')
      else if name = ''computation.name'' then Inr (js_ofString J (cv_name v))
      else if name = ''computation.address'' then
        (case Address_toObject U J (cv_address v) (js_null J) of (Inl e, _) \<Rightarrow> Inl e | (Inr _, addr) \<Rightarrow> Inr addr)
      else Inr (js_null J))"

definition CompEnvironmentImpl_setEnvironment :: "string \<Rightarrow> 'j \<Rightarrow> api_result" where
  "CompEnvironmentImpl_setEnvironment name val = R_Unknown"

definition CompEnvironmentImpl_handleMessage :: "('c, 'j, 'm) computation_ops \<Rightarrow> 'm \<Rightarrow> (('c, 'e) comp_env, unit) proc" where
  "CompEnvironmentImpl_handleMessage C message =
     bindp (on_computation (cp_onMessage C message)) (\<lambda>r.
       if r = R_Invalid then raise (MessageFormatError (''Computation::onMessage() returned '' @ in_quotes ''Invalid'')) else ret ())"

definition CompEnvironmentImpl_onIdle :: "('c, 'j, 'm) computation_ops \<Rightarrow> (('c, 'e) comp_env, unit) proc" where
  "CompEnvironmentImpl_onIdle C = on_computation (cp_onIdle C)"

subsection \<open>Configuring\<close>

text \<open>
  \<open>config[k].isIntegral()\<close>, then \<open>config[k].asInt()\<close>. Both go through the mutable \<open>operator[]\<close>, which leaves a
  null member where there was none.
\<close>

definition ref_int :: "('j, 'z) json_obj_scheme \<Rightarrow> string \<Rightarrow> ('j, int option) proc" where
  "ref_int J k =
     bindp (js_ref J k) (\<lambda>v. if js_isIntegral J v then bindp (liftr (js_asInt J v)) (\<lambda>i. ret (Some i)) else ret None)"

definition ONE_MEG :: int where "ONE_MEG = 1024 * 1024"

text \<open>The sum of the two settings of a size, as a \<open>size_t\<close>.\<close>

definition ref_size :: "('j, 'z) json_obj_scheme \<Rightarrow> string \<Rightarrow> string \<Rightarrow> ('j, nat) proc" where
  "ref_size J mb bytes =
     bindp (ref_int J mb) (\<lambda>a. bindp (ref_int J bytes) (\<lambda>b.
       ret (nat (((case a of None \<Rightarrow> 0 | Some i \<Rightarrow> i * ONE_MEG) + (case b of None \<Rightarrow> 0 | Some i \<Rightarrow> i)) mod 2 ^ 64))))"

definition on_snd :: "('s, 'a) proc \<Rightarrow> ('x \<times> 's, 'a) proc" where
  "on_snd = zoom snd (\<lambda>s (x, _). (x, s))"

definition on_fst :: "('x, 'a) proc \<Rightarrow> ('x \<times> 's, 'a) proc" where
  "on_fst = zoom fst (\<lambda>x (_, s). (x, s))"

definition CompEnvironmentImpl_applyChunkingConfig ::
  "('j, 'z) json_obj_scheme \<Rightarrow> (chunking_config \<times> 'j, unit) proc" where
  "CompEnvironmentImpl_applyChunkingConfig J =
     bindp (on_snd (js_ref J ''chunking'')) (\<lambda>v.
     seqp (if js_isBool J v then bindp (liftr (js_asBool J v)) (\<lambda>b. on_fst (upd (\<lambda>cc. cc\<lparr>cc_enabled := b\<rparr>))) else ret ())
     (bindp (on_snd (ref_size J ''minChunkingMb'' ''minChunkingBytes'')) (\<lambda>n.
      seqp (if n \<noteq> 0 then on_fst (upd (\<lambda>cc. cc\<lparr>cc_minChunkingSize := n\<rparr>)) else ret ())
      (bindp (on_snd (ref_size J ''chunkSizeMb'' ''chunkSizeBytes'')) (\<lambda>n.
       if n \<noteq> 0 then on_fst (upd (\<lambda>cc. cc\<lparr>cc_chunkSize := n\<rparr>)) else ret ())))))"

text \<open>The state: the environment, the limits and the configuration of the computation.\<close>

definition CompEnvironmentImpl_initializeComputation ::
  "('j, 'z) json_obj_scheme \<Rightarrow> ('c, 'j, 'm) computation_ops \<Rightarrow>
     (('c, 'e) comp_env \<times> execution_limits \<times> 'j, api_result) proc" where
  "CompEnvironmentImpl_initializeComputation J C =
     seqp (zoom (\<lambda>(v, l, c). (cv_chunkingConfig v, c)) (\<lambda>(cc, c) (v, l, _). (v\<lparr>cv_chunkingConfig := cc\<rparr>, l, c))
             (CompEnvironmentImpl_applyChunkingConfig J))
     (bindp (on_fst (on_computation (cp_property C ''arras.wantsHyperthreading''))) (\<lambda>wants.
      bindp (liftr (if js_isBool J wants then js_asBool J wants else Inr False)) (\<lambda>ht.
      seqp (if ht then ret () else on_snd (on_fst (upd ExecutionLimits_disableHyperthreading)))
      (bindp (gets (fst \<circ> snd)) (\<lambda>l.
       seqp (on_snd (on_snd (js_put J ''limits.maxMemoryMB'' (js_ofUInt J (unat (xl_maxMemoryMB l))))))
       (seqp (on_snd (on_snd (js_put J ''limits.maxThreads'' (js_ofUInt J (unat (ExecutionLimits_maxThreads l))))))
       (bindp (gets (snd \<circ> snd)) (\<lambda>config. on_fst (on_computation (cp_configure C ''initialize'' config))))))))))"

subsection \<open>Control messages\<close>

definition CompEnvironmentImpl_signalGo :: "('c, 'e) comp_env \<Rightarrow> ('c, 'e) comp_env" where
  "CompEnvironmentImpl_signalGo v = v\<lparr>cv_go := True\<rparr>"

definition CompEnvironmentImpl_signalStop :: "('c, 'e) comp_env \<Rightarrow> ('c, 'e) comp_env" where
  "CompEnvironmentImpl_signalStop v =
     (let v = CompEnvironmentImpl_signalGo v in v\<lparr>cv_dispatcher := MessageDispatcher_postQuit (cv_dispatcher v)\<rparr>)"

text \<open>Data that is not an object is reported, and then taken as a null value.\<close>

definition update_routing ::
  "'u uuid_api_scheme \<Rightarrow> ('j, 'z) json_obj_scheme \<Rightarrow> 'j \<Rightarrow> (('c, 'e) comp_env, unit) proc" where
  "update_routing U J dataObj v =
     (case js_ref J ''routing'' dataObj of
        (Inl e, _) \<Rightarrow> (Inl e, v)
      | (Inr routing, _) \<Rightarrow>
          if js_isObject J routing \<and> \<not> js_isNull J routing
          then bindp (CompEnvironmentImpl_setRouting U J routing) (\<lambda>_. ret ()) v else (Inr (), v))"

definition CompEnvironmentImpl_signalUpdate ::
  "'u uuid_api_scheme \<Rightarrow> ('j, 'z) json_obj_scheme \<Rightarrow> string \<Rightarrow> (('c, 'e) comp_env, unit) proc" where
  "CompEnvironmentImpl_signalUpdate U J text v = update_routing U J (snd (stringToObject J text (js_null J))) v"

definition CompEnvironmentImpl_controlMessage ::
  "'u uuid_api_scheme \<Rightarrow> ('j, 'z) json_obj_scheme \<Rightarrow> string \<Rightarrow> string \<Rightarrow> (('c, 'e) comp_env, unit) proc" where
  "CompEnvironmentImpl_controlMessage U J command text =
     (if command = ''go'' then upd CompEnvironmentImpl_signalGo
      else if command = ''stop'' then upd CompEnvironmentImpl_signalStop
      else if command = ''abort'' then upd CompEnvironmentImpl_signalStop
      else if command = ''update'' then CompEnvironmentImpl_signalUpdate U J text
      else ret ())"

text \<open>
  The endpoint filter: \<open>control\<close> recognises a control message (by its class) and gives its command and data, if
  it is one of the known type; the controlled object and the source are the two parts of the state. \<open>None\<close>:
  the source delivers control messages for ever.
\<close>

definition processControlMessage ::
  "('m \<Rightarrow> (string \<times> string) option option) \<Rightarrow> (string \<Rightarrow> string \<Rightarrow> ('d, unit) proc) \<Rightarrow> 'm \<Rightarrow> ('d, bool) proc" where
  "processControlMessage control controlled env =
     (case control env of
        None \<Rightarrow> ret False
      | Some None \<Rightarrow> ret True
      | Some (Some (command, text)) \<Rightarrow> seqp (controlled command text) (ret True))"

partial_function (option) ControlMessageEndpoint_getEnvelope ::
  "('s, 'm) proc \<Rightarrow> ('m \<Rightarrow> (string \<times> string) option option) \<Rightarrow> (string \<Rightarrow> string \<Rightarrow> ('d, unit) proc) \<Rightarrow>
     's \<times> 'd \<Rightarrow> ((exn + 'm) \<times> 's \<times> 'd) option" where
  "ControlMessageEndpoint_getEnvelope src control controlled w =
     (case src (fst w) of
        (Inl e, s) \<Rightarrow> Some (Inl e, s, snd w)
      | (Inr env, s) \<Rightarrow>
          (case processControlMessage control controlled env (snd w) of
             (Inl e, d) \<Rightarrow> Some (Inl e, s, d)
           | (Inr handled, d) \<Rightarrow>
               if handled then ControlMessageEndpoint_getEnvelope src control controlled (s, d) else Some (Inr env, s, d)))"

declare ControlMessageEndpoint_getEnvelope.simps [code]

subsection \<open>PerformanceMonitor\<close>

text \<open>
  Where the monitor's thread is: not made, made but not yet running, before a round, waiting for the next one,
  ended.
\<close>

datatype monitor_pc = PM_none | PM_new | PM_round | PM_wait | PM_end

record perf_monitor =
  pf_pc :: monitor_pc
  pf_run :: bool
  pf_index :: nat
  pf_lastTicks :: u64
  pf_lastSent :: u64
  pf_lastReceived :: u64
  pf_times :: "u64 list"
  pf_sent :: "u64 list"
  pf_received :: "u64 list"

text \<open>
  What the system answers: processor ticks, threads and memory pages of the process, ticks in a second, the time
  of day. \<open>ps_seconds n\<close> is the float for \<open>n\<close> ticks.
\<close>

record proc_stat =
  ps_ticks :: u64
  ps_threads :: u16
  ps_pages :: u64
  ps_seconds :: "nat \<Rightarrow> u32"
  ps_timeSecs :: u64
  ps_timeMicroSecs :: u64

definition PerformanceMonitor_new :: perf_monitor where
  "PerformanceMonitor_new = \<lparr>pf_pc = PM_none, pf_run = False, pf_index = 0, pf_lastTicks = 0, pf_lastSent = 0,
     pf_lastReceived = 0, pf_times = [], pf_sent = [], pf_received = []\<rparr>"

definition PerformanceMonitor_stop :: "perf_monitor \<Rightarrow> perf_monitor" where
  "PerformanceMonitor_stop p = p\<lparr>pf_run := False\<rparr>"

text \<open>The thread up to its loop.\<close>

definition PerformanceMonitor_begin :: "proc_stat \<Rightarrow> perf_monitor \<Rightarrow> perf_monitor" where
  "PerformanceMonitor_begin st p =
     p\<lparr>pf_run := True, pf_index := 0, pf_lastTicks := ps_ticks st, pf_lastSent := 0, pf_lastReceived := 0,
       pf_times := replicate 12 0, pf_sent := replicate 12 0, pf_received := replicate 12 0, pf_pc := PM_round\<rparr>"

definition PerformanceMonitor_round ::
  "proc_stat \<Rightarrow> bool \<Rightarrow> u64 \<Rightarrow> u64 \<Rightarrow> perf_monitor \<Rightarrow> heartbeat \<times> perf_monitor" where
  "PerformanceMonitor_round st hyperthreads totalSent totalReceived p =
     (let i = pf_index p mod 12;
          ticks = ps_ticks st - pf_lastTicks p;
          sent = totalSent - pf_lastSent p;
          received = totalReceived - pf_lastReceived p;
          times = (pf_times p)[i := ticks];
          sents = (pf_sent p)[i := sent];
          receiveds = (pf_received p)[i := received]
      in (\<lparr>hb_transmitSecs = ps_timeSecs st, hb_transmitMicroSecs = ps_timeMicroSecs st, hb_threads = ps_threads st,
           hb_cpuUsage5SecsCurrent = ps_seconds st (unat ticks),
           hb_cpuUsage60SecsCurrent = ps_seconds st (sum_list (map unat times)),
           hb_cpuUsageTotalSecs = ps_seconds st (unat (ps_ticks st)), hb_hyperthreaded = hyperthreads,
           hb_memoryUsageBytesCurrent = ps_pages st * 4096,
           hb_sentMessages5Sec = sent, hb_sentMessages60Sec = sum_list sents, hb_sentMessagesTotal = totalSent,
           hb_receivedMessages5Sec = received, hb_receivedMessages60Sec = sum_list receiveds,
           hb_receivedMessagesTotal = totalReceived, hb_status = []\<rparr>,
          p\<lparr>pf_index := pf_index p + 1, pf_lastTicks := ps_ticks st, pf_lastSent := totalSent,
            pf_lastReceived := totalReceived, pf_times := times, pf_sent := sents, pf_received := receiveds, pf_pc := PM_wait\<rparr>))"

subsection \<open>Running a computation\<close>

text \<open>
  The thread that runs \<open>runComputation\<close>: \<open>RN_terminated\<close> means that the program was ended by the destructor of
  the thread object of the monitor, which must not be destroyed before it is joined.
\<close>

datatype run_pc = RN_begin | RN_ready | RN_checkGo | RN_waitGo | RN_start | RN_dispatch bool | RN_waitExit bool
  | RN_stop bool exit_reason | RN_stopMonitor comp_exit_reason | RN_join comp_exit_reason | RN_done comp_exit_reason
  | RN_terminated

record ('c, 'e) comp_run =
  rn_env :: "('c, 'e) comp_env"
  rn_pc :: run_pc
  rn_monitor :: perf_monitor

definition comp_run_new :: "('c, 'e) comp_env \<Rightarrow> ('c, 'e) comp_run" where
  "comp_run_new v = \<lparr>rn_env = v, rn_pc = RN_begin, rn_monitor = PerformanceMonitor_new\<rparr>"

definition set_dispatcher :: "'e dispatcher \<Rightarrow> ('c, 'e) comp_run \<Rightarrow> ('c, 'e) comp_run" where
  "set_dispatcher d w = w\<lparr>rn_env := (rn_env w)\<lparr>cv_dispatcher := d\<rparr>\<rparr>"

abbreviation run_dispatcher :: "('c, 'e) comp_run \<Rightarrow> 'e dispatcher" where
  "run_dispatcher w \<equiv> cv_dispatcher (rn_env w)"

text \<open>
  \<open>configure(op, Object())\<close> in a \<open>try\<close> that catches everything: whether it threw. (The model's own two outcomes
  are no exceptions; then the thread does not go on.)
\<close>

definition try_configure ::
  "('j, 'z) json_obj_scheme \<Rightarrow> ('c, 'j, 'm) computation_ops \<Rightarrow> string \<Rightarrow> ('c, 'e) comp_env \<Rightarrow> (bool \<times> ('c, 'e) comp_env) option" where
  "try_configure J C oper v =
     (case on_computation (cp_configure C oper (js_null J)) v of
        (Inr _, v') \<Rightarrow> Some (False, v')
      | (Inl e, v') \<Rightarrow> if is_std_exception e then Some (True, v') else None)"

text \<open>
  One step of \<open>runComputation\<close>. \<open>ready\<close> is the envelope of the ready message, \<open>limits\<close> the execution limits and
  \<open>timeout\<close> whether the wait for the go signal timed out.
\<close>

definition CompEnvironmentImpl_runComputation ::
  "('j, 'z) json_obj_scheme \<Rightarrow> ('c, 'j, 'm) computation_ops \<Rightarrow> 'e \<Rightarrow> execution_limits \<Rightarrow> bool \<Rightarrow> bool \<Rightarrow>
     ('c, 'e) comp_run \<Rightarrow> ('c, 'e) comp_run option" where
  "CompEnvironmentImpl_runComputation J C ready limits waitForGo timeout w =
     (let d = run_dispatcher w; v = rn_env w in
      case rn_pc w of
        RN_begin \<Rightarrow>
          if \<not> lock_free d then None
          else (case MessageDispatcher_startQueueing d of
                  (Inl _, _) \<Rightarrow> Some (w\<lparr>rn_pc := RN_terminated\<rparr>)
                | (Inr _, d') \<Rightarrow> Some (set_dispatcher d' (w\<lparr>rn_env := v\<lparr>cv_go := False\<rparr>,
                    rn_monitor := (rn_monitor w)\<lparr>pf_pc := PM_new\<rparr>, rn_pc := RN_ready\<rparr>)))
      | RN_ready \<Rightarrow>
          Some (set_dispatcher (snd (MessageDispatcher_send ready d)) (w\<lparr>rn_pc := (if waitForGo then RN_checkGo else RN_start)\<rparr>))
      | RN_checkGo \<Rightarrow> Some (w\<lparr>rn_pc := (if cv_go v then RN_start else RN_waitGo)\<rparr>)
      | RN_waitGo \<Rightarrow>
          if timeout then Some (w\<lparr>rn_pc := RN_terminated\<rparr>)
          else if cv_go v then Some (w\<lparr>rn_pc := RN_start\<rparr>) else None
      | RN_start \<Rightarrow>
          (case try_configure J C ''start'' v of
             None \<Rightarrow> None
           | Some (threw, v') \<Rightarrow> Some (w\<lparr>rn_env := v', rn_pc := RN_dispatch threw\<rparr>))
      | RN_dispatch threw \<Rightarrow>
          if \<not> lock_free d then None
          else Some (set_dispatcher (if threw then MessageDispatcher_postQuit d else snd (MessageDispatcher_startDispatching limits d))
                      (w\<lparr>rn_pc := RN_waitExit threw\<rparr>))
      | RN_waitExit threw \<Rightarrow>
          (case MessageDispatcher_waitForExit d of
             Some (Some er) \<Rightarrow> Some (w\<lparr>rn_pc := RN_stop threw er\<rparr>)
           | _ \<Rightarrow> None)
      | RN_stop threw er \<Rightarrow>
          if threw then Some (w\<lparr>rn_pc := RN_stopMonitor CER_StartException\<rparr>)
          else (case try_configure J C ''stop'' v of
                  None \<Rightarrow> None
                | Some (stopThrew, v') \<Rightarrow> Some (w\<lparr>rn_env := v', rn_pc := RN_stopMonitor
                    (if stopThrew then CER_StopException else dispatcherToComputationExitReason er)\<rparr>))
      | RN_stopMonitor reason \<Rightarrow> Some (w\<lparr>rn_monitor := PerformanceMonitor_stop (rn_monitor w), rn_pc := RN_join reason\<rparr>)
      | RN_join reason \<Rightarrow> if pf_pc (rn_monitor w) = PM_end then Some (w\<lparr>rn_pc := RN_done reason\<rparr>) else None
      | RN_done _ \<Rightarrow> None
      | RN_terminated \<Rightarrow> None)"

text \<open>One step of the monitor's thread; \<open>beat\<close> makes the envelope of a heartbeat.\<close>

definition PerformanceMonitor_run ::
  "proc_stat \<Rightarrow> bool \<Rightarrow> (heartbeat \<Rightarrow> 'e) \<Rightarrow> bool \<Rightarrow> ('c, 'e) comp_run \<Rightarrow> ('c, 'e) comp_run option" where
  "PerformanceMonitor_run st hyperthreads beat timeout w =
     (let p = rn_monitor w; d = run_dispatcher w in
      case pf_pc p of
        PM_none \<Rightarrow> None
      | PM_new \<Rightarrow> Some (w\<lparr>rn_monitor := PerformanceMonitor_begin st p\<rparr>)
      | PM_round \<Rightarrow>
          (case PerformanceMonitor_round st hyperthreads (di_sentCount d) (di_receivedCount d) p of
             (hb, p') \<Rightarrow> Some (set_dispatcher (snd (MessageDispatcher_send (beat hb) d)) (w\<lparr>rn_monitor := p'\<rparr>)))
      | PM_wait \<Rightarrow>
          if \<not> pf_run p then Some (w\<lparr>rn_monitor := p\<lparr>pf_pc := PM_end\<rparr>\<rparr>)
          else if timeout then Some (w\<lparr>rn_monitor := p\<lparr>pf_pc := PM_round\<rparr>\<rparr>) else None
      | PM_end \<Rightarrow> None)"

text \<open>
  Everything that can happen while a computation runs: its own thread and the monitor's, the threads of the
  dispatcher, messages the computation sends, and control messages, which arrive while the incoming thread
  asks the endpoint.
\<close>

inductive run_step ::
  "'u uuid_api_scheme \<Rightarrow> ('j, 'z) json_obj_scheme \<Rightarrow> ('c, 'j, 'm) computation_ops \<Rightarrow> ('e \<Rightarrow> bool) \<Rightarrow> 'e \<Rightarrow> (heartbeat \<Rightarrow> 'e) \<Rightarrow>
     execution_limits \<Rightarrow> ('c, 'e) comp_run \<Rightarrow> ('c, 'e) comp_run \<Rightarrow> bool" for U J C heartbeat ready beat limits where
  main: "CompEnvironmentImpl_runComputation J C ready limits True timeout w = Some w' \<Longrightarrow> run_step U J C heartbeat ready beat limits w w'"
| monitor: "PerformanceMonitor_run st hyperthreads beat timeout w = Some w' \<Longrightarrow> rn_pc w \<notin> {RN_terminated} \<Longrightarrow>
    run_step U J C heartbeat ready beat limits w w'"
| dispatcher: "thread_step True heartbeat (run_dispatcher w) d \<Longrightarrow> rn_pc w \<noteq> RN_terminated \<Longrightarrow>
    run_step U J C heartbeat ready beat limits w (set_dispatcher d w)"
| send: "MessageDispatcher_send e (run_dispatcher w) = (ok, d) \<Longrightarrow> rn_pc w \<noteq> RN_terminated \<Longrightarrow>
    run_step U J C heartbeat ready beat limits w (set_dispatcher d w)"
| control: "di_incomingPc (run_dispatcher w) = T_get \<Longrightarrow> lock_free (run_dispatcher w) \<Longrightarrow> rn_pc w \<noteq> RN_terminated \<Longrightarrow>
    CompEnvironmentImpl_controlMessage U J command text (rn_env w) = (r, v) \<Longrightarrow>
    run_step U J C heartbeat ready beat limits w (w\<lparr>rn_env := v\<rparr>)"

inductive run_reachable ::
  "'u uuid_api_scheme \<Rightarrow> ('j, 'z) json_obj_scheme \<Rightarrow> ('c, 'j, 'm) computation_ops \<Rightarrow> ('e \<Rightarrow> bool) \<Rightarrow> 'e \<Rightarrow> (heartbeat \<Rightarrow> 'e) \<Rightarrow>
     execution_limits \<Rightarrow> ('c, 'e) comp_run \<Rightarrow> bool" for U J C heartbeat ready beat limits where
  new: "cv_dispatcher v = MessageDispatcher_new defaultLimits \<Longrightarrow> run_reachable U J C heartbeat ready beat limits (comp_run_new v)"
| step: "run_reachable U J C heartbeat ready beat limits w \<Longrightarrow> run_step U J C heartbeat ready beat limits w w' \<Longrightarrow>
    run_reachable U J C heartbeat ready beat limits w'"

subsection \<open>The dispatcher of a run\<close>

lemma try_configure_dispatcher: "try_configure J C oper v = Some (b, v') \<Longrightarrow> cv_dispatcher v' = cv_dispatcher v \<and> cv_go v' = cv_go v"
  by (auto simp: try_configure_def on_computation_def zoom_def split: prod.splits sum.splits if_splits)

lemma setRouting_frame:
  "CompEnvironmentImpl_setRouting U J routing v = (r, v') \<Longrightarrow> cv_dispatcher v' = cv_dispatcher v \<and> cv_go v' = cv_go v"
  by (auto simp: CompEnvironmentImpl_setRouting_def bindp_def seqp_def on_addresser_def zoom_def split: prod.splits sum.splits if_splits)

lemma controlMessage_dispatcher:
  assumes "CompEnvironmentImpl_controlMessage U J command text v = (r, v')"
  shows "cv_dispatcher v' = cv_dispatcher v \<or> cv_dispatcher v' = MessageDispatcher_postQuit (cv_dispatcher v)"
proof -
  have "cv_dispatcher v' = cv_dispatcher v" if "update_routing U J d v = (r, v')" for d
  proof -
    obtain r0 x where r0: "js_ref J ''routing'' d = (r0, x)" by (rule prod.exhaust)
    show ?thesis
    proof (cases r0)
      case (Inl e)
      with that r0 show ?thesis by (simp add: update_routing_def)
    next
      case (Inr routing)
      obtain r1 v1 where r1: "CompEnvironmentImpl_setRouting U J routing v = (r1, v1)" by (rule prod.exhaust)
      show ?thesis
        using that r0 Inr r1 setRouting_frame [OF r1] by (cases r1) (auto simp: update_routing_def split: if_splits)
    qed
  qed
  then show ?thesis
    using assms by (auto simp: CompEnvironmentImpl_controlMessage_def CompEnvironmentImpl_signalGo_def CompEnvironmentImpl_signalStop_def
        CompEnvironmentImpl_signalUpdate_def Let_def split: if_splits)
qed

definition disp_step :: "('e \<Rightarrow> bool) \<Rightarrow> 'e dispatcher \<Rightarrow> 'e dispatcher \<Rightarrow> bool" where
  "disp_step heartbeat d d' \<longleftrightarrow> d' = d \<or> thread_step True heartbeat d d' \<or> client_step d d'"

lemma disp_step_reachable: "disp_step hb d d' \<Longrightarrow> disp_reachable True hb d \<Longrightarrow> disp_reachable True hb d'"
  unfolding disp_step_def by (blast intro: disp_reachable.intros)

lemma client_master:
  assumes "client_step d d'"
  shows "di_masterPc d' = di_masterPc d \<or> di_state d = NotStarted \<and> di_masterPc d' = M_start"
  using assms
  by cases (auto simp: MessageDispatcher_send_def MessageDispatcher_startQueueing_def MessageDispatcher_startDispatching_def
      MessageDispatcher_postError_def MessageDispatcher_postQuit_def split: if_splits prod.splits sum.splits)

lemma thread_master:
  assumes "thread_step timed hb d d'"
  shows "di_masterPc d' = di_masterPc d \<or> di_masterPc d' \<noteq> M_none"
  using assms
  by cases (auto dest: incoming_effect(1) outgoing_effect(1) handler_effect(1) simp: masterThreadProc_def split: master_pc.splits if_splits)

lemma disp_step_master:
  assumes "disp_step hb d d'" and "disp_reachable True hb d"
  shows "di_masterPc d \<noteq> M_none \<Longrightarrow> di_masterPc d' \<noteq> M_none" and "di_masterPc d = M_done \<Longrightarrow> di_masterPc d' = M_done"
proof -
  have c: "control_inv d" by (rule reachable_control [OF assms(2)])
  show "di_masterPc d' \<noteq> M_none" if "di_masterPc d \<noteq> M_none"
    using assms(1) that client_master [of d d'] thread_master [of True hb d d'] by (auto simp: disp_step_def)
  show "di_masterPc d' = M_done" if fin: "di_masterPc d = M_done"
  proof -
    have "di_state d \<noteq> NotStarted" using c fin by (auto simp: control_inv_def master_inv_def)
    with assms(1) fin client_master [of d d'] done_no_step [OF c fin] show ?thesis by (auto simp: disp_step_def)
  qed
qed

lemma set_dispatcher_simps [simp]:
  "cv_dispatcher (rn_env (set_dispatcher d w)) = d" "rn_pc (set_dispatcher d w) = rn_pc w"
  "rn_monitor (set_dispatcher d w) = rn_monitor w" "cv_go (rn_env (set_dispatcher d w)) = cv_go (rn_env w)"
  by (simp_all add: set_dispatcher_def)

lemma run_step_dispatcher:
  assumes "run_step U J C hb ready beat limits w w'"
  shows "disp_step hb (run_dispatcher w) (run_dispatcher w')"
  using assms
proof cases
  case (main timeout)
  have s: "disp_step hb (run_dispatcher w) (snd (MessageDispatcher_send e (run_dispatcher w)))" for e
    unfolding disp_step_def by (metis client_step.send prod.collapse)
  have q: "lock_free (run_dispatcher w) \<Longrightarrow> disp_step hb (run_dispatcher w) (snd (MessageDispatcher_startDispatching l (run_dispatcher w)))" for l
    unfolding disp_step_def by (metis client_step.startDispatching prod.collapse)
  have p: "lock_free (run_dispatcher w) \<Longrightarrow> disp_step hb (run_dispatcher w) (MessageDispatcher_postQuit (run_dispatcher w))"
    unfolding disp_step_def by (blast intro: client_step.postQuit)
  have b: "lock_free (run_dispatcher w) \<Longrightarrow> MessageDispatcher_startQueueing (run_dispatcher w) = (r, d) \<Longrightarrow> disp_step hb (run_dispatcher w) d" for r d
    unfolding disp_step_def by (blast intro: client_step.startQueueing)
  have i: "disp_step hb (run_dispatcher w) (run_dispatcher w)" by (simp add: disp_step_def)
  show ?thesis
    using main s q p b i try_configure_dispatcher [of J C _ "rn_env w"]
    by (cases "rn_pc w") (auto simp: CompEnvironmentImpl_runComputation_def Let_def split: if_splits sum.splits prod.splits option.splits)
next
  case (monitor st hyperthreads timeout)
  have s: "disp_step hb (run_dispatcher w) (snd (MessageDispatcher_send e (run_dispatcher w)))" for e
    unfolding disp_step_def by (metis client_step.send prod.collapse)
  have i: "disp_step hb (run_dispatcher w) (run_dispatcher w)" by (simp add: disp_step_def)
  show ?thesis
    using monitor(1) s i by (cases "pf_pc (rn_monitor w)") (auto simp: PerformanceMonitor_run_def Let_def split: if_splits prod.splits)
next
  case (dispatcher d)
  then show ?thesis by (simp add: disp_step_def)
next
  case (send e ok d)
  then show ?thesis unfolding disp_step_def by (auto intro: client_step.send)
next
  case (control cmd tx r v)
  then show ?thesis
    using controlMessage_dispatcher [OF control(5)] by (auto simp: disp_step_def intro: client_step.postQuit)
qed

subsection \<open>What a finished run leaves\<close>

primrec run_reason :: "run_pc \<Rightarrow> comp_exit_reason option" where
  "run_reason RN_begin = None" | "run_reason RN_ready = None" | "run_reason RN_checkGo = None" | "run_reason RN_waitGo = None"
| "run_reason RN_start = None" | "run_reason (RN_dispatch b) = None" | "run_reason (RN_waitExit b) = None"
| "run_reason (RN_stop b er) = None" | "run_reason (RN_stopMonitor r) = Some r" | "run_reason (RN_join r) = Some r"
| "run_reason (RN_done r) = Some r" | "run_reason RN_terminated = None"

primrec run_ending :: "run_pc \<Rightarrow> bool" where
  "run_ending RN_begin = False" | "run_ending RN_ready = False" | "run_ending RN_checkGo = False" | "run_ending RN_waitGo = False"
| "run_ending RN_start = False" | "run_ending (RN_dispatch b) = False" | "run_ending (RN_waitExit b) = False"
| "run_ending (RN_stop b er) = True" | "run_ending (RN_stopMonitor r) = True" | "run_ending (RN_join r) = True"
| "run_ending (RN_done r) = True" | "run_ending RN_terminated = False"

definition run_inv :: "('e \<Rightarrow> bool) \<Rightarrow> ('c, 'e) comp_run \<Rightarrow> bool" where
  "run_inv hb w \<longleftrightarrow> disp_reachable True hb (run_dispatcher w) \<and>
     (rn_pc w \<notin> {RN_begin, RN_terminated} \<longrightarrow> di_masterPc (run_dispatcher w) \<noteq> M_none) \<and>
     (run_ending (rn_pc w) \<longrightarrow> di_masterPc (run_dispatcher w) = M_done) \<and>
     ((\<exists>r. rn_pc w = RN_done r) \<longrightarrow> pf_pc (rn_monitor w) = PM_end) \<and>
     (\<forall>r. run_reason (rn_pc w) = Some r \<longrightarrow> r \<noteq> CER_Timeout \<and> r \<noteq> CER_StateError)"

lemma dispatcher_reason: "dispatcherToComputationExitReason er \<noteq> CER_Timeout \<and> dispatcherToComputationExitReason er \<noteq> CER_StateError"
  by (cases er) simp_all

lemma waitForExit_done: "MessageDispatcher_waitForExit d = Some r \<Longrightarrow> di_masterPc d \<noteq> M_none \<Longrightarrow> di_masterPc d = M_done"
  by (auto simp: MessageDispatcher_waitForExit_def split: if_splits)

lemma main_step_pc:
  assumes "CompEnvironmentImpl_runComputation J C ready limits g timeout w = Some w'" and "run_inv hb w"
  shows "(rn_pc w' \<notin> {RN_begin, RN_terminated} \<longrightarrow> rn_pc w = RN_begin \<and> di_masterPc (run_dispatcher w') = M_start \<or> rn_pc w \<notin> {RN_begin, RN_terminated}) \<and>
    (run_ending (rn_pc w') \<longrightarrow> run_ending (rn_pc w) \<or> di_masterPc (run_dispatcher w) = M_done) \<and>
    ((\<exists>r. rn_pc w' = RN_done r) \<longrightarrow> pf_pc (rn_monitor w') = PM_end) \<and>
    (\<forall>r. run_reason (rn_pc w') = Some r \<longrightarrow> r \<noteq> CER_Timeout \<and> r \<noteq> CER_StateError)"
  using assms dispatcher_reason
  by (cases "rn_pc w")
    (auto simp: CompEnvironmentImpl_runComputation_def Let_def run_inv_def MessageDispatcher_startQueueing_def
      split: if_splits sum.splits prod.splits option.splits dest: waitForExit_done)

lemma run_inv_step:
  assumes "run_step U J C hb ready beat limits w w'" and inv: "run_inv hb w"
  shows "run_inv hb w'"
proof -
  note d = run_step_dispatcher [OF assms(1)]
  have r: "disp_reachable True hb (run_dispatcher w)" using inv by (simp add: run_inv_def)
  note m = disp_step_master [OF d r]
  have keep: "run_inv hb w'" if "rn_pc w' = rn_pc w" "\<forall>r. rn_pc w = RN_done r \<longrightarrow> pf_pc (rn_monitor w') = PM_end"
    using inv m disp_step_reachable [OF d r] that by (auto simp: run_inv_def)
  from assms(1) show ?thesis
  proof cases
    case (main timeout)
    note p = main_step_pc [OF main inv]
    have "di_masterPc (run_dispatcher w') \<noteq> M_none" if "rn_pc w' \<notin> {RN_begin, RN_terminated}"
      using p that m(1) inv by (auto simp: run_inv_def)
    moreover have "di_masterPc (run_dispatcher w') = M_done" if "run_ending (rn_pc w')"
      using p that m(2) inv by (auto simp: run_inv_def)
    ultimately show ?thesis
      using disp_step_reachable [OF d r] p by (simp add: run_inv_def)
  next
    case (monitor st ht timeout)
    have "pf_pc (rn_monitor w) \<noteq> PM_end" "rn_pc w' = rn_pc w"
      using monitor(1) by (cases "pf_pc (rn_monitor w)"; auto simp: PerformanceMonitor_run_def Let_def split: if_splits prod.splits)+
    then show ?thesis using inv by (intro keep) (auto simp: run_inv_def)
  next
    case (dispatcher d)
    then show ?thesis using inv by (intro keep) (simp_all add: run_inv_def)
  next
    case (send e ok d)
    then show ?thesis using inv by (intro keep) (simp_all add: run_inv_def)
  next
    case (control cmd tx r v)
    then show ?thesis using inv by (intro keep) (simp_all add: run_inv_def)
  qed
qed

lemma run_inv_reachable: "run_reachable U J C hb ready beat limits w \<Longrightarrow> run_inv hb w"
proof (induction rule: run_reachable.induct)
  case (new v defaultLimits)
  then show ?case by (auto simp: run_inv_def comp_run_new_def intro: disp_reachable.new)
qed (rule run_inv_step)


subsection \<open>A stop that is lost\<close>

lemma reach_dispatcher:
  assumes "run_reachable U J C hb ready beat limits w" and "rn_pc w \<noteq> RN_terminated"
    and "(own_step True hb ^^ n) (run_dispatcher w) d"
  shows "run_reachable U J C hb ready beat limits (set_dispatcher d w)"
  using assms(3)
proof (induction n arbitrary: d)
  case 0
  have "set_dispatcher (run_dispatcher w) w = w" by (simp add: set_dispatcher_def)
  with 0 assms(1) show ?case by simp
next
  case (Suc n)
  then obtain e where e: "(own_step True hb ^^ n) (run_dispatcher w) e" "own_step True hb e d" by auto
  have "set_dispatcher d w = set_dispatcher d (set_dispatcher e w)" by (simp add: set_dispatcher_def)
  moreover have "thread_step True hb (run_dispatcher (set_dispatcher e w)) d" using own_step_thread [OF e(2)] by simp
  ultimately show ?case
    using run_reachable.step [OF Suc.IH [OF e(1)] run_step.dispatcher] assms(2) by simp
qed

lemma reach_main:
  assumes "run_reachable U J C hb ready beat limits w"
    and "CompEnvironmentImpl_runComputation J C ready limits True timeout w = Some w'"
  shows "run_reachable U J C hb ready beat limits w'"
  using assms by (blast intro: run_reachable.step run_step.main)

text \<open>The plug-in starts and stops without an exception.\<close>

definition plain_computation :: "('j, 'z) json_obj_scheme \<Rightarrow> ('c, 'j, 'm) computation_ops \<Rightarrow> bool" where
  "plain_computation J C \<longleftrightarrow> (\<forall>oper c. \<exists>r c'. cp_configure C oper (js_null J) c = (Inr r, c'))"

lemma plain_try_configure: "plain_computation J C \<Longrightarrow> \<exists>v'. try_configure J C oper v = Some (False, v')"
  unfolding plain_computation_def try_configure_def on_computation_def zoom_def
  by (metis (mono_tags, lifting) case_prod_conv sum.simps(6))

lemma stopped_run:
  fixes C :: "('c, 'j, 'm) computation_ops" and v :: "('c, 'e) comp_env" and ready :: 'e
  assumes "plain_computation J C" and v: "cv_dispatcher v = MessageDispatcher_new l0"
  shows "\<exists>(v' :: ('c, 'e) comp_env) r. run_reachable U J C hb ready beat limits
    \<lparr>rn_env = v', rn_pc = RN_stopMonitor r, rn_monitor = PerformanceMonitor_new\<lparr>pf_pc := PM_new\<rparr>\<rparr>"
proof -
  let ?R = "run_reachable U J C hb ready beat limits :: ('c, 'e) comp_run \<Rightarrow> bool"
  let ?d0 = "MessageDispatcher_new l0 :: 'e dispatcher"
  let ?d1 = "?d0\<lparr>di_source := True, di_state := Queueing, di_masterPc := M_start\<rparr>"
  let ?d2 = "snd (MessageDispatcher_send ready ?d1)"
  let ?d3 = "?d2\<lparr>di_incomingPc := T_check, di_masterPc := M_waitDispatch\<rparr>"
  let ?d4 = "?d3\<lparr>di_incomingPc := T_get\<rparr>"
  let ?d5 = "MessageDispatcher_postQuit ?d4"
  let ?m = "PerformanceMonitor_new\<lparr>pf_pc := PM_new\<rparr>"
  note defs = MessageDispatcher_new_def lock_free_def MessageDispatcher_startQueueing_def masterThreadProc_def incomingThreadProc_def
    loop_check_def MessageDispatcher_send_def ThreadsafeQueue_push_def ThreadsafeQueue_new_def
  have "?R (comp_run_new v)" by (rule run_reachable.new [OF v])
  then have r1: "?R \<lparr>rn_env = v\<lparr>cv_go := False, cv_dispatcher := ?d1\<rparr>, rn_pc = RN_ready, rn_monitor = ?m\<rparr>"
    by (rule reach_main [where timeout = False])
      (simp add: CompEnvironmentImpl_runComputation_def comp_run_new_def v defs set_dispatcher_def Let_def)
  then have r2: "?R \<lparr>rn_env = v\<lparr>cv_go := False, cv_dispatcher := ?d2\<rparr>, rn_pc = RN_checkGo, rn_monitor = ?m\<rparr>"
    by (rule reach_main [where timeout = False]) (simp add: CompEnvironmentImpl_runComputation_def set_dispatcher_def Let_def)
  have t3: "thread_step True hb ?d2 ?d3" by (rule thread_step.master) (simp add: defs)
  from run_reachable.step [OF r2 run_step.dispatcher [where d = ?d3]] t3
  have r3: "?R \<lparr>rn_env = v\<lparr>cv_go := False, cv_dispatcher := ?d3\<rparr>, rn_pc = RN_checkGo, rn_monitor = ?m\<rparr>"
    by (simp add: set_dispatcher_def)
  have t4: "thread_step True hb ?d3 ?d4" by (rule thread_step.incoming) (simp add: defs)
  from run_reachable.step [OF r3 run_step.dispatcher [where d = ?d4]] t4
  have r4: "?R \<lparr>rn_env = v\<lparr>cv_go := False, cv_dispatcher := ?d4\<rparr>, rn_pc = RN_checkGo, rn_monitor = ?m\<rparr>"
    by (simp add: set_dispatcher_def)
  have c5: "CompEnvironmentImpl_controlMessage U J ''stop'' [] (v\<lparr>cv_go := False, cv_dispatcher := ?d4\<rparr>) =
      (Inr (), v\<lparr>cv_go := True, cv_dispatcher := ?d5\<rparr>)"
    by (simp add: CompEnvironmentImpl_controlMessage_def CompEnvironmentImpl_signalStop_def CompEnvironmentImpl_signalGo_def Let_def)
  from run_reachable.step [OF r4 run_step.control [where v = "v\<lparr>cv_go := True, cv_dispatcher := ?d5\<rparr>"]] c5
  have r5: "?R \<lparr>rn_env = v\<lparr>cv_go := True, cv_dispatcher := ?d5\<rparr>, rn_pc = RN_checkGo, rn_monitor = ?m\<rparr>"
    by (simp add: defs)
  then have r6: "?R \<lparr>rn_env = v\<lparr>cv_go := True, cv_dispatcher := ?d5\<rparr>, rn_pc = RN_start, rn_monitor = ?m\<rparr>"
    by (rule reach_main [where timeout = False]) (simp add: CompEnvironmentImpl_runComputation_def Let_def)
  have "di_state ?d5 = Exiting \<and> di_masterPc ?d5 = M_waitDispatch"
    by (simp add: MessageDispatcher_postQuit_def defs)
  with r6 obtain d5 where r6: "?R \<lparr>rn_env = v\<lparr>cv_go := True, cv_dispatcher := d5\<rparr>, rn_pc = RN_start, rn_monitor = ?m\<rparr>"
    and st: "di_state d5 = Exiting" "di_masterPc d5 = M_waitDispatch" by blast
  obtain v7 where v7: "try_configure J C ''start'' (v\<lparr>cv_go := True, cv_dispatcher := d5\<rparr>) = Some (False, v7)"
    using plain_try_configure [OF assms(1)] by blast
  have d7: "cv_dispatcher v7 = d5" using try_configure_dispatcher [OF v7] by simp
  from r6 have r7: "?R \<lparr>rn_env = v7, rn_pc = RN_dispatch False, rn_monitor = ?m\<rparr>"
    by (rule reach_main [where timeout = False]) (simp add: CompEnvironmentImpl_runComputation_def Let_def v7)
  then have r8: "?R \<lparr>rn_env = v7, rn_pc = RN_waitExit False, rn_monitor = ?m\<rparr>"
    by (rule reach_main [where timeout = False])
      (simp add: CompEnvironmentImpl_runComputation_def Let_def d7 [symmetric] lock_free_def st [folded d7] MessageDispatcher_startDispatching_def set_dispatcher_def)
  have reach: "disp_reachable True hb d5" using run_inv_reachable [OF r8] d7 by (simp add: run_inv_def)
  obtain n d where d: "(own_step True hb ^^ n) d5 d" "\<nexists>d''. own_step True hb d d''"
    using exits_somewhere [OF reach st(1)] by blast
  obtain er where er: "MessageDispatcher_waitForExit d = Some (Some er)"
    using exits_at [OF reach st(1) _ d] st(2) by auto
  have "(own_step True hb ^^ n) (run_dispatcher \<lparr>rn_env = v7, rn_pc = RN_waitExit False, rn_monitor = ?m\<rparr>) d"
    using d(1) d7 by simp
  from reach_dispatcher [OF r8 _ this] have r9: "?R \<lparr>rn_env = v7\<lparr>cv_dispatcher := d\<rparr>, rn_pc = RN_waitExit False, rn_monitor = ?m\<rparr>"
    by (simp add: set_dispatcher_def)
  then have r10: "?R \<lparr>rn_env = v7\<lparr>cv_dispatcher := d\<rparr>, rn_pc = RN_stop False er, rn_monitor = ?m\<rparr>"
    by (rule reach_main [where timeout = False]) (simp add: CompEnvironmentImpl_runComputation_def Let_def er)
  obtain v11 where v11: "try_configure J C ''stop'' (v7\<lparr>cv_dispatcher := d\<rparr>) = Some (False, v11)"
    using plain_try_configure [OF assms(1)] by blast
  from r10 have r11: "?R \<lparr>rn_env = v11, rn_pc = RN_stopMonitor (dispatcherToComputationExitReason er), rn_monitor = ?m\<rparr>"
    by (rule reach_main [where timeout = False]) (simp add: CompEnvironmentImpl_runComputation_def Let_def v11)
  then show ?thesis by blast
qed

lemma stopped_before_monitor:
  fixes C :: "('c, 'j, 'm) computation_ops" and v :: "('c, 'e) comp_env" and ready :: 'e
  assumes "plain_computation J C" and v: "cv_dispatcher v = MessageDispatcher_new l0"
  shows "\<exists>(w :: ('c, 'e) comp_run) r. run_reachable U J C hb ready beat limits w \<and> rn_pc w = RN_join r \<and> pf_pc (rn_monitor w) = PM_new"
proof -
  obtain v' :: "('c, 'e) comp_env" and r where "run_reachable U J C hb ready beat limits
      \<lparr>rn_env = v', rn_pc = RN_stopMonitor r, rn_monitor = PerformanceMonitor_new\<lparr>pf_pc := PM_new\<rparr>\<rparr>"
    using stopped_run [OF assms, of U hb ready beat limits] by blast
  then have "run_reachable U J C hb ready beat limits
      \<lparr>rn_env = v', rn_pc = RN_join r, rn_monitor = PerformanceMonitor_new\<lparr>pf_pc := PM_new, pf_run := False\<rparr>\<rparr>"
    by (rule reach_main [where timeout = False]) (simp add: CompEnvironmentImpl_runComputation_def Let_def PerformanceMonitor_stop_def)
  then show ?thesis by (intro exI conjI, assumption) simp_all
qed

text \<open>Where the monitor starts before the stop, the run ends.\<close>

lemma reach_monitor:
  assumes "run_reachable U J C hb ready beat limits w" and "rn_pc w \<noteq> RN_terminated"
    and "PerformanceMonitor_run st hyperthreads beat timeout w = Some w'"
  shows "run_reachable U J C hb ready beat limits w'"
  by (rule run_reachable.step [OF assms(1) run_step.monitor [OF assms(3)]]) (simp add: assms(2))

lemma run_can_finish:
  fixes C :: "('c, 'j, 'm) computation_ops" and v :: "('c, 'e) comp_env" and ready :: 'e and st :: proc_stat
  assumes "plain_computation J C" and v: "cv_dispatcher v = MessageDispatcher_new l0"
  shows "\<exists>(w :: ('c, 'e) comp_run) r. run_reachable U J C hb ready beat limits w \<and> rn_pc w = RN_done r"
proof -
  let ?R = "run_reachable U J C hb ready beat limits :: ('c, 'e) comp_run \<Rightarrow> bool"
  obtain v1 :: "('c, 'e) comp_env" and r where w1:
      "?R \<lparr>rn_env = v1, rn_pc = RN_stopMonitor r, rn_monitor = PerformanceMonitor_new\<lparr>pf_pc := PM_new\<rparr>\<rparr>"
    using stopped_run [OF assms, of U hb ready beat limits] by blast
  let ?p2 = "PerformanceMonitor_begin st (PerformanceMonitor_new\<lparr>pf_pc := PM_new\<rparr>)"
  have w2: "?R \<lparr>rn_env = v1, rn_pc = RN_stopMonitor r, rn_monitor = ?p2\<rparr>"
    by (rule reach_monitor [OF w1, where st = st and hyperthreads = False and timeout = False])
      (simp_all add: PerformanceMonitor_run_def Let_def)
  obtain hb p3 where e: "PerformanceMonitor_round st False (di_sentCount (cv_dispatcher v1)) (di_receivedCount (cv_dispatcher v1)) ?p2 = (hb, p3)"
    by (rule prod.exhaust)
  then have p3: "pf_pc p3 = PM_wait" by (auto simp: PerformanceMonitor_round_def Let_def)
  have p2: "pf_pc ?p2 = PM_round" by (simp add: PerformanceMonitor_begin_def)
  obtain v3 where w3: "?R \<lparr>rn_env = v3, rn_pc = RN_stopMonitor r, rn_monitor = p3\<rparr>"
  proof
    show "?R \<lparr>rn_env = v1\<lparr>cv_dispatcher := snd (MessageDispatcher_send (beat hb) (cv_dispatcher v1))\<rparr>, rn_pc = RN_stopMonitor r, rn_monitor = p3\<rparr>"
      by (rule reach_monitor [OF w2, where st = st and hyperthreads = False and timeout = False])
        (simp_all add: PerformanceMonitor_run_def Let_def p2 e set_dispatcher_def)
  qed
  from w3 have w4: "?R \<lparr>rn_env = v3, rn_pc = RN_join r, rn_monitor = p3\<lparr>pf_run := False\<rparr>\<rparr>"
    by (rule reach_main [where timeout = False]) (simp add: CompEnvironmentImpl_runComputation_def Let_def PerformanceMonitor_stop_def)
  then have w5: "?R \<lparr>rn_env = v3, rn_pc = RN_join r, rn_monitor = p3\<lparr>pf_run := False, pf_pc := PM_end\<rparr>\<rparr>"
    by (rule reach_monitor [where st = st and hyperthreads = False and timeout = False]) (simp_all add: PerformanceMonitor_run_def Let_def p3)
  then have "?R \<lparr>rn_env = v3, rn_pc = RN_done r, rn_monitor = p3\<lparr>pf_run := False, pf_pc := PM_end\<rparr>\<rparr>"
    by (rule reach_main [where timeout = False]) (simp add: CompEnvironmentImpl_runComputation_def Let_def)
  then show ?thesis by (intro exI conjI, assumption) simp
qed

lemma join_hangs:
  assumes "(run_step U J C hb ready beat limits)\<^sup>*\<^sup>* w w'" and "rn_pc w = RN_join r" and "pf_pc (rn_monitor w) = PM_new"
  shows "rn_pc w' = RN_join r \<and> (pf_pc (rn_monitor w') = PM_new \<or> pf_run (rn_monitor w') \<and> pf_pc (rn_monitor w') \<in> {PM_round, PM_wait})"
  using assms(1)
proof (induction rule: rtranclp_induct)
  case base
  then show ?case using assms(2,3) by simp
next
  case (step w' w'')
  from step.hyps(2) show ?case
  proof cases
    case (main timeout)
    with step.IH show ?thesis by (auto simp: CompEnvironmentImpl_runComputation_def Let_def)
  next
    case (monitor st ht timeout)
    with step.IH show ?thesis
      by (auto simp: PerformanceMonitor_run_def Let_def PerformanceMonitor_begin_def PerformanceMonitor_round_def split: if_splits)
  qed (use step.IH in simp_all)
qed


text \<open>A computation that does nothing, for the witnesses.\<close>

definition quiet_ops :: "(nat, json, unit) computation_ops" where
  "quiet_ops = \<lparr>cp_property = Computation_property json_obj_impl, cp_configure = (\<lambda>oper c. ret R_Success),
     cp_onMessage = (\<lambda>m. ret R_Success), cp_onIdle = Computation_onIdle\<rparr>"

definition quiet_env :: "(nat, string) comp_env" where
  "quiet_env = \<lparr>cv_name = ''quiet'', cv_computation = 0, cv_address = \<lparr>ad_session = 0, ad_node = 0, ad_computation = 0\<rparr>,
     cv_addresser = Addresser_new, cv_dispatcher = MessageDispatcher_new (ExecutionLimits_default {}), cv_go = False,
     cv_chunkingConfig = ChunkingConfig_default\<rparr>"

lemma quiet_plain: "plain_computation json_obj_impl quiet_ops"
  by (simp add: plain_computation_def quiet_ops_def)

lemma quiet_finishes:
  "\<exists>w r. run_reachable hex_uuid_api json_obj_impl quiet_ops (\<lambda>e. e = ''beat'') ''ready'' (\<lambda>hb. ''beat'') (ExecutionLimits_default {}) w \<and> rn_pc w = RN_done r"
  by (rule run_can_finish [OF quiet_plain, of quiet_env]) (simp add: quiet_env_def)



subsection \<open>The heartbeat of a minute\<close>

text \<open>
  The monitor keeps the last twelve differences of a counter in a ring. \<open>total ts k\<close> is the counter after \<open>k\<close>
  rounds, zero before the first.
\<close>

definition total :: "u64 list \<Rightarrow> nat \<Rightarrow> u64" where
  "total ts k = (if k = 0 then 0 else ts ! (k - 1))"

lemma sum_list_word_update: "i < length xs \<Longrightarrow> sum_list (xs[i := y]) = sum_list xs - xs ! i + (y :: 'a :: len word)"
proof (induction xs arbitrary: i)
  case (Cons x xs)
  then show ?case by (cases i) (simp_all add: algebra_simps)
qed simp

definition ring_inv :: "u64 list \<Rightarrow> u64 list \<Rightarrow> bool" where
  "ring_inv ts ring \<longleftrightarrow> length ring = 12 \<and> sum_list ring = total ts (length ts) - total ts (length ts - 12) \<and>
     (\<forall>k < 12. ring ! ((length ts + k) mod 12) =
        (if length ts + k < 12 then 0 else total ts (length ts + k - 11) - total ts (length ts + k - 12)))"

lemma total_append: "k \<le> length ts \<Longrightarrow> total (ts @ us) k = total ts k"
  by (auto simp: total_def nth_append)

lemma total_last: "total (ts @ [t]) (Suc (length ts)) = t"
  by (simp add: total_def)

lemma ring_inv_new: "ring_inv [] (replicate 12 0)"
  by (auto simp: ring_inv_def total_def sum_list_replicate)

lemma ring_inv_add:
  assumes "ring_inv ts ring"
  shows "ring_inv (ts @ [t]) (ring[length ts mod 12 := t - total ts (length ts)])"
proof -
  let ?n = "length ts" and ?ts = "ts @ [t]"
  let ?ring = "ring[?n mod 12 := t - total ts ?n]"
  have len: "length ring = 12" using assms by (simp add: ring_inv_def)
  have old: "ring ! (?n mod 12) = (if ?n < 12 then 0 else total ts (?n - 11) - total ts (?n - 12))"
    using assms unfolding ring_inv_def by (metis add.right_neutral zero_less_numeral)
  have "sum_list ?ring = sum_list ring - ring ! (?n mod 12) + (t - total ts ?n)"
    by (rule sum_list_word_update) (simp add: len)
  moreover have "?n < 12 \<Longrightarrow> total ts (?n - 12) = total ts (Suc ?n - 12)" by (simp add: total_def)
  moreover have "\<not> ?n < 12 \<Longrightarrow> Suc ?n - 12 = ?n - 11" by simp
  ultimately have "sum_list ?ring = t - total ts (Suc ?n - 12)"
    using assms old by (auto simp: ring_inv_def)
  then have sum: "sum_list ?ring = total ?ts (length ?ts) - total ?ts (length ?ts - 12)"
    using total_append [of "Suc ?n - 12" ts "[t]"] by (simp add: total_last)
  have "?ring ! ((Suc ?n + k) mod 12) =
      (if Suc ?n + k < 12 then 0 else total ?ts (Suc ?n + k - 11) - total ?ts (Suc ?n + k - 12))" if "k < 12" for k
  proof (cases "k = 11")
    case True
    have "(Suc ?n + k) mod 12 = ?n mod 12" using True by simp
    then show ?thesis
      using True len total_append [of ?n ts "[t]"] by (simp add: total_last)
  next
    case False
    with that have k: "Suc k < 12" by simp
    have "(Suc ?n + k) mod 12 \<noteq> ?n mod 12"
    proof
      assume "(Suc ?n + k) mod 12 = ?n mod 12"
      then have "12 dvd Suc ?n + k - ?n" by (metis mod_eq_dvd_iff_nat le_add1 add_Suc add_Suc_right)
      with k show False by (simp add: dvd_def) presburger
    qed
    then have "?ring ! ((Suc ?n + k) mod 12) = ring ! ((?n + Suc k) mod 12)" by simp
    also have "\<dots> = (if ?n + Suc k < 12 then 0 else total ts (?n + Suc k - 11) - total ts (?n + Suc k - 12))"
      using assms k unfolding ring_inv_def by blast
    finally show ?thesis using k total_append [of "?n + Suc k - 11" ts "[t]"] total_append [of "?n + Suc k - 12" ts "[t]"] by simp
  qed
  with sum len show ?thesis by (simp add: ring_inv_def)
qed

definition PerformanceMonitor_rounds ::
  "bool \<Rightarrow> (proc_stat \<times> u64 \<times> u64) list \<Rightarrow> perf_monitor \<Rightarrow> perf_monitor" where
  "PerformanceMonitor_rounds hyperthreads readings =
     fold (\<lambda>(st, sent, received) p. snd (PerformanceMonitor_round st hyperthreads sent received p)) readings"

lemma rounds_inv:
  "let p = PerformanceMonitor_rounds hyperthreads before (PerformanceMonitor_begin st0 p0);
       sents = map (\<lambda>(st, sent, received). sent) before; receiveds = map (\<lambda>(st, sent, received). received) before
   in pf_index p = length before \<and> pf_lastSent p = total sents (length before) \<and> pf_lastReceived p = total receiveds (length before) \<and>
    ring_inv sents (pf_sent p) \<and> ring_inv receiveds (pf_received p)"
proof (induction before rule: rev_induct)
  case Nil
  then show ?case using ring_inv_new by (simp add: PerformanceMonitor_rounds_def PerformanceMonitor_begin_def total_def)
next
  case (snoc x before)
  obtain st sent received where x: "x = (st, sent, received)" by (metis prod_cases3)
  let ?q = "PerformanceMonitor_rounds hyperthreads before (PerformanceMonitor_begin st0 p0)"
  let ?ss = "map (\<lambda>(st, sent, received). sent) before" and ?rs = "map (\<lambda>(st, sent, received). received) before"
  have q: "pf_index ?q = length before" "pf_lastSent ?q = total ?ss (length before)" "pf_lastReceived ?q = total ?rs (length before)"
    "ring_inv ?ss (pf_sent ?q)" "ring_inv ?rs (pf_received ?q)"
    using snoc.IH by (simp_all add: Let_def)
  let ?p = "PerformanceMonitor_rounds hyperthreads (before @ [x]) (PerformanceMonitor_begin st0 p0)"
  have p: "?p = snd (PerformanceMonitor_round st hyperthreads sent received ?q)"
    by (simp add: PerformanceMonitor_rounds_def x)
  have "ring_inv (?ss @ [sent]) (pf_sent ?p)" "ring_inv (?rs @ [received]) (pf_received ?p)"
    using ring_inv_add [OF q(4), of sent] ring_inv_add [OF q(5), of received] q(1-3)
    unfolding p by (simp_all add: PerformanceMonitor_round_def Let_def)
  then show ?case
    using q(1) total_last [of ?ss sent] total_last [of ?rs received]
    unfolding Let_def p by (simp add: x PerformanceMonitor_round_def Let_def)
qed

text \<open>
  The counts of a heartbeat: five seconds are the difference to the previous round, and the
  minute, which the code adds up from its ring of twelve differences, is the difference to the counter twelve
  rounds ago, modulo the width of the counters.
\<close>

theorem heartbeat_minute:
  "let p = PerformanceMonitor_rounds hyperthreads before (PerformanceMonitor_begin st0 p0);
       beat = fst (PerformanceMonitor_round st hyperthreads sent received p);
       sents = map (\<lambda>(st, sent, received). sent) before;
       receiveds = map (\<lambda>(st, sent, received). received) before;
       n = length before
   in hb_sentMessages5Sec beat = sent - total sents n \<and> hb_sentMessages60Sec beat = sent - total sents (n - 11) \<and>
      hb_receivedMessages5Sec beat = received - total receiveds n \<and>
      hb_receivedMessages60Sec beat = received - total receiveds (n - 11)"
proof -
  let ?p = "PerformanceMonitor_rounds hyperthreads before (PerformanceMonitor_begin st0 p0)"
  let ?ss = "map (\<lambda>(st, sent, received). sent) before" and ?rs = "map (\<lambda>(st, sent, received). received) before"
  note q = rounds_inv [of hyperthreads before st0 p0, unfolded Let_def]
  have "ring_inv (?ss @ [sent]) ((pf_sent ?p)[length before mod 12 := sent - total ?ss (length before)])"
    "ring_inv (?rs @ [received]) ((pf_received ?p)[length before mod 12 := received - total ?rs (length before)])"
    using q ring_inv_add [of ?ss "pf_sent ?p" sent] ring_inv_add [of ?rs "pf_received ?p" received] by simp_all
  then show ?thesis
    using q total_append [of "length before - 11" ?ss "[sent]"] total_append [of "length before - 11" ?rs "[received]"]
      total_last [of ?ss sent] total_last [of ?rs received]
    by (simp add: PerformanceMonitor_round_def Let_def ring_inv_def)
qed

end
