(* ===== verification/Exec_Comp.thy ===== *)
theory Exec_Comp
  imports Local_Sessions Computations Limits
begin

text \<open>
  The program \<^verbatim>\<open>execComp\<close> that runs one computation (\<^verbatim>\<open>cmd/execComp\<close>): its options become execution limits, its
  configuration file gives the computation, its address, the socket of the node and the routing; it loads and
  initializes the computation, connects and registers, runs it, and turns the result into an exit code.

  The command line and the file are given as parsed by boost and read; \<open>cores\<close>, a float in the
  code, is an exact fraction: a numerator with a positive denominator. What the logger is told is part of the state, the text it prints is not. The files that a
  configuration may ask to be written are listed with their text; a failed write only logs a warning.
\<close>

subsection \<open>Exit codes\<close>

definition EC_NORMAL :: int where "EC_NORMAL = 0"
definition EC_INVALID_CMDLINE :: int where "EC_INVALID_CMDLINE = 1"
definition EC_CONFIG_FILE_LOAD_ERROR :: int where "EC_CONFIG_FILE_LOAD_ERROR = 2"
definition EC_INVALID_CONFIG_DATA :: int where "EC_INVALID_CONFIG_DATA = 9"
definition EC_INITIALIZATION_FAILED :: int where "EC_INITIALIZATION_FAILED = 8"
definition EC_COMPUTATION_LOAD_ERROR :: int where "EC_COMPUTATION_LOAD_ERROR = 6"
definition EC_COMPUTATION_GO_TIMEOUT :: int where "EC_COMPUTATION_GO_TIMEOUT = 7"
definition EC_EXCEPTION_CAUGHT :: int where "EC_EXCEPTION_CAUGHT = 13"
definition EC_DISCONNECTED :: int where "EC_DISCONNECTED = 20"
definition EC_INTERNAL_ERROR :: int where "EC_INTERNAL_ERROR = 21"

lemmas exit_code_defs = EC_NORMAL_def EC_INVALID_CMDLINE_def EC_CONFIG_FILE_LOAD_ERROR_def EC_INVALID_CONFIG_DATA_def
  EC_INITIALIZATION_FAILED_def EC_COMPUTATION_LOAD_ERROR_def EC_COMPUTATION_GO_TIMEOUT_def EC_EXCEPTION_CAUGHT_def
  EC_DISCONNECTED_def EC_INTERNAL_ERROR_def

primrec ExecComp_exitCode :: "comp_exit_reason \<Rightarrow> int" where
  "ExecComp_exitCode CER_None = EC_NORMAL"
| "ExecComp_exitCode CER_Quit = EC_NORMAL"
| "ExecComp_exitCode CER_Disconnected = EC_DISCONNECTED"
| "ExecComp_exitCode CER_MessageError = EC_INTERNAL_ERROR"
| "ExecComp_exitCode CER_HandlerError = EC_INTERNAL_ERROR"
| "ExecComp_exitCode CER_StateError = EC_INTERNAL_ERROR"
| "ExecComp_exitCode CER_Timeout = EC_COMPUTATION_GO_TIMEOUT"
| "ExecComp_exitCode CER_StartException = EC_EXCEPTION_CAUGHT"
| "ExecComp_exitCode CER_StopException = EC_EXCEPTION_CAUGHT"

text \<open>The handlers around \<open>run\<close>. Undefined behaviour and a loop without end are no exceptions, and stay.\<close>

fun ExecComp_catch :: "exn \<Rightarrow> exn + int" where
  "ExecComp_catch (ComputationLoadError _) = Inr EC_COMPUTATION_LOAD_ERROR"
| "ExecComp_catch (Undefined m) = Inl (Undefined m)"
| "ExecComp_catch (NoReturn m) = Inl (NoReturn m)"
| "ExecComp_catch _ = Inr EC_EXCEPTION_CAUGHT"

subsection \<open>Reading the configuration\<close>

text \<open>
  The state of \<open>run\<close>. \<open>xe_comp\<close> is the configuration of the computation, which the code reaches through a
  reference into \<open>xe_config\<close>; nothing reads that part of \<open>xe_config\<close> again.
\<close>

record 'j exec_state =
  xe_config :: 'j
  xe_comp :: 'j
  xe_limits :: execution_limits
  xe_threshold :: int
  xe_style :: "int option"
  xe_trace :: int
  xe_process :: string
  xe_saved :: "(string \<times> string) list"

record 'j exec_setup =
  xs_name :: string
  xs_dso :: string
  xs_address :: address
  xs_ipc :: string
  xs_routing :: 'j

definition LOG_FATAL :: int where "LOG_FATAL = 0"
definition LOG_ERROR :: int where "LOG_ERROR = 1"
definition LOG_TRACE :: int where "LOG_TRACE = 5"

definition on_cfg :: "('j, 'a) proc \<Rightarrow> ('j exec_state, 'a) proc" where
  "on_cfg = zoom xe_config (\<lambda>c s. s\<lparr>xe_config := c\<rparr>)"

definition on_comp :: "('j, 'a) proc \<Rightarrow> ('j exec_state, 'a) proc" where
  "on_comp = zoom xe_comp (\<lambda>c s. s\<lparr>xe_comp := c\<rparr>)"

text \<open>\<open>config[k].isString()\<close>, then \<open>config[k].asString()\<close>.\<close>

definition ref_string :: "('j, 'z) json_obj_scheme \<Rightarrow> string \<Rightarrow> ('j, string option) proc" where
  "ref_string J k =
     bindp (js_ref J k) (\<lambda>v. if js_isString J v then bindp (liftr (js_asString J v)) (\<lambda>s. ret (Some s)) else ret None)"

text \<open>A value that must be there: without it \<open>run\<close> returns with the code for invalid configuration data.\<close>

definition need :: "('s, 'a option) proc \<Rightarrow> ('a \<Rightarrow> ('s, int + 'b) proc) \<Rightarrow> ('s, int + 'b) proc" where
  "need p f = bindp p (\<lambda>r. case r of None \<Rightarrow> ret (Inl EC_INVALID_CONFIG_DATA) | Some a \<Rightarrow> f a)"

definition log_level :: "int option \<Rightarrow> int" where
  "log_level level = (case level of None \<Rightarrow> LOG_ERROR | Some l \<Rightarrow> if LOG_FATAL \<le> l \<and> l \<le> LOG_TRACE then l else LOG_ERROR)"

definition ExecComp_logging :: "('j, 'z) json_obj_scheme \<Rightarrow> ('j exec_state, unit) proc" where
  "ExecComp_logging J =
     bindp (on_cfg (ref_int J ''logLevel'')) (\<lambda>level.
     seqp (upd (\<lambda>s. s\<lparr>xe_threshold := log_level level\<rparr>))
     (bindp (on_cfg (ref_int J ''consoleLogStyle'')) (\<lambda>style.
       case style of None \<Rightarrow> ret () | Some i \<Rightarrow> upd (\<lambda>s. s\<lparr>xe_style := Some i\<rparr>))))"

definition ExecComp_computation :: "('j, 'z) json_obj_scheme \<Rightarrow> ('j exec_state, string option) proc" where
  "ExecComp_computation J =
     bindp (on_cfg (js_ref J ''config'')) (\<lambda>cfg.
       if \<not> js_isObject J cfg \<or> js_size J cfg \<noteq> 1 then ret None
       else (case js_members J cfg of
               [] \<Rightarrow> raise (Undefined ''dereferenced end iterator'')
             | (name, cc) # _ \<Rightarrow> seqp (upd (\<lambda>s. s\<lparr>xe_comp := cc\<rparr>)) (ret (Some name))))"

definition save_file :: "string \<Rightarrow> string \<Rightarrow> ('j exec_state, unit) proc" where
  "save_file path t = upd (\<lambda>s. s\<lparr>xe_saved := xe_saved s @ [(path, t)]\<rparr>)"

definition ExecComp_saveConfig :: "('j, 'z) json_obj_scheme \<Rightarrow> ('j exec_state, unit) proc" where
  "ExecComp_saveConfig J =
     bindp (on_comp (ref_string J ''saveConfigTo'')) (\<lambda>path.
       case path of
         None \<Rightarrow> ret ()
       | Some path \<Rightarrow>
           bindp (gets (\<lambda>s. seqp (js_put J ''config'' (xe_comp s))
                              (js_at J ''limits'' (ExecutionLimits_toObject J (xe_limits s))) (js_null J))) (\<lambda>(r, toSave).
           seqp (liftr r) (save_file path (js_styled J toSave))))"

definition ExecComp_tracing :: "('j, 'z) json_obj_scheme \<Rightarrow> ('j exec_state, unit) proc" where
  "ExecComp_tracing J =
     bindp (on_comp (ref_int J ''traceThreshold'')) (\<lambda>t.
     bindp (case t of Some i \<Rightarrow> ret (Some i) | None \<Rightarrow> on_cfg (ref_int J ''traceThreshold'')) (\<lambda>t.
       upd (\<lambda>s. s\<lparr>xe_trace := (case t of Some i \<Rightarrow> i | None \<Rightarrow> 0)\<rparr>)))"

definition ExecComp_saveRouting :: "('j, 'z) json_obj_scheme \<Rightarrow> 'j \<Rightarrow> ('j exec_state, unit) proc" where
  "ExecComp_saveRouting J routing =
     bindp (on_comp (ref_string J ''saveRoutingTo'')) (\<lambda>path.
       case path of None \<Rightarrow> ret () | Some path \<Rightarrow> save_file path (js_styled J routing))"

text \<open>The first part of \<open>run\<close>: a code to return with, or what was read.\<close>

definition ExecComp_read :: "'u uuid_api_scheme \<Rightarrow> ('j, 'z) json_obj_scheme \<Rightarrow> ('j exec_state, int + 'j exec_setup) proc" where
  "ExecComp_read U J =
     seqp (ExecComp_logging J)
     (need (ExecComp_computation J) (\<lambda>name.
      seqp (ExecComp_saveConfig J)
      (seqp (ExecComp_tracing J)
      (need (on_comp (ref_string J ''dso'')) (\<lambda>dso.
       seqp (upd (\<lambda>s. s\<lparr>xe_process := ''comp-'' @ name\<rparr>))
       (need (on_cfg (ref_string J ''compId'')) (\<lambda>comp.
        need (on_cfg (ref_string J ''nodeId'')) (\<lambda>node.
        need (on_cfg (ref_string J ''sessionId'')) (\<lambda>session.
        need (on_cfg (ref_string J ''ipc'')) (\<lambda>ipc.
        bindp (on_cfg (js_ref J ''routing'')) (\<lambda>routing.
          if \<not> js_isObject J routing \<or> js_isNull J routing then ret (Inl EC_INVALID_CONFIG_DATA)
          else seqp (ExecComp_saveRouting J routing)
              (ret (Inr \<lparr>xs_name = name, xs_dso = dso,
                 xs_address = \<lparr>ad_session = UUID_parse U session, ad_node = UUID_parse U node, ad_computation = UUID_parse U comp\<rparr>,
                 xs_ipc = ipc, xs_routing = routing\<rparr>)))))))))))))"

subsection \<open>Preparing, connecting, running\<close>

text \<open>The computation is loaded, gets its routing and is initialized with the limits and its configuration.\<close>

definition ExecComp_environment ::
  "'u uuid_api_scheme \<Rightarrow> ('j, 'z) json_obj_scheme \<Rightarrow> ('c, 'j, 'm) computation_ops \<Rightarrow> 'c loader \<Rightarrow> execution_limits \<Rightarrow>
     'j exec_setup \<Rightarrow> ('j exec_state, int + ('c, 'e) comp_env) proc" where
  "ExecComp_environment U J C L defaultLimits x =
     bindp (liftr (CompEnvironmentImpl_new L defaultLimits (xs_name x) (xs_dso x) (xs_address x))) (\<lambda>v.
       case CompEnvironmentImpl_setRouting U J (xs_routing x) v of
         (Inl e, _) \<Rightarrow> raise e
       | (Inr False, _) \<Rightarrow> ret (Inl EC_INVALID_CONFIG_DATA)
       | (Inr True, v) \<Rightarrow> (\<lambda>s.
           case CompEnvironmentImpl_initializeComputation J C (v, xe_limits s, xe_comp s) of
             (r, v', l, c) \<Rightarrow>
               (case r of Inl e \<Rightarrow> Inl e | Inr res \<Rightarrow> Inr (if res = R_Invalid then Inl EC_INITIALIZATION_FAILED else Inr v'),
                s\<lparr>xe_limits := l, xe_comp := c\<rparr>)))"

definition ExecComp_registration :: "u32 \<Rightarrow> address \<Rightarrow> registration_data" where
  "ExecComp_registration junk a =
     (RegistrationData_new 4 0 0 junk)\<lparr>rd_type := registration_code REGISTRATION_EXECUTOR, rd_computationId := ad_computation a,
        rd_nodeId := ad_node a, rd_sessionId := ad_session a\<rparr>"

definition ExecComp_connectToServer :: "'o sock_os \<Rightarrow> u32 \<Rightarrow> u32 \<Rightarrow> address \<Rightarrow> string \<Rightarrow> ('o ipc_peer, unit) proc" where
  "ExecComp_connectToServer os junk padding a ipc =
     seqp (IPCSocketPeer_connect os ipc)
     (ip_zoom (Peer_send_or_throw os (Some (registration_bytes padding (ExecComp_registration junk a))) REGISTRATION_SIZE
        ''execComp::start''))"

text \<open>
  \<open>run\<close> up to the run of the computation. The state has the network beside that of \<open>run\<close>; the result has the
  environment, the peer and the files messages are to be saved to.
\<close>

record ('c, 'e, 'o) exec_ready =
  xr_env :: "('c, 'e) comp_env"
  xr_peer :: "'o ipc_peer"
  xr_saveIncoming :: "string option"
  xr_saveOutgoing :: "string option"

definition ExecComp_connected ::
  "('j, 'z) json_obj_scheme \<Rightarrow> 'o sock_os \<Rightarrow> u32 \<Rightarrow> u32 \<Rightarrow> 'j exec_setup \<Rightarrow> ('c, 'e) comp_env \<Rightarrow>
     ('j exec_state \<times> 'o, int + ('c, 'e, 'o) exec_ready) proc" where
  "ExecComp_connected J os junk padding x v =
     bindp (\<lambda>(s, net). case ExecComp_connectToServer os junk padding (xs_address x) (xs_ipc x) (IPCSocketPeer_new net) of
              (r, q) \<Rightarrow> (case r of Inl e \<Rightarrow> Inl e | Inr _ \<Rightarrow> Inr q, s, sp_os (ip_peer q))) (\<lambda>q.
     bindp (on_fst (on_comp (ref_string J ''saveIncomingTo''))) (\<lambda>incoming.
     bindp (on_fst (on_comp (ref_string J ''saveOutgoingTo''))) (\<lambda>outgoing.
       ret (Inr \<lparr>xr_env = v, xr_peer = q, xr_saveIncoming = incoming, xr_saveOutgoing = outgoing\<rparr>))))"

definition ExecComp_start ::
  "'u uuid_api_scheme \<Rightarrow> ('j, 'z) json_obj_scheme \<Rightarrow> ('c, 'j, 'm) computation_ops \<Rightarrow> 'c loader \<Rightarrow> execution_limits \<Rightarrow>
     'o sock_os \<Rightarrow> u32 \<Rightarrow> u32 \<Rightarrow> ('j exec_state \<times> 'o, int + ('c, 'e, 'o) exec_ready) proc" where
  "ExecComp_start U J C L defaultLimits os junk padding =
     bindp (on_fst (ExecComp_read U J)) (\<lambda>r. case r of
         Inl code \<Rightarrow> ret (Inl code)
       | Inr x \<Rightarrow> bindp (on_fst (ExecComp_environment U J C L defaultLimits x)) (\<lambda>r. case r of
             Inl code \<Rightarrow> ret (Inl code)
           | Inr v \<Rightarrow> ExecComp_connected J os junk padding x v))"

text \<open>\<open>runs\<close> is what \<open>runComputation\<close> comes to, one of the runs of the state machine of Computations.\<close>

definition ExecComp_run ::
  "'u uuid_api_scheme \<Rightarrow> ('j, 'z) json_obj_scheme \<Rightarrow> ('c, 'j, 'm) computation_ops \<Rightarrow> 'c loader \<Rightarrow> execution_limits \<Rightarrow>
     'o sock_os \<Rightarrow> u32 \<Rightarrow> u32 \<Rightarrow> (('c, 'e, 'o) exec_ready \<Rightarrow> execution_limits \<Rightarrow> exn + comp_exit_reason) \<Rightarrow>
     ('j exec_state \<times> 'o, int) proc" where
  "ExecComp_run U J C L defaultLimits os junk padding runs w =
     (case ExecComp_start U J C L defaultLimits os junk padding w of
        (Inl e, w') \<Rightarrow> (ExecComp_catch e, w')
      | (Inr (Inl code), w') \<Rightarrow> (Inr code, w')
      | (Inr (Inr x), w') \<Rightarrow>
          (case runs x (xe_limits (fst w')) of Inl e \<Rightarrow> ExecComp_catch e | Inr er \<Rightarrow> Inr (ExecComp_exitCode er), w'))"

subsection \<open>The program\<close>

definition envConfigMapper :: "string \<Rightarrow> string" where
  "envConfigMapper envVar =
     (if envVar = ''ARRAS_ATHENA_ENV'' then ''athena-env''
      else if envVar = ''ARRAS_ATHENA_HOST'' then ''athena-host''
      else if envVar = ''ARRAS_ATHENA_PORT'' then ''athena-port''
      else [])"

record exec_options =
  xo_memoryMB :: nat
  xo_useAffinity :: bool
  xo_cores :: "int \<times> int"
  xo_threadsPerCore :: u32
  xo_processorList :: "string option"
  xo_hyperthreadProcessorList :: "string option"
  xo_configFile :: "string option"

text \<open>The defaults of the options.\<close>

definition exec_options_default :: exec_options where
  "exec_options_default = \<lparr>xo_memoryMB = unat DEFAULT_MEM_MB, xo_useAffinity = True, xo_cores = (1, 1), xo_threadsPerCore = 1,
     xo_processorList = None, xo_hyperthreadProcessorList = None, xo_configFile = None\<rparr>"

text \<open>A float beyond the unsigned integers has no defined value as one.\<close>

definition initializeLimits :: "exec_options \<Rightarrow> (execution_limits, bool) proc" where
  "initializeLimits opts =
     seqp (upd (\<lambda>l. l\<lparr>xl_unlimited := False\<rparr>))
     (if xo_memoryMB opts > 4294967295 then ret False
      else seqp (upd (\<lambda>l. l\<lparr>xl_maxMemoryMB := of_nat (xo_memoryMB opts)\<rparr>))
      (if fst (xo_cores opts) < 0 then ret False
       else if fst (xo_cores opts) div snd (xo_cores opts) \<ge> 4294967296 then raise (Undefined ''float out of range of unsigned'')
       else seqp (upd (\<lambda>l. l\<lparr>xl_maxCores := word_of_int (fst (xo_cores opts) div snd (xo_cores opts))\<rparr>))
       (seqp (upd (\<lambda>l. l\<lparr>xl_threadsPerCore := xo_threadsPerCore opts\<rparr>))
       (if \<not> xo_useAffinity opts then ret True
        else (case xo_processorList opts of
                None \<Rightarrow> ret False
              | Some cpus \<Rightarrow> bindp (gets ExecutionLimits_usesHyperthreads) (\<lambda>hyper.
                  case xo_hyperthreadProcessorList opts of
                    None \<Rightarrow> if hyper then ret False else seqp (upd (\<lambda>l. snd (ExecutionLimits_enableAffinity cpus [] l))) (ret True)
                  | Some hts \<Rightarrow> seqp (upd (\<lambda>l. snd (ExecutionLimits_enableAffinity cpus hts l))) (ret True)))))))"

text \<open>\<open>file\<close> is the content of a file that can be opened.\<close>

definition loadConfig :: "('j, 'z) json_obj_scheme \<Rightarrow> (string \<Rightarrow> string option) \<Rightarrow> exec_options \<Rightarrow> ('j, bool) proc" where
  "loadConfig J file opts j =
     (case xo_configFile opts of
        None \<Rightarrow> (Inr False, j)
      | Some path \<Rightarrow>
          (case file path of
             None \<Rightarrow> (Inr False, j)
           | Some t \<Rightarrow>
               (case js_parse J t j of
                  (Inl e, j') \<Rightarrow> (if is_std_exception e then Inr False else Inl e, j')
                | (Inr _, j') \<Rightarrow> (Inr True, j'))))"

text \<open>An exception that leaves \<open>main\<close> ends the program.\<close>

definition uncaught :: "exn + 'a \<Rightarrow> exn + 'a" where
  "uncaught r = (case r of Inl e \<Rightarrow> Inl (if is_std_exception e then Undefined ''std::terminate'' else e) | Inr a \<Rightarrow> Inr a)"

text \<open>What \<open>main\<close> reads of the configuration before \<open>run\<close>, for the logger and (\<open>crash\<close>) the crash reporter.\<close>

definition main_names :: "('j, 'z) json_obj_scheme \<Rightarrow> bool \<Rightarrow> ('j, unit) proc" where
  "main_names J crash =
     bindp (js_ref J ''sessionId'') (\<lambda>v. bindp (liftr (js_asString J v)) (\<lambda>sessionId.
       if \<not> crash then ret ()
       else bindp (js_ref J ''config'') (\<lambda>cfg.
         case js_members J cfg of
           [] \<Rightarrow> raise (Undefined ''dereferenced end iterator'')
         | (compName, cc) # _ \<Rightarrow>
             let dsoName = bindp (js_ref J ''dso'') (\<lambda>v. bindp (liftr (js_asString J v)) (\<lambda>dsoName. ret ()))
             in if js_isMap J cfg then js_at J ''config'' (js_at J compName dsoName) else liftr (fst (dsoName cc)))))"

definition execComp_main ::
  "'u uuid_api_scheme \<Rightarrow> ('j, 'z) json_obj_scheme \<Rightarrow> ('c, 'j, 'm) computation_ops \<Rightarrow> 'c loader \<Rightarrow> (string \<Rightarrow> string option) \<Rightarrow>
     'o sock_os \<Rightarrow> u32 \<Rightarrow> u32 \<Rightarrow> (('c, 'e, 'o) exec_ready \<Rightarrow> execution_limits \<Rightarrow> exn + comp_exit_reason) \<Rightarrow> bool \<Rightarrow> nat set \<Rightarrow>
     exec_options \<Rightarrow> 'o \<Rightarrow> (exn + int) \<times> 'o" where
  "execComp_main U J C L file os junk padding runs crash uninit opts net =
     (case initializeLimits opts (ExecutionLimits_default uninit) of
        (Inl e, _) \<Rightarrow> (uncaught (Inl e), net)
      | (Inr False, _) \<Rightarrow> (Inr EC_INVALID_CMDLINE, net)
      | (Inr True, limits) \<Rightarrow>
          (case loadConfig J file opts (js_null J) of
             (Inl e, _) \<Rightarrow> (uncaught (Inl e), net)
           | (Inr False, _) \<Rightarrow> (Inr EC_CONFIG_FILE_LOAD_ERROR, net)
           | (Inr True, config) \<Rightarrow>
               (case main_names J crash config of
                  (Inl e, _) \<Rightarrow> (uncaught (Inl e), net)
                | (Inr _, config) \<Rightarrow>
                    (case ExecComp_run U J C L (ExecutionLimits_default uninit) os junk padding runs
                        (\<lparr>xe_config = config, xe_comp = js_null J, xe_limits = limits, xe_threshold = LOG_ERROR, xe_style = None,
                          xe_trace = 0, xe_process = ''comp'', xe_saved = []\<rparr>, net) of
                       (r, _, net') \<Rightarrow> (r, net')))))"

subsection \<open>Reading a configuration that is complete\<close>

text \<open>
  What reading relies on beyond the laws of \<open>json_obj_ok\<close>: strings can be read, an \<open>int\<close> that was read is one,
  small unsigned values can be read as \<open>int\<close>, and the null value is no number.
\<close>

definition json_read_ok :: "('j, 'z) json_obj_scheme \<Rightarrow> bool" where
  "json_read_ok J \<longleftrightarrow> (\<forall>v. js_isString J v \<longrightarrow> (\<exists>s. js_asString J v = Inr s)) \<and>
     (\<forall>v i. js_asInt J v = Inr i \<longrightarrow> - 2147483648 \<le> i \<and> i \<le> 2147483647) \<and>
     (\<forall>n. n \<le> 2147483647 \<longrightarrow> js_asInt J (js_ofUInt J n) = Inr (int n)) \<and> \<not> js_isIntegral J (js_null J)"

lemma json_obj_impl_read: "json_read_ok json_obj_impl"
proof -
  have "\<exists>s. json_asString v = Inr s" if "json_type v = stringValue" for v
    using that by (cases v) simp_all
  moreover have "- 2147483648 \<le> i \<and> i \<le> 2147483647" if "json_asInt v = Inr i" for v i
    using that by (cases v) (simp_all split: if_splits)
  ultimately show ?thesis
    by (simp add: json_read_ok_def json_obj_impl_def json_impl_def js_isString_def json_api.extend_def)
qed

text \<open>From every state with \<open>P\<close>, \<open>p\<close> returns a value in \<open>A\<close> in a state with \<open>Q\<close>.\<close>

definition runs_to :: "('s \<Rightarrow> bool) \<Rightarrow> ('s, 'a) proc \<Rightarrow> 'a set \<Rightarrow> ('s \<Rightarrow> bool) \<Rightarrow> bool" where
  "runs_to P p A Q \<longleftrightarrow> (\<forall>s. P s \<longrightarrow> (\<exists>a s'. p s = (Inr a, s') \<and> a \<in> A \<and> Q s'))"

lemma runs_to_bindp:
  assumes "runs_to P p A Q" and "\<And>a. a \<in> A \<Longrightarrow> runs_to Q (f a) B R"
  shows "runs_to P (bindp p f) B R"
  unfolding runs_to_def
proof (intro allI impI)
  fix s assume "P s"
  then obtain a s1 where s1: "p s = (Inr a, s1)" "a \<in> A" "Q s1" using assms(1) unfolding runs_to_def by blast
  then obtain b s2 where "f a s1 = (Inr b, s2)" "b \<in> B" "R s2" using assms(2) unfolding runs_to_def by blast
  then show "\<exists>b s'. bindp p f s = (Inr b, s') \<and> b \<in> B \<and> R s'" using s1(1) by simp
qed

lemma runs_to_seqp: "runs_to P p A Q \<Longrightarrow> runs_to Q q B R \<Longrightarrow> runs_to P (seqp p q) B R"
  unfolding seqp_def by (rule runs_to_bindp)

lemma runs_to_need: "runs_to P p {Some a} Q \<Longrightarrow> runs_to Q (f a) B R \<Longrightarrow> runs_to P (need p f) B R"
  unfolding need_def by (rule runs_to_bindp) auto

lemma runs_to_ret: "a \<in> A \<Longrightarrow> runs_to P (ret a) A P"
  by (simp add: runs_to_def)

lemma runs_to_upd: "(\<And>s. P s \<Longrightarrow> Q (f s)) \<Longrightarrow> runs_to P (upd f) UNIV Q"
  by (simp add: runs_to_def)

text \<open>A reference leaves the view of a value as it was.\<close>

lemma js_ref_rep:
  assumes J: "json_obj_ok J" and r: "js_rep J j f K"
  shows "\<exists>j'. js_ref J k j = (Inr (f k), j') \<and> js_rep J j' f (insert k K)"
proof -
  have m: "js_isMap J j" using r by (simp add: js_rep_def)
  obtain j' where j': "js_set J k (f k) j = Inr j'" "js_type J j' = objectValue" "js_get J j' k = Inr (f k)"
      "\<forall>k'. k' \<noteq> k \<longrightarrow> js_get J j' k' = js_get J j k'" "set (map fst (js_members J j')) = insert k (set (map fst (js_members J j)))"
    using obj_ok_set [OF J m, of k "f k"] by blast
  have "js_rep J j' f (insert k K)"
    unfolding js_rep_def
  proof (intro conjI allI)
    show "js_get J j' k' = Inr (f k')" for k' using j'(3,4) js_rep_get [OF r] by (cases "k' = k") auto
  qed (use j'(2,5) r in \<open>auto simp: js_isMap_def js_rep_def\<close>)
  then show ?thesis using j'(1) js_rep_get [OF r] by (intro exI [of _ j']) (simp add: js_ref_def)
qed

definition views :: "('j, 'z) json_obj_scheme \<Rightarrow> (string \<Rightarrow> 'j) \<Rightarrow> 'j \<Rightarrow> bool" where
  "views J f j \<longleftrightarrow> (\<exists>K. js_rep J j f K)"

lemma runs_to_ref: "json_obj_ok J \<Longrightarrow> runs_to (views J f) (js_ref J k) {f k} (views J f)"
  unfolding runs_to_def
proof (intro allI impI)
  fix j assume J: "json_obj_ok J" and "views J f j"
  then obtain K where "js_rep J j f K" unfolding views_def by blast
  from js_ref_rep [OF J this, of k] show "\<exists>a s'. js_ref J k j = (Inr a, s') \<and> a \<in> {f k} \<and> views J f s'"
    unfolding views_def by auto
qed

lemma runs_to_ref_int:
  assumes "json_obj_ok J" and "js_isIntegral J (f k) \<Longrightarrow> \<exists>i. js_asInt J (f k) = Inr i"
  shows "runs_to (views J f) (ref_int J k) {if js_isIntegral J (f k) then Some (projr (js_asInt J (f k))) else None} (views J f)"
  unfolding ref_int_def
  by (rule runs_to_bindp [OF runs_to_ref [OF assms(1)]]) (use assms(2) in \<open>auto simp: runs_to_def bindp_def\<close>)

lemma runs_to_ref_string:
  assumes "json_obj_ok J" and "js_isString J (f k) \<Longrightarrow> \<exists>i. js_asString J (f k) = Inr i"
  shows "runs_to (views J f) (ref_string J k) {if js_isString J (f k) then Some (projr (js_asString J (f k))) else None} (views J f)"
  unfolding ref_string_def
  by (rule runs_to_bindp [OF runs_to_ref [OF assms(1)]]) (use assms(2) in \<open>auto simp: runs_to_def bindp_def\<close>)

text \<open>The same for the two values in the state of \<open>run\<close>.\<close>

definition cfg_views :: "('j, 'z) json_obj_scheme \<Rightarrow> (string \<Rightarrow> 'j) \<Rightarrow> 'j exec_state \<Rightarrow> bool" where
  "cfg_views J f s \<longleftrightarrow> views J f (xe_config s)"

definition both_views :: "('j, 'z) json_obj_scheme \<Rightarrow> (string \<Rightarrow> 'j) \<Rightarrow> (string \<Rightarrow> 'j) \<Rightarrow> 'j exec_state \<Rightarrow> bool" where
  "both_views J f g s \<longleftrightarrow> views J f (xe_config s) \<and> views J g (xe_comp s)"

lemma runs_to_zoom:
  assumes "runs_to P p A P" and "\<And>t. R t \<Longrightarrow> P (g t)" and "\<And>t s. R t \<Longrightarrow> P s \<Longrightarrow> R (put s t)"
  shows "runs_to R (zoom g put p) A R"
  unfolding runs_to_def
proof (intro allI impI)
  fix t assume t: "R t"
  then obtain a s' where "p (g t) = (Inr a, s')" "a \<in> A" "P s'" using assms(1,2) unfolding runs_to_def by blast
  then show "\<exists>a t'. zoom g put p t = (Inr a, t') \<and> a \<in> A \<and> R t'" using assms(3) [OF t] by simp
qed

lemma runs_to_on_cfg: "runs_to (views J f) p A (views J f) \<Longrightarrow> runs_to (cfg_views J f) (on_cfg p) A (cfg_views J f)"
  unfolding on_cfg_def by (rule runs_to_zoom) (simp_all add: cfg_views_def)

lemma runs_to_on_both: "runs_to (views J f) p A (views J f) \<Longrightarrow> runs_to (both_views J f g) (on_cfg p) A (both_views J f g)"
  unfolding on_cfg_def by (rule runs_to_zoom) (simp_all add: both_views_def)

lemma runs_to_on_comp: "runs_to (views J g) p A (views J g) \<Longrightarrow> runs_to (both_views J f g) (on_comp p) A (both_views J f g)"
  unfolding on_comp_def by (rule runs_to_zoom) (simp_all add: both_views_def)

text \<open>
  \<open>complete_config\<close>: the configuration has what \<open>run\<close> asks for, and the one computation in it none of the
  settings for tracing and for saving files.
\<close>

definition complete_config ::
  "('j, 'z) json_obj_scheme \<Rightarrow> (string \<Rightarrow> 'j) \<Rightarrow> string \<Rightarrow> 'j \<Rightarrow> (string \<Rightarrow> 'j) \<Rightarrow> string \<Rightarrow> bool" where
  "complete_config J f name cc g dso \<longleftrightarrow>
     (\<forall>k \<in> {''logLevel'', ''consoleLogStyle''}. js_isIntegral J (f k) \<longrightarrow> (\<exists>i. js_asInt J (f k) = Inr i)) \<and>
     f ''traceThreshold'' = js_null J \<and>
     js_isObject J (f ''config'') \<and> js_size J (f ''config'') = 1 \<and> js_members J (f ''config'') = [(name, cc)] \<and> views J g cc \<and>
     g ''saveConfigTo'' = js_null J \<and> g ''saveRoutingTo'' = js_null J \<and> g ''traceThreshold'' = js_null J \<and>
     js_isString J (g ''dso'') \<and> js_asString J (g ''dso'') = Inr dso \<and>
     js_isObject J (f ''routing'') \<and> \<not> js_isNull J (f ''routing'')"

lemma runs_to_weaken: "runs_to P p A Q \<Longrightarrow> A \<subseteq> B \<Longrightarrow> runs_to P p B Q"
  unfolding runs_to_def by blast

lemma runs_to_computation:
  assumes J: "json_obj_ok J" and c: "complete_config J f name cc g dso"
  shows "runs_to (cfg_views J f) (ExecComp_computation J) {Some name} (both_views J f g)"
proof -
  have "runs_to (cfg_views J f) (seqp (upd (\<lambda>s. s\<lparr>xe_comp := cc\<rparr>)) (ret (Some name))) {Some name} (both_views J f g)"
    by (rule runs_to_seqp [OF runs_to_upd runs_to_ret]) (use c in \<open>simp_all add: cfg_views_def both_views_def complete_config_def\<close>)
  then show ?thesis
    unfolding ExecComp_computation_def
    by (intro runs_to_bindp [OF runs_to_on_cfg [OF runs_to_ref [OF J]]]) (use c in \<open>simp add: complete_config_def\<close>)
qed

lemma runs_to_string:
  assumes "json_obj_ok J" and "js_isString J (f k)" and "js_asString J (f k) = Inr t"
  shows "runs_to (views J f) (ref_string J k) {Some t} (views J f)"
  using runs_to_ref_string [of J f k] assms by simp

lemma runs_to_no_string:
  assumes "json_obj_ok J" and "f k = js_null J"
  shows "runs_to (views J f) (ref_string J k) {None} (views J f)"
  using runs_to_ref_string [of J f k] assms js_null_not_string [OF assms(1)] by simp

lemma runs_to_no_int:
  assumes "json_obj_ok J" and "json_read_ok J" and "f k = js_null J"
  shows "runs_to (views J f) (ref_int J k) {None} (views J f)"
  using runs_to_ref_int [of J f k] assms by (simp add: json_read_ok_def)

lemma runs_to_logging:
  assumes J: "json_obj_ok J" and c: "\<forall>k \<in> {''logLevel'', ''consoleLogStyle''}. js_isIntegral J (f k) \<longrightarrow> (\<exists>i. js_asInt J (f k) = Inr i)"
  shows "runs_to (cfg_views J f) (ExecComp_logging J) UNIV (cfg_views J f)"
proof -
  have i: "runs_to (cfg_views J f) (on_cfg (ref_int J k)) UNIV (cfg_views J f)" if "k \<in> {''logLevel'', ''consoleLogStyle''}" for k
    using c that
    by (intro runs_to_on_cfg runs_to_weaken [OF runs_to_ref_int [OF J]]) auto
  have u: "runs_to (cfg_views J f) (upd h) UNIV (cfg_views J f)" if "\<And>s. xe_config (h s) = xe_config s" for h
    by (rule runs_to_upd) (simp add: cfg_views_def that)
  show ?thesis
    unfolding ExecComp_logging_def
    by (rule runs_to_bindp [OF i runs_to_seqp [OF u runs_to_bindp [OF i]]])
      (auto split: option.splits intro: u runs_to_ret)
qed

lemma runs_to_saveConfig:
  assumes J: "json_obj_ok J" and "g ''saveConfigTo'' = js_null J"
  shows "runs_to (both_views J f g) (ExecComp_saveConfig J) UNIV (both_views J f g)"
  unfolding ExecComp_saveConfig_def
  by (rule runs_to_bindp [OF runs_to_on_comp [OF runs_to_no_string [where f = g, OF assms]]]) (simp add: runs_to_ret)

lemma runs_to_saveRouting:
  assumes J: "json_obj_ok J" and "g ''saveRoutingTo'' = js_null J"
  shows "runs_to (both_views J f g) (ExecComp_saveRouting J r) UNIV (both_views J f g)"
  unfolding ExecComp_saveRouting_def
  by (rule runs_to_bindp [OF runs_to_on_comp [OF runs_to_no_string [where f = g, OF assms]]]) (simp add: runs_to_ret)

lemma runs_to_both_upd: "(\<And>s. xe_config (h s) = xe_config s \<and> xe_comp (h s) = xe_comp s) \<Longrightarrow>
    runs_to (both_views J f g) (upd h) UNIV (both_views J f g)"
  by (rule runs_to_upd) (simp add: both_views_def)

lemma runs_to_tracing:
  assumes J: "json_obj_ok J" "json_read_ok J" and "g ''traceThreshold'' = js_null J" and "f ''traceThreshold'' = js_null J"
  shows "runs_to (both_views J f g) (ExecComp_tracing J) UNIV (both_views J f g)"
  unfolding ExecComp_tracing_def
  by (rule runs_to_bindp [OF runs_to_on_comp [OF runs_to_no_int [where f = g, OF J assms(3)]]], rule runs_to_bindp [where A = UNIV and Q = "both_views J f g"])
    (auto intro!: runs_to_both_upd intro: runs_to_weaken [OF runs_to_on_both [OF runs_to_no_int [where f = f, OF J assms(4)]]])

lemma read_complete:
  assumes J: "json_obj_ok J" "json_read_ok J" and c: "complete_config J f name cc g dso"
    and s: "\<And>k. k \<in> {''compId'', ''nodeId'', ''sessionId'', ''ipc''} \<Longrightarrow> js_isString J (f k) \<and> js_asString J (f k) = Inr (t k)"
  shows "runs_to (cfg_views J f) (ExecComp_read U J)
    {Inr \<lparr>xs_name = name, xs_dso = dso, xs_address = \<lparr>ad_session = UUID_parse U (t ''sessionId''), ad_node = UUID_parse U (t ''nodeId''),
       ad_computation = UUID_parse U (t ''compId'')\<rparr>, xs_ipc = t ''ipc'', xs_routing = f ''routing''\<rparr>} (both_views J f g)"
proof -
  have c': "g ''saveConfigTo'' = js_null J" "g ''saveRoutingTo'' = js_null J" "g ''traceThreshold'' = js_null J" "f ''traceThreshold'' = js_null J"
      "js_isString J (g ''dso'')" "js_asString J (g ''dso'') = Inr dso" "js_isObject J (f ''routing'')" "\<not> js_isNull J (f ''routing'')"
    and log: "\<forall>k \<in> {''logLevel'', ''consoleLogStyle''}. js_isIntegral J (f k) \<longrightarrow> (\<exists>i. js_asInt J (f k) = Inr i)"
    using c unfolding complete_config_def by blast+
  have str: "runs_to (both_views J f g) (on_cfg (ref_string J k)) {Some (t k)} (both_views J f g)"
    if "k \<in> {''compId'', ''nodeId'', ''sessionId'', ''ipc''}" for k
    by (rule runs_to_on_both [OF runs_to_string [OF J(1)]]) (use s [OF that] in simp_all)
  show ?thesis
    unfolding ExecComp_read_def
    by (rule runs_to_seqp [OF runs_to_logging [OF J(1) log]], rule runs_to_need [OF runs_to_computation [OF J(1) c]],
        rule runs_to_seqp [OF runs_to_saveConfig [where g = g, OF J(1) c'(1)]], rule runs_to_seqp [OF runs_to_tracing [where f = f and g = g, OF J c'(3,4)]],
        rule runs_to_need [OF runs_to_on_comp [OF runs_to_string [where f = g, OF J(1) c'(5,6)]]], rule runs_to_seqp [OF runs_to_both_upd], simp,
        (rule runs_to_need [OF str], simp)+, rule runs_to_bindp [OF runs_to_on_both [OF runs_to_ref [OF J(1)]]])
      (simp add: c'(7,8), rule runs_to_seqp [OF runs_to_saveRouting [where g = g, OF J(1) c'(2)] runs_to_ret], simp)
qed

subsection \<open>The configuration of a local session\<close>

lemma single_member:
  assumes J: "json_obj_ok J" and r: "js_rep J j f {k}"
  shows "js_members J j = [(k, f k)]"
proof -
  have m: "js_isMap J j" and g: "js_get J j k = Inr (f k)" and s: "set (map fst (js_members J j)) = {k}"
    using r by (simp_all add: js_rep_def)
  have "distinct (map fst (js_members J j))" by (rule obj_ok_members(1) [OF J m])
  then have "length (map fst (js_members J j)) = card {k}" using s distinct_card by metis
  then obtain x where x: "js_members J j = [x]" by (auto simp: length_Suc_conv)
  then have "js_get J j (fst x) = Inr (snd x)" using obj_ok_members(2) [OF J m, of "fst x" "snd x"] by simp
  then show ?thesis using x s g by (cases x) simp
qed

lemma no_member:
  assumes "js_rep J j f {}"
  shows "js_members J j = []"
  using assms by (simp add: js_rep_def)

lemma string_laws:
  assumes "json_ok J"
  shows "js_isString J (js_ofString J s)" and "js_asString J (js_ofString J s) = Inr s"
  using assms unfolding json_ok_def by blast+

lemma js_strings_ok: "json_read_ok J \<Longrightarrow> \<exists>ss. js_strings J es = Inr ss"
proof (induction es)
  case (Cons e es)
  then show ?case by (cases e) (force simp: json_read_ok_def)
qed simp

lemma filter_strings_ok:
  assumes "json_obj_ok J" and "json_read_ok J" and "js_isObject J v"
  shows "\<exists>ss. filter_strings J v k = Inr ss"
proof -
  obtain a where "js_get J v k = Inr a" using js_get_ok [OF assms(1) obj_ok_isObject [OF assms(1,3)]] by blast
  then show ?thesis using js_strings_ok [OF assms(2)] by (auto simp: filter_strings_def)
qed

lemma client_filter_ok:
  assumes J: "json_obj_ok J" "json_read_ok J" and f: "client_filter J fo sf"
    and cm: "ComputationMap_getAddressByName U cm ''(client)'' = Inr a"
  shows "\<exists>ag'. Addressing_filters U J cm (js_members J fo) ag = Inr ag'"
proof (cases "js_members J fo")
  case Nil
  then show ?thesis by simp
next
  case (Cons e es)
  with f no_member have sf: "js_isObject J sf" and "js_rep J fo ((\<lambda>_. js_null J)(''(client)'' := sf)) {''(client)''}"
    by (fastforce simp: client_filter_def)+
  from single_member [OF J(1) this(2)] have m: "js_members J fo = [(''(client)'', sf)]" by simp
  obtain accepts ignores where "filter_strings J sf ''accept'' = Inr accepts" "filter_strings J sf ''ignore'' = Inr ignores"
    using filter_strings_ok [OF J sf] by blast
  then show ?thesis by (simp add: m Addressing_filter_def cm)
qed

text \<open>The routing data that \<open>buildRouting\<close> writes is accepted by the environment of the computation.\<close>

lemma session_routing_accepted:
  assumes J: "json_obj_ok J" "json_read_ok J" and U: "uuid_api_ok U" and id: "ad_computation a \<noteq> UUID_null"
    and sid: "UUID_toString U (ad_session a) = sid" "sid \<noteq> ''messageFilter''"
    and r: "js_rep J r ((\<lambda>_. js_null J)(sid := sv, ''messageFilter'' := mf)) {''messageFilter'', sid}"
    and sv: "js_rep J sv ((\<lambda>_. js_null J)(''computations'' := cs)) {''computations''}"
    and cs: "js_rep J cs ((\<lambda>_. js_null J)(name := e)) {name}" "js_type J cs = objectValue"
    and e: "js_rep J e ((\<lambda>_. js_null J)(''compId'' := uuid_json U J (ad_computation a), ''nodeId'' := uuid_json U J (ad_node a)))
      {''nodeId'', ''compId''}"
    and mf: "js_type J mf = objectValue" "js_rep J mf ((\<lambda>_. js_null J)(name := fo)) {name}" and fo: "client_filter J fo sf"
    and name: "name \<noteq> ''(client)''" and v: "cv_address v = a"
  shows "\<exists>v'. CompEnvironmentImpl_setRouting U J r v = (Inr True, v')"
proof -
  note str = string_laws [OF obj_ok_json [OF J(1)]]
  let ?cm0 = "\<lparr>cm_nameToId = [], cm_idToName = [], cm_idToAddress = []\<rparr>"
  let ?cm = "\<lparr>cm_nameToId = map_set cm_client UUID_null [(name, ad_computation a)],
     cm_idToName = map_set UUID_null cm_client [(ad_computation a, name)],
     cm_idToAddress = map_set UUID_null (Address_null\<lparr>ad_session := ad_session a\<rparr>) [(ad_computation a, a)]\<rparr>"
  have "js_members J cs = [(name, e)]" using single_member [OF J(1) cs(1)] by simp
  moreover have "js_get J e ''compId'' = Inr (uuid_json U J (ad_computation a))" "js_get J e ''nodeId'' = Inr (uuid_json U J (ad_node a))"
    using js_rep_get [OF e] by simp_all
  ultimately have cm: "ComputationMap_new U J (ad_session a) cs = Inr ?cm"
    by (simp add: ComputationMap_new_def js_string_def uuid_json_def str U Let_def)
  have "ComputationMap_getAddressByName U ?cm ''(client)'' = Inr (Address_null\<lparr>ad_session := ad_session a\<rparr>)"
    by (simp add: ComputationMap_getAddressByName_def ComputationMap_getComputationId_def ComputationMap_getComputationAddress_def
        cm_client_def)
  note filters = client_filter_ok [OF J fo this]
  have look: "ComputationMap_getComputationAddress U ?cm (ad_computation a) = Inr a"
      "ComputationMap_getComputationName U ?cm (ad_computation a) = Inr name"
    using id by (simp_all add: ComputationMap_getComputationAddress_def ComputationMap_getComputationName_def)
  have "js_get J mf name = Inr fo" using js_rep_get [OF mf(2)] by simp
  then obtain ag where ag: "Addressing_new U J (ad_computation a) ?cm mf = Inr ag"
    using look filters by (fastforce simp: Addressing_new_def Let_def)
  have "js_get J r sid = Inr sv" "js_get J r ''messageFilter'' = Inr mf" "js_get J sv ''computations'' = Inr cs"
    using js_rep_get [OF r] js_rep_get [OF sv] sid(2) by simp_all
  then show ?thesis
    using cm ag cs(2) mf(1) obj_ok_object [OF J(1)] v sid(1)
    by (simp add: CompEnvironmentImpl_setRouting_def Addresser_update_def on_addresser_def js_isNull_def bindp_def seqp_def zoom_def)
qed


subsection \<open>A session that gets there\<close>

definition returns :: "('s, 'a) proc \<Rightarrow> bool" where
  "returns p \<longleftrightarrow> (\<forall>s. \<exists>a s'. p s = (Inr a, s'))"

lemma returns_bindp: "returns p \<Longrightarrow> (\<And>a. returns (f a)) \<Longrightarrow> returns (bindp p f)"
  unfolding returns_def by (metis bindp_Inr)

lemma returns_seqp: "returns p \<Longrightarrow> returns q \<Longrightarrow> returns (seqp p q)"
  unfolding seqp_def by (rule returns_bindp)

lemma returns_value: "(\<And>s. p s = (Inr a, s)) \<Longrightarrow> returns (f a) \<Longrightarrow> returns (bindp p f)"
  unfolding returns_def by (metis bindp_Inr)

lemma returns_liftr: "r = Inr a \<Longrightarrow> returns (f a) \<Longrightarrow> returns (bindp (liftr r) f)"
  by (rule returns_value) simp_all

text \<open>Routing data for a client whose definition filters no messages.\<close>

lemma buildRouting_runs:
  fixes w :: "('j, 'o) session_world"
  assumes J: "json_obj_ok J" and c: "js_rep J (ls_execConfig (sw_session w)) f K" and f: "f ''routing'' = js_null J"
    and sid: "UUID_toString U (ad_session (ls_address (sw_session w))) \<noteq> ''messageFilter''"
    and client: "js_isObject J client" "js_get J client ''messages'' = Inr m" "\<not> js_isObject J m"
  shows "\<exists>c. LocalSession_buildRouting U J client w = (Inr (), set_config c w)"
proof -
  let ?n = "\<lambda>_ :: string. js_null J" and ?a = "ls_address (sw_session w)" and ?name = "ls_name (sw_session w)"
  let ?sid = "UUID_toString U (ad_session ?a)"
  note null = js_rep_null [OF J]
  let ?put = "seqp (js_put J ''compId'' (uuid_json U J (ad_computation ?a))) (js_put J ''nodeId'' (uuid_json U J (ad_node ?a)))"
  note b1 = js_builds_seq [OF js_builds_put [OF J] js_builds_put [OF J]]
  obtain e where "js_builds J ?n {} (js_at J ?name ?put) (?n(?name := e)) {?name}"
    using js_builds_at [where f = ?n and k = ?name and K = "{}", OF J null b1] by blast
  then obtain cs where "js_builds J ?n {} (js_at J ''computations'' (js_at J ?name ?put)) (?n(''computations'' := cs)) {''computations''}"
    using js_builds_at [where f = ?n and k = "''computations''" and K = "{}", OF J null] by blast
  then obtain sv where "js_builds J ?n {} (js_at J ?sid (js_at J ''computations'' (js_at J ?name ?put))) (?n(?sid := sv)) {?sid}"
    using js_builds_at [where f = ?n and k = ?sid and K = "{}", OF J null] by blast
  from js_builds_at [where f = f and k = "''routing''" and K = K, OF J null this f] obtain r1 where
    r1: "js_rep J r1 (?n(?sid := sv)) {?sid}" "js_builds J f K (js_at J ''routing'' (js_at J ?sid (js_at J ''computations'' (js_at J ?name ?put))))
      (f(''routing'' := r1)) (insert ''routing'' K)" by blast
  from on_config_builds [OF r1(2) c] obtain c1 where
    c1: "on_config (js_at J ''routing'' (js_at J ?sid (js_at J ''computations'' (js_at J ?name ?put)))) w = (Inr (), set_config c1 w)"
      "js_rep J c1 (f(''routing'' := r1)) (insert ''routing'' K)" by blast
  have "(?n(?sid := sv)) ''messageFilter'' = js_null J" using sid by simp
  from js_builds_at [where f = "?n(?sid := sv)" and k = "''messageFilter''" and K = "{?sid}", OF J null
      js_builds_put [OF J, where k = ?name and v = "js_emptyObject J"] this]
  obtain m1 where m1: "js_builds J (?n(?sid := sv)) {?sid} (js_at J ''messageFilter'' (js_put J ?name (js_emptyObject J)))
      (?n(?sid := sv, ''messageFilter'' := m1)) {''messageFilter'', ?sid}" by blast
  have "(f(''routing'' := r1)) ''routing'' = r1" by simp
  from js_builds_at [where f = "f(''routing'' := r1)" and k = "''routing''" and K = "insert ''routing'' K", OF J r1(1) m1 this]
  obtain r2 where r2: "js_builds J (f(''routing'' := r1)) (insert ''routing'' K)
      (js_at J ''routing'' (js_at J ''messageFilter'' (js_put J ?name (js_emptyObject J)))) (f(''routing'' := r1, ''routing'' := r2))
      (insert ''routing'' (insert ''routing'' K))" by blast
  have "js_rep J (ls_execConfig (sw_session (set_config c1 w))) (f(''routing'' := r1)) (insert ''routing'' K)" using c1(2) by simp
  from on_config_builds [OF r2 this] obtain c2 where
    "on_config (js_at J ''routing'' (js_at J ''messageFilter'' (js_put J ?name (js_emptyObject J)))) (set_config c1 w) = (Inr (), set_config c2 w)"
    by auto
  then show ?thesis
    using c1(1) client unfolding LocalSession_buildRouting_def uuid_json_def by (intro exI [of _ c2]) (simp add: Let_def)
qed

text \<open>A definition with one computation that runs in the environment of the client.\<close>

definition sample_comp :: json where
  "sample_comp = JObject [(''dso'', JString ''libcomp.so''),
     (''requirements'', JObject [(''packaging_system'', JString ''current-environment'')])]"

definition sample_session_def :: json where
  "sample_session_def = JObject [(''computations'', JObject [(''(client)'', JObject []), (''comp'', sample_comp)])]"

lemmas json_obj_impl_unfold = json_obj_impl_def json_impl_def json_api.extend_def

abbreviation sample_requirements :: json where
  "sample_requirements \<equiv> JObject [(''packaging_system'', JString ''current-environment'')]"

lemma sample_map: "js_isMap json_obj_impl sample_comp"
  by (simp add: js_isMap_def sample_comp_def json_obj_impl_unfold)

lemma sample_lookups:
  "getObject json_obj_impl sample_comp ''requirements'' = Inr sample_requirements"
  "getObject json_obj_impl sample_requirements ''resources'' = Inr (JObject [])"
  "js_get json_obj_impl (JObject []) ''logLevel'' = Inr JNull"
  "(if js_isNumeric json_obj_impl JNull then js_asInt json_obj_impl JNull else Inr DEFAULT_LOG_LEVEL) = Inr DEFAULT_LOG_LEVEL"
  by (simp_all add: getObject_def sample_comp_def json_obj_impl_unfold)

lemma sample_limits: "\<exists>sa. process_limits json_obj_impl n path (JObject []) sample_comp = Inr sa"
  by (simp add: process_limits_def sample_comp_def js_isString_def json_obj_impl_unfold unsigned_member_def assigned_cores_def
      Let_def getObject_def)

lemma sample_environment: "apply_environment json_obj_impl ''comp'' sample_comp sample_requirements JNull w = (Inr JNull, w)"
  by (simp add: apply_environment_def sample_comp_def js_isString_def json_obj_impl_unfold getObject_def on_environment_def
      bindp_def seqp_def zoom_def Environment_setFromObject_def Let_def)

lemma sample_packaging: "\<exists>w'. LocalSession_applyPackaging U json_obj_impl env sample_comp JNull w = (Inr (), w')"
  by (simp add: LocalSession_applyPackaging_def LocalSession_applyCurrentEnvironment_def sample_comp_def js_isString_def
      js_isNull_def json_obj_impl_unfold getObject_def getString_def spawn_def ses_def on_environment_def bindp_def seqp_def
      zoom_def Let_def)

lemma sample_exec_config: "\<exists>w'. on_config (exec_config U json_obj_impl a name ipc l sample_comp) w = (Inr (), w')"
proof -
  obtain f where "js_rep json_obj_impl sample_comp f (set (map fst (js_members json_obj_impl sample_comp)))"
    using js_rep_of [OF json_obj_impl_ok sample_map] by blast
  from exec_config_runs [OF json_obj_impl_ok this, of U a name ipc l "ls_execConfig (sw_session w)"]
  show ?thesis by (auto simp: on_config_def zoom_def)
qed

lemma limits_return:
  "(\<And>sa. returns (f sa)) \<Longrightarrow> returns (bindp (liftr (process_limits json_obj_impl n path (JObject []) sample_comp)) f)"
  using sample_limits [of n path] by (auto intro: returns_liftr)

lemma sample_process: "returns (LocalSession_processComputation U json_obj_impl env ''comp'' sample_comp JNull)"
  unfolding LocalSession_processComputation_def
  by (rule returns_seqp, simp add: returns_def ses_def Let_def, rule returns_liftr [OF sample_lookups(1)],
        rule returns_liftr [OF sample_lookups(2)], rule returns_bindp, simp add: returns_def, rule limits_return,
        rule returns_seqp, simp add: returns_def spawn_def ses_def, rule returns_value [OF sample_environment],
        rule returns_seqp, simp add: returns_def on_environment_def zoom_def, rule returns_seqp, simp add: returns_def sample_packaging,
        rule returns_liftr [OF sample_lookups(3)], rule returns_liftr [OF sample_lookups(4)], rule returns_bindp)
    (simp_all add: returns_def sample_exec_config)

lemma sample_definition:
  "\<exists>w'. LocalSession_setDefinition hex_uuid_api json_obj_impl env sample_session_def (sample_world n) = (Inr (), w') \<and>
     ls_name (sw_session w') = ''comp''"
proof -
  let ?comps = "JObject [(''(client)'', JObject []), (''comp'', sample_comp)]" and ?w = "sample_world n"
  let ?p = "LocalSession_processComputation hex_uuid_api json_obj_impl env ''comp'' sample_comp JNull :: ((json, byte list \<times> nat) session_world, unit) proc"
  have look: "js_get json_obj_impl sample_session_def ''computations'' = Inr ?comps" "js_isObject json_obj_impl ?comps"
      "js_size json_obj_impl ?comps = 2" "js_get json_obj_impl ?comps ''(client)'' = Inr (JObject [])" "\<not> js_isNull json_obj_impl (JObject [])"
      "js_get json_obj_impl sample_session_def ''contexts'' = Inr JNull"
      "js_members json_obj_impl ?comps = [(''(client)'', JObject []), (''comp'', sample_comp)]"
    by (simp_all add: sample_session_def_def json_obj_impl_unfold js_isNull_def)
  obtain w1 where w1: "?p ?w = (Inr (), w1)" using sample_process unfolding returns_def by (metis (full_types) unit.exhaust)
  obtain l sa c where c: "exec_config hex_uuid_api json_obj_impl \<lparr>ad_session = 3, ad_node = 4, ad_computation = 5\<rparr> ''comp''
        (exec_config_path hex_uuid_api ''comp'' 5 @ ''.ipc'') l sample_comp (ls_execConfig (sw_session ?w)) = (Inr (), c)"
    and s1: "ls_execConfig (sw_session w1) = c" "ls_name (sw_session w1) = ''comp''" "ls_address (sw_session w1) = \<lparr>ad_session = 3, ad_node = 4, ad_computation = 5\<rparr>"
    using processComputation_effect [OF w1] by auto
  obtain f where f: "js_rep json_obj_impl sample_comp f (set (map fst (js_members json_obj_impl sample_comp)))"
    using js_rep_of [OF json_obj_impl_ok sample_map] by blast
  obtain cfg where "js_rep json_obj_impl c (exec_members hex_uuid_api json_obj_impl \<lparr>ad_session = 3, ad_node = 4, ad_computation = 5\<rparr>
        (exec_config_path hex_uuid_api ''comp'' 5 @ ''.ipc'') l cfg) exec_names"
    using exec_config_runs [OF json_obj_impl_ok f, of hex_uuid_api "\<lparr>ad_session = 3, ad_node = 4, ad_computation = 5\<rparr>" "''comp''"
        "exec_config_path hex_uuid_api ''comp'' 5 @ ''.ipc''" l "ls_execConfig (sw_session ?w)"] c by auto
  then have rep: "js_rep json_obj_impl (ls_execConfig (sw_session w1)) (exec_members hex_uuid_api json_obj_impl
      \<lparr>ad_session = 3, ad_node = 4, ad_computation = 5\<rparr> (exec_config_path hex_uuid_api ''comp'' 5 @ ''.ipc'') l cfg) exec_names"
    by (simp add: s1)
  have "UUID_toString hex_uuid_api 3 = ''00000000-0000-0000-0000-000000000003''" by code_simp
  then have "UUID_toString hex_uuid_api (ad_session (ls_address (sw_session w1))) \<noteq> ''messageFilter''" by (simp add: s1)
  from buildRouting_runs [OF json_obj_impl_ok rep _ this, of "JObject []" JNull]
  obtain c2 where "LocalSession_buildRouting hex_uuid_api json_obj_impl (JObject []) w1 = (Inr (), set_config c2 w1)"
    by (auto simp: exec_members_def json_obj_impl_unfold)
  then show ?thesis
    using look w1 s1(2) by (simp add: LocalSession_setDefinition_def Let_def)
qed


subsection \<open>What the program ends with\<close>

text \<open>
  The exit codes: a run of a computation that comes to a result ends with one of the documented
  codes, and the code tells the client's text for it: zero is a normal end, and every other code is a text of
  its own.
\<close>

theorem exit_codes_documented:
  "ExecComp_exitCode reason \<in> {EC_NORMAL, EC_DISCONNECTED, EC_INTERNAL_ERROR, EC_COMPUTATION_GO_TIMEOUT, EC_EXCEPTION_CAUGHT} \<and>
   (ExecComp_exitCode reason = EC_NORMAL \<longleftrightarrow> reason \<in> {CER_None, CER_Quit}) \<and>
   (ExecComp_exitCode reason = EC_COMPUTATION_GO_TIMEOUT \<longleftrightarrow> reason = CER_Timeout) \<and>
   exitCodeString (ExecComp_exitCode reason) True =
     (case reason of CER_None \<Rightarrow> ''exited normally'' | CER_Quit \<Rightarrow> ''exited normally'' | CER_Disconnected \<Rightarrow> ''was disconnected''
      | CER_MessageError \<Rightarrow> ''exited due to a computation or message problem''
      | CER_HandlerError \<Rightarrow> ''exited due to a computation or message problem''
      | CER_StateError \<Rightarrow> ''exited due to a computation or message problem''
      | CER_Timeout \<Rightarrow> ''timed out waiting for a '' @ in_quotes ''go'' @ '' signal''
      | CER_StartException \<Rightarrow> ''threw an exception (see log for details)''
      | CER_StopException \<Rightarrow> ''threw an exception (see log for details)'')"
  by (cases reason) (simp_all add: exit_code_defs exitCodeString_def)

text \<open>The registration that \<open>execComp\<close> sends is the one a local session waits for.\<close>

lemma registration_accepted:
  assumes "on_peer p (Peer_receive_all_or_throw os True REGISTRATION_SIZE ''LocalSession::readRegistration'' NEGOTIATION_TIMEOUT_MS) w =
    (Inr (registration_bytes padding (ExecComp_registration junk a)), w')"
  shows "LocalSession_readRegistration os p w = (Inr (), w')"
  using assms by (simp add: LocalSession_readRegistration_def registration_image ExecComp_registration_def RegistrationData_new_def
      MESSAGING_API_VERSION_MAJOR_def)

lemma read_no_config:
  assumes J: "json_obj_ok J" and r: "views J f (xe_config s)" and f: "f ''config'' = js_null J"
    and log: "\<forall>k \<in> {''logLevel'', ''consoleLogStyle''}. js_isIntegral J (f k) \<longrightarrow> (\<exists>i. js_asInt J (f k) = Inr i)"
  shows "\<exists>s'. ExecComp_read U J s = (Inr (Inl EC_INVALID_CONFIG_DATA), s')"
proof -
  have "js_isMap J (js_null J)" using json_laws(3) [OF obj_ok_json [OF J]] by (simp add: js_isMap_def js_isNull_def)
  then have size: "js_size J (js_null J) = 0"
    using obj_laws(8,10) [OF J] json_laws(3) [OF obj_ok_json [OF J]] by (simp add: js_isNull_def)
  have "cfg_views J f s" using r by (simp add: cfg_views_def)
  with runs_to_logging [OF J log] obtain u s1 where s1: "ExecComp_logging J s = (Inr u, s1)" "cfg_views J f s1"
    unfolding runs_to_def by blast
  from runs_to_on_cfg [OF runs_to_ref [OF J, of f "''config''"]] s1(2) obtain s2 where "on_cfg (js_ref J ''config'') s1 = (Inr (js_null J), s2)"
    unfolding runs_to_def using f by fastforce
  then have "ExecComp_computation J s1 = (Inr None, s2)" by (simp add: ExecComp_computation_def size)
  then show ?thesis by (simp add: ExecComp_read_def s1(1) need_def)
qed



end
