(* ===== verification/Progress.thy ===== *)
theory Progress
  imports Dispatcher Local_Sessions
begin

text \<open>
  \<^verbatim>\<open>arras4_client/lib/client/api/ProgressSender\<close>: messages for a program that shows the progress of sessions
  are queued, and a thread writes them to the socket of that program, which it may have to start.

  The thread moves in steps, one for each pass through its loops, between which the other threads queue
  messages or stop it; a wait of some seconds does nothing else. Debug output is left out.
\<close>

subsection \<open>The sender\<close>

record 'j progress_sender =
  pg_autoExecCmd :: string
  pg_address :: string
  pg_queue :: "'j tqueue"
  pg_run :: bool
  pg_isSending :: bool

definition ProgressSender_new :: "'j progress_sender" where
  "ProgressSender_new =
     \<lparr>pg_autoExecCmd = [], pg_address = [], pg_queue = ThreadsafeQueue_new, pg_run = True, pg_isSending = False\<rparr>"

definition ProgressSender_isDisabled :: "'j progress_sender \<Rightarrow> bool" where
  "ProgressSender_isDisabled s \<longleftrightarrow> pg_address s = []"

definition ProgressSender_setAutoExecCmd :: "string \<Rightarrow> 'j progress_sender \<Rightarrow> 'j progress_sender" where
  "ProgressSender_setAutoExecCmd cmd s = s\<lparr>pg_autoExecCmd := cmd\<rparr>"

definition ProgressSender_setChannel :: "string \<Rightarrow> 'j progress_sender \<Rightarrow> 'j progress_sender" where
  "ProgressSender_setChannel channel s =
     s\<lparr>pg_address := (if channel = [] then [] else ''/tmp/arrasprog_'' @ channel @ ''.ipc'')\<rparr>"

definition ProgressSender_startSending :: "'j progress_sender \<Rightarrow> 'j progress_sender" where
  "ProgressSender_startSending s = (if \<not> pg_isSending s \<and> pg_run s then s\<lparr>pg_isSending := True\<rparr> else s)"

text \<open>A message that cannot be queued any more is dropped.\<close>

definition ProgressSender_progress :: "'j \<Rightarrow> 'j progress_sender \<Rightarrow> 'j progress_sender" where
  "ProgressSender_progress message s =
     (if ProgressSender_isDisabled s then s
      else ProgressSender_startSending (s\<lparr>pg_queue := snd (ThreadsafeQueue_push message (pg_queue s))\<rparr>))"

text \<open>\<open>stopSending\<close> up to the \<open>join\<close> of the thread, and after it.\<close>

definition ProgressSender_stopSending :: "'j progress_sender \<Rightarrow> 'j progress_sender" where
  "ProgressSender_stopSending s =
     (let s = s\<lparr>pg_run := False\<rparr>
      in if pg_isSending s then s\<lparr>pg_queue := ThreadsafeQueue_shutdown (pg_queue s)\<rparr> else s)"

definition ProgressSender_stopped :: "'j progress_sender \<Rightarrow> 'j progress_sender" where
  "ProgressSender_stopped s = (if pg_isSending s then s\<lparr>pg_isSending := False\<rparr> else s)"

subsection \<open>The thread\<close>

text \<open>
  \<open>G_none\<close>: not started; \<open>G_start\<close>: before the first attempt to connect; \<open>G_outer\<close>, \<open>G_inner\<close>: before the test of
  the outer and of the inner loop.
\<close>

datatype progress_pc = G_none | G_start | G_outer | G_inner | G_end

text \<open>
  The peer and \<open>ok\<close> are local variables of the thread. \<open>pw_sent\<close> collects the texts that were sent
  completely.
\<close>

record ('j, 'o) progress_world =
  pw_sender :: "'j progress_sender"
  pw_pc :: progress_pc
  pw_peer :: "'o ipc_peer"
  pw_ok :: bool
  pw_manager :: process_manager
  pw_sent :: "string list"

text \<open>The system: the environment, a new identifier, and what becomes of the process that is spawned.\<close>

record ('j, 'o, 'u) progress_env =
  pv_os :: "'o sock_os"
  pv_json :: "'j json_obj"
  pv_uuid :: "'u uuid_api_scheme"
  pv_environ :: "string list"
  pv_processId :: uuid
  pv_pipes_ok :: bool
  pv_cg_ok :: bool
  pv_fork :: "nat option"

definition tryConnect :: "'o sock_os \<Rightarrow> string \<Rightarrow> ('o ipc_peer, bool) proc" where
  "tryConnect os address q =
     (case IPCSocketPeer_connect os address q of
        (Inl e, q') \<Rightarrow> (if is_std_exception e then Inr False else Inl e, q')
      | (Inr _, q') \<Rightarrow> (Inr True, q'))"

definition on_progress_peer :: "('o ipc_peer, 'a) proc \<Rightarrow> (('j, 'o) progress_world, 'a) proc" where
  "on_progress_peer = zoom pw_peer (\<lambda>q w. w\<lparr>pw_peer := q\<rparr>)"

definition progress_manager :: "(process_manager, 'a) proc \<Rightarrow> (('j, 'o) progress_world, 'a) proc" where
  "progress_manager = zoom pw_manager (\<lambda>m w. w\<lparr>pw_manager := m\<rparr>)"

definition ProgressSender_doAutoExec :: "('j, 'o, 'u) progress_env \<Rightarrow> (('j, 'o) progress_world, bool) proc" where
  "ProgressSender_doAutoExec V =
     bindp (progress_manager (ProcessManager_addProcess (pv_uuid V) (pv_processId V) ''progress_monitor'' (pv_processId V))) (\<lambda>a.
     bindp (gets pw_sender) (\<lambda>s.
     bindp (progress_manager (Process_spawn (pv_pipes_ok V) (pv_cg_ok V) (pv_fork V)
         (SpawnArgs_new\<lparr>sa_program := pg_autoExecCmd s, sa_args := [''--address'', pg_address s],
            sa_environment := Environment_setFromCurrent (pv_environ V) []\<rparr>) a)) (\<lambda>sc.
       ret (StateChange_success sc))))"

definition on_progress_queue :: "('j tqueue, 'a) proc \<Rightarrow> (('j, 'o) progress_world, 'a) proc" where
  "on_progress_queue = zoom (pg_queue \<circ> pw_sender) (\<lambda>q w. w\<lparr>pw_sender := (pw_sender w)\<lparr>pg_queue := q\<rparr>\<rparr>)"

text \<open>A message: its length as eight bytes, then its text.\<close>

definition send_text :: "'o sock_os \<Rightarrow> string \<Rightarrow> ('o ipc_peer, unit) proc" where
  "send_text os t =
     seqp (ip_zoom (Peer_send_or_throw os (Some (word_bytes (word_of_nat (length t) :: u64))) 8 ''msg size''))
     (ip_zoom (Peer_send_or_throw os (Some (string_bytes t)) (length t) ''message''))"

definition goto :: "progress_pc \<Rightarrow> (('j, 'o) progress_world, unit) proc" where
  "goto pc = upd (\<lambda>w. w\<lparr>pw_pc := pc\<rparr>)"

text \<open>
  One step of \<open>sendProc\<close>. An exception that it does not catch ends the program. \<open>None\<close>: the thread waits for a
  message, has ended or has not been started.
\<close>

definition ProgressSender_sendProc :: "('j, 'o, 'u) progress_env \<Rightarrow> ('j, 'o) progress_world \<Rightarrow>
    ((exn + unit) \<times> ('j, 'o) progress_world) option" where
  "ProgressSender_sendProc V w =
     (let os = pv_os V; s = pw_sender w; connect = on_progress_peer (tryConnect os (pg_address s)) in
      case pw_pc w of
        G_start \<Rightarrow> Some (bindp connect (\<lambda>ok.
          if \<not> pg_run s then goto G_end
          else seqp (upd (\<lambda>w. w\<lparr>pw_ok := ok\<rparr>))
            (seqp (if \<not> ok \<and> pg_autoExecCmd s \<noteq> [] then bindp (ProgressSender_doAutoExec V) (\<lambda>_. ret ()) else ret ())
            (goto G_outer))) w)
      | G_outer \<Rightarrow> Some (
          if \<not> pg_run s then goto G_end w
          else if pw_ok w then goto G_inner w
          else bindp connect (\<lambda>ok. seqp (upd (\<lambda>w. w\<lparr>pw_ok := ok\<rparr>)) (goto (if ok then G_inner else G_outer))) w)
      | G_inner \<Rightarrow>
          if \<not> pg_run s then Some (goto G_outer w)
          else (case ThreadsafeQueue_pop (pg_queue s) of
              (Inr None, _) \<Rightarrow> None
            | _ \<Rightarrow> Some (
                case bindp (on_progress_queue ThreadsafeQueue_pop) (\<lambda>m.
                    let t = js_print (pv_json V) (the m)
                    in seqp (on_progress_peer (send_text os t)) (upd (\<lambda>w. w\<lparr>pw_sent := pw_sent w @ [t]\<rparr>))) w of
                  (Inl e, w') \<Rightarrow> if is_std_exception e then (Inr (), w'\<lparr>pw_ok := False, pw_pc := G_outer\<rparr>) else (Inl e, w')
                | (Inr _, w') \<Rightarrow> (Inr (), w')))
      | _ \<Rightarrow> None)"

text \<open>The steps of the threads: a step of the sender's thread, a message queued, the sender stopped.\<close>

inductive progress_step :: "('j, 'o, 'u) progress_env \<Rightarrow> ('j, 'o) progress_world \<Rightarrow> ('j, 'o) progress_world \<Rightarrow> bool" for V where
  send: "ProgressSender_sendProc V w = Some (Inr (), w') \<Longrightarrow> progress_step V w w'"
| progress: "progress_step V w (w\<lparr>pw_sender := ProgressSender_progress m (pw_sender w),
      pw_pc := (if pg_isSending (ProgressSender_progress m (pw_sender w)) \<and> pw_pc w = G_none then G_start else pw_pc w)\<rparr>)"
| stop: "progress_step V w (w\<lparr>pw_sender := ProgressSender_stopSending (pw_sender w)\<rparr>)"

subsection \<open>What an operation leaves alone\<close>

lemma keeps_sys [keeping]: "keeps sp_socket (sys_retry f)" "keeps sp_socket (sys_call f')"
  by (auto simp: keeps_def sys_retry_def sys_call_def split: prod.split option.split)

lemma keeps_send_loop: "sp_socket (snd (send_loop os offset d p)) = sp_socket p"
proof (induction os offset d p rule: send_loop.induct)
  case (1 os offset d p)
  show ?case
  proof (cases "d = []")
    case False
    obtain r p' where r: "send_ignore_interrupts os (sp_socket p) d p = (r, p')" by fastforce
    then have "sp_socket p' = sp_socket p"
      using keepsD [OF keeps_sys(1)] by (metis send_ignore_interrupts_def)
    then show ?thesis
      using False r 1
      by (subst send_loop.simps) (auto simp: bindp_def throw_disconnect_def raise_def ret_def split: sum.split)
  qed (simp add: send_loop.simps)
qed

lemma keeps_send [keeping]: "keeps sp_socket (SocketPeer_send os data n)"
proof -
  have "sp_socket p' = sp_socket p" if "SocketPeer_send os data n p = (r, p')" for p r p'
    using that keeps_send_loop [of os 0 "take n (the data)" p]
    by (auto simp: SocketPeer_send_def bindp_def ret_def raise_def seqp_def upd_def split: if_splits option.splits sum.splits prod.splits)
  then show ?thesis unfolding keeps_def by (metis prod.collapse)
qed

lemma keeps_send_or_throw [keeping]: "keeps sp_socket (Peer_send_or_throw os data n msg)"
  unfolding Peer_send_or_throw_def throw_disconnect_def by (intro keeping)

lemma keeps_at: "keeps g m \<Longrightarrow> (\<And>s t. g' (p s t) = g s) \<Longrightarrow> (\<And>t. g' t = g (r t)) \<Longrightarrow> keeps g' (zoom r p m)"
  by (auto simp: keeps_def zoom_def split: prod.split) (metis snd_conv)

subsection \<open>A connection that is lost\<close>

text \<open>
  A failed send leaves the socket of the peer as it is, and a peer that has a socket cannot connect.
\<close>

lemma tryConnect_in_use:
  assumes "sp_socket (ip_peer q) \<noteq> ARRAS_INVALID_SOCKET"
  shows "tryConnect os address q = (Inr False, q)"
  using assms by (simp add: tryConnect_def IPCSocketPeer_connect_def is_std_exception_def)

definition lost :: "('j, 'o) progress_world \<Rightarrow> bool" where
  "lost w \<longleftrightarrow> \<not> pw_ok w \<and> sp_socket (ip_peer (pw_peer w)) \<noteq> ARRAS_INVALID_SOCKET \<and> pw_pc w \<in> {G_outer, G_end}"

lemma lost_step:
  assumes "progress_step V w w'" and "lost w"
  shows "lost w' \<and> pw_sent w' = pw_sent w"
  using assms
proof (induction rule: progress_step.induct)
  case (send w w')
  then show ?case
    using tryConnect_in_use [of "pw_peer w"]
    by (auto simp: ProgressSender_sendProc_def Let_def lost_def on_progress_peer_def goto_def upd_def seqp_def bindp_def zoom_def split: if_splits)
qed (auto simp: lost_def)

lemma lost_for_ever:
  assumes "(progress_step V)\<^sup>*\<^sup>* w w'" and "lost w"
  shows "lost w' \<and> pw_sent w' = pw_sent w"
  using assms by (induction rule: rtranclp_induct) (auto dest: lost_step)

lemma keeps_send_text: "keeps (sp_socket \<circ> ip_peer) (send_text os t)"
  unfolding send_text_def ip_zoom_def
  by (rule keeps_seqp; rule keeps_at [OF keeps_send_or_throw]; simp)

text \<open>
  C33 (liveness). When sending to the progress program fails, the sender means to connect again. It never does:
  the peer still has its socket, so every further attempt is refused, and whatever is queued from then on,
  nothing more is sent.
\<close>

theorem progress_never_reconnects:
  assumes "pw_pc w = G_inner" and "pg_run (pw_sender w)" and "sp_socket (ip_peer (pw_peer w)) \<noteq> ARRAS_INVALID_SOCKET"
    and "ProgressSender_sendProc V w = Some (Inr (), w1)" and "pw_pc w1 = G_outer"
    and "(progress_step V)\<^sup>*\<^sup>* w1 w2"
  shows "pw_sent w2 = pw_sent w \<and> \<not> pw_ok w2 \<and> pw_pc w2 \<in> {G_outer, G_end}"
proof -
  obtain q m where pop: "ThreadsafeQueue_pop (pg_queue (pw_sender w)) = (m, q)" by fastforce
  let ?t = "js_print (pv_json V)"
  obtain r p where send: "send_text (pv_os V) (case m of Inr (Some x) \<Rightarrow> ?t x | _ \<Rightarrow> []) (pw_peer w) = (r, p)" by fastforce
  then have "sp_socket (ip_peer p) = sp_socket (ip_peer (pw_peer w))"
    using keepsD [OF keeps_send_text] by fastforce
  then have "lost w1 \<and> pw_sent w1 = pw_sent w"
    using assms(1-5) pop send
    by (auto simp: ProgressSender_sendProc_def Let_def lost_def on_progress_queue_def on_progress_peer_def bindp_def zoom_def seqp_def
        upd_def split: sum.splits option.splits if_splits prod.splits)
  then show ?thesis
    using lost_for_ever [OF assms(6)] by (auto simp: lost_def)
qed

definition deaf_sock_os :: "(byte list \<times> nat) sock_os" where
  "deaf_sock_os = sample_sock_os\<lparr>os_send := \<lambda>_ _ s. (Inl EPIPE, s)\<rparr>"

definition sample_progress_env :: "(json, byte list \<times> nat, unit) progress_env" where
  "sample_progress_env =
     \<lparr>pv_os = deaf_sock_os, pv_json = json_obj_impl, pv_uuid = hex_uuid_api, pv_environ = [], pv_processId = 7,
      pv_pipes_ok = True, pv_cg_ok = True, pv_fork = Some 40\<rparr>"

definition sample_progress :: "(json, byte list \<times> nat) progress_world" where
  "sample_progress =
     \<lparr>pw_sender = ProgressSender_progress JNull (ProgressSender_setChannel ''me'' ProgressSender_new), pw_pc = G_inner,
      pw_peer = (IPCSocketPeer_new ([], 0))\<lparr>ip_peer := sample_peer 5\<rparr>, pw_ok = True,
      pw_manager = ProcessManager_new 100 True True True True True, pw_sent = []\<rparr>"

lemma retry_send_deaf: "retry (os_send deaf_sock_os fd d) s = Some (Inl EPIPE, s)"
  by (subst retry.simps) (simp add: deaf_sock_os_def)

lemma deaf_send_text:
  assumes "\<not> sp_isListening (ip_peer q)" and "sp_encryption (ip_peer q) = None"
  shows "send_text deaf_sock_os t q =
    (Inl (PeerException EPIPE (getCodeFromSocketError EPIPE) ''SocketPeer::send: error''), q)"
proof -
  have "send_loop deaf_sock_os 0 d p = (Inl (socket_exn deaf_sock_os ''SocketPeer::send: '' EPIPE), p)" if "d \<noteq> []" for d p
    using that by (subst send_loop.simps)
      (simp add: send_ignore_interrupts_def sys_retry_def retry_send_deaf bindp_def)
  moreover have "word_bytes (w :: u64) \<noteq> []" for w
  proof -
    have "length (word_bytes w) = 8" by simp
    then show ?thesis by (metis list.size(3) zero_neq_numeral)
  qed
  ultimately show ?thesis
    using assms
    by (simp add: send_text_def ip_zoom_def zoom_def seqp_def bindp_def Peer_send_or_throw_def SocketPeer_send_def socket_exn_def
        deaf_sock_os_def sample_sock_os_def)
qed

theorem progress_never_reconnects_witness:
  "\<exists>w1 w2. ProgressSender_sendProc sample_progress_env sample_progress = Some (Inr (), w1) \<and>
     progress_step sample_progress_env w1 w2 \<and> tq_queue (pg_queue (pw_sender w2)) = [JNull] \<and> pw_sent w2 = [] \<and> \<not> pw_ok w2"
proof -
  let ?w1 = "sample_progress\<lparr>pw_sender := (pw_sender sample_progress)\<lparr>pg_queue := ThreadsafeQueue_new\<rparr>, pw_ok := False, pw_pc := G_outer\<rparr>"
  let ?w2 = "?w1\<lparr>pw_sender := ProgressSender_progress JNull (pw_sender ?w1)\<rparr>"
  have "send_text deaf_sock_os t (pw_peer sample_progress) =
      (Inl (PeerException EPIPE (getCodeFromSocketError EPIPE) ''SocketPeer::send: error''), pw_peer sample_progress)" for t
    by (rule deaf_send_text) (simp_all add: sample_progress_def IPCSocketPeer_new_def sample_peer_def no_socket_def)
  then have 1: "ProgressSender_sendProc sample_progress_env sample_progress = Some (Inr (), ?w1)"
    by (simp add: ProgressSender_sendProc_def sample_progress_env_def sample_progress_def ProgressSender_progress_def
        ProgressSender_startSending_def ProgressSender_isDisabled_def ProgressSender_setChannel_def ProgressSender_new_def
        ThreadsafeQueue_new_def ThreadsafeQueue_push_def ThreadsafeQueue_pop_def on_progress_queue_def on_progress_peer_def
        bindp_def seqp_def zoom_def is_std_exception_def Let_def)
  have 2: "progress_step sample_progress_env ?w1 ?w2"
    using progress_step.progress [of sample_progress_env ?w1 JNull] by (simp add: sample_progress_def)
  have 3: "tq_queue (pg_queue (pw_sender ?w2)) = [JNull]"
    by (simp add: sample_progress_def ProgressSender_progress_def ProgressSender_startSending_def ProgressSender_isDisabled_def
        ProgressSender_setChannel_def ProgressSender_new_def ThreadsafeQueue_new_def ThreadsafeQueue_push_def)
  have 4: "(progress_step sample_progress_env)\<^sup>*\<^sup>* ?w1 ?w2" using 2 by (rule r_into_rtranclp)
  show ?thesis
    using progress_never_reconnects [where w = sample_progress, OF _ _ _ 1 _ 4] 1 2 3
    by (auto simp: sample_progress_def IPCSocketPeer_new_def sample_peer_def no_socket_def ARRAS_INVALID_SOCKET_def
        ProgressSender_progress_def ProgressSender_startSending_def ProgressSender_isDisabled_def ProgressSender_setChannel_def ProgressSender_new_def)
qed

end
