(* ===== verification/Clients.thy ===== *)
theory Clients
  imports Progress Core_Messages Chunking
begin

text \<open>
  The client library's connection to a session (\<^verbatim>\<open>arras4_client/lib/client/api/Client\<close>): it asks the coordinator for a
  session, or starts a local one, connects to it, sends and receives messages, and ends the connection.

  The client is a record of the members of the class. Its operations run on a \<open>client_world\<close>: the client, the
  local sessions and the progress sender of the program, the state of the program's own components and
  callbacks, and the logger's thresholds. The record \<open>client_env\<close> is what they use: the operating system, the web
  service, the environment, the classes of messages, new identifiers, the program's components.

  The client has two threads, one that receives and, when it was asked for, one that sends. They move in steps,
  \<open>Client_threadProc\<close> and \<open>Client_sendProc\<close>, by program counters that are part of the client; an operation that
  joins them is given, as the argument \<open>others\<close>, what they do until they have ended. Log output and traces are
  left out.
\<close>

subsection \<open>The client\<close>

datatype client_state = STATE_DISCONNECTED | STATE_CONNECTING | STATE_CONNECTED | STATE_DISCONNECTING

text \<open>A \<open>std::function\<close> that is a plain function, or something else (a lambda, the result of \<open>bind\<close>).\<close>

datatype exn_callback = Plain_function nat | Function_object nat

type_synonym 'o client_link = "'o socket_peer peer_endpoint chunking_endpoint"

text \<open>The peer and the two endpoints: none, the peer alone, or the endpoints on the peer.\<close>

datatype 'o client_conn = No_peer | Bare_peer "'o socket_peer" | Linked "'o client_link"

text \<open>
  \<open>R_none\<close>, \<open>S_none\<close>: no thread; \<open>R_check\<close>, \<open>S_check\<close>: before the test of the loop; \<open>R_deliver\<close>: before the test
  for an endpoint; \<open>R_get\<close>, \<open>S_putting\<close>: in a call of the endpoint; \<open>R_handle\<close>: with a message; \<open>S_pop\<close>: in \<open>pop\<close>;
  \<open>S_put\<close>: before the test for an endpoint; \<open>R_end\<close>, \<open>S_end\<close>: ended, not others.
\<close>

datatype 'm receive_pc = R_none | R_check | R_deliver | R_get | R_handle "'m envelope" | R_end

datatype 'm send_pc = S_none | S_check | S_pop | S_put "'m envelope" | S_putting "'m envelope" | S_end

record ('o, 'm) client =
  cl_components :: "nat option list"
  cl_hostname :: string
  cl_hostIp :: string
  cl_port :: u16
  cl_conn :: "'o client_conn"
  cl_sessionId :: string
  cl_state :: client_state
  cl_connectionError :: bool
  cl_callbacks :: "exn_callback list"
  cl_userAgent :: string
  cl_progressId :: string
  cl_thread :: "'m receive_pc"
  cl_engineReady :: bool
  cl_run :: bool
  cl_sendAsync :: bool
  cl_sendThread :: "'m send_pc"
  cl_outgoingQueue :: "'m envelope tqueue option"
  cl_chunkingConfig :: chunking_config
  cl_readerAutosave :: "string option"
  cl_writerAutosave :: "string option"
  cl_incomingSaveDir :: string
  cl_outgoingSaveDir :: string
  cl_isLocal :: bool
  cl_arrasUrl :: string

text \<open>\<open>uninit\<close> is the value of \<open>mEngineReady\<close>, which the constructor does not set.\<close>

definition Client_new :: "string \<Rightarrow> bool \<Rightarrow> ('o, 'm) client" where
  "Client_new userAgent uninit =
     \<lparr>cl_components = [], cl_hostname = [], cl_hostIp = [], cl_port = 0, cl_conn = No_peer, cl_sessionId = [],
      cl_state = STATE_DISCONNECTED, cl_connectionError = False, cl_callbacks = [], cl_userAgent = userAgent,
      cl_progressId = [], cl_thread = R_none, cl_engineReady = uninit, cl_run = False, cl_sendAsync = False,
      cl_sendThread = S_none, cl_outgoingQueue = None, cl_chunkingConfig = ChunkingConfig_default,
      cl_readerAutosave = None, cl_writerAutosave = None, cl_incomingSaveDir = [], cl_outgoingSaveDir = [],
      cl_isLocal = False, cl_arrasUrl = []\<rparr>"

definition Client_setAsyncSend :: "bool \<Rightarrow> ('o, 'm) client \<Rightarrow> ('o, 'm) client" where
  "Client_setAsyncSend flag c = c\<lparr>cl_sendAsync := flag\<rparr>"

definition Client_addComponent :: "nat option \<Rightarrow> ('o, 'm) client \<Rightarrow> ('o, 'm) client" where
  "Client_addComponent k c = c\<lparr>cl_components := cl_components c @ [k]\<rparr>"

definition Client_removeComponent :: "nat option \<Rightarrow> ('o, 'm) client \<Rightarrow> ('o, 'm) client" where
  "Client_removeComponent k c = c\<lparr>cl_components := removeAll k (cl_components c)\<rparr>"

definition Client_addExceptionCallback :: "exn_callback \<Rightarrow> ('o, 'm) client \<Rightarrow> ('o, 'm) client" where
  "Client_addExceptionCallback f c = c\<lparr>cl_callbacks := cl_callbacks c @ [f]\<rparr>"

text \<open>Everything that is not a plain function is removed, whatever is asked for.\<close>

definition callback_removed :: "exn_callback \<Rightarrow> exn_callback \<Rightarrow> bool" where
  "callback_removed del f =
     (case f of Function_object _ \<Rightarrow> True | Plain_function n \<Rightarrow> (case del of Plain_function d \<Rightarrow> n = d | Function_object _ \<Rightarrow> False))"

definition Client_removeExceptionCallback :: "exn_callback \<Rightarrow> ('o, 'm) client \<Rightarrow> ('o, 'm) client" where
  "Client_removeExceptionCallback del c = c\<lparr>cl_callbacks := filter (\<lambda>f. \<not> callback_removed del f) (cl_callbacks c)\<rparr>"

definition Client_disableMessageChunking :: "('o, 'm) client \<Rightarrow> ('o, 'm) client" where
  "Client_disableMessageChunking c = c\<lparr>cl_chunkingConfig := (cl_chunkingConfig c)\<lparr>cc_enabled := False\<rparr>\<rparr>"

definition Client_enableMessageChunking :: "nat \<Rightarrow> nat \<Rightarrow> ('o, 'm) client \<Rightarrow> ('o, 'm) client" where
  "Client_enableMessageChunking minChunkingSize chunkSize c =
     (let g = (cl_chunkingConfig c)\<lparr>cc_enabled := True\<rparr>;
          g = (if minChunkingSize \<noteq> 0 then g\<lparr>cc_minChunkingSize := minChunkingSize\<rparr> else g);
          g = (if chunkSize \<noteq> 0 then g\<lparr>cc_chunkSize := chunkSize\<rparr> else g)
      in c\<lparr>cl_chunkingConfig := g\<rparr>)"

definition Client_isConnected :: "('o, 'm) client \<Rightarrow> bool" where
  "Client_isConnected c \<longleftrightarrow> cl_state c = STATE_CONNECTED"

definition Client_isDisconnected :: "('o, 'm) client \<Rightarrow> bool" where
  "Client_isDisconnected c \<longleftrightarrow> cl_state c = STATE_DISCONNECTED"

subsection \<open>The world of a client\<close>

datatype 'm client_event = On_message "'m envelope" | On_status "'m envelope" | On_ready

text \<open>
  \<open>cw_fresh\<close> counts the identifiers used so far, \<open>cw_events\<close> are the events posted to the coordinator, with their
  addresses.
\<close>

record ('j, 'o, 'm, 'u) client_world =
  cw_client :: "('o, 'm) client"
  cw_sessions :: "('j, 'o) sessions_world"
  cw_progress :: "'j progress_sender"
  cw_user :: 'u
  cw_fresh :: nat
  cw_events :: "(string \<times> string) list"
  cw_threshold :: int
  cw_trace :: int

record ('j, 'o, 'm, 'u, 'z) client_env =
  kv_os :: "'o sock_os"
  kv_json :: "'j json_obj"
  kv_uuid :: "'z uuid_api_scheme"
  kv_submit :: http_service
  kv_local :: local_env
  kv_platform :: platform_info
  kv_pid :: int
  kv_padding :: u32
  kv_endpoint :: "('o client_link, 'm) endpoint_ops"
  kv_class :: "'m object_class"
  kv_control :: "string \<Rightarrow> 'm"
  kv_status :: "string \<Rightarrow> 'm"
  kv_fresh :: "nat \<Rightarrow> uuid \<times> uuid \<times> arras_time"
  kv_date :: string
  kv_component :: "nat \<Rightarrow> 'm client_event \<Rightarrow> ('u, unit) proc"
  kv_callback :: "exn_callback \<Rightarrow> exn \<Rightarrow> ('u, unit) proc"
  kv_pipes_ok :: bool
  kv_cg_ok :: bool
  kv_fork :: "nat option"
  kv_save :: write_outcome
  kv_log :: write_outcome

abbreviation kv_getenv :: "('j, 'o, 'm, 'u, 'z) client_env \<Rightarrow> string \<Rightarrow> string option" where
  "kv_getenv K \<equiv> le_getenv (kv_local K)"

definition cli :: "(('o, 'm) client \<Rightarrow> ('o, 'm) client) \<Rightarrow> (('j, 'o, 'm, 'u) client_world, unit) proc" where
  "cli f = upd (\<lambda>w. w\<lparr>cw_client := f (cw_client w)\<rparr>)"

definition getc :: "(('o, 'm) client \<Rightarrow> 'a) \<Rightarrow> (('j, 'o, 'm, 'u) client_world, 'a) proc" where
  "getc f = gets (f \<circ> cw_client)"

definition Client_setState :: "client_state \<Rightarrow> (('j, 'o, 'm, 'u) client_world, unit) proc" where
  "Client_setState s = cli (\<lambda>c. c\<lparr>cl_state := s\<rparr>)"

definition on_sessions :: "(('j, 'o) sessions_world, 'a) proc \<Rightarrow> (('j, 'o, 'm, 'u) client_world, 'a) proc" where
  "on_sessions = zoom cw_sessions (\<lambda>s w. w\<lparr>cw_sessions := s\<rparr>)"

definition on_user :: "('u, 'a) proc \<Rightarrow> (('j, 'o, 'm, 'u) client_world, 'a) proc" where
  "on_user = zoom cw_user (\<lambda>u w. w\<lparr>cw_user := u\<rparr>)"

definition cw_net :: "('j, 'o, 'm, 'u) client_world \<Rightarrow> 'o" where
  "cw_net w = ss_net (cw_sessions w)"

definition set_net :: "'o \<Rightarrow> ('j, 'o, 'm, 'u) client_world \<Rightarrow> ('j, 'o, 'm, 'u) client_world" where
  "set_net net w = w\<lparr>cw_sessions := (cw_sessions w)\<lparr>ss_net := net\<rparr>\<rparr>"

text \<open>\<open>catch (std::exception& e)\<close> with what is thrown in its place.\<close>

definition rethrow :: "(exn \<Rightarrow> exn) \<Rightarrow> ('s, 'a) proc \<Rightarrow> ('s, 'a) proc" where
  "rethrow f p s = (case p s of (Inl e, s') \<Rightarrow> (Inl (if is_std_exception e then f e else e), s') | r \<Rightarrow> r)"

subsection \<open>Progress messages\<close>

definition make_object :: "('j, 'z) json_obj_scheme \<Rightarrow> ('j, unit) proc \<Rightarrow> exn + 'j" where
  "make_object J p = (case p (js_null J) of (Inl e, _) \<Rightarrow> Inl e | (Inr _, j) \<Rightarrow> Inr j)"

definition progress_object ::
  "('j, 'o, 'm, 'u, 'z) client_env \<Rightarrow> (string \<Rightarrow> ('j, unit) proc) \<Rightarrow> (('j, 'o, 'm, 'u) client_world, unit) proc" where
  "progress_object K p =
     bindp (getc cl_progressId) (\<lambda>i. bindp (liftr (make_object (kv_json K) (p i))) (\<lambda>m.
       upd (\<lambda>w. w\<lparr>cw_progress := ProgressSender_progress m (cw_progress w)\<rparr>)))"

definition put_strings :: "('j, 'z) json_obj_scheme \<Rightarrow> (string \<times> string) list \<Rightarrow> ('j, unit) proc" where
  "put_strings J kvs = put_all J (map (\<lambda>(k, v). (k, js_ofString J v)) kvs)"

definition Client_progressPercent :: "('j, 'o, 'm, 'u, 'z) client_env \<Rightarrow> string \<Rightarrow> u32 \<Rightarrow> (('j, 'o, 'm, 'u) client_world, unit) proc" where
  "Client_progressPercent K stage percent = progress_object K (\<lambda>i. let J = kv_json K in
     seqp (put_strings J [(''id'', i), (''stage'', stage)]) (js_put J ''progress.percent'' (js_ofUInt J (unat percent))))"

definition Client_progress ::
  "('j, 'o, 'm, 'u, 'z) client_env \<Rightarrow> string \<Rightarrow> string \<Rightarrow> string \<Rightarrow> (('j, 'o, 'm, 'u) client_world, unit) proc" where
  "Client_progress K stage status t = progress_object K (\<lambda>i.
     put_strings (kv_json K) [(''id'', i), (''stage'', stage), (''status'', status), (''progress'', t)])"

definition Client_progressInfo :: "('j, 'o, 'm, 'u, 'z) client_env \<Rightarrow> string \<Rightarrow> 'j \<Rightarrow> (('j, 'o, 'm, 'u) client_world, unit) proc" where
  "Client_progressInfo K category v = progress_object K (\<lambda>i. let J = kv_json K in
     seqp (put_strings J [(''id'', i)])
     (seqp (js_at J ''addinfo'' (js_put J ''category'' (js_ofString J category)))
     (js_at J ''addinfo'' (if js_isString J v then bindp (liftr (js_asString J v)) (\<lambda>s. js_put J ''text'' (js_ofString J s))
       else js_put J ''value'' v))))"

abbreviation progress_pending :: "('j, 'o, 'm, 'u, 'z) client_env \<Rightarrow> string \<Rightarrow> (('j, 'o, 'm, 'u) client_world, unit) proc" where
  "progress_pending K stage \<equiv> Client_progress K stage ''pending'' []"

text \<open>Two messages: a stage that failed, and why.\<close>

definition progress_failed :: "('j, 'o, 'm, 'u, 'z) client_env \<Rightarrow> string \<Rightarrow> string \<Rightarrow> (('j, 'o, 'm, 'u) client_world, unit) proc" where
  "progress_failed K stage why =
     seqp (Client_progress K stage ''failed'' []) (Client_progressInfo K ''errors'' (js_ofString (kv_json K) why))"

subsection \<open>Ending a connection\<close>

text \<open>An operation of the endpoint or of the peer on the network of the world.\<close>

definition lend_net :: "'o \<Rightarrow> 'o client_link \<Rightarrow> 'o client_link" where
  "lend_net net l = l\<lparr>ce_source := (ce_source l)\<lparr>pe_peer := (pe_peer (ce_source l))\<lparr>sp_os := net\<rparr>\<rparr>\<rparr>"

definition link_peer :: "'o client_link \<Rightarrow> 'o socket_peer" where
  "link_peer l = pe_peer (ce_source l)"

definition on_link :: "('o client_link, 'a) proc \<Rightarrow> (('j, 'o, 'm, 'u) client_world, 'a) proc" where
  "on_link act w =
     (case cl_conn (cw_client w) of
        Linked l \<Rightarrow> (case act (lend_net (cw_net w) l) of
          (r, l') \<Rightarrow> (r, set_net (sp_os (link_peer l')) (w\<lparr>cw_client := (cw_client w)\<lparr>cl_conn := Linked l'\<rparr>\<rparr>)))
      | _ \<Rightarrow> (Inl (Undefined ''null endpoint''), w))"

definition on_client_peer :: "('o socket_peer, 'a) proc \<Rightarrow> (('j, 'o, 'm, 'u) client_world, 'a) proc" where
  "on_client_peer act w =
     (case cl_conn (cw_client w) of
        Linked l \<Rightarrow> on_link (zoom link_peer (\<lambda>p l. l\<lparr>ce_source := (ce_source l)\<lparr>pe_peer := p\<rparr>\<rparr>) act) w
      | Bare_peer p \<Rightarrow> (case act (p\<lparr>sp_os := cw_net w\<rparr>) of
          (r, p') \<Rightarrow> (r, set_net (sp_os p') (w\<lparr>cw_client := (cw_client w)\<lparr>cl_conn := Bare_peer p'\<rparr>\<rparr>)))
      | No_peer \<Rightarrow> (Inl (Undefined ''null peer''), w))"

definition is_linked :: "('o, 'm) client \<Rightarrow> bool" where
  "is_linked c \<longleftrightarrow> (case cl_conn c of Linked _ \<Rightarrow> True | _ \<Rightarrow> False)"

definition unlink :: "'o client_conn \<Rightarrow> 'o client_conn" where
  "unlink k = (case k of Linked l \<Rightarrow> Bare_peer (link_peer l) | _ \<Rightarrow> k)"

text \<open>
  The first part of \<open>shutdownConnection\<close>: the threads are told to end, and without waiting for them the two
  endpoints and the queue are deleted.
\<close>

definition Client_closing :: "('j, 'o, 'm, 'u, 'z) client_env \<Rightarrow> (('j, 'o, 'm, 'u) client_world, unit) proc" where
  "Client_closing K w =
     (case seqp (cli (\<lambda>c. c\<lparr>cl_run := False, cl_outgoingQueue := map_option ThreadsafeQueue_shutdown (cl_outgoingQueue c)\<rparr>))
        (seqp (bindp (getc is_linked) (\<lambda>b. if b then on_link (upd (ep_shutdown (kv_endpoint K))) else ret ()))
        (seqp (on_client_peer (SocketPeer_shutdown (kv_os K)))
        (cli (\<lambda>c. c\<lparr>cl_outgoingQueue := None, cl_conn := unlink (cl_conn c)\<rparr>)))) w of
        (Inl (PeerException _ _ _), w') \<Rightarrow> (Inr (), w')
      | (Inl (PeerDisconnectException _), w') \<Rightarrow> (Inr (), w')
      | r \<Rightarrow> r)"

definition joinable :: "('o, 'm) client \<Rightarrow> bool" where
  "joinable c \<longleftrightarrow> cl_thread c \<noteq> R_none \<or> cl_sendThread c \<noteq> S_none"

definition Client_joinThreads :: "(('j, 'o, 'm, 'u) client_world, unit) proc \<Rightarrow> (('j, 'o, 'm, 'u) client_world, unit) proc" where
  "Client_joinThreads others =
     seqp (bindp (getc joinable) (\<lambda>b. if b then others else ret ()))
     (cli (\<lambda>c. c\<lparr>cl_thread := R_none, cl_sendThread := S_none\<rparr>))"

definition session_uuid :: "('j, 'o, 'm, 'u, 'z) client_env \<Rightarrow> ('o, 'm) client \<Rightarrow> uuid" where
  "session_uuid K c = UUID_parse (kv_uuid K) (cl_sessionId c)"

definition Client_shutdownLocal :: "('j, 'o, 'm, 'u, 'z) client_env \<Rightarrow> (('j, 'o, 'm, 'u) client_world, unit) proc" where
  "Client_shutdownLocal K =
     seqp (rethrow (\<lambda>e. ClientException UNKNOWN_ERROR (''Failed to delete local session: '' @ exn_what e))
        (bindp (getc (session_uuid K)) (\<lambda>i. on_sessions (LocalSessions_stopSession i))))
     (Client_setState STATE_DISCONNECTING)"

definition Client_shutdownConnection ::
  "('j, 'o, 'm, 'u, 'z) client_env \<Rightarrow> (('j, 'o, 'm, 'u) client_world, unit) proc \<Rightarrow> (('j, 'o, 'm, 'u) client_world, unit) proc" where
  "Client_shutdownConnection K others =
     bindp (getc cl_conn) (\<lambda>k.
       if k = No_peer then ret ()
       else seqp (Client_closing K)
           (seqp (Client_joinThreads others)
           (seqp (bindp (getc cl_isLocal) (\<lambda>local. if local then Client_shutdownLocal K else ret ()))
           (cli (\<lambda>c. c\<lparr>cl_conn := No_peer, cl_connectionError := False\<rparr>)))))"

definition Client_disconnect ::
  "('j, 'o, 'm, 'u, 'z) client_env \<Rightarrow> (('j, 'o, 'm, 'u) client_world, unit) proc \<Rightarrow> (('j, 'o, 'm, 'u) client_world, unit) proc" where
  "Client_disconnect K others =
     seqp (Client_setState STATE_DISCONNECTING)
     (seqp (Client_shutdownConnection K others)
     (Client_setState STATE_DISCONNECTED))"

text \<open>The destructor: an exception that leaves it ends the program.\<close>

definition Client_delete ::
  "('j, 'o, 'm, 'u, 'z) client_env \<Rightarrow> (('j, 'o, 'm, 'u) client_world, unit) proc \<Rightarrow> (('j, 'o, 'm, 'u) client_world, unit) proc" where
  "Client_delete K others =
     rethrow (\<lambda>_. std_terminate)
       (seqp (Client_disconnect K others)
       (bindp (getc cl_isLocal) (\<lambda>local.
          if local then bindp (getc (session_uuid K)) (\<lambda>i. on_sessions (LocalSessions_abandonSession i)) else ret ())))"

subsection \<open>Sending\<close>

text \<open>
  The envelope of a message: new metadata from the content and the options of the send, from the session, traced
  when the logger traces messages.
\<close>

definition Client_envelope ::
  "('j, 'o, 'm, 'u, 'z) client_env \<Rightarrow> 'm content \<Rightarrow> 'j \<Rightarrow> (('j, 'o, 'm, 'u) client_world, 'm envelope) proc" where
  "Client_envelope K content options w =
     (case kv_fresh K (cw_fresh w) of (iid, sid, now) \<Rightarrow>
        (case MetadataImpl_new_options (kv_uuid K) (kv_json K) (Some (content_defaultRoutingName (kv_class K) content)) options iid sid now of
           Inl e \<Rightarrow> (Inl e, w)
         | Inr md \<Rightarrow>
             (Inr \<lparr>en_content = Some content,
                en_metadata = Some (md\<lparr>md_from := Address_null\<lparr>ad_session := session_uuid K (cw_client w)\<rparr>,
                                       md_trace := md_trace md \<or> cw_trace w \<ge> 3\<rparr>),
                en_to = []\<rparr>, w\<lparr>cw_fresh := Suc (cw_fresh w)\<rparr>)))"

definition cannot_send :: exn where
  "cannot_send = ClientException GENERAL_ERROR ''Can't send a message if client is disconnected''"

text \<open>After an error of the connection the client disconnects first; only then is its state looked at.\<close>

definition check_connected ::
  "('j, 'o, 'm, 'u, 'z) client_env \<Rightarrow> (('j, 'o, 'm, 'u) client_world, unit) proc \<Rightarrow> (('j, 'o, 'm, 'u) client_world, unit) proc" where
  "check_connected K others =
     seqp (bindp (getc cl_connectionError) (\<lambda>b. if b then Client_disconnect K others else ret ()))
     (bindp (getc cl_state) (\<lambda>s. if s \<noteq> STATE_CONNECTED then raise cannot_send else ret ()))"

definition send_failed :: "exn \<Rightarrow> exn" where
  "send_failed e = ClientException SEND_ERROR (exn_what e)"

definition Client_sendSync ::
  "('j, 'o, 'm, 'u, 'z) client_env \<Rightarrow> (('j, 'o, 'm, 'u) client_world, unit) proc \<Rightarrow> 'm content \<Rightarrow> 'j \<Rightarrow>
     (('j, 'o, 'm, 'u) client_world, unit) proc" where
  "Client_sendSync K others content options =
     seqp (check_connected K others)
     (bindp (getc is_linked) (\<lambda>b.
        if b then bindp (Client_envelope K content options) (\<lambda>env. rethrow send_failed (on_link (ep_putEnvelope (kv_endpoint K) env)))
        else ret ()))"

text \<open>\<open>push\<close> on the queue, which must be there.\<close>

definition on_outgoing :: "('m envelope tqueue, 'a) proc \<Rightarrow> (('j, 'o, 'm, 'u) client_world, 'a) proc" where
  "on_outgoing act w =
     (case cl_outgoingQueue (cw_client w) of
        None \<Rightarrow> (Inl (Undefined ''null queue''), w)
      | Some q \<Rightarrow> (case act q of (r, q') \<Rightarrow> (r, w\<lparr>cw_client := (cw_client w)\<lparr>cl_outgoingQueue := Some q'\<rparr>\<rparr>)))"

definition queue_failed :: "exn \<Rightarrow> exn" where
  "queue_failed e = (case e of
       ShutdownException _ \<Rightarrow> ClientException GENERAL_ERROR ''Can't send a message : send queue is shut down''
     | _ \<Rightarrow> send_failed e)"

definition Client_sendAsync ::
  "('j, 'o, 'm, 'u, 'z) client_env \<Rightarrow> (('j, 'o, 'm, 'u) client_world, unit) proc \<Rightarrow> 'm content \<Rightarrow> 'j \<Rightarrow>
     (('j, 'o, 'm, 'u) client_world, unit) proc" where
  "Client_sendAsync K others content options =
     seqp (check_connected K others)
     (bindp (Client_envelope K content options) (\<lambda>env. rethrow queue_failed (on_outgoing (ThreadsafeQueue_push env))))"

definition Client_send ::
  "('j, 'o, 'm, 'u, 'z) client_env \<Rightarrow> (('j, 'o, 'm, 'u) client_world, unit) proc \<Rightarrow> 'm content \<Rightarrow> 'j \<Rightarrow>
     (('j, 'o, 'm, 'u) client_world, unit) proc" where
  "Client_send K others content options =
     bindp (getc cl_sendAsync) (\<lambda>async.
       if async then Client_sendAsync K others content options else Client_sendSync K others content options)"

definition send_control ::
  "('j, 'o, 'm, 'u, 'z) client_env \<Rightarrow> (('j, 'o, 'm, 'u) client_world, unit) proc \<Rightarrow> string \<Rightarrow>
     (('j, 'o, 'm, 'u) client_world, unit) proc" where
  "send_control K others comd = Client_send K others (ObjectContent (kv_control K comd)) (js_null (kv_json K))"

definition Client_shutdownDistributed ::
  "('j, 'o, 'm, 'u, 'z) client_env \<Rightarrow> (('j, 'o, 'm, 'u) client_world, unit) proc \<Rightarrow> (('j, 'o, 'm, 'u) client_world, unit) proc" where
  "Client_shutdownDistributed K others = seqp (send_control K others ''disconnect'') (Client_setState STATE_DISCONNECTING)"

definition Client_sendShutdownMessage ::
  "('j, 'o, 'm, 'u, 'z) client_env \<Rightarrow> (('j, 'o, 'm, 'u) client_world, unit) proc \<Rightarrow> (('j, 'o, 'm, 'u) client_world, unit) proc" where
  "Client_sendShutdownMessage K others =
     bindp (getc cl_isLocal) (\<lambda>local. if local then Client_shutdownLocal K else Client_shutdownDistributed K others)"

text \<open>Only local sessions can pause.\<close>

definition Client_pause :: "('j, 'o, 'm, 'u, 'z) client_env \<Rightarrow> (('j, 'o, 'm, 'u) client_world, unit) proc" where
  "Client_pause K = bindp (gets cw_client) (\<lambda>c.
     if cl_isLocal c then on_sessions (LocalSessions_pauseSession (session_uuid K c)) else ret ())"

definition Client_resume :: "('j, 'o, 'm, 'u, 'z) client_env \<Rightarrow> (('j, 'o, 'm, 'u) client_world, unit) proc" where
  "Client_resume K = bindp (gets cw_client) (\<lambda>c.
     if cl_isLocal c then on_sessions (LocalSessions_resumeSession (session_uuid K c)) else ret ())"

subsection \<open>Connecting\<close>

text \<open>The endpoints on a new peer, before anything was read or written.\<close>

definition new_link :: "chunking_config \<Rightarrow> 'o socket_peer \<Rightarrow> 'o client_link" where
  "new_link config p = ChunkingMessageEndpoint_new (PeerMessageEndpoint_new p True) config"

definition start_thread :: "(('o, 'm) client \<Rightarrow> bool) \<Rightarrow> (('o, 'm) client \<Rightarrow> ('o, 'm) client) \<Rightarrow> (('j, 'o, 'm, 'u) client_world, unit) proc" where
  "start_thread running start = bindp (getc running) (\<lambda>b. if b then raise std_terminate else cli start)"

definition Client_postConnect ::
  "('j, 'o, 'm, 'u, 'z) client_env \<Rightarrow> (('j, 'o, 'm, 'u) client_world, unit) proc \<Rightarrow> (('j, 'o, 'm, 'u) client_world, unit) proc" where
  "Client_postConnect K others =
     bindp (getc cl_conn) (\<lambda>k. case k of
       Bare_peer p \<Rightarrow>
         seqp (cli (\<lambda>c. c\<lparr>cl_state := STATE_CONNECTED, cl_run := True, cl_engineReady := False,
             cl_conn := Linked (new_link (cl_chunkingConfig c) p), cl_readerAutosave := None, cl_writerAutosave := None\<rparr>))
         (seqp (bindp (getc cl_sendAsync) (\<lambda>async. if async
            then seqp (cli (\<lambda>c. c\<lparr>cl_outgoingQueue := Some ThreadsafeQueue_new\<rparr>))
              (start_thread (\<lambda>c. cl_sendThread c \<noteq> S_none) (\<lambda>c. c\<lparr>cl_sendThread := S_check\<rparr>))
            else ret ()))
         (seqp (cli (\<lambda>c. c\<lparr>cl_readerAutosave := (if cl_incomingSaveDir c \<noteq> [] then Some (cl_incomingSaveDir c) else cl_readerAutosave c),
                           cl_writerAutosave := (if cl_outgoingSaveDir c \<noteq> [] then Some (cl_outgoingSaveDir c) else cl_writerAutosave c)\<rparr>))
         (seqp (start_thread (\<lambda>c. cl_thread c \<noteq> R_none) (\<lambda>c. c\<lparr>cl_thread := R_check\<rparr>))
         (send_control K others ''ready''))))
     | _ \<Rightarrow> raise (Undefined ''null peer''))"

text \<open>The registration of a client: the other two identifiers are null.\<close>

definition client_registration :: "uuid \<Rightarrow> registration_data" where
  "client_registration i = (RegistrationData_new 4 0 0 0)\<lparr>rd_sessionId := i\<rparr>"

text \<open>
  When connecting or registering fails, the peer that was being made is closed. A peer the client still has goes
  when the new one takes its place.
\<close>

definition dropped_peer :: "'o sock_os \<Rightarrow> ('j, 'o, 'm, 'u) client_world \<Rightarrow> ('j, 'o, 'm, 'u) client_world" where
  "dropped_peer os w = (if cl_conn (cw_client w) = No_peer then w else snd (on_client_peer (SocketPeer_shutdown os) w))"

definition Client_connectTCP ::
  "('j, 'o, 'm, 'u, 'z) client_env \<Rightarrow> (('j, 'o, 'm, 'u) client_world, unit) proc \<Rightarrow> (('j, 'o, 'm, 'u) client_world, unit) proc" where
  "Client_connectTCP K others w =
     (let c = cw_client w; os = kv_os K;
          reg = registration_bytes (kv_padding K) (client_registration (session_uuid K c)) in
      if cl_state c \<noteq> STATE_CONNECTING
      then (Inl (ClientException GENERAL_ERROR ''Cannot connect to node unless Session has been created''), w)
      else case seqp (InetSocketPeer_connect os (cl_hostIp c) (cl_port c))
             (in_zoom (Peer_send_or_throw os (Some reg) REGISTRATION_SIZE ''Client::connectTCP'')) (InetSocketPeer_new (cw_net w)) of
          (Inl e, q) \<Rightarrow> (Inl e, set_net (sp_os (snd (SocketPeer_shutdown os (in_peer q)))) w)
        | (Inr _, q) \<Rightarrow>
            Client_postConnect K others
              ((dropped_peer os (set_net (sp_os (in_peer q)) w))\<lparr>cw_client := c\<lparr>cl_conn := Bare_peer (in_peer q)\<rparr>\<rparr>))"

text \<open>The members of the coordinator's answer, read one after the other until one is not what it should be.\<close>

definition need_string ::
  "('j, 'o, 'm, 'u, 'z) client_env \<Rightarrow> 'j \<Rightarrow> string \<Rightarrow> string \<Rightarrow> (string \<Rightarrow> ('o, 'm) client \<Rightarrow> ('o, 'm) client) \<Rightarrow>
     (('j, 'o, 'm, 'u) client_world, string) proc \<Rightarrow> (('j, 'o, 'm, 'u) client_world, string) proc" where
  "need_string K resp key err put rest =
     bindp (liftr (js_get (kv_json K) resp key)) (\<lambda>v.
       if js_isString (kv_json K) v
       then bindp (liftr (js_asString (kv_json K) v)) (\<lambda>s. seqp (cli (put s)) rest)
       else ret err)"

definition connect_members ::
  "('j, 'o, 'm, 'u, 'z) client_env \<Rightarrow> 'j \<Rightarrow> (('j, 'o, 'm, 'u) client_world, string) proc" where
  "connect_members K resp =
     need_string K resp ''sessionId'' ''Server returned invalid sessionId'' (\<lambda>s c. c\<lparr>cl_sessionId := s\<rparr>)
     (need_string K resp ''hostname'' ''Server returned invalid host name'' (\<lambda>s c. c\<lparr>cl_hostname := s\<rparr>)
     (need_string K resp ''ip'' ''Server returned invalid ip'' (\<lambda>s c. c\<lparr>cl_hostIp := s\<rparr>)
     (bindp (liftr (js_get (kv_json K) resp ''port'')) (\<lambda>v.
        if js_isIntegral (kv_json K) v
        then bindp (liftr (js_asInt (kv_json K) v)) (\<lambda>i. seqp (cli (\<lambda>c. c\<lparr>cl_port := word_of_int i\<rparr>)) (ret []))
        else ret ''Server returned invalid port number''))))"

definition catchp :: "('s, 'a) proc \<Rightarrow> (exn \<Rightarrow> ('s, 'a) proc) \<Rightarrow> ('s, 'a) proc" where
  "catchp p h s = (case p s of (Inl e, s') \<Rightarrow> (if is_std_exception e then h e s' else (Inl e, s')) | r \<Rightarrow> r)"

definition Client_connectSession ::
  "('j, 'o, 'm, 'u, 'z) client_env \<Rightarrow> (('j, 'o, 'm, 'u) client_world, unit) proc \<Rightarrow> 'j \<Rightarrow> (('j, 'o, 'm, 'u) client_world, unit) proc" where
  "Client_connectSession K others responseObject =
     seqp (Client_setState STATE_CONNECTING)
     (bindp (connect_members K responseObject) (\<lambda>err.
      bindp (if err \<noteq> [] then ret err
             else seqp (progress_pending K ''Connecting'')
               (catchp (seqp (Client_connectTCP K others) (seqp (Client_setState STATE_CONNECTED) (ret [])))
                 (\<lambda>e. ret (''Connection failed: '' @ exn_what e)))) (\<lambda>err.
        if err = []
        then seqp (progress_pending K ''Connected'')
          (bindp (getc cl_sessionId) (\<lambda>i. Client_progressInfo K ''id'' (js_ofString (kv_json K) i)))
        else seqp (progress_failed K ''Connection failed'' err) (raise (ClientException GENERAL_ERROR err)))))"

subsection \<open>The threads\<close>

definition Client_handle :: "('j, 'o, 'm, 'u, 'z) client_env \<Rightarrow> 'm envelope \<Rightarrow> (('j, 'o, 'm, 'u) client_world, unit) proc" where
  "Client_handle K env =
     (let tell = (\<lambda>ev. bindp (getc cl_components) (\<lambda>cs. forp cs (\<lambda>k. case k of
             None \<Rightarrow> ret () | Some k \<Rightarrow> on_user (kv_component K k ev))));
          cid = Envelope_classId (kv_class K) env in
      if cid = core_classId EngineReadyMessage_new then seqp (cli (\<lambda>c. c\<lparr>cl_engineReady := True\<rparr>)) (tell On_ready)
      else if cid = core_classId SessionStatusMessage_new then tell (On_status env)
      else if cid \<noteq> core_classId ExecutorHeartbeat_new then tell (On_message env)
      else ret ())"

text \<open>What becomes of the request goes nowhere but to the log.\<close>

definition Client_registerDisconnect ::
  "('j, 'o, 'm, 'u, 'z) client_env \<Rightarrow> bool \<Rightarrow> string \<Rightarrow> (('j, 'o, 'm, 'u) client_world, unit) proc" where
  "Client_registerDisconnect K expected message =
     bindp (gets cw_client) (\<lambda>c.
       if cl_isLocal c then ret ()
       else let url = cl_arrasUrl c @ ''/'' @ cl_sessionId c @ ''/event''; J = kv_json K in
         bindp (liftr (make_object J (put_strings J
             [(''type'', if expected then ''clientExpectedDisconnect'' else ''clientUnexpectedDisconnect''), (''message'', message)]))) (\<lambda>body.
           catchp (seqp (upd (\<lambda>w. w\<lparr>cw_events := cw_events w @ [(url, js_print J body)]\<rparr>))
               (bindp (liftr (kv_submit K POST url (js_print J body))) (\<lambda>_. ret ())))
             (\<lambda>_. ret ())))"

definition peer_error :: "exn \<Rightarrow> peer_code option" where
  "peer_error e = (case e of PeerException _ code _ \<Rightarrow> Some code | PeerDisconnectException _ \<Rightarrow> Some CONNECTION_CLOSED | _ \<Rightarrow> None)"

definition call_callbacks :: "('j, 'o, 'm, 'u, 'z) client_env \<Rightarrow> exn \<Rightarrow> (('j, 'o, 'm, 'u) client_world, unit) proc" where
  "call_callbacks K e = bindp (getc cl_callbacks) (\<lambda>fs. forp fs (\<lambda>f. on_user (kv_callback K f e)))"

definition goto_receive :: "'m receive_pc \<Rightarrow> (('j, 'o, 'm, 'u) client_world, unit) proc" where
  "goto_receive pc = cli (\<lambda>c. c\<lparr>cl_thread := pc\<rparr>)"

text \<open>The handlers of \<open>threadProc\<close>. What they do not take ends the program.\<close>

definition Client_received_exception :: "('j, 'o, 'm, 'u, 'z) client_env \<Rightarrow> exn \<Rightarrow> (('j, 'o, 'm, 'u) client_world, unit) proc" where
  "Client_received_exception K e =
     (case peer_error e of
        Some code \<Rightarrow> rethrow (\<lambda>_. std_terminate) (bindp (gets cw_client) (\<lambda>c.
          if code = CONNECTION_CLOSED \<and> cl_state c = STATE_DISCONNECTING
          then seqp (Client_registerDisconnect K True (exn_what e))
            (seqp (cli (\<lambda>c. if cl_isLocal c then c else c\<lparr>cl_state := STATE_DISCONNECTED\<rparr>))
            (goto_receive R_end))
          else seqp (Client_registerDisconnect K False (exn_what e))
            (seqp (call_callbacks K e)
            (seqp (cli (\<lambda>c. c\<lparr>cl_connectionError := True\<rparr>))
            (goto_receive R_end)))))
      | None \<Rightarrow> (case e of
          ShutdownException _ \<Rightarrow> goto_receive R_check
        | _ \<Rightarrow> raise (if is_std_exception e then std_terminate else e)))"

text \<open>
  A step of the thread that receives; \<open>r\<close> is what \<open>getEnvelope\<close> answers, if it does. A call of an endpoint that
  has been deleted has no defined behaviour.
\<close>

definition Client_threadProc ::
  "('j, 'o, 'm, 'u, 'z) client_env \<Rightarrow> (exn + 'm envelope) option \<Rightarrow> ('j, 'o, 'm, 'u) client_world \<Rightarrow>
     ((exn + unit) \<times> ('j, 'o, 'm, 'u) client_world) option" where
  "Client_threadProc K r w =
     (case cl_thread (cw_client w) of
        R_check \<Rightarrow> Some (goto_receive (if cl_run (cw_client w) then R_deliver else R_end) w)
      | R_deliver \<Rightarrow> Some (goto_receive (if is_linked (cw_client w) then R_get else R_check) w)
      | R_get \<Rightarrow>
          if \<not> is_linked (cw_client w) then Some (Inl (Undefined ''deleted endpoint''), w)
          else (case r of
              None \<Rightarrow> None
            | Some (Inl e) \<Rightarrow> Some (Client_received_exception K e w)
            | Some (Inr env) \<Rightarrow> Some (goto_receive (R_handle env) w))
      | R_handle env \<Rightarrow> Some (
          case Client_handle K env w of
            (Inl e, w') \<Rightarrow> Client_received_exception K e w'
          | (Inr _, w') \<Rightarrow> goto_receive R_check w')
      | _ \<Rightarrow> None)"

definition goto_send :: "'m send_pc \<Rightarrow> (('j, 'o, 'm, 'u) client_world, unit) proc" where
  "goto_send pc = cli (\<lambda>c. c\<lparr>cl_sendThread := pc\<rparr>)"

definition Client_sent_exception :: "('j, 'o, 'm, 'u, 'z) client_env \<Rightarrow> exn \<Rightarrow> (('j, 'o, 'm, 'u) client_world, unit) proc" where
  "Client_sent_exception K e =
     seqp (case e of
         ShutdownException _ \<Rightarrow> ret ()
       | PeerDisconnectException _ \<Rightarrow> ret ()
       | _ \<Rightarrow> if is_std_exception e then rethrow (\<lambda>_. std_terminate) (call_callbacks K e) else raise e)
     (goto_send S_check)"

text \<open>A step of the thread that sends. \<open>None\<close>: it waits for a message.\<close>

definition Client_sendProc ::
  "('j, 'o, 'm, 'u, 'z) client_env \<Rightarrow> ('j, 'o, 'm, 'u) client_world \<Rightarrow> ((exn + unit) \<times> ('j, 'o, 'm, 'u) client_world) option" where
  "Client_sendProc K w =
     (case cl_sendThread (cw_client w) of
        S_check \<Rightarrow> Some (goto_send (if cl_run (cw_client w) then S_pop else S_end) w)
      | S_pop \<Rightarrow>
          (case on_outgoing ThreadsafeQueue_pop w of
             (Inl e, w') \<Rightarrow> Some (Client_sent_exception K e w')
           | (Inr None, _) \<Rightarrow> None
           | (Inr (Some env), w') \<Rightarrow> Some (goto_send (S_put env) w'))
      | S_put env \<Rightarrow> Some (goto_send (if is_linked (cw_client w) then S_putting env else S_check) w)
      | S_putting env \<Rightarrow>
          if \<not> is_linked (cw_client w) then Some (Inl (Undefined ''deleted endpoint''), w)
          else Some (case on_link (ep_putEnvelope (kv_endpoint K) env) w of
              (Inl e, w') \<Rightarrow> Client_sent_exception K e w'
            | (Inr _, w') \<Rightarrow> goto_send S_check w')
      | _ \<Rightarrow> None)"

text \<open>The end of a local session's process, told by the thread that waits for processes.\<close>

definition Client_localTermination ::
  "('j, 'o, 'm, 'u, 'z) client_env \<Rightarrow> bool \<Rightarrow> 'j \<Rightarrow> (('j, 'o, 'm, 'u) client_world, unit) proc" where
  "Client_localTermination K expected data =
     bindp (\<lambda>w. case kv_fresh K (cw_fresh w) of (iid, sid, now) \<Rightarrow>
         let x = kv_status K (js_print (kv_json K) data);
             md = (MetadataImpl_new iid sid now)\<lparr>md_routingName := oc_defaultRoutingName (kv_class K) x\<rparr>
         in (Inr \<lparr>en_content = Some (ObjectContent x), en_metadata = Some md, en_to = []\<rparr>, w\<lparr>cw_fresh := Suc (cw_fresh w)\<rparr>)) (\<lambda>env.
     seqp (bindp (getc cl_components) (\<lambda>cs. forp cs (\<lambda>k. case k of
         None \<Rightarrow> ret () | Some k \<Rightarrow> on_user (kv_component K k (On_status env)))))
     (cli (\<lambda>c. if cl_state c = STATE_DISCONNECTING then c\<lparr>cl_state := STATE_DISCONNECTED\<rparr> else c)))"

subsection \<open>Numbers in the environment\<close>

definition applyLoggingOverrides ::
  "(string \<Rightarrow> string option) \<Rightarrow> ('j, 'o, 'm, 'u) client_world \<Rightarrow> ('j, 'o, 'm, 'u) client_world" where
  "applyLoggingOverrides getenv w =
     (let w = (case getenv ''ARRASCLIENT_OVR_CLIENT_LOG_LEVEL'' of
                 None \<Rightarrow> w
               | Some s \<Rightarrow> (case stoul s of None \<Rightarrow> w | Some l \<Rightarrow> w\<lparr>cw_threshold := uint l\<rparr>))
      in case getenv ''ARRASCLIENT_OVR_CLIENT_TRACE_LEVEL'' of
           None \<Rightarrow> w
         | Some s \<Rightarrow> w\<lparr>cw_trace := sint (ucast (strtoul s) :: 32 word)\<rparr>)"

definition getClientVersion :: "(string \<Rightarrow> string option) \<Rightarrow> string" where
  "getClientVersion getenv =
     (let v = (\<lambda>k. case getenv k of Some v \<Rightarrow> v | None \<Rightarrow> ''???'') in
      ''arras4_client-'' @ v ''REZ_ARRAS4_CLIENT_VERSION'' @ '';arras4_core_impl-'' @ v ''REZ_ARRAS4_CORE_IMPL_VERSION'' @
      '';arras4_network-'' @ v ''REZ_ARRAS4_NETWORK_VERSION'')"

subsection \<open>Waiting\<close>

text \<open>
  \<open>obs k\<close> is the client as it is after \<open>k\<close> seconds; the loop looks at it once a second. The result of the loop is
  the number of seconds waited.
\<close>

primrec wait_loop :: "(nat \<Rightarrow> bool) \<Rightarrow> nat \<Rightarrow> nat \<Rightarrow> nat" where
  "wait_loop going k 0 = k"
| "wait_loop going k (Suc s) = (if going k then wait_loop going (Suc k) s else k)"

definition overridden_seconds :: "string option \<Rightarrow> u32 \<Rightarrow> u32" where
  "overridden_seconds var maxSeconds =
     (case var of None \<Rightarrow> maxSeconds | Some s \<Rightarrow> (case stoul s of None \<Rightarrow> maxSeconds | Some l \<Rightarrow> ucast l))"

definition Client_waitForEngineReady :: "(string \<Rightarrow> string option) \<Rightarrow> u32 \<Rightarrow> (nat \<Rightarrow> ('o, 'm) client) \<Rightarrow> bool" where
  "Client_waitForEngineReady getenv maxSeconds obs =
     (let s = overridden_seconds (getenv ''ARRASCLIENT_OVR_READY_WAIT_SECS'') maxSeconds
      in cl_engineReady (obs (wait_loop (\<lambda>k. \<not> cl_engineReady (obs k) \<and> \<not> cl_connectionError (obs k) \<and> Client_isConnected (obs k))
           0 (unat s))))"

definition Client_waitForDisconnect :: "(string \<Rightarrow> string option) \<Rightarrow> u32 \<Rightarrow> (nat \<Rightarrow> ('o, 'm) client) \<Rightarrow> bool" where
  "Client_waitForDisconnect getenv maxSeconds obs =
     (let s = overridden_seconds (getenv ''ARRASCLIENT_OVR_DISCONNECT_WAIT_SECS'') maxSeconds
      in Client_isDisconnected (obs (wait_loop (\<lambda>k. \<not> Client_isDisconnected (obs k)) 0 (unat s))))"

subsection \<open>Finding the coordinator\<close>

definition HTTP_NOT_FOUND :: int where "HTTP_NOT_FOUND = 404"

definition connection_error :: "string \<Rightarrow> exn + 'a" where
  "connection_error m = Inl (ClientException CONNECTION_ERROR m)"

definition Client_getResourceFromConfigurationService ::
  "(string \<Rightarrow> string option) \<Rightarrow> http_service \<Rightarrow> string \<Rightarrow> string \<Rightarrow> string \<Rightarrow> exn + string" where
  "Client_getResourceFromConfigurationService getenv submit resourcePath datacenter environ =
     (case getenv ''DWA_CONFIG_SERVICE'' of
        None \<Rightarrow> connection_error ''Undefined environment variable: DWA_CONFIG_SERVICE''
      | Some configSrvUrl \<Rightarrow>
          (let url = configSrvUrl @ ''/serve/jose/arras/endpoints/'' @ datacenter @ ''/'' @ environ @ resourcePath in
           sbind (submit GET url []) (\<lambda>(code, text).
             if code = HTTP_OK then
               (case text of Some t \<Rightarrow> Inr t | None \<Rightarrow> connection_error ''Coniguration service returned empty response'')
             else if code = HTTP_SERVICE_UNAVAILABLE then connection_error (''Configuration service unavailable: '' @ url)
             else connection_error (''Unexpected response code from configuration service. The response code was : '' @
               show_int code @ '', the url was : '' @ url))))"

definition LOCAL_SESSION_URL :: string where "LOCAL_SESSION_URL = ''arras:local''"

definition Client_getArrasUrl :: "(string \<Rightarrow> string option) \<Rightarrow> http_service \<Rightarrow> string \<Rightarrow> string \<Rightarrow> exn + string" where
  "Client_getArrasUrl getenv submit datacenter environ =
     (case getenv ''ARRASCLIENT_OVR_COORDINATOR_URL'' of
        Some overrideUrl \<Rightarrow> Inr (overrideUrl @ ''/sessions'')
      | None \<Rightarrow>
          if datacenter = ''local'' then Inr LOCAL_SESSION_URL
          else sbind (Client_getResourceFromConfigurationService getenv submit ''/coordinator/url'' datacenter environ)
            (\<lambda>url. Inr (url @ ''/sessions'')))"

definition Client_getCoordinatorEndpoint :: "(string \<Rightarrow> string option) \<Rightarrow> http_service \<Rightarrow> string \<Rightarrow> string \<Rightarrow> exn + string" where
  "Client_getCoordinatorEndpoint getenv submit datacenter environ =
     (case getenv ''ARRASCLIENT_OVR_COORDINATOR_URL'' of
        Some overrideUrl \<Rightarrow> Inr overrideUrl
      | None \<Rightarrow>
          if datacenter = [] \<or> environ = [] then Inr ''http://localhost:8087/coordinator/1''
          else Client_getResourceFromConfigurationService getenv submit ''/coordinator/url'' datacenter environ)"

definition Client_sessionExists :: "(string \<Rightarrow> string option) \<Rightarrow> http_service \<Rightarrow> string \<Rightarrow> string \<Rightarrow> string \<Rightarrow> exn + bool" where
  "Client_sessionExists getenv submit sessionId datacenter environ =
     (if sessionId = []
      then Inl (ClientException GENERAL_ERROR ''Unable to query sessions/sessionid: invalid(empty) sessionId'')
      else sbind (Client_getCoordinatorEndpoint getenv submit datacenter environ) (\<lambda>base.
        let url = base @ ''/sessions'' @ ''/'' @ sessionId in
        sbind (submit GET url []) (\<lambda>(code, _).
          if code = HTTP_OK then Inr True
          else if code = HTTP_NOT_FOUND then Inr False
          else if code = HTTP_SERVICE_UNAVAILABLE then connection_error (''session query service unavailable: '' @ url)
          else connection_error (''Unable to query sessions/sessionid. response code: '' @ show_int code @ '' url: '' @ url))))"

subsection \<open>Creating a session\<close>

definition Client_addHTTPBodyAttr :: "('j, 'z) json_obj_scheme \<Rightarrow> string \<times> string \<Rightarrow> ('j, unit) proc" where
  "Client_addHTTPBodyAttr J = (\<lambda>(name, val). js_put J name (if val \<noteq> [] then js_ofString J val else js_null J))"

text \<open>The request without the change of state, which comes first.\<close>

definition create_request ::
  "('j, 'z) json_obj_scheme \<Rightarrow> platform_info \<Rightarrow> int \<Rightarrow> string \<Rightarrow> 'j \<Rightarrow> 'j session_options \<Rightarrow> ('j, unit) proc" where
  "create_request J info pid username def opts =
     seqp (put_strings J [(''session'', ''empty''), (''node_name'', pi_nodeName info), (''os_name'', pi_osName info),
        (''os_version'', pi_osVersion info), (''os_distribution'', pi_osDistribution info),
        (''brief_version'', pi_briefVersion info), (''brief_distribution'', pi_briefDistribution info)])
     (seqp (js_put J ''pid'' (js_ofInt J pid))
     (seqp (js_put J ''username'' (js_ofString J username))
     (seqp (forp [(''production'', so_production opts), (''sequence'', so_sequence opts), (''shot'', so_shot opts),
        (''assetGroup'', so_assetGroup opts), (''asset'', so_asset opts), (''department'', so_department opts),
        (''team'', so_team opts)] (Client_addHTTPBodyAttr J))
     (seqp (js_put J ''sessionDef'' def)
     (js_put J ''metadata'' (so_metadata opts))))))"

definition Client_makeCreateRequest ::
  "('j, 'o, 'm, 'u, 'z) client_env \<Rightarrow> string \<Rightarrow> 'j \<Rightarrow> 'j session_options \<Rightarrow> 'j \<Rightarrow> (('j, 'o, 'm, 'u) client_world, 'j) proc" where
  "Client_makeCreateRequest K username def opts reqObj =
     seqp (Client_setState STATE_CONNECTING)
     (liftr (case create_request (kv_json K) (kv_platform K) (kv_pid K) username def opts reqObj of
        (Inl e, _) \<Rightarrow> Inl e | (Inr _, req) \<Rightarrow> Inr req))"

text \<open>Where messages are recorded, and the definition saved without that.\<close>

definition recording_dir :: "('j, 'z) json_obj_scheme \<Rightarrow> 'j \<Rightarrow> string \<Rightarrow> exn + string" where
  "recording_dir J params key = sbind (js_get J params key) (\<lambda>v. if js_isString J v then js_asString J v else Inr [])"

definition on_client_files :: "(files, 'a) proc \<Rightarrow> (('j, 'o, 'm, 'u) client_world, 'a) proc" where
  "on_client_files = zoom (ss_files \<circ> cw_sessions) (\<lambda>f w. w\<lparr>cw_sessions := (cw_sessions w)\<lparr>ss_files := f\<rparr>\<rparr>)"

definition Client_setupMessageRecording ::
  "('j, 'o, 'm, 'u, 'z) client_env \<Rightarrow> 'j \<Rightarrow> (('j, 'o, 'm, 'u) client_world, unit) proc" where
  "Client_setupMessageRecording K def =
     (let J = kv_json K in
      bindp (liftr (sbind (js_get J def ''computations'') (\<lambda>c. js_get J c ''(client)''))) (\<lambda>clientParams.
        if \<not> js_isObject J clientParams then ret ()
        else bindp (liftr (recording_dir J clientParams ''saveIncomingTo'')) (\<lambda>i. seqp (cli (\<lambda>c. c\<lparr>cl_incomingSaveDir := i\<rparr>))
          (bindp (liftr (recording_dir J clientParams ''saveOutgoingTo'')) (\<lambda>o'. seqp (cli (\<lambda>c. c\<lparr>cl_outgoingSaveDir := o'\<rparr>))
          (bindp (liftr (js_get J clientParams ''saveDefinitionTo'')) (\<lambda>v.
            if \<not> js_isString J v then ret ()
            else bindp (liftr (js_asString J v)) (\<lambda>savePath.
              case forp [''saveIncomingTo'', ''saveOutgoingTo'', ''saveDefinitionTo'']
                     (\<lambda>k. js_at J ''computations'' (js_at J ''(client)'' (js_drop J k))) def of
                (Inl e, _) \<Rightarrow> raise e
              | (Inr _, defCopy) \<Rightarrow> on_client_files (SessionDefinition_saveToFile J (kv_save K) savePath defCopy)))))))))"

text \<open>A line for the user, at the end of a file in the home directory. Only failing to open it is noticed, and logged.\<close>

definition append_file :: "write_outcome \<Rightarrow> string \<Rightarrow> string \<Rightarrow> (files, unit) proc" where
  "append_file oc path text fs =
     (let old = (case fs path of None \<Rightarrow> [] | Some t \<Rightarrow> t) in
      (Inr (), case oc of CannotOpen \<Rightarrow> fs | CannotWrite t \<Rightarrow> fs(path \<mapsto> old @ t) | Written \<Rightarrow> fs(path \<mapsto> old @ text)))"

definition Client_logLocal ::
  "('j, 'o, 'm, 'u, 'z) client_env \<Rightarrow> 'j \<Rightarrow> 'j session_options \<Rightarrow> (('j, 'o, 'm, 'u) client_world, unit) proc" where
  "Client_logLocal K def opts =
     (case kv_getenv K ''HOME'' of
        None \<Rightarrow> ret ()
      | Some home \<Rightarrow>
          (let J = kv_json K; username = (case kv_getenv K ''LOGNAME'' of Some u \<Rightarrow> u | None \<Rightarrow> ''unknown_user'') in
           bindp (liftr (js_get J def ''name'')) (\<lambda>n.
           bindp (if js_isString J n then liftr (js_asString J n) else ret ''unnamed_session'') (\<lambda>sessname.
           bindp (getc cl_sessionId) (\<lambda>i.
             on_client_files (append_file (kv_log K) (home @ ''/'' @ ''.arras'' @ ''/'' @ ''localsessions'')
               (kv_date K @ '' '' @ username @ '' '' @ sessname @ '' '' @ i @ '' Sq '' @ so_sequence opts @ '' S '' @ so_shot opts @
                '' AssGrp '' @ so_assetGroup opts @ '' Ass '' @ so_asset opts @ [CHR 0x0A]))))))) "

text \<open>
  The identifiers of the new session, of its node and of its computation. The thread that tells the coordinator
  of the session runs on its own; see \<open>SessionNotification_registerSession\<close>.
\<close>

definition Client_startLocal ::
  "('j, 'o, 'm, 'u, 'z) client_env \<Rightarrow> 'j \<Rightarrow> 'j session_options \<Rightarrow> (('j, 'o, 'm, 'u) client_world, ('j, 'o) local_session option) proc" where
  "Client_startLocal K def opts =
     bindp (gets (kv_fresh K \<circ> cw_fresh)) (\<lambda>(session, node, _).
     bindp (gets (fst \<circ> kv_fresh K \<circ> Suc \<circ> cw_fresh)) (\<lambda>computation.
     seqp (upd (\<lambda>w. w\<lparr>cw_fresh := cw_fresh w + 2\<rparr>))
     (let sessionId = UUID_toString (kv_uuid K) session in
      bindp (liftr (make_object (kv_json K) (SessionOptions_appendToObject (kv_json K) opts))) (\<lambda>_.
      seqp (on_sessions (LocalSessions_createSession (kv_uuid K) (kv_json K) (kv_local K) (kv_os K) node computation
         (kv_pipes_ok K) (kv_cg_ok K) (kv_fork K) def sessionId True))
      (on_sessions (gets (LocalSessions_getSession (UUID_parse (kv_uuid K) sessionId))))))))"

definition Client_createLocal ::
  "('j, 'o, 'm, 'u, 'z) client_env \<Rightarrow> (('j, 'o, 'm, 'u) client_world, unit) proc \<Rightarrow> 'j \<Rightarrow> 'j session_options \<Rightarrow>
     (('j, 'o, 'm, 'u) client_world, string) proc" where
  "Client_createLocal K others def opts =
     bindp (catchp (bindp (Client_startLocal K def opts) (\<lambda>sp. ret (sp, ''Failed to create local session'')))
        (\<lambda>e. ret (None, ''Failed to create local session'' @ '' :'' @ exn_what e))) (\<lambda>(sp, err).
     case sp of
       None \<Rightarrow> seqp (progress_failed K ''Creation failed'' err) (raise (ClientException UNKNOWN_ERROR err))
     | Some s \<Rightarrow>
         seqp (cli (\<lambda>c. c\<lparr>cl_sessionId := UUID_toString (kv_uuid K) (ad_session (ls_address s)),
                         cl_conn := (case ls_peer s of None \<Rightarrow> No_peer | Some p \<Rightarrow> Bare_peer p)\<rparr>))
         (seqp (Client_postConnect K others)
         (seqp (progress_pending K ''Created'')
         (seqp (bindp (getc cl_sessionId) (\<lambda>i. Client_progressInfo K ''id'' (js_ofString (kv_json K) i)))
         (seqp (cli (\<lambda>c. c\<lparr>cl_isLocal := True\<rparr>))
         (seqp (Client_logLocal K def opts)
         (seqp (send_control K others ''go'')
         (seqp (cli (\<lambda>c. c\<lparr>cl_engineReady := True\<rparr>))
         (seqp (progress_pending K ''Running'')
         (getc cl_sessionId))))))))))"

text \<open>The answer to a request: the message in it, the object it is, and whether it is missing.\<close>

definition create_response :: "('j, 'z) json_obj_scheme \<Rightarrow> string option \<Rightarrow> exn + string \<times> 'j \<times> bool" where
  "create_response J text =
     (case text of
        None \<Rightarrow> Inr ([], js_null J, True)
      | Some t \<Rightarrow>
          (case stringToObject J t (js_null J) of
             (Inl e, j) \<Rightarrow> (case e of ObjectFormatError _ \<Rightarrow> Inr (t, j, False) | _ \<Rightarrow> Inl e)
           | (Inr _, j) \<Rightarrow> sbind (js_isMember J j ''message'') (\<lambda>there.
               if \<not> there then Inr (t, j, False)
               else sbind (js_get J j ''message'') (\<lambda>m.
                 if js_isString J m then sbind (js_asString J m) (\<lambda>s. Inr (s, j, False)) else Inr (t, j, False)))))"

definition Client_requestSession ::
  "('j, 'o, 'm, 'u, 'z) client_env \<Rightarrow> (('j, 'o, 'm, 'u) client_world, unit) proc \<Rightarrow> 'j \<Rightarrow> string \<Rightarrow> 'j \<Rightarrow>
     (('j, 'o, 'm, 'u) client_world, unit) proc" where
  "Client_requestSession K others def url reqObj =
     (let J = kv_json K in
      bindp (liftr (kv_submit K POST url (js_print J reqObj))) (\<lambda>(code, text).
      bindp (liftr (create_response J text)) (\<lambda>(message, response, emptyResponse).
        if \<not> emptyResponse \<and> code = HTTP_OK
        then seqp (Client_setupMessageRecording K def) (Client_connectSession K others response)
        else if code = HTTP_SERVICE_UNAVAILABLE
        then let err = ''Insufficient resources available to fill this request'' @ (if message \<noteq> [] then '': '' @ message else [])
          in seqp (progress_failed K ''No resources'' err) (raise (ClientException NO_AVAILABLE_RESOURCES_ERROR err))
        else let err = ''Server responded with error code '' @ show_int code @ (if message \<noteq> [] then '', message: '' @ message else [])
          in seqp (progress_failed K ''Request failed'' err) (raise (ClientException GENERAL_ERROR err)))))"

definition Client_createDistributed ::
  "('j, 'o, 'm, 'u, 'z) client_env \<Rightarrow> (('j, 'o, 'm, 'u) client_world, unit) proc \<Rightarrow> 'j \<Rightarrow> string \<Rightarrow> 'j session_options \<Rightarrow>
     (('j, 'o, 'm, 'u) client_world, string) proc" where
  "Client_createDistributed K others def url opts =
     (case kv_getenv K ''LOGNAME'' of
        None \<Rightarrow> (let err = ''Unable to determine the current user's login name'' in
          seqp (progress_pending K ''Request error'')
          (seqp (Client_progressInfo K ''errors'' (js_ofString (kv_json K) err)) (raise (ClientException GENERAL_ERROR err))))
      | Some logname \<Rightarrow>
          bindp (Client_makeCreateRequest K logname def opts (js_null (kv_json K))) (\<lambda>reqObj.
          seqp (catchp (Client_requestSession K others def url reqObj) (\<lambda>e.
             let err = ''Failed to connect to Coordinator: '' @ exn_what e
             in seqp (progress_failed K ''Request failed'' err) (raise (ClientException GENERAL_ERROR err))))
          (seqp (cli (\<lambda>c. c\<lparr>cl_isLocal := False\<rparr>))
          (getc cl_sessionId))))"

definition forced_local :: "('j, 'z) json_obj_scheme \<Rightarrow> (string \<Rightarrow> string option) \<Rightarrow> 'j \<Rightarrow> exn + bool" where
  "forced_local J getenv def =
     sbind (js_get J def ''computations'') (\<lambda>comps.
       Inr (js_isObject J comps \<and> js_size J comps = 2 \<and>
         (case getenv ''ARRASCLIENT_OVR_FORCE_LOCAL_MODE'' of
            None \<Rightarrow> False | Some v \<Rightarrow> v \<in> {''true'', ''TRUE'', ''yes'', ''YES'', ''1''})))"

definition Client_createSession ::
  "('j, 'o, 'm, 'u, 'z) client_env \<Rightarrow> (('j, 'o, 'm, 'u) client_world, unit) proc \<Rightarrow> 'j \<Rightarrow> string \<Rightarrow> 'j session_options \<Rightarrow>
     (('j, 'o, 'm, 'u) client_world, string) proc" where
  "Client_createSession K others def url opts =
     (let J = kv_json K in
      bindp (liftr (SessionDefinition_checkNamedContexts J def)) (\<lambda>resolved.
        if \<not> resolved then raise (ClientException UNKNOWN_ERROR ''Session contains an unresolved context name'')
        else
          seqp (upd (applyLoggingOverrides (kv_getenv K)))
          (seqp (Client_disconnect K others)
          (seqp (cli (\<lambda>c. c\<lparr>cl_arrasUrl := url\<rparr>))
          (bindp (liftr (forced_local J (kv_getenv K) def)) (\<lambda>forceLocal.
           let local = (forceLocal \<or> url = LOCAL_SESSION_URL) in
           seqp (if so_id opts = []
              then bindp (gets (fst \<circ> kv_fresh K \<circ> cw_fresh)) (\<lambda>i.
                seqp (upd (\<lambda>w. w\<lparr>cw_fresh := Suc (cw_fresh w)\<rparr>))
                (cli (\<lambda>c. c\<lparr>cl_progressId := ''progress@'' @ UUID_toString (kv_uuid K) i\<rparr>)))
              else cli (\<lambda>c. c\<lparr>cl_progressId := so_id opts\<rparr>))
           (seqp (progress_object K (\<lambda>i. put_strings J [(''id'', i), (''title'', SessionOptions_getTitle opts), (''start'', kv_date K),
              (''type'', if local then ''Local'' else ''Pool''), (''stage'', if local then ''Creating'' else ''Requesting resources''),
              (''status'', ''pending''), (''progress'', [])]))
           (if local then Client_createLocal K others def opts else Client_createDistributed K others def url opts)))))))) "

end
