(* ===== verification/Sdk.thy ===== *)
theory Sdk
  imports Clients
begin

text \<open>
  The client library as programs use it (\<^verbatim>\<open>arras4_client/lib/sdk\<close>): \<open>Impl\<close> of \<^verbatim>\<open>sdk.cc\<close>, which gives a client the
  program's handlers and turns exceptions into those of the interface, the \<open>SDK\<close> facade on it, and \<open>MultiSession\<close>,
  a set of sessions by name that are created in one request.

  \<open>SDKException\<close> is \<open>ClientException\<close>. The sessions of a \<open>multi_world\<close> share everything of a \<open>client_world\<close> but the
  client; the environment of a session, with the handlers it was added with, is given by its name.
\<close>

subsection \<open>Impl\<close>

text \<open>The handlers of the program; a function object may be empty.\<close>

record ('m, 'u) sdk_handlers =
  sh_message :: "('m envelope \<Rightarrow> ('u, unit) proc) option"
  sh_status :: "(string \<Rightarrow> ('u, unit) proc) option"
  sh_exception :: "(exn \<Rightarrow> ('u, unit) proc) option"
  sh_ready :: "('u, unit) proc option"

definition Impl_setMessageHandler :: "('m envelope \<Rightarrow> ('u, unit) proc) option \<Rightarrow> ('m, 'u) sdk_handlers \<Rightarrow> ('m, 'u) sdk_handlers" where
  "Impl_setMessageHandler h H = H\<lparr>sh_message := h\<rparr>"

definition Impl_setStatusHandler :: "(string \<Rightarrow> ('u, unit) proc) option \<Rightarrow> ('m, 'u) sdk_handlers \<Rightarrow> ('m, 'u) sdk_handlers" where
  "Impl_setStatusHandler h H = H\<lparr>sh_status := h\<rparr>"

definition Impl_setExceptionCallback :: "(exn \<Rightarrow> ('u, unit) proc) option \<Rightarrow> ('m, 'u) sdk_handlers \<Rightarrow> ('m, 'u) sdk_handlers" where
  "Impl_setExceptionCallback h H = H\<lparr>sh_exception := h\<rparr>"

definition Impl_setEngineReadyCallback :: "('u, unit) proc option \<Rightarrow> ('m, 'u) sdk_handlers \<Rightarrow> ('m, 'u) sdk_handlers" where
  "Impl_setEngineReadyCallback h H = H\<lparr>sh_ready := h\<rparr>"

text \<open>The component wrapper: \<open>status_of\<close> is the text of a status message, when the content is one.\<close>

definition ComponentWrapper :: "('m envelope \<Rightarrow> string option) \<Rightarrow> ('m, 'u) sdk_handlers \<Rightarrow> 'm client_event \<Rightarrow> ('u, unit) proc" where
  "ComponentWrapper status_of H ev =
     (case ev of
        On_message env \<Rightarrow> (case sh_message H of None \<Rightarrow> ret () | Some h \<Rightarrow> h env)
      | On_ready \<Rightarrow> (case sh_ready H of None \<Rightarrow> ret () | Some h \<Rightarrow> h)
      | On_status env \<Rightarrow> (case status_of env of
          None \<Rightarrow> ret ()
        | Some s \<Rightarrow> (case sh_status H of None \<Rightarrow> ret () | Some h \<Rightarrow> h s)))"

definition ExceptionCallbackWrapper :: "('m, 'u) sdk_handlers \<Rightarrow> exn \<Rightarrow> ('u, unit) proc" where
  "ExceptionCallbackWrapper H e = (case sh_exception H of None \<Rightarrow> ret () | Some h \<Rightarrow> h e)"

text \<open>Its one component and its one callback, the result of \<open>bind\<close>, are number 0.\<close>

definition Impl_new :: "string \<Rightarrow> bool \<Rightarrow> ('o, 'm) client" where
  "Impl_new userAgent uninit =
     Client_addComponent (Some 0) (Client_addExceptionCallback (Function_object 0) (Client_new userAgent uninit))"

definition Impl_env ::
  "('m envelope \<Rightarrow> string option) \<Rightarrow> ('m, 'u) sdk_handlers \<Rightarrow> ('j, 'o, 'm, 'u, 'z) client_env \<Rightarrow> ('j, 'o, 'm, 'u, 'z) client_env" where
  "Impl_env status_of H K =
     K\<lparr>kv_component := \<lambda>_. ComponentWrapper status_of H, kv_callback := \<lambda>_. ExceptionCallbackWrapper H\<rparr>"

definition Impl_delete ::
  "('j, 'o, 'm, 'u, 'z) client_env \<Rightarrow> (('j, 'o, 'm, 'u) client_world, unit) proc \<Rightarrow> (('j, 'o, 'm, 'u) client_world, unit) proc" where
  "Impl_delete K others =
     rethrow (\<lambda>_. std_terminate)
       (seqp (Client_disconnect K others)
       (seqp (cli (Client_removeComponent (Some 0)))
       (seqp (cli (Client_removeExceptionCallback (Function_object 0)))
       (Client_delete K others))))"

text \<open>\<open>catch (const HttpException& e)\<close> and \<open>catch (std::exception& e)\<close>.\<close>

definition http_as :: "client_error \<Rightarrow> exn \<Rightarrow> exn" where
  "http_as t e = (case e of HttpException m \<Rightarrow> ClientException t m | _ \<Rightarrow> e)"

definition http_catch :: "client_error \<Rightarrow> exn + 'a \<Rightarrow> exn + 'a" where
  "http_catch t r = (case r of Inl e \<Rightarrow> Inl (http_as t e) | Inr a \<Rightarrow> Inr a)"

definition Impl_requestArrasUrl :: "(string \<Rightarrow> string option) \<Rightarrow> http_service \<Rightarrow> string \<Rightarrow> string \<Rightarrow> exn + string" where
  "Impl_requestArrasUrl getenv submit datacenter environ =
     http_catch CONNECTION_ERROR (Client_getArrasUrl getenv submit datacenter environ)"

definition Impl_sessionExists :: "(string \<Rightarrow> string option) \<Rightarrow> http_service \<Rightarrow> string \<Rightarrow> string \<Rightarrow> string \<Rightarrow> exn + bool" where
  "Impl_sessionExists getenv submit sessionId datacenter environ =
     http_catch CONNECTION_ERROR (Client_sessionExists getenv submit sessionId datacenter environ)"

definition Impl_createSession ::
  "('j, 'o, 'm, 'u, 'z) client_env \<Rightarrow> (('j, 'o, 'm, 'u) client_world, unit) proc \<Rightarrow> 'j \<Rightarrow> string \<Rightarrow> 'j session_options \<Rightarrow>
     (('j, 'o, 'm, 'u) client_world, string) proc" where
  "Impl_createSession K others def url opts =
     rethrow (\<lambda>e. ClientException CONNECTION_ERROR (exn_what e)) (Client_createSession K others def url opts)"

definition Impl_shutdownSession ::
  "('j, 'o, 'm, 'u, 'z) client_env \<Rightarrow> (('j, 'o, 'm, 'u) client_world, unit) proc \<Rightarrow> (('j, 'o, 'm, 'u) client_world, unit) proc" where
  "Impl_shutdownSession K others =
     bindp (getc Client_isConnected) (\<lambda>b. if b then Client_sendShutdownMessage K others else ret ())"

text \<open>\<open>sendMessage\<close>, with the handler for exceptions of the peer.\<close>

definition SDK_sendMessage ::
  "('j, 'o, 'm, 'u, 'z) client_env \<Rightarrow> (('j, 'o, 'm, 'u) client_world, unit) proc \<Rightarrow> 'm content \<Rightarrow> 'j \<Rightarrow>
     (('j, 'o, 'm, 'u) client_world, unit) proc" where
  "SDK_sendMessage K others content options =
     rethrow (\<lambda>e. if peer_error e \<noteq> None then ClientException SEND_ERROR (exn_what e) else e) (Client_send K others content options)"

text \<open>The logger is made once; later calls change nothing and say so.\<close>

definition Impl_configAthenaLogger :: "bool \<Rightarrow> bool \<times> bool" where
  "Impl_configAthenaLogger mCreatedLogger = (if \<not> mCreatedLogger then (True, True) else (False, mCreatedLogger))"

subsection \<open>MultiSession\<close>

record ('j, 'o, 'm) multi_entry =
  me_client :: "('o, 'm) client"
  me_definition :: 'j
  me_options :: "'j session_options"

record ('j, 'o, 'm, 'u) multi_world =
  mw_map :: "(string, ('j, 'o, 'm) multi_entry) stdmap"
  mw_sessions :: "('j, 'o) sessions_world"
  mw_progress :: "'j progress_sender"
  mw_user :: 'u
  mw_fresh :: nat
  mw_events :: "(string \<times> string) list"
  mw_threshold :: int
  mw_trace :: int

definition sdk_world :: "('o, 'm) client \<Rightarrow> ('j, 'o, 'm, 'u) multi_world \<Rightarrow> ('j, 'o, 'm, 'u) client_world" where
  "sdk_world c w =
     \<lparr>cw_client = c, cw_sessions = mw_sessions w, cw_progress = mw_progress w, cw_user = mw_user w, cw_fresh = mw_fresh w,
      cw_events = mw_events w, cw_threshold = mw_threshold w, cw_trace = mw_trace w\<rparr>"

definition put_sdk_world :: "('j, 'o, 'm, 'u) client_world \<Rightarrow> ('j, 'o, 'm, 'u) multi_world \<Rightarrow> ('j, 'o, 'm, 'u) multi_world" where
  "put_sdk_world v w =
     w\<lparr>mw_sessions := cw_sessions v, mw_progress := cw_progress v, mw_user := cw_user v, mw_fresh := cw_fresh v,
       mw_events := cw_events v, mw_threshold := cw_threshold v, mw_trace := cw_trace v\<rparr>"

text \<open>An operation of the session of a name.\<close>

definition on_sdk :: "string \<Rightarrow> (('j, 'o, 'm, 'u) client_world, 'a) proc \<Rightarrow> (('j, 'o, 'm, 'u) multi_world, 'a) proc" where
  "on_sdk key act w =
     (case map_of (mw_map w) key of
        None \<Rightarrow> (Inl (LogicError ''MultiImpl: key doesn't exist''), w)
      | Some e \<Rightarrow> (case act (sdk_world (me_client e) w) of
          (r, v) \<Rightarrow> (r, (put_sdk_world v w)\<lparr>mw_map := map_set key (e\<lparr>me_client := cw_client v\<rparr>) (mw_map w)\<rparr>)))"

definition MultiImpl_addSession ::
  "string \<Rightarrow> string \<Rightarrow> bool \<Rightarrow> 'j \<Rightarrow> 'j session_options \<Rightarrow> (('j, 'o, 'm, 'u) multi_world, unit) proc" where
  "MultiImpl_addSession userAgent key uninit def opts w =
     (if map_of (mw_map w) key \<noteq> None then (Inl (LogicError ''MultiImpl: key already exists''), w)
      else (Inr (), w\<lparr>mw_map := map_set key \<lparr>me_client = Impl_new userAgent uninit, me_definition = def, me_options = opts\<rparr> (mw_map w)\<rparr>))"

definition MultiImpl_getSession :: "string \<Rightarrow> ('j, 'o, 'm, 'u) multi_world \<Rightarrow> exn + ('o, 'm) client" where
  "MultiImpl_getSession key w =
     (case map_of (mw_map w) key of None \<Rightarrow> Inl (LogicError ''MultiImpl: key doesn't exist'') | Some e \<Rightarrow> Inr (me_client e))"

definition MultiImpl_removeSession ::
  "(string \<Rightarrow> ('j, 'o, 'm, 'u, 'z) client_env) \<Rightarrow> (('j, 'o, 'm, 'u) client_world, unit) proc \<Rightarrow> string \<Rightarrow>
     (('j, 'o, 'm, 'u) multi_world, unit) proc" where
  "MultiImpl_removeSession K others key =
     bindp (gets (\<lambda>w. map_of (mw_map w) key)) (\<lambda>e. case e of
       None \<Rightarrow> ret ()
     | Some _ \<Rightarrow> seqp (on_sdk key (Impl_delete (K key) others)) (upd (\<lambda>w. w\<lparr>mw_map := map_erase key (mw_map w)\<rparr>)))"

definition MultiImpl_clear ::
  "(string \<Rightarrow> ('j, 'o, 'm, 'u, 'z) client_env) \<Rightarrow> (('j, 'o, 'm, 'u) client_world, unit) proc \<Rightarrow>
     (('j, 'o, 'm, 'u) multi_world, unit) proc" where
  "MultiImpl_clear K others = bindp (gets (map fst \<circ> mw_map)) (\<lambda>keys. forp keys (MultiImpl_removeSession K others))"

text \<open>
  The last slash of an address before its last character: \<open>find_last_of\<close> looks at the whole of an address that is
  shorter.
\<close>

definition last_slash :: "string \<Rightarrow> nat option" where
  "last_slash url =
     (let m = (if length url < 2 then length url else length url - 1)
      in case filter (\<lambda>i. url ! i = CHR ''/'') [0..<m] of [] \<Rightarrow> None | is \<Rightarrow> Some (last is))"

definition multi_url :: "string \<Rightarrow> exn + string" where
  "multi_url arrasUrl =
     (case last_slash arrasUrl of
        None \<Rightarrow> Inl (ClientException UNKNOWN_ERROR (''Invalid arras url : '' @ arrasUrl))
      | Some p \<Rightarrow> Inr (take p arrasUrl @ ''/multisession''))"

text \<open>The requests of the sessions that are not connected, in one object.\<close>

primrec multi_requests ::
  "(string \<Rightarrow> ('j, 'o, 'm, 'u, 'z) client_env) \<Rightarrow> string \<Rightarrow> string list \<Rightarrow> 'j \<Rightarrow> (('j, 'o, 'm, 'u) multi_world, 'j) proc" where
  "multi_requests K logname [] req = ret req"
| "multi_requests K logname (key # keys) req =
     bindp (gets (\<lambda>w. map_of (mw_map w) key)) (\<lambda>e. case e of
       None \<Rightarrow> multi_requests K logname keys req
     | Some e \<Rightarrow>
         if Client_isConnected (me_client e) then multi_requests K logname keys req
         else let J = kv_json (K key) in
           bindp (liftr (js_get J req key)) (\<lambda>sub.
           bindp (on_sdk key (Client_makeCreateRequest (K key) logname (me_definition e) (me_options e) sub)) (\<lambda>sub.
           bindp (liftr (js_set J key sub req)) (\<lambda>req.
           seqp (on_sdk key (Client_setupMessageRecording (K key) (me_definition e)))
           (multi_requests K logname keys req)))))"

text \<open>What the coordinator answered: an error and its text, or the object with an answer for each session.\<close>

definition multi_response :: "('j, 'z) json_obj_scheme \<Rightarrow> string option \<Rightarrow> exn + bool \<times> string \<times> 'j" where
  "multi_response J text =
     (case text of
        None \<Rightarrow> Inr (True, [], js_null J)
      | Some t \<Rightarrow>
          (case stringToObject J t (js_null J) of
             (Inl e, j) \<Rightarrow> (case e of ObjectFormatError _ \<Rightarrow> Inr (True, t, j) | _ \<Rightarrow> Inl e)
           | (Inr _, j) \<Rightarrow> sbind (js_isMember J j ''error'') (\<lambda>there.
               if \<not> there then Inr (False, [], j)
               else sbind (js_get J j ''message'') (\<lambda>m.
                 if js_isString J m then sbind (js_asString J m) (\<lambda>s. Inr (True, s, j)) else Inr (True, [], j)))))"

text \<open>An exception of a session is given its name.\<close>

definition with_key :: "string \<Rightarrow> exn \<Rightarrow> exn" where
  "with_key key e = (case e of ClientException t m \<Rightarrow> ClientException t (''['' @ key @ ''] '' @ m) | _ \<Rightarrow> e)"

definition MultiImpl_processCreateResponse ::
  "(string \<Rightarrow> ('j, 'o, 'm, 'u, 'z) client_env) \<Rightarrow> (('j, 'o, 'm, 'u) client_world, unit) proc \<Rightarrow> ('j, 'y) json_obj_scheme \<Rightarrow>
     int \<Rightarrow> string option \<Rightarrow> (('j, 'o, 'm, 'u) multi_world, unit) proc" where
  "MultiImpl_processCreateResponse K others J code text =
     bindp (liftr (multi_response J text)) (\<lambda>(haveError, errorMessage, response).
       if \<not> haveError \<and> code = HTTP_OK
       then forp (js_members J response) (\<lambda>(key, r).
         bindp (gets (MultiImpl_getSession key)) (\<lambda>s. case s of
           Inl e \<Rightarrow> raise e
         | Inr _ \<Rightarrow> rethrow (with_key key) (on_sdk key (Client_connectSession (K key) others r))))
       else if code = HTTP_SERVICE_UNAVAILABLE
       then raise (ClientException NO_AVAILABLE_RESOURCES_ERROR ''Insuffient resources available to fill this request'')
       else raise (ClientException GENERAL_ERROR (''Server responded with error code '' @ show_int code @
         (if errorMessage \<noteq> [] then '', message: '' @ errorMessage else []))))"

definition MultiImpl_createAll ::
  "(string \<Rightarrow> ('j, 'o, 'm, 'u, 'z) client_env) \<Rightarrow> (('j, 'o, 'm, 'u) client_world, unit) proc \<Rightarrow> ('j, 'y) json_obj_scheme \<Rightarrow>
     (string \<Rightarrow> string option) \<Rightarrow> http_service \<Rightarrow> string \<Rightarrow> (('j, 'o, 'm, 'u) multi_world, unit) proc" where
  "MultiImpl_createAll K others J getenv submit arrasUrl =
     bindp (liftr (multi_url arrasUrl)) (\<lambda>multiUrl.
       case getenv ''LOGNAME'' of
         None \<Rightarrow> raise (ClientException GENERAL_ERROR ''Unable to determine the current user's login name'')
       | Some logname \<Rightarrow>
           bindp (gets (map fst \<circ> mw_map)) (\<lambda>keys.
           bindp (multi_requests K logname keys (js_null J)) (\<lambda>req.
             rethrow (http_as GENERAL_ERROR)
               (bindp (liftr (submit POST multiUrl (js_print J req))) (\<lambda>(code, text).
                  MultiImpl_processCreateResponse K others J code text)))))"

text \<open>Operations on all sessions, in the order of their names.\<close>

definition each_session ::
  "(string \<Rightarrow> (('j, 'o, 'm, 'u) client_world, unit) proc) \<Rightarrow> (('j, 'o, 'm, 'u) multi_world, unit) proc" where
  "each_session act = bindp (gets (map fst \<circ> mw_map)) (\<lambda>keys. forp keys (\<lambda>key. on_sdk key (act key)))"

definition MultiImpl_sendAll ::
  "(string \<Rightarrow> ('j, 'o, 'm, 'u, 'z) client_env) \<Rightarrow> (('j, 'o, 'm, 'u) client_world, unit) proc \<Rightarrow> 'm content \<Rightarrow> 'j \<Rightarrow>
     (('j, 'o, 'm, 'u) multi_world, unit) proc" where
  "MultiImpl_sendAll K others content options =
     each_session (\<lambda>key. bindp (getc (\<lambda>c. Client_isConnected c \<and> cl_engineReady c)) (\<lambda>b.
       if b then SDK_sendMessage (K key) others content options else ret ()))"

definition MultiImpl_disconnectAll ::
  "(string \<Rightarrow> ('j, 'o, 'm, 'u, 'z) client_env) \<Rightarrow> (('j, 'o, 'm, 'u) client_world, unit) proc \<Rightarrow> (('j, 'o, 'm, 'u) multi_world, unit) proc" where
  "MultiImpl_disconnectAll K others = each_session (\<lambda>key. Client_disconnect (K key) others)"

definition MultiImpl_shutdownAll ::
  "(string \<Rightarrow> ('j, 'o, 'm, 'u, 'z) client_env) \<Rightarrow> (('j, 'o, 'm, 'u) client_world, unit) proc \<Rightarrow> (('j, 'o, 'm, 'u) multi_world, unit) proc" where
  "MultiImpl_shutdownAll K others = each_session (\<lambda>key. Impl_shutdownSession (K key) others)"

definition MultiImpl_allConnected :: "('j, 'o, 'm, 'u) multi_world \<Rightarrow> bool" where
  "MultiImpl_allConnected w \<longleftrightarrow> list_all (Client_isConnected \<circ> me_client \<circ> snd) (mw_map w)"

definition MultiImpl_allDisconnected :: "('j, 'o, 'm, 'u) multi_world \<Rightarrow> bool" where
  "MultiImpl_allDisconnected w \<longleftrightarrow> list_all (Client_isDisconnected \<circ> me_client \<circ> snd) (mw_map w)"

definition MultiImpl_allReady :: "('j, 'o, 'm, 'u) multi_world \<Rightarrow> bool" where
  "MultiImpl_allReady w \<longleftrightarrow> list_all (cl_engineReady \<circ> me_client \<circ> snd) (mw_map w)"

text \<open>
  One look at the sessions of \<open>waitForAllReady\<close>: \<open>Some True\<close> when all are ready, \<open>Some False\<close> when one that comes
  before the first that is not ready yet, or that one, has failed, \<open>None\<close> when the loop goes on.
\<close>

fun ready_look :: "('o, 'm) client list \<Rightarrow> bool option" where
  "ready_look [] = Some True"
| "ready_look (c # cs) =
     (if cl_connectionError c \<or> \<not> Client_isConnected c then Some False
      else if \<not> cl_engineReady c then None
      else ready_look cs)"

text \<open>\<open>obs k\<close> are the sessions after \<open>k\<close> seconds.\<close>

fun MultiImpl_waitForAllReady :: "nat \<Rightarrow> (nat \<Rightarrow> ('j, 'o, 'm, 'u) multi_world) \<Rightarrow> nat \<Rightarrow> bool" where
  "MultiImpl_waitForAllReady 0 obs k = MultiImpl_allReady (obs k)"
| "MultiImpl_waitForAllReady (Suc s) obs k =
     (case ready_look (map (me_client \<circ> snd) (mw_map (obs k))) of
        Some r \<Rightarrow> r | None \<Rightarrow> MultiImpl_waitForAllReady s obs (Suc k))"

fun MultiImpl_waitForAllDisconnected :: "nat \<Rightarrow> (nat \<Rightarrow> ('j, 'o, 'm, 'u) multi_world) \<Rightarrow> nat \<Rightarrow> bool" where
  "MultiImpl_waitForAllDisconnected 0 obs k = MultiImpl_allDisconnected (obs k)"
| "MultiImpl_waitForAllDisconnected (Suc s) obs k =
     (if MultiImpl_allDisconnected (obs k) then True else MultiImpl_waitForAllDisconnected s obs (Suc k))"

end
