(* ===== verification/Client_Runs.thy ===== *)
theory Client_Runs
  imports Sdk
begin

text \<open>
  What a client's operations come to: how creating a session fails, how long a program waits, and where connecting
  again or disconnecting ends the program.
\<close>

subsection \<open>Progress messages are always made\<close>

definition maps_ok :: "('j, 'z) json_obj_scheme \<Rightarrow> ('j, unit) proc \<Rightarrow> bool" where
  "maps_ok J p \<longleftrightarrow> (\<forall>j. js_isMap J j \<longrightarrow> (\<exists>j'. p j = (Inr (), j') \<and> js_isMap J j'))"

lemma maps_ok_put: "json_ok J \<Longrightarrow> maps_ok J (js_put J k v)"
  unfolding maps_ok_def js_put_def json_ok_def js_isMap_def by (metis (no_types, lifting) old.sum.simps(6))

lemma maps_ok_seq: "maps_ok J p \<Longrightarrow> maps_ok J q \<Longrightarrow> maps_ok J (seqp p q)"
  unfolding maps_ok_def by (metis seqp_Inr)

lemma maps_ok_ret: "maps_ok J (ret ())"
  by (simp add: maps_ok_def)

lemma maps_ok_put_all: "json_ok J \<Longrightarrow> maps_ok J (put_all J kvs)"
  by (induction kvs) (simp_all add: maps_ok_ret maps_ok_seq maps_ok_put)

lemma maps_ok_put_strings: "json_ok J \<Longrightarrow> maps_ok J (put_strings J kvs)"
  by (simp add: put_strings_def maps_ok_put_all)

lemma make_object_ok:
  assumes "json_ok J" and "maps_ok J p"
  shows "\<exists>j. make_object J p = Inr j \<and> js_isMap J j"
  using assms(2) js_null_isMap [OF assms(1)] by (fastforce simp: maps_ok_def make_object_def)

text \<open>An operation that does nothing but tell the progress sender something.\<close>

definition only_progress :: "(('j, 'o, 'm, 'u) client_world, unit) proc \<Rightarrow> bool" where
  "only_progress act \<longleftrightarrow> (\<forall>w. \<exists>p. act w = (Inr (), w\<lparr>cw_progress := p\<rparr>))"

lemma only_progress_seq: "only_progress a \<Longrightarrow> only_progress b \<Longrightarrow> only_progress (seqp a b)"
  unfolding only_progress_def
proof (intro allI)
  fix w :: "('a, 'b, 'c, 'd) client_world"
  assume a: "\<forall>w. \<exists>p. a w = (Inr (), w\<lparr>cw_progress := p\<rparr>)" and b: "\<forall>w. \<exists>p. b w = (Inr (), w\<lparr>cw_progress := p\<rparr>)"
  obtain p where p: "a w = (Inr (), w\<lparr>cw_progress := p\<rparr>)" using a by blast
  obtain q where q: "b (w\<lparr>cw_progress := p\<rparr>) = (Inr (), w\<lparr>cw_progress := p\<rparr>\<lparr>cw_progress := q\<rparr>)" using b by blast
  show "\<exists>p. seqp a b w = (Inr (), w\<lparr>cw_progress := p\<rparr>)" using p q by (intro exI [of _ q]) simp
qed

lemma progress_object_ok:
  assumes "\<And>i. \<exists>j. make_object (kv_json K) (p i) = Inr j"
  shows "only_progress (progress_object K p)"
  unfolding only_progress_def
proof
  fix w :: "('a, 'b, 'c, 'd) client_world"
  obtain j where "make_object (kv_json K) (p (cl_progressId (cw_client w))) = Inr j" using assms by blast
  then show "\<exists>p'. progress_object K p w = (Inr (), w\<lparr>cw_progress := p'\<rparr>)"
    by (auto simp: progress_object_def getc_def bindp_def)
qed

lemma Client_progress_ok: "json_ok (kv_json K) \<Longrightarrow> only_progress (Client_progress K stage status t)"
  unfolding Client_progress_def
  by (rule progress_object_ok) (use make_object_ok [OF _ maps_ok_put_strings] in blast)

lemma Client_progressInfo_ok:
  assumes J: "json_ok (kv_json K)"
  shows "only_progress (Client_progressInfo K category (js_ofString (kv_json K) s))"
  unfolding Client_progressInfo_def Let_def
proof (rule progress_object_ok)
  fix i
  let ?J = "kv_json K"
  let ?s = "\<lambda>s. js_ofString ?J s"
  have put: "js_isMap ?J j \<Longrightarrow> \<exists>j'. js_set ?J k v j = Inr j' \<and> js_isMap ?J j' \<and> js_get ?J j' k = Inr v \<and>
      (\<forall>k'. k' \<noteq> k \<longrightarrow> js_get ?J j' k' = js_get ?J j k')" for j k v
    using J unfolding json_ok_def js_isMap_def by metis
  obtain j1 where j1: "js_set ?J ''id'' (?s i) (js_null ?J) = Inr j1" "js_isMap ?J j1" "js_get ?J j1 ''addinfo'' = Inr (js_null ?J)"
    using put [OF js_null_isMap [OF J], of "''id''" "?s i"] js_get_null [OF J] by auto
  obtain a1 where a1: "js_set ?J ''category'' (?s category) (js_null ?J) = Inr a1" "js_isMap ?J a1"
    using put [OF js_null_isMap [OF J]] by blast
  obtain j2 where j2: "js_set ?J ''addinfo'' a1 j1 = Inr j2" "js_isMap ?J j2" "js_get ?J j2 ''addinfo'' = Inr a1"
    using put [OF j1(2)] by blast
  obtain a2 where a2: "js_set ?J ''text'' (?s s) a1 = Inr a2" using put [OF a1(2)] by blast
  obtain j3 where j3: "js_set ?J ''addinfo'' a2 j2 = Inr j3" using put [OF j2(2)] by blast
  have s: "js_isString ?J (?s s)" "js_asString ?J (?s s) = Inr s" using J by (auto simp: json_ok_def)
  show "\<exists>j. make_object ?J (seqp (put_strings ?J [(''id'', i)]) (seqp (js_at ?J ''addinfo'' (js_put ?J ''category'' (?s category)))
      (js_at ?J ''addinfo'' (if js_isString ?J (?s s) then bindp (liftr (js_asString ?J (?s s))) (\<lambda>s. js_put ?J ''text'' (?s s))
         else js_put ?J ''value'' (?s s))))) = Inr j"
    using j1 a1 j2 a2 j3 s
    by (simp add: make_object_def put_strings_def seqp_def bindp_def js_put_def js_at_def liftr_def)
qed

lemma progress_failed_ok: "json_ok (kv_json K) \<Longrightarrow> only_progress (progress_failed K stage why)"
  by (simp add: progress_failed_def only_progress_seq Client_progress_ok Client_progressInfo_ok)

lemma only_progressE:
  assumes "only_progress act"
  obtains p where "act w = (Inr (), w\<lparr>cw_progress := p\<rparr>)"
  using assms by (auto simp: only_progress_def)

subsection \<open>Requests\<close>

lemma maps_ok_forp: "(\<And>x. maps_ok J (f x)) \<Longrightarrow> maps_ok J (forp xs f)"
  by (induction xs) (simp_all add: maps_ok_ret maps_ok_seq)

lemma maps_ok_request: "json_ok J \<Longrightarrow> maps_ok J (create_request J info pid username def opts)"
  unfolding create_request_def
  by (intro maps_ok_seq maps_ok_put_strings maps_ok_put maps_ok_forp) (simp_all add: maps_ok_put Client_addHTTPBodyAttr_def split: prod.split)

lemma cli_run [simp]: "cli f w = (Inr (), w\<lparr>cw_client := f (cw_client w)\<rparr>)"
  by (simp add: cli_def)

lemma getc_run [simp]: "getc f w = (Inr (f (cw_client w)), w)"
  by (simp add: getc_def)

lemma setState_run [simp]: "Client_setState s w = (Inr (), w\<lparr>cw_client := (cw_client w)\<lparr>cl_state := s\<rparr>\<rparr>)"
  by (simp add: Client_setState_def)

lemma disconnect_no_peer:
  assumes "cl_conn (cw_client w) = No_peer"
  shows "Client_disconnect K others w = (Inr (), w\<lparr>cw_client := (cw_client w)\<lparr>cl_state := STATE_DISCONNECTED\<rparr>\<rparr>)"
  using assms by (simp add: Client_disconnect_def Client_shutdownConnection_def bindp_def seqp_def)

lemma overrides_client [simp]:
  "cw_client (applyLoggingOverrides getenv w) = cw_client w" "cw_progress (applyLoggingOverrides getenv w) = cw_progress w"
  by (simp_all add: applyLoggingOverrides_def Let_def split: option.split)

text \<open>What becomes of an answer that is not the session.\<close>

definition refusal :: "int \<Rightarrow> string \<Rightarrow> client_error \<times> string" where
  "refusal code message =
     (if code = HTTP_SERVICE_UNAVAILABLE
      then (NO_AVAILABLE_RESOURCES_ERROR, ''Insufficient resources available to fill this request'' @ (if message \<noteq> [] then '': '' @ message else []))
      else (GENERAL_ERROR, ''Server responded with error code '' @ show_int code @ (if message \<noteq> [] then '', message: '' @ message else [])))"

lemma request_refused:
  assumes J: "json_ok (kv_json K)" and s: "kv_submit K POST url (js_print (kv_json K) req) = Inr (code, text)" "code \<noteq> HTTP_OK"
    and r: "create_response (kv_json K) text = Inr (message, response, emptyResponse)"
  shows "\<exists>p. Client_requestSession K others def url req w =
    (Inl (ClientException (fst (refusal code message)) (snd (refusal code message))), w\<lparr>cw_progress := p\<rparr>)"
proof -
  let ?stage = "if code = HTTP_SERVICE_UNAVAILABLE then ''No resources'' else ''Request failed''"
  obtain p where p: "progress_failed K ?stage (snd (refusal code message)) w = (Inr (), w\<lparr>cw_progress := p\<rparr>)"
    using only_progressE [OF progress_failed_ok [OF J]] .
  show ?thesis
    using s r p by (intro exI [of _ p]) (auto simp: Client_requestSession_def Let_def bindp_def refusal_def seqp_def split: if_splits)
qed

lemma createDistributed_refused:
  assumes J: "json_ok (kv_json K)" and u: "kv_getenv K ''LOGNAME'' = Some logname"
    and s: "\<And>body. kv_submit K POST url body = Inr (code, text)" "code \<noteq> HTTP_OK"
    and r: "create_response (kv_json K) text = Inr (message, response, emptyResponse)"
  shows "\<exists>p. Client_createDistributed K others def url opts w =
    (Inl (ClientException GENERAL_ERROR (''Failed to connect to Coordinator: '' @ snd (refusal code message))),
     w\<lparr>cw_client := (cw_client w)\<lparr>cl_state := STATE_CONNECTING\<rparr>, cw_progress := p\<rparr>)"
proof -
  let ?J = "kv_json K"
  let ?w1 = "w\<lparr>cw_client := (cw_client w)\<lparr>cl_state := STATE_CONNECTING\<rparr>\<rparr>"
  obtain req where req: "create_request ?J (kv_platform K) (kv_pid K) logname def opts (js_null ?J) = (Inr (), req)"
    using maps_ok_request [OF J] js_null_isMap [OF J] unfolding maps_ok_def by blast
  have 1: "Client_makeCreateRequest K logname def opts (js_null ?J) w = (Inr req, ?w1)"
    using req by (simp add: Client_makeCreateRequest_def)
  obtain p where 2: "Client_requestSession K others def url req ?w1 =
      (Inl (ClientException (fst (refusal code message)) (snd (refusal code message))), ?w1\<lparr>cw_progress := p\<rparr>)"
    using request_refused [where K = K and w = ?w1, OF J s(1) s(2) r] by blast
  let ?err = "''Failed to connect to Coordinator: '' @ snd (refusal code message)"
  have "only_progress (progress_failed K ''Request failed'' ?err)" by (rule progress_failed_ok [OF J])
  then obtain q where 3: "progress_failed K ''Request failed'' ?err (?w1\<lparr>cw_progress := p\<rparr>) = (Inr (), ?w1\<lparr>cw_progress := p\<rparr>\<lparr>cw_progress := q\<rparr>)"
    by (rule only_progressE)
  show ?thesis
    using u 1 2 3
    by (intro exI [of _ q]) (simp add: Client_createDistributed_def seqp_def bindp_def catchp_def is_std_exception_def Let_def)
qed

lemma createSession_distributed:
  assumes J: "json_ok (kv_json K)" and d: "SessionDefinition_checkNamedContexts (kv_json K) def = Inr True"
    and c: "cl_conn (cw_client w) = No_peer"
    and l: "forced_local (kv_json K) (kv_getenv K) def = Inr False" "url \<noteq> LOCAL_SESSION_URL"
  shows "\<exists>w1. Client_createSession K others def url opts w = Client_createDistributed K others def url opts w1 \<and>
    (\<exists>i. cw_client w1 = (cw_client w)\<lparr>cl_state := STATE_DISCONNECTED, cl_arrasUrl := url, cl_progressId := i\<rparr>)"
proof -
  let ?J = "kv_json K"
  define w0 where "w0 = (applyLoggingOverrides (kv_getenv K) w)\<lparr>cw_client := (cw_client w)\<lparr>cl_state := STATE_DISCONNECTED, cl_arrasUrl := url\<rparr>\<rparr>"
  let ?id = "if so_id opts = []
      then bindp (gets (fst \<circ> kv_fresh K \<circ> cw_fresh)) (\<lambda>i. seqp (upd (\<lambda>w. w\<lparr>cw_fresh := Suc (cw_fresh w)\<rparr>))
        (cli (\<lambda>c. c\<lparr>cl_progressId := ''progress@'' @ UUID_toString (kv_uuid K) i\<rparr>)))
      else cli (\<lambda>c. c\<lparr>cl_progressId := so_id opts\<rparr>)"
  obtain w2 i where w2: "?id w0 = (Inr (), w2)" "cw_client w2 = (cw_client w0)\<lparr>cl_progressId := i\<rparr>"
    by (cases "so_id opts = []") (simp_all add: bindp_def seqp_def)
  let ?msg = "progress_object K (\<lambda>i. put_strings ?J [(''id'', i), (''title'', SessionOptions_getTitle opts), (''start'', kv_date K),
     (''type'', ''Pool''), (''stage'', ''Requesting resources''), (''status'', ''pending''), (''progress'', [])])"
  have "only_progress ?msg"
    by (rule progress_object_ok) (use make_object_ok [OF J maps_ok_put_strings [OF J]] in blast)
  then obtain p where p: "?msg w2 = (Inr (), w2\<lparr>cw_progress := p\<rparr>)" by (rule only_progressE)
  have dis: "Client_disconnect K others (applyLoggingOverrides (kv_getenv K) w) =
      (Inr (), (applyLoggingOverrides (kv_getenv K) w)\<lparr>cw_client := (cw_client w)\<lparr>cl_state := STATE_DISCONNECTED\<rparr>\<rparr>)"
    using disconnect_no_peer [of "applyLoggingOverrides (kv_getenv K) w"] c by simp
  have "Client_createSession K others def url opts w = Client_createDistributed K others def url opts (w2\<lparr>cw_progress := p\<rparr>)"
    using d l dis w2(1) p
    unfolding Client_createSession_def Let_def
    by (simp add: seqp_def bindp_def w0_def [symmetric])
  then show ?thesis using w2(2) by (intro exI [of _ "w2\<lparr>cw_progress := p\<rparr>"]) (auto simp: w0_def)
qed

subsection \<open>Waiting\<close>

lemma wait_loop_spec:
  "\<exists>j \<le> s. wait_loop going k s = k + j \<and> (\<forall>i < j. going (k + i)) \<and> (j = s \<or> \<not> going (k + j))"
proof (induction s arbitrary: k)
  case (Suc s)
  show ?case
  proof (cases "going k")
    case True
    obtain j where j: "j \<le> s" "wait_loop going (Suc k) s = Suc k + j" "\<forall>i < j. going (Suc k + i)" "j = s \<or> \<not> going (Suc k + j)"
      using Suc.IH by blast
    have "\<forall>i < Suc j. going (k + i)" using True j(3) by (simp add: All_less_Suc2)
    then show ?thesis using True j by (intro exI [of _ "Suc j"]) auto
  qed auto
qed simp

lemma wait_loop_start:
  obtains j where "j \<le> s" "wait_loop going 0 s = j" "\<forall>i < j. going i" "j = s \<or> \<not> going j"
proof -
  obtain j where "j \<le> s" "wait_loop going 0 s = 0 + j" "\<forall>i < j. going (0 + i)" "j = s \<or> \<not> going (0 + j)"
    using wait_loop_spec by blast
  then show ?thesis using that by simp
qed


lemma constant_wait: "Client_waitForDisconnect getenv s (\<lambda>_. c) = Client_isDisconnected c"
  by (simp add: Client_waitForDisconnect_def Let_def)

subsection \<open>A session that is refused\<close>

text \<open>
  C20 (error). When the coordinator has no resources, or answers with any other code but success, a client that was
  not connected is left connecting: waiting for it to be disconnected waits the whole time and fails. Whatever the
  answer, the program is told of an error of the connection, and never, as the interface says, that there are no
  resources: that exception is caught by the function that throws it.
\<close>

theorem refused_session_keeps_connecting:
  assumes "json_ok (kv_json K)" and "SessionDefinition_checkNamedContexts (kv_json K) def = Inr True"
    and "cl_conn (cw_client w) = No_peer" and "kv_getenv K ''LOGNAME'' = Some logname"
    and "forced_local (kv_json K) (kv_getenv K) def = Inr False" and "url \<noteq> LOCAL_SESSION_URL"
    and "\<And>body. kv_submit K POST url body = Inr (code, text)" and "code \<noteq> HTTP_OK"
    and "create_response (kv_json K) text = Inr (message, response, emptyResponse)"
  shows "\<exists>w'. Impl_createSession K others def url opts w =
      (Inl (ClientException CONNECTION_ERROR (''Failed to connect to Coordinator: '' @ snd (refusal code message))), w') \<and>
    cl_state (cw_client w') = STATE_CONNECTING \<and> cl_conn (cw_client w') = No_peer \<and>
    \<not> Client_waitForDisconnect getenv s (\<lambda>_. cw_client w')"
proof -
  obtain w1 i where w1: "Client_createSession K others def url opts w = Client_createDistributed K others def url opts w1"
      "cw_client w1 = (cw_client w)\<lparr>cl_state := STATE_DISCONNECTED, cl_arrasUrl := url, cl_progressId := i\<rparr>"
    using createSession_distributed [OF assms(1,2,3,5,6)] by blast
  obtain p where "Client_createDistributed K others def url opts w1 =
      (Inl (ClientException GENERAL_ERROR (''Failed to connect to Coordinator: '' @ snd (refusal code message))),
       w1\<lparr>cw_client := (cw_client w1)\<lparr>cl_state := STATE_CONNECTING\<rparr>, cw_progress := p\<rparr>)"
    using createDistributed_refused [OF assms(1,4,7,8,9)] by blast
  then show ?thesis
    using w1 assms(3) by (simp add: Impl_createSession_def rethrow_def is_std_exception_def constant_wait Client_isDisconnected_def)
qed

subsection \<open>Connecting again\<close>

lemma connect_members_keeps: "keeps (\<lambda>w. (cl_thread (cw_client w), cl_sendThread (cw_client w), cl_conn (cw_client w),
    cl_state (cw_client w), cw_sessions w)) (connect_members K r)"
  unfolding connect_members_def need_string_def cli_def
  by (intro keeping) simp_all

lemma keeps_catchp [keeping]: "keeps g p \<Longrightarrow> (\<And>e. keeps g (h e)) \<Longrightarrow> keeps g (catchp p h)"
  by (auto simp: keeps_def catchp_def split: prod.split sum.split) (metis snd_conv)+

lemma keeps_registerDisconnect: "keeps cw_client (Client_registerDisconnect K b m)"
  unfolding Client_registerDisconnect_def Let_def
  by (intro keeping) simp_all

lemma start_thread_run:
  "start_thread running start w =
     (if running (cw_client w) then (Inl std_terminate, w) else (Inr (), w\<lparr>cw_client := start (cw_client w)\<rparr>))"
  by (simp add: start_thread_def bindp_def)

lemma postConnect_joinable:
  assumes "cl_conn (cw_client w) = Bare_peer p" and "cl_thread (cw_client w) \<noteq> R_none"
  shows "\<exists>w'. Client_postConnect K others w = (Inl std_terminate, w')"
  using assms
  by (cases "cl_sendAsync (cw_client w)"; cases "cl_sendThread (cw_client w) = S_none")
     (simp_all add: Client_postConnect_def start_thread_run bindp_def seqp_def)

lemma registered_end:
  assumes c: "cl_state (cw_client w) = STATE_DISCONNECTING" "\<not> cl_isLocal (cw_client w)"
    and r: "Client_received_exception K (PeerDisconnectException why) w = (Inr (), w1)"
  shows "cl_state (cw_client w1) = STATE_DISCONNECTED \<and> cl_thread (cw_client w1) = R_end"
proof -
  obtain x w' where x: "Client_registerDisconnect K True why w = (x, w')" by fastforce
  have "cw_client w' = cw_client w" by (rule keepsD [OF keeps_registerDisconnect x])
  then show ?thesis
    using c r x
    by (cases x) (auto simp: Client_received_exception_def peer_error_def rethrow_def bindp_def seqp_def goto_receive_def)
qed

text \<open>
  C19 (safety). When the server ends a session that was shut down, the client counts as disconnected, but the
  thread that received its messages is not joined. Connecting that client again, as creating the sessions of a
  \<open>MultiSession\<close> again does, ends the program as soon as the connection is made.
\<close>

theorem connecting_again_ends_program:
  assumes J: "json_ok (kv_json K)"
    and ended: "Client_received_exception K (PeerDisconnectException why) w = (Inr (), w1)" "cl_state (cw_client w) = STATE_DISCONNECTING"
      "\<not> cl_isLocal (cw_client w)"
    and answer: "connect_members K response (w1\<lparr>cw_client := (cw_client w1)\<lparr>cl_state := STATE_CONNECTING\<rparr>\<rparr>) = (Inr [], w2)"
    and connects: "seqp (InetSocketPeer_connect (kv_os K) (cl_hostIp (cw_client w2)) (cl_port (cw_client w2)))
        (in_zoom (Peer_send_or_throw (kv_os K) (Some (registration_bytes (kv_padding K)
           (client_registration (session_uuid K (cw_client w2))))) REGISTRATION_SIZE ''Client::connectTCP''))
        (InetSocketPeer_new (cw_net w2)) = (Inr (), q)"
  shows "Client_isDisconnected (cw_client w1) \<and> (\<exists>w'. Client_connectSession K others response w1 = (Inl std_terminate, w'))"
proof -
  have t: "Client_isDisconnected (cw_client w1) \<and> cl_thread (cw_client w1) = R_end"
    using registered_end [OF ended(2,3,1)] by (simp add: Client_isDisconnected_def)
  have s: "cl_thread (cw_client w2) = R_end" "cl_state (cw_client w2) = STATE_CONNECTING"
    using keepsD [OF connect_members_keeps answer] t by auto
  obtain p where p: "progress_pending K ''Connecting'' w2 = (Inr (), w2\<lparr>cw_progress := p\<rparr>)"
    using only_progressE [OF Client_progress_ok [OF J]] .
  let ?w3 = "w2\<lparr>cw_progress := p\<rparr>"
  let ?w4 = "(dropped_peer (kv_os K) (set_net (sp_os (in_peer q)) ?w3))\<lparr>cw_client := (cw_client w2)\<lparr>cl_conn := Bare_peer (in_peer q)\<rparr>\<rparr>"
  obtain w' where w': "Client_postConnect K others ?w4 = (Inl std_terminate, w')"
    using postConnect_joinable [of ?w4] s(1) by fastforce
  have "Client_connectTCP K others ?w3 = (Inl std_terminate, w')"
    using connects s(2) w' by (simp add: Client_connectTCP_def Let_def cw_net_def)
  then show ?thesis
    using t answer p by (auto simp: Client_connectSession_def bindp_def seqp_def catchp_def is_std_exception_def std_terminate_def)
qed

subsection \<open>Disconnecting\<close>

lemma closing_unlinks:
  assumes "cl_conn (cw_client w) = Linked l" and "\<And>p. fst (SocketPeer_shutdown (kv_os K) p) = Inr ()"
  shows "\<exists>w'. Client_closing K w = (Inr (), w') \<and> \<not> is_linked (cw_client w') \<and>
    cl_thread (cw_client w') = cl_thread (cw_client w) \<and> cl_conn (cw_client w') \<noteq> No_peer"
proof -
  have p: "SocketPeer_shutdown (kv_os K) q = (Inr (), snd (SocketPeer_shutdown (kv_os K) q))" for q
    using assms(2) by (metis prod.collapse)
  show ?thesis
    using assms(1)
    by (simp add: Client_closing_def is_linked_def unlink_def on_link_def on_client_peer_def zoom_def bindp_def seqp_def set_net_def split_def
        p [of "_\<lparr>sp_os := _\<rparr>"] assms(2))
qed


subsection \<open>Examples\<close>

definition greedy_sock_os :: "(byte list \<times> nat) sock_os" where
  "greedy_sock_os = sample_sock_os\<lparr>os_send := \<lambda>_ d (w, t). (Inr (length d), (w @ d, t))\<rparr>"

definition sample_client_env :: "(json, byte list \<times> nat, core_message, unit, unit) client_env" where
  "sample_client_env =
     \<lparr>kv_os = greedy_sock_os, kv_json = json_obj_impl, kv_uuid = hex_uuid_api, kv_submit = (\<lambda>_ _ _. Inr (HTTP_SERVICE_UNAVAILABLE, None)),
      kv_local = sample_local_env\<lparr>le_getenv := [''LOGNAME'' \<mapsto> ''me'']\<rparr>,
      kv_platform = \<lparr>pi_nodeName = ''host'', pi_osName = ''Linux'', pi_osVersion = ''5'', pi_osDistribution = ''CentOS'', pi_briefVersion = ''7'',
        pi_briefDistribution = ''CentOS-7''\<rparr>,
      kv_pid = 7, kv_padding = 0,
      kv_endpoint = \<lparr>ep_getEnvelope = raise (ShutdownException ''''), ep_putEnvelope = (\<lambda>_. ret ()), ep_shutdown = id\<rparr>,
      kv_class = core_class zeroed_alloc, kv_control = (\<lambda>c. ControlMessage c [] []), kv_status = PingMessage,
      kv_fresh = (\<lambda>n. (word_of_nat n, word_of_nat n, \<lparr>at_seconds = 0, at_microseconds = 0\<rparr>)), kv_date = ''today'',
      kv_component = (\<lambda>_ _. ret ()), kv_callback = (\<lambda>_ _. ret ()), kv_pipes_ok = True, kv_cg_ok = True, kv_fork = None,
      kv_save = Written, kv_log = Written\<rparr>"

definition sample_client_world :: "(json, byte list \<times> nat, core_message, unit) client_world" where
  "sample_client_world =
     \<lparr>cw_client = Client_new ''agent'' False,
      cw_sessions = \<lparr>ss_sessions = [], ss_files = Map.empty, ss_manager = ProcessManager_new 100 True True True True True,
        ss_net = ([], 0), ss_reports = []\<rparr>,
      cw_progress = ProgressSender_new, cw_user = (), cw_fresh = 0, cw_events = [], cw_threshold = 0, cw_trace = 0\<rparr>"

definition sample_options :: "json session_options" where
  "sample_options = \<lparr>so_production = [], so_sequence = [], so_shot = [], so_assetGroup = [], so_asset = [], so_department = [],
     so_team = [], so_id = ''s1'', so_metadata = JNull\<rparr>"

theorem refused_session_keeps_connecting_witness:
  "\<exists>w'. Impl_createSession sample_client_env (ret ()) (JObject []) ''http://c:8087/'' sample_options sample_client_world =
      (Inl (ClientException CONNECTION_ERROR
         ''Failed to connect to Coordinator: Insufficient resources available to fill this request''), w') \<and>
    cl_state (cw_client w') = STATE_CONNECTING \<and> cl_conn (cw_client w') = No_peer \<and>
    \<not> Client_waitForDisconnect (\<lambda>_. None) 5 (\<lambda>_. cw_client w')"
proof -
  have J: "json_ok (kv_json sample_client_env)" using obj_ok_json [OF json_obj_impl_ok] by (simp add: sample_client_env_def)
  have d: "SessionDefinition_checkNamedContexts (kv_json sample_client_env) (JObject []) = Inr True"
      "forced_local (kv_json sample_client_env) (kv_getenv sample_client_env) (JObject []) = Inr False"
    by (simp_all add: sample_client_env_def SessionDefinition_checkNamedContexts_def forced_local_def json_obj_impl_def json_impl_def json_api.extend_def)
  have w: "cl_conn (cw_client sample_client_world) = No_peer" "kv_getenv sample_client_env ''LOGNAME'' = Some ''me''"
    by (simp_all add: sample_client_world_def Client_new_def sample_client_env_def)
  have s: "kv_submit sample_client_env POST u b = Inr (HTTP_SERVICE_UNAVAILABLE, None)" for u b
    by (simp add: sample_client_env_def)
  have r: "create_response (kv_json sample_client_env) None = Inr ([], js_null (kv_json sample_client_env), True)"
    by (simp add: create_response_def)
  from refused_session_keeps_connecting [OF J d(1) w d(2) _ s _ r, of "''http://c:8087/''" "ret ()" sample_options "\<lambda>_. None" 5]
  show ?thesis
    by (simp add: LOCAL_SESSION_URL_def HTTP_OK_def HTTP_SERVICE_UNAVAILABLE_def refusal_def)
qed

text \<open>A client that was told to shut its session down.\<close>

definition sample_ending_client :: "(json, byte list \<times> nat, core_message, unit) client_world" where
  "sample_ending_client = sample_client_world\<lparr>cw_client := (Client_new ''agent'' False)
     \<lparr>cl_state := STATE_DISCONNECTING, cl_thread := R_get, cl_run := True\<rparr>\<rparr>"

lemma retry_answered: "g s = (r, s1) \<Longrightarrow> r \<noteq> Inl EINTR \<Longrightarrow> retry g s = Some (r, s1)"
  by (simp add: retry.simps [of g s])

lemma greedy_calls:
  "os_socket greedy_sock_os b = Pair (Inr 5)" "os_close greedy_sock_os fd = Pair (Inr ())"
  "os_getaddrinfo greedy_sock_os host = Pair (Inr 1)" "os_setsockopt greedy_sock_os fd opt = Pair (Inr ())"
  "os_connect greedy_sock_os fd a = Pair (Inr ())" "os_getsockname greedy_sock_os fd = Pair (Inr 4000)"
  by (simp_all add: greedy_sock_os_def sample_sock_os_def)

lemma greedy_send_loop:
  assumes "d \<noteq> []"
  shows "\<exists>p'. send_loop greedy_sock_os 0 d p = (Inr (True, 0), p')"
proof -
  obtain u t where s: "sp_os p = (u, t)" by fastforce
  then have "retry (os_send greedy_sock_os (sp_socket p) d) (sp_os p) = Some (Inr (length d), (u @ d, t))"
    by (intro retry_answered) (simp_all add: greedy_sock_os_def)
  then show ?thesis
    using assms by (simp add: send_loop.simps [of greedy_sock_os 0 d p] send_loop.simps [of _ _ "[]"] send_ignore_interrupts_def sys_retry_def bindp_def)
qed

lemma greedy_connect:
  assumes "host \<noteq> []" and "port \<noteq> 0"
  shows "\<exists>q. seqp (InetSocketPeer_connect greedy_sock_os host port)
    (in_zoom (Peer_send_or_throw greedy_sock_os (Some (registration_bytes pad r)) REGISTRATION_SIZE msg)) (InetSocketPeer_new s) = (Inr (), q)"
proof -
  obtain q where q: "InetSocketPeer_connect greedy_sock_os host port (InetSocketPeer_new s) = (Inr (), q)"
      "\<not> sp_isListening (in_peer q)" "sp_encryption (in_peer q) = None"
    using assms
    by (simp add: InetSocketPeer_connect_def InetSocketPeer_new_def no_socket_def in_zoom_def zoom_def socket_create_def sys_call_def bindp_def
        seqp_def lookup_loop.simps [of greedy_sock_os host 0] SocketPeer_enableKeepAlive_def socket_call_def setup_call_def
        greedy_calls)
  have "registration_bytes pad r \<noteq> []" using length_registration_bytes [of pad r] by (auto simp: REGISTRATION_SIZE_def)
  then obtain p' where p': "send_loop greedy_sock_os 0 (registration_bytes pad r) (in_peer q) = (Inr (True, 0), p')"
    using greedy_send_loop by blast
  have n: "take REGISTRATION_SIZE (registration_bytes pad r) = registration_bytes pad r" "REGISTRATION_SIZE \<noteq> 0"
    using length_registration_bytes [of pad r] by (simp_all add: REGISTRATION_SIZE_def)
  show ?thesis
    using q p' n by (simp add: seqp_def bindp_def in_zoom_def zoom_def Peer_send_or_throw_def SocketPeer_send_def)
qed

theorem connecting_again_ends_program_witness:
  "\<exists>w1. Client_received_exception sample_client_env (PeerDisconnectException ''gone'') sample_ending_client = (Inr (), w1) \<and>
     Client_isDisconnected (cw_client w1) \<and>
     (\<exists>w'. Client_connectSession sample_client_env (ret ())
        (JObject [(''hostname'', JString ''n1''), (''ip'', JString ''10.0.0.1''), (''port'', JInt 8087), (''sessionId'', JString ''s'')]) w1 =
        (Inl std_terminate, w'))"
proof -
  let ?resp = "JObject [(''hostname'', JString ''n1''), (''ip'', JString ''10.0.0.1''), (''port'', JInt 8087), (''sessionId'', JString ''s'')]"
  have J: "json_ok (kv_json sample_client_env)" using obj_ok_json [OF json_obj_impl_ok] by (simp add: sample_client_env_def)
  obtain w1 where w1: "Client_received_exception sample_client_env (PeerDisconnectException ''gone'') sample_ending_client = (Inr (), w1)"
    by (simp add: Client_received_exception_def peer_error_def sample_ending_client_def sample_client_world_def Client_new_def rethrow_def
        Client_registerDisconnect_def put_strings_def make_object_def catchp_def goto_receive_def sample_client_env_def
        json_obj_impl_def json_impl_def json_api.extend_def js_put_def bindp_def seqp_def Let_def)
  have e: "cl_state (cw_client sample_ending_client) = STATE_DISCONNECTING" "\<not> cl_isLocal (cw_client sample_ending_client)"
    by (simp_all add: sample_ending_client_def Client_new_def)
  let ?w = "w1\<lparr>cw_client := (cw_client w1)\<lparr>cl_state := STATE_CONNECTING\<rparr>\<rparr>"
  obtain w2 where w2: "connect_members sample_client_env ?resp ?w = (Inr [], w2)" "cl_hostIp (cw_client w2) = ''10.0.0.1''"
      "cl_port (cw_client w2) = 8087"
    by (simp add: connect_members_def need_string_def sample_client_env_def js_isString_def json_obj_impl_def json_impl_def json_api.extend_def bindp_def seqp_def)
  have os: "kv_os sample_client_env = greedy_sock_os" by (simp add: sample_client_env_def)
  have "\<exists>q. seqp (InetSocketPeer_connect (kv_os sample_client_env) (cl_hostIp (cw_client w2)) (cl_port (cw_client w2)))
        (in_zoom (Peer_send_or_throw (kv_os sample_client_env) (Some (registration_bytes (kv_padding sample_client_env)
           (client_registration (session_uuid sample_client_env (cw_client w2))))) REGISTRATION_SIZE ''Client::connectTCP''))
        (InetSocketPeer_new (cw_net w2)) = (Inr (), q)"
    unfolding os by (rule greedy_connect) (simp_all add: w2)
  then obtain q where q: "seqp (InetSocketPeer_connect (kv_os sample_client_env) (cl_hostIp (cw_client w2)) (cl_port (cw_client w2)))
        (in_zoom (Peer_send_or_throw (kv_os sample_client_env) (Some (registration_bytes (kv_padding sample_client_env)
           (client_registration (session_uuid sample_client_env (cw_client w2))))) REGISTRATION_SIZE ''Client::connectTCP''))
        (InetSocketPeer_new (cw_net w2)) = (Inr (), q)" by blast
  show ?thesis
    using w1 connecting_again_ends_program [where others = "ret ()", OF J w1 e w2(1) q] by blast
qed


text \<open>A client that becomes ready after two seconds, and is connected until then.\<close>

definition sample_progressing :: "nat \<Rightarrow> (byte list \<times> nat, core_message) client" where
  "sample_progressing k = (Client_new ''agent'' False)\<lparr>cl_state := STATE_CONNECTED, cl_engineReady := 2 \<le> k\<rparr>"


end
