(* ===== verification/Object_Text.thy ===== *)
theory Object_Text
  imports Limits
begin

text \<open>
  \<^verbatim>\<open>message_api/Object.cc\<close>: the text of an object, with no spaces, as it is used for single values. The strings
  inside are always in quotes, one that is the whole value only when that is asked for.

  \<open>jvalue\<close> is what the visitor of a value sees: its type with the value it converts to. The text of a real number is
  that of the stream it is written to, the argument \<open>sr\<close>. A reader for these texts is defined here, and reads back
  what is printed.
\<close>

datatype 'r jvalue = V_null | V_int int | V_uint nat | V_real 'r | V_string string | V_bool bool
  | V_array "'r jvalue list" | V_object "(string \<times> 'r jvalue) list"

subsection \<open>Strings\<close>

definition containsControlCharacter :: "string \<Rightarrow> bool" where
  "containsControlCharacter s \<longleftrightarrow> list_ex (\<lambda>c. 0 < (of_char c :: nat) \<and> (of_char c :: nat) \<le> 31) s"

definition upper_hex :: "nat \<Rightarrow> char" where
  "upper_hex n = char_of (if n < 10 then 48 + n else 55 + n)"

definition escape_char :: "char \<Rightarrow> string" where
  "escape_char c =
     (let n = (of_char c :: nat) in
      if n = 34 then [CHR 0x5C, CHR 0x22]
      else if n = 92 then [CHR 0x5C, CHR 0x5C]
      else if n = 8 then [CHR 0x5C, CHR ''b'']
      else if n = 12 then [CHR 0x5C, CHR ''f'']
      else if n = 10 then [CHR 0x5C, CHR ''n'']
      else if n = 13 then [CHR 0x5C, CHR ''r'']
      else if n = 9 then [CHR 0x5C, CHR ''t'']
      else if 0 < n \<and> n \<le> 31 then [CHR 0x5C, CHR ''u'', CHR ''0'', CHR ''0'', upper_hex (n div 16), upper_hex (n mod 16)]
      else [c])"

text \<open>A C string ends at its first null character. One without special characters is copied as it is.\<close>

definition c_string :: "string \<Rightarrow> string" where
  "c_string s = takeWhile (\<lambda>c. c \<noteq> CHR 0x00) s"

definition appendQuotedString :: "string \<Rightarrow> string" where
  "appendQuotedString s =
     (let v = c_string s in
      if list_all (\<lambda>c. (of_char c :: nat) \<notin> {34, 92, 8, 12, 10, 13, 9}) v \<and> \<not> containsControlCharacter v
      then CHR 0x22 # v @ [CHR 0x22]
      else CHR 0x22 # concat (map escape_char v) @ [CHR 0x22])"

lemma plain_string_escapes:
  assumes "list_all (\<lambda>c. (of_char c :: nat) \<notin> {34, 92, 8, 12, 10, 13, 9}) v" and "\<not> containsControlCharacter v"
  shows "concat (map escape_char v) = v"
  using assms by (induction v) (auto simp: escape_char_def containsControlCharacter_def Let_def)

lemma appendQuotedString_eq: "appendQuotedString s = CHR 0x22 # concat (map escape_char (c_string s)) @ [CHR 0x22]"
  using plain_string_escapes [of "c_string s"] by (simp add: appendQuotedString_def Let_def)

subsection \<open>Values\<close>

fun join_with :: "string \<Rightarrow> string list \<Rightarrow> string" where
  "join_with sep [] = []"
| "join_with sep [s] = s"
| "join_with sep (s # t # ts) = s @ sep @ join_with sep (t # ts)"

fun appendValue :: "('r \<Rightarrow> string) \<Rightarrow> bool \<Rightarrow> 'r jvalue \<Rightarrow> string" where
  "appendValue sr quoteStrings V_null = ''null''"
| "appendValue sr quoteStrings (V_int i) = show_int i"
| "appendValue sr quoteStrings (V_uint n) = show_nat n"
| "appendValue sr quoteStrings (V_real r) = sr r"
| "appendValue sr quoteStrings (V_string s) = (if quoteStrings then appendQuotedString s else s)"
| "appendValue sr quoteStrings (V_bool b) = (if b then ''true'' else ''false'')"
| "appendValue sr quoteStrings (V_array vs) = ''['' @ join_with '','' (map (appendValue sr True) vs) @ '']''"
| "appendValue sr quoteStrings (V_object ms) =
     ''{'' @ join_with '','' (map (\<lambda>(k, v). appendQuotedString k @ '':'' @ appendValue sr True v) ms) @ ''}''"

definition valueToString :: "('r \<Rightarrow> string) \<Rightarrow> 'r jvalue \<Rightarrow> bool \<Rightarrow> string" where
  "valueToString sr v quoteStrings = appendValue sr quoteStrings v"

subsection \<open>A reader\<close>

definition hex_of :: "char \<Rightarrow> nat option" where
  "hex_of c = (let n = (of_char c :: nat) in
     if 48 \<le> n \<and> n \<le> 57 then Some (n - 48) else if 65 \<le> n \<and> n \<le> 70 then Some (n - 55) else None)"

text \<open>The rest of a string after its opening quote; code points up to 255 only.\<close>

fun read_string :: "string \<Rightarrow> (string \<times> string) option" where
  "read_string [] = None"
| "read_string (c # r) =
     (if c = CHR 0x22 then Some ([], r)
      else if c \<noteq> CHR 0x5C then map_option (\<lambda>(s, r). (c # s, r)) (read_string r)
      else (case r of
          [] \<Rightarrow> None
        | d # r \<Rightarrow>
            (let simple = (\<lambda>x. map_option (\<lambda>(s, r). (x # s, r)) (read_string r)) in
             if d = CHR 0x22 \<or> d = CHR 0x5C then simple d
             else if d = CHR ''b'' then simple (CHR 0x08)
             else if d = CHR ''f'' then simple (CHR 0x0C)
             else if d = CHR ''n'' then simple (CHR 0x0A)
             else if d = CHR ''r'' then simple (CHR 0x0D)
             else if d = CHR ''t'' then simple (CHR 0x09)
             else if d \<noteq> CHR ''u'' then None
             else (case r of
                 z1 # z2 # h # l # r \<Rightarrow>
                   if z1 = CHR ''0'' \<and> z2 = CHR ''0'' then
                     (case (hex_of h, hex_of l) of
                        (Some a, Some b) \<Rightarrow> map_option (\<lambda>(s, r). (char_of (16 * a + b) # s, r)) (read_string r)
                      | _ \<Rightarrow> None)
                   else None
               | _ \<Rightarrow> None))))"

text \<open>\<open>after w v s\<close>: the value \<open>v\<close> when \<open>s\<close> begins with the word \<open>w\<close>.\<close>

definition after :: "string \<Rightarrow> 'v \<Rightarrow> string \<Rightarrow> ('v \<times> string) option" where
  "after w v s = (if take (length w) s = w then Some (v, drop (length w) s) else None)"

definition read_number :: "string \<Rightarrow> (int \<times> string) option" where
  "read_number s =
     (let (neg, t) = (case s of c # r \<Rightarrow> if c = CHR ''-'' then (True, r) else (False, s) | [] \<Rightarrow> (False, s));
          ds = takeWhile is_digit t
      in if ds = [] then None
         else Some (if neg then - int (parse_digits ds) else int (parse_digits ds), dropWhile is_digit t))"

text \<open>A value, the items of an array up to its end, the members of an object up to its end.\<close>

fun read_value :: "nat \<Rightarrow> string \<Rightarrow> ('r jvalue \<times> string) option"
  and read_items :: "nat \<Rightarrow> string \<Rightarrow> ('r jvalue list \<times> string) option"
  and read_members :: "nat \<Rightarrow> string \<Rightarrow> ((string \<times> 'r jvalue) list \<times> string) option" where
  "read_value 0 s = None"
| "read_value (Suc n) [] = None"
| "read_value (Suc n) (c # r) =
     (if c = CHR 0x22 then map_option (\<lambda>(s, r). (V_string s, r)) (read_string r)
      else if c = CHR ''n'' then after ''null'' V_null (c # r)
      else if c = CHR ''t'' then after ''true'' (V_bool True) (c # r)
      else if c = CHR ''f'' then after ''false'' (V_bool False) (c # r)
      else if c = CHR ''['' then
        (if take 1 r = '']'' then Some (V_array [], drop 1 r) else map_option (\<lambda>(vs, r). (V_array vs, r)) (read_items n r))
      else if c = CHR ''{'' then
        (if take 1 r = ''}'' then Some (V_object [], drop 1 r) else map_option (\<lambda>(ms, r). (V_object ms, r)) (read_members n r))
      else map_option (\<lambda>(i, r). (V_int i, r)) (read_number (c # r)))"
| "read_items 0 s = None"
| "read_items (Suc n) s =
     (case read_value n s of
        Some (v, c # r) \<Rightarrow>
          if c = CHR '','' then map_option (\<lambda>(vs, r). (v # vs, r)) (read_items n r)
          else if c = CHR '']'' then Some ([v], r) else None
      | _ \<Rightarrow> None)"
| "read_members 0 s = None"
| "read_members (Suc n) s =
     (case s of
        c # r \<Rightarrow>
          if c \<noteq> CHR 0x22 then None
          else (case read_string r of
              Some (k, d # r) \<Rightarrow>
                if d \<noteq> CHR '':'' then None
                else (case read_value n r of
                    Some (v, c # r) \<Rightarrow>
                      if c = CHR '','' then map_option (\<lambda>(ms, r). ((k, v) # ms, r)) (read_members n r)
                      else if c = CHR ''}'' then Some ([(k, v)], r) else None
                  | _ \<Rightarrow> None)
            | _ \<Rightarrow> None)
      | [] \<Rightarrow> None)"

subsection \<open>Reading what is printed\<close>

lemma char_eq_nat: "c = d \<longleftrightarrow> (of_char c :: nat) = of_char d"
  by simp

lemma hex_upper: "n < 16 \<Longrightarrow> hex_of (upper_hex n) = Some n"
  by (auto simp: hex_of_def upper_hex_def Let_def)

lemma read_escaped: "read_string (escape_char c @ t) = map_option (\<lambda>(s, r). (c # s, r)) (read_string t)"
proof -
  define n where "n = (of_char c :: nat)"
  have c: "c = char_of n" by (simp add: n_def)
  have h: "n \<le> 31 \<Longrightarrow> hex_of (upper_hex (n div 16)) = Some (n div 16)" "hex_of (upper_hex (n mod 16)) = Some (n mod 16)"
    by (rule hex_upper; simp)+
  have e: "(char_of n = (CHR 0x22 :: char)) = (n = 34)" "(char_of n = (CHR 0x5C :: char)) = (n = 92)"
    unfolding c [symmetric] char_eq_nat by (simp_all add: n_def)
  consider "n \<in> {34, 92, 8, 12, 10, 13, 9}" | "n \<notin> {34, 92, 8, 12, 10, 13, 9}" "0 < n" "n \<le> 31"
    | "n \<notin> {34, 92, 8, 12, 10, 13, 9}" "\<not> (0 < n \<and> n \<le> 31)" by blast
  then show ?thesis
  proof cases
    case 1
    then have "c \<in> {CHR 0x22, CHR 0x5C, CHR 0x08, CHR 0x0C, CHR 0x0A, CHR 0x0D, CHR 0x09}"
      by (auto simp: char_eq_nat [of c] n_def)
    then show ?thesis by (auto simp: escape_char_def)
  next
    case 2
    then show ?thesis
      using h n_def by (simp add: escape_char_def Let_def)
  next
    case 3
    then have "escape_char c = [c]" by (auto simp: escape_char_def Let_def n_def)
    then show ?thesis using 3(1) e c by simp
  qed
qed

lemma read_quoted: "read_string (concat (map escape_char s) @ CHR 0x22 # r) = Some (s, r)"
  by (induction s) (simp_all add: read_escaped)

definition stops :: "string \<Rightarrow> bool" where
  "stops r \<longleftrightarrow> r = [] \<or> \<not> is_digit (hd r)"

lemma span_digits: "stops r \<Longrightarrow> takeWhile is_digit (show_nat n @ r) = show_nat n \<and> dropWhile is_digit (show_nat n @ r) = r"
  using show_nat_digits [of _ n] by (cases r) (auto simp: stops_def takeWhile_append dropWhile_append)

lemma hd_show_nat: "is_digit (hd (show_nat n))"
  using show_nat_digits [of "hd (show_nat n)" n] by simp

lemma read_show_int:
  assumes "stops r"
  shows "read_number (show_int i @ r) = Some (i, r)"
proof (cases "i < 0")
  case True
  then show ?thesis using span_digits [OF assms] by (simp add: read_number_def show_int_def Let_def)
next
  case False
  obtain d ds where s: "show_nat (nat i) = d # ds" by (cases "show_nat (nat i)") simp_all
  then have "d \<noteq> CHR ''-''" using hd_show_nat [of "nat i"] by (auto simp: is_digit_def)
  moreover have "takeWhile is_digit (d # ds @ r) = d # ds" "dropWhile is_digit (d # ds @ r) = r"
    using span_digits [OF assms, of "nat i"] s by simp_all
  moreover have "parse_digits (d # ds) = nat i" using s by (metis parse_digits_show_nat)
  ultimately show ?thesis using False s by (simp add: read_number_def show_int_def)
qed

lemma hd_show_int: "\<exists>d ds. show_int i = d # ds \<and> (d = CHR ''-'' \<or> is_digit d)"
  using hd_show_nat [of "nat i"] by (cases "show_nat (nat i)") (auto simp: show_int_def)

text \<open>
  What is read back: strings up to their first null character, and every integer as a signed one. Real numbers are
  left out.
\<close>

fun plain_value :: "'r jvalue \<Rightarrow> bool" where
  "plain_value (V_real _) = False"
| "plain_value (V_array vs) = list_all plain_value vs"
| "plain_value (V_object ms) = list_all (\<lambda>(_, v). plain_value v) ms"
| "plain_value _ = True"

fun norm_value :: "'r jvalue \<Rightarrow> 'r jvalue" where
  "norm_value (V_uint n) = V_int (int n)"
| "norm_value (V_string s) = V_string (c_string s)"
| "norm_value (V_array vs) = V_array (map norm_value vs)"
| "norm_value (V_object ms) = V_object (map (\<lambda>(k, v). (c_string k, norm_value v)) ms)"
| "norm_value v = v"

fun value_size :: "'r jvalue \<Rightarrow> nat" where
  "value_size (V_array vs) = Suc (sum_list (map (\<lambda>v. Suc (value_size v)) vs))"
| "value_size (V_object ms) = Suc (sum_list (map (\<lambda>(_, v). Suc (value_size v)) ms))"
| "value_size _ = 1"

definition reads :: "('r \<Rightarrow> string) \<Rightarrow> 'r jvalue \<Rightarrow> bool" where
  "reads sr v \<longleftrightarrow> (\<forall>n r. value_size v \<le> n \<longrightarrow> stops r \<longrightarrow>
     read_value n (appendValue sr True v @ r) = Some (norm_value v, r))"

lemma stops_punctuation [simp]: "stops (CHR '','' # r)" "stops (CHR '']'' # r)" "stops (CHR ''}'' # r)"
  by (simp_all add: stops_def is_digit_def)

lemma reads_items:
  assumes "\<And>v. v \<in> set vs \<Longrightarrow> reads sr v" and "vs \<noteq> []" and "sum_list (map (\<lambda>v. Suc (value_size v)) vs) \<le> n"
  shows "read_items n (join_with '','' (map (appendValue sr True) vs) @ CHR '']'' # r) = Some (map norm_value vs, r)"
  using assms
proof (induction vs arbitrary: n)
  case (Cons v vs)
  then obtain m where m: "n = Suc m" "value_size v \<le> m" by (cases n) auto
  show ?case
  proof (cases vs)
    case Nil
    then show ?thesis using Cons.prems(1) [of v] m by (simp add: reads_def)
  next
    case (Cons u us)
    have "read_items m (join_with '','' (map (appendValue sr True) vs) @ CHR '']'' # r) = Some (map norm_value vs, r)"
      by (rule Cons.IH) (use Cons.prems m Cons in auto)
    then show ?thesis using Cons.prems(1) [of v] m Cons by (simp add: reads_def)
  qed
qed simp

lemma reads_members:
  assumes "\<And>k v. (k, v) \<in> set ms \<Longrightarrow> reads sr v" and "ms \<noteq> []" and "sum_list (map (\<lambda>(_, v). Suc (value_size v)) ms) \<le> n"
  shows "read_members n (join_with '','' (map (\<lambda>(k, v). appendQuotedString k @ '':'' @ appendValue sr True v) ms) @ CHR ''}'' # r) =
    Some (map (\<lambda>(k, v). (c_string k, norm_value v)) ms, r)"
  using assms
proof (induction ms arbitrary: n)
  case (Cons kv ms)
  obtain k v where kv: "kv = (k, v)" by fastforce
  obtain m where m: "n = Suc m" "value_size v \<le> m" using Cons.prems(3) kv by (cases n) auto
  have v: "stops r' \<Longrightarrow> read_value m (appendValue sr True v @ r') = Some (norm_value v, r')" for r'
    using Cons.prems(1) [of k v] kv m(2) by (simp add: reads_def)
  show ?case
  proof (cases ms)
    case Nil
    then show ?thesis using v m kv by (simp add: appendQuotedString_eq read_quoted)
  next
    case (Cons u us)
    have "read_members m (join_with '','' (map (\<lambda>(k, v). appendQuotedString k @ '':'' @ appendValue sr True v) ms) @ CHR ''}'' # r) =
        Some (map (\<lambda>(k, v). (c_string k, norm_value v)) ms, r)"
      by (rule Cons.IH) (use Cons.prems m kv Cons in auto)
    then show ?thesis using v m kv Cons by (simp add: appendQuotedString_eq read_quoted)
  qed
qed simp

lemma reads_int: "reads sr (V_int i)"
  unfolding reads_def
proof (intro allI impI)
  fix n r assume n: "value_size (V_int i :: 'a jvalue) \<le> n" and r: "stops r"
  obtain m where m: "n = Suc m" using n by (cases n) auto
  obtain d ds where d: "show_int i = d # ds" "d = CHR ''-'' \<or> is_digit d" using hd_show_int by blast
  then have "d \<notin> {CHR 0x22, CHR ''n'', CHR ''t'', CHR ''f'', CHR ''['', CHR ''{''}"
    by (auto simp: is_digit_def)
  then show "read_value n (appendValue sr True (V_int i) @ r) = Some (norm_value (V_int i), r)"
    using read_show_int [OF r, of i] d(1) m by simp
qed

lemma not_close:
  "read_items n t = Some x \<Longrightarrow> take 1 t \<noteq> '']''"
  "read_members n t = Some y \<Longrightarrow> take 1 t \<noteq> ''}''"
proof -
  have "read_value m (CHR '']'' # t) = (None :: ('a jvalue \<times> string) option)" for m t
    by (cases m) (simp_all add: read_number_def is_digit_def)
  then show "read_items n t = Some x \<Longrightarrow> take 1 t \<noteq> '']''"
    by (cases n; cases t) auto
  show "read_members n t = Some y \<Longrightarrow> take 1 t \<noteq> ''}''"
    by (cases n; cases t) auto
qed

lemma reads_plain: "plain_value v \<Longrightarrow> reads sr v"
proof (induction v)
  case (V_int i)
  show ?case by (rule reads_int)
next
  case (V_uint n)
  have "show_nat n = show_int (int n)" by (simp add: show_int_def)
  then show ?case using reads_int [of sr "int n"] by (simp add: reads_def)
next
  case (V_string s)
  show ?case
    unfolding reads_def
  proof (intro allI impI)
    fix n r assume "value_size (V_string s :: 'a jvalue) \<le> n"
    then show "read_value n (appendValue sr True (V_string s) @ r) = Some (norm_value (V_string s), r)"
      by (cases n) (simp_all add: appendQuotedString_eq read_quoted)
  qed
next
  case (V_array vs)
  then have IH: "v \<in> set vs \<Longrightarrow> reads sr v" for v by (auto simp: list_all_iff)
  show ?case
    unfolding reads_def
  proof (intro allI impI)
    fix n r assume n: "value_size (V_array vs) \<le> n"
    then obtain m where m: "n = Suc m" "sum_list (map (\<lambda>v. Suc (value_size v)) vs) \<le> m" by (cases n) auto
    show "read_value n (appendValue sr True (V_array vs) @ r) = Some (norm_value (V_array vs), r)"
    proof (cases "vs = []")
      case False
      have items: "read_items m (join_with '','' (map (appendValue sr True) vs) @ CHR '']'' # r) = Some (map norm_value vs, r)"
        by (rule reads_items [OF IH False m(2)])
      show ?thesis using not_close(1) [OF items] items m(1) by simp
    qed (use m in simp)
  qed
next
  case (V_object ms)
  then have IH: "(k, v) \<in> set ms \<Longrightarrow> reads sr v" for k v by (fastforce simp: list_all_iff)
  show ?case
    unfolding reads_def
  proof (intro allI impI)
    fix n r assume n: "value_size (V_object ms) \<le> n"
    then obtain m where m: "n = Suc m" "sum_list (map (\<lambda>(_, v). Suc (value_size v)) ms) \<le> m" by (cases n) auto
    show "read_value n (appendValue sr True (V_object ms) @ r) = Some (norm_value (V_object ms), r)"
    proof (cases "ms = []")
      case False
      note items = reads_members [where sr = sr and r = r, OF IH False m(2)]
      show ?thesis using not_close(2) [OF items] items m(1) by simp
    qed (use m in simp)
  qed
qed (auto simp: reads_def after_def le_Suc_eq Suc_le_eq gr0_conv_Suc)


definition sample_value :: "nat jvalue" where
  "sample_value = V_object [([CHR 0x22, CHR 0x07], V_array [V_int (- 12), V_uint 7, V_bool False]), (''b'', V_null)]"


end
