(* ===== verification/Farm_Hosts.thy ===== *)
theory Farm_Hosts
  imports Local_Sessions
begin

text \<open>
  \<^verbatim>\<open>arras4_client/lib/sdk/FarmHostsForArrasUtils\<close>: requests for hosts of a render farm, to a service whose address is
  found through the configuration service and a process manager on the local host. Every function catches what
  goes wrong, logs it and returns a value that says so.

  Numbers of hours are a fraction, a numerator with a positive denominator, and their decimal text.
\<close>

definition BAD_GROUP_ID :: int where "BAD_GROUP_ID = 0"

text \<open>\<open>catch (const std::exception& e)\<close> around a function without state.\<close>

definition guarded :: "exn + 'a \<Rightarrow> (exn \<Rightarrow> 'a) \<Rightarrow> exn + 'a" where
  "guarded r h = (case r of Inl e \<Rightarrow> if is_std_exception e then Inr (h e) else Inl e | Inr a \<Rightarrow> Inr a)"

definition response_string :: "string option \<Rightarrow> string" where
  "response_string text = (case text of None \<Rightarrow> [] | Some t \<Rightarrow> t)"

definition getObjectFromResponse :: "('j, 'z) json_obj_scheme \<Rightarrow> string option \<Rightarrow> exn + 'j" where
  "getObjectFromResponse J text =
     (case stringToObject J (response_string text) (js_null J) of (Inl e, _) \<Rightarrow> Inl e | (Inr _, j) \<Rightarrow> Inr j)"

definition getGroupIdFromResponse :: "('j, 'z) json_obj_scheme \<Rightarrow> string option \<Rightarrow> exn + int" where
  "getGroupIdFromResponse J text =
     sbind (getObjectFromResponse J text) (\<lambda>ans.
       if \<not> js_isObject J ans then Inr BAD_GROUP_ID
       else sbind (js_isMember J ans ''groupId'') (\<lambda>there.
         if \<not> there then Inr BAD_GROUP_ID
         else sbind (js_get J ans ''groupId'') (\<lambda>gId. if js_isInt J gId then js_asInt J gId else Inr BAD_GROUP_ID)))"

definition unexpected_code :: "int \<Rightarrow> string" where
  "unexpected_code code = ''unexpected response code: '' @ show_int code"

definition object_of :: "('j, 'z) json_obj_scheme \<Rightarrow> (string \<times> 'j) list \<Rightarrow> exn + 'j" where
  "object_of J kvs = (case put_all J kvs (js_null J) of (Inl e, _) \<Rightarrow> Inl e | (Inr _, j) \<Rightarrow> Inr j)"

definition FarmHosts_getDetail :: "('j, 'z) json_obj_scheme \<Rightarrow> http_service \<Rightarrow> string \<Rightarrow> exn + 'j" where
  "FarmHosts_getDetail J submit baseUrl =
     (let url = baseUrl @ ''/groups_detail'' in
      sbind (guarded (sbind (submit GET url []) (\<lambda>(code, text).
           if code = HTTP_OK then sbind (getObjectFromResponse J text) (\<lambda>j. Inr (Inr j))
           else Inr (Inl (unexpected_code code))))
         (\<lambda>e. Inl (exn_what e @ ''; url: '' @ url)))
       (\<lambda>r. case r of Inr j \<Rightarrow> Inr j | Inl msg \<Rightarrow> object_of J [(''error'', js_ofString J msg)]))"

record farm_request =
  fr_production :: string
  fr_user :: string
  fr_num_hosts :: int
  fr_min_cores :: int
  fr_max_cores :: string
  fr_share :: string
  fr_steering :: string
  fr_priority :: int
  fr_minutes :: int
  fr_mem :: string
  fr_label :: string

definition farm_members :: "('j, 'z) json_obj_scheme \<Rightarrow> farm_request \<Rightarrow> (string \<times> 'j) list" where
  "farm_members J r =
     [(''production'', js_ofString J (fr_production r)), (''user'', js_ofString J (fr_user r)),
      (''num_hosts'', js_ofInt J (fr_num_hosts r)), (''min_cores'', js_ofInt J (fr_min_cores r)),
      (''max_cores'', js_ofString J (fr_max_cores r)), (''share'', js_ofString J (fr_share r)),
      (''steering'', js_ofString J (fr_steering r)), (''priority'', js_ofInt J (fr_priority r)),
      (''minutes'', js_ofInt J (fr_minutes r)), (''memory'', js_ofString J (fr_mem r))] @
     (if fr_label r \<noteq> [] then [(''submission_label'', js_ofString J (fr_label r))] else [])"

definition FarmHosts_postRequest :: "('j, 'z) json_obj_scheme \<Rightarrow> http_service \<Rightarrow> string \<Rightarrow> farm_request \<Rightarrow> exn + int" where
  "FarmHosts_postRequest J submit baseUrl r =
     guarded (sbind (object_of J (farm_members J r)) (\<lambda>req.
         sbind (submit POST baseUrl (js_print J req)) (\<lambda>(code, text).
           if code = HTTP_OK then getGroupIdFromResponse J text else Inr BAD_GROUP_ID)))
       (\<lambda>_. BAD_GROUP_ID)"

text \<open>Whether an answer has \<open>"error": {"errorCode": 0}\<close>.\<close>

definition no_error :: "('j, 'z) json_obj_scheme \<Rightarrow> string option \<Rightarrow> exn + bool" where
  "no_error J text =
     sbind (getObjectFromResponse J text) (\<lambda>ans.
     sbind (js_isMember J ans ''error'') (\<lambda>there.
       if \<not> there then Inr False
       else sbind (js_get J ans ''error'') (\<lambda>err.
         sbind (js_isMember J err ''errorCode'') (\<lambda>there.
           if \<not> there then Inr False
           else sbind (js_get J err ''errorCode'') (\<lambda>code.
             if js_isInt J code then sbind (js_asInt J code) (\<lambda>i. Inr (i = 0)) else Inr False)))))"

definition FarmHosts_cancelGroup :: "('j, 'z) json_obj_scheme \<Rightarrow> http_service \<Rightarrow> string \<Rightarrow> int \<Rightarrow> exn + bool" where
  "FarmHosts_cancelGroup J submit baseUrl groupId =
     guarded (sbind (submit HTTPDELETE (baseUrl @ ''/group/'' @ show_int groupId) []) (\<lambda>(_, text). no_error J text)) (\<lambda>_. False)"

text \<open>The limit in whole minutes: a conversion of the float to an \<open>int\<close>, towards zero.\<close>

definition run_minutes :: "int \<times> int \<Rightarrow> int" where
  "run_minutes hours = sgn (fst hours) * (\<bar>fst hours\<bar> * 60 div snd hours)"

definition FarmHosts_setRunLimit ::
  "('j, 'z) json_obj_scheme \<Rightarrow> http_service \<Rightarrow> string \<Rightarrow> int \<Rightarrow> int \<times> int \<Rightarrow> string \<Rightarrow> exn + bool" where
  "FarmHosts_setRunLimit J submit baseUrl groupId hours hoursText =
     guarded (sbind (object_of J [(''minutes'', js_ofInt J (run_minutes hours))]) (\<lambda>req.
       sbind (submit PUT (baseUrl @ ''/runlimit/'' @ show_int groupId @ ''/'' @ hoursText) (js_print J req)) (\<lambda>(_, text). no_error J text)))
       (\<lambda>_. False)"

definition FarmHosts_setEnv :: "('j, 'z) json_obj_scheme \<Rightarrow> http_service \<Rightarrow> string \<Rightarrow> string \<Rightarrow> exn + bool" where
  "FarmHosts_setEnv J submit baseUrl env =
     guarded (sbind (object_of J [(''env'', js_ofString J env)]) (\<lambda>req.
       sbind (submit PUT (baseUrl @ ''/env/'' @ env) (js_print J req)) (\<lambda>(code, _). Inr (code = HTTP_OK)))) (\<lambda>_. False)"

definition FarmHosts_getSiloUrl :: "(string \<Rightarrow> string option) \<Rightarrow> http_service \<Rightarrow> string \<Rightarrow> exn + string" where
  "FarmHosts_getSiloUrl getenv submit datacenter =
     (case getenv ''DWA_CONFIG_SERVICE'' of
        None \<Rightarrow> Inr []
      | Some configSrvUrl \<Rightarrow>
          guarded (sbind (submit GET (configSrvUrl @ ''serve/'' @ datacenter @ ''/config_sets/studio/silo/url'') []) (\<lambda>(code, text).
            Inr (if code = HTTP_OK then response_string text else []))) (\<lambda>_. []))"

text \<open>The process of the request handler among those that are running: its address has what follows the first space.\<close>

primrec handler_url :: "('j, 'z) json_obj_scheme \<Rightarrow> 'j list \<Rightarrow> exn + string" where
  "handler_url J [] = Inr []"
| "handler_url J (elem # rest) =
     (let str = (\<lambda>k. sbind (js_get J elem k) (js_asString J)) in
      sbind (str ''base_process_name'') (\<lambda>name.
      if name \<noteq> ''multi_session_request_handler'' then handler_url J rest
      else sbind (str ''process_state'') (\<lambda>state.
      if state \<noteq> ''RUNNING'' then handler_url J rest
      else sbind (str ''original_command_line'') (\<lambda>cmd.
        case dropWhile (\<lambda>c. c \<noteq> CHR '' '') cmd of
          [] \<Rightarrow> handler_url J rest
        | _ # port \<Rightarrow> Inr (''http://localhost:'' @ port)))))"

definition FarmHosts_getBaseUrl :: "('j, 'z) json_obj_scheme \<Rightarrow> (string \<Rightarrow> string option) \<Rightarrow> http_service \<Rightarrow> string \<Rightarrow> exn + string" where
  "FarmHosts_getBaseUrl J getenv submit datacenter =
     sbind (FarmHosts_getSiloUrl getenv submit datacenter) (\<lambda>silo_url.
       if silo_url = [] then Inr []
       else guarded (sbind (submit GET (silo_url @ ''/processes'') []) (\<lambda>(code, text).
           if code \<noteq> HTTP_OK then Inr []
           else sbind (getObjectFromResponse J text) (\<lambda>ans.
             if js_isArray J ans then handler_url J (map snd (js_members J ans)) else Inr []))) (\<lambda>_. []))"

text \<open>The constructor: the address, and the environment of the service's nodes is set, whatever comes of it.\<close>

definition FarmHosts_new ::
  "('j, 'z) json_obj_scheme \<Rightarrow> (string \<Rightarrow> string option) \<Rightarrow> http_service \<Rightarrow> string \<Rightarrow> string \<Rightarrow> exn + string" where
  "FarmHosts_new J getenv submit datacenter environ =
     sbind (FarmHosts_getBaseUrl J getenv submit datacenter) (\<lambda>baseUrl.
     sbind (FarmHosts_setEnv J submit baseUrl environ) (\<lambda>_. Inr baseUrl))"

subsection \<open>Nothing is thrown\<close>

lemma guarded_std: "(\<And>e. r = Inl e \<Longrightarrow> is_std_exception e) \<Longrightarrow> \<exists>a. guarded r h = Inr a"
  by (cases r) (auto simp: guarded_def)

text \<open>
  A group is only ever reported for an answer with code 200 that has an integer \<open>groupId\<close>.
\<close>

lemma postRequest_group:
  assumes "FarmHosts_postRequest J submit baseUrl r = Inr g" and "g \<noteq> BAD_GROUP_ID"
  shows "\<exists>req text ans v. object_of J (farm_members J r) = Inr req \<and> submit POST baseUrl (js_print J req) = Inr (HTTP_OK, text) \<and>
    getObjectFromResponse J text = Inr ans \<and> js_get J ans ''groupId'' = Inr v \<and> js_isInt J v \<and> js_asInt J v = Inr g"
  using assms
  by (auto simp: FarmHosts_postRequest_def guarded_def sbind_def getGroupIdFromResponse_def split: sum.splits if_splits prod.splits)

end
