(* ===== verification/Control_Groups.thy ===== *)
theory Control_Groups
  imports Environments Object_Text
begin

text \<open>
  Control groups of processes (\<^verbatim>\<open>arras4_core_impl/lib/execute/ControlGroup\<close>): memory and processor limits, the tasks of
  a group, and the notification when a group is out of memory; and the members of a process group
  (\<^verbatim>\<open>process_utils.cc\<close>).

  The library libcgroup and the system calls are the record \<open>group_lib\<close>, functions on a state of the kernel. A
  \<^verbatim>\<open>cgroup\<close> structure is its name and the settings of its controllers; freeing one has no effect that is seen.
  A \<^verbatim>\<open>float\<close> is a fraction of integers with a positive denominator; products and quotients are exact, which those
  of the code are for whole numbers of cores up to 5368 (the quota is then a multiple of 32 and below 2 to the 29th).
\<close>

subsection \<open>The library and the system\<close>

type_synonym group_settings = "(string \<times> (string \<times> int) list) list"

text \<open>
  Status codes are those of the library, 0 for success. \<open>lg_new\<close> and \<open>lg_add\<close> say whether the structure of a group or
  controller could be allocated; \<open>lg_get\<close> reads the settings of a group; \<open>lg_tasks\<close> is the status when the iteration
  over its tasks is begun; \<open>lg_stats\<close> are the entries of its memory statistics, the first one and the others.
  \<open>lg_read fd n\<close> reads from the beginning of a file; \<open>lg_event\<close> reads the event counter: the number of
  bytes and the value.
\<close>

record 'k group_lib =
  lg_init :: "'k \<Rightarrow> int \<times> 'k"
  lg_mount :: "string \<Rightarrow> 'k \<Rightarrow> int + string"
  lg_new :: "string \<Rightarrow> 'k \<Rightarrow> bool"
  lg_get :: "string \<Rightarrow> 'k \<Rightarrow> int + group_settings"
  lg_add :: "string \<Rightarrow> 'k \<Rightarrow> bool"
  lg_create :: "string \<Rightarrow> group_settings \<Rightarrow> 'k \<Rightarrow> int \<times> 'k"
  lg_modify :: "string \<Rightarrow> group_settings \<Rightarrow> 'k \<Rightarrow> int \<times> 'k"
  lg_attach :: "string \<Rightarrow> int \<Rightarrow> 'k \<Rightarrow> int \<times> 'k"
  lg_tasks :: "string \<Rightarrow> string \<Rightarrow> 'k \<Rightarrow> int"
  lg_stats :: "string \<Rightarrow> 'k \<Rightarrow> ((string \<times> string) \<times> (string \<times> string) list) option"
  lg_strerror :: "int \<Rightarrow> string"
  lg_open :: "string \<Rightarrow> 'k \<Rightarrow> int \<times> 'k"
  lg_close :: "int \<Rightarrow> 'k \<Rightarrow> 'k"
  lg_write :: "int \<Rightarrow> string \<Rightarrow> 'k \<Rightarrow> 'k"
  lg_read :: "int \<Rightarrow> nat \<Rightarrow> 'k \<Rightarrow> string option"
  lg_rmdir :: "string \<Rightarrow> 'k \<Rightarrow> 'k"
  lg_eventfd :: "'k \<Rightarrow> int \<times> 'k"
  lg_poll :: "int \<Rightarrow> int \<Rightarrow> 'k \<Rightarrow> int \<times> 'k"
  lg_event :: "int \<Rightarrow> 'k \<Rightarrow> (int \<times> int) \<times> 'k"
  lg_proc_cgroup :: "int \<Rightarrow> 'k \<Rightarrow> string option"

definition ECGEOF :: int where "ECGEOF = 50023"

definition CPU_PERIOD :: int where "CPU_PERIOD = 100000"

record control_group =
  gp_oomFds :: "(string, int) stdmap"
  gp_eventFd :: int
  gp_fastOomCheck :: bool
  gp_useHierarchy :: bool
  gp_baseGroup :: string
  gp_status :: string
  gp_valid :: bool
  gp_validBase :: bool

text \<open>The object, the kernel, and whether the library has been initialized.\<close>

record 'k group_world =
  gw_group :: control_group
  gw_kernel :: 'k
  gw_initialized :: bool

definition sys :: "('k \<Rightarrow> 'a \<times> 'k) \<Rightarrow> ('k group_world, 'a) proc" where
  "sys f w = (case f (gw_kernel w) of (r, k) \<Rightarrow> (Inr r, w\<lparr>gw_kernel := k\<rparr>))"

definition ask :: "('k \<Rightarrow> 'a) \<Rightarrow> ('k group_world, 'a) proc" where
  "ask f = gets (f \<circ> gw_kernel)"

definition kern :: "('k \<Rightarrow> 'k) \<Rightarrow> ('k group_world, unit) proc" where
  "kern f = upd (\<lambda>w. w\<lparr>gw_kernel := f (gw_kernel w)\<rparr>)"

definition grp :: "(control_group \<Rightarrow> control_group) \<Rightarrow> ('k group_world, unit) proc" where
  "grp f = upd (\<lambda>w. w\<lparr>gw_group := f (gw_group w)\<rparr>)"

definition getg :: "(control_group \<Rightarrow> 'a) \<Rightarrow> ('k group_world, 'a) proc" where
  "getg f = gets (f \<circ> gw_group)"

definition runtime_error :: "string \<Rightarrow> ('s, 'a) proc" where
  "runtime_error m = raise (StdException m)"

definition check :: "bool \<Rightarrow> string \<Rightarrow> ('s, unit) proc" where
  "check ok m = (if ok then ret () else runtime_error m)"

subsection \<open>Construction\<close>

definition ControlGroup_init :: control_group where
  "ControlGroup_init = \<lparr>gp_oomFds = [], gp_eventFd = - 1, gp_fastOomCheck = False, gp_useHierarchy = False,
     gp_baseGroup = [], gp_status = [], gp_valid = False, gp_validBase = False\<rparr>"

text \<open>A missing mount point leaves a text, but the object is valid all the same.\<close>

definition ControlGroup_new :: "'k group_lib \<Rightarrow> ('k group_world, unit) proc" where
  "ControlGroup_new L =
     seqp (grp (\<lambda>_. ControlGroup_init))
     (bindp (gets gw_initialized) (\<lambda>initialized.
      bindp (if initialized then ret 0 else sys (lg_init L)) (\<lambda>status.
      if status \<noteq> 0 then grp (\<lambda>g. g\<lparr>gp_status := ''Couldn't initialize libcgroups''\<rparr>)
      else seqp (upd (\<lambda>w. w\<lparr>gw_initialized := True\<rparr>))
       (seqp (bindp (ask (lg_mount L ''cpu'')) (\<lambda>m. case m of
           Inl s \<Rightarrow> grp (\<lambda>g. g\<lparr>gp_status := ''Couldn't get cpu mount point: '' @ lg_strerror L s\<rparr>) | Inr _ \<Rightarrow> ret ()))
       (seqp (bindp (ask (lg_mount L ''memory'')) (\<lambda>m. case m of
           Inl s \<Rightarrow> grp (\<lambda>g. g\<lparr>gp_status := ''Couldn't get memory mount point: '' @ lg_strerror L s\<rparr>) | Inr _ \<Rightarrow> ret ()))
       (bindp (sys (lg_eventfd L)) (\<lambda>fd. grp (\<lambda>g. g\<lparr>gp_eventFd := fd, gp_valid := True\<rparr>))))))))"

subsection \<open>Groups\<close>

text \<open>The settings of a group that exists.\<close>

definition ControlGroup_getGroup :: "'k group_lib \<Rightarrow> string \<Rightarrow> ('k group_world, group_settings) proc" where
  "ControlGroup_getGroup L path =
     bindp (ask (lg_new L path)) (\<lambda>ok.
     seqp (check ok ''Couldn't create the group structure'')
     (bindp (ask (lg_get L path)) (\<lambda>r. case r of
        Inl s \<Rightarrow> runtime_error (''There was a problem getting '' @ path @ '' cgroup ('' @ lg_strerror L s @ '')'')
      | Inr g \<Rightarrow> ret g)))"

definition huge :: u64 where "huge = 256 * 1048576 * 1048576"

definition cpu_positive :: "int \<times> int \<Rightarrow> bool" where
  "cpu_positive c \<longleftrightarrow> 0 < fst c"

definition cpu_quota :: "int \<times> int \<Rightarrow> int" where
  "cpu_quota c = sgn (fst c) * (CPU_PERIOD * \<bar>fst c\<bar> div snd c)"

definition clamp_limit :: "u64 \<Rightarrow> u64" where
  "clamp_limit l = (if l = 0 \<or> l > huge then huge else l)"

definition ControlGroup_create :: "'k group_lib \<Rightarrow> string \<Rightarrow> u64 \<Rightarrow> u64 \<Rightarrow> int \<times> int \<Rightarrow> bool \<Rightarrow> ('k group_world, unit) proc" where
  "ControlGroup_create L path memLimitReal memLimitRealAndSwap cpuAmount pauseOnOom =
     (let real = clamp_limit memLimitReal; swap = clamp_limit memLimitRealAndSwap;
          cpu = [(''cpu.cfs_period_us'', CPU_PERIOD), (''cpu.cfs_quota_us'', if cpu_positive cpuAmount then cpu_quota cpuAmount else - 1)];
          memory = [(''memory.limit_in_bytes'', uint real), (''memory.memsw.limit_in_bytes'', uint swap)]
            @ (if pauseOnOom then [(''memory.oom_control'', 1)] else []) in
      seqp (check (real \<le> swap) ''memLimitRealAndSwap must be greater than or equal to memLimitReal'')
      (bindp (ask (lg_new L path)) (\<lambda>ok.
       seqp (check ok ''Couldn't create the group structure'')
       (bindp (ask (lg_add L ''cpu'')) (\<lambda>ok.
        seqp (check ok ''Couldn't create the cpu controller'')
        (bindp (ask (lg_add L ''memory'')) (\<lambda>ok.
         seqp (check ok ''Couldn't create the memory controller'')
         (bindp (sys (lg_create L path [(''cpu'', cpu), (''memory'', memory)])) (\<lambda>status.
          check (status = 0) (''Couldn't create cgroup: '' @ lg_strerror L status)))))))))) "

definition mount_point :: "'k group_lib \<Rightarrow> string \<Rightarrow> (int \<Rightarrow> string) \<Rightarrow> ('k group_world, string) proc" where
  "mount_point L controller err =
     bindp (ask (lg_mount L controller)) (\<lambda>m. case m of Inl s \<Rightarrow> runtime_error (err s) | Inr path \<Rightarrow> ret path)"

subsection \<open>Out of memory notification\<close>

definition ControlGroup_getOomFd :: "string \<Rightarrow> control_group \<Rightarrow> int" where
  "ControlGroup_getOomFd name g = (case map_of (gp_oomFds g) name of None \<Rightarrow> - 1 | Some fd \<Rightarrow> fd)"

definition ControlGroup_addOomFd :: "string \<Rightarrow> int \<Rightarrow> ('k group_world, bool) proc" where
  "ControlGroup_addOomFd name fd =
     bindp (getg (\<lambda>g. map_of (gp_oomFds g) name)) (\<lambda>e. case e of
        None \<Rightarrow> seqp (grp (\<lambda>g. g\<lparr>gp_oomFds := map_set name fd (gp_oomFds g)\<rparr>)) (ret True)
      | Some _ \<Rightarrow> ret False)"

definition ControlGroup_removeOomFd :: "string \<Rightarrow> control_group \<Rightarrow> control_group" where
  "ControlGroup_removeOomFd name g = g\<lparr>gp_oomFds := map_erase name (gp_oomFds g)\<rparr>"

text \<open>\<open>other\<close>: whether another thread adds the same group in the meantime, and the descriptor it has for it.\<close>

definition ControlGroup_monitorOom :: "'k group_lib \<Rightarrow> int option \<Rightarrow> string \<Rightarrow> bool \<Rightarrow> ('k group_world, unit) proc" where
  "ControlGroup_monitorOom L other name enable =
     bindp (getg (ControlGroup_getOomFd name)) (\<lambda>oomFd.
       if enable
       then if oomFd \<noteq> - 1 then ret ()
         else bindp (mount_point L ''memory'' (\<lambda>s. ''There is a problem with the cgroup memory mount point'' @ lg_strerror L s)) (\<lambda>path.
           let oom_control = path @ ''/'' @ name @ ''/memory.oom_control'';
               event_control = path @ ''/'' @ name @ ''/cgroup.event_control'' in
           bindp (sys (lg_open L oom_control)) (\<lambda>oomFd.
           seqp (check (oomFd \<ge> 0) (''Couldn't open '' @ oom_control))
           (bindp (sys (lg_open L event_control)) (\<lambda>eventControlFd.
            seqp (check (eventControlFd \<ge> 0) (''Couldn't open '' @ event_control))
            (bindp (getg gp_eventFd) (\<lambda>eventFd.
             seqp (kern (lg_write L eventControlFd (show_int eventFd @ '' '' @ show_int oomFd)))
             (seqp (kern (lg_close L eventControlFd))
             (seqp (case other of None \<Rightarrow> ret () | Some fd \<Rightarrow> bindp (ControlGroup_addOomFd name fd) (\<lambda>_. ret ()))
             (bindp (ControlGroup_addOomFd name oomFd) (\<lambda>added.
                if added then ret () else kern (lg_close L oomFd)))))))))))
       else if oomFd = - 1 then ret ()
         else seqp (kern (lg_close L oomFd)) (grp (ControlGroup_removeOomFd name)))"

text \<open>
  \<^verbatim>\<open>sscanf\<close> with the format \<^verbatim>\<open>%*s%*d%*s%d\<close>: a word, a number, a word, and the number that is stored.
\<close>

definition scan_word :: "string \<Rightarrow> string option" where
  "scan_word s = (let t = dropWhile c_space s in if t = [] then None else Some (dropWhile (\<lambda>c. \<not> c_space c) t))"

definition scan_int :: "string \<Rightarrow> (int \<times> string) option" where
  "scan_int s =
     (let t = dropWhile c_space s;
          (neg, u) = (case t of [] \<Rightarrow> (False, []) | c # r \<Rightarrow>
             if c = CHR ''-'' then (True, r) else if c = CHR ''+'' then (False, r) else (False, t));
          ds = takeWhile is_digit u
      in if ds = [] then None
         else Some (if neg then - int (parse_digits ds) else int (parse_digits ds), dropWhile is_digit u))"

definition under_oom :: "string \<Rightarrow> int option" where
  "under_oom s =
     (case scan_word s of None \<Rightarrow> None | Some s \<Rightarrow>
     (case scan_int s of None \<Rightarrow> None | Some (_, s) \<Rightarrow>
     (case scan_word s of None \<Rightarrow> None | Some s \<Rightarrow>
        map_option fst (scan_int s))))"

text \<open>
  The buffer has 50 characters, all of which may be read; the null character after them is then
  written behind its end.
\<close>

fun scan_groups :: "'k group_lib \<Rightarrow> (string \<times> int) list \<Rightarrow> 'k \<Rightarrow> exn + string list" where
  "scan_groups L [] k = Inr []"
| "scan_groups L ((name, fd) # fds) k =
     (case lg_read L fd 50 k of
        None \<Rightarrow> scan_groups L fds k
      | Some buffer \<Rightarrow>
          if length buffer \<ge> 50 then Inl (Undefined ''write behind the buffer'')
          else sbind (scan_groups L fds k) (\<lambda>groups. Inr (if buffer \<noteq> [] \<and> under_oom buffer = Some 1 then name # groups else groups)))"

definition ControlGroup_scanOomStatus :: "'k group_lib \<Rightarrow> ('k group_world, string list) proc" where
  "ControlGroup_scanOomStatus L w = (scan_groups L (gp_oomFds (gw_group w)) (gw_kernel w), w)"

definition ControlGroup_waitOomStatus :: "'k group_lib \<Rightarrow> int \<Rightarrow> string list \<Rightarrow> ('k group_world, string list \<times> nat) proc" where
  "ControlGroup_waitOomStatus L milliSeconds groups =
     bindp (getg gp_fastOomCheck) (\<lambda>fast.
     bindp (if fast then ret groups else ControlGroup_scanOomStatus L) (\<lambda>groups.
       if \<not> fast \<and> length groups > 0 then ret (groups, length groups)
       else seqp (grp (\<lambda>g. g\<lparr>gp_fastOomCheck := True\<rparr>))
        (bindp (getg gp_eventFd) (\<lambda>fd.
         bindp (sys (lg_poll L fd milliSeconds)) (\<lambda>status.
           if status \<le> 0 then ret (groups, 0)
           else bindp (sys (lg_event L fd)) (\<lambda>(size, eventData).
             if size = 0 then ret (groups, 0)
             else if size \<noteq> 8 then runtime_error ''There was an error polling the event file descriptor''
             else if eventData = 0 then ret (groups, 0)
             else bindp (ControlGroup_scanOomStatus L) (\<lambda>groups.
               seqp (if length groups > 0 then grp (\<lambda>g. g\<lparr>gp_fastOomCheck := False\<rparr>) else ret ())
               (ret (groups, length groups)))))))))"

subsection \<open>Tasks and limits of a group\<close>

text \<open>What is thrown for the memory controller is a string literal.\<close>

definition ControlGroup_destroy :: "'k group_lib \<Rightarrow> string \<Rightarrow> ('k group_world, unit) proc" where
  "ControlGroup_destroy L path =
     seqp (ControlGroup_monitorOom L None path False)
     (bindp (ask (lg_tasks L path ''cpu'')) (\<lambda>status.
       if status = 0 then runtime_error ''The c group is not empty in cpu controller''
       else if status \<noteq> ECGEOF then runtime_error ''There was an error getting task list in cpu controller''
       else bindp (ask (lg_tasks L path ''memory'')) (\<lambda>status.
         if status = 0 then raise (CharPointer ''The c group is not empty in memory controller'')
         else if status \<noteq> ECGEOF then raise (CharPointer ''There was an error getting task list in memory controller'')
         else bindp (mount_point L ''cpu'' (\<lambda>_. ''Can't get cpu mount point'')) (\<lambda>cpu.
           bindp (mount_point L ''memory'' (\<lambda>_. ''Can't get memory mount point'')) (\<lambda>memory.
             seqp (kern (lg_rmdir L (cpu @ ''/'' @ path))) (kern (lg_rmdir L (memory @ ''/'' @ path))))))))"

definition ControlGroup_addTask :: "'k group_lib \<Rightarrow> string \<Rightarrow> int \<Rightarrow> ('k group_world, unit) proc" where
  "ControlGroup_addTask L path pid =
     seqp (ControlGroup_getGroup L path)
     (bindp (sys (lg_attach L path pid)) (\<lambda>status. check (status = 0) (lg_strerror L status)))"

definition ControlGroup_addSelf :: "'k group_lib \<Rightarrow> int \<Rightarrow> string \<Rightarrow> ('k group_world, unit) proc" where
  "ControlGroup_addSelf L self path = ControlGroup_addTask L path self"

definition group_controller :: "string \<Rightarrow> string \<Rightarrow> group_settings \<Rightarrow> ('s, (string \<times> int) list) proc" where
  "group_controller name err g = (case map_of g name of None \<Rightarrow> runtime_error err | Some c \<Rightarrow> ret c)"

definition modify :: "'k group_lib \<Rightarrow> string \<Rightarrow> string \<Rightarrow> (string \<times> int) list \<Rightarrow> ('k group_world, unit) proc" where
  "modify L path name settings =
     bindp (ask (lg_new L path)) (\<lambda>ok.
     seqp (check ok ''Couldn't create the group structure'')
     (bindp (ask (lg_add L name)) (\<lambda>ok.
      seqp (check ok (''Couldn't create the '' @ name @ '' controller''))
      (bindp (sys (lg_modify L path [(name, settings)])) (\<lambda>status.
       check (status = 0) (''Couldn't modify cgroup :'' @ lg_strerror L status))))))"

text \<open>
  The order of the two settings. \<open>old\<close> is the limit of memory and swap before; \<open>uninit\<close> what is in the variable when
  it cannot be read, which is not tested.
\<close>

definition limit_settings :: "u64 \<Rightarrow> u64 \<Rightarrow> u64 \<Rightarrow> (string \<times> int) list" where
  "limit_settings old real swap =
     (if swap > old then [(''memory.memsw.limit_in_bytes'', uint swap), (''memory.limit_in_bytes'', uint real)]
      else [(''memory.limit_in_bytes'', uint real), (''memory.memsw.limit_in_bytes'', uint swap)])"

definition ControlGroup_changeMemoryLimit :: "'k group_lib \<Rightarrow> u64 \<Rightarrow> string \<Rightarrow> u64 \<Rightarrow> u64 \<Rightarrow> ('k group_world, unit) proc" where
  "ControlGroup_changeMemoryLimit L uninit path memLimitReal memLimitRealAndSwap =
     bindp (ControlGroup_getGroup L path) (\<lambda>g.
     bindp (group_controller ''memory'' ''Error getting memory controller'' g) (\<lambda>c.
       let old = (case map_of c ''memory.memsw.limit_in_bytes'' of None \<Rightarrow> uninit | Some v \<Rightarrow> word_of_int v) in
       modify L path ''memory'' (limit_settings old memLimitReal memLimitRealAndSwap)))"

definition group_value :: "string \<Rightarrow> string \<Rightarrow> (string \<times> int) list \<Rightarrow> ('s, int) proc" where
  "group_value name err c = (case map_of c name of None \<Rightarrow> runtime_error err | Some v \<Rightarrow> ret v)"

definition ControlGroup_getMemoryUsage :: "'k group_lib \<Rightarrow> string \<Rightarrow> ('k group_world, u64 \<times> u64) proc" where
  "ControlGroup_getMemoryUsage L path =
     bindp (ControlGroup_getGroup L path) (\<lambda>g.
     bindp (group_controller ''memory'' ''Couldn't get the memory controller'' g) (\<lambda>c.
     bindp (group_value ''memory.usage_in_bytes'' ''Couldn't get memory.usage_in_bytes'' c) (\<lambda>real.
     bindp (group_value ''memory.memsw.usage_in_bytes'' ''Couldn't get memory.memsw.usage_in_bytes'' c) (\<lambda>swap.
     ret (word_of_int real, word_of_int swap)))))"

record memory_stats =
  ms_cache :: u64
  ms_rss :: u64
  ms_mapped_file :: u64
  ms_pgpgin :: u64
  ms_pgpgout :: u64
  ms_swap :: u64
  ms_active_anon :: u64
  ms_inactive_anon :: u64
  ms_active_file :: u64
  ms_inactive_file :: u64
  ms_unevictable :: u64
  ms_hierarchical_memory_limit :: u64
  ms_hierarchical_memsw_limit :: u64

definition MemoryStats_new :: memory_stats where
  "MemoryStats_new = \<lparr>ms_cache = 0, ms_rss = 0, ms_mapped_file = 0, ms_pgpgin = 0, ms_pgpgout = 0, ms_swap = 0, ms_active_anon = 0,
     ms_inactive_anon = 0, ms_active_file = 0, ms_inactive_file = 0, ms_unevictable = 0, ms_hierarchical_memory_limit = 0,
     ms_hierarchical_memsw_limit = 0\<rparr>"

definition set_stat :: "string \<Rightarrow> u64 \<Rightarrow> memory_stats \<Rightarrow> memory_stats" where
  "set_stat name v s =
     (if name = ''cache'' then s\<lparr>ms_cache := v\<rparr>
      else if name = ''rss'' then s\<lparr>ms_rss := v\<rparr>
      else if name = ''mapped_file'' then s\<lparr>ms_mapped_file := v\<rparr>
      else if name = ''pgpgin'' then s\<lparr>ms_pgpgin := v\<rparr>
      else if name = ''pgpgout'' then s\<lparr>ms_pgpgout := v\<rparr>
      else if name = ''swap'' then s\<lparr>ms_swap := v\<rparr>
      else if name = ''active_anon'' then s\<lparr>ms_active_anon := v\<rparr>
      else if name = ''inactive_anon'' then s\<lparr>ms_inactive_anon := v\<rparr>
      else if name = ''active_file'' then s\<lparr>ms_active_file := v\<rparr>
      else if name = ''inactive_file'' then s\<lparr>ms_inactive_file := v\<rparr>
      else if name = ''unevictable'' then s\<lparr>ms_unevictable := v\<rparr>
      else if name = ''hierarchical_memory_limit'' then s\<lparr>ms_hierarchical_memory_limit := v\<rparr>
      else if name = ''hierarchical_memsw_limit'' then s\<lparr>ms_hierarchical_memsw_limit := v\<rparr>
      else s)"

definition parseMemStatEntry :: "bool \<Rightarrow> string \<times> string \<Rightarrow> memory_stats \<Rightarrow> exn + memory_stats" where
  "parseMemStatEntry wantTotal entry s =
     (let name = (if take 6 (fst entry) = ''total_'' \<and> wantTotal then drop 6 (fst entry) else fst entry) in
      case stoul (snd entry) of None \<Rightarrow> Inl (InvalidArgument ''stoul'') | Some v \<Rightarrow> Inr (set_stat name v s))"

fun read_stats :: "(string \<times> string) list \<Rightarrow> memory_stats \<times> memory_stats \<Rightarrow> exn + memory_stats \<times> memory_stats" where
  "read_stats [] s = Inr s"
| "read_stats (e # es) s =
     sbind (parseMemStatEntry False e (fst s)) (\<lambda>m. sbind (parseMemStatEntry True e (snd s)) (\<lambda>t. read_stats es (m, t)))"

text \<open>The statistics of the group alone, and with its subgroups.\<close>

definition ControlGroup_getMemoryStats ::
  "'k group_lib \<Rightarrow> string \<Rightarrow> memory_stats \<times> memory_stats \<Rightarrow> 'k \<Rightarrow> exn + memory_stats \<times> memory_stats" where
  "ControlGroup_getMemoryStats L path stats k =
     (case lg_stats L path k of
        None \<Rightarrow> Inl (StdException ''Couldn't read the memory stats'')
      | Some (e, es) \<Rightarrow> read_stats (e # es) stats)"

definition ControlGroup_changeCpuQuota :: "'k group_lib \<Rightarrow> string \<Rightarrow> int \<times> int \<Rightarrow> ('k group_world, unit) proc" where
  "ControlGroup_changeCpuQuota L path cpuAmount =
     modify L path ''cpu'' [(''cpu.cfs_quota_us'', if fst cpuAmount < 0 then - 1 else cpu_quota cpuAmount)]"

text \<open>Cores, period and quota of one group. Without a quota the cores are -1.\<close>

type_synonym quota_out = "(int \<times> int) \<times> int \<times> int"

definition ControlGroup_getCpuQuotaRaw :: "'k group_lib \<Rightarrow> string \<Rightarrow> ('k group_world, quota_out) proc" where
  "ControlGroup_getCpuQuotaRaw L path =
     bindp (ControlGroup_getGroup L path) (\<lambda>g.
     bindp (group_controller ''cpu'' ''Error gettig cpu controller'' g) (\<lambda>c.
     bindp (group_value ''cpu.cfs_period_us'' ''Couldn't get cfs_period_us'' c) (\<lambda>period.
     bindp (group_value ''cpu.cfs_quota_us'' ''Couldn't get cfs_quota_us'' c) (\<lambda>quota.
     ret (if quota \<ge> 0 \<and> period > 0 then (quota, period) else (- 1, 1), period, quota)))))"

definition rfind_slash :: "string \<Rightarrow> nat option" where
  "rfind_slash s = (if CHR ''/'' \<in> set s then Some (length s - 1 - length (takeWhile (\<lambda>c. c \<noteq> CHR ''/'') (rev s))) else None)"

lemma rfind_slash_less: "rfind_slash s = Some i \<Longrightarrow> i < length s"
  by (cases s) (auto simp: rfind_slash_def split: if_splits)

text \<open>
  The walk up to the root; \<open>None\<close> where the function returns in the middle, with its outputs as they were.
\<close>

function quota_loop :: "'k group_lib \<Rightarrow> string \<Rightarrow> ('k group_world, quota_out option) proc" where
  "quota_loop L path w =
     (case ControlGroup_getCpuQuotaRaw L path w of
        (Inl e, w) \<Rightarrow> (Inl e, w)
      | (Inr (cores, period, quota), w) \<Rightarrow>
          if quota > - 1 then (Inr None, w)
          else (case rfind_slash path of
              Some i \<Rightarrow> quota_loop L (take i path) w
            | None \<Rightarrow> if path = [] then (Inr (Some (cores, period, quota)), w) else quota_loop L [] w))"
  by pat_completeness auto
termination
  by (relation "measure (\<lambda>(L, path, w). length path)") (auto dest: rfind_slash_less)

declare quota_loop.simps [simp del]

definition ControlGroup_getCpuQuota :: "'k group_lib \<Rightarrow> string \<Rightarrow> quota_out \<Rightarrow> ('k group_world, quota_out) proc" where
  "ControlGroup_getCpuQuota L path out =
     bindp (quota_loop L (if take 1 path = ''/'' then drop 1 path else path)) (\<lambda>r.
       ret (case r of None \<Rightarrow> out | Some v \<Rightarrow> v))"

subsection \<open>Subgroups\<close>

definition ControlGroup_getFullGroupName :: "string \<Rightarrow> ('k group_world, string) proc" where
  "ControlGroup_getFullGroupName name =
     bindp (gets gw_group) (\<lambda>g. if gp_validBase g then ret (gp_baseGroup g @ ''/'' @ name) else runtime_error ''Invalid base group'')"

text \<open>
  The base group that is looked at is the one set before. Everything is tried on a group of its own, which is deleted
  again.
\<close>

definition ControlGroup_setBaseGroup :: "'k group_lib \<Rightarrow> string \<Rightarrow> ('k group_world, unit) proc" where
  "ControlGroup_setBaseGroup L baseGroup =
     bindp (gets gw_group) (\<lambda>g.
     seqp (check (gp_valid g) ''Invalid ControlGroup'')
     (bindp (ask (lg_new L (gp_baseGroup g))) (\<lambda>ok.
      seqp (check ok ''Couldn't create the group structure'')
      (bindp (ask (lg_get L (gp_baseGroup g))) (\<lambda>r. case r of
         Inl s \<Rightarrow> runtime_error (''There was a problem getting the c group: '' @ gp_baseGroup g @ '':'' @ lg_strerror L s)
       | Inr settings \<Rightarrow>
         seqp (group_controller ''cpu'' ''Can't get the c group for cpu'' settings)
         (bindp (group_controller ''memory'' ''Can't get the c group for memory'' settings) (\<lambda>c.
          bindp (group_value ''memory.use_hierarchy'' ''Couldn't get memory.use_hierarchy'' c) (\<lambda>h.
          seqp (grp (\<lambda>g. g\<lparr>gp_useHierarchy := h \<noteq> 0\<rparr>))
          (let path = baseGroup @ ''/test_group'' in
           seqp (ControlGroup_create L path 1048560 1048560 (1, 1) True)
           (seqp (ControlGroup_destroy L path)
           (grp (\<lambda>g. g\<lparr>gp_baseGroup := baseGroup, gp_validBase := True\<rparr>))))))))))))"

definition ControlGroup_createSubgroup :: "'k group_lib \<Rightarrow> string \<Rightarrow> u64 \<Rightarrow> u64 \<Rightarrow> int \<times> int \<Rightarrow> ('k group_world, unit) proc" where
  "ControlGroup_createSubgroup L name real swap cpu =
     bindp (ControlGroup_getFullGroupName name) (\<lambda>path.
     bindp (getg gp_useHierarchy) (\<lambda>h. ControlGroup_create L path real swap cpu (\<not> h)))"

definition ControlGroup_destroySubgroup :: "'k group_lib \<Rightarrow> string \<Rightarrow> ('k group_world, unit) proc" where
  "ControlGroup_destroySubgroup L name = bindp (ControlGroup_getFullGroupName name) (ControlGroup_destroy L)"

definition ControlGroup_addTaskSubgroup :: "'k group_lib \<Rightarrow> string \<Rightarrow> int \<Rightarrow> ('k group_world, unit) proc" where
  "ControlGroup_addTaskSubgroup L name pid = bindp (ControlGroup_getFullGroupName name) (\<lambda>path. ControlGroup_addTask L path pid)"

definition ControlGroup_addSelfSubgroup :: "'k group_lib \<Rightarrow> int \<Rightarrow> string \<Rightarrow> ('k group_world, unit) proc" where
  "ControlGroup_addSelfSubgroup L self name =
     bindp (getg gp_validBase) (\<lambda>ok. seqp (check ok ''Invalid base group'') (ControlGroup_addTaskSubgroup L name self))"

definition ControlGroup_changeMemoryLimitSubgroup :: "'k group_lib \<Rightarrow> u64 \<Rightarrow> string \<Rightarrow> u64 \<Rightarrow> u64 \<Rightarrow> ('k group_world, unit) proc" where
  "ControlGroup_changeMemoryLimitSubgroup L uninit name real swap =
     bindp (ControlGroup_getFullGroupName name) (\<lambda>path. ControlGroup_changeMemoryLimit L uninit path real swap)"

definition ControlGroup_getMemoryUsageSubgroup :: "'k group_lib \<Rightarrow> string \<Rightarrow> ('k group_world, u64 \<times> u64) proc" where
  "ControlGroup_getMemoryUsageSubgroup L name = bindp (ControlGroup_getFullGroupName name) (ControlGroup_getMemoryUsage L)"

definition ControlGroup_getMemoryStatsSubgroup ::
  "'k group_lib \<Rightarrow> string \<Rightarrow> memory_stats \<times> memory_stats \<Rightarrow> ('k group_world, memory_stats \<times> memory_stats) proc" where
  "ControlGroup_getMemoryStatsSubgroup L name stats =
     bindp (ControlGroup_getFullGroupName name) (\<lambda>path.
     bindp (ask (ControlGroup_getMemoryStats L path stats)) liftr)"

definition ControlGroup_changeCpuQuotaSubgroup :: "'k group_lib \<Rightarrow> string \<Rightarrow> int \<times> int \<Rightarrow> ('k group_world, unit) proc" where
  "ControlGroup_changeCpuQuotaSubgroup L name cpu =
     bindp (ControlGroup_getFullGroupName name) (\<lambda>path. ControlGroup_changeCpuQuota L path cpu)"

definition ControlGroup_getCpuQuotaSubgroup :: "'k group_lib \<Rightarrow> string \<Rightarrow> quota_out \<Rightarrow> ('k group_world, quota_out) proc" where
  "ControlGroup_getCpuQuotaSubgroup L name out =
     bindp (ControlGroup_getFullGroupName name) (\<lambda>path. ControlGroup_getCpuQuota L path out)"

definition ControlGroup_getCpuQuotaRawSubgroup :: "'k group_lib \<Rightarrow> string \<Rightarrow> ('k group_world, quota_out) proc" where
  "ControlGroup_getCpuQuotaRawSubgroup L name = bindp (ControlGroup_getFullGroupName name) (ControlGroup_getCpuQuotaRaw L)"

fun stripPrefix :: "string list \<Rightarrow> string \<Rightarrow> string list" where
  "stripPrefix [] p = []"
| "stripPrefix (g # gs) p =
     (if take (length p) g = p then drop (length p) g # stripPrefix gs p else stripPrefix gs p)"

definition ControlGroup_waitOomStatusSubgroup ::
  "'k group_lib \<Rightarrow> int \<Rightarrow> string list \<Rightarrow> ('k group_world, string list \<times> nat) proc" where
  "ControlGroup_waitOomStatusSubgroup L milliSeconds groups =
     bindp (gets gw_group) (\<lambda>g.
       if \<not> gp_validBase g then ret (groups, 0)
       else bindp (ControlGroup_waitOomStatus L milliSeconds groups) (\<lambda>(groups, _).
         let names = stripPrefix groups (gp_baseGroup g @ ''/'') in ret (names, length names)))"

definition ControlGroup_scanOomStatusSubgroup :: "'k group_lib \<Rightarrow> string list \<Rightarrow> ('k group_world, string list \<times> nat) proc" where
  "ControlGroup_scanOomStatusSubgroup L groups =
     bindp (gets gw_group) (\<lambda>g.
       if \<not> gp_validBase g then ret (groups, 1)
       else bindp (ControlGroup_scanOomStatus L) (\<lambda>groups.
         let names = stripPrefix groups (gp_baseGroup g @ ''/'') in ret (names, length names)))"

definition ControlGroup_monitorOomSubgroup :: "'k group_lib \<Rightarrow> int option \<Rightarrow> string \<Rightarrow> bool \<Rightarrow> ('k group_world, unit) proc" where
  "ControlGroup_monitorOomSubgroup L other name enable =
     bindp (ControlGroup_getFullGroupName name) (\<lambda>path. ControlGroup_monitorOom L other path enable)"

subsection \<open>The limits of a task\<close>

text \<open>
  The lines of \<^verbatim>\<open>/proc/<pid>/cgroup\<close>: the last character of each is cut off, whatever it is. A line without two colons
  is an error.
\<close>

fun file_lines :: "string \<Rightarrow> string list" where
  "file_lines [] = []"
| "file_lines (c # cs) =
     (if c = CHR 0x0A then [c] # file_lines cs
      else case file_lines cs of [] \<Rightarrow> [[c]] | l # ls \<Rightarrow>
        (c # l) # ls)"

definition cgroup_line :: "string \<Rightarrow> (string \<times> string) option" where
  "cgroup_line line =
     (let l = takeWhile (\<lambda>c. c \<noteq> CHR 0x00) (butlast line) in
      case str_find CHR '':'' l 0 of None \<Rightarrow> None | Some first \<Rightarrow>
     (case str_find CHR '':'' l (first + 1) of None \<Rightarrow> None | Some second \<Rightarrow>
        Some (take (second - first - 1) (drop (first + 1) l), drop (second + 1) l)))"

fun cgroup_paths :: "string list \<Rightarrow> string \<times> string \<Rightarrow> (string \<times> string) option" where
  "cgroup_paths [] p = Some p"
| "cgroup_paths (line # ls) (memory, cpu) =
     (case cgroup_line line of
        None \<Rightarrow> None
      | Some (controller, path) \<Rightarrow>
          cgroup_paths ls (if controller = ''memory'' then (path, cpu) else if controller = ''cpu'' then (memory, path) else (memory, cpu)))"

definition ControlGroup_getTaskLimits :: "'k group_lib \<Rightarrow> int \<Rightarrow> ('k group_world, u64 \<times> u64 \<times> quota_out) proc" where
  "ControlGroup_getTaskLimits L pid =
     (let path = ''/proc/'' @ show_int pid @ ''/cgroup'' in
      bindp (ask (lg_proc_cgroup L pid)) (\<lambda>file. case file of
        None \<Rightarrow> runtime_error ''Can't open the processes cgroup file''
      | Some content \<Rightarrow> (case cgroup_paths (file_lines content) ([], []) of
          None \<Rightarrow> runtime_error (''Error parsing '' @ path)
        | Some (memory, cpu) \<Rightarrow>
            seqp (check (memory \<noteq> [] \<and> cpu \<noteq> []) ''Couldn't get the cgroups paths'')
            (bindp (bindp (ask (ControlGroup_getMemoryStats L memory (MemoryStats_new, MemoryStats_new))) liftr) (\<lambda>(stats, _).
             bindp (ControlGroup_getCpuQuota L cpu ((- 1, 1), - 1, - 1)) (\<lambda>out.
             ret (ms_hierarchical_memory_limit stats, ms_hierarchical_memsw_limit stats, out)))))))"

subsection \<open>Members of a process group\<close>

text \<open>
  \<^verbatim>\<open>get_file_contents\<close> reads up to 512 characters into a buffer of that size and takes them as a C
  string, which must end inside it.
\<close>

definition get_file_contents :: "string option \<Rightarrow> exn + string" where
  "get_file_contents file =
     (case file of
        None \<Rightarrow> Inr []
      | Some content \<Rightarrow>
          (let buffer = take 512 content in
           if length buffer = 512 \<and> CHR 0x00 \<notin> set buffer then Inl (Undefined ''no end of the string'')
           else Inr (takeWhile (\<lambda>c. c \<noteq> CHR 0x00) buffer)))"

definition rfind_paren :: "string \<Rightarrow> nat option" where
  "rfind_paren s = (if CHR '')'' \<in> set s then Some (length s - 1 - length (takeWhile (\<lambda>c. c \<noteq> CHR '')'') (rev s))) else None)"

text \<open>
  \<^verbatim>\<open>atol\<close>, as an \<open>int\<close>; and the group in the status of a process: after the name in parentheses the
  state, the parent and the group.
\<close>

definition atol :: "string \<Rightarrow> int" where
  "atol s = (case scan_int s of None \<Rightarrow> 0 | Some (i, _) \<Rightarrow> sint (word_of_int i :: 32 word))"

definition stat_group :: "string \<Rightarrow> int option" where
  "stat_group line =
     (case rfind_paren line of None \<Rightarrow> None | Some i \<Rightarrow>
     (case str_find CHR 0x20 line (i + 4) of None \<Rightarrow> None | Some j \<Rightarrow>
     (case str_find CHR 0x20 line (j + 1) of None \<Rightarrow> None | Some l \<Rightarrow>
        Some (atol (take (l - (j + 1)) (drop (j + 1) line))))))"

text \<open>The entries of \<^verbatim>\<open>/proc\<close>, with the files; \<open>None\<close> when the directory cannot be opened.\<close>

fun count_members :: "int \<Rightarrow> (string \<times> string option) list \<Rightarrow> exn + nat" where
  "count_members pgid [] = Inr 0"
| "count_members pgid ((name, file) # es) =
     (if name = [] \<or> \<not> is_digit (hd name) then count_members pgid es
      else sbind (get_file_contents file) (\<lambda>line.
        sbind (count_members pgid es) (\<lambda>n.
          Inr (if line \<noteq> [] \<and> stat_group line = Some pgid then Suc n else n))))"

definition countProcessGroupMembers :: "(string \<times> string option) list option \<Rightarrow> int \<Rightarrow> exn + nat" where
  "countProcessGroupMembers proc pgid = (case proc of None \<Rightarrow> Inr 0 | Some es \<Rightarrow> count_members pgid es)"

definition doesProcessGroupHaveMembers :: "(string \<times> string option) list option \<Rightarrow> int \<Rightarrow> exn + bool" where
  "doesProcessGroupHaveMembers proc pgid = sbind (countProcessGroupMembers proc pgid) (\<lambda>n. Inr (n > 0))"

subsection \<open>Out of memory is never noticed\<close>

text \<open>
  The calls the process manager makes, which never switch the monitoring of a group on.
\<close>

inductive manager_call :: "'k group_lib \<Rightarrow> 'k group_world \<Rightarrow> 'k group_world \<Rightarrow> bool" for L where
  base: "ControlGroup_setBaseGroup L base w = (r, w') \<Longrightarrow> manager_call L w w'"
| create: "ControlGroup_createSubgroup L name real swap cpu w = (r, w') \<Longrightarrow> manager_call L w w'"
| self: "ControlGroup_addSelfSubgroup L pid name w = (r, w') \<Longrightarrow> manager_call L w w'"
| limit: "ControlGroup_changeMemoryLimitSubgroup L uninit name real swap w = (r, w') \<Longrightarrow> manager_call L w w'"
| destroy: "ControlGroup_destroySubgroup L name w = (r, w') \<Longrightarrow> manager_call L w w'"
| unmonitor: "ControlGroup_monitorOomSubgroup L other name False w = (r, w') \<Longrightarrow> manager_call L w w'"
| wait: "ControlGroup_waitOomStatusSubgroup L ms [] w = (r', w') \<Longrightarrow> manager_call L w w'"
| kernel: "manager_call L w (w\<lparr>gw_kernel := k\<rparr>)"

definition unmonitored :: "'k group_world \<Rightarrow> bool" where
  "unmonitored w \<longleftrightarrow> gp_oomFds (gw_group w) = []"

text \<open>An operation that leaves the table empty when it is.\<close>

definition stays_empty :: "('k group_world, 'a) proc \<Rightarrow> bool" where
  "stays_empty m \<longleftrightarrow> (\<forall>w. unmonitored w \<longrightarrow> unmonitored (snd (m w)))"

named_theorems empties

lemma stays_bindp [empties]:
  assumes "stays_empty m" and "\<And>a. stays_empty (f a)"
  shows "stays_empty (bindp m f)"
  using assms by (auto simp: stays_empty_def bindp_def split: prod.split sum.split)

lemma stays_seqp [empties]: "stays_empty m \<Longrightarrow> stays_empty n \<Longrightarrow> stays_empty (seqp m n)"
  by (simp add: seqp_def stays_bindp)

lemma stays_simple [empties]:
  "stays_empty (ret a)" "stays_empty (raise e)" "stays_empty (gets h)" "stays_empty (liftr r)" "stays_empty (sys f)" "stays_empty (ask g)"
  "stays_empty (kern k)" "stays_empty (getg p)" "stays_empty (runtime_error t)" "stays_empty (check b t)"
  "stays_empty (upd (\<lambda>w. w\<lparr>gw_initialized := i\<rparr>))"
  by (auto simp: stays_empty_def unmonitored_def ret_def raise_def gets_def liftr_def sys_def ask_def kern_def upd_def getg_def
      runtime_error_def check_def split: prod.split)

lemma stays_grp [empties]: "(\<And>g. gp_oomFds (f g) = gp_oomFds g) \<Longrightarrow> stays_empty (grp f)"
  by (simp add: stays_empty_def unmonitored_def grp_def)

lemma stays_remove [empties]: "stays_empty (grp (ControlGroup_removeOomFd name))"
  by (simp add: stays_empty_def unmonitored_def grp_def ControlGroup_removeOomFd_def map_erase_def)

lemma stays_split [empties]:
  "stays_empty m \<Longrightarrow> stays_empty n \<Longrightarrow> stays_empty (if b then m else n)"
  "(\<And>e. stays_empty (h e)) \<Longrightarrow> (\<And>a. stays_empty (k a)) \<Longrightarrow> stays_empty (case r of Inl e \<Rightarrow> h e | Inr a \<Rightarrow> k a)"
  "stays_empty m \<Longrightarrow> (\<And>a. stays_empty (k' a)) \<Longrightarrow> stays_empty (case v of None \<Rightarrow> m | Some a \<Rightarrow> k' a)"
  "(\<And>a b. stays_empty (f a b)) \<Longrightarrow> stays_empty (case p of (a, b) \<Rightarrow> f a b)"
  by (auto split: sum.split option.split prod.split)

lemma stays_scan [empties]: "stays_empty (ControlGroup_scanOomStatus L)"
  by (simp add: stays_empty_def ControlGroup_scanOomStatus_def)

lemma stays_lookups [empties]:
  "stays_empty (ControlGroup_getFullGroupName name)" "stays_empty (ControlGroup_getGroup L path)"
  "stays_empty (mount_point L c err)" "stays_empty (group_controller c m g)" "stays_empty (group_value v m' ws)"
  "stays_empty (modify L path c ws)"
  unfolding ControlGroup_getFullGroupName_def ControlGroup_getGroup_def mount_point_def group_controller_def group_value_def modify_def
  by (intro empties)+

lemma stays_create [empties]: "stays_empty (ControlGroup_create L path real swap cpu pause)"
  unfolding ControlGroup_create_def Let_def by (intro empties)

lemma stays_unmonitor [empties]: "stays_empty (ControlGroup_monitorOom L other path False)"
  unfolding ControlGroup_monitorOom_def by (simp, intro empties)

lemma stays_destroy [empties]: "stays_empty (ControlGroup_destroy L path)"
  unfolding ControlGroup_destroy_def by (intro empties)

lemma stays_calls:
  "stays_empty (ControlGroup_setBaseGroup L base)" "stays_empty (ControlGroup_createSubgroup L name real swap cpu)"
  "stays_empty (ControlGroup_addSelfSubgroup L pid name)" "stays_empty (ControlGroup_changeMemoryLimitSubgroup L uninit name real swap)"
  "stays_empty (ControlGroup_destroySubgroup L name)" "stays_empty (ControlGroup_monitorOomSubgroup L other name False)"
  "stays_empty (ControlGroup_waitOomStatusSubgroup L ms groups)"
  unfolding ControlGroup_setBaseGroup_def ControlGroup_createSubgroup_def ControlGroup_addSelfSubgroup_def ControlGroup_addTaskSubgroup_def
    ControlGroup_addTask_def ControlGroup_changeMemoryLimitSubgroup_def ControlGroup_changeMemoryLimit_def ControlGroup_destroySubgroup_def
    ControlGroup_monitorOomSubgroup_def ControlGroup_waitOomStatusSubgroup_def ControlGroup_waitOomStatus_def Let_def
  by (intro empties; simp)+

lemma stays_emptyD: "stays_empty m \<Longrightarrow> m w = (r, w') \<Longrightarrow> unmonitored w \<Longrightarrow> unmonitored w'"
  unfolding stays_empty_def by (metis snd_conv)

lemma stays_after_init: "stays_empty m \<Longrightarrow> unmonitored (snd (seqp (grp (\<lambda>_. ControlGroup_init)) m w))"
  by (simp add: stays_empty_def seqp_def bindp_def grp_def unmonitored_def ControlGroup_init_def)

lemma new_unmonitored:
  assumes "ControlGroup_new L w0 = (r, w)"
  shows "unmonitored w"
proof -
  have "unmonitored (snd (ControlGroup_new L w0))"
    unfolding ControlGroup_new_def by (rule stays_after_init) (intro empties; simp)
  then show ?thesis using assms by simp
qed

lemma call_unmonitored: "manager_call L w w' \<Longrightarrow> unmonitored w \<Longrightarrow> unmonitored w'"
  by (induction rule: manager_call.induct)
    ((rule stays_calls [THEN stays_emptyD], assumption, assumption) | simp add: unmonitored_def)+

lemma manager_unmonitored: "(manager_call L)\<^sup>*\<^sup>* w w' \<Longrightarrow> unmonitored w \<Longrightarrow> unmonitored w'"
  by (induction rule: rtranclp_induct) (auto intro: call_unmonitored)

lemma wait_unmonitored:
  assumes "unmonitored w" and "ControlGroup_waitOomStatusSubgroup L ms [] w = (Inr r, w')"
  shows "r = ([], 0)"
  using assms
  by (auto simp: ControlGroup_waitOomStatusSubgroup_def ControlGroup_waitOomStatus_def ControlGroup_scanOomStatus_def unmonitored_def
      getg_def grp_def sys_def bindp_def seqp_def runtime_error_def Let_def split: prod.splits if_splits)


subsection \<open>Quotas\<close>

lemma quota_raw_result:
  assumes "ControlGroup_getCpuQuotaRaw L path w = (Inr (cores, period, quota), w')" and "quota < 0"
  shows "cores = (- 1, 1)"
  using assms
  by (auto simp: ControlGroup_getCpuQuotaRaw_def group_value_def bindp_def ret_def split: prod.splits sum.splits option.splits if_splits)

lemma quota_loop_result:
  "quota_loop L path w = (Inr (Some (cores, period, quota)), w') \<Longrightarrow> cores = (- 1, 1) \<and> quota < 0"
proof (induction L path w rule: quota_loop.induct)
  case (1 L path w)
  obtain x v where raw: "ControlGroup_getCpuQuotaRaw L path w = (x, v)" by fastforce
  note run = "1.prems" [unfolded quota_loop.simps [of L path w] raw]
  then obtain c p q where x: "x = Inr (c, p, q)" and q: "\<not> - 1 < q"
    by (auto split: sum.splits prod.splits if_splits)
  show ?case
  proof (cases "rfind_slash path")
    case (Some i)
    then show ?thesis using "1.IH"(2) [OF raw [symmetric] x refl refl q Some] run x q by simp
  next
    case None
    then show ?thesis
      using "1.IH"(1) [OF raw [symmetric] x refl refl q None] run x q raw quota_raw_result [of L path w c p q v]
      by (cases "path = []") auto
  qed
qed

text \<open>
  C38 (error). The search for the processor quota that holds for a task returns, when it finds one, before it
  stores it: a task is only ever reported to have no limit, whatever its groups say.
\<close>

theorem cpu_quota_never_reported:
  assumes "ControlGroup_getTaskLimits L pid w = (Inr (real, swap, cores, period, quota), w')"
  shows "cores = (- 1, 1) \<and> quota < 0"
proof -
  have "cores = (- 1, 1) \<and> quota < 0"
    if "ControlGroup_getCpuQuota L cpu ((- 1, 1), - 1, - 1) v = (Inr (cores, period, quota), v')" for cpu v v' cores period quota
    using that quota_loop_result
    by (auto simp: ControlGroup_getCpuQuota_def bindp_def ret_def split: prod.splits sum.splits option.splits) blast+
  then show ?thesis
    using assms
    by (auto simp: ControlGroup_getTaskLimits_def Let_def bindp_def seqp_def ret_def runtime_error_def split: prod.splits sum.splits option.splits)
qed

subsection \<open>The order of the limits\<close>

text \<open>The kernel takes the settings one after the other, and refuses a limit of memory above the one of memory and swap.\<close>

fun write_limits :: "(string \<times> int) list \<Rightarrow> int \<times> int \<Rightarrow> (int \<times> int) option" where
  "write_limits [] l = Some l"
| "write_limits ((name, v) # s) (real, swap) =
     (if name = ''memory.limit_in_bytes'' then (if v \<le> swap then write_limits s (v, swap) else None)
      else if name = ''memory.memsw.limit_in_bytes'' then (if real \<le> v then write_limits s (real, v) else None)
      else None)"

lemma limit_settings_written:
  assumes "fst l \<le> snd l" and "0 \<le> snd l" and "snd l < 2 ^ 64" and "real \<le> swap"
  shows "write_limits (limit_settings (word_of_int (snd l)) real swap) l = Some (uint real, uint swap)"
proof -
  have u: "uint (word_of_int (snd l) :: u64) = snd l" using assms(2,3) by (simp add: uint_word_of_int)
  show ?thesis
    using assms(1,4) u by (cases l) (auto simp: limit_settings_def word_less_def word_le_def)
qed

text \<open>
  C39 (functional). Changing the memory limits of a group up or down writes the two limits in an order in
  which the kernel accepts both, and leaves the new ones.
\<close>

theorem memory_limits_accepted:
  assumes group_read: "lg_get L path (gw_kernel w) = Inr g" "map_of g ''memory'' = Some c"
      "map_of c ''memory.memsw.limit_in_bytes'' = Some (snd l)"
    and allocated: "lg_new L path (gw_kernel w)" "lg_add L ''memory'' (gw_kernel w)"
    and written: "\<And>s. lg_modify L path [(''memory'', s)] (gw_kernel w) =
      (case write_limits s l of None \<Rightarrow> (22, gw_kernel w) | Some l' \<Rightarrow> (0, put l'))"
    and old: "fst l \<le> snd l" "0 \<le> snd l" "snd l < 2 ^ 64" and new: "real \<le> swap"
  shows "ControlGroup_changeMemoryLimit L uninit path real swap w = (Inr (), w\<lparr>gw_kernel := put (uint real, uint swap)\<rparr>)"
  using assms limit_settings_written [OF old new]
  by (simp add: ControlGroup_changeMemoryLimit_def ControlGroup_getGroup_def group_controller_def modify_def ask_def sys_def check_def
      bindp_def seqp_def Let_def)

subsection \<open>The status of a process\<close>

lemma find_last:
  assumes "c \<notin> set b"
  shows "length (a @ c # b) - 1 - length (takeWhile (\<lambda>x. x \<noteq> c) (rev (a @ c # b))) = length a"
proof -
  have "takeWhile (\<lambda>x. x \<noteq> c) (rev (a @ c # b)) = rev b"
    using assms by (simp add: takeWhile_append)
  then show ?thesis by simp
qed

lemma find_next:
  assumes "c \<notin> set b"
  shows "str_find c (a @ b @ c # r) (length a) = Some (length a + length b)"
proof -
  have "takeWhile (\<lambda>x. x \<noteq> c) (b @ c # r) = b" using assms by (simp add: takeWhile_append)
  then show ?thesis by (simp add: str_find_def)
qed

lemma show_int_chars: "c \<in> set (show_int i) \<Longrightarrow> c = CHR ''-'' \<or> is_digit c"
  by (auto simp: show_int_def dest: show_nat_digits split: if_splits)

lemma scan_show_int: "scan_int (show_int i) = Some (i, [])"
proof -
  have n: "takeWhile is_digit (show_nat n) = show_nat n" "dropWhile is_digit (show_nat n) = []" for n
    using span_digits [of "[]" n] by (simp_all add: stops_def)
  obtain d ds where d: "show_nat (nat i) = d # ds" by (cases "show_nat (nat i)") simp_all
  have dd: "is_digit d" using hd_show_nat [of "nat i"] d by simp
  then have c: "\<not> c_space d" "d \<noteq> CHR ''-''" "d \<noteq> CHR ''+''" "\<not> c_space CHR ''-''" by (auto simp: is_digit_def c_space_def)
  show ?thesis
  proof (cases "i < 0")
    case True
    then show ?thesis using c(4) by (simp add: scan_int_def show_int_def n del: takeWhile_eq_all_conv)
  next
    case False
    then show ?thesis
      using n(1) [of "nat i", unfolded d] n(2) [of "nat i", unfolded d] c dd d parse_digits_show_nat [of "nat i"]
      by (simp add: scan_int_def show_int_def Let_def takeWhile_eq_all_conv [THEN iffD2])
  qed
qed

text \<open>
  C40 (roundtrip). The group of a process is read from its line of status whatever the name of the program
  is, with blanks and parentheses in it.
\<close>

theorem stat_group_reads:
  assumes "CHR '')'' \<notin> set rest" and "- (2 ^ 31) \<le> pgid" and "pgid < 2 ^ 31" and "state \<noteq> CHR '')''"
  shows "stat_group (show_int pid @ '' ('' @ name @ '') '' @ [state] @ '' '' @ show_int ppid @ '' '' @ show_int pgid @ '' '' @ rest) = Some pgid"
proof -
  let ?a = "show_int pid @ '' ('' @ name"
  let ?b = "'' '' @ [state] @ '' ''"
  let ?h = "?a @ CHR '')'' # ?b @ show_int ppid @ [CHR 0x20]"
  let ?line = "?a @ CHR '')'' # ?b @ show_int ppid @ CHR 0x20 # show_int pgid @ CHR 0x20 # rest"
  have p: "CHR '')'' \<notin> set (show_int i)" "CHR 0x20 \<notin> set (show_int i)" for i
    using show_int_chars [of _ i] by (fastforce simp: is_digit_def)+
  have r: "rfind_paren ?line = Some (length ?a)"
    using find_last [of "CHR '')''" "?b @ show_int ppid @ CHR 0x20 # show_int pgid @ CHR 0x20 # rest" ?a] p assms(1,4)
    by (simp add: rfind_paren_def)
  have f1: "str_find CHR 0x20 ?line (length ?a + 4) = Some (length ?a + 4 + length (show_int ppid))"
    using find_next [OF p(2), of "?a @ CHR '')'' # ?b" ppid "show_int pgid @ CHR 0x20 # rest"] by (simp add: eval_nat_numeral)
  have f2: "str_find CHR 0x20 ?line (length ?a + 4 + length (show_int ppid) + 1) =
      Some (length ?a + 4 + length (show_int ppid) + 1 + length (show_int pgid))"
    using find_next [OF p(2), of "?a @ CHR '')'' # ?b @ show_int ppid @ [CHR 0x20]" pgid rest] by (simp add: eval_nat_numeral add.assoc)
  have "drop (length ?h) (?h @ show_int pgid @ CHR 0x20 # rest) = show_int pgid @ CHR 0x20 # rest"
    by (rule append_eq_conv_conj [THEN iffD1, THEN conjunct2, symmetric, OF refl])
  then have d: "take (length (show_int pgid)) (drop (length ?a + 4 + length (show_int ppid) + 1) ?line) = show_int pgid"
    by (simp add: eval_nat_numeral)
  have "sint (word_of_int pgid :: 32 word) = pgid"
    using assms(2,3) by (simp add: sint_32_of_int)
  then have "stat_group ?line = Some pgid"
    using r f1 f2 d scan_show_int [of pgid] by (simp add: stat_group_def atol_def)
  then show ?thesis by simp
qed

subsection \<open>Examples\<close>

text \<open>A kernel that keeps the two memory limits, with one group that is always out of memory and may use two cores.\<close>

definition sample_group_lib :: "(int \<times> int) group_lib" where
  "sample_group_lib =
     \<lparr>lg_init = (\<lambda>k. (0, k)), lg_mount = (\<lambda>c k. Inr (''/sys/fs/cgroup/'' @ c)), lg_new = (\<lambda>_ _. True),
      lg_get = (\<lambda>_ k. Inr [(''cpu'', [(''cpu.cfs_period_us'', 100000), (''cpu.cfs_quota_us'', 200000)]),
        (''memory'', [(''memory.limit_in_bytes'', fst k), (''memory.memsw.limit_in_bytes'', snd k), (''memory.use_hierarchy'', 0)])]),
      lg_add = (\<lambda>_ _. True), lg_create = (\<lambda>_ _ k. (0, k)),
      lg_modify = (\<lambda>_ s k. case write_limits (snd (hd s)) k of None \<Rightarrow> (22, k) | Some l \<Rightarrow> (0, l)),
      lg_attach = (\<lambda>_ _ k. (0, k)), lg_tasks = (\<lambda>_ _ _. ECGEOF),
      lg_stats = (\<lambda>_ k. Some ((''cache'', ''4096''), [(''hierarchical_memory_limit'', ''1048576'')])),
      lg_strerror = (\<lambda>_. ''error''), lg_open = (\<lambda>_ k. (5, k)), lg_close = (\<lambda>_ k. k), lg_write = (\<lambda>_ _ k. k),
      lg_read = (\<lambda>_ _ _. Some (''oom_kill_disable 1'' @ [CHR 0x0A] @ ''under_oom 1'')), lg_rmdir = (\<lambda>_ k. k),
      lg_eventfd = (\<lambda>k. (4, k)), lg_poll = (\<lambda>_ _ k. (1, k)), lg_event = (\<lambda>_ k. ((8, 1), k)),
      lg_proc_cgroup = (\<lambda>_ _. Some (''4:memory:/arras/c'' @ [CHR 0x0A] @ ''3:cpu:/arras/c'' @ [CHR 0x0A]))\<rparr>"

definition sample_group_world :: "(int \<times> int) group_world" where
  "sample_group_world = \<lparr>gw_group = ControlGroup_init, gw_kernel = (1048576, 1048576), gw_initialized = False\<rparr>"

lemma sample_group_calls [simp]:
  "lg_init sample_group_lib k = (0, k)" "lg_mount sample_group_lib c k = Inr (''/sys/fs/cgroup/'' @ c)" "lg_new sample_group_lib p k"
  "lg_get sample_group_lib p k = Inr [(''cpu'', [(''cpu.cfs_period_us'', 100000), (''cpu.cfs_quota_us'', 200000)]),
     (''memory'', [(''memory.limit_in_bytes'', fst k), (''memory.memsw.limit_in_bytes'', snd k), (''memory.use_hierarchy'', 0)])]"
  "lg_add sample_group_lib c k" "lg_create sample_group_lib p s k = (0, k)"
  "lg_modify sample_group_lib p s k = (case write_limits (snd (hd s)) k of None \<Rightarrow> (22, k) | Some l \<Rightarrow> (0, l))"
  "lg_tasks sample_group_lib p c k = ECGEOF"
  "lg_stats sample_group_lib p k = Some ((''cache'', ''4096''), [(''hierarchical_memory_limit'', ''1048576'')])"
  "lg_read sample_group_lib fd n k = Some (''oom_kill_disable 1'' @ [CHR 0x0A] @ ''under_oom 1'')" "lg_rmdir sample_group_lib p k = k"
  "lg_eventfd sample_group_lib k = (4, k)" "lg_poll sample_group_lib fd ms k = (1, k)" "lg_event sample_group_lib fd k = ((8, 1), k)"
  "lg_proc_cgroup sample_group_lib pid k = Some (''4:memory:/arras/c'' @ [CHR 0x0A] @ ''3:cpu:/arras/c'' @ [CHR 0x0A])"
  by (simp_all add: sample_group_lib_def)

theorem cpu_quota_never_reported_witness:
  "\<exists>real swap cores period quota. ControlGroup_getTaskLimits sample_group_lib 7 sample_group_world =
      (Inr (real, swap, cores, period, quota), sample_group_world) \<and> cores = (- 1, 1) \<and> quota < 0 \<and> real = 1048576 \<and>
    ControlGroup_getCpuQuotaRaw sample_group_lib ''arras/c'' sample_group_world = (Inr ((200000, 100000), 100000, 200000), sample_group_world)"
proof -
  have raw: "ControlGroup_getCpuQuotaRaw sample_group_lib path sample_group_world = (Inr ((200000, 100000), 100000, 200000), sample_group_world)" for path
    by (simp add: ControlGroup_getCpuQuotaRaw_def ControlGroup_getGroup_def group_controller_def group_value_def ask_def check_def bindp_def
        seqp_def)
  have "cgroup_paths (file_lines (''4:memory:/arras/c'' @ [CHR 0x0A] @ ''3:cpu:/arras/c'' @ [CHR 0x0A])) ([], []) = Some (''/arras/c'', ''/arras/c'')"
    by (simp add: cgroup_line_def str_find_def)
  moreover have "read_stats [(''cache'', ''4096''), (''hierarchical_memory_limit'', ''1048576'')] (MemoryStats_new, MemoryStats_new) =
      Inr (MemoryStats_new\<lparr>ms_cache := 4096, ms_hierarchical_memory_limit := 1048576\<rparr>, MemoryStats_new\<lparr>ms_cache := 4096, ms_hierarchical_memory_limit := 1048576\<rparr>)"
    by (simp add: parseMemStatEntry_def set_stat_def stoul_def strtoul_scan_def c_space_def is_digit_def parse_digits_def)
  ultimately have "\<exists>swap cores period quota. ControlGroup_getTaskLimits sample_group_lib 7 sample_group_world =
      (Inr (1048576, swap, cores, period, quota), sample_group_world)"
    by (simp add: ControlGroup_getTaskLimits_def ControlGroup_getMemoryStats_def ControlGroup_getCpuQuota_def quota_loop.simps [of sample_group_lib] raw
        ask_def check_def bindp_def seqp_def Let_def)
  then show ?thesis using raw [of "''arras/c''"] cpu_quota_never_reported [of sample_group_lib 7 sample_group_world] by blast
qed

theorem memory_limits_accepted_witness:
  "ControlGroup_changeMemoryLimit sample_group_lib 0 ''arras/c'' 2097152 4194304 sample_group_world =
     (Inr (), sample_group_world\<lparr>gw_kernel := (2097152, 4194304)\<rparr>)"
proof -
  have "ControlGroup_changeMemoryLimit sample_group_lib 0 ''arras/c'' 2097152 4194304 sample_group_world =
      (Inr (), sample_group_world\<lparr>gw_kernel := id (uint (2097152 :: u64), uint (4194304 :: u64))\<rparr>)"
    by (rule memory_limits_accepted [where l = "(1048576, 1048576)" and
          g = "[(''cpu'', [(''cpu.cfs_period_us'', 100000), (''cpu.cfs_quota_us'', 200000)]), (''memory'', [(''memory.limit_in_bytes'', 1048576),
          (''memory.memsw.limit_in_bytes'', 1048576), (''memory.use_hierarchy'', 0)])]" and c = "[(''memory.limit_in_bytes'', 1048576),
          (''memory.memsw.limit_in_bytes'', 1048576), (''memory.use_hierarchy'', 0)]"])
      (simp_all add: sample_group_world_def split: option.split)
  then show ?thesis by simp
qed


theorem stat_group_reads_witness:
  "stat_group ''42 (sh (a) b) S 7 1234 42'' = Some 1234"
proof -
  have "show_int 42 = ''42''" "show_int 7 = ''7''" "show_int 1234 = ''1234''"
    by code_simp+
  then show ?thesis using stat_group_reads [of "''42''" 1234 "CHR ''S''" 42 "''sh (a) b''" 7] by simp
qed

end
