(* ===== verification/Http_Client.thy ===== *)
theory Http_Client
  imports MultiBuffers Local_Sessions
begin

text \<open>
  \<^verbatim>\<open>arras4_network/lib/http\<close>: requests and responses over libcurl. The library is the record \<open>curl_lib\<close>. A transfer
  is what it hands to the callbacks, line by line of the header and piece by piece of the body, and the status it
  ends with; what it takes from the request is collected in \<open>http_call\<close>. The body of a request is read through
  \<open>read_callback\<close>, in pieces of the sizes \<open>cu_pieces\<close>, once: a body that is sent again after \<open>seek_callback\<close> is the same one.
  A request has less than 2 GB.
\<close>

subsection \<open>Headers\<close>

text \<open>
  A map whose keys are compared by \<^verbatim>\<open>strcasecmp\<close>, up to the first null character: an entry is found under its
  folded key and has the key it was made with.
\<close>

type_synonym headers = "(string, string \<times> string) stdmap"

definition folded :: "string \<Rightarrow> string" where
  "folded k = to_lower (takeWhile (\<lambda>c. c \<noteq> CHR 0x00) k)"

definition headers_set :: "string \<Rightarrow> string \<Rightarrow> headers \<Rightarrow> headers" where
  "headers_set k v m = map_set (folded k) (case map_of m (folded k) of None \<Rightarrow> (k, v) | Some (k', _) \<Rightarrow> (k', v)) m"

definition headers_insert :: "string \<Rightarrow> string \<Rightarrow> headers \<Rightarrow> headers" where
  "headers_insert k v = map_insert (folded k) (k, v)"

definition headers_get :: "headers \<Rightarrow> string \<Rightarrow> string option" where
  "headers_get m k = map_option snd (map_of m (folded k))"

subsection \<open>HttpResponse\<close>

record http_response =
  hr_headers :: headers
  hr_data :: "buffer option"
  hr_code :: int
  hr_desc :: string

definition HttpResponse_new :: http_response where
  "HttpResponse_new = \<lparr>hr_headers = [], hr_data = None, hr_code = HTTP_OK, hr_desc = []\<rparr>"

definition HttpResponse_header :: "http_response \<Rightarrow> string \<Rightarrow> exn + string" where
  "HttpResponse_header r h =
     (case headers_get (hr_headers r) h of
        None \<Rightarrow> Inl (InvalidParameterError (''Header '' @ in_quotes h @ '' not found in response''))
      | Some v \<Rightarrow> Inr v)"

definition HttpResponse_reset :: "http_response \<Rightarrow> http_response" where
  "HttpResponse_reset r = r\<lparr>hr_data := None, hr_code := HTTP_OK, hr_desc := [], hr_headers := []\<rparr>"

definition HttpResponse_allocResponseData :: "(nat \<Rightarrow> byte list option) \<Rightarrow> nat \<Rightarrow> (http_response, unit) proc" where
  "HttpResponse_allocResponseData alloc len r =
     (case alloc len of
        None \<Rightarrow> (Inl (StdException ''std::bad_alloc''), r)
      | Some mem \<Rightarrow> (Inr (), r\<lparr>hr_data := Some (Buffer_new mem)\<rparr>))"

definition HttpResponse_setResponseStatus :: "int \<Rightarrow> string \<Rightarrow> http_response \<Rightarrow> http_response" where
  "HttpResponse_setResponseStatus code desc r = r\<lparr>hr_code := code, hr_desc := desc\<rparr>"

text \<open>The text is left as it was when there is no data.\<close>

definition HttpResponse_getResponseString :: "http_response \<Rightarrow> string \<Rightarrow> bool \<times> string" where
  "HttpResponse_getResponseString r out =
     (case hr_data r of None \<Rightarrow> (False, out) | Some b \<Rightarrow> (True, bytes_string (Buffer_copyIntoString b)))"

definition HttpResponse_addHeader :: "string \<Rightarrow> string \<Rightarrow> http_response \<Rightarrow> http_response" where
  "HttpResponse_addHeader h v r = r\<lparr>hr_headers := headers_set h v (hr_headers r)\<rparr>"

subsection \<open>The callbacks\<close>

definition read_callback :: "nat \<Rightarrow> buffer \<Rightarrow> byte list \<times> buffer" where
  "read_callback = Buffer_read"

definition seek_callback :: "nat \<Rightarrow> buffer \<Rightarrow> int \<times> buffer" where
  "seek_callback off b = (0, snd (Buffer_seek off b))"

definition write_callback :: "(nat \<Rightarrow> byte list option) \<Rightarrow> byte list \<Rightarrow> (multibuffer, nat) proc" where
  "write_callback alloc d = (if d \<noteq> [] then MultiBuffer_write alloc d else ret 0)"

text \<open>
  A line of the header: up to the colon the key, then, after blanks, the value up to a carriage return or line
  feed. If there is nothing but blanks, they are the value.
\<close>

definition header_value :: "string \<Rightarrow> string" where
  "header_value rest =
     (let s = dropWhile (\<lambda>c. c = CHR 0x20) rest in
      if s = [] then rest else takeWhile (\<lambda>c. c \<noteq> CHR 0x0D \<and> c \<noteq> CHR 0x0A) s)"

definition header_callback :: "string \<Rightarrow> http_response \<Rightarrow> http_response" where
  "header_callback line r =
     (case str_find CHR '':'' line 0 of
        None \<Rightarrow> r
      | Some pos \<Rightarrow> HttpResponse_addHeader (take pos line) (header_value (drop (pos + 1) line)) r)"

subsection \<open>HttpRequest\<close>

datatype http_content_type = TEXT_PLAIN | TEXT_XML | TEXT_HTML | APPLICATION_JSON | APPLICATION_FORM_URL_ENCODED
  | APPLICATION_OCTET_STREAM | IMAGE_PNG

primrec sContentType :: "http_content_type \<Rightarrow> string" where
  "sContentType TEXT_PLAIN = ''text/plain''"
| "sContentType TEXT_XML = ''text/xml''"
| "sContentType TEXT_HTML = ''text/html''"
| "sContentType APPLICATION_JSON = ''application/json''"
| "sContentType APPLICATION_FORM_URL_ENCODED = ''application/x-www-form-urlencoded''"
| "sContentType APPLICATION_OCTET_STREAM = ''application/octet-stream''"
| "sContentType IMAGE_PNG = ''image/png''"

primrec sMethods :: "http_method \<Rightarrow> string" where
  "sMethods GET = ''GET''"
| "sMethods POST = ''POST''"
| "sMethods PUT = ''PUT''"
| "sMethods HTTPDELETE = ''DELETE''"
| "sMethods OPTIONS = ''OPTIONS''"
| "sMethods PUT_MULTIPART = ''PUT''"

record http_request =
  hq_url :: string
  hq_userAgent :: string
  hq_response :: http_response
  hq_method :: http_method
  hq_contentType :: http_content_type
  hq_params :: "(string \<times> string) list"
  hq_headers :: headers
  hq_verifyServerCert :: bool

record http_call =
  hc_url :: string
  hc_method :: string
  hc_timeout :: int
  hc_verify :: bool
  hc_headers :: "string list"
  hc_body :: "byte list option"

datatype curl_event = HeaderLine string | BodyPiece "byte list"

record curl_lib =
  cu_init :: bool
  cu_escape :: "string \<Rightarrow> string option"
  cu_pieces :: "nat \<Rightarrow> nat list"
  cu_perform :: "http_call \<Rightarrow> curl_event list \<times> int \<times> int"
  cu_strerror :: "int \<Rightarrow> string"

definition CURLE_OK :: int where "CURLE_OK = 0"

definition HttpRequest_new :: "curl_lib \<Rightarrow> string \<Rightarrow> http_method \<Rightarrow> exn + http_request" where
  "HttpRequest_new C url m =
     (if \<not> cu_init C then Inl (HttpException ''Unable to initialize Curl'')
      else Inr \<lparr>hq_url = url, hq_userAgent = ''Arras Curl'', hq_response = HttpResponse_new, hq_method = m,
        hq_contentType = TEXT_PLAIN, hq_params = [], hq_headers = [], hq_verifyServerCert = True\<rparr>)"

text \<open>\<open>emplace\<close> into a multimap: behind the entries whose keys are not greater.\<close>

definition HttpRequest_addParam :: "string \<Rightarrow> string \<Rightarrow> http_request \<Rightarrow> http_request" where
  "HttpRequest_addParam k v q =
     q\<lparr>hq_params := takeWhile (\<lambda>(k', _). k' \<le> k) (hq_params q) @ (k, v) # dropWhile (\<lambda>(k', _). k' \<le> k) (hq_params q)\<rparr>"

definition HttpRequest_addHeader :: "string \<Rightarrow> string \<Rightarrow> http_request \<Rightarrow> http_request" where
  "HttpRequest_addHeader h v q = q\<lparr>hq_headers := headers_set h v (hq_headers q)\<rparr>"

definition HttpRequest_cleanup :: "http_request \<Rightarrow> http_request" where
  "HttpRequest_cleanup q = q\<lparr>hq_headers := [], hq_params := [], hq_contentType := TEXT_PLAIN\<rparr>"

definition escapeString :: "curl_lib \<Rightarrow> string \<Rightarrow> exn + string" where
  "escapeString C s = (case cu_escape C s of None \<Rightarrow> Inl (HttpException ''Can not escape input argument'') | Some t \<Rightarrow> Inr t)"

fun param_data :: "curl_lib \<Rightarrow> string \<Rightarrow> (string \<times> string) list \<Rightarrow> exn + string" where
  "param_data C sep [] = Inr []"
| "param_data C sep ((k, v) # ps) =
     sbind (escapeString C k) (\<lambda>k. sbind (escapeString C v) (\<lambda>v. sbind (param_data C ''&'' ps) (\<lambda>s.
       Inr (sep @ k @ ''='' @ v @ s))))"

definition HttpRequest_getParamString :: "curl_lib \<Rightarrow> http_request \<Rightarrow> exn + string" where
  "HttpRequest_getParamString C q = sbind (param_data C ''?'' (hq_params q)) (\<lambda>s. Inr (hq_url q @ s))"

text \<open>What the library reads of the body.\<close>

fun read_pieces :: "nat list \<Rightarrow> buffer \<Rightarrow> byte list" where
  "read_pieces [] b = []"
| "read_pieces (n # ns) b = (case read_callback n b of (d, b') \<Rightarrow> d @ read_pieces ns b')"

text \<open>
  The first half of \<open>submit\<close>: setting up the transfer. The user agent and the type of the content are inserted into
  the headers, which changes nothing when there is one already.
\<close>

definition HttpRequest_prepare :: "curl_lib \<Rightarrow> byte list option \<Rightarrow> int \<Rightarrow> (http_request, http_call) proc" where
  "HttpRequest_prepare C data timeout =
     seqp (upd (\<lambda>q. q\<lparr>hq_response := HttpResponse_reset (hq_response q)\<rparr>))
     (bindp (\<lambda>q. (HttpRequest_getParamString C q, q)) (\<lambda>url.
      seqp (upd (\<lambda>q. q\<lparr>hq_headers := headers_insert ''User-Agent'' (hq_userAgent q) (hq_headers q)\<rparr>))
      (bindp (gets hq_method) (\<lambda>m.
       if m = PUT_MULTIPART then raise (HttpException ''multipart PUT is not supported'')
       else bindp
         (if m = POST \<or> m = PUT
          then (case data of
             None \<Rightarrow> raise (HttpException ''POST/PUT without data'')
           | Some d \<Rightarrow>
               seqp (upd (\<lambda>q. q\<lparr>hq_headers := headers_insert ''Content-Type'' (sContentType (hq_contentType q)) (hq_headers q)\<rparr>))
               (ret (Some (read_pieces (cu_pieces C (length d)) (Buffer_wrap d (length d))))))
          else ret None) (\<lambda>body.
         gets (\<lambda>q. \<lparr>hc_url = url, hc_method = sMethods m, hc_timeout = timeout, hc_verify = hq_verifyServerCert q,
           hc_headers = map (\<lambda>(_, k, v). k @ '': '' @ v) (hq_headers q), hc_body = body\<rparr>))))))"

text \<open>The second half: the transfer, which fills a buffer of the response.\<close>

primrec curl_event_run :: "(nat \<Rightarrow> byte list option) \<Rightarrow> curl_event \<Rightarrow> (http_response \<times> multibuffer, unit) proc" where
  "curl_event_run alloc (HeaderLine line) = upd (\<lambda>(r, mb). (header_callback line r, mb))"
| "curl_event_run alloc (BodyPiece d) = (\<lambda>(r, mb). case write_callback alloc d mb of
     (Inl e, mb) \<Rightarrow> (Inl e, (r, mb)) | (Inr _, mb) \<Rightarrow> (Inr (), (r, mb)))"

definition collect_response :: "(nat \<Rightarrow> byte list option) \<Rightarrow> multibuffer \<Rightarrow> (http_response, unit) proc" where
  "collect_response alloc mb =
     (if mb_bytesWritten mb = 0 then ret ()
      else seqp (HttpResponse_allocResponseData alloc (mb_bytesWritten mb))
        (\<lambda>r. case hr_data r of
           None \<Rightarrow> (Inr (), r)
         | Some b \<Rightarrow> (case MultiBuffer_collect mb b of (x, b) \<Rightarrow> (x, r\<lparr>hr_data := Some b\<rparr>))))"

definition HttpRequest_transfer :: "(nat \<Rightarrow> byte list option) \<Rightarrow> curl_lib \<Rightarrow> http_call \<Rightarrow> (http_request, unit) proc" where
  "HttpRequest_transfer alloc C hc q =
     (case cu_perform C hc of (events, res, code) \<Rightarrow>
      case forp events (curl_event_run alloc) (hq_response q, MultiBuffer_new INITIAL_BUFFER_SIZE LINEAR_BUFFER_SIZE) of
        (Inl e, (r, _)) \<Rightarrow> (Inl e, q\<lparr>hq_response := r\<rparr>)
      | (Inr _, (r, mb)) \<Rightarrow>
          if res \<noteq> CURLE_OK then (Inl (HttpException (cu_strerror C res)), q\<lparr>hq_response := r\<rparr>)
          else (case seqp (collect_response alloc mb) (upd (HttpResponse_setResponseStatus code [])) r of
            (x, r) \<Rightarrow> (x, q\<lparr>hq_response := r\<rparr>)))"

definition HttpRequest_submit ::
  "(nat \<Rightarrow> byte list option) \<Rightarrow> curl_lib \<Rightarrow> byte list option \<Rightarrow> int \<Rightarrow> (http_request, http_response) proc" where
  "HttpRequest_submit alloc C data timeout =
     bindp (HttpRequest_prepare C data timeout) (\<lambda>hc.
     seqp (HttpRequest_transfer alloc C hc) (gets hq_response))"

text \<open>A string is sent with the null character that ends it.\<close>

definition HttpRequest_submit_string ::
  "(nat \<Rightarrow> byte list option) \<Rightarrow> curl_lib \<Rightarrow> string \<Rightarrow> int \<Rightarrow> (http_request, http_response) proc" where
  "HttpRequest_submit_string alloc C s timeout = HttpRequest_submit alloc C (Some (string_bytes s @ [0])) timeout"

subsection \<open>Collecting the body\<close>

lemma mb_collect_loop_ok:
  assumes "\<forall>i \<in> set is. \<exists>b. mb_at i m = Inr b \<and> mb_buffers m ! i = Some b" and "Buffer_inv out"
    and "length (concat (map (\<lambda>i. Buffer_pending (the (mb_buffers m ! i))) is)) \<le> Buffer_remainingCapacity out"
  shows "\<exists>out'. mb_collect_loop is m out = (Inr (), out') \<and>
    Buffer_pending out' = Buffer_pending out @ concat (map (\<lambda>i. Buffer_pending (the (mb_buffers m ! i))) is)"
  using assms
proof (induction "is" arbitrary: out)
  case Nil
  then show ?case by simp
next
  case (Cons i "is")
  obtain b where b: "mb_at i m = Inr b" "mb_buffers m ! i = Some b" using Cons.prems(1) by auto
  show ?case
  proof (cases "Buffer_remainingCapacity out = 0")
    case True
    then show ?thesis using Cons.prems(3) b by auto
  next
    case False
    obtain n out1 where w: "Buffer_write (Buffer_pending b) out = (n, out1)" by (cases "Buffer_write (Buffer_pending b) out")
    note ws = Buffer_write_spec [OF Cons.prems(2) w]
    have n: "n = length (Buffer_pending b)" using ws(1) Cons.prems(3) b(2) by auto
    have "\<exists>out'. mb_collect_loop is m out1 = (Inr (), out') \<and>
        Buffer_pending out' = Buffer_pending out1 @ concat (map (\<lambda>i. Buffer_pending (the (mb_buffers m ! i))) is)"
      using Cons.prems(1,3) b(2) ws(2,5) n by (intro Cons.IH) auto
    then show ?thesis using False b w ws(7) n by auto
  qed
qed

lemma MultiBuffer_collect_ok:
  assumes "mb_inv m" and "mb_readBuffer m = 0" and "Buffer_inv out" and "length (mb_pending m) \<le> Buffer_remainingCapacity out"
  shows "\<exists>out'. MultiBuffer_collect m out = (Inr (), out') \<and> Buffer_pending out' = Buffer_pending out @ mb_pending m"
proof -
  have used: "mb_usedBuffers m \<le> length (mb_buffers m)" using assms(1) by (simp add: mb_inv_def)
  have p: "mb_pending m = concat (map (\<lambda>i. Buffer_pending (the (mb_buffers m ! i))) [0..<mb_usedBuffers m])"
    using assms(2) map_nth_take [OF used, of "Buffer_pending \<circ> the"] by (simp add: mb_pending_def comp_def)
  have "\<forall>i \<in> set [0..<mb_usedBuffers m]. \<exists>b. mb_at i m = Inr b \<and> mb_buffers m ! i = Some b"
    using used mb_at_inv [OF assms(1)] by (metis atLeastLessThan_iff atLeastLessThan_upt order_less_le_trans)
  from mb_collect_loop_ok [OF this assms(3)] show ?thesis
    using assms(4) p by (simp add: MultiBuffer_collect_def)
qed

text \<open>A buffer that is only written to.\<close>

definition filling :: "(nat \<Rightarrow> byte list option) \<Rightarrow> multibuffer \<Rightarrow> bool" where
  "filling alloc m \<longleftrightarrow> mb_sink_inv alloc m \<and> mb_readBuffer m = 0 \<and> mb_bytesWritten m = length (mb_pending m)"

lemma write_callback_filling:
  assumes "filling alloc m"
  shows "\<exists>m'. write_callback alloc d m = (Inr (length d), m') \<and> filling alloc m' \<and> mb_pending m' = mb_pending m @ d"
proof (cases "d = []")
  case True
  then show ?thesis using assms by (simp add: write_callback_def)
next
  case False
  have m: "alloc_ok alloc" "mb_inv m" "0 < mb_initialSize m" using assms by (simp_all add: filling_def mb_sink_inv_def)
  obtain m1 where l: "mb_write_loop alloc d m = (Inr (), m1)" "mb_frame m m1" using mb_write_loop_ok [OF m, of d] by metis
  obtain m' where w: "MultiBuffer_write alloc d m = (Inr (length d), m')" "mb_inv m'" "mb_initialSize m' = mb_initialSize m"
      "mb_pending m' = mb_pending m @ d" "mb_bytesWritten m' = mb_bytesWritten m + length d"
    using MultiBuffer_write_ok [OF m, of d] by blast
  have "mb_readBuffer m' = 0" using w(1) l assms by (auto simp: MultiBuffer_write_def mb_frame_def filling_def)
  then show ?thesis using False w assms by (simp add: write_callback_def filling_def mb_sink_inv_def)
qed

lemma collect_response_ok:
  assumes "filling alloc m" and "hr_data r = None"
  shows "\<exists>r'. collect_response alloc m r = (Inr (), r') \<and> hr_headers r' = hr_headers r \<and>
    HttpResponse_getResponseString r' out = (if mb_pending m = [] then (False, out) else (True, bytes_string (mb_pending m)))"
proof (cases "mb_pending m = []")
  case True
  then show ?thesis using assms by (simp add: collect_response_def filling_def HttpResponse_getResponseString_def)
next
  case False
  obtain mem where mem: "alloc (mb_bytesWritten m) = Some mem" "length mem = mb_bytesWritten m"
    using assms(1) by (auto simp: filling_def mb_sink_inv_def alloc_ok_def)
  have "\<exists>b. MultiBuffer_collect m (Buffer_new mem) = (Inr (), b) \<and> Buffer_pending b = Buffer_pending (Buffer_new mem) @ mb_pending m"
    using assms(1) mem(2) Buffer_new_inv [of mem]
    by (intro MultiBuffer_collect_ok) (simp_all add: filling_def mb_sink_inv_def Buffer_remainingCapacity_def Buffer_capacity_def Buffer_new_def)
  then show ?thesis
    using False mem assms by (auto simp: collect_response_def filling_def HttpResponse_allocResponseData_def seqp_def
        HttpResponse_getResponseString_def Buffer_copyIntoString_def)
qed

subsection \<open>Header lines\<close>

text \<open>A line of the header as it is sent, or another line, without a colon.\<close>

fun wire_line :: "string + string \<times> string \<Rightarrow> string" where
  "wire_line (Inl s) = s"
| "wire_line (Inr (k, v)) = k @ '': '' @ v @ [CHR 0x0D, CHR 0x0A]"

fun line_ok :: "string + string \<times> string \<Rightarrow> bool" where
  "line_ok (Inl s) \<longleftrightarrow> CHR '':'' \<notin> set s"
| "line_ok (Inr (k, v)) \<longleftrightarrow> CHR '':'' \<notin> set k \<and> CHR 0x0D \<notin> set v \<and> CHR 0x0A \<notin> set v \<and> (v = [] \<or> hd v \<noteq> CHR 0x20)"

definition line_entries :: "(string + string \<times> string) list \<Rightarrow> (string \<times> string) list" where
  "line_entries ls = concat (map (\<lambda>l. case l of Inl _ \<Rightarrow> [] | Inr (k, v) \<Rightarrow> [(folded k, v)]) ls)"

lemma header_value_wire:
  assumes "line_ok (Inr (k, v))"
  shows "header_value (CHR 0x20 # v @ [CHR 0x0D, CHR 0x0A]) = v"
proof -
  have d: "dropWhile (\<lambda>c. c = CHR 0x20) (v @ [CHR 0x0D, CHR 0x0A]) = v @ [CHR 0x0D, CHR 0x0A]"
    using assms by (cases v) auto
  have "takeWhile (\<lambda>c. c \<noteq> CHR 0x0D \<and> c \<noteq> CHR 0x0A) (v @ [CHR 0x0D, CHR 0x0A]) = v"
    using assms by (subst takeWhile_append2) auto
  then show ?thesis by (simp add: header_value_def Let_def d)
qed

lemma header_callback_wire:
  assumes "line_ok l"
  shows "headers_get (hr_headers (header_callback (wire_line l) r)) h =
      (case map_of (line_entries [l]) (folded h) of None \<Rightarrow> headers_get (hr_headers r) h | Some v \<Rightarrow> Some v)"
    and "hr_data (header_callback (wire_line l) r) = hr_data r"
proof -
  have "headers_get (hr_headers (header_callback (wire_line l) r)) h =
      (case map_of (line_entries [l]) (folded h) of None \<Rightarrow> headers_get (hr_headers r) h | Some v \<Rightarrow> Some v) \<and>
      hr_data (header_callback (wire_line l) r) = hr_data r"
  proof (cases l)
    case (Inl s)
    then show ?thesis using assms using str_find_none [of "CHR '':''" s "[]"] by (simp add: header_callback_def line_entries_def)
  next
    case (Inr e)
    obtain k v where e: "e = (k, v)" by (cases e)
    have "header_callback (wire_line l) r = HttpResponse_addHeader k v r"
      using assms Inr e str_find_first [of "CHR '':''" k "[]"] header_value_wire [of k v] by (simp add: header_callback_def)
    then show ?thesis
      using Inr e by (auto simp: HttpResponse_addHeader_def headers_set_def headers_get_def line_entries_def split: option.splits)
  qed
  then show "headers_get (hr_headers (header_callback (wire_line l) r)) h =
      (case map_of (line_entries [l]) (folded h) of None \<Rightarrow> headers_get (hr_headers r) h | Some v \<Rightarrow> Some v)"
    and "hr_data (header_callback (wire_line l) r) = hr_data r" by simp_all
qed

subsection \<open>An exchange\<close>

definition header_lines :: "curl_event list \<Rightarrow> string list" where
  "header_lines events = concat (map (\<lambda>e. case e of HeaderLine l \<Rightarrow> [l] | BodyPiece _ \<Rightarrow> []) events)"

definition body_bytes :: "curl_event list \<Rightarrow> byte list" where
  "body_bytes events = concat (map (\<lambda>e. case e of HeaderLine _ \<Rightarrow> [] | BodyPiece d \<Rightarrow> d) events)"

lemma header_lines_simps [simp]:
  "header_lines [] = []" "header_lines (HeaderLine l # es) = l # header_lines es" "header_lines (BodyPiece d # es) = header_lines es"
  by (simp_all add: header_lines_def)

lemma body_bytes_simps [simp]:
  "body_bytes [] = []" "body_bytes (HeaderLine l # es) = body_bytes es" "body_bytes (BodyPiece d # es) = d @ body_bytes es"
  by (simp_all add: body_bytes_def)

lemma events_run:
  assumes "filling alloc mb"
  shows "\<exists>mb'. forp events (curl_event_run alloc) (r, mb) = (Inr (), (fold header_callback (header_lines events) r, mb')) \<and>
    filling alloc mb' \<and> mb_pending mb' = mb_pending mb @ body_bytes events"
  using assms
proof (induction events arbitrary: r mb)
  case Nil
  then show ?case by simp
next
  case (Cons e events)
  show ?case
  proof (cases e)
    case (HeaderLine l)
    then show ?thesis using Cons.IH [OF Cons.prems, of "header_callback l r"] by (simp add: seqp_def upd_def)
  next
    case (BodyPiece d)
    obtain m where m: "write_callback alloc d mb = (Inr (length d), m)" "filling alloc m" "mb_pending m = mb_pending mb @ d"
      using write_callback_filling [OF Cons.prems] by blast
    then show ?thesis using BodyPiece Cons.IH [OF m(2), of r] by (simp add: seqp_def)
  qed
qed

lemma line_entries_Cons: "line_entries (l # ls) = line_entries [l] @ line_entries ls"
  by (simp add: line_entries_def)

lemma headers_read:
  assumes "list_all line_ok ls"
  shows "headers_get (hr_headers (fold header_callback (map wire_line ls) r)) h =
      (case map_of (rev (line_entries ls)) (folded h) of None \<Rightarrow> headers_get (hr_headers r) h | Some v \<Rightarrow> Some v) \<and>
    hr_data (fold header_callback (map wire_line ls) r) = hr_data r"
  using assms
proof (induction ls arbitrary: r)
  case Nil
  then show ?case by (simp add: line_entries_def)
next
  case (Cons l ls)
  have ok: "line_ok l" using Cons.prems by simp
  have one: "map_of (rev (line_entries [l])) = map_of (line_entries [l])"
    by (simp add: line_entries_def split: sum.split prod.split)
  show ?case
    using Cons.IH [of "header_callback (wire_line l) r"] Cons.prems header_callback_wire [OF ok, of r] one
    by (simp add: line_entries_Cons [of l ls] map_add_def split: option.splits)
qed

lemma read_pieces_all:
  assumes "Buffer_inv b" and "Buffer_remaining b \<le> sum_list ns"
  shows "read_pieces ns b = Buffer_pending b"
  using assms
proof (induction ns b rule: read_pieces.induct)
  case (1 b)
  then show ?case by (simp add: Buffer_pending_def)
next
  case (2 n ns b)
  obtain d b' where rd: "Buffer_read n b = (d, b')" by (cases "Buffer_read n b")
  note rs = Buffer_read_spec [OF "2.prems"(1) rd]
  have "Buffer_remaining b' = length (drop n (Buffer_pending b))" using rs(2,3) length_Buffer_pending [OF rs(2)] by simp
  then have "read_pieces ns b' = Buffer_pending b'"
    using "2.IH" [of d b'] rs(2) "2.prems" rd by (simp add: read_callback_def)
  then show ?case using rd rs(1,3) by (simp add: read_callback_def)
qed

text \<open>Whatever has been read of a body, after rewinding it is read again from its beginning.\<close>

lemma seek_rewinds:
  assumes "Buffer_inv b" and "Buffer_capacity b \<le> sum_list ns"
  shows "read_pieces ns (snd (seek_callback 0 b)) = Buffer_written b"
proof -
  have "Buffer_inv (snd (seek_callback 0 b))" and "Buffer_remaining (snd (seek_callback 0 b)) \<le> Buffer_capacity b"
    using assms(1) by (simp_all add: seek_callback_def Buffer_seek_def Buffer_inv_def Buffer_remaining_def Buffer_capacity_def)
  then show ?thesis
    using assms(2) read_pieces_all [of "snd (seek_callback 0 b)" ns]
    by (simp add: seek_callback_def Buffer_seek_def Buffer_pending_def Buffer_written_def Buffer_remaining_def)
qed

text \<open>What the second half of \<open>submit\<close> makes of what the library delivers.\<close>

lemma transfer_delivers:
  assumes "alloc_ok alloc" and "cu_perform C hc = (events, CURLE_OK, code)"
    and "hr_headers (hq_response q) = []" and "hr_data (hq_response q) = None"
    and "header_lines events = map wire_line ls" and "list_all line_ok ls"
  shows "\<exists>q'. HttpRequest_transfer alloc C hc q = (Inr (), q') \<and> hr_code (hq_response q') = code \<and>
    HttpResponse_getResponseString (hq_response q') out =
      (if body_bytes events = [] then (False, out) else (True, bytes_string (body_bytes events))) \<and>
    (\<forall>h. headers_get (hr_headers (hq_response q')) h = map_of (rev (line_entries ls)) (folded h))"
proof -
  let ?new = "MultiBuffer_new INITIAL_BUFFER_SIZE LINEAR_BUFFER_SIZE"
  let ?r = "fold header_callback (header_lines events) (hq_response q)"
  have "filling alloc ?new"
    using assms(1) MultiBuffer_new_ok(1) [OF assms(1), of INITIAL_BUFFER_SIZE LINEAR_BUFFER_SIZE] MultiBuffer_new_ok(2) [of INITIAL_BUFFER_SIZE LINEAR_BUFFER_SIZE]
    by (simp add: filling_def INITIAL_BUFFER_SIZE_def MultiBuffer_new_def)
  from events_run [OF this, of events "hq_response q"] obtain mb where mb: "filling alloc mb" "mb_pending mb = body_bytes events"
      "forp events (curl_event_run alloc) (hq_response q, ?new) = (Inr (), (?r, mb))"
    by auto
  have r: "hr_data ?r = None" "headers_get (hr_headers ?r) h = map_of (rev (line_entries ls)) (folded h)" for h
    using headers_read [OF assms(6), of "hq_response q"] assms(3,4,5)
    by (simp_all add: headers_get_def split: option.split)
  obtain r' where r': "collect_response alloc mb ?r = (Inr (), r')" "hr_headers r' = hr_headers ?r"
      "HttpResponse_getResponseString r' out = (if mb_pending mb = [] then (False, out) else (True, bytes_string (mb_pending mb)))"
    using collect_response_ok [OF mb(1) r(1)] by blast
  then show ?thesis
    using assms(2) mb(2,3) r(2)
    by (simp add: HttpRequest_transfer_def seqp_def upd_def HttpResponse_setResponseStatus_def HttpResponse_getResponseString_def
        split: option.splits)
qed


text \<open>A service that answers in two pieces, and with a header that comes twice.\<close>

definition sample_curl :: curl_lib where
  "sample_curl = \<lparr>cu_init = True, cu_escape = Some, cu_pieces = (\<lambda>n. [n]),
     cu_perform = (\<lambda>hc. ([HeaderLine (wire_line (Inl ''HTTP/1.1 200 OK'')), HeaderLine (wire_line (Inr (''Server'', ''a''))),
       HeaderLine (wire_line (Inr (''SERVER'', ''b''))), BodyPiece [104], BodyPiece [105]], CURLE_OK,
       if hc_body hc = Some (string_bytes ''x'' @ [0]) then 201 else 400)),
     cu_strerror = (\<lambda>_. [])\<rparr>"


end
