(* ===== verification/Log_Client.thy ===== *)
theory Log_Client
  imports Farm_Hosts Http_Client
begin

text \<open>
  \<^verbatim>\<open>arras4_client/lib/log_client\<close>: queries of a log service. The service is an \<open>http_service\<close>; the texts of records
  are parsed by jsoncpp.
\<close>

subsection \<open>URLs\<close>

definition url_char :: "char \<Rightarrow> string" where
  "url_char c = (if c = CHR '':'' then ''%3A'' else if c = CHR 0x20 then ''%20'' else if c = CHR ''+'' then ''%2B'' else [c])"

definition urlEncode :: "string \<Rightarrow> string" where
  "urlEncode s = concat (map url_char s)"

definition LogClient_buildUrl :: "string \<Rightarrow> string \<Rightarrow> string \<Rightarrow> int \<Rightarrow> int \<Rightarrow> bool \<Rightarrow> string" where
  "LogClient_buildUrl baseUrl start finish pageIndex recordsPerPage ascendingOrder =
     baseUrl @ ''?'' @ (if ascendingOrder then ''sort=asc'' else ''sort=desc'')
     @ (if recordsPerPage > 0 then ''&page='' @ show_int pageIndex @ ''&size='' @ show_int recordsPerPage else [])
     @ (if start \<noteq> [] then ''&start='' @ urlEncode start @ (if finish \<noteq> [] then ''&end='' @ urlEncode finish else []) else [])"

subsection \<open>Records\<close>

record log_record =
  lr_id :: string
  lr_sessionId :: string
  lr_hostname :: string
  lr_loglevel :: string
  lr_output :: string
  lr_processname :: string
  lr_timestamp :: string
  lr_thread :: string
  lr_pid :: string
  lr_timestampEpochUsecs :: string

definition LogRecord_getLogLine :: "log_record \<Rightarrow> string" where
  "LogRecord_getLogLine r =
     (let sessionIdStr = (if lr_sessionId r = ''null'' then [] else ''['' @ lr_sessionId r @ '']'') in
      lr_timestamp r @ '' '' @ lr_loglevel r @ '' '' @ lr_processname r @ ''['' @ lr_pid r @ '']:'' @ lr_thread r @ '': ''
      @ sessionIdStr @ lr_output r)"

definition record_members :: "string list" where
  "record_members = [''id'', ''sessionId'', ''hostname'', ''loglevel'', ''output'', ''processname'', ''timestamp'', ''thread'', ''pid'',
     ''timestampEpochUsecs'']"

fun all_members :: "('j, 'z) json_obj_scheme \<Rightarrow> 'j \<Rightarrow> string list \<Rightarrow> exn + bool" where
  "all_members J ob [] = Inr True"
| "all_members J ob (k # ks) = sbind (js_isMember J ob k) (\<lambda>b. if b then all_members J ob ks else Inr False)"

definition LogClient_objectIsLogRecord :: "('j, 'z) json_obj_scheme \<Rightarrow> 'j \<Rightarrow> exn + bool" where
  "LogClient_objectIsLogRecord J ob = all_members J ob record_members"

definition LogClient_objectToLogRecord :: "('j, 'z) json_obj_scheme \<Rightarrow> 'j \<Rightarrow> exn + log_record" where
  "LogClient_objectToLogRecord J ob =
     sbind (js_string J ob ''id'') (\<lambda>i. sbind (js_string J ob ''sessionId'') (\<lambda>s. sbind (js_string J ob ''hostname'') (\<lambda>h.
     sbind (js_string J ob ''loglevel'') (\<lambda>l. sbind (js_string J ob ''output'') (\<lambda>out. sbind (js_string J ob ''processname'') (\<lambda>p.
     sbind (js_string J ob ''timestamp'') (\<lambda>t. sbind (js_string J ob ''thread'') (\<lambda>th. sbind (js_string J ob ''pid'') (\<lambda>pid.
     sbind (js_string J ob ''timestampEpochUsecs'') (\<lambda>u.
       Inr \<lparr>lr_id = i, lr_sessionId = s, lr_hostname = h, lr_loglevel = l, lr_output = out, lr_processname = p, lr_timestamp = t,
         lr_thread = th, lr_pid = pid, lr_timestampEpochUsecs = u\<rparr>))))))))))"

definition add_record :: "('j, 'z) json_obj_scheme \<Rightarrow> 'j \<Rightarrow> log_record list \<Rightarrow> exn + log_record list" where
  "add_record J ob records =
     sbind (LogClient_objectIsLogRecord J ob) (\<lambda>b.
       if b then sbind (LogClient_objectToLogRecord J ob) (\<lambda>r. Inr (records @ [r])) else Inr records)"

fun add_items :: "('j, 'z) json_obj_scheme \<Rightarrow> 'j list \<Rightarrow> log_record list \<Rightarrow> exn + log_record list" where
  "add_items J [] records = Inr records"
| "add_items J (j # js) records = sbind (add_record J j records) (add_items J js)"

definition LogClient_objectToLogRecords :: "('j, 'z) json_obj_scheme \<Rightarrow> 'j \<Rightarrow> exn + log_record list" where
  "LogClient_objectToLogRecords J ob =
     (if \<not> js_isObject J ob then Inr []
      else sbind (js_isMember J ob ''content'') (\<lambda>there.
        if \<not> there then Inr []
        else sbind (js_get J ob ''content'') (\<lambda>content.
          if js_isArray J content then add_items J (map snd (js_members J content)) [] else Inr [])))"

subsection \<open>Requests\<close>

definition log_error :: "string \<Rightarrow> string \<Rightarrow> exn + 'a \<Rightarrow> exn + 'a" where
  "log_error f suffix r =
     (case r of Inr a \<Rightarrow> Inr a
      | Inl e \<Rightarrow> if is_std_exception e then Inl (LogClientException (f @ '': '' @ exn_what e @ suffix)) else Inl e)"

definition LogClient_fetch :: "http_service \<Rightarrow> string \<Rightarrow> exn + string option" where
  "LogClient_fetch submit url =
     sbind (submit GET url []) (\<lambda>(code, text).
       if code < HTTP_OK \<or> code \<ge> 300
       then Inl (LogClientException (''fetch: Error response code: '' @ show_int code @ response_string text @ '', url: '' @ url))
       else Inr text)"

definition LogClient_fetchObject :: "('j, 'z) json_obj_scheme \<Rightarrow> http_service \<Rightarrow> string \<Rightarrow> exn + 'j" where
  "LogClient_fetchObject J submit url =
     log_error ''fetchObject'' (''; url: '' @ url)
       (sbind (LogClient_fetch submit url) (\<lambda>text. getObjectFromResponse J text))"

definition LogClient_getArrasLogsUrl :: "(string \<Rightarrow> string option) \<Rightarrow> http_service \<Rightarrow> string \<Rightarrow> string \<Rightarrow> exn + string" where
  "LogClient_getArrasLogsUrl getenv submit datacenter environ =
     (case getenv ''DWA_CONFIG_SERVICE'' of
        None \<Rightarrow> Inl (LogClientException ''getArrasLogsUrl:  Undefined environment: DWA_CONFIG_SERVICE'')
      | Some configSrvUrl \<Rightarrow>
          sbind (LogClient_fetch submit (configSrvUrl @ ''serve/jose/arras/endpoints/'' @ datacenter @ ''/'' @ environ @ ''/arraslogs/url''))
            (\<lambda>text. Inr (response_string text)))"

text \<open>A client is the base of its URLs.\<close>

definition LogClient_new :: "(string \<Rightarrow> string option) \<Rightarrow> http_service \<Rightarrow> string \<Rightarrow> string \<Rightarrow> exn + string" where
  "LogClient_new getenv submit datacenter environ = LogClient_getArrasLogsUrl getenv submit datacenter environ"

definition get_logs :: "('j, 'z) json_obj_scheme \<Rightarrow> http_service \<Rightarrow> string \<Rightarrow> string \<Rightarrow> exn + log_record list" where
  "get_logs J submit f url =
     log_error f ('', url: '' @ url) (sbind (LogClient_fetchObject J submit url) (LogClient_objectToLogRecords J))"

definition LogClient_getLogsByHostname ::
  "('j, 'z) json_obj_scheme \<Rightarrow> http_service \<Rightarrow> string \<Rightarrow> string \<Rightarrow> string \<Rightarrow> string \<Rightarrow> int \<Rightarrow> int \<Rightarrow> bool \<Rightarrow> exn + log_record list" where
  "LogClient_getLogsByHostname J submit baseUrl hostname start finish pageIndex recordsPerPage ascendingOrder =
     get_logs J submit ''getLogsByHostname''
       (LogClient_buildUrl (baseUrl @ ''/logs/host/'' @ hostname) start finish pageIndex recordsPerPage ascendingOrder)"

definition LogClient_getLogsBySessionId ::
  "('j, 'z) json_obj_scheme \<Rightarrow> http_service \<Rightarrow> string \<Rightarrow> string \<Rightarrow> string \<Rightarrow> string \<Rightarrow> int \<Rightarrow> int \<Rightarrow> bool \<Rightarrow> exn + log_record list" where
  "LogClient_getLogsBySessionId J submit baseUrl sessionId start finish pageIndex recordsPerPage ascendingOrder =
     get_logs J submit ''getLogsBySessionId''
       (LogClient_buildUrl (baseUrl @ ''/logs/session/'' @ sessionId) start finish pageIndex recordsPerPage ascendingOrder)"

text \<open>The overloads: by pages, and from a time on; the numbers of the second are unsigned and converted.\<close>

definition LogClient_getLogsBySessionIdAndCompName_pages ::
  "('j, 'z) json_obj_scheme \<Rightarrow> http_service \<Rightarrow> string \<Rightarrow> string \<Rightarrow> string \<Rightarrow> int \<Rightarrow> int \<Rightarrow> bool \<Rightarrow> exn + log_record list" where
  "LogClient_getLogsBySessionIdAndCompName_pages J submit baseUrl sessionId compName pageIndex recordsPerPage ascendingOrder =
     get_logs J submit ''getLogsBySessionIdAndCompName''
       (LogClient_buildUrl (baseUrl @ ''/logs/session/'' @ sessionId @ ''/'' @ compName) [] [] pageIndex recordsPerPage ascendingOrder)"

definition LogClient_getLogsBySessionIdAndCompName ::
  "('j, 'z) json_obj_scheme \<Rightarrow> http_service \<Rightarrow> string \<Rightarrow> string \<Rightarrow> string \<Rightarrow> string \<Rightarrow> string \<Rightarrow> u32 \<Rightarrow> u32 \<Rightarrow> bool \<Rightarrow>
     exn + log_record list" where
  "LogClient_getLogsBySessionIdAndCompName J submit baseUrl sessionId compName start finish pageIndex recordsPerPage ascendingOrder =
     get_logs J submit ''getLogsBySessionIdAndCompName''
       (LogClient_buildUrl (baseUrl @ ''/logs/session/'' @ sessionId @ ''/'' @ compName) start finish (sint pageIndex)
         (sint recordsPerPage) ascendingOrder)"

text \<open>
  The lines of a complete log: each up to its line feed. What follows the last one is not looked at.
\<close>

definition line_record :: "('j, 'z) json_obj_scheme \<Rightarrow> string \<Rightarrow> log_record list \<Rightarrow> exn + log_record list" where
  "line_record J line records =
     (if line = [] then Inr records
      else (case stringToObject J line (js_null J) of
          (Inl e, _) \<Rightarrow> Inl e
        | (Inr _, ob) \<Rightarrow> add_record J ob records))"

function log_lines :: "('j, 'z) json_obj_scheme \<Rightarrow> string \<Rightarrow> string \<Rightarrow> nat \<Rightarrow> log_record list \<Rightarrow> exn + log_record list" where
  "log_lines J f respStr pos records =
     (if pos \<ge> length respStr then Inr records
      else (case str_find CHR 0x0A respStr pos of
          None \<Rightarrow> Inr records
        | Some finish \<Rightarrow>
            (let line = take (finish - pos) (drop pos respStr) in
             sbind (log_error f ('', line: '' @ line) (line_record J line records)) (log_lines J f respStr (finish + 1)))))"
  by pat_completeness auto
termination
  by (relation "measure (\<lambda>(_, _, respStr, pos, _). length respStr - pos)") (auto dest: str_find_Some(1,2))

declare log_lines.simps [simp del]

definition get_complete :: "('j, 'z) json_obj_scheme \<Rightarrow> http_service \<Rightarrow> string \<Rightarrow> string \<Rightarrow> exn + log_record list" where
  "get_complete J submit f url =
     sbind (log_error f ('', url: '' @ url) (LogClient_fetch submit url)) (\<lambda>text. log_lines J f (response_string text) 0 [])"

definition LogClient_getLogsBySessionIdComplete ::
  "('j, 'z) json_obj_scheme \<Rightarrow> http_service \<Rightarrow> string \<Rightarrow> string \<Rightarrow> bool \<Rightarrow> exn + log_record list" where
  "LogClient_getLogsBySessionIdComplete J submit baseUrl sessionId ascendingOrder =
     get_complete J submit ''getLogsBySessionIdComplete''
       (LogClient_buildUrl (baseUrl @ ''/logs/complete/session/'' @ sessionId) [] [] 0 0 ascendingOrder)"

definition LogClient_getLogsBySessionIdAndCompNameComplete ::
  "('j, 'z) json_obj_scheme \<Rightarrow> http_service \<Rightarrow> string \<Rightarrow> string \<Rightarrow> string \<Rightarrow> bool \<Rightarrow> exn + log_record list" where
  "LogClient_getLogsBySessionIdAndCompNameComplete J submit baseUrl sessionId compName ascendingOrder =
     get_complete J submit ''getLogsBySessionIdAndCompNameComplete''
       (LogClient_buildUrl (baseUrl @ ''/logs/complete/session/'' @ sessionId @ ''/'' @ compName) [] [] 0 0 ascendingOrder)"

definition LogClient_tail ::
  "('j, 'z) json_obj_scheme \<Rightarrow> http_service \<Rightarrow> string \<Rightarrow> string \<Rightarrow> string \<Rightarrow> string \<Rightarrow> exn + log_record list" where
  "LogClient_tail J submit baseUrl sessionId compName start =
     (if start = []
      then (if compName = [] then LogClient_getLogsBySessionIdComplete J submit baseUrl sessionId True
            else LogClient_getLogsBySessionIdAndCompNameComplete J submit baseUrl sessionId compName True)
      else (if compName = [] then LogClient_getLogsBySessionId J submit baseUrl sessionId start [] 0 0 True
            else LogClient_getLogsBySessionIdAndCompName J submit baseUrl sessionId compName start [] 0 0 True))"

subsection \<open>The lines of a complete log\<close>

text \<open>The record of a line, if it is one.\<close>

definition record_of_line :: "('j, 'z) json_obj_scheme \<Rightarrow> string \<Rightarrow> exn + log_record list" where
  "record_of_line J line = line_record J line []"

lemma line_record_append:
  assumes "line_record J line [] = Inr rs"
  shows "line_record J line records = Inr (records @ rs)"
  using assms by (auto simp: line_record_def add_record_def sbind_def split: if_splits prod.splits sum.splits)

lemma log_lines_read:
  assumes "list_all2 (\<lambda>line rs. CHR 0x0A \<notin> set line \<and> record_of_line J line = Inr rs) lines rss" and "CHR 0x0A \<notin> set rest"
  shows "log_lines J f (before @ concat (map (\<lambda>line. line @ [CHR 0x0A]) lines) @ rest) (length before) records = Inr (records @ concat rss)"
  using assms(1)
proof (induction lines rss arbitrary: before records rule: list_all2_induct)
  case Nil
  have "str_find CHR 0x0A (before @ rest) (length before) = None"
    using assms(2) by (rule str_find_none)
  then show ?case by (simp add: log_lines.simps)
next
  case (Cons line lines rs rss)
  let ?tail = "concat (map (\<lambda>line. line @ [CHR 0x0A]) lines) @ rest"
  have nl: "CHR 0x0A \<notin> set line" and r: "line_record J line records = Inr (records @ rs)"
    using Cons.hyps(1) line_record_append [of J line rs records] by (simp_all add: record_of_line_def)
  have fnd: "str_find CHR 0x0A (before @ line @ CHR 0x0A # ?tail) (length before) = Some (length before + length line)"
    using nl by (rule str_find_first)
  have "log_lines J f (before @ line @ CHR 0x0A # ?tail) (length before) records =
      log_lines J f (before @ line @ CHR 0x0A # ?tail) (length before + length line + 1) (records @ rs)"
    using fnd r by (subst log_lines.simps) (simp add: Let_def log_error_def sbind_def)
  also have "\<dots> = Inr ((records @ rs) @ concat rss)"
    using Cons.IH [of "before @ line @ [CHR 0x0A]" "records @ rs"] by simp
  finally show ?case by simp
qed

text \<open>
  C30 (functional). A complete log is read line by line: the records of its lines, in their order, lines without a record
  left out; but the last line, when no line feed follows it, is not read at all.
\<close>

theorem complete_log_lines:
  assumes "submit GET (LogClient_buildUrl (baseUrl @ ''/logs/complete/session/'' @ sessionId) [] [] 0 0 True) [] =
      Inr (200, Some (concat (map (\<lambda>line. line @ [CHR 0x0A]) lines) @ rest))"
    and "list_all2 (\<lambda>line rs. CHR 0x0A \<notin> set line \<and> record_of_line J line = Inr rs) lines rss" and "CHR 0x0A \<notin> set rest"
  shows "LogClient_tail J submit baseUrl sessionId [] [] = Inr (concat rss)"
  using assms(1) log_lines_read [OF assms(2,3), of "''getLogsBySessionIdComplete''" "[]" "[]"]
  by (simp add: LogClient_tail_def LogClient_getLogsBySessionIdComplete_def get_complete_def LogClient_fetch_def HTTP_OK_def
      log_error_def response_string_def sbind_def)

definition sample_line_api :: "json json_obj" where
  "sample_line_api = json_obj_impl\<lparr>js_parse := (\<lambda>t j. (Inr (), JObject [(''id'', JString ''1''), (''sessionId'', JString ''s''),
     (''hostname'', JString ''h''), (''loglevel'', JString ''WARN''), (''output'', JString t), (''processname'', JString ''p''),
     (''timestamp'', JString ''t''), (''thread'', JString ''2''), (''pid'', JString ''3''), (''timestampEpochUsecs'', JString ''4'')]))\<rparr>"

definition sample_log_record :: log_record where
  "sample_log_record = \<lparr>lr_id = ''1'', lr_sessionId = ''s'', lr_hostname = ''h'', lr_loglevel = ''WARN'', lr_output = ''ready'',
     lr_processname = ''p'', lr_timestamp = ''t'', lr_thread = ''2'', lr_pid = ''3'', lr_timestampEpochUsecs = ''4''\<rparr>"

theorem complete_log_lines_witness:
  "LogClient_tail sample_line_api (\<lambda>_ _ _. Inr (200, Some (concat (map (\<lambda>line. line @ [CHR 0x0A]) [''ready'', []]) @ ''lost''))) ''http://logs'' ''s''
     [] [] = Inr [sample_log_record]"
proof -
  have "record_of_line sample_line_api ''ready'' = Inr [sample_log_record]" by code_simp
  moreover have "record_of_line sample_line_api [] = Inr []" by code_simp
  ultimately show ?thesis
    using complete_log_lines [of "\<lambda>_ _ _. Inr (200, Some (concat (map (\<lambda>line. line @ [CHR 0x0A]) [''ready'', []]) @ ''lost''))"
        "''http://logs''" "''s''" "[''ready'', []]" "''lost''" sample_line_api "[[sample_log_record], []]"] by simp
qed

end
