(* ===== verification/Standalone.thy ===== *)
theory Standalone
  imports Computations
begin

text \<open>
  \<^verbatim>\<open>arras4_computation_api/lib/standalone\<close>: a computation run inside another program, with an environment and metadata of
  its own. It is loaded as in a process of its own (theory \<open>Computations\<close>), and its messages carry the same metadata but
  for the mark of traced ones.
\<close>

subsection \<open>StandaloneMetadata\<close>

record standalone_metadata =
  sm_instanceId :: uuid
  sm_sourceId :: uuid
  sm_creationTime :: arras_time
  sm_from :: address
  sm_routingName :: string

definition StandaloneMetadata_new :: "uuid \<Rightarrow> uuid \<Rightarrow> arras_time \<Rightarrow> standalone_metadata" where
  "StandaloneMetadata_new iid sid now = \<lparr>sm_instanceId = iid, sm_sourceId = sid, sm_creationTime = now,
     sm_from = Address_null, sm_routingName = []\<rparr>"

text \<open>The content is its default routing name; there may be none.\<close>

definition StandaloneMetadata_new_options ::
  "'u uuid_api_scheme \<Rightarrow> ('j, 'z) json_api_scheme \<Rightarrow> string option \<Rightarrow> 'j \<Rightarrow> uuid \<Rightarrow> uuid \<Rightarrow> arras_time \<Rightarrow> exn + standalone_metadata" where
  "StandaloneMetadata_new_options U J content options iid sid now =
     (let md = StandaloneMetadata_new iid sid now;
          md = (case content of None \<Rightarrow> md | Some name \<Rightarrow> md\<lparr>sm_routingName := name\<rparr>)
      in sbind (js_get J options ''sourceId'') (\<lambda>src.
         sbind (if js_isString J src then sbind (js_asString J src) (\<lambda>s. Inr (md\<lparr>sm_sourceId := UUID_parse U s\<rparr>)) else Inr md) (\<lambda>md.
         sbind (js_get J options ''routingName'') (\<lambda>rn.
         if js_isString J rn then sbind (js_asString J rn) (\<lambda>s. Inr (md\<lparr>sm_routingName := s\<rparr>)) else Inr md))))"

definition StandaloneMetadata_get ::
  "'u uuid_api_scheme \<Rightarrow> ('j, 'z) json_api_scheme \<Rightarrow> (arras_time \<Rightarrow> string) \<Rightarrow> standalone_metadata \<Rightarrow> string \<Rightarrow> exn + 'j" where
  "StandaloneMetadata_get U J dateTimeStr md optionName =
     (if optionName = ''instanceId'' then Inr (js_ofString J (UUID_toString U (sm_instanceId md)))
      else if optionName = ''sourceId'' then Inr (js_ofString J (UUID_toString U (sm_sourceId md)))
      else if optionName = ''from'' then
        (case Address_toObject U J (sm_from md) (js_null J) of (Inl e, _) \<Rightarrow> Inl e | (Inr _, ob) \<Rightarrow> Inr ob)
      else if optionName = ''routingName'' then Inr (js_ofString J (sm_routingName md))
      else if optionName = ''creationTimeSecs'' then Inr (js_ofInt J (sint (at_seconds (sm_creationTime md))))
      else if optionName = ''creationTimeMicroSecs'' then Inr (js_ofInt J (sint (at_microseconds (sm_creationTime md))))
      else if optionName = ''creationTimeString'' then Inr (js_ofString J (dateTimeStr (sm_creationTime md)))
      else Inr (js_null J))"

definition StandaloneMetadata_toObject :: "'u uuid_api_scheme \<Rightarrow> ('j, 'z) json_api_scheme \<Rightarrow> standalone_metadata \<Rightarrow> ('j, unit) proc" where
  "StandaloneMetadata_toObject U J md =
     seqp (js_put J ''instanceId'' (js_ofString J (UUID_toString U (sm_instanceId md))))
     (seqp (js_put J ''sourceId'' (js_ofString J (UUID_toString U (sm_sourceId md))))
     (seqp (js_in J ''creationTime'' (js_put J ''seconds'' (js_ofInt J (sint (at_seconds (sm_creationTime md))))))
     (seqp (js_in J ''creationTime'' (js_put J ''microseconds'' (js_ofInt J (sint (at_microseconds (sm_creationTime md))))))
     (seqp (js_in J ''from'' (Address_toObject U J (sm_from md)))
     (js_put J ''routingName'' (js_ofString J (sm_routingName md)))))))"

text \<open>Here too both parts of the time are read from the member \<open>seconds\<close>.\<close>

definition StandaloneMetadata_fromObject :: "'u uuid_api_scheme \<Rightarrow> ('j, 'z) json_api_scheme \<Rightarrow> 'j \<Rightarrow> (standalone_metadata, unit) proc" where
  "StandaloneMetadata_fromObject U J ob =
     bindp (liftr (js_string J ob ''instanceId'')) (\<lambda>s. seqp (upd (\<lambda>md. md\<lparr>sm_instanceId := UUID_parse U s\<rparr>))
     (bindp (liftr (js_string J ob ''sourceId'')) (\<lambda>s. seqp (upd (\<lambda>md. md\<lparr>sm_sourceId := UUID_parse U s\<rparr>))
     (bindp (liftr (sbind (js_get J ob ''creationTime'') (\<lambda>t. js_int J t ''seconds''))) (\<lambda>i.
        seqp (upd (\<lambda>md. md\<lparr>sm_creationTime := (sm_creationTime md)\<lparr>at_seconds := word_of_int i\<rparr>\<rparr>))
     (bindp (liftr (sbind (js_get J ob ''creationTime'') (\<lambda>t. js_int J t ''seconds''))) (\<lambda>i.
        seqp (upd (\<lambda>md. md\<lparr>sm_creationTime := (sm_creationTime md)\<lparr>at_microseconds := word_of_int i\<rparr>\<rparr>))
     (bindp (liftr (js_get J ob ''from'')) (\<lambda>f.
        seqp (zoom sm_from (\<lambda>a md. md\<lparr>sm_from := a\<rparr>) (Address_fromObject U J f))
     (bindp (liftr (js_string J ob ''routingName'')) (\<lambda>s. upd (\<lambda>md. md\<lparr>sm_routingName := s\<rparr>))))))))))))"

subsection \<open>StandaloneEnvironment\<close>

text \<open>
  The computation may be a null pointer when a factory function made it. \<open>se_outer\<close> is what the message function of the
  surrounding program works on.
\<close>

record ('c, 'x) standalone_env =
  se_name :: string
  se_computation :: "'c option"
  se_dso :: "nat option"
  se_outer :: 'x

definition StandaloneEnvironment_loadDso :: "'c loader \<Rightarrow> string \<Rightarrow> exn + nat \<times> 'c" where
  "StandaloneEnvironment_loadDso L dsoName =
     (case ld_open L dsoName of
        None \<Rightarrow> Inl (LoadError (''Failed to load computation dso '' @ in_quotes dsoName @ '': '' @ safeDlerror L))
      | Some dso \<Rightarrow>
          if \<not> ld_symbol L dso COMPUTATION_CREATE_FUNC
          then Inl (LoadError (''Failed to load symbol '' @ in_quotes COMPUTATION_CREATE_FUNC @
            '' from computation dso '' @ in_quotes dsoName @ '': '' @ safeDlerror L))
          else (case ld_create L dso of
                  None \<Rightarrow> Inl (LoadError (''Computation creation failed in computation dso '' @ in_quotes dsoName @
                    '': '' @ safeDlerror L))
                | Some c \<Rightarrow> Inr (dso, c)))"

definition StandaloneEnvironment_new :: "'c loader \<Rightarrow> string \<Rightarrow> string \<Rightarrow> 'x \<Rightarrow> exn + ('c, 'x) standalone_env" where
  "StandaloneEnvironment_new L name dsoName out =
     sbind (StandaloneEnvironment_loadDso L dsoName) (\<lambda>(dso, c).
       Inr \<lparr>se_name = name, se_computation = Some c, se_dso = Some dso, se_outer = out\<rparr>)"

definition StandaloneEnvironment_new_factory :: "string \<Rightarrow> 'c option \<Rightarrow> 'x \<Rightarrow> ('c, 'x) standalone_env" where
  "StandaloneEnvironment_new_factory name made out =
     \<lparr>se_name = name, se_computation = made, se_dso = None, se_outer = out\<rparr>"

text \<open>A call of the computation.\<close>

definition run_computation :: "('c, 'a) proc \<Rightarrow> (('c, 'x) standalone_env, 'a) proc" where
  "run_computation m e =
     (case se_computation e of
        None \<Rightarrow> (Inl (Undefined ''null computation''), e)
      | Some c \<Rightarrow> (case m c of (r, c') \<Rightarrow> (r, e\<lparr>se_computation := Some c'\<rparr>)))"

text \<open>
  \<open>fresh\<close>: two new identifiers and the time. A message is its metadata and its content, with \<open>rname\<close> the default routing
  name of a content.
\<close>

definition StandaloneEnvironment_send ::
  "'u uuid_api_scheme \<Rightarrow> ('j, 'z) json_api_scheme \<Rightarrow> ('m \<Rightarrow> string) \<Rightarrow> uuid \<times> uuid \<times> arras_time \<Rightarrow>
     (standalone_metadata \<times> 'm option \<Rightarrow> ('x, unit) proc) \<Rightarrow> 'm option \<Rightarrow> 'j \<Rightarrow>
     (('c, 'x) standalone_env, standalone_metadata \<times> 'm option) proc" where
  "StandaloneEnvironment_send U J rname fresh onMessage content options =
     (case fresh of (iid, sid, now) \<Rightarrow>
      bindp (liftr (StandaloneMetadata_new_options U J (map_option rname content) options iid sid now)) (\<lambda>md.
        seqp (zoom se_outer (\<lambda>x e. e\<lparr>se_outer := x\<rparr>) (onMessage (md, content))) (ret (md, content))))"

definition StandaloneEnvironment_environment :: "('j, 'z) json_api_scheme \<Rightarrow> string \<Rightarrow> ('c, 'x) standalone_env \<Rightarrow> 'j" where
  "StandaloneEnvironment_environment J name e =
     (if name = ''arras.apiVersion'' then js_ofString J ''4.0.0''
      else if name = ''computation.name'' then js_ofString J (se_name e)
      else js_null J)"

definition StandaloneEnvironment_setEnvironment :: "string \<Rightarrow> 'j \<Rightarrow> api_result" where
  "StandaloneEnvironment_setEnvironment name val = R_Unknown"

definition StandaloneEnvironment_initializeComputation ::
  "('j, 'z) json_api_scheme \<Rightarrow> ('c, 'j, 'm) computation_ops \<Rightarrow> 'j \<Rightarrow> (('c, 'x) standalone_env, api_result) proc" where
  "StandaloneEnvironment_initializeComputation J P config =
     bindp (run_computation (cp_configure P ''initialize'' config)) (\<lambda>r.
       seqp (if r \<noteq> R_Invalid then bindp (run_computation (cp_configure P ''start'' (js_null J))) (\<lambda>_. ret ()) else ret ())
       (ret r))"

definition StandaloneEnvironment_sendMessage ::
  "'u uuid_api_scheme \<Rightarrow> ('j, 'z) json_api_scheme \<Rightarrow> ('m \<Rightarrow> string) \<Rightarrow> uuid \<times> uuid \<times> arras_time \<Rightarrow>
     ('c, 'j, standalone_metadata \<times> 'm option) computation_ops \<Rightarrow> 'm option \<Rightarrow> 'j \<Rightarrow> (('c, 'x) standalone_env, api_result) proc" where
  "StandaloneEnvironment_sendMessage U J rname fresh P content options =
     (case fresh of (iid, sid, now) \<Rightarrow>
      bindp (liftr (StandaloneMetadata_new_options U J (map_option rname content) options iid sid now)) (\<lambda>md.
        run_computation (cp_onMessage P (md, content))))"

definition StandaloneEnvironment_performIdle :: "('c, 'j, 'm) computation_ops \<Rightarrow> (('c, 'x) standalone_env, unit) proc" where
  "StandaloneEnvironment_performIdle P = run_computation (cp_onIdle P)"

definition StandaloneEnvironment_shutdownComputation ::
  "('j, 'z) json_api_scheme \<Rightarrow> ('c, 'j, 'm) computation_ops \<Rightarrow> (('c, 'x) standalone_env, unit) proc" where
  "StandaloneEnvironment_shutdownComputation J P = bindp (run_computation (cp_configure P ''stop'' (js_null J))) (\<lambda>_. ret ())"

subsection \<open>The same as in a process\<close>

definition impl_md :: "bool \<Rightarrow> standalone_metadata \<Rightarrow> metadata" where
  "impl_md trace sm = \<lparr>md_instanceId = sm_instanceId sm, md_sourceId = sm_sourceId sm, md_creationTime = sm_creationTime sm,
     md_from = sm_from sm, md_routingName = sm_routingName sm, md_trace = trace\<rparr>"

lemma impl_md_sel [simp]:
  "md_instanceId (impl_md t sm) = sm_instanceId sm" "md_sourceId (impl_md t sm) = sm_sourceId sm"
  "md_creationTime (impl_md t sm) = sm_creationTime sm" "md_from (impl_md t sm) = sm_from sm"
  "md_routingName (impl_md t sm) = sm_routingName sm" "md_trace (impl_md t sm) = t"
  by (simp_all add: impl_md_def)

text \<open>Two operations that do the same on two states, one of which is an image of the other.\<close>

definition simulates :: "('s \<Rightarrow> 't) \<Rightarrow> ('s, 'a) proc \<Rightarrow> ('t, 'a) proc \<Rightarrow> bool" where
  "simulates f m n \<longleftrightarrow> (\<forall>s. n (f s) = apsnd f (m s))"

named_theorems simulating

lemma simulates_bindp [simulating]:
  "simulates f m n \<Longrightarrow> (\<And>a. simulates f (k a) (l a)) \<Longrightarrow> simulates f (bindp m k) (bindp n l)"
  by (auto simp: simulates_def bindp_def split: prod.split sum.split)

lemma simulates_seqp [simulating]: "simulates f m n \<Longrightarrow> simulates f k l \<Longrightarrow> simulates f (seqp m k) (seqp n l)"
  by (auto simp: simulates_def seqp_def bindp_def split: prod.split sum.split)

lemma simulates_liftr [simulating]: "simulates f (liftr r) (liftr r)"
  by (auto simp: simulates_def liftr_def split: sum.split)

lemma simulates_upd [simulating]: "(\<And>s. h (f s) = f (g s)) \<Longrightarrow> simulates f (upd g) (upd h)"
  by (simp add: simulates_def upd_def)

lemma simulates_zoom [simulating]:
  "(\<And>s. get' (f s) = get s) \<Longrightarrow> (\<And>a s. put' a (f s) = f (put a s)) \<Longrightarrow> simulates f (zoom get put m) (zoom get' put' m)"
  by (auto simp: simulates_def zoom_def split: prod.split)

lemma fromObject_simulates: "simulates (impl_md t) (StandaloneMetadata_fromObject U J ob) (MetadataImpl_fromObject U J ob)"
  unfolding StandaloneMetadata_fromObject_def MetadataImpl_fromObject_def
  by (intro simulating) (simp_all add: impl_md_def)

text \<open>
  The metadata of a standalone computation are those of a computation in a process, which are
  not traced: made from the same content and options, asked for by name, stored in an object and read from one.
\<close>

theorem standalone_metadata_agrees:
  "map_sum id (impl_md False) (StandaloneMetadata_new_options U J content options iid sid now) =
     MetadataImpl_new_options U J content options iid sid now \<and>
   StandaloneMetadata_get U J dateTimeStr md name = MetadataImpl_get U J dateTimeStr (impl_md False md) name \<and>
   StandaloneMetadata_toObject U J md = MetadataImpl_toObject U J (impl_md False md) \<and>
   apsnd (impl_md False) (StandaloneMetadata_fromObject U J ob md) = MetadataImpl_fromObject U J ob (impl_md False md)"
proof (intro conjI)
  show "map_sum id (impl_md False) (StandaloneMetadata_new_options U J content options iid sid now) =
      MetadataImpl_new_options U J content options iid sid now"
    by (auto simp: StandaloneMetadata_new_options_def MetadataImpl_new_options_def StandaloneMetadata_new_def MetadataImpl_new_def
        impl_md_def Let_def sbind_def split: sum.split option.split)
qed (simp_all add: StandaloneMetadata_get_def MetadataImpl_get_def StandaloneMetadata_toObject_def MetadataImpl_toObject_def
    fromObject_simulates [unfolded simulates_def])

text \<open>A computation is loaded as by \<open>ComputationHandle\<close>; only the class of the exception differs.\<close>

lemma loadDso_as_handle:
  "StandaloneEnvironment_loadDso L dsoName =
     map_sum (\<lambda>e. LoadError (exn_what e)) id (ComputationHandle_new L dsoName)"
  by (simp add: StandaloneEnvironment_loadDso_def ComputationHandle_new_def split: option.split)

text \<open>A computation that refuses its configuration is not started.\<close>

lemma invalid_not_started:
  assumes "se_computation e = Some c" and "cp_configure P ''initialize'' config c = (Inr R_Invalid, c')"
  shows "StandaloneEnvironment_initializeComputation J P config e = (Inr R_Invalid, e\<lparr>se_computation := Some c'\<rparr>)"
  using assms by (simp add: StandaloneEnvironment_initializeComputation_def run_computation_def bindp_def seqp_def)

end
