(* ===== verification/File_Sources.thy ===== *)
theory File_Sources
  imports Streams
begin

text \<open>
  \<^verbatim>\<open>arras4_network/lib/network/FileDataSource\<close>: a file as a source of bytes, through an \<^verbatim>\<open>ifstream\<close>. What the code uses of
  it: \<open>read\<close> and \<open>ignore\<close> at the end of the file set the bit for the end, \<open>read\<close> also the one for failure when it
  did not get everything; an operation on a stream that is at its end, \<open>tellg\<close> included, fails.
\<close>

record file_source =
  fs_filepath :: string
  fs_content :: "byte list"
  fs_pos :: nat
  fs_eof :: bool
  fs_fail :: bool

definition FileDataSource_new :: "(string \<Rightarrow> byte list option) \<Rightarrow> string \<Rightarrow> exn + file_source" where
  "FileDataSource_new files filepath =
     (case files filepath of
        None \<Rightarrow> Inl (FileError (''failed to open file '' @ filepath))
      | Some content \<Rightarrow> Inr \<lparr>fs_filepath = filepath, fs_content = content, fs_pos = 0, fs_eof = False, fs_fail = False\<rparr>)"

definition fs_rest :: "file_source \<Rightarrow> byte list" where
  "fs_rest s = drop (fs_pos s) (fs_content s)"

text \<open>\<open>read\<close> of the stream, and the count of \<open>ignore\<close>.\<close>

definition stream_read :: "nat \<Rightarrow> file_source \<Rightarrow> byte list \<times> file_source" where
  "stream_read n s =
     (if fs_eof s \<or> fs_fail s then ([], s\<lparr>fs_fail := True\<rparr>)
      else (let d = take n (fs_rest s); short = (length d < n) in (d, s\<lparr>fs_pos := fs_pos s + length d, fs_eof := short, fs_fail := short\<rparr>)))"

definition stream_ignore :: "nat \<Rightarrow> file_source \<Rightarrow> nat \<times> file_source" where
  "stream_ignore n s =
     (if fs_eof s \<or> fs_fail s then (0, s\<lparr>fs_fail := True\<rparr>)
      else (let k = min n (length (fs_rest s)) in (k, s\<lparr>fs_pos := fs_pos s + k, fs_eof := k < n\<rparr>)))"

definition FileDataSource_read :: "nat \<Rightarrow> (file_source, byte list) proc" where
  "FileDataSource_read n s =
     (if fs_fail s then (Inl (FileError (''failed to read file '' @ fs_filepath s)), s)
      else (case stream_read n s of (d, s') \<Rightarrow> (Inr d, s')))"

definition FileDataSource_skip :: "nat \<Rightarrow> (file_source, nat) proc" where
  "FileDataSource_skip n s =
     (if fs_fail s then (Inl (FileError (''failed to read file '' @ fs_filepath s)), s)
      else (case stream_ignore n s of (k, s') \<Rightarrow> (Inr k, s')))"

definition FileDataSource_bytesRead :: "(file_source, nat) proc" where
  "FileDataSource_bytesRead s =
     (if fs_eof s \<or> fs_fail s
      then (Inl (FileError (''failed to get file read position: '' @ fs_filepath s)), s\<lparr>fs_fail := True\<rparr>)
      else (Inr (fs_pos s), s))"

text \<open>As a source. The interface has no exception for the count; where there is none it is given as 0.\<close>

definition FileDataSource_source :: "file_source data_source" where
  "FileDataSource_source = \<lparr>src_read = FileDataSource_read, src_skip = FileDataSource_skip,
     src_bytesRead = (\<lambda>s. case fst (FileDataSource_bytesRead s) of Inl _ \<Rightarrow> 0 | Inr n \<Rightarrow> n)\<rparr>"

definition fs_good :: "file_source \<Rightarrow> bool" where
  "fs_good s \<longleftrightarrow> \<not> fs_eof s \<and> \<not> fs_fail s"

interpretation file_src: skip_source FileDataSource_source fs_good fs_rest
proof
  fix s :: file_source and n :: nat
  assume "fs_good s" and n: "n \<le> length (fs_rest s)"
  then show "\<exists>s'. src_read FileDataSource_source n s = (Inr (take n (fs_rest s)), s') \<and> fs_good s' \<and>
      fs_rest s' = drop n (fs_rest s) \<and> src_bytesRead FileDataSource_source s' = src_bytesRead FileDataSource_source s + n"
    by (simp add: FileDataSource_source_def FileDataSource_read_def FileDataSource_bytesRead_def stream_read_def fs_good_def fs_rest_def
        Let_def add.commute)
  show "\<exists>s'. src_skip FileDataSource_source n s = (Inr n, s') \<and> fs_good s' \<and>
      fs_rest s' = drop n (fs_rest s) \<and> src_bytesRead FileDataSource_source s' = src_bytesRead FileDataSource_source s + n"
    using \<open>fs_good s\<close> n
    by (simp add: FileDataSource_source_def FileDataSource_skip_def FileDataSource_bytesRead_def stream_ignore_def fs_good_def fs_rest_def
        Let_def add.commute)
qed

text \<open>Reading past the end gives what is left; from then on every operation throws, the count of bytes too.\<close>

lemma file_read_past_end:
  assumes "fs_good s" and "length (fs_rest s) < n"
  shows "\<exists>s'. FileDataSource_read n s = (Inr (fs_rest s), s') \<and> isl (fst (FileDataSource_bytesRead s')) \<and>
    isl (fst (FileDataSource_read k s')) \<and> isl (fst (FileDataSource_skip k s'))"
  using assms
  by (simp add: FileDataSource_read_def FileDataSource_skip_def FileDataSource_bytesRead_def stream_read_def fs_good_def Let_def)

end
