(* ===== verification/Message_Files.thy ===== *)
theory Message_Files
  imports File_Sources Endpoints Environments
begin

text \<open>
  Messages in files: what \<open>MessageWriter\<close> and \<open>MessageReader\<close> save when they are asked to, one message in a file
  named by the time, and the program \<^verbatim>\<open>cmd/msgPlay\<close> that sends the files of a directory to a socket.

  The texts of local times are those of the C library, the record \<open>time_api\<close>; what is printed is left out. Reading an open
  file does not fail.
\<close>

subsection \<open>Saving\<close>

type_synonym byte_files = "string \<Rightarrow> byte list option"

definition save_bytes :: "write_outcome \<Rightarrow> string \<Rightarrow> byte list \<Rightarrow> byte_files \<Rightarrow> bool \<times> byte_files" where
  "save_bytes oc path d fs =
     (case oc of
        CannotOpen \<Rightarrow> (False, fs)
      | CannotWrite t \<Rightarrow> (False, fs(path \<mapsto> string_bytes t))
      | Written \<Rightarrow> (True, fs(path \<mapsto> d)))"

fun sink_bytes :: "nat list \<Rightarrow> multibuffer \<Rightarrow> exn + byte list" where
  "sink_bytes [] m = Inr []"
| "sink_bytes (i # is) m = sbind (mb_at i m) (\<lambda>b. sbind (sink_bytes is m) (\<lambda>d. Inr (Buffer_pending b @ d)))"

definition BufferedSink_writeToFile ::
  "write_outcome \<Rightarrow> string \<Rightarrow> 's buffered_sink \<Rightarrow> byte_files \<Rightarrow> (exn + bool) \<times> byte_files" where
  "BufferedSink_writeToFile oc path k fs =
     (case sink_bytes [0..<MultiBuffer_bufferCount (bsk_multiBuffer k)] (bsk_multiBuffer k) of
        Inl e \<Rightarrow> (Inl e, fs)
      | Inr d \<Rightarrow> (case save_bytes oc path (d @ concat (map Buffer_pending (bsk_appendedBuffers k))) fs of (b, fs) \<Rightarrow> (Inr b, fs)))"

text \<open>The whole frame, also what has been read of it.\<close>

definition BufferedSource_writeToFile ::
  "write_outcome \<Rightarrow> string \<Rightarrow> 's buffered_source \<Rightarrow> byte_files \<Rightarrow> (exn + bool) \<times> byte_files" where
  "BufferedSource_writeToFile oc path q fs =
     (case bsr_buffer q of
        None \<Rightarrow> (Inr False, fs)
      | Some b \<Rightarrow> (case save_bytes oc path (Buffer_written b) fs of (r, fs) \<Rightarrow> (Inr r, fs)))"

text \<open>A writer or reader with its autosave settings and the files.\<close>

record 'k saving =
  sv_inner :: 'k
  sv_autosaving :: bool
  sv_directory :: string
  sv_files :: byte_files

definition enableAutosave :: "string \<Rightarrow> 'k saving \<Rightarrow> 'k saving" where
  "enableAutosave directory s = s\<lparr>sv_directory := directory, sv_autosaving := True\<rparr>"

definition disableAutosave :: "'k saving \<Rightarrow> 'k saving" where
  "disableAutosave s = s\<lparr>sv_autosaving := False\<rparr>"

definition saved_path :: "string \<Rightarrow> string \<Rightarrow> string" where
  "saved_path directory stamp = directory @ ''/'' @ stamp @ ''.msg''"

definition on_inner :: "('k, 'a) proc \<Rightarrow> ('k saving, 'a) proc" where
  "on_inner = zoom sv_inner (\<lambda>k s. s\<lparr>sv_inner := k\<rparr>)"

definition doAutosave ::
  "(write_outcome \<Rightarrow> string \<Rightarrow> 'k \<Rightarrow> byte_files \<Rightarrow> (exn + bool) \<times> byte_files) \<Rightarrow> string \<Rightarrow> write_outcome \<Rightarrow> ('k saving, unit) proc" where
  "doAutosave writeToFile stamp oc s =
     (case writeToFile oc (saved_path (sv_directory s) stamp) (sv_inner s) (sv_files s) of
        (Inl e, fs) \<Rightarrow> (Inl e, s\<lparr>sv_files := fs\<rparr>) | (Inr _, fs) \<Rightarrow> (Inr (), s\<lparr>sv_files := fs\<rparr>))"

text \<open>\<open>stamp\<close> is the time as a file name, \<open>oc\<close> how writing the file goes.\<close>

definition MessageWriter_write_saving ::
  "(nat \<Rightarrow> byte list option) \<Rightarrow> ('s, 'y) framed_sink_scheme \<Rightarrow> ('o, 'z) object_class_scheme \<Rightarrow> string \<Rightarrow> write_outcome \<Rightarrow>
   'o envelope \<Rightarrow> ('s buffered_sink saving, unit) proc" where
  "MessageWriter_write_saving alloc ops cls stamp oc env =
     seqp (on_inner (MessageWriter_prepare alloc cls env))
     (bindp (gets sv_autosaving) (\<lambda>saving.
      seqp (if saving then doAutosave BufferedSink_writeToFile stamp oc else ret ())
      (seqp (on_inner (BufferedSink_closeFrame ops)) (ret ()))))"

definition MessageReader_read_saving ::
  "(nat \<Rightarrow> byte list option) \<Rightarrow> ('s, 'y) framed_source_scheme \<Rightarrow> ('o, 'z) object_class_scheme \<Rightarrow> 'o registry \<Rightarrow> metadata \<Rightarrow> bool \<Rightarrow>
   string \<Rightarrow> write_outcome \<Rightarrow> ('s buffered_source saving, 'o envelope) proc" where
  "MessageReader_read_saving alloc ops cls reg fresh useRegistry stamp oc =
     bindp (on_inner (BufferedSource_nextFrame alloc ops))
       (\<lambda>frameSize.
          if frameSize = 0 then ret (Envelope_new fresh)
          else bindp (gets sv_autosaving) (\<lambda>saving.
            seqp (if saving then doAutosave BufferedSource_writeToFile stamp oc else ret ())
            (on_inner (MessageReader_decode alloc ops cls reg fresh useRegistry))))"

subsection \<open>Times in file names\<close>

text \<open>
  \<open>tm_strftime\<close> prints the seconds of a time as \<^verbatim>\<open>%Y-%m-%d_%H:%M:%S\<close>; \<open>tm_strptime\<close> reads a text by the format
  \<^verbatim>\<open>%Y-%m-%d_%H:%M:%S.\<close> and gives a date with the rest of the text; \<open>tm_mktime\<close> gives the seconds, or -1.
\<close>

record 'd time_api =
  tm_strftime :: "32 word \<Rightarrow> string"
  tm_strptime :: "string \<Rightarrow> ('d \<times> string) option"
  tm_mktime :: "'d \<Rightarrow> int"

text \<open>
  What is used of them: the text is made of digits, minus signs, underscores and colons; a text that is read begins with
  such characters, blanks and plus signs, and a dot.
\<close>

definition date_char :: "char \<Rightarrow> bool" where
  "date_char c \<longleftrightarrow> is_digit c \<or> c = CHR ''-'' \<or> c = CHR ''_'' \<or> c = CHR '':''"

definition time_api_ok :: "'d time_api \<Rightarrow> bool" where
  "time_api_ok T \<longleftrightarrow> (\<forall>t. list_all date_char (tm_strftime T t)) \<and>
     (\<forall>s d r. tm_strptime T s = Some (d, r) \<longrightarrow>
        (\<exists>p. s = p @ ''.'' @ r \<and> list_all (\<lambda>c. date_char c \<or> c_space c \<or> c = CHR ''+'') p))"

definition pad6 :: "string \<Rightarrow> string" where
  "pad6 s = replicate (6 - length s) CHR ''0'' @ s"

definition ArrasTime_filenameStr :: "'d time_api \<Rightarrow> arras_time \<Rightarrow> string" where
  "ArrasTime_filenameStr T t = tm_strftime T (at_seconds t) @ '','' @ pad6 (show_int (sint (at_microseconds t)))"

definition stoi :: "string \<Rightarrow> exn + int" where
  "stoi s =
     (case strtoul_scan s of (neg, ds) \<Rightarrow>
       if ds = [] then Inl (InvalidArgument ''stoi'')
       else (let i = (if neg then - int (parse_digits ds) else int (parse_digits ds)) in
         if i < - (2 ^ 31) \<or> i \<ge> 2 ^ 31 then Inl (StdException ''stoi'') else Inr i))"

text \<open>A number out of range throws an exception that is not caught here.\<close>

definition ArrasTime_fromFilename :: "'d time_api \<Rightarrow> string \<Rightarrow> (arras_time, bool) proc" where
  "ArrasTime_fromFilename T s t =
     (case tm_strptime T s of
        None \<Rightarrow> (Inr False, t)
      | Some (date, p) \<Rightarrow>
          if p = [] then (Inr False, t)
          else (case stoi p of
              Inl (InvalidArgument _) \<Rightarrow> (Inr False, t)
            | Inl e \<Rightarrow> (Inl e, t)
            | Inr ms \<Rightarrow>
                (let t = t\<lparr>at_microseconds := word_of_int ms\<rparr>; secs = tm_mktime T date in
                 if secs = - 1 then (Inr False, t) else (Inr True, t\<lparr>at_seconds := word_of_int secs\<rparr>))))"

subsection \<open>msgPlay\<close>

definition READBUF_SIZE :: nat where "READBUF_SIZE = 16 * 1024"

definition MAX_DELAY :: int where "MAX_DELAY = 30"

definition DELAY :: arras_time where "DELAY = \<lparr>at_seconds = 1, at_microseconds = 0\<rparr>"

text \<open>The file system: sizes, contents and directories.\<close>

record file_system =
  sys_size :: "string \<Rightarrow> nat option"
  sys_files :: byte_files
  sys_dir :: "string \<Rightarrow> string list option"

text \<open>Reading until a read falls short; what it then got, maybe nothing, is sent too.\<close>

function play_bytes :: "('s, 'z) framed_sink_scheme \<Rightarrow> byte list \<Rightarrow> ('s, unit) proc" where
  "play_bytes ops rest =
     bindp (snk_write ops (take READBUF_SIZE rest)) (\<lambda>_.
       if length rest < READBUF_SIZE then ret () else play_bytes ops (drop READBUF_SIZE rest))"
  by pat_completeness auto
termination
  by (relation "measure (\<lambda>(_, rest). length rest)") (simp_all add: READBUF_SIZE_def)

declare play_bytes.simps [simp del]

definition playFile :: "('s, 'z) framed_sink_scheme \<Rightarrow> file_system \<Rightarrow> string \<Rightarrow> ('s, bool) proc" where
  "playFile ops F filepath =
     (case sys_size F filepath of
        None \<Rightarrow> ret False
      | Some n \<Rightarrow>
          bindp (snk_openFrame ops n) (\<lambda>_.
            case sys_files F filepath of
              None \<Rightarrow> ret False
            | Some content \<Rightarrow> seqp (play_bytes ops content) (bindp (snk_closeFrame ops) (\<lambda>_. ret True))))"

definition msg_name :: "string \<Rightarrow> bool" where
  "msg_name fname \<longleftrightarrow> length fname > 4 \<and> drop (length fname - 4) fname = ''.msg''"

definition getFilenames :: "file_system \<Rightarrow> string \<Rightarrow> string list option" where
  "getFilenames F dir =
     (case sys_dir F dir of
        None \<Rightarrow> None
      | Some names \<Rightarrow> (let found = sort (filter msg_name names) in if found = [] then None else Some found))"

text \<open>The sink, and how long each delay slept, in milliseconds.\<close>

record 's player =
  pl_sink :: 's
  pl_slept :: "int list"

definition delay_ms :: "arras_time \<Rightarrow> int" where
  "delay_ms t = min (sint (at_seconds t)) MAX_DELAY * 1000 + sgn (sint (at_microseconds t)) * (\<bar>sint (at_microseconds t)\<bar> div 1000)"

definition doDelay :: "arras_time \<Rightarrow> ('s player, unit) proc" where
  "doDelay t = upd (\<lambda>p. if delay_ms t > 0 then p\<lparr>pl_slept := pl_slept p @ [delay_ms t]\<rparr> else p)"

definition next_delay :: "'d time_api \<Rightarrow> string \<Rightarrow> arras_time \<times> arras_time \<Rightarrow> exn + arras_time \<times> arras_time \<times> arras_time" where
  "next_delay T filename cp =
     (case cp of (cur, prev) \<Rightarrow>
      (case ArrasTime_fromFilename T filename cur of
         (Inl e, _) \<Rightarrow> Inl e
       | (Inr ok, cur) \<Rightarrow>
           (let delay = (if ok \<and> prev \<noteq> ArrasTime_zero then ArrasTime_sub cur prev else DELAY) in
            Inr (delay, cur, if ok then cur else ArrasTime_add prev delay))))"

fun play_files ::
  "'d time_api \<Rightarrow> ('s, 'z) framed_sink_scheme \<Rightarrow> file_system \<Rightarrow> string \<Rightarrow> bool \<Rightarrow> string list \<Rightarrow> arras_time \<times> arras_time \<Rightarrow>
     ('s player, bool) proc" where
  "play_files T ops F path useTimestamps [] cp = ret True"
| "play_files T ops F path useTimestamps (filename # filenames) cp =
     bindp (liftr (if useTimestamps then next_delay T filename cp else Inr (DELAY, cp))) (\<lambda>(delay, cp).
       seqp (doDelay delay)
       (bindp (zoom pl_sink (\<lambda>s p. p\<lparr>pl_sink := s\<rparr>) (playFile ops F (path @ ''/'' @ filename))) (\<lambda>ok.
         if ok then play_files T ops F path useTimestamps filenames cp else ret False)))"

definition playMessages ::
  "'d time_api \<Rightarrow> ('s, 'z) framed_sink_scheme \<Rightarrow> file_system \<Rightarrow> string \<Rightarrow> bool \<Rightarrow> ('s player, bool) proc" where
  "playMessages T ops F path useTimestamps =
     (case getFilenames F path of
        None \<Rightarrow> ret False
      | Some filenames \<Rightarrow> play_files T ops F path useTimestamps filenames (ArrasTime_zero, ArrasTime_zero))"

text \<open>
  The program. An address that is missing is reported and then asked for all the same; \<open>connect\<close> makes the sink, and no
  exception is caught. The thread that receives is joined only on the normal path: \<open>joins\<close> says whether it ends, when the
  other side disconnects, or by another exception.
\<close>

record play_options =
  op_ipc :: "string option"
  op_path :: string
  op_timestamps :: bool

definition msgPlay_main ::
  "'d time_api \<Rightarrow> ('s, 'z) framed_sink_scheme \<Rightarrow> file_system \<Rightarrow> (string \<Rightarrow> exn + 's) \<Rightarrow> bool \<Rightarrow> play_options \<Rightarrow> exn + int" where
  "msgPlay_main T ops F connect joins opts =
     (case op_ipc opts of
        None \<Rightarrow> Inl std_terminate
      | Some addr \<Rightarrow>
          (case connect addr of
             Inl _ \<Rightarrow> Inl std_terminate
           | Inr s \<Rightarrow>
               (case playMessages T ops F (op_path opts) (op_timestamps opts) \<lparr>pl_sink = s, pl_slept = []\<rparr> of
                  (Inl _, _) \<Rightarrow> Inl std_terminate
                | (Inr False, _) \<Rightarrow> Inl std_terminate
                | (Inr True, _) \<Rightarrow> if joins then Inr 0 else Inl std_terminate)))"

subsection \<open>What is saved\<close>

definition saved_message :: "('o, 'z) object_class_scheme \<Rightarrow> 'o envelope \<Rightarrow> byte list" where
  "saved_message cls env = wire_header cls env @ wire_content cls env"

lemma wire_saved: "wire cls env = frame_bytes (frame_header (length (saved_message cls env))) @ saved_message cls env"
  by (simp add: wire_def saved_message_def Let_def)

lemma sink_bytes_all:
  assumes "mb_inv m" and "set is \<subseteq> {..<length (mb_buffers m)}"
  shows "sink_bytes is m = Inr (concat (map (\<lambda>i. Buffer_pending (the (mb_buffers m ! i))) is))"
  using assms(2)
proof (induction "is")
  case Nil
  then show ?case by simp
next
  case (Cons i "is")
  then obtain b where "mb_at i m = Inr b" "mb_buffers m ! i = Some b" using mb_at_inv [OF assms(1), of i] by auto
  then show ?case using Cons by (simp add: sbind_def)
qed

lemma sink_file:
  assumes "bsk_mem_inv alloc k"
  shows "BufferedSink_writeToFile Written path k fs = (Inr True, fs(path \<mapsto> bsk_content k))"
proof -
  let ?m = "bsk_multiBuffer k"
  have m: "mb_inv ?m" "mb_usedBuffers ?m \<le> length (mb_buffers ?m)" "mb_readBuffer ?m = 0" "mb_pending ?m = mb_content ?m"
    using assms by (auto simp: bsk_mem_inv_def mb_sink_inv_def mb_inv_def)
  have "concat (map (\<lambda>i. Buffer_pending (the (mb_buffers ?m ! i))) [0..<mb_usedBuffers ?m]) = mb_content ?m"
    using m map_nth_take [OF m(2), of "Buffer_pending \<circ> the"] by (simp add: mb_pending_def comp_def)
  moreover have "set [0..<mb_usedBuffers ?m] \<subseteq> {..<length (mb_buffers ?m)}" using m(2) by auto
  ultimately show ?thesis
    using sink_bytes_all [OF m(1), of "[0..<mb_usedBuffers ?m]"]
    by (simp add: BufferedSink_writeToFile_def MultiBuffer_bufferCount_def save_bytes_def bsk_content_def)
qed

text \<open>The file a writer leaves holds the message, whatever becomes of sending it.\<close>

lemma autosave_leaves_message:
  assumes "sv_autosaving s" and "bsk_mem_inv alloc (sv_inner s)" and "message_ok cls env"
  shows "sv_files (snd (MessageWriter_write_saving alloc ops cls stamp Written env s)) (saved_path (sv_directory s) stamp) =
    Some (saved_message cls env)"
proof -
  obtain md c where md: "en_metadata env = Some md" "en_content env = Some c" "name_ok md"
      "content_writes cls c (length (wire_header cls env)) (wire_content cls env)"
    using message_okE [OF assms(3)] .
  have hb: "wire_header cls env = envelope_bytes [] protocolVersion md (en_to env) (Envelope_classId cls env) (Envelope_classVersion cls env)"
    using md(1) by (simp add: wire_header_def)
  obtain k where k: "MessageWriter_prepare alloc cls env (sv_inner s) = (Inr (), k)" "bsk_mem_inv alloc k"
      "bsk_content k = saved_message cls env"
    using prepare_message [OF assms(2) md(1,3,2) hb md(4)] by (auto simp: saved_message_def)
  show ?thesis
    using assms(1) k(1) sink_file [OF k(2), of "saved_path (sv_directory s) stamp" "sv_files s"] k(3)
    by (simp add: MessageWriter_write_saving_def on_inner_def zoom_def doAutosave_def seqp_def bindp_def gets_def ret_def
        split: prod.split sum.split)
qed

subsection \<open>Playing\<close>

context frame_sink
begin

lemma play_bytes_ok:
  assumes "inv s" and "length d \<le> room s"
  shows "\<exists>s'. play_bytes ops d s = (Inr (), s') \<and> inv s' \<and> content s' = content s @ d \<and> room s' = room s - length d"
  using assms
proof (induction d arbitrary: s rule: length_induct)
  case (1 d)
  obtain s1 where s1: "snk_write ops (take READBUF_SIZE d) s = (Inr (length (take READBUF_SIZE d)), s1)" "inv s1"
      "content s1 = content s @ take READBUF_SIZE d" "room s1 = room s - length (take READBUF_SIZE d)"
    using fwrite_ok [of s "take READBUF_SIZE d"] "1.prems" by (auto simp: min.coboundedI1)
  show ?case
  proof (cases "length d < READBUF_SIZE")
    case True
    then show ?thesis using s1 by (simp add: play_bytes.simps [of ops d] bindp_def ret_def)
  next
    case False
    have "length (drop READBUF_SIZE d) < length d" using False by (simp add: READBUF_SIZE_def)
    moreover have "length (drop READBUF_SIZE d) \<le> room s1" using s1(4) "1.prems"(2) by simp
    ultimately obtain s2 where "play_bytes ops (drop READBUF_SIZE d) s1 = (Inr (), s2)" "inv s2"
        "content s2 = content s1 @ drop READBUF_SIZE d" "room s2 = room s1 - length (drop READBUF_SIZE d)"
      using "1.IH" s1(2) by blast
    then show ?thesis using s1 False by (simp add: play_bytes.simps [of ops d] bindp_def)
  qed
qed

lemma playFile_ok:
  assumes "inv s" and "sys_size F path = Some (length d)" and "sys_files F path = Some d" and "length d < 2 ^ 32"
  shows "\<exists>s'. playFile ops F path s = (Inr True, s') \<and> inv s' \<and>
    content s' = content s @ frame_bytes (frame_header (length d)) @ d"
proof -
  obtain s1 where s1: "snk_openFrame ops (length d) s = (Inr True, s1)" "inv s1"
      "content s1 = content s @ frame_bytes (frame_header (length d))" "room s1 = length d"
    using open_ok [OF assms(1,4)] by auto
  obtain s2 where s2: "play_bytes ops d s1 = (Inr (), s2)" "inv s2" "content s2 = content s1 @ d" "room s2 = 0"
    using play_bytes_ok [OF s1(2), of d] s1(4) by auto
  obtain s3 where "snk_closeFrame ops s2 = (Inr True, s3)" "inv s3" "content s3 = content s2"
    using close_ok [OF s2(2,4)] by auto
  then show ?thesis using s1 s2 assms(2,3) by (simp add: playFile_def bindp_def seqp_def ret_def)
qed

lemma play_files_ok:
  assumes "inv (pl_sink p)" and "useTimestamps \<Longrightarrow> time_api_ok T"
    and "list_all2 (\<lambda>name env. sys_files F (path @ ''/'' @ name) = Some (saved_message cls env) \<and>
        sys_size F (path @ ''/'' @ name) = Some (length (saved_message cls env)) \<and> length (saved_message cls env) < 2 ^ 32) names envs"
    and "\<And>name cp. name \<in> set names \<Longrightarrow> useTimestamps \<Longrightarrow> \<exists>d cp'. next_delay T name cp = Inr (d, cp')"
  shows "\<exists>p'. play_files T ops F path useTimestamps names cp p = (Inr True, p') \<and> inv (pl_sink p') \<and>
    content (pl_sink p') = content (pl_sink p) @ concat (map (wire cls) envs)"
  using assms(3,1,4)
proof (induction names envs arbitrary: cp p rule: list_all2_induct)
  case Nil
  then show ?case by (simp add: ret_def)
next
  case (Cons name names env envs)
  obtain d cp' where nd: "(if useTimestamps then next_delay T name cp else Inr (DELAY, cp)) = Inr (d, cp')"
    using Cons.prems(2) [of name cp] by (cases useTimestamps) auto
  obtain p1 where p1: "doDelay d p = (Inr (), p1)" "pl_sink p1 = pl_sink p" by (simp add: doDelay_def upd_def)
  obtain s where s: "playFile ops F (path @ ''/'' @ name) (pl_sink p1) = (Inr True, s)" "inv s"
      "content s = content (pl_sink p) @ wire cls env"
    using playFile_ok [of "pl_sink p1" F "path @ ''/'' @ name" "saved_message cls env"] Cons.hyps(1) Cons.prems(1) p1(2)
    by (auto simp: wire_saved)
  obtain p' where "play_files T ops F path useTimestamps names cp' (p1\<lparr>pl_sink := s\<rparr>) = (Inr True, p')" "inv (pl_sink p')"
      "content (pl_sink p') = content s @ concat (map (wire cls) envs)"
    using Cons.IH [of "p1\<lparr>pl_sink := s\<rparr>" cp'] Cons.prems(2) s(2) by auto
  then show ?case using nd p1 s by (simp add: bindp_def seqp_def liftr_def zoom_def)
qed

end

lemma queue_receives: "length freshes = length q \<Longrightarrow> queue_run (map Receive freshes) q = Some (zip freshes q, [])"
proof (induction freshes arbitrary: q)
  case Nil
  then show ?case by simp
next
  case (Cons f freshes)
  then obtain env q' where "q = env # q'" by (cases q) auto
  then show ?case using Cons by simp
qed

subsection \<open>Timestamps\<close>

lemma saved_name_not_read:
  assumes "time_api_ok T"
  shows "ArrasTime_fromFilename T (ArrasTime_filenameStr T t @ ''.msg'') c = (Inr False, c)"
proof -
  let ?td = "tm_strftime T (at_seconds t)" and ?rest = "pad6 (show_int (sint (at_microseconds t))) @ ''.msg''"
  have "tm_strptime T (?td @ '','' @ ?rest) = None"
  proof (rule ccontr)
    assume "tm_strptime T (?td @ '','' @ ?rest) \<noteq> None"
    then obtain d r where "tm_strptime T (?td @ '','' @ ?rest) = Some (d, r)" by auto
    then obtain p where p: "?td @ '','' @ ?rest = p @ ''.'' @ r" "list_all (\<lambda>c. date_char c \<or> c_space c \<or> c = CHR ''+'') p"
      using assms unfolding time_api_ok_def by blast
    have td: "list_all date_char ?td" using assms by (simp add: time_api_ok_def)
    have no: "CHR '','' \<notin> set p" "CHR ''.'' \<notin> set ?td"
      using p(2) td by (auto simp: list_all_iff date_char_def c_space_def is_digit_def)
    from p(1) obtain us where "(?td = p @ us \<and> us @ '','' @ ?rest = ''.'' @ r) \<or> (?td @ us = p \<and> '','' @ ?rest = us @ ''.'' @ r)"
      by (auto simp: append_eq_append_conv2)
    then show False using no by (cases us) auto
  qed
  then show ?thesis by (simp add: ArrasTime_fromFilename_def ArrasTime_filenameStr_def)
qed

text \<open>
  C24 (error). The timestamps that autosave puts into the names of files are never read back: the names have a comma where
  \<open>fromFilename\<close> wants a dot. Playing a directory of saved messages with the option for timestamps is playing it without,
  with a delay of one second before each message.
\<close>

theorem timestamps_never_used:
  assumes "time_api_ok T" and "\<And>names name. sys_dir F path = Some names \<Longrightarrow> name \<in> set names \<Longrightarrow> msg_name name \<Longrightarrow>
      \<exists>t. name = ArrasTime_filenameStr T t @ ''.msg''"
  shows "playMessages T ops F path True p = playMessages T ops F path False p"
proof -
  have same: "play_files T ops F path True names cp q = play_files T ops F path False names cp' q"
    if "\<forall>name \<in> set names. \<exists>t. name = ArrasTime_filenameStr T t @ ''.msg''" for names cp cp' q
    using that
  proof (induction names arbitrary: cp cp' q)
    case Nil
    then show ?case by simp
  next
    case (Cons name names)
    obtain cur prev where cp: "cp = (cur, prev)" by (cases cp)
    have "next_delay T name cp = Inr (DELAY, cur, ArrasTime_add prev DELAY)"
      using Cons.prems saved_name_not_read [OF assms(1), of _ cur] by (auto simp: next_delay_def cp)
    then show ?case
      using Cons.IH [where cp = "(cur, ArrasTime_add prev DELAY)" and cp' = cp'] Cons.prems
      by (simp add: bindp_def seqp_def liftr_def split: prod.split sum.split)
  qed
  show ?thesis
  proof (cases "getFilenames F path")
    case (Some names)
    then have "\<forall>name \<in> set names. \<exists>t. name = ArrasTime_filenameStr T t @ ''.msg''"
      using assms(2) by (auto simp: getFilenames_def Let_def split: option.splits if_splits)
    then show ?thesis using same Some by (simp add: playMessages_def)
  qed (simp add: playMessages_def)
qed

subsection \<open>A recording\<close>

text \<open>Functions for one date only.\<close>

definition dot_time_api :: "unit time_api" where
  "dot_time_api = \<lparr>tm_strftime = (\<lambda>_. ''2024-01-01_10:00:00''),
     tm_strptime = (\<lambda>s. if take 20 s = ''2024-01-01_10:00:00.'' then Some ((), drop 20 s) else None), tm_mktime = (\<lambda>_. 1704103200)\<rparr>"

lemma dot_time_api_ok: "time_api_ok dot_time_api"
proof -
  have "\<exists>p. s = p @ ''.'' @ r \<and> list_all (\<lambda>c. date_char c \<or> c_space c \<or> c = CHR ''+'') p"
    if "tm_strptime dot_time_api s = Some (d, r)" for s d r
  proof -
    have "take 20 s = ''2024-01-01_10:00:00.''" "r = drop 20 s" using that by (auto simp: dot_time_api_def split: if_splits)
    then have "s = ''2024-01-01_10:00:00'' @ ''.'' @ r" by (metis append_take_drop_id append.assoc append_Cons append_Nil)
    then show ?thesis by (intro exI [of _ "''2024-01-01_10:00:00''"]) (simp add: date_char_def is_digit_def)
  qed
  then show ?thesis by (simp add: time_api_ok_def) (simp add: dot_time_api_def date_char_def is_digit_def)
qed

definition sample_files :: file_system where
  "sample_files = \<lparr>sys_size = (\<lambda>_. Some 3), sys_files = (\<lambda>_. Some [1, 2, 3]),
     sys_dir = (\<lambda>_. Some [''2024-01-01_10:00:00,000005.msg'', ''notes'', ''2024-01-01_10:00:00,000004.msg''])\<rparr>"

theorem timestamps_never_used_witness:
  "playMessages dot_time_api (BasicFramingSink_ops (MultiBuffer_sink zeroed_alloc)) sample_files ''d'' True
      \<lparr>pl_sink = BasicFramingSink_new (MultiBuffer_new 64 64), pl_slept = []\<rparr> =
    playMessages dot_time_api (BasicFramingSink_ops (MultiBuffer_sink zeroed_alloc)) sample_files ''d'' False
      \<lparr>pl_sink = BasicFramingSink_new (MultiBuffer_new 64 64), pl_slept = []\<rparr> \<and>
   getFilenames sample_files ''d'' = Some [''2024-01-01_10:00:00,000004.msg'', ''2024-01-01_10:00:00,000005.msg'']"
proof -
  have n: "ArrasTime_filenameStr dot_time_api \<lparr>at_seconds = 1704103200, at_microseconds = 4\<rparr> = ''2024-01-01_10:00:00,000004''"
    "ArrasTime_filenameStr dot_time_api \<lparr>at_seconds = 1704103200, at_microseconds = 5\<rparr> = ''2024-01-01_10:00:00,000005''"
    by code_simp+
  have m: "\<not> msg_name ''notes''" by (simp add: msg_name_def)
  have "\<exists>t. name = ArrasTime_filenameStr dot_time_api t @ ''.msg''"
    if "sys_dir sample_files ''d'' = Some names" "name \<in> set names" "msg_name name" for names name
  proof -
    have "name = ''2024-01-01_10:00:00,000005.msg'' \<or> name = ''2024-01-01_10:00:00,000004.msg''"
      using that m by (auto simp: sample_files_def)
    then show ?thesis
    proof
      assume "name = ''2024-01-01_10:00:00,000005.msg''"
      then show ?thesis using n(2) by (intro exI [of _ "\<lparr>at_seconds = 1704103200, at_microseconds = 5\<rparr>"]) simp
    next
      assume "name = ''2024-01-01_10:00:00,000004.msg''"
      then show ?thesis using n(1) by (intro exI [of _ "\<lparr>at_seconds = 1704103200, at_microseconds = 4\<rparr>"]) simp
    qed
  qed
  moreover have "getFilenames sample_files ''d'' = Some [''2024-01-01_10:00:00,000004.msg'', ''2024-01-01_10:00:00,000005.msg'']"
    by code_simp
  ultimately show ?thesis
    using timestamps_never_used [OF dot_time_api_ok, of sample_files "''d''"] by blast
qed

end
