(* ===== verification/Message_Info.thy ===== *)
theory Message_Info
  imports Message_Files Session_Definitions
begin

text \<open>
  The program \<^verbatim>\<open>cmd/msgInfo\<close>: what the header of a saved message says, for one file or for those of a directory. Parsing the
  command line is boost's.
\<close>

subsection \<open>A stream over a file\<close>

primrec file_stream_run :: "'a in_prog \<Rightarrow> (file_source, 'a) proc" where
  "file_stream_run (InRet a) = ret a"
| "file_stream_run (InThrow e) = raise e"
| "file_stream_run (InRead n f) = bindp (FileDataSource_read n) (\<lambda>d. file_stream_run (f d))"
| "file_stream_run (InSkip n f) = bindp (FileDataSource_skip n) (\<lambda>k. file_stream_run (f k))"
| "file_stream_run (InBytesRead f) = bindp FileDataSource_bytesRead (\<lambda>k. file_stream_run (f k))"

text \<open>As long as there is enough in the file, it is the stream over any source.\<close>

lemma file_stream_as_source:
  assumes "fs_good s" and "in_eval p (fs_rest s) (src_bytesRead FileDataSource_source s) = Some (r, rest, k)"
  shows "file_stream_run p s = InStreamImpl_run FileDataSource_source p s"
  using assms
proof (induction p arbitrary: s)
  case (InRead n f)
  then have n: "n \<le> length (fs_rest s)" by (auto split: if_splits)
  obtain s1 where s1: "src_read FileDataSource_source n s = (Inr (take n (fs_rest s)), s1)" "fs_good s1"
      "fs_rest s1 = drop n (fs_rest s)" "src_bytesRead FileDataSource_source s1 = src_bytesRead FileDataSource_source s + n"
    using file_src.read_ok [OF InRead.prems(1) n] by auto
  have "file_stream_run (f (take n (fs_rest s))) s1 = InStreamImpl_run FileDataSource_source (f (take n (fs_rest s))) s1"
    using InRead.IH [OF rangeI s1(2), of "take n (fs_rest s)"] InRead.prems(2) s1 n by simp
  then show ?case using s1(1) by (simp add: bindp_def FileDataSource_source_def)
next
  case (InSkip n f)
  then have n: "n \<le> length (fs_rest s)" by (auto split: if_splits)
  obtain s1 where s1: "src_skip FileDataSource_source n s = (Inr n, s1)" "fs_good s1"
      "fs_rest s1 = drop n (fs_rest s)" "src_bytesRead FileDataSource_source s1 = src_bytesRead FileDataSource_source s + n"
    using file_src.skip_ok [OF InSkip.prems(1) n] by auto
  have "file_stream_run (f n) s1 = InStreamImpl_run FileDataSource_source (f n) s1"
    using InSkip.IH [OF rangeI s1(2), of n] InSkip.prems(2) s1 n by simp
  then show ?case using s1(1) by (simp add: bindp_def FileDataSource_source_def)
next
  case (InBytesRead f)
  then have b: "FileDataSource_bytesRead s = (Inr (fs_pos s), s)" by (simp add: FileDataSource_bytesRead_def fs_good_def)
  then show ?case
    using InBytesRead.IH [OF rangeI InBytesRead.prems(1), of "fs_pos s"] InBytesRead.prems(2)
    by (simp add: bindp_def gets_def FileDataSource_source_def)
qed simp_all

subsection \<open>msgInfo\<close>

record info_system = file_system +
  sys_isDir :: "string \<Rightarrow> bool option"

datatype out_line = Cout string | Cerr string

definition say :: "out_line \<Rightarrow> (out_line list, unit) proc" where
  "say l = upd (\<lambda>out. out @ [l])"

text \<open>An operation on a value of its own.\<close>

definition applied :: "('j, unit) proc \<Rightarrow> 'j \<Rightarrow> ('s, 'j) proc" where
  "applied p j = (case p j of (Inl e, _) \<Rightarrow> raise e | (Inr _, j') \<Rightarrow> ret j')"

definition readMessageHeader ::
  "'u uuid_api_scheme \<Rightarrow> ('j, 'z) json_obj_scheme \<Rightarrow> ('y) info_system_scheme \<Rightarrow> metadata \<Rightarrow> string \<Rightarrow> 'j \<Rightarrow> (out_line list, 'j) proc" where
  "readMessageHeader U J F fresh filepath ob =
     (case sys_size F filepath of
        None \<Rightarrow> seqp (say (Cerr (''failed to stat file '' @ filepath))) (ret ob)
      | Some n \<Rightarrow>
          bindp (liftr (FileDataSource_new (sys_files F) filepath)) (\<lambda>fds.
          (case file_stream_run (Envelope_deserialize (Envelope_new fresh :: unit envelope)) fds of
             (Inl e, _) \<Rightarrow> raise e
           | (Inr (env, classId, version), _) \<Rightarrow>
               bindp (case en_metadata env of None \<Rightarrow> ret ob | Some md \<Rightarrow> applied (MetadataImpl_toObject U J md) ob)
                 (applied (seqp (js_put J ''_classId'' (js_ofString J (UUID_toString U classId)))
                   (seqp (js_put J ''_version'' (js_ofUInt J (unat version)))
                   (js_put J ''_serialSize'' (js_ofInt J (int n)))))))))"

definition showInfo ::
  "'u uuid_api_scheme \<Rightarrow> ('j, 'z) json_obj_scheme \<Rightarrow> ('y) info_system_scheme \<Rightarrow> metadata \<Rightarrow> string \<Rightarrow> bool \<Rightarrow> string \<Rightarrow>
     (out_line list, unit) proc" where
  "showInfo U J F fresh filepath full prefix =
     bindp (readMessageHeader U J F fresh filepath (js_null J)) (\<lambda>ob.
       if full then say (Cout (prefix @ '' '' @ js_styled J ob))
       else bindp (liftr (js_string J ob ''instanceId'')) (\<lambda>i.
         bindp (liftr (js_string J ob ''routingName'')) (\<lambda>r.
         bindp (liftr (sbind (js_get J ob ''_serialSize'') (js_asInt64 J))) (\<lambda>n.
           say (Cout (prefix @ '' '' @ i @ '' '' @ r @ '' '' @ show_int n @ '' bytes''))))))"

definition showDir ::
  "'u uuid_api_scheme \<Rightarrow> ('j, 'z) json_obj_scheme \<Rightarrow> ('y) info_system_scheme \<Rightarrow> (string \<Rightarrow> metadata) \<Rightarrow> string \<Rightarrow> bool \<Rightarrow>
     (out_line list, unit) proc" where
  "showDir U J F fresh dir full =
     (case sys_dir F dir of
        None \<Rightarrow> say (Cerr (''failed to read directory '' @ dir))
      | Some names \<Rightarrow>
          (let filenames = sort (filter msg_name names) in
           if filenames = [] then say (Cout (''No message files found in directory '' @ dir))
           else forp filenames (\<lambda>fn. showInfo U J F (fresh fn) (dir @ ''/'' @ fn) full fn)))"

definition show_path ::
  "'u uuid_api_scheme \<Rightarrow> ('j, 'z) json_obj_scheme \<Rightarrow> ('y) info_system_scheme \<Rightarrow> (string \<Rightarrow> metadata) \<Rightarrow> string \<Rightarrow> bool \<Rightarrow>
     (out_line list, unit) proc" where
  "show_path U J F fresh path full =
     (case sys_isDir F path of
        None \<Rightarrow> say (Cerr (''failed to stat path '' @ path))
      | Some True \<Rightarrow> showDir U J F fresh path full
      | Some False \<Rightarrow> showInfo U J F (fresh []) path full [])"

text \<open>\<open>args\<close>: the path and whether everything is shown, or why the command line is not one. No exception of a file is caught.\<close>

definition msgInfo_main ::
  "'u uuid_api_scheme \<Rightarrow> ('j, 'z) json_obj_scheme \<Rightarrow> ('y) info_system_scheme \<Rightarrow> (string \<Rightarrow> metadata) \<Rightarrow> exn + string \<times> bool \<Rightarrow>
     (out_line list, int) proc" where
  "msgInfo_main U J F fresh args =
     (case args of
        Inl e \<Rightarrow> seqp (say (Cerr (''error parsing command line : '' @ exn_what e))) (ret (- 1))
      | Inr (path, full) \<Rightarrow> (\<lambda>out. case show_path U J F fresh path full out of
          (Inl _, out') \<Rightarrow> (Inl std_terminate, out') | (Inr _, out') \<Rightarrow> (Inr 0, out')))"

subsection \<open>The header of a saved message\<close>

lemma js_puts3:
  assumes "json_ok J" and "js_isMap J ob" and "distinct [k1, k2, k3]"
  shows "\<exists>ob'. seqp (js_put J k1 v1) (seqp (js_put J k2 v2) (js_put J k3 v3)) ob = (Inr (), ob') \<and>
    js_get J ob' k1 = Inr v1 \<and> js_get J ob' k2 = Inr v2 \<and> js_get J ob' k3 = Inr v3 \<and>
    (\<forall>k. k \<notin> {k1, k2, k3} \<longrightarrow> js_get J ob' k = js_get J ob k)"
proof -
  obtain o1 where o1: "js_put J k1 v1 ob = (Inr (), o1)" "js_isMap J o1" "js_get J o1 k1 = Inr v1"
      "\<forall>k. k \<noteq> k1 \<longrightarrow> js_get J o1 k = js_get J ob k"
    using js_put_ok [OF assms(1,2)] by blast
  obtain o2 where o2: "js_put J k2 v2 o1 = (Inr (), o2)" "js_isMap J o2" "js_get J o2 k2 = Inr v2"
      "\<forall>k. k \<noteq> k2 \<longrightarrow> js_get J o2 k = js_get J o1 k"
    using js_put_ok [OF assms(1) o1(2)] by blast
  obtain o3 where "js_put J k3 v3 o2 = (Inr (), o3)" "js_get J o3 k3 = Inr v3" "\<forall>k. k \<noteq> k3 \<longrightarrow> js_get J o3 k = js_get J o2 k"
    using js_put_ok [OF assms(1) o2(2)] by blast
  then show ?thesis using o1 o2 assms(3) by (auto simp: seqp_def bindp_def)
qed

lemma fromObject_cong:
  assumes "\<And>k. k \<in> {''instanceId'', ''sourceId'', ''creationTime'', ''from'', ''routingName''} \<Longrightarrow> js_get J a k = js_get J b k"
  shows "MetadataImpl_fromObject U J a = MetadataImpl_fromObject U J b"
  using assms by (simp add: MetadataImpl_fromObject_def js_string_def)

lemma seqp_last: "seqp m n s = (Inr (), t) \<Longrightarrow> \<exists>u. n u = (Inr (), t)"
  by (auto simp: seqp_def bindp_def split: prod.splits sum.splits)

lemma js_put_isMap:
  assumes "json_obj_ok J" and "js_put J k v ob = (Inr (), ob')"
  shows "js_isMap J ob'"
proof -
  have "js_set J k v ob = Inr ob'" using assms(2) by (auto simp: js_put_def split: sum.splits)
  then have "js_isMap J ob" using assms(1) unfolding json_obj_ok_def by blast
  then show ?thesis using js_put_ok [OF obj_ok_json [OF assms(1)], of ob k v] assms(2) by auto
qed

lemma toObject_isMap:
  assumes "json_obj_ok J" and "MetadataImpl_toObject U J md ob = (Inr (), ob')"
  shows "js_isMap J ob'"
  using assms(2) js_put_isMap [OF assms(1)] unfolding MetadataImpl_toObject_def by (blast dest!: seqp_last)


definition sample_info_system :: info_system where
  "sample_info_system = \<lparr>sys_size = (\<lambda>_. Some 122),
     sys_files = (\<lambda>_. Some (envelope_bytes [7] protocolVersion
       \<lparr>md_instanceId = 1, md_sourceId = 2, md_creationTime = ArrasTime_zero, md_from = Address_null, md_routingName = ''Ping'', md_trace = True\<rparr>
       [] 5 3 @ [1, 2, 3])),
     sys_dir = (\<lambda>_. None), sys_isDir = (\<lambda>_. Some False)\<rparr>"


end
