(* ===== verification/Spec2Isabelle.thy ===== *)
theory Spec2Isabelle
  imports Exec_Comp Client_Runs Object_Text Farm_Hosts Control_Groups Log_Client Standalone Message_Info
begin

text \<open>
  Verification of arras4_core, the C++ core of a system that runs interactive computations on other machines.

  \<^bold>\<open>The program.\<close> A client asks a coordinator for a session, or starts one on its own machine. The session is a
  set of computations, each a process of its own. Client and computations exchange messages over sockets. From the
  bottom up:

  \<^item> \<^verbatim>\<open>arras4_network\<close>: sinks and sources of bytes, buffers, frames on a stream, sockets;
  \<^item> \<^verbatim>\<open>arras4_message_api\<close>: identifiers, addresses, times, JSON objects, streams of values, the registry of contents;
  \<^item> \<^verbatim>\<open>arras4_core_impl\<close>: messages as frames, system messages, chunks of large messages, routing, the dispatcher with
    its threads, child processes and their manager, the run of a computation, the program \<^verbatim>\<open>execComp\<close>;
  \<^item> \<^verbatim>\<open>arras4_client\<close>: session definitions, local sessions, the client with its threads, the SDK.

  A message goes from \<open>Client_send\<close> through the chunking endpoint, the message endpoint, a frame and the socket to the
  endpoint of the other side, to the dispatcher there, and to the computation's handler; what the handler sends is
  given its destinations by the routing data and goes the same way back. A local session writes a configuration file,
  starts \<^verbatim>\<open>execComp\<close> under the process manager with a socket in its name, and waits for it to register.

  \<^bold>\<open>How code is modelled.\<close> A class is a record of its members, a method \<open>C::m\<close> a definition \<open>C_m\<close>. A method that
  changes state or throws is a \<open>proc\<close>: a function from the state to an exception or a result, and the state, which is
  kept also when it throws. \<open>bindp\<close> and \<open>seqp\<close> are the order of statements, \<open>zoom\<close> the use of a member,
  \<open>rethrow\<close> and \<open>catchp\<close> the handlers. Two exceptions are not those of C++: \<open>Undefined\<close> is undefined behaviour,
  or \<open>std::terminate\<close>, and \<open>NoReturn\<close> a loop that makes no progress. Integers have the width they have in the code:
  \<open>u8\<close> to \<open>u64\<close> are words, a \<open>size_t\<close> that counts memory in use is a natural number. A virtual interface is a record of
  functions. Loops are recursive functions with a measure, and \<open>partial_function\<close> where only the environment ends
  them, such as a call that is interrupted again and again.

  What is not in the sources is a parameter: allocation (\<open>alloc\<close>), jsoncpp (\<open>json_obj\<close>, with the laws \<open>json_obj_ok\<close>),
  libuuid (\<open>uuid_api\<close>), the operating system (\<open>sock_os\<close>, \<open>local_env\<close>, \<open>file_system\<close>), the web service (\<open>http_service\<close>), libcurl (\<open>curl_lib\<close>),
  the texts of local times (\<open>time_api\<close>),
  libcgroup and the files of the kernel (\<open>group_lib\<close>), new identifiers and
  the time, the outcomes of writing files and of fork, and the program's own callbacks. Each has an implementation
  that computes (\<open>zeroed_alloc\<close>, \<open>json_obj_impl\<close>, \<open>hex_uuid_api\<close>, \<open>sample_sock_os\<close>), with which the examples after the
  theorems are evaluated.

  Threads are steps. Each thread has a program counter, a step is what it does between two points at which another
  thread can see a difference, and the reachable states are those of the step relation, in every interleaving:
  \<open>disp_reachable\<close> for the dispatcher, \<open>pm_reachable\<close> for the process manager, \<open>run_reachable\<close> for the run of a
  computation, \<open>progress_step\<close> for the progress sender. An operation that joins threads takes as the argument \<open>others\<close> what
  they do until they have ended.

  \<^bold>\<open>The theories.\<close>

  \<^item> \<open>Arras_Prelude\<close>: exceptions, \<open>proc\<close>, bytes of words, the lemmas that all theories share.
  \<^item> \<open>Buffers\<close>, \<open>MultiBuffers\<close>, \<open>Blocks\<close> (\<^verbatim>\<open>Buffer.h\<close>, \<^verbatim>\<open>MultiBuffer.cc\<close>): the interfaces of sinks and sources, with the
    contracts \<open>byte_sink\<close>, \<open>counted_sink\<close>, \<open>byte_source\<close> and \<open>skip_source\<close> as locales; buffers that implement them; how
    a \<open>MultiBuffer\<close> splits its content.
  \<^item> \<open>Framing\<close> (\<^verbatim>\<open>BasicFramingSink/Source.cc\<close>, \<^verbatim>\<open>BufferedSink/Source.cc\<close>): frames. The locales \<open>frame_sink\<close> and
    \<open>frame_source\<close> follow for every byte sink and byte source by \<open>sublocale\<close>.
  \<^item> \<open>Http_Client\<close> (\<^verbatim>\<open>HttpRequest.cc\<close>, \<^verbatim>\<open>HttpResponse.cc\<close>): requests, and what the callbacks of libcurl make of an answer.
  \<^item> \<open>File_Sources\<close>, \<open>Message_Files\<close>, \<open>Message_Info\<close> (\<^verbatim>\<open>FileDataSource.cc\<close>, \<^verbatim>\<open>cmd/msgPlay\<close>, \<^verbatim>\<open>cmd/msgInfo\<close>): a file as an
    interpretation of \<open>skip_source\<close>, messages saved in files, played again and described.
  \<^item> \<open>Socket_Peers\<close> (\<^verbatim>\<open>Peer.h\<close>, \<^verbatim>\<open>SocketPeer.cc\<close>, \<^verbatim>\<open>IPCSocketPeer.cc\<close>, \<^verbatim>\<open>InetSocketPeer.cc\<close>): sockets over a kernel that
    interrupts calls and transfers parts; a connection is an interpretation of \<open>byte_pipe\<close>.
  \<^item> \<open>Api_Types\<close>, \<open>Streams\<close>, \<open>Json_Api\<close>, \<open>Object_Text\<close> (\<^verbatim>\<open>UUID\<close>, \<^verbatim>\<open>Address\<close>, \<^verbatim>\<open>ArrasTime\<close>,
    \<^verbatim>\<open>StreamImpl.cc\<close>, \<^verbatim>\<open>Object.cc\<close>): value types, their images and texts.
  \<^item> \<open>Messages\<close>, \<open>Endpoints\<close>, \<open>Core_Messages\<close> (\<^verbatim>\<open>MetadataImpl.cc\<close>, \<^verbatim>\<open>Envelope.cc\<close>, \<^verbatim>\<open>MessageReader.cc\<close>,
    \<^verbatim>\<open>MessageWriter.cc\<close>, \<^verbatim>\<open>PeerMessageEndpoint.cc\<close>, \<^verbatim>\<open>core_messages\<close>): messages as frames, and as a queue of the locale
    \<open>byte_pipe\<close>.
  \<^item> \<open>Chunking\<close> (\<^verbatim>\<open>lib/chunking\<close>): large messages in parts, for any endpoint that is a \<open>message_queue\<close>.
  \<^item> \<open>Routing\<close> (\<^verbatim>\<open>lib/routing\<close>): addressing tables against the list of filters they come from, computation maps.
  \<^item> \<open>Limits\<close>, \<open>Dispatcher\<close> (\<^verbatim>\<open>lib/shared_impl\<close>): limits and affinity; queues and the dispatcher with its three threads.
  \<^item> \<open>Environments\<close>, \<open>Processes\<close>, \<open>Process_Runs\<close> (\<^verbatim>\<open>lib/execute\<close>): what a process is started with; the operations of a
    process and of the manager; their runs with the thread that reaps children and the termination threads.
  \<^item> \<open>Control_Groups\<close> (\<^verbatim>\<open>lib/execute/ControlGroup.cc\<close>, \<^verbatim>\<open>process_utils.cc\<close>): limits of memory and processors, out of memory
    notification, members of process groups. \<open>Processes\<close> only records which of these operations the manager calls.
  \<^item> \<open>Computations\<close>, \<open>Exec_Comp\<close>, \<open>Standalone\<close> (\<^verbatim>\<open>lib/computation_impl\<close>, \<^verbatim>\<open>cmd/execComp\<close>, \<^verbatim>\<open>lib/standalone\<close>): the run of a
    computation in its process, with the monitor's thread; the program around it; a computation inside another program.
  \<^item> \<open>Session_Definitions\<close>, \<open>Local_Sessions\<close>, \<open>Progress\<close>, \<open>Clients\<close>, \<open>Client_Runs\<close>, \<open>Sdk\<close>, \<open>Farm_Hosts\<close>,
    \<open>Log_Client\<close> (\<^verbatim>\<open>arras4_client\<close>): the client, from the definition of a session to the SDK, and the clients of two services.
  \<^item> This theory: what spans components, messages and frames on channels, over sockets, in chunks.

  \<^bold>\<open>What is shown.\<close>

  \<^item> Messages arrive. Buffers and frames give back what was written; a message and a system message are
    read back as equal ones; two endpoints on a connection refine a queue under every interleaving; chunks are put
    together in whatever order they come; forwarding changes nothing; another protocol version is refused.
  \<^item> The dispatcher keeps the order of messages, never uses its endpoint after it is gone, and ends: once asked to, its
    threads take at most 25 steps, the sum over its threads of the steps left when each is at its loop's longest
    path.
  \<^item> Routing tables give what the filters say.
  \<^item> The process manager's tables, reservations and threads fit together in every reachable state; a terminating process
    is terminated after at most four steps of its thread, because every wait there is limited; where the thread
    gives up, what then goes wrong.
  \<^item> Memory limits are changed in an order the kernel accepts; a task's processor quota, and a group that is out of
    memory, are never reported.
  \<^item> A computation reads from its configuration what the session put there; its run ends with its threads, or how not; the
    exit codes.
  \<^item> Saved messages, when played, arrive as they were saved; the times in their names are never used; what \<^verbatim>\<open>msgInfo\<close>
    says of them.
  \<^item> A posted text arrives whole, and so does the answer; the records of a log are those of its lines.
  \<^item> The client: how searching, resolving, creating and refusing a session end, how long it waits, and where
    ending or repeating a connection ends the program.

  Several theorems show what the code does and does not mean to do: they are listed as findings with the manifest.
  The fuel of a recursive reader (\<open>value_size\<close> in \<open>Object_Text\<close>) is the size of the value, which is proved to be enough.

  \<^bold>\<open>Not modelled.\<close> Log output and traces, which change nothing else; the wrappers of libmicrohttpd and OpenSSL, whose
  behaviour is that of the library; the texts of local times for people, which depend on time zone data; other platforms than
  Linux; the crash reporter; the parsing of options; the command line tools \<^verbatim>\<open>runComp\<close>, \<^verbatim>\<open>arrasRez\<close> and
  \<^verbatim>\<open>msgClientPlay\<close>, and test programs. Real numbers occur only as their texts.
\<close>

subsection \<open>Sample values for the witnesses\<close>

definition sample_md :: metadata where
  "sample_md = \<lparr>md_instanceId = 1, md_sourceId = 2, md_creationTime = ArrasTime_zero, md_from = Address_null,
     md_routingName = ''PingMessage'', md_trace = True\<rparr>"

definition sample_env :: "core_message envelope" where
  "sample_env = \<lparr>en_content = Some (ObjectContent (PingMessage ''status'')), en_metadata = Some sample_md,
     en_to = [Address_null]\<rparr>"

lemma sample_name_ok: "name_ok sample_md"
  by (simp add: name_ok_def sample_md_def)

lemma sample_core_ok: "core_ok (PingMessage ''status'')"
  by (simp add: core_ok_def)

lemma core_message_ok:
  assumes "en_content env = Some (ObjectContent m)" and "core_ok m" and "en_metadata env = Some md" and "name_ok md"
    and "length (wire_header (core_class al) env @ core_image m) < 2 ^ 32"
  shows "message_ok (core_class al) env" and "wire_content (core_class al) env = core_image m"
  using assms core_serialize_image [OF assms(2)]
  by (simp_all add: message_ok_def wire_content_def content_data_def core_class_def)

lemma sample_message_ok: "message_ok (core_class al) sample_env"
proof (rule core_message_ok(1))
  show "en_content sample_env = Some (ObjectContent (PingMessage ''status''))"
    and "en_metadata sample_env = Some sample_md"
    by (simp_all add: sample_env_def)
  show "length (wire_header (core_class al) sample_env @ core_image (PingMessage ''status'')) < 2 ^ 32"
    by (simp add: wire_header_def length_envelope_bytes sample_env_def sample_md_def core_image_def
        out_eval_out_string)
qed (simp_all add: sample_core_ok sample_name_ok)

subsection \<open>Messages\<close>

text \<open>
  C1 (refinement). Two message endpoints on the two sockets of a connection refine a first-in first-out
  queue of messages: whatever the interleaving of sends at one end and receives at the other, however
  the kernel splits the transfers and interrupts its calls, every operation succeeds, each receive
  delivers the oldest undelivered message with its addresses, its metadata (but for the creation time,
  which is the receiver's) and its content bytes, and what is left on the wire is exactly the frames of
  the messages not yet received. Premises: memory can be allocated, the connection stays up, the
  messages are ones the protocol can carry, and no receive is done on an empty queue.
\<close>

theorem message_link_fifo:
  assumes "alloc_ok alloc" and "socket_link_inv os tx rx I onwire pat l" and "onwire (sl_os l) = []"
    and "sends_ok cls cmds" and "queue_run cmds [] = Some (outs, q')"
  shows "\<exists>envs l'. link_run alloc (socket_channel os) cls reg cmds (link_new l) = (Inr envs, l') \<and>
    list_all2 (\<lambda>(fresh, env) env'. delivers cls fresh env env') outs envs \<and>
    onwire (sl_os (lk_channel l')) = concat (map (wire cls) q')"
proof -
  have "socket_pipe.link_rel os tx rx I onwire pat alloc cls (link_new l) []"
    using assms(1,2,3)
    by (simp add: socket_pipe.link_rel_def link_new_def PeerMessageEndpoint_new_inv)
  from socket_pipe.link_refines_queue [OF assms(1) this assms(4,5), of reg] show ?thesis
    by (auto simp: socket_pipe.link_rel_def)
qed

theorem message_link_fifo_witness:
  "queue_run [Send sample_env, Send sample_env, Receive sample_md] [] = Some ([(sample_md, sample_env)], [sample_env]) \<and>
   (\<exists>envs l'. link_run zeroed_alloc (socket_channel sample_sock_os) (core_class zeroed_alloc) core_registry
        [Send sample_env, Send sample_env, Receive sample_md] (link_new sample_link) = (Inr envs, l') \<and>
      list_all2 (\<lambda>(fresh, env) env'. delivers (core_class zeroed_alloc) fresh env env') [(sample_md, sample_env)] envs \<and>
      fst (sl_os (lk_channel l')) = concat (map (wire (core_class zeroed_alloc)) [sample_env]))"
proof -
  have "sends_ok (core_class zeroed_alloc) [Send sample_env, Send sample_env, Receive sample_md]"
    by (auto simp: sends_ok_def sample_message_ok)
  moreover have "fst (sl_os sample_link) = []" by (simp add: sample_link_def)
  ultimately show ?thesis
    using message_link_fifo [OF alloc_ok_zeroed sample_link_inv, of "core_class zeroed_alloc"
        "[Send sample_env, Send sample_env, Receive sample_md]" "[(sample_md, sample_env)]" "[sample_env]" core_registry]
    by simp
qed





text \<open>
  Header expansion: a message whose header carries fields this version does not know,
  in an expansion section of any length between the routing name and the addresses, and whose protocol
  version has the same major number, is read with exactly the metadata, addresses and content it has
  without them.
\<close>

theorem header_expansion_skipped:
  assumes "alloc_ok alloc" and "mb_inv m" and "name_ok md"
    and "drop_bit 8 ver = ARRAS_MESSAGING_API_VERSION_MAJOR"
    and "length (envelope_bytes ext ver md ds i v @ d) < 2 ^ 32"
    and "mb_pending m = frame_bytes (frame_header (length (envelope_bytes ext ver md ds i v @ d))) @
           envelope_bytes ext ver md ds i v @ d @ rest"
  shows "\<exists>q b. MessageReader_read alloc (BasicFramingSource_ops MultiBuffer_source) cls reg fresh False
      (BufferedSource_new (BasicFramingSource_new m)) =
      (Inr \<lparr>en_content = Some (OpaqueContent i v (Some b)), en_metadata = Some (md_received fresh md), en_to = ds\<rparr>, q) \<and>
    Buffer_pending b = d \<and> mb_pending (fsr_input (bsr_input q)) = rest"
  using mbuf_src.framing.read_opaque [OF assms(1) _ assms(3,4) refl assms(5),
      of "BufferedSource_new (BasicFramingSource_new m)" rest False reg cls fresh] assms(2,6)
  by (auto simp: BufferedSource_new_def BasicFramingSource_new_def)

definition sample_channel :: "byte list \<Rightarrow> multibuffer" where
  "sample_channel d = (MultiBuffer_new 16 64)\<lparr>mb_usedBuffers := 1, mb_buffers := [Some (Buffer_wrap d (length d))]\<rparr>"

lemma sample_channel_ok: "mb_inv (sample_channel d)" "mb_pending (sample_channel d) = d"
  by (simp_all add: sample_channel_def MultiBuffer_new_def mb_inv_def mb_pending_def Buffer_wrap_def Buffer_inv_def
      Buffer_pending_def buffer_defs)

definition sample_header :: "u16 \<Rightarrow> byte list" where
  "sample_header ver = envelope_bytes [9, 9, 9] ver sample_md [Address_null] 5 0"

lemma length_sample_header: "length (sample_header ver) = 176"
  by (simp add: sample_header_def length_envelope_bytes sample_md_def)

theorem header_expansion_skipped_witness:
  "drop_bit 8 0x0407 = ARRAS_MESSAGING_API_VERSION_MAJOR \<and>
   (\<exists>q b. MessageReader_read zeroed_alloc (BasicFramingSource_ops MultiBuffer_source) (core_class zeroed_alloc) core_registry
      sample_md False (BufferedSource_new (BasicFramingSource_new
        (sample_channel (frame_bytes (frame_header 178) @ sample_header 0x0407 @ [1, 2])))) =
      (Inr \<lparr>en_content = Some (OpaqueContent 5 0 (Some b)), en_metadata = Some (md_received sample_md sample_md),
            en_to = [Address_null]\<rparr>, q) \<and> Buffer_pending b = [1, 2])"
  using header_expansion_skipped [of zeroed_alloc "sample_channel (frame_bytes (frame_header 178) @ sample_header 0x0407 @ [1, 2])"
      sample_md "0x0407" "[9, 9, 9]" "[Address_null]" 5 0 "[1, 2]" "[]" "core_class zeroed_alloc" core_registry sample_md,
      folded sample_header_def]
  by (auto simp: sample_channel_ok sample_name_ok length_sample_header ARRAS_MESSAGING_API_VERSION_MAJOR_def)

text \<open>
  C34 (error). A message whose protocol version has another major number is refused with a
  \<open>MessageFormatError\<close>, whatever else it holds.
\<close>

theorem wrong_version_refused:
  assumes "alloc_ok alloc" and "mb_inv m" and "drop_bit 8 ver \<noteq> ARRAS_MESSAGING_API_VERSION_MAJOR"
    and "length (envelope_bytes ext ver md ds i v @ d) < 2 ^ 32"
    and "mb_pending m = frame_bytes (frame_header (length (envelope_bytes ext ver md ds i v @ d))) @
           envelope_bytes ext ver md ds i v @ d @ rest"
  shows "\<exists>q text. MessageReader_read alloc (BasicFramingSource_ops MultiBuffer_source) cls reg fresh useRegistry
      (BufferedSource_new (BasicFramingSource_new m)) = (Inl (MessageFormatError text), q)"
  using mbuf_src.framing.read_bad_version [OF assms(1) _ assms(3) refl assms(4),
      of "BufferedSource_new (BasicFramingSource_new m)" rest cls reg fresh useRegistry] assms(2,5)
  by (auto simp: BufferedSource_new_def BasicFramingSource_new_def)

theorem wrong_version_refused_witness:
  "\<exists>q text. MessageReader_read zeroed_alloc (BasicFramingSource_ops MultiBuffer_source) (core_class zeroed_alloc) core_registry
      sample_md True (BufferedSource_new (BasicFramingSource_new
        (sample_channel (frame_bytes (frame_header 178) @ sample_header 0x0302 @ [1, 2])))) = (Inl (MessageFormatError text), q)"
  using wrong_version_refused [of zeroed_alloc "sample_channel (frame_bytes (frame_header 178) @ sample_header 0x0302 @ [1, 2])"
      "0x0302" "[9, 9, 9]" sample_md "[Address_null]" 5 0 "[1, 2]" "[]" "core_class zeroed_alloc" core_registry sample_md True,
      folded sample_header_def]
  by (auto simp: sample_channel_ok length_sample_header ARRAS_MESSAGING_API_VERSION_MAJOR_def)

subsection \<open>Chunking\<close>

text \<open>
  C3 (round trip). A message that is too large for one frame: the chunking endpoint sends it as a series
  of chunk messages, and the chunking endpoint at the other end of the channel delivers, in one call
  of \<open>getEnvelope\<close>, the equal object with its addresses and metadata, and forgets the chunks.
\<close>

theorem chunked_message_roundtrip:
  assumes "alloc_ok alloc" and "0 < initial" and "chunkable cls reg config x md ds d"
  shows "\<exists>a b. ChunkingMessageEndpoint_putEnvelope alloc
      (PeerMessageEndpoint_ops alloc (MultiBuffer_peer alloc) (chunked_class alloc cls) reg fresh) (chunked_class alloc cls)
      (app_envelope x md ds)
      (ChunkingMessageEndpoint_new (PeerMessageEndpoint_new (MultiBuffer_new initial linear) True) config) = (Inr (), a) \<and>
    ChunkingMessageEndpoint_getEnvelope
      (PeerMessageEndpoint_ops alloc (MultiBuffer_peer alloc) (chunked_class alloc cls) reg fresh) (chunked_class alloc cls) reg
      (ChunkingMessageEndpoint_new (PeerMessageEndpoint_new (pe_peer (ce_source a)) True) config') =
      Some (Inr (app_envelope x (md_received fresh md) ds), b) \<and> (\<forall>k. map_of (ce_unchunkers b) k = None)"
proof -
  let ?es = "chunk_envelopes alloc cls config x md ds d" and ?w = "wire (chunked_class alloc cls)"
  have "mb_sink_inv alloc (MultiBuffer_new initial linear)" "mb_pending (MultiBuffer_new initial linear) = []"
    using assms(1,2) by (simp_all add: MultiBuffer_new_ok)
  from put_chunkable [OF assms(1,3) this, of fresh] obtain a where a: "ChunkingMessageEndpoint_putEnvelope alloc
      (PeerMessageEndpoint_ops alloc (MultiBuffer_peer alloc) (chunked_class alloc cls) reg fresh) (chunked_class alloc cls)
      (app_envelope x md ds)
      (ChunkingMessageEndpoint_new (PeerMessageEndpoint_new (MultiBuffer_new initial linear) True) config) = (Inr (), a)"
      "mb_sink_inv alloc (pe_peer (ce_source a))" "mb_pending (pe_peer (ce_source a)) = concat (map ?w ?es)"
    by blast
  have "map ?w ?es = map ?w (map ((!) ?es) [0..<length ?es])" by (simp only: map_nth)
  then have "mb_pending (pe_peer (ce_source a)) = concat (map (\<lambda>i. ?w (?es ! i)) [0..<length (blocks (cc_chunkSize config) d)])"
    using a(3) by (simp add: comp_def)
  from chunks_received [OF assms(1,3) a(2) _ _ this, of fresh config'] a(1) show ?thesis
    by (auto simp: atLeast0LessThan)
qed

definition sample_class :: "core_message object_class" where
  "sample_class = (core_class zeroed_alloc)\<lparr>oc_serializedLength := \<lambda>m. length (core_image m)\<rparr>"

definition sample_registry :: "core_message chunked registry" where
  "sample_registry = ContentRegistry_registerFactory MessageChunk_ID (Some (\<lambda>_. Some (Chunk MessageChunk_new)))
     (ContentRegistry_registerFactory (core_classId PingMessage_new) (Some (\<lambda>_. Some (App PingMessage_new))) [])"

definition sample_config :: chunking_config where
  "sample_config = \<lparr>cc_enabled = True, cc_minChunkingSize = 4, cc_chunkSize = 4\<rparr>"

lemma sample_chunkable:
  "chunkable sample_class sample_registry sample_config (PingMessage ''status'') sample_md [Address_null]
     (core_image (PingMessage ''status''))"
proof -
  let ?m = "PingMessage ''status''"
  have len: "length (core_image ?m) = 10" by (simp add: core_image_def out_eval_out_string)
  have few: "length (blocks 4 (core_image ?m)) < 2 ^ 16"
    using len by (simp add: blocks.simps [of 4])
  have create: "ContentRegistry_create MessageChunk_ID 0 sample_registry = Some (Chunk MessageChunk_new)"
      "ContentRegistry_create (core_classId ?m) 0 sample_registry = Some (App PingMessage_new)"
    by (simp_all add: sample_registry_def ContentRegistry_registerFactory_def ContentRegistry_create_def
        MessageChunk_ID_def PingMessage_new_def)
  have "no_skip (core_deserialize zeroed_alloc PingMessage_new 0)"
    by (simp add: PingMessage_new_def in_string_def)
  with create core_deserialize_image [OF alloc_ok_zeroed sample_core_ok, of 0 "[]" 0]
  have "reads_back sample_class sample_registry ?m (core_image ?m)"
    by (simp add: reads_back_def sample_class_def core_class_def core_classVersion_def)
  with len few core_serialize_image [OF sample_core_ok, of 0] sample_name_ok show ?thesis
    by (simp add: chunkable_def sample_class_def core_class_def sample_config_def sample_md_def)
qed

theorem chunked_message_roundtrip_witness:
  "chunkable sample_class sample_registry sample_config (PingMessage ''status'') sample_md [Address_null]
     (core_image (PingMessage ''status'')) \<and>
   (\<exists>a b. ChunkingMessageEndpoint_putEnvelope zeroed_alloc
      (PeerMessageEndpoint_ops zeroed_alloc (MultiBuffer_peer zeroed_alloc) (chunked_class zeroed_alloc sample_class)
        sample_registry sample_md) (chunked_class zeroed_alloc sample_class)
      (app_envelope (PingMessage ''status'') sample_md [Address_null])
      (ChunkingMessageEndpoint_new (PeerMessageEndpoint_new (MultiBuffer_new 16 64) True) sample_config) = (Inr (), a) \<and>
    ChunkingMessageEndpoint_getEnvelope
      (PeerMessageEndpoint_ops zeroed_alloc (MultiBuffer_peer zeroed_alloc) (chunked_class zeroed_alloc sample_class)
        sample_registry sample_md) (chunked_class zeroed_alloc sample_class) sample_registry
      (ChunkingMessageEndpoint_new (PeerMessageEndpoint_new (pe_peer (ce_source a)) True) sample_config) =
      Some (Inr (app_envelope (PingMessage ''status'') (md_received sample_md sample_md) [Address_null]), b))"
  using chunked_message_roundtrip [OF alloc_ok_zeroed _ sample_chunkable, of 16 sample_md 64 sample_config] sample_chunkable
  by auto

text \<open>
  C14 (functional). Chunks may arrive in any order: whatever the permutation in which the chunk messages
  of a message stand in the channel, one call of \<open>getEnvelope\<close> consumes them and delivers the message.
\<close>

theorem chunks_any_order:
  assumes "alloc_ok alloc" and "chunkable cls reg config x md ds d"
    and "mb_sink_inv alloc m" and "distinct is" and "set is = {..<length (blocks (cc_chunkSize config) d)}"
    and "mb_pending m =
      concat (map (\<lambda>i. wire (chunked_class alloc cls) (chunk_envelopes alloc cls config x md ds d ! i)) is)"
  shows "\<exists>b. ChunkingMessageEndpoint_getEnvelope
      (PeerMessageEndpoint_ops alloc (MultiBuffer_peer alloc) (chunked_class alloc cls) reg fresh)
      (chunked_class alloc cls) reg (ChunkingMessageEndpoint_new (PeerMessageEndpoint_new m True) config') =
      Some (Inr (app_envelope x (md_received fresh md) ds), b) \<and> (\<forall>k. map_of (ce_unchunkers b) k = None)"
  by (rule chunks_received [OF assms])

theorem chunks_any_order_witness:
  "\<exists>b. ChunkingMessageEndpoint_getEnvelope
      (PeerMessageEndpoint_ops zeroed_alloc (MultiBuffer_peer zeroed_alloc) (chunked_class zeroed_alloc sample_class)
        sample_registry sample_md) (chunked_class zeroed_alloc sample_class) sample_registry
      (ChunkingMessageEndpoint_new (PeerMessageEndpoint_new
        (sample_channel (concat (map (\<lambda>i. wire (chunked_class zeroed_alloc sample_class)
          (chunk_envelopes zeroed_alloc sample_class sample_config (PingMessage ''status'') sample_md [Address_null]
            (core_image (PingMessage ''status'')) ! i)) [2, 0, 1]))) True) sample_config) =
      Some (Inr (app_envelope (PingMessage ''status'') (md_received sample_md sample_md) [Address_null]), b)"
proof -
  have "length (core_image (PingMessage ''status'')) = 10" by (simp add: core_image_def out_eval_out_string)
  then have n: "{2, 0, 1} = {..<length (blocks 4 (core_image (PingMessage ''status'')))}"
    by (auto simp: blocks.simps [of 4])
  let ?ch = "sample_channel (concat (map (\<lambda>i. wire (chunked_class zeroed_alloc sample_class)
      (chunk_envelopes zeroed_alloc sample_class sample_config (PingMessage ''status'') sample_md [Address_null]
        (core_image (PingMessage ''status'')) ! i)) [2, 0, 1]))"
  have "mb_sink_inv zeroed_alloc ?ch"
    using sample_channel_ok(1) by (simp add: mb_sink_inv_def alloc_ok_zeroed) (simp add: sample_channel_def MultiBuffer_new_def)
  from chunks_any_order [OF alloc_ok_zeroed sample_chunkable this, of "[2, 0, 1]" sample_md sample_config] n
  show ?thesis by (auto simp: sample_channel_ok sample_config_def)
qed

text \<open>
  What is sent for a large message: the chunk messages carry consecutive pieces of its
  serialized form, none longer than the chunk size, each with its index, its offset, the number of
  pieces and the total size, and none of these numbers is cut to fit its field.
\<close>

theorem chunks_partition_content:
  assumes "alloc_ok alloc" and "0 < initial" and "chunkable cls reg config x md ds d"
    and "es = chunk_envelopes alloc cls config x md ds d"
  shows "\<exists>a. ChunkingMessageEndpoint_putEnvelope alloc
      (PeerMessageEndpoint_ops alloc (MultiBuffer_peer alloc) (chunked_class alloc cls) reg fresh) (chunked_class alloc cls)
      (app_envelope x md ds)
      (ChunkingMessageEndpoint_new (PeerMessageEndpoint_new (MultiBuffer_new initial linear) True) config) = (Inr (), a) \<and>
    mb_pending (pe_peer (ce_source a)) = concat (map (wire (chunked_class alloc cls)) es) \<and>
    (\<forall>i < length es. \<exists>ck. en_content (es ! i) = Some (ObjectContent (Chunk ck)) \<and>
      unat (ck_chunkIndex ck) = i \<and> unat (ck_numberOfChunks ck) = length es \<and>
      unat (ck_offset ck) = i * cc_chunkSize config \<and>
      ck_payload ck = take (cc_chunkSize config) (drop (i * cc_chunkSize config) d) \<and>
      unat (ck_payloadLength ck) = length (ck_payload ck) \<and> unat (ck_unchunkedSize ck) = length d)"
proof -
  have "mb_sink_inv alloc (MultiBuffer_new initial linear)" "mb_pending (MultiBuffer_new initial linear) = []"
    using assms(1,2) by (simp_all add: MultiBuffer_new_ok)
  from put_chunkable [OF assms(1,3) this, of fresh] chunk_envelopes_nth [OF assms(3)] show ?thesis
    unfolding assms(4) by blast
qed

theorem chunks_partition_content_witness:
  "\<exists>a es. ChunkingMessageEndpoint_putEnvelope zeroed_alloc
      (PeerMessageEndpoint_ops zeroed_alloc (MultiBuffer_peer zeroed_alloc) (chunked_class zeroed_alloc sample_class)
        sample_registry sample_md) (chunked_class zeroed_alloc sample_class)
      (app_envelope (PingMessage ''status'') sample_md [Address_null])
      (ChunkingMessageEndpoint_new (PeerMessageEndpoint_new (MultiBuffer_new 16 64) True) sample_config) = (Inr (), a) \<and>
    mb_pending (pe_peer (ce_source a)) = concat (map (wire (chunked_class zeroed_alloc sample_class)) es)"
  using chunks_partition_content [OF alloc_ok_zeroed _ sample_chunkable refl, of 16 sample_md 64] by auto

subsection \<open>Framing and buffers\<close>

text \<open>
  C12 (round trip). Whatever blocks a client writes into one frame of a \<open>BufferedSink\<close> that sends
  through a \<open>BasicFramingSink\<close> into a byte channel (here the library's own \<open>MultiBuffer\<close>), closing
  the frame succeeds, and a \<open>BufferedSource\<close> over a \<open>BasicFramingSource\<close> on the same channel
  delivers exactly the bytes written, as one frame of that length.
\<close>

theorem frame_roundtrip:
  assumes "alloc_ok alloc" and "0 < initial"
    and "0 < length (concat ds)" and "length (concat ds) < 2 ^ 32"
  shows "\<exists>k q. seqp (forp ds (\<lambda>d. seqp (BufferedSink_write alloc d) (ret ())))
                 (BufferedSink_closeFrame (BasicFramingSink_ops (MultiBuffer_sink alloc)))
               (BufferedSink_new (BasicFramingSink_new (MultiBuffer_new initial linear))) = (Inr True, k) \<and>
    BufferedSource_nextFrame alloc (BasicFramingSource_ops MultiBuffer_source)
      (BufferedSource_new (BasicFramingSource_new (fsk_output (bsk_output k)))) = (Inr (length (concat ds)), q) \<and>
    bsr_pending q = concat ds"
proof -
  let ?d = "concat ds" and ?m = "MultiBuffer_new initial linear"
  let ?k0 = "BufferedSink_new (BasicFramingSink_new ?m)"
  let ?snk = "BasicFramingSink_ops (MultiBuffer_sink alloc)"
  have m: "mb_sink_inv alloc ?m" "mb_pending ?m = []"
    using assms by (simp_all add: MultiBuffer_new_ok)
  have k0: "bsk_mem_inv alloc ?k0" "bsk_content ?k0 = []" "bsk_output ?k0 = BasicFramingSink_new ?m"
      "bsk_appendedBuffers ?k0 = []"
    using BufferedSink_new_ok [OF assms(1)] by (simp_all add: BufferedSink_new_def)
  obtain k1 where k1: "forp ds (\<lambda>d. seqp (BufferedSink_write alloc d) (ret ())) ?k0 = (Inr (), k1)"
      "bsk_mem_inv alloc k1" "bsk_output k1 = BasicFramingSink_new ?m" "bsk_content k1 = ?d"
    using bufsink.forp_write [of alloc ?k0 "BasicFramingSink_new ?m" ds] k0
    by (auto simp: BufferedSink_ops_def)
  obtain k2 where k2: "BufferedSink_closeFrame ?snk k1 = (Inr True, k2)"
      "mb_sink_inv alloc (fsk_output (bsk_output k2))"
      "mb_pending (fsk_output (bsk_output k2)) = frame_bytes (frame_header (length ?d)) @ ?d"
    using mbuf_pipe.framing.closeFrame_ok [of alloc k1 alloc] k1 m assms(4)
    by (auto simp: BasicFramingSink_new_def)
  let ?q0 = "BufferedSource_new (BasicFramingSource_new (fsk_output (bsk_output k2)))"
  obtain q where "BufferedSource_nextFrame alloc (BasicFramingSource_ops MultiBuffer_source) ?q0 =
        (Inr (length ?d), q)" "bsr_pending q = ?d"
    using mbuf_src.framing.nextFrame_ok [of alloc ?q0 ?d "[]"] k2 assms
    by (auto simp: BufferedSource_new_def BasicFramingSource_new_def mb_sink_inv_def)
  with k1 k2 show ?thesis by auto
qed
theorem frame_roundtrip_witness:
  "alloc_ok zeroed_alloc \<and> concat [[1, 2], [3]] = ([1, 2, 3] :: byte list) \<and>
   (\<exists>k q. seqp (forp [[1, 2], [3]] (\<lambda>d. seqp (BufferedSink_write zeroed_alloc d) (ret ())))
                 (BufferedSink_closeFrame (BasicFramingSink_ops (MultiBuffer_sink zeroed_alloc)))
               (BufferedSink_new (BasicFramingSink_new (MultiBuffer_new 8 64))) = (Inr True, k) \<and>
    BufferedSource_nextFrame zeroed_alloc (BasicFramingSource_ops MultiBuffer_source)
      (BufferedSource_new (BasicFramingSource_new (fsk_output (bsk_output k)))) = (Inr 3, q) \<and>
    bsr_pending q = [1, 2, 3])"
  using frame_roundtrip [of zeroed_alloc 8 "[[1, 2], [3]]" 64] by (simp add: numeral_3_eq_3)

fun read_all :: "nat list \<Rightarrow> (multibuffer, byte list list) proc" where
  "read_all [] = ret []"
| "read_all (n # ns) = bindp (MultiBuffer_read n) (\<lambda>d. bindp (read_all ns) (\<lambda>ds. ret (d # ds)))"

lemma read_all_ok:
  assumes "mb_inv m" and "sum_list ns \<le> length (mb_pending m)"
  shows "\<exists>pieces m'. read_all ns m = (Inr pieces, m') \<and> map length pieces = ns \<and>
    concat pieces = take (sum_list ns) (mb_pending m)"
  using assms
proof (induction ns arbitrary: m)
  case (Cons n ns)
  obtain m1 where m1: "MultiBuffer_read n m = (Inr (take n (mb_pending m)), m1)" "mb_inv m1"
      "mb_pending m1 = drop n (mb_pending m)"
    using MultiBuffer_read_ok [of m n] Cons.prems by auto
  have "sum_list ns \<le> length (mb_pending m1)" using m1(3) Cons.prems(2) by simp
  then obtain pieces m' where "read_all ns m1 = (Inr pieces, m')" "map length pieces = ns"
      "concat pieces = take (sum_list ns) (mb_pending m1)"
    using Cons.IH [OF m1(2)] by auto
  with m1 Cons.prems show ?case by (auto simp: take_add intro!: exI [of _ "take n (mb_pending m) # pieces"])
qed simp

text \<open>
  The whole life of a \<open>MultiBuffer\<close>: after any writes, any sequence of reads that
  together ask for no more than was written delivers consecutive pieces of what was written, in order.
\<close>

theorem multibuffer_write_read:
  assumes "alloc_ok alloc" and "0 < initial" and "sum_list ns \<le> length (concat ds)"
  shows "\<exists>m pieces m'. forp ds (\<lambda>d. seqp (MultiBuffer_write alloc d) (ret ())) (MultiBuffer_new initial linear) = (Inr (), m) \<and>
    read_all ns m = (Inr pieces, m') \<and> map length pieces = ns \<and> concat pieces = take (sum_list ns) (concat ds)"
proof -
  obtain m where m: "forp ds (\<lambda>d. seqp (MultiBuffer_write alloc d) (ret ())) (MultiBuffer_new initial linear) = (Inr (), m)"
      "mb_sink_inv alloc m" "mb_pending m = concat ds"
    using mbuf_pipe.forp_write [of alloc "MultiBuffer_new initial linear" ds] MultiBuffer_new_ok assms
    by (auto simp: MultiBuffer_sink_def)
  then show ?thesis using read_all_ok [of m ns] assms(3) by (auto simp: mb_sink_inv_def)
qed

theorem multibuffer_write_read_witness:
  "\<exists>m pieces m'. forp [[1, 2, 3], [4, 5]] (\<lambda>d. seqp (MultiBuffer_write zeroed_alloc d) (ret ())) (MultiBuffer_new 2 4) = (Inr (), m) \<and>
    read_all [1, 3] m = (Inr pieces, m') \<and> map length pieces = [1, 3] \<and> concat pieces = [1, 2, 3, 4]"
  using multibuffer_write_read [of zeroed_alloc 2 "[1, 3]" "[[1, 2, 3], [4, 5]]" 4] by simp

text \<open>
  \<open>MultiBuffer::skip\<close> reports that it skipped what it was asked to, but as long as there
  is anything to read it leaves the data to be read unchanged: the bytes reported as skipped are
  delivered by the next read.
\<close>

theorem multibuffer_skip_keeps_data:
  assumes "mb_inv m" and "mb_pending m \<noteq> []" and "k \<le> length (mb_pending m)"
  shows "\<exists>m' m''. MultiBuffer_skip n m = (Inr n, m') \<and> MultiBuffer_read k m' = (Inr (take k (mb_pending m)), m'')"
  using MultiBuffer_skip_stays [OF assms(1,2), of n] MultiBuffer_read_ok [of _ k] assms(3) by metis

theorem multibuffer_skip_keeps_data_witness:
  "\<exists>m' m''. MultiBuffer_skip 2 (sample_channel [7, 8, 9]) = (Inr 2, m') \<and> MultiBuffer_read 1 m' = (Inr [7], m'')"
  using multibuffer_skip_keeps_data [of "sample_channel [7, 8, 9]" 1 2] by (simp add: sample_channel_ok)

text \<open>
  Asking a \<open>MultiBuffer\<close> that holds no spare buffer for more than it has does not return
  short: the loop goes on to index its vector of buffers out of range.
\<close>

theorem multibuffer_read_past_end:
  assumes "mb_inv m" and "mb_usedBuffers m = length (mb_buffers m)" and "length (mb_pending m) < n"
  shows "fst (MultiBuffer_read n m) = Inl (Undefined ''buffer index out of range'')"
proof -
  have "mb_readBuffer m \<le> mb_usedBuffers m" using assms(1) by (auto simp: mb_inv_def)
  with mb_read_loop_past [of m n "[]"] assms show ?thesis
    by (auto simp: MultiBuffer_read_def mb_inv_def split: prod.splits sum.splits)
qed

theorem multibuffer_read_past_end_witness:
  "fst (MultiBuffer_read 4 (sample_channel [7, 8, 9])) = Inl (Undefined ''buffer index out of range'')"
  using multibuffer_read_past_end [of "sample_channel [7, 8, 9]" 4]
  by (simp add: sample_channel_ok) (simp add: sample_channel_def)

text \<open>
  C22 (roundtrip). A directory of saved messages, played without timestamps to a channel, arrives at the endpoint on its
  other side as the messages that were saved, in the order of the names of their files. Every file holds what an autosaving
  writer leaves (\<open>autosave_leaves_message\<close>).
\<close>

theorem recording_replays:
  assumes "alloc_ok alloc" and "0 < initial" and "getFilenames F path = Some names"
    and "list_all2 (\<lambda>name env. message_ok cls env \<and>
        sys_files F (path @ ''/'' @ name) = Some (saved_message cls env) \<and>
        sys_size F (path @ ''/'' @ name) = Some (length (saved_message cls env))) names envs"
    and "length freshes = length envs"
  shows "\<exists>p. playMessages T (BasicFramingSink_ops (pr_sink (MultiBuffer_peer alloc))) F path False
      \<lparr>pl_sink = BasicFramingSink_new (MultiBuffer_new initial linear), pl_slept = []\<rparr> = (Inr True, p) \<and>
    (\<exists>envs' l. link_run alloc (MultiBuffer_peer alloc) cls reg (map Receive freshes) (link_new (fsk_output (pl_sink p))) = (Inr envs', l) \<and>
      list_all2 (\<lambda>(fresh, env) env'. delivers cls fresh env env') (zip freshes envs) envs')"
proof -
  let ?p = "\<lparr>pl_sink = BasicFramingSink_new (MultiBuffer_new initial linear), pl_slept = []\<rparr>"
  have len: "length (saved_message cls env) < 2 ^ 32" if "message_ok cls env" for env
    using message_okE [OF that] by (auto simp: saved_message_def)
  have files: "list_all2 (\<lambda>name env. sys_files F (path @ ''/'' @ name) = Some (saved_message cls env) \<and>
      sys_size F (path @ ''/'' @ name) = Some (length (saved_message cls env)) \<and> length (saved_message cls env) < 2 ^ 32) names envs"
    using assms(4) by (rule list_all2_mono) (blast intro: len)
  have ok: "\<forall>env \<in> set envs. message_ok cls env" using assms(4) by (auto simp: list_all2_conv_all_nth in_set_conv_nth)
  note new = MultiBuffer_new_ok(1) [OF assms(1,2), of linear] MultiBuffer_new_ok(2) [of initial linear]
  obtain p where p: "play_files T (BasicFramingSink_ops (pr_sink (MultiBuffer_peer alloc))) F path False names (ArrasTime_zero, ArrasTime_zero) ?p =
        (Inr True, p)" "mb_sink_inv alloc (fsk_output (pl_sink p))" "mb_pending (fsk_output (pl_sink p)) = concat (map (wire cls) envs)"
    using mbuf_link.snk.framing.play_files_ok [OF _ _ files, where p = ?p and alloc = alloc and useTimestamps = False and T = T and cp = "(ArrasTime_zero, ArrasTime_zero)"] new
    by (auto simp: BasicFramingSink_new_def)
  have "mbuf_link.link_rel alloc alloc cls (link_new (fsk_output (pl_sink p))) envs"
    using p(2,3) ok assms(1) by (simp add: mbuf_link.link_rel_def link_new_def PeerMessageEndpoint_new_inv)
  from mbuf_link.link_refines_queue [OF assms(1) this _ queue_receives [OF assms(5)], of reg]
  show ?thesis using p(1) assms(3) by (auto simp: playMessages_def sends_ok_def)
qed

definition sample_recording :: file_system where
  "sample_recording = \<lparr>sys_size = (\<lambda>_. Some (length (saved_message (core_class zeroed_alloc) sample_env))),
     sys_files = (\<lambda>_. Some (saved_message (core_class zeroed_alloc) sample_env)),
     sys_dir = (\<lambda>_. Some [''b.msg'', ''notes'', ''a.msg''])\<rparr>"

theorem recording_replays_witness:
  "getFilenames sample_recording ''d'' = Some [''a.msg'', ''b.msg''] \<and>
   (\<exists>p. playMessages dot_time_api (BasicFramingSink_ops (pr_sink (MultiBuffer_peer zeroed_alloc))) sample_recording ''d'' False
      \<lparr>pl_sink = BasicFramingSink_new (MultiBuffer_new 64 64), pl_slept = []\<rparr> = (Inr True, p) \<and>
    (\<exists>envs' l. link_run zeroed_alloc (MultiBuffer_peer zeroed_alloc) (core_class zeroed_alloc) core_registry
        (map Receive [sample_md, sample_md]) (link_new (fsk_output (pl_sink p))) = (Inr envs', l) \<and>
      list_all2 (\<lambda>(fresh, env) env'. delivers (core_class zeroed_alloc) fresh env env')
        (zip [sample_md, sample_md] [sample_env, sample_env]) envs'))"
proof -
  have names: "getFilenames sample_recording ''d'' = Some [''a.msg'', ''b.msg'']"
    by (simp add: sample_recording_def getFilenames_def msg_name_def insort_insert_key_def)
  have files: "list_all2 (\<lambda>name env. message_ok (core_class zeroed_alloc) env \<and>
      sys_files sample_recording (''d'' @ ''/'' @ name) = Some (saved_message (core_class zeroed_alloc) env) \<and>
      sys_size sample_recording (''d'' @ ''/'' @ name) = Some (length (saved_message (core_class zeroed_alloc) env)))
      [''a.msg'', ''b.msg''] [sample_env, sample_env]"
    by (simp add: sample_recording_def sample_message_ok)
  show ?thesis
    using names recording_replays [OF alloc_ok_zeroed, of 64 sample_recording "''d''" "[''a.msg'', ''b.msg'']" "core_class zeroed_alloc"
        "[sample_env, sample_env]" "[sample_md, sample_md]" dot_time_api 64 core_registry] files
    by simp
qed

end
